(* ===== verification/Prelude.thy ===== *)
theory Prelude
  imports Main "HOL-Library.Word" "HOL-Library.Monad_Syntax"
begin

text \<open>
  Shared vocabulary of the development: the machine types of the emulator
  (\<^verbatim>\<open>Common/CommonTypes.h\<close>), the collections of simplification rules the component
  theories feed, the model of \<^verbatim>\<open>std::map\<close> as a list of key/value pairs with strictly
  increasing keys and of its iterators as keys, and the generic lemmas about lists,
  the option monad and words that more than one component uses.

  Partiality convention: a C++ operation with undefined behaviour or a failing
  \<^verbatim>\<open>assert\<close> is an operation into \<open>'a option\<close> whose \<open>None\<close> is the failure, so a lemma
  that such an operation returns \<open>Some\<close> also shows that no failure is reachable.
\<close>

unbundle bit_operations_syntax

section \<open>Machine types\<close>

type_synonym u8 = "8 word"
type_synonym u16 = "16 word"
type_synonym u32 = "32 word"
type_synonym u64 = "64 word"

named_theorems field_defs \<open>definitions of register fields\<close>
named_theorems smap_simps \<open>operations of the ordered map on a list split at the iterator\<close>
named_theorems sim_intros \<open>one rule per operation of a refinement\<close>

section \<open>The option monad\<close>

text \<open>An \<^verbatim>\<open>assert\<close>: nothing when the condition holds, failure otherwise.\<close>

definition check :: "bool \<Rightarrow> unit option" where
  "check b = (if b then Some () else None)"

lemma check_simps [simp]: "check True = Some ()" "check False = None"
  by (simp_all add: check_def)

lemma check_Some_iff [simp]: "check b = Some u \<longleftrightarrow> b"
  by (simp add: check_def)

lemma less_not_le: "(a::'a::preorder) < b \<Longrightarrow> \<not> b \<le> a"
  by (simp add: less_le_not_le)

section \<open>Words\<close>

lemma unat_word_of_nat_less:
  "n < 2 ^ LENGTH('a) \<Longrightarrow> unat (word_of_nat n :: 'a::len word) = n"
  by (simp add: unsigned_of_nat take_bit_nat_eq_self)

lemma nat_and_7: "(c :: nat) AND 7 < 8"
proof -
  have "c AND 7 = take_bit 3 c" by (simp add: take_bit_eq_mask mask_eq_exp_minus_1)
  also have "\<dots> < 2 ^ 3" by (rule take_bit_nat_less_exp)
  finally show ?thesis by simp
qed

lemma unat_less: "unat (w :: 'a::len word) < 2 ^ LENGTH('a)"
  by (rule unsigned_less)

lemma unat_Suc_less: "a < (b :: 'a::len word) \<Longrightarrow> unat (a + 1) = unat a + 1"
proof -
  assume "a < b"
  then have "unat a + 1 \<le> unat b" by (simp add: word_less_nat_alt)
  also have "unat b < 2 ^ LENGTH('a)" by (rule unat_less)
  finally have "unat a + unat (1 :: 'a word) < 2 ^ LENGTH('a)" by simp
  then show ?thesis by (simp add: unat_add_lem [THEN iffD1])
qed

section \<open>Numbers as text\<close>

definition hex_digit :: "nat \<Rightarrow> char" where
  "hex_digit n = ''0123456789abcdef'' ! n"

fun dec :: "nat \<Rightarrow> string" where
  "dec n = (if n < 10 then [hex_digit n] else dec (n div 10) @ [hex_digit (n mod 10)])"

declare dec.simps [simp del]

section \<open>Ordered maps\<close>

text \<open>
  \<^verbatim>\<open>std::map<K, V>\<close> as the list of its elements in key order; an iterator is the key it
  points at, or \<open>End\<close>. Iterators stay valid across insertions and across erasures of other
  elements, as the standard guarantees, because they name the key.
\<close>

type_synonym ('k, 'v) smap = "('k \<times> 'v) list"

datatype 'k iter = At 'k | End

definition smap_ok :: "('k::linorder, 'v) smap \<Rightarrow> bool" where
  "smap_ok m \<longleftrightarrow> sorted_wrt (<) (map fst m)"

fun smap_begin :: "('k, 'v) smap \<Rightarrow> 'k iter" where
  "smap_begin [] = End"
| "smap_begin (e # m) = At (fst e)"

definition upper_bound :: "('k::linorder, 'v) smap \<Rightarrow> 'k \<Rightarrow> 'k iter" where
  "upper_bound m k = smap_begin (dropWhile (\<lambda>e. fst e \<le> k) m)"

definition lower_bound :: "('k::linorder, 'v) smap \<Rightarrow> 'k \<Rightarrow> 'k iter" where
  "lower_bound m k = smap_begin (dropWhile (\<lambda>e. fst e < k) m)"

fun deref :: "('k, 'v) smap \<Rightarrow> 'k iter \<Rightarrow> ('k \<times> 'v) option" where
  "deref m End = None"
| "deref m (At k) = map_option (Pair k) (map_of m k)"

text \<open>\<^verbatim>\<open>++it\<close>, undefined on the end iterator.\<close>

fun iter_next :: "('k::linorder, 'v) smap \<Rightarrow> 'k iter \<Rightarrow> 'k iter option" where
  "iter_next m End = None"
| "iter_next m (At k) = Some (upper_bound m k)"

text \<open>\<^verbatim>\<open>--it\<close>, undefined on the begin iterator.\<close>

definition iter_prev :: "('k::linorder, 'v) smap \<Rightarrow> 'k iter \<Rightarrow> 'k iter option" where
  "iter_prev m it =
     (case (case it of End \<Rightarrow> m | At k \<Rightarrow> takeWhile (\<lambda>e. fst e < k) m) of
        [] \<Rightarrow> None
      | e # es \<Rightarrow> Some (At (fst (last (e # es)))))"

text \<open>\<^verbatim>\<open>emplace\<close> does not replace the value of a key that is present.\<close>

fun smap_emplace :: "('k::linorder) \<Rightarrow> 'v \<Rightarrow> ('k, 'v) smap \<Rightarrow> ('k, 'v) smap" where
  "smap_emplace k v [] = [(k, v)]"
| "smap_emplace k v (e # m) =
     (if k < fst e then (k, v) # e # m
      else if k = fst e then e # m
      else e # smap_emplace k v m)"

definition smap_set :: "'k \<Rightarrow> 'v \<Rightarrow> ('k, 'v) smap \<Rightarrow> ('k, 'v) smap" where
  "smap_set k v m = map (\<lambda>e. if fst e = k then (k, v) else e) m"

text \<open>\<^verbatim>\<open>erase(it)\<close> returns the iterator that follows the erased element.\<close>

definition smap_erase ::
  "('k::linorder, 'v) smap \<Rightarrow> 'k iter \<Rightarrow> (('k, 'v) smap \<times> 'k iter) option" where
  "smap_erase m it =
     do { e \<leftarrow> deref m it;
          let m' = filter (\<lambda>x. fst x \<noteq> fst e) m;
          Some (m', upper_bound m' (fst e)) }"

subsection \<open>The operations on a map split at the iterator\<close>

lemma smap_ok_Nil [simp]: "smap_ok []"
  by (simp add: smap_ok_def)

lemma smap_ok_Cons [simp]:
  "smap_ok (e # m) \<longleftrightarrow> (\<forall>x\<in>set m. fst e < fst x) \<and> smap_ok m"
  by (auto simp: smap_ok_def)

lemma smap_ok_append:
  "smap_ok (xs @ ys) \<longleftrightarrow>
     smap_ok xs \<and> smap_ok ys \<and> (\<forall>x\<in>set xs. \<forall>y\<in>set ys. fst x < fst y)"
  by (auto simp: smap_ok_def sorted_wrt_append)

lemma smap_begin_append: "smap_begin (xs @ ys) = (if xs = [] then smap_begin ys else smap_begin xs)"
  by (cases xs) simp_all

lemma smap_begin_eq_End [simp]: "smap_begin m = End \<longleftrightarrow> m = []"
  by (cases m) simp_all

lemma smap_begin_eq_At: "smap_begin m = At k \<longleftrightarrow> (\<exists>v m'. m = (k, v) # m')"
  by (cases m) (auto intro: prod_eqI)

lemma upper_bound_split [smap_simps]:
  assumes "\<forall>x\<in>set xs. fst x \<le> k" and "\<forall>y\<in>set ys. k < fst y"
  shows "upper_bound (xs @ ys) k = smap_begin ys"
proof -
  have "dropWhile (\<lambda>e. fst e \<le> k) (xs @ ys) = ys"
    using assms by (cases ys) (auto simp: dropWhile_append2)
  then show ?thesis by (simp add: upper_bound_def)
qed

lemma lower_bound_split [smap_simps]:
  assumes "\<forall>x\<in>set xs. fst x < k" and "\<forall>y\<in>set ys. k \<le> fst y"
  shows "lower_bound (xs @ ys) k = smap_begin ys"
proof -
  have "dropWhile (\<lambda>e. fst e < k) (xs @ ys) = ys"
    using assms by (cases ys) (auto simp: dropWhile_append2)
  then show ?thesis by (simp add: lower_bound_def)
qed

lemma deref_split [smap_simps]:
  "smap_ok (xs @ (k, v) # ys) \<Longrightarrow> deref (xs @ (k, v) # ys) (At k) = Some (k, v)"
  by (force simp: smap_ok_append map_add_def split: option.split dest: map_of_SomeD)

declare deref.simps(2) [simp del]

lemma iter_prev_split [smap_simps]:
  assumes "smap_ok (xs @ e # ys)"
  shows "iter_prev (xs @ e # ys) (smap_begin ys) = Some (At (fst e))"
proof (cases ys)
  case Nil
  then show ?thesis by (cases xs) (simp_all add: iter_prev_def)
next
  case (Cons y ys')
  have "takeWhile (\<lambda>x. fst x < fst y) ((xs @ [e]) @ y # ys') = xs @ [e]"
    using assms Cons by (subst takeWhile_append2) (auto simp: smap_ok_append)
  then show ?thesis using Cons by (cases xs) (simp_all add: iter_prev_def)
qed

lemma iter_next_split [smap_simps]:
  assumes "smap_ok (xs @ e # ys)"
  shows "iter_next (xs @ e # ys) (At (fst e)) = Some (smap_begin ys)"
proof -
  have "upper_bound ((xs @ [e]) @ ys) (fst e) = smap_begin ys"
    using assms by (intro upper_bound_split) (auto simp: smap_ok_append less_imp_le)
  then show ?thesis by simp
qed

lemma smap_emplace_split [smap_simps]:
  "\<forall>x\<in>set xs. fst x < k \<Longrightarrow> \<forall>y\<in>set ys. k < fst y \<Longrightarrow>
   smap_emplace k v (xs @ ys) = xs @ (k, v) # ys"
proof (induction xs)
  case Nil
  then show ?case by (cases ys) simp_all
qed auto

lemma smap_set_split [smap_simps]:
  "smap_ok (xs @ (k, v) # ys) \<Longrightarrow> smap_set k w (xs @ (k, v) # ys) = xs @ (k, w) # ys"
  by (auto simp: smap_set_def smap_ok_append intro!: map_idI)

lemma smap_erase_split [smap_simps]:
  assumes "smap_ok (xs @ (k, v) # ys)"
  shows "smap_erase (xs @ (k, v) # ys) (At k) = Some (xs @ ys, smap_begin ys)"
proof -
  have "filter (\<lambda>x. fst x \<noteq> k) xs = xs" "filter (\<lambda>x. fst x \<noteq> k) ys = ys"
    using assms by (auto simp: smap_ok_append filter_id_conv)
  then have "filter (\<lambda>x. fst x \<noteq> k) (xs @ (k, v) # ys) = xs @ ys"
    by simp
  moreover have "upper_bound (xs @ ys) k = smap_begin ys"
    using assms by (intro upper_bound_split) (auto simp: smap_ok_append less_imp_le)
  ultimately show ?thesis
    using assms by (simp add: smap_erase_def deref_split)
qed

text \<open>Every map splits at a key: the part at or below it and the part above.\<close>

lemma smap_split_upper:
  assumes "smap_ok m"
  obtains xs ys where "m = xs @ ys" "\<forall>x\<in>set xs. fst x \<le> k" "\<forall>y\<in>set ys. k < fst y"
proof
  show "m = takeWhile (\<lambda>e. fst e \<le> k) m @ dropWhile (\<lambda>e. fst e \<le> k) m" by simp
  show "\<forall>x\<in>set (takeWhile (\<lambda>e. fst e \<le> k) m). fst x \<le> k" by (auto dest: set_takeWhileD)
  show "\<forall>y\<in>set (dropWhile (\<lambda>e. fst e \<le> k) m). k < fst y"
    using assms by (induction m) (auto simp: not_le intro: less_trans)
qed

lemma smap_split_lower:
  assumes "smap_ok m"
  obtains xs ys where "m = xs @ ys" "\<forall>x\<in>set xs. fst x < k" "\<forall>y\<in>set ys. k \<le> fst y"
proof
  show "m = takeWhile (\<lambda>e. fst e < k) m @ dropWhile (\<lambda>e. fst e < k) m" by simp
  show "\<forall>x\<in>set (takeWhile (\<lambda>e. fst e < k) m). fst x < k" by (auto dest: set_takeWhileD)
  show "\<forall>y\<in>set (dropWhile (\<lambda>e. fst e < k) m). k \<le> fst y"
    using assms by (induction m) (auto simp: not_less intro: less_imp_le order.trans)
qed

end
