(* ===== verification/Range_Set.thy ===== *)
theory Range_Set
  imports Prelude
begin

text \<open>
  \<^verbatim>\<open>Common/RangeSet.h\<close>: a set of disjoint, non-touching half-open ranges kept in a
  \<^verbatim>\<open>std::map\<close> from start to end. The private helpers and the public operations are
  translated one by one; every iterator dereference, every \<^verbatim>\<open>--it\<close> and every
  \<^verbatim>\<open>assert\<close> of the source is a possible failure of the model. The theorems show that
  none of them fails on a well-formed set and that \<^verbatim>\<open>insert\<close>, \<^verbatim>\<open>erase\<close>,
  \<^verbatim>\<open>contains\<close> and \<^verbatim>\<open>overlaps\<close> are union, difference, membership and
  intersection test on the set of points.
\<close>

section \<open>The private helpers\<close>

type_synonym 'a range_map = "('a, 'a) smap"

definition get_from :: "'a range_map \<Rightarrow> 'a iter \<Rightarrow> 'a option" where
  "get_from m it = map_option fst (deref m it)"

definition get_to :: "'a range_map \<Rightarrow> 'a iter \<Rightarrow> 'a option" where
  "get_to m it = map_option snd (deref m it)"

definition insert_range ::
  "('a::linorder) range_map \<Rightarrow> 'a \<Rightarrow> 'a \<Rightarrow> 'a range_map \<times> 'a iter" where
  "insert_range m from to = (smap_emplace from to m, At from)"

definition erase_range ::
  "('a::linorder) range_map \<Rightarrow> 'a iter \<Rightarrow> ('a range_map \<times> 'a iter) option" where
  "erase_range m it = smap_erase m it"

definition expand_to ::
  "('a::linorder) range_map \<Rightarrow> 'a iter \<Rightarrow> 'a \<Rightarrow> 'a range_map option" where
  "expand_to m it to =
     do { f \<leftarrow> get_from m it;
          t \<leftarrow> get_to m it;
          check (t < to);
          Some (smap_set f to m) }"

definition reduce_to ::
  "('a::linorder) range_map \<Rightarrow> 'a iter \<Rightarrow> 'a \<Rightarrow> 'a range_map option" where
  "reduce_to m it to =
     do { f \<leftarrow> get_from m it;
          t \<leftarrow> get_to m it;
          check (t > to);
          Some (smap_set f to m) }"

definition maybe_expand_to ::
  "('a::linorder) range_map \<Rightarrow> 'a iter \<Rightarrow> 'a \<Rightarrow> 'a range_map option" where
  "maybe_expand_to m it to =
     do { t \<leftarrow> get_to m it;
          if to \<le> t then Some m else expand_to m it to }"

definition reduce_from ::
  "('a::linorder) range_map \<Rightarrow> 'a iter \<Rightarrow> 'a \<Rightarrow> ('a range_map \<times> 'a iter) option" where
  "reduce_from m it from =
     do { f \<leftarrow> get_from m it;
          check (f < from);
          itto \<leftarrow> get_to m it;
          (m', _) \<leftarrow> erase_range m it;
          Some (insert_range m' from itto) }"

definition bisect_range ::
  "('a::linorder) range_map \<Rightarrow> 'a iter \<Rightarrow> 'a \<Rightarrow> 'a \<Rightarrow> 'a range_map option" where
  "bisect_range m it from to =
     do { f \<leftarrow> get_from m it;
          t \<leftarrow> get_to m it;
          check (f < from);
          check (f < to);
          check (t > from);
          check (t > to);
          check (from < to);
          m' \<leftarrow> reduce_to m it from;
          Some (fst (insert_range m' to t)) }"

partial_function (option) merge_from_iterator_to_value ::
  "('a::linorder) range_map \<Rightarrow> 'a iter \<Rightarrow> 'a iter \<Rightarrow> 'a \<Rightarrow> 'a range_map option" where
  "merge_from_iterator_to_value m inserted bound to =
     (if bound = End then Some m
      else do { f \<leftarrow> get_from m bound;
                if \<not> f \<le> to then Some m
                else do { t \<leftarrow> get_to m bound;
                          m1 \<leftarrow> maybe_expand_to m inserted t;
                          (m2, bound') \<leftarrow> erase_range m1 bound;
                          merge_from_iterator_to_value m2 inserted bound' to } })"

partial_function (option) erase_from_iterator_to_value ::
  "('a::linorder) range_map \<Rightarrow> 'a iter \<Rightarrow> 'a \<Rightarrow> 'a range_map option" where
  "erase_from_iterator_to_value m bound to =
     do { f \<leftarrow> get_from m bound;
          if to \<le> f then Some m
          else do { t \<leftarrow> get_to m bound;
                    if to < t then map_option fst (reduce_from m bound to)
                    else if to = t then map_option fst (erase_range m bound)
                    else do { (m', bound') \<leftarrow> erase_range m bound;
                              if bound' = End then Some m'
                              else erase_from_iterator_to_value m' bound' to } } }"

section \<open>The public operations\<close>

definition rs_insert ::
  "('a::linorder) range_map \<Rightarrow> 'a \<Rightarrow> 'a \<Rightarrow> 'a range_map option" where
  "rs_insert m from to =
     (if from \<ge> to then Some m
      else let bound = upper_bound m from in
        if bound = End then
          (if m = [] then Some (fst (insert_range m from to))
           else do { bound' \<leftarrow> iter_prev m bound;
                     t \<leftarrow> get_to m bound';
                     if from > t then Some (fst (insert_range m from to))
                     else maybe_expand_to m bound' to })
        else if bound = smap_begin m then
          (let (m', inserted) = insert_range m from to
           in merge_from_iterator_to_value m' inserted bound to)
        else
          do { let abound = bound;
               bound' \<leftarrow> iter_prev m bound;
               t \<leftarrow> get_to m bound';
               if t \<ge> from then
                 do { m1 \<leftarrow> maybe_expand_to m bound' to;
                      bound'' \<leftarrow> iter_next m1 bound';
                      merge_from_iterator_to_value m1 bound' bound'' to }
               else
                 do { af \<leftarrow> get_from m abound;
                      if af \<le> to then
                        do { at \<leftarrow> get_to m abound;
                             let (m1, inserted) = insert_range m from (if to \<ge> at then to else at);
                             (m2, abound') \<leftarrow> erase_range m1 abound;
                             merge_from_iterator_to_value m2 inserted abound' to }
                      else Some (fst (insert_range m from to)) } })"

definition rs_erase ::
  "('a::linorder) range_map \<Rightarrow> 'a \<Rightarrow> 'a \<Rightarrow> 'a range_map option" where
  "rs_erase m from to =
     (if from \<ge> to then Some m
      else let bound = upper_bound m from in
        if bound = End then
          (if m = [] then Some m
           else do { bound' \<leftarrow> iter_prev m bound;
                     t \<leftarrow> get_to m bound';
                     f \<leftarrow> get_from m bound';
                     if from \<ge> t then Some m
                     else if to \<ge> t then
                       (if from = f then map_option fst (erase_range m bound')
                        else reduce_to m bound' from)
                     else if from = f then map_option fst (reduce_from m bound' to)
                     else bisect_range m bound' from to })
        else if bound = smap_begin m then erase_from_iterator_to_value m bound to
        else
          do { let abound = bound;
               bound' \<leftarrow> iter_prev m bound;
               f \<leftarrow> get_from m bound';
               if from = f then erase_from_iterator_to_value m bound' to
               else
                 do { t \<leftarrow> get_to m bound';
                      if from < t then
                        (if to < t then bisect_range m bound' from to
                         else do { m1 \<leftarrow> reduce_to m bound' from;
                                   erase_from_iterator_to_value m1 abound to })
                      else erase_from_iterator_to_value m abound to } })"

definition rs_contains :: "('a::linorder) range_map \<Rightarrow> 'a \<Rightarrow> bool option" where
  "rs_contains m value =
     (let it = upper_bound m value in
        if it = smap_begin m then Some False
        else do { it' \<leftarrow> iter_prev m it;
                  f \<leftarrow> get_from m it';
                  t \<leftarrow> get_to m it';
                  Some (f \<le> value \<and> value < t) })"

definition rs_overlaps :: "('a::linorder) range_map \<Rightarrow> 'a \<Rightarrow> 'a \<Rightarrow> bool option" where
  "rs_overlaps m from to =
     (if from \<ge> to then Some False
      else let it = lower_bound m to in
        if it = smap_begin m then Some False
        else do { it' \<leftarrow> iter_prev m it;
                  f \<leftarrow> get_from m it';
                  t \<leftarrow> get_to m it';
                  Some (f < to \<and> from < t) })"

definition rs_clear :: "'a range_map \<Rightarrow> 'a range_map" where
  "rs_clear m = []"

definition rs_size :: "'a range_map \<Rightarrow> nat" where
  "rs_size m = length m"

definition rs_empty :: "'a range_map \<Rightarrow> bool" where
  "rs_empty m \<longleftrightarrow> m = []"

definition rs_equal :: "'a range_map \<Rightarrow> 'a range_map \<Rightarrow> bool" where
  "rs_equal m other \<longleftrightarrow> m = other"

section \<open>Well-formedness and the set of points\<close>

text \<open>
  The comment above the member \<^verbatim>\<open>Map\<close>: starts are smaller than ends, ranges never
  touch and never overlap.
\<close>

definition ranges_ok :: "('a::linorder) range_map \<Rightarrow> bool" where
  "ranges_ok m \<longleftrightarrow>
     (\<forall>e\<in>set m. fst e < snd e) \<and> sorted_wrt (\<lambda>x y. snd x < fst y) m"

definition points :: "('a::linorder) range_map \<Rightarrow> 'a set" where
  "points m = (\<Union>e\<in>set m. {fst e..<snd e})"

lemma ranges_ok_Nil [simp]: "ranges_ok []"
  by (simp add: ranges_ok_def)

lemma ranges_ok_Cons [simp]:
  "ranges_ok (e # m) \<longleftrightarrow> fst e < snd e \<and> (\<forall>x\<in>set m. snd e < fst x) \<and> ranges_ok m"
  by (auto simp: ranges_ok_def)

lemma ranges_ok_append:
  "ranges_ok (xs @ ys) \<longleftrightarrow>
     ranges_ok xs \<and> ranges_ok ys \<and> (\<forall>x\<in>set xs. \<forall>y\<in>set ys. snd x < fst y)"
  by (auto simp: ranges_ok_def sorted_wrt_append)

lemma ranges_ok_less: "ranges_ok m \<Longrightarrow> e \<in> set m \<Longrightarrow> fst e < snd e"
  by (auto simp: ranges_ok_def)

lemma ranges_ok_smap_ok: "ranges_ok m \<Longrightarrow> smap_ok m"
  by (induction m) (auto intro: less_trans)

lemma points_Nil [simp]: "points [] = {}"
  by (simp add: points_def)

lemma points_Cons [simp]: "points (e # m) = {fst e..<snd e} \<union> points m"
  by (simp add: points_def)

lemma points_append [simp]: "points (xs @ ys) = points xs \<union> points ys"
  by (simp add: points_def)

lemma in_points_iff: "x \<in> points m \<longleftrightarrow> (\<exists>e\<in>set m. fst e \<le> x \<and> x < snd e)"
  by (auto simp: points_def)

text \<open>The helpers on a map split at the iterator.\<close>

lemma get_split [smap_simps]:
  assumes "smap_ok (xs @ (k, v) # ys)"
  shows "get_from (xs @ (k, v) # ys) (At k) = Some k"
    and "get_to (xs @ (k, v) # ys) (At k) = Some v"
  using deref_split [OF assms] by (simp_all add: get_from_def get_to_def)

lemma expand_to_split [smap_simps]:
  "smap_ok (xs @ (k, v) # ys) \<Longrightarrow> v < w \<Longrightarrow>
   expand_to (xs @ (k, v) # ys) (At k) w = Some (xs @ (k, w) # ys)"
  by (simp add: expand_to_def smap_simps)

lemma reduce_to_split [smap_simps]:
  "smap_ok (xs @ (k, v) # ys) \<Longrightarrow> w < v \<Longrightarrow>
   reduce_to (xs @ (k, v) # ys) (At k) w = Some (xs @ (k, w) # ys)"
  by (simp add: reduce_to_def smap_simps)

lemma maybe_expand_to_split [smap_simps]:
  "smap_ok (xs @ (k, v) # ys) \<Longrightarrow>
   maybe_expand_to (xs @ (k, v) # ys) (At k) w = Some (xs @ (k, max v w) # ys)"
  by (auto simp: maybe_expand_to_def smap_simps max_def)

lemma erase_range_split [smap_simps]:
  "smap_ok (xs @ (k, v) # ys) \<Longrightarrow>
   erase_range (xs @ (k, v) # ys) (At k) = Some (xs @ ys, smap_begin ys)"
  by (simp add: erase_range_def smap_simps)

lemma insert_range_split [smap_simps]:
  "\<forall>x\<in>set xs. fst x < k \<Longrightarrow> \<forall>y\<in>set ys. k < fst y \<Longrightarrow>
   insert_range (xs @ ys) k v = (xs @ (k, v) # ys, At k)"
  by (simp add: insert_range_def smap_simps)

lemma reduce_from_split [smap_simps]:
  assumes "smap_ok (xs @ (k, v) # ys)" and "k < w" and "\<forall>y\<in>set ys. w < fst y"
  shows "reduce_from (xs @ (k, v) # ys) (At k) w = Some (xs @ (w, v) # ys, At w)"
proof -
  have "\<forall>x\<in>set xs. fst x < w"
    using assms(1,2) by (auto simp: smap_ok_append intro: less_trans)
  with assms show ?thesis
    by (simp add: reduce_from_def smap_simps)
qed

lemma bisect_range_split [smap_simps]:
  assumes "smap_ok (xs @ (k, v) # ys)" and "k < f" "f < t" "t < v" and "\<forall>y\<in>set ys. v < fst y"
  shows "bisect_range (xs @ (k, v) # ys) (At k) f t = Some (xs @ (k, f) # (t, v) # ys)"
proof -
  have "\<forall>x\<in>set (xs @ [(k, f)]). fst x < t" and "\<forall>y\<in>set ys. t < fst y"
    using assms by (auto simp: smap_ok_append intro: less_trans)
  then have "insert_range ((xs @ [(k, f)]) @ ys) t v = ((xs @ [(k, f)]) @ (t, v) # ys, At t)"
    by (rule insert_range_split)
  moreover have "k < t" "f < v" using assms by auto
  ultimately show ?thesis
    using assms by (simp add: bisect_range_def smap_simps)
qed

text \<open>What the merge loop computes: the new end of the range and what is left after it.\<close>

fun merge_tail :: "'a::linorder \<Rightarrow> 'a \<Rightarrow> 'a range_map \<Rightarrow> 'a \<times> 'a range_map" where
  "merge_tail e to [] = (e, [])"
| "merge_tail e to (r # rs) =
     (if fst r \<le> to then merge_tail (max e (snd r)) to rs else (e, r # rs))"

fun erase_tail :: "'a::linorder \<Rightarrow> 'a range_map \<Rightarrow> 'a range_map" where
  "erase_tail to [] = []"
| "erase_tail to (r # rs) =
     (if to \<le> fst r then r # rs
      else if to < snd r then (to, snd r) # rs
      else if to = snd r then rs
      else erase_tail to rs)"

lemma merge_loop [smap_simps]:
  "smap_ok (xs @ (k, e) # rs) \<Longrightarrow>
   merge_from_iterator_to_value (xs @ (k, e) # rs) (At k) (smap_begin rs) to =
     Some (xs @ (k, fst (merge_tail e to rs)) # snd (merge_tail e to rs))"
proof (induction rs arbitrary: e)
  case Nil
  then show ?case by (subst merge_from_iterator_to_value.simps) simp
next
  case (Cons r rs)
  obtain a b where r: "r = (a, b)" by force
  have ok: "smap_ok ((xs @ [(k, e)]) @ (a, b) # rs)" "smap_ok (xs @ (k, e) # (a, b) # rs)"
    using Cons.prems by (simp_all add: r)
  note g = get_split [OF ok(1)] and mx = maybe_expand_to_split [OF ok(2)]
  have ok2: "smap_ok ((xs @ [(k, max e b)]) @ (a, b) # rs)" and ok3: "smap_ok (xs @ (k, max e b) # rs)"
    using ok(2) by (auto simp: smap_ok_append)
  show ?case
    using g erase_range_split [OF ok2] Cons.IH [OF ok3]
    by (subst merge_from_iterator_to_value.simps) (auto simp: r mx)
qed

lemma erase_loop [smap_simps]:
  "ranges_ok (xs @ r # rs) \<Longrightarrow>
   erase_from_iterator_to_value (xs @ r # rs) (At (fst r)) to = Some (xs @ erase_tail to (r # rs))"
proof (induction rs arbitrary: r)
  case Nil
  obtain a b where r: "r = (a, b)" by force
  with Nil ranges_ok_smap_ok [OF Nil] show ?case
    by (subst erase_from_iterator_to_value.simps) (auto simp: smap_simps)
next
  case (Cons q rs)
  obtain a b where r: "r = (a, b)" by force
  have ok: "smap_ok (xs @ (a, b) # q # rs)" and ok': "ranges_ok (xs @ q # rs)"
    and after: "b < fst q" "\<forall>y\<in>set rs. b < fst y" "a < b"
    using ranges_ok_smap_ok [OF Cons.prems] Cons.prems by (auto simp: r ranges_ok_append)
  have "\<forall>y\<in>set (q # rs). to < fst y" if "to < b"
    using that after by (auto intro: less_trans)
  then have red: "reduce_from (xs @ (a, b) # q # rs) (At a) to = Some (xs @ (to, b) # q # rs, At to)"
    if "a < to" "to < b" using that by (intro reduce_from_split [OF ok]) auto
  show ?case
    using get_split [OF ok] erase_range_split [OF ok] Cons.IH [OF ok'] red
    by (subst erase_from_iterator_to_value.simps) (auto simp: r)
qed

lemma merge_tail_ok:
  assumes "k < e" "to \<le> e" "ranges_ok rs" "\<forall>r\<in>set rs. k < fst r"
    and "\<forall>r\<in>set rs. to < fst r \<longrightarrow> e < fst r"
  shows "ranges_ok ((k, fst (merge_tail e to rs)) # snd (merge_tail e to rs)) \<and>
    {k..<fst (merge_tail e to rs)} \<union> points (snd (merge_tail e to rs)) = {k..<e} \<union> points rs"
  using assms
proof (induction rs arbitrary: e)
  case (Cons r rs)
  show ?case
  proof (cases "fst r \<le> to")
    case True
    have "k < max e (snd r)" "to \<le> max e (snd r)" "\<forall>q\<in>set rs. to < fst q \<longrightarrow> max e (snd r) < fst q"
      using Cons.prems by (auto simp: less_max_iff_disj le_max_iff_disj)
    then have "ranges_ok ((k, fst (merge_tail (max e (snd r)) to rs)) # snd (merge_tail (max e (snd r)) to rs))
      \<and> {k..<fst (merge_tail (max e (snd r)) to rs)} \<union> points (snd (merge_tail (max e (snd r)) to rs)) =
        {k..<max e (snd r)} \<union> points rs"
      using Cons.prems by (intro Cons.IH) auto
    moreover have "{k..<max e (snd r)} = {k..<e} \<union> {fst r..<snd r}"
      using True Cons.prems by (auto simp: less_max_iff_disj)
    ultimately show ?thesis using True by auto
  next
    case False
    with Cons.prems have "e < fst r" by auto
    with False Cons.prems show ?thesis by (force simp: not_le)
  qed
qed simp

lemma erase_tail_ok:
  assumes "ranges_ok rs"
  shows "ranges_ok (erase_tail to rs)" and "points (erase_tail to rs) = points rs - {..<to}"
    and "\<forall>r\<in>set rs. x < fst r \<Longrightarrow> \<forall>r\<in>set (erase_tail to rs). x < fst r"
proof -
  have above: "{..<to} \<inter> points q = {}" if "\<forall>r\<in>set q. to < fst r" for q
    using that by (force simp: in_points_iff)
  show "ranges_ok (erase_tail to rs)"
    using assms by (induction rs) auto
  show "points (erase_tail to rs) = points rs - {..<to}"
    using assms
  proof (induction rs)
    case (Cons r rs)
    have rs: "\<forall>q\<in>set rs. snd r < fst q" using Cons.prems by simp
    consider "to \<le> fst r" | "fst r < to" "to < snd r" | "to = snd r" | "snd r < to"
      by (meson leI linorder_neqE)
    then show ?case
    proof cases
      case 1
      then have "\<forall>q\<in>set rs. to < fst q"
        using rs Cons.prems by (auto intro: le_less_trans less_trans)
      with 1 above [of rs] show ?thesis by auto
    next
      case 2
      then have "\<forall>q\<in>set rs. to < fst q" using rs by (auto intro: less_trans)
      with 2 above [of rs] show ?thesis by (auto simp: not_le)
    next
      case 3
      with rs Cons.prems above [of rs] show ?thesis by auto
    next
      case 4
      then have "fst r < to" using Cons.prems by auto
      with 4 Cons show ?thesis by auto
    qed
  qed simp
  show "\<forall>r\<in>set (erase_tail to rs). x < fst r" if "\<forall>r\<in>set rs. x < fst r"
    using that assms by (induction rs) (auto simp: not_le intro: less_trans)
qed

lemma ranges_split_last:
  assumes "ranges_ok m" "\<forall>x\<in>set xs. fst x \<le> k" "m = xs @ ys" "xs \<noteq> []"
  obtains xs' f t where "xs = xs' @ [(f, t)]" "f \<le> k" "\<forall>x\<in>set xs'. fst x < f \<and> snd x < f"
    "\<forall>x\<in>set xs'. snd x < k"
    "\<forall>y\<in>set ys. t < fst y" "f < t" "smap_ok (xs' @ (f, t) # ys)"
proof -
  obtain xs' e where xs: "xs = xs' @ [e]" using assms(4) by (metis rev_exhaust)
  obtain f t where e: "e = (f, t)" by force
  have "smap_ok (xs' @ (f, t) # ys)" using ranges_ok_smap_ok [OF assms(1)] by (simp add: assms(3) xs e)
  with assms show ?thesis
    by (intro that [of xs' f t]) (auto simp: xs e ranges_ok_append smap_ok_append intro: less_le_trans)
qed

lemma upper_bound_cases:
  assumes "ranges_ok m"
  obtains (first) "\<forall>y\<in>set m. k < fst y" "upper_bound m k = smap_begin m"
  | (later) xs f t ys where "m = xs @ (f, t) # ys" "f \<le> k" "\<forall>y\<in>set ys. k < fst y"
      "upper_bound m k = smap_begin ys" "iter_prev m (smap_begin ys) = Some (At f)"
      "smap_begin ys \<noteq> smap_begin m"
proof -
  obtain xs ys where m: "m = xs @ ys" and xs: "\<forall>x\<in>set xs. fst x \<le> k" and ys: "\<forall>y\<in>set ys. k < fst y"
    using smap_split_upper [OF ranges_ok_smap_ok [OF assms]] by metis
  show ?thesis
  proof (cases "xs = []")
    case True
    with m xs ys show ?thesis using first upper_bound_split [OF xs ys] by simp
  next
    case False
    then obtain xs' f t where s: "xs = xs' @ [(f, t)]" "f \<le> k" "smap_ok (xs' @ (f, t) # ys)"
      using ranges_split_last [OF assms xs m] by metis
    have "smap_begin ys \<noteq> smap_begin m"
      using xs ys False by (cases ys; cases xs) (auto simp: m)
    with m s ys show ?thesis
      using later [of xs' f t ys] upper_bound_split [OF xs ys] iter_prev_split [OF s(3)] by simp
  qed
qed

lemma ranges_ok_fst_less:
  "ranges_ok xs \<Longrightarrow> \<forall>x\<in>set xs. snd x < k \<Longrightarrow> \<forall>x\<in>set xs. fst x < k"
  by (meson ranges_ok_less less_trans)

lemma merge_append_ok:
  assumes "ranges_ok xs" "\<forall>x\<in>set xs. snd x < k" "ranges_ok rs"
    and "k < e" "to \<le> e" "\<forall>r\<in>set rs. k < fst r" "\<forall>r\<in>set rs. to < fst r \<longrightarrow> e < fst r"
  shows "\<exists>m'. merge_from_iterator_to_value (xs @ (k, e) # rs) (At k) (smap_begin rs) to = Some m' \<and>
    ranges_ok m' \<and> points m' = points xs \<union> {k..<e} \<union> points rs"
proof -
  have "smap_ok (xs @ (k, e) # rs)"
    using assms(6) ranges_ok_smap_ok [OF assms(1)] ranges_ok_smap_ok [OF assms(3)]
      ranges_ok_fst_less [OF assms(1,2)]
    by (force simp: smap_ok_append intro: less_trans)
  moreover from merge_tail_ok [OF assms(4,5,3,6,7)]
  have *: "ranges_ok ((k, fst (merge_tail e to rs)) # snd (merge_tail e to rs))"
    "{k..<fst (merge_tail e to rs)} \<union> points (snd (merge_tail e to rs)) = {k..<e} \<union> points rs"
    by blast+
  have "\<forall>x\<in>set xs. \<forall>y\<in>set (snd (merge_tail e to rs)). snd x < fst y"
    using *(1) assms(2) by (simp add: Ball_def) (meson less_trans)
  ultimately show ?thesis
    using * assms(1,2) by (auto simp: merge_loop ranges_ok_append Un_assoc)
qed

lemma rs_insert_first:
  assumes "ranges_ok m" "from < to" "\<forall>y\<in>set m. from < fst y" "upper_bound m from = smap_begin m"
  shows "\<exists>m'. rs_insert m from to = Some m' \<and> ranges_ok m' \<and> points m' = points m \<union> {from..<to}"
proof (cases "m = []")
  case True
  with assms show ?thesis by (simp add: rs_insert_def insert_range_def)
next
  case False
  have "insert_range ([] @ m) from to = ([] @ (from, to) # m, At from)"
    using assms(3) by (intro insert_range_split) auto
  with assms False merge_append_ok [of "[]" "from" m to to] show ?thesis
    by (simp add: rs_insert_def Un_commute)
qed

lemma rs_insert_later:
  assumes "ranges_ok m" "from < to" and m: "m = xs @ (f, t) # ys" and "f \<le> from" "\<forall>y\<in>set ys. from < fst y"
    and ub: "upper_bound m from = smap_begin ys" "iter_prev m (smap_begin ys) = Some (At f)"
      "smap_begin ys \<noteq> smap_begin m"
  shows "\<exists>m'. rs_insert m from to = Some m' \<and> ranges_ok m' \<and> points m' = points m \<union> {from..<to}"
proof -
  have ok: "smap_ok (xs @ (f, t) # ys)" using ranges_ok_smap_ok [OF assms(1)] by (simp add: m)
  have xs: "ranges_ok xs" "\<forall>x\<in>set xs. snd x < f" and ys: "ranges_ok ys" "\<forall>y\<in>set ys. t < fst y"
    and "f < t" using assms(1) by (auto simp: m ranges_ok_append)
  note g = get_split [OF ok]
  have join: "{f..<max t to} = {f..<t} \<union> {from..<to}" if "from \<le> t"
    using that \<open>f \<le> from\<close> \<open>f < t\<close> by (auto simp: less_max_iff_disj)
  show ?thesis
  proof (cases "from \<le> t")
    case True
    have "f < max t to" using \<open>f < t\<close> by (simp add: less_max_iff_disj)
    moreover have "smap_ok (xs @ (f, max t to) # ys)"
      using ok by (auto simp: smap_ok_append)
    moreover have "\<forall>y\<in>set ys. f < fst y" "\<forall>y\<in>set ys. to < fst y \<longrightarrow> max t to < fst y"
      using ys \<open>f < t\<close> by (auto intro: less_trans)
    ultimately show ?thesis
      using merge_append_ok [OF xs ys(1), of "max t to" to] iter_next_split [of xs "(f, max t to)" ys]
        g ub \<open>from < to\<close> True join [OF True] maybe_expand_to_split [OF ok] xs ys \<open>f < t\<close>
      by (cases "ys = []") (auto simp: rs_insert_def m ranges_ok_append Un_ac less_max_iff_disj)
  next
    case False
    have "ranges_ok (xs @ [(f, t)])" using xs \<open>f < t\<close> by (simp add: ranges_ok_append)
    moreover have "\<forall>x\<in>set (xs @ [(f, t)]). snd x < from"
      using xs \<open>f < t\<close> False by (auto simp: not_le intro: less_trans)
    ultimately have *: "\<forall>x\<in>set (xs @ [(f, t)]). snd x < from" "\<forall>x\<in>set (xs @ [(f, t)]). fst x < from"
      using ranges_ok_fst_less by blast+
    have ins: "insert_range m from v = ((xs @ [(f, t)]) @ (from, v) # ys, At from)" for v
      using insert_range_split [OF *(2) assms(5), of v] by (simp add: m)
    show ?thesis
    proof (cases "ys \<noteq> [] \<and> fst (hd ys) \<le> to")
      case False
      then have "\<forall>y\<in>set ys. to < fst y" using ys(1) by (cases ys) (auto dest: ranges_ok_less intro: less_trans)
      moreover have "\<forall>x\<in>set xs. \<forall>y\<in>set ys. snd x < fst y"
        using assms(1) by (auto simp: m ranges_ok_append)
      ultimately show ?thesis
        using False \<open>\<not> from \<le> t\<close> * xs ys g ub \<open>from < to\<close> ins [of to] get_split [of "xs @ [(f, t)]" "fst (hd ys)" "snd (hd ys)" "tl ys"] ok \<open>f < t\<close>
        by (cases ys) (auto simp: rs_insert_def m ranges_ok_append not_le Let_def)
    next
      case True
      then obtain a b ys' where y: "ys = (a, b) # ys'" and "a \<le> to" by (cases ys) auto
      define v where "v = (if b \<le> to then to else b)"
      have okv: "smap_ok ((xs @ [(f, t), (from, v)]) @ (a, b) # ys')"
        using ok * assms(5) by (auto simp: y smap_ok_append intro: less_trans)
      have er: "erase_range ((xs @ [(f, t)]) @ (from, v) # (a, b) # ys') (At a) =
          Some ((xs @ [(f, t)]) @ (from, v) # ys', smap_begin ys')"
        using erase_range_split [OF okv] by simp
      have "from < v" "to \<le> v" "\<forall>r\<in>set ys'. to < fst r \<longrightarrow> v < fst r" "\<forall>r\<in>set ys'. from < fst r"
        "{from..<v} = {from..<to} \<union> {a..<b}"
        using \<open>from < to\<close> ys assms(5) \<open>a \<le> to\<close> by (auto simp: v_def y not_le)
      moreover have "ranges_ok (xs @ [(f, t)])" "ranges_ok ys'"
        using xs \<open>f < t\<close> ys by (auto simp: ranges_ok_append y)
      ultimately show ?thesis
        using merge_append_ok [of "xs @ [(f, t)]" "from" ys' v to] * g ub \<open>from < to\<close> \<open>\<not> from \<le> t\<close>
          ins [of v] er \<open>a \<le> to\<close> get_split [of "xs @ [(f, t)]" a b ys'] ok
        by (auto simp: rs_insert_def m y v_def Un_ac)
    qed
  qed
qed

lemma rs_insert_union:
  assumes "ranges_ok m"
  shows "\<exists>m'. rs_insert m from to = Some m' \<and> ranges_ok m' \<and> points m' = points m \<union> {from..<to}"
proof (cases "from < to")
  case True
  show ?thesis
    by (rule upper_bound_cases [OF assms, of "from"])
      (rule rs_insert_first [OF assms True] rs_insert_later [OF assms True]; assumption)+
next
  case False
  with assms show ?thesis by (simp add: rs_insert_def not_less)
qed

lemma erase_append_ok:
  assumes "ranges_ok xs" "ranges_ok rs" "\<forall>x\<in>set xs. \<forall>r\<in>set rs. snd x < fst r" "rs \<noteq> []"
  shows "\<exists>m'. erase_from_iterator_to_value (xs @ rs) (smap_begin rs) to = Some m' \<and>
    ranges_ok m' \<and> points m' = points xs \<union> (points rs - {..<to})"
proof -
  obtain r rs' where rs: "rs = r # rs'" using assms(4) by (cases rs) auto
  have "erase_from_iterator_to_value (xs @ rs) (smap_begin rs) to = Some (xs @ erase_tail to rs)"
    using assms erase_loop [of xs r rs' to] by (simp add: rs ranges_ok_append)
  moreover have "ranges_ok (xs @ erase_tail to rs)"
    using assms erase_tail_ok(1) [OF assms(2)] erase_tail_ok(3) [OF assms(2)] by (simp add: ranges_ok_append)
  ultimately show ?thesis
    using erase_tail_ok(2) [OF assms(2), of to] by auto
qed

lemma points_above: "\<forall>x\<in>set m. k \<le> fst x \<Longrightarrow> points m \<subseteq> {k..}"
  by (force simp: in_points_iff)

lemma points_below: "\<forall>x\<in>set m. snd x \<le> k \<Longrightarrow> points m \<subseteq> {..<k}"
  by (force simp: in_points_iff)

lemma rs_erase_first:
  assumes "ranges_ok m" "from < to" "\<forall>y\<in>set m. from < fst y" "upper_bound m from = smap_begin m"
  shows "\<exists>m'. rs_erase m from to = Some m' \<and> ranges_ok m' \<and> points m' = points m - {from..<to}"
proof (cases "m = []")
  case True
  with assms show ?thesis by (simp add: rs_erase_def)
next
  case False
  have "points m - {..<to} = points m - {from..<to}"
    using points_above [of m "from"] assms(3) by (force simp: less_imp_le)
  with assms False erase_append_ok [of "[]" m to] show ?thesis
    by (simp add: rs_erase_def)
qed

lemma rs_erase_later:
  assumes "ranges_ok m" "from < to" and m: "m = xs @ (f, t) # ys" and "f \<le> from" "\<forall>y\<in>set ys. from < fst y"
    and ub: "upper_bound m from = smap_begin ys" "iter_prev m (smap_begin ys) = Some (At f)"
      "smap_begin ys \<noteq> smap_begin m"
  shows "\<exists>m'. rs_erase m from to = Some m' \<and> ranges_ok m' \<and> points m' = points m - {from..<to}"
proof -
  have ok: "smap_ok (xs @ (f, t) # ys)" using ranges_ok_smap_ok [OF assms(1)] by (simp add: m)
  have xs: "ranges_ok xs" "\<forall>x\<in>set xs. snd x < f" and ys: "ranges_ok ys" "\<forall>y\<in>set ys. t < fst y"
    and "f < t" and between: "\<forall>x\<in>set xs. \<forall>r\<in>set ys. snd x < fst r"
    using assms(1) by (auto simp: m ranges_ok_append)
  have pxs: "points xs \<subseteq> {..<from}" using xs \<open>f \<le> from\<close> by (intro points_below) auto
  have pys: "points ys \<subseteq> {t..}" "points ys \<subseteq> {from..}"
    using points_above [of ys t] points_above [of ys "from"] ys(2) assms(5)
    by (simp_all add: less_imp_le)
  note g = get_split [OF ok]
  have outside: "points m - {from..<to} = points xs \<union> ({f..<t} - {from..<to}) \<union> (points ys - {..<to})"
    using pxs pys by (fastforce simp: m)
  consider (after) "t \<le> from" | (inside) "from < t" "to < t" | (right) "from < t" "t \<le> to"
    by force
  then show ?thesis
  proof cases
    case after
    have "{f..<t} - {from..<to} = {f..<t}" using after by auto
    moreover have "f \<noteq> from" using after \<open>f < t\<close> by auto
    moreover have "ranges_ok (xs @ [(f, t)])" "\<forall>x\<in>set (xs @ [(f, t)]). \<forall>r\<in>set ys. snd x < fst r"
      using xs ys between \<open>f < t\<close> by (auto simp: ranges_ok_append)
    moreover have "rs_erase m from to =
        (if ys = [] then Some m else erase_from_iterator_to_value m (smap_begin ys) to)"
      using \<open>f \<noteq> from\<close> after g ub \<open>from < to\<close>
      by (cases "ys = []") (auto simp: rs_erase_def m Let_def)
    ultimately show ?thesis
      using outside assms(1) ys(1) erase_append_ok [of "xs @ [(f, t)]" ys to]
      by (cases "ys = []") (simp_all add: m Un_assoc)
  next
    case inside
    have "\<forall>y\<in>set ys. to < fst y" using inside ys by (auto intro: less_trans)
    then have pys': "points ys - {..<to} = points ys" using points_above [of ys to] by (force simp: less_imp_le)
    show ?thesis
    proof (cases "f = from")
      case True
      have "{f..<t} - {from..<to} = {to..<t}" using True inside \<open>from < to\<close> by auto
      moreover have "ranges_ok (xs @ (to, t) # ys)"
        using xs ys between inside \<open>from < to\<close> True by (auto simp: ranges_ok_append intro: less_trans)
      moreover have "erase_from_iterator_to_value (xs @ (f, t) # ys) (At f) to = Some (xs @ (to, t) # ys)"
        using erase_loop [of xs "(f, t)" ys to] assms(1) inside \<open>from < to\<close> True by (auto simp: m)
      moreover have "reduce_from (xs @ (f, t) # ys) (At f) to = Some (xs @ (to, t) # ys, At to)"
        using True \<open>from < to\<close> \<open>\<forall>y\<in>set ys. to < fst y\<close> by (intro reduce_from_split [OF ok]) auto
      ultimately show ?thesis
        using outside pys' g ub \<open>from < to\<close> inside True
        by (cases "ys = []") (auto simp: rs_erase_def m Let_def)
    next
      case False
      then have "f < from" using \<open>f \<le> from\<close> by auto
      have "{f..<t} - {from..<to} = {f..<from} \<union> {to..<t}" using False inside \<open>from < to\<close> \<open>f < from\<close> by auto
      moreover have "ranges_ok (xs @ (f, from) # (to, t) # ys)"
        using xs ys between inside \<open>from < to\<close> \<open>f < from\<close> assms(5) by (auto simp: ranges_ok_append intro: less_trans)
      moreover have "bisect_range (xs @ (f, t) # ys) (At f) from to = Some (xs @ (f, from) # (to, t) # ys)"
        using inside \<open>from < to\<close> \<open>f < from\<close> ys by (intro bisect_range_split [OF ok]) auto
      ultimately show ?thesis
        using outside pys' g ub \<open>from < to\<close> inside False
        by (cases "ys = []") (auto simp: rs_erase_def m Let_def)
    qed
  next
    case right
    show ?thesis
    proof (cases "f = from")
      case True
      have "{f..<t} - {from..<to} = {}" using True right by auto
      moreover have "erase_range (xs @ (f, t) # ys) (At f) = Some (xs @ ys, smap_begin ys)"
        by (rule erase_range_split [OF ok])
      moreover have "points ((f, t) # ys) - {..<to} = points ys - {..<to}" using right by auto
      moreover have "\<forall>x\<in>set xs. \<forall>r\<in>set ((f, t) # ys). snd x < fst r"
        using xs between by auto
      ultimately show ?thesis
        using outside g ub \<open>from < to\<close> right True xs(1) ys \<open>f < t\<close> erase_append_ok [of xs "(f, t) # ys" to]
        by (cases "ys = []") (simp_all add: rs_erase_def m Let_def less_not_le)
    next
      case False
      then have "f < from" using \<open>f \<le> from\<close> by auto
      have red: "reduce_to (xs @ (f, t) # ys) (At f) from = Some (xs @ (f, from) # ys)"
        using right by (intro reduce_to_split [OF ok])
      have "ranges_ok (xs @ [(f, from)])" "\<forall>x\<in>set (xs @ [(f, from)]). \<forall>r\<in>set ys. snd x < fst r"
        using xs ys between right \<open>f < from\<close> by (auto simp: ranges_ok_append intro: less_trans)
      moreover have "{f..<t} - {from..<to} = {f..<from}" using right \<open>f < from\<close> by auto
      ultimately show ?thesis
        using red outside g ub \<open>from < to\<close> right False ys(1) erase_append_ok [of "xs @ [(f, from)]" ys to]
        by (cases "ys = []") (simp_all add: rs_erase_def m Let_def Un_assoc less_not_le leD)
    qed
  qed
qed

lemma rs_erase_diff:
  assumes "ranges_ok m"
  shows "\<exists>m'. rs_erase m from to = Some m' \<and> ranges_ok m' \<and> points m' = points m - {from..<to}"
proof (cases "from < to")
  case True
  show ?thesis
    by (rule upper_bound_cases [OF assms, of "from"])
      (rule rs_erase_first [OF assms True] rs_erase_later [OF assms True]; assumption)+
next
  case False
  with assms show ?thesis by (simp add: rs_erase_def not_less)
qed

lemma rs_contains_mem:
  assumes "ranges_ok m"
  shows "rs_contains m v = Some (v \<in> points m)"
proof (cases rule: upper_bound_cases [OF assms, of v, case_names first later])
  case first
  then have "v \<notin> points m" by (force simp: in_points_iff)
  with first show ?thesis by (simp add: rs_contains_def)
next
  case (later xs f t ys)
  have ok: "smap_ok (xs @ (f, t) # ys)" using ranges_ok_smap_ok [OF assms] later by simp
  have "\<forall>x\<in>set xs. snd x \<le> f" "f < t" using assms later(1) by (auto simp: ranges_ok_append)
  then have "v \<notin> points xs" "v \<notin> points ys"
    using later(2,3) points_below [of xs f] by (force simp: in_points_iff)+
  with later get_split [OF ok] show ?thesis by (simp add: rs_contains_def Let_def)
qed

lemma rs_overlaps_inter:
  assumes "ranges_ok m"
  shows "rs_overlaps m from to = Some (points m \<inter> {from..<to} \<noteq> {})"
proof (cases "from < to")
  case True
  obtain xs ys where m: "m = xs @ ys" and xs: "\<forall>x\<in>set xs. fst x < to" and ys: "\<forall>y\<in>set ys. to \<le> fst y"
    using smap_split_lower [OF ranges_ok_smap_ok [OF assms]] by metis
  have lb: "lower_bound m to = smap_begin ys" using lower_bound_split [OF xs ys] by (simp add: m)
  have pys: "points ys \<inter> {from..<to} = {}" using points_above [OF ys] by force
  show ?thesis
  proof (cases "xs = []")
    case True
    with lb pys \<open>from < to\<close> show ?thesis by (simp add: rs_overlaps_def m)
  next
    case False
    then obtain xs' f t where x: "xs = xs' @ [(f, t)]" by (metis rev_exhaust surj_pair)
    have ok: "smap_ok (xs' @ (f, t) # ys)" using ranges_ok_smap_ok [OF assms] by (simp add: m x)
    have "smap_begin ys \<noteq> smap_begin m" using xs ys False by (cases ys; cases xs) (auto simp: m)
    moreover have "points m \<inter> {from..<to} \<noteq> {} \<longleftrightarrow> from < t"
    proof -
      have "f < t" "\<forall>x\<in>set xs'. snd x < f" and "f < to"
        using assms xs by (auto simp: m x ranges_ok_append)
      then have "points xs' \<subseteq> {..<f}" by (intro points_below) auto
      then have "points m \<inter> {from..<to} \<noteq> {} \<Longrightarrow> from < t"
        using pys \<open>f < t\<close> by (fastforce simp: m x)
      moreover have "max f from \<in> points m \<inter> {from..<to}" if "from < t"
        using that \<open>f < t\<close> \<open>f < to\<close> \<open>from < to\<close> by (auto simp: m x)
      ultimately show ?thesis by blast
    qed
    ultimately show ?thesis
      using lb iter_prev_split [OF ok] get_split [OF ok] \<open>from < to\<close> xs
      by (auto simp: rs_overlaps_def m x Let_def)
  qed
qed (simp add: rs_overlaps_def not_less)

text \<open>Two well-formed sets with the same points are the same map, so \<^verbatim>\<open>operator==\<close> decides
  equality of the sets.\<close>

lemma points_first:
  assumes "ranges_ok (e # m)"
  shows "fst e \<in> points (e # m)" "\<forall>x\<in>points (e # m). fst e \<le> x" "snd e \<notin> points (e # m)"
    "\<forall>x. fst e \<le> x \<and> x < snd e \<longrightarrow> x \<in> points (e # m)"
  using assms points_above [of m "snd e"] by (force simp: in_points_iff less_imp_le)+

lemma rs_equal_points:
  "ranges_ok m \<Longrightarrow> ranges_ok n \<Longrightarrow> rs_equal m n \<longleftrightarrow> points m = points n"
  unfolding rs_equal_def
proof (induction m arbitrary: n)
  case Nil
  then show ?case by (cases n) (auto dest: points_first(1))
next
  case (Cons e m)
  show ?case
  proof
    assume eq: "points (e # m) = points n"
    then obtain d n' where n: "n = d # n'"
      using points_first(1) [OF Cons.prems(1)] by (cases n) auto
    note p = points_first [OF Cons.prems(1)] and q = points_first [OF Cons.prems(2) [unfolded n]]
    have "fst e = fst d"
      using p(1,2) q(1,2) eq by (metis n antisym)
    moreover have "snd e = snd d"
      using p(3,4) q(3,4) eq Cons.prems \<open>fst e = fst d\<close>
      by (metis n less_imp_le linorder_neqE ranges_ok_Cons)
    ultimately have "e = d" by (simp add: prod_eq_iff)
    moreover have "points m = points n'"
    proof -
      have "points m \<inter> {fst e..<snd e} = {}" "points n' \<inter> {fst e..<snd e} = {}"
        using Cons.prems \<open>e = d\<close> by (force simp: n in_points_iff)+
      with eq \<open>e = d\<close> show ?thesis by (auto simp: n)
    qed
    ultimately show "e # m = n" using Cons.IH [of n'] Cons.prems by (simp add: n)
  qed simp
qed

section \<open>The contract of a range store\<close>

text \<open>
  What the clients of \<^verbatim>\<open>RangeSet\<close> and \<^verbatim>\<open>RangeSizeSet\<close> rely on. The locale
  fixes the operations a client calls and the laws they obey; its lemmas extend the laws to
  every sequence of calls. \<open>range_run\<close> performs such a sequence, \<open>range_spec\<close> is the set
  it denotes.
\<close>

datatype 'a range_op = Insert 'a 'a | Erase 'a 'a | Clear

fun range_run ::
  "('s \<Rightarrow> 'a \<Rightarrow> 'a \<Rightarrow> 's option) \<Rightarrow> ('s \<Rightarrow> 'a \<Rightarrow> 'a \<Rightarrow> 's option) \<Rightarrow> ('s \<Rightarrow> 's) \<Rightarrow>
   's \<Rightarrow> 'a range_op list \<Rightarrow> 's option" where
  "range_run ins era clr s [] = Some s"
| "range_run ins era clr s (Insert a b # ops) = ins s a b \<bind> (\<lambda>s'. range_run ins era clr s' ops)"
| "range_run ins era clr s (Erase a b # ops) = era s a b \<bind> (\<lambda>s'. range_run ins era clr s' ops)"
| "range_run ins era clr s (Clear # ops) = range_run ins era clr (clr s) ops"

fun range_spec :: "('a::linorder) set \<Rightarrow> 'a range_op list \<Rightarrow> 'a set" where
  "range_spec P [] = P"
| "range_spec P (Insert a b # ops) = range_spec (P \<union> {a..<b}) ops"
| "range_spec P (Erase a b # ops) = range_spec (P - {a..<b}) ops"
| "range_spec P (Clear # ops) = range_spec {} ops"

locale range_store =
  fixes ok :: "'s \<Rightarrow> bool"
    and pts :: "'s \<Rightarrow> ('a::linorder) set"
    and ins :: "'s \<Rightarrow> 'a \<Rightarrow> 'a \<Rightarrow> 's option"
    and era :: "'s \<Rightarrow> 'a \<Rightarrow> 'a \<Rightarrow> 's option"
    and clr :: "'s \<Rightarrow> 's"
    and mem :: "'s \<Rightarrow> 'a \<Rightarrow> bool option"
    and meets :: "'s \<Rightarrow> 'a \<Rightarrow> 'a \<Rightarrow> bool option"
  assumes insert_law: "ok s \<Longrightarrow> \<exists>s'. ins s a b = Some s' \<and> ok s' \<and> pts s' = pts s \<union> {a..<b}"
    and erase_law: "ok s \<Longrightarrow> \<exists>s'. era s a b = Some s' \<and> ok s' \<and> pts s' = pts s - {a..<b}"
    and clear_law: "ok (clr s)" "pts (clr s) = {}"
    and contains_law: "ok s \<Longrightarrow> mem s x = Some (x \<in> pts s)"
    and overlaps_law: "ok s \<Longrightarrow> meets s a b = Some (pts s \<inter> {a..<b} \<noteq> {})"
begin

lemma run_ok:
  "ok s \<Longrightarrow> \<exists>s'. range_run ins era clr s ops = Some s' \<and> ok s' \<and> pts s' = range_spec (pts s) ops"
proof (induction ops arbitrary: s)
  case (Cons oper ops)
  show ?case
  proof (cases oper)
    case (Insert a b)
    with insert_law [OF Cons.prems, of a b] Cons.IH show ?thesis by fastforce
  next
    case (Erase a b)
    with erase_law [OF Cons.prems, of a b] Cons.IH show ?thesis by fastforce
  next
    case Clear
    with Cons.IH [OF clear_law(1), of s] show ?thesis by (simp add: clear_law)
  qed
qed simp

lemma run_contains:
  assumes "ok s"
  shows "range_run ins era clr s ops \<bind> (\<lambda>s'. mem s' x) = Some (x \<in> range_spec (pts s) ops)"
  using run_ok [OF assms, of ops] contains_law by force

lemma run_overlaps:
  assumes "ok s"
  shows "range_run ins era clr s ops \<bind> (\<lambda>s'. meets s' a b) =
    Some (range_spec (pts s) ops \<inter> {a..<b} \<noteq> {})"
  using run_ok [OF assms, of ops] overlaps_law by force

text \<open>A range that was taken is not reported as present until it is given back.\<close>

lemma taken_is_absent:
  assumes "ok s" "a \<le> x" "x < b"
  shows "era s a b \<bind> (\<lambda>s'. mem s' x) = Some False"
  using erase_law [OF assms(1), of a b] contains_law assms by force

lemma take_give_back:
  assumes "ok s" "{a..<b} \<subseteq> pts s"
  shows "\<exists>s'. era s a b \<bind> (\<lambda>s'. ins s' a b) = Some s' \<and> ok s' \<and> pts s' = pts s"
proof -
  obtain s1 where s1: "era s a b = Some s1" "ok s1" "pts s1 = pts s - {a..<b}"
    using erase_law [OF assms(1)] by blast
  obtain s2 where s2: "ins s1 a b = Some s2" "ok s2" "pts s2 = pts s1 \<union> {a..<b}"
    using insert_law [OF s1(2)] by blast
  with s1 assms(2) show ?thesis by auto
qed

end

interpretation rset: range_store ranges_ok points rs_insert rs_erase rs_clear rs_contains rs_overlaps
  by unfold_locales
     (simp_all add: rs_insert_union rs_erase_diff rs_contains_mem rs_overlaps_inter rs_clear_def)

section \<open>Properties\<close>

text \<open>
  \<^verbatim>\<open>RangeSet\<close>: every sequence of \<^verbatim>\<open>insert\<close>, \<^verbatim>\<open>erase\<close> and \<^verbatim>\<open>clear\<close> on a
  well-formed set runs to its end (no assert fails, no invalid iterator is used, the loops
  end), leaves the stored ranges sorted, non-empty, disjoint and non-touching, and the stored
  points are those of the same sequence of unions and differences.
\<close>

theorem range_set_run:
  assumes "ranges_ok (m :: ('a::linorder) range_map)"
  shows "\<exists>m'. range_run rs_insert rs_erase rs_clear m ops = Some m' \<and> ranges_ok m' \<and>
    points m' = range_spec (points m) ops"
  using assms by (rule rset.run_ok)

theorem range_set_run_witness:
  "\<exists>m'. range_run rs_insert rs_erase rs_clear [(1, 4), (6, 9::nat)]
      [Insert 3 7, Erase 2 3, Insert 12 20] = Some m' \<and> ranges_ok m' \<and>
    points m' = range_spec (points [(1, 4), (6, 9)]) [Insert 3 7, Erase 2 3, Insert 12 20]"
  by (rule range_set_run) simp

text \<open>
  \<^verbatim>\<open>RangeSet::contains\<close> and \<^verbatim>\<open>overlaps\<close> after any sequence of operations answer
  membership and non-empty intersection of the denoted set.
\<close>

theorem range_set_queries:
  assumes "ranges_ok (m :: ('a::linorder) range_map)"
  shows "range_run rs_insert rs_erase rs_clear m ops \<bind> (\<lambda>m'. rs_contains m' x) =
      Some (x \<in> range_spec (points m) ops) \<and>
    range_run rs_insert rs_erase rs_clear m ops \<bind> (\<lambda>m'. rs_overlaps m' a b) =
      Some (range_spec (points m) ops \<inter> {a..<b} \<noteq> {})"
  using rset.run_contains [OF assms] rset.run_overlaps [OF assms] by simp

theorem range_set_queries_witness:
  "range_run rs_insert rs_erase rs_clear [(1, 4::nat)] [Insert 6 9] \<bind> (\<lambda>m'. rs_contains m' 7) =
      Some (7 \<in> range_spec (points [(1, 4::nat)]) [Insert 6 9]) \<and>
    range_run rs_insert rs_erase rs_clear [(1, 4::nat)] [Insert 6 9] \<bind> (\<lambda>m'. rs_overlaps m' 4 6) =
      Some (range_spec (points [(1, 4::nat)]) [Insert 6 9] \<inter> {4..<6} \<noteq> {})"
  by (rule range_set_queries) simp

text \<open>
  \<^verbatim>\<open>RangeSet::operator==\<close> is equality of the denoted sets: the representation of a
  set of points is unique.
\<close>

theorem range_set_equal:
  assumes "ranges_ok m" "ranges_ok n"
  shows "rs_equal m n \<longleftrightarrow> points m = points n"
  using assms by (rule rs_equal_points)

theorem range_set_equal_witness:
  "rs_equal [(1, 4), (6, 9::nat)] [(1, 9)] \<longleftrightarrow> points [(1, 4), (6, 9::nat)] = points [(1, 9)]"
  by (rule range_set_equal) simp_all

end
