(* ===== verification/Range_Size_Set.thy ===== *)
theory Range_Size_Set
  imports Range_Set "HOL-Library.Multiset"
begin

text \<open>
  \<^verbatim>\<open>Common/RangeSizeSet.h\<close>: the range set that also keeps its ranges ordered by size,
  used by the JIT to find the largest free code region. It is modelled at the instance
  \<^verbatim>\<open>RangeSizeSet<u8*>\<close> the JIT uses: points are 64-bit addresses and \<^verbatim>\<open>calc_size\<close> is
  the wrapping difference of two addresses. The by-size multimap is the list of its
  elements in iteration order; an element is the pair of its key (the size) and the
  iterator it stores (named by its address), and \<^verbatim>\<open>SizeIt\<close> is such a pair. The main
  results: every operation is the operation of \<^verbatim>\<open>RangeSet\<close> on the address map, the
  size index stays in step with it, and \<^verbatim>\<open>by_size_begin\<close> is a largest range.
\<close>

section \<open>State\<close>

record range_value =
  To :: u64
  SizeIt :: "u64 \<times> u64"

record range_size_set =
  Map :: "(u64, range_value) smap"
  Sizes :: "(u64 \<times> u64) list"

definition calc_size :: "u64 \<Rightarrow> u64 \<Rightarrow> u64" where
  "calc_size from to = to - from"

text \<open>\<^verbatim>\<open>multimap::emplace\<close> under \<^verbatim>\<open>std::greater\<close>: after the elements with an equal key.\<close>

fun sizes_emplace :: "u64 \<Rightarrow> u64 \<Rightarrow> (u64 \<times> u64) list \<Rightarrow> (u64 \<times> u64) list" where
  "sizes_emplace k v [] = [(k, v)]"
| "sizes_emplace k v (e # es) =
     (if k > fst e then (k, v) # e # es else e # sizes_emplace k v es)"

definition sizes_erase :: "(u64 \<times> u64) list \<Rightarrow> u64 \<times> u64 \<Rightarrow> (u64 \<times> u64) list option" where
  "sizes_erase es e = (if e \<in> set es then Some (remove1 e es) else None)"

section \<open>The private helpers\<close>

definition rss_get_from :: "range_size_set \<Rightarrow> u64 iter \<Rightarrow> u64 option" where
  "rss_get_from s it = map_option fst (deref (Map s) it)"

definition rss_get_to :: "range_size_set \<Rightarrow> u64 iter \<Rightarrow> u64 option" where
  "rss_get_to s it = map_option (To \<circ> snd) (deref (Map s) it)"

definition rss_insert_range :: "range_size_set \<Rightarrow> u64 \<Rightarrow> u64 \<Rightarrow> range_size_set \<times> u64 iter" where
  "rss_insert_range s from to =
     (let m = smap_emplace from \<lparr>To = to, SizeIt = (0, 0)\<rparr> (Map s);
          size_it = (calc_size from to, from);
          sizes = sizes_emplace (fst size_it) (snd size_it) (Sizes s);
          m' = map (\<lambda>e. if fst e = from then (from, (snd e)\<lparr>SizeIt := size_it\<rparr>) else e) m
      in (\<lparr>Map = m', Sizes = sizes\<rparr>, At from))"

definition rss_erase_range :: "range_size_set \<Rightarrow> u64 iter \<Rightarrow> (range_size_set \<times> u64 iter) option" where
  "rss_erase_range s it =
     do { e \<leftarrow> deref (Map s) it;
          sizes \<leftarrow> sizes_erase (Sizes s) (SizeIt (snd e));
          (m, it') \<leftarrow> smap_erase (Map s) it;
          Some (\<lparr>Map = m, Sizes = sizes\<rparr>, it') }"

text \<open>The body \<^verbatim>\<open>expand_to\<close> and \<^verbatim>\<open>reduce_to\<close> share after their asserts.\<close>

definition rss_set_to :: "range_size_set \<Rightarrow> u64 iter \<Rightarrow> u64 \<Rightarrow> range_size_set option" where
  "rss_set_to s it to =
     do { e \<leftarrow> deref (Map s) it;
          sizes \<leftarrow> sizes_erase (Sizes s) (SizeIt (snd e));
          let size_it = (calc_size (fst e) to, fst e);
          Some \<lparr>Map = smap_set (fst e) \<lparr>To = to, SizeIt = size_it\<rparr> (Map s),
                Sizes = sizes_emplace (fst size_it) (snd size_it) sizes\<rparr> }"

definition rss_expand_to :: "range_size_set \<Rightarrow> u64 iter \<Rightarrow> u64 \<Rightarrow> range_size_set option" where
  "rss_expand_to s it to =
     do { t \<leftarrow> rss_get_to s it; check (t < to); rss_set_to s it to }"

definition rss_reduce_to :: "range_size_set \<Rightarrow> u64 iter \<Rightarrow> u64 \<Rightarrow> range_size_set option" where
  "rss_reduce_to s it to =
     do { t \<leftarrow> rss_get_to s it; check (t > to); rss_set_to s it to }"

definition rss_maybe_expand_to :: "range_size_set \<Rightarrow> u64 iter \<Rightarrow> u64 \<Rightarrow> range_size_set option" where
  "rss_maybe_expand_to s it to =
     do { t \<leftarrow> rss_get_to s it; if to \<le> t then Some s else rss_expand_to s it to }"

definition rss_reduce_from ::
  "range_size_set \<Rightarrow> u64 iter \<Rightarrow> u64 \<Rightarrow> (range_size_set \<times> u64 iter) option" where
  "rss_reduce_from s it from =
     do { f \<leftarrow> rss_get_from s it;
          check (f < from);
          itto \<leftarrow> rss_get_to s it;
          (s', _) \<leftarrow> rss_erase_range s it;
          Some (rss_insert_range s' from itto) }"

definition rss_bisect_range ::
  "range_size_set \<Rightarrow> u64 iter \<Rightarrow> u64 \<Rightarrow> u64 \<Rightarrow> range_size_set option" where
  "rss_bisect_range s it from to =
     do { f \<leftarrow> rss_get_from s it;
          t \<leftarrow> rss_get_to s it;
          check (f < from);
          check (f < to);
          check (t > from);
          check (t > to);
          check (from < to);
          s' \<leftarrow> rss_reduce_to s it from;
          Some (fst (rss_insert_range s' to t)) }"

partial_function (option) rss_merge_from_iterator_to_value ::
  "range_size_set \<Rightarrow> u64 iter \<Rightarrow> u64 iter \<Rightarrow> u64 \<Rightarrow> range_size_set option" where
  "rss_merge_from_iterator_to_value s inserted bound to =
     (if bound = End then Some s
      else do { f \<leftarrow> rss_get_from s bound;
                if \<not> f \<le> to then Some s
                else do { t \<leftarrow> rss_get_to s bound;
                          s1 \<leftarrow> rss_maybe_expand_to s inserted t;
                          (s2, bound') \<leftarrow> rss_erase_range s1 bound;
                          rss_merge_from_iterator_to_value s2 inserted bound' to } })"

partial_function (option) rss_erase_from_iterator_to_value ::
  "range_size_set \<Rightarrow> u64 iter \<Rightarrow> u64 \<Rightarrow> range_size_set option" where
  "rss_erase_from_iterator_to_value s bound to =
     do { f \<leftarrow> rss_get_from s bound;
          if to \<le> f then Some s
          else do { t \<leftarrow> rss_get_to s bound;
                    if to < t then map_option fst (rss_reduce_from s bound to)
                    else if to = t then map_option fst (rss_erase_range s bound)
                    else do { (s', bound') \<leftarrow> rss_erase_range s bound;
                              if bound' = End then Some s'
                              else rss_erase_from_iterator_to_value s' bound' to } } }"

section \<open>The public operations\<close>

definition rss_insert :: "range_size_set \<Rightarrow> u64 \<Rightarrow> u64 \<Rightarrow> range_size_set option" where
  "rss_insert s from to =
     (if from \<ge> to then Some s
      else let bound = upper_bound (Map s) from in
        if bound = End then
          (if Map s = [] then Some (fst (rss_insert_range s from to))
           else do { bound' \<leftarrow> iter_prev (Map s) bound;
                     t \<leftarrow> rss_get_to s bound';
                     if from > t then Some (fst (rss_insert_range s from to))
                     else rss_maybe_expand_to s bound' to })
        else if bound = smap_begin (Map s) then
          (let (s', inserted) = rss_insert_range s from to
           in rss_merge_from_iterator_to_value s' inserted bound to)
        else
          do { let abound = bound;
               bound' \<leftarrow> iter_prev (Map s) bound;
               t \<leftarrow> rss_get_to s bound';
               if t \<ge> from then
                 do { s1 \<leftarrow> rss_maybe_expand_to s bound' to;
                      bound'' \<leftarrow> iter_next (Map s1) bound';
                      rss_merge_from_iterator_to_value s1 bound' bound'' to }
               else
                 do { af \<leftarrow> rss_get_from s abound;
                      if af \<le> to then
                        do { at \<leftarrow> rss_get_to s abound;
                             let (s1, inserted) = rss_insert_range s from (if to \<ge> at then to else at);
                             (s2, abound') \<leftarrow> rss_erase_range s1 abound;
                             rss_merge_from_iterator_to_value s2 inserted abound' to }
                      else Some (fst (rss_insert_range s from to)) } })"

definition rss_erase :: "range_size_set \<Rightarrow> u64 \<Rightarrow> u64 \<Rightarrow> range_size_set option" where
  "rss_erase s from to =
     (if from \<ge> to then Some s
      else let bound = upper_bound (Map s) from in
        if bound = End then
          (if Map s = [] then Some s
           else do { bound' \<leftarrow> iter_prev (Map s) bound;
                     t \<leftarrow> rss_get_to s bound';
                     f \<leftarrow> rss_get_from s bound';
                     if from \<ge> t then Some s
                     else if to \<ge> t then
                       (if from = f then map_option fst (rss_erase_range s bound')
                        else rss_reduce_to s bound' from)
                     else if from = f then map_option fst (rss_reduce_from s bound' to)
                     else rss_bisect_range s bound' from to })
        else if bound = smap_begin (Map s) then rss_erase_from_iterator_to_value s bound to
        else
          do { let abound = bound;
               bound' \<leftarrow> iter_prev (Map s) bound;
               f \<leftarrow> rss_get_from s bound';
               if from = f then rss_erase_from_iterator_to_value s bound' to
               else
                 do { t \<leftarrow> rss_get_to s bound';
                      if from < t then
                        (if to < t then rss_bisect_range s bound' from to
                         else do { s1 \<leftarrow> rss_reduce_to s bound' from;
                                   rss_erase_from_iterator_to_value s1 abound to })
                      else rss_erase_from_iterator_to_value s abound to } })"

definition rss_clear :: "range_size_set \<Rightarrow> range_size_set" where
  "rss_clear s = \<lparr>Map = [], Sizes = []\<rparr>"

definition rss_contains :: "range_size_set \<Rightarrow> u64 \<Rightarrow> bool option" where
  "rss_contains s value =
     (let it = upper_bound (Map s) value in
        if it = smap_begin (Map s) then Some False
        else do { it' \<leftarrow> iter_prev (Map s) it;
                  f \<leftarrow> rss_get_from s it';
                  t \<leftarrow> rss_get_to s it';
                  Some (f \<le> value \<and> value < t) })"

definition rss_overlaps :: "range_size_set \<Rightarrow> u64 \<Rightarrow> u64 \<Rightarrow> bool option" where
  "rss_overlaps s from to =
     (if from \<ge> to then Some False
      else let it = lower_bound (Map s) to in
        if it = smap_begin (Map s) then Some False
        else do { it' \<leftarrow> iter_prev (Map s) it;
                  f \<leftarrow> rss_get_from s it';
                  t \<leftarrow> rss_get_to s it';
                  Some (f < to \<and> from < t) })"

text \<open>
  \<^verbatim>\<open>by_size_begin\<close> and the dereference of a by-size iterator: the range it points at,
  \<open>None\<close> at the end.
\<close>

definition by_size_begin :: "range_size_set \<Rightarrow> (u64 \<times> u64) option" where
  "by_size_begin s = (case Sizes s of [] \<Rightarrow> None | e # _ \<Rightarrow> Some e)"

definition by_size_range :: "range_size_set \<Rightarrow> u64 \<times> u64 \<Rightarrow> (u64 \<times> u64) option" where
  "by_size_range s e = map_option (\<lambda>v. (snd e, To v)) (map_of (Map s) (snd e))"

definition by_size_count :: "range_size_set \<Rightarrow> u64 \<Rightarrow> nat" where
  "by_size_count s key = length (filter (\<lambda>e. fst e = key) (Sizes s))"

definition rss_erase_by_size :: "range_size_set \<Rightarrow> u64 \<times> u64 \<Rightarrow> range_size_set option" where
  "rss_erase_by_size s e =
     do { (m, _) \<leftarrow> smap_erase (Map s) (At (snd e));
          sizes \<leftarrow> sizes_erase (Sizes s) e;
          Some \<lparr>Map = m, Sizes = sizes\<rparr> }"

text \<open>
  \<^verbatim>\<open>get_stats\<close>: the total size of the ranges, and the fragmentation ratio as the pair of
  its numerator and its denominator (the source divides them as doubles; the ratio of an empty
  set is 1).
\<close>

definition rss_get_stats :: "range_size_set \<Rightarrow> u64 \<times> (u64 \<times> u64)" where
  "rss_get_stats s =
     (let free_total = fold (\<lambda>e acc. acc + calc_size (fst e) (To (snd e))) (Map s) 0
      in if Map s = [] then (0, (1, 1))
         else (free_total, (free_total - (case Sizes s of [] \<Rightarrow> 0 | e # _ \<Rightarrow> fst e), free_total)))"

section \<open>Well-formedness and the range set it refines\<close>

definition rss_ranges :: "range_size_set \<Rightarrow> u64 range_map" where
  "rss_ranges s = map (map_prod id To) (Map s)"

definition rss_inv :: "range_size_set \<Rightarrow> bool" where
  "rss_inv s \<longleftrightarrow>
     smap_ok (Map s) \<and>
     (\<forall>e\<in>set (Map s). SizeIt (snd e) = (calc_size (fst e) (To (snd e)), fst e)) \<and>
     sorted_wrt (\<lambda>x y. fst x \<ge> fst y) (Sizes s) \<and>
     mset (Sizes s) = mset (map (SizeIt \<circ> snd) (Map s))"

subsection \<open>Reading the map through the refinement\<close>

lemma smap_begin_map [simp]: "smap_begin (map (map_prod id f) m) = smap_begin m"
  by (cases m) simp_all

lemma bounds_map [simp]:
  "upper_bound (map (map_prod id f) m) k = upper_bound m k"
  "lower_bound (map (map_prod id f) m) k = lower_bound m k"
  by (simp_all add: upper_bound_def lower_bound_def dropWhile_map comp_def)

lemma deref_map: "deref (map (map_prod id f) m) it = map_option (map_prod id f) (deref m it)"
  by (cases it) (simp_all add: deref.simps(2) map_of_map map_prod_def option.map_comp comp_def split_beta)

lemma iter_next_map [simp]: "iter_next (map (map_prod id f) m) it = iter_next m it"
  by (cases it) simp_all

lemma iter_prev_map [simp]: "iter_prev (map (map_prod id f) m) it = iter_prev m it"
proof -
  have "(case map (map_prod id f) xs of [] \<Rightarrow> None | e # es \<Rightarrow> Some (At (fst (last (e # es))))) =
        (case xs of [] \<Rightarrow> None | e # es \<Rightarrow> Some (At (fst (last (e # es)))))" for xs
    by (cases xs) (auto simp: last_map)
  then show ?thesis by (cases it) (simp_all add: iter_prev_def takeWhile_map comp_def)
qed

lemma smap_ok_map [simp]: "smap_ok (map (map_prod id f) m) = smap_ok m"
  by (simp add: smap_ok_def comp_def)

lemma smap_erase_map:
  "smap_erase (map (map_prod id f) m) it = map_option (map_prod (map (map_prod id f)) id) (smap_erase m it)"
  by (cases "deref m it") (simp_all add: smap_erase_def deref_map filter_map comp_def Let_def)

lemma rss_reads [simp]:
  "upper_bound (rss_ranges s) k = upper_bound (Map s) k"
  "lower_bound (rss_ranges s) k = lower_bound (Map s) k"
  "smap_begin (rss_ranges s) = smap_begin (Map s)"
  "iter_prev (rss_ranges s) it = iter_prev (Map s) it"
  "iter_next (rss_ranges s) it = iter_next (Map s) it"
  "rss_ranges s = [] \<longleftrightarrow> Map s = []"
  "get_from (rss_ranges s) it = rss_get_from s it"
  "get_to (rss_ranges s) it = rss_get_to s it"
  by (simp_all add: rss_ranges_def rss_get_from_def rss_get_to_def get_from_def get_to_def
      deref_map option.map_comp comp_def)

subsection \<open>The size index\<close>

lemma mset_sizes_emplace [simp]: "mset (sizes_emplace k v es) = add_mset (k, v) (mset es)"
  by (induction es) auto

lemma sorted_sizes_emplace:
  "sorted_wrt (\<lambda>x y. fst x \<ge> fst y) es \<Longrightarrow> sorted_wrt (\<lambda>x y. fst x \<ge> fst y) (sizes_emplace k v es)"
proof (induction es)
  case (Cons e es)
  have "set (sizes_emplace k v es) = insert (k, v) (set es)"
    by (metis mset_sizes_emplace set_mset_add_mset_insert set_mset_mset)
  with Cons show ?case by auto
qed simp

lemma sorted_remove1:
  "sorted_wrt P es \<Longrightarrow> sorted_wrt P (remove1 e es)"
  by (induction es) (auto dest: set_remove1_subset [THEN subsetD])

lemma rss_inv_size_in:
  "rss_inv s \<Longrightarrow> e \<in> set (Map s) \<Longrightarrow> SizeIt (snd e) \<in> set (Sizes s)"
  unfolding rss_inv_def by (metis (no_types, lifting) comp_apply image_eqI list.set_map set_mset_mset)

lemma sizes_erase_Some:
  "rss_inv s \<Longrightarrow> e \<in> set (Map s) \<Longrightarrow>
   sizes_erase (Sizes s) (SizeIt (snd e)) = Some (remove1 (SizeIt (snd e)) (Sizes s))"
  by (simp add: sizes_erase_def rss_inv_size_in)

lemma deref_SomeD: "deref m it = Some e \<Longrightarrow> e \<in> set m \<and> it = At (fst e)"
  by (cases it) (auto simp: deref.simps(2) dest: map_of_SomeD)

lemma smap_split_at:
  assumes "e \<in> set m" obtains xs ys where "m = xs @ e # ys"
  using assms by (meson split_list)

subsection \<open>The simulation\<close>

definition rss_rel :: "range_size_set \<Rightarrow> u64 range_map \<Rightarrow> bool" where
  "rss_rel s m \<longleftrightarrow> rss_inv s \<and> rss_ranges s = m"

lemma rss_insert_range_sim:
  assumes "rss_inv s" "from \<notin> fst ` set (Map s)"
  shows "rss_inv (fst (rss_insert_range s from to)) \<and>
    rss_ranges (fst (rss_insert_range s from to)) = fst (insert_range (rss_ranges s) from to)"
proof -
  obtain xs ys where m: "Map s = xs @ ys" and xs: "\<forall>x\<in>set xs. fst x < from" and ys: "\<forall>y\<in>set ys. from < fst y"
  proof (rule smap_split_lower [of "Map s" "from"])
    show "smap_ok (Map s)" using assms(1) by (simp add: rss_inv_def)
    fix xs ys
    assume "Map s = xs @ ys" "\<forall>x\<in>set xs. fst x < from" "\<forall>y\<in>set ys. from \<le> fst y"
    with that [of xs ys] assms(2) show thesis by (force simp: le_less)
  qed
  have keep: "map (\<lambda>e. if fst e = from then (from, (snd e)\<lparr>SizeIt := q\<rparr>) else e) zs = zs"
    if "\<forall>z\<in>set zs. fst z \<noteq> from" for zs :: "(u64, range_value) smap" and q
    using that by (intro map_idI) auto
  have "Map (fst (rss_insert_range s from to)) =
      xs @ (from, \<lparr>To = to, SizeIt = (calc_size from to, from)\<rparr>) # ys"
    using xs ys by (simp add: rss_insert_range_def Let_def m smap_emplace_split keep less_imp_neq
        less_imp_neq [symmetric])
  moreover have "fst (insert_range (rss_ranges s) from to) =
      map (map_prod id To) xs @ (from, to) # map (map_prod id To) ys"
    using xs ys by (simp add: insert_range_def rss_ranges_def m smap_emplace_split)
  moreover have "Sizes (fst (rss_insert_range s from to)) = sizes_emplace (calc_size from to) from (Sizes s)"
    by (simp add: rss_insert_range_def Let_def)
  ultimately show ?thesis
    using assms xs ys by (auto simp: rss_inv_def rss_ranges_def m smap_ok_append sorted_sizes_emplace intro: less_trans)
qed

lemma rss_deref_split:
  assumes "rss_inv s" "deref (Map s) it = Some e"
  obtains xs ys where "Map s = xs @ e # ys" "it = At (fst e)" "smap_ok (xs @ e # ys)"
    "SizeIt (snd e) = (calc_size (fst e) (To (snd e)), fst e)"
    "sizes_erase (Sizes s) (SizeIt (snd e)) = Some (remove1 (SizeIt (snd e)) (Sizes s))"
proof -
  have e: "e \<in> set (Map s)" "it = At (fst e)" using deref_SomeD [OF assms(2)] by simp_all
  then obtain xs ys where "Map s = xs @ e # ys" by (meson split_list)
  with e assms(1) sizes_erase_Some [OF assms(1) e(1)] show thesis
    by (intro that) (auto simp: rss_inv_def)
qed

lemma rss_erase_range_sim:
  assumes "rss_inv s"
  shows "rel_option (rel_prod rss_rel (=)) (rss_erase_range s it) (erase_range (rss_ranges s) it)"
proof (cases "deref (Map s) it")
  case None
  then have "smap_erase (Map s) it = None" by (simp add: smap_erase_def)
  with None show ?thesis by (simp add: rss_erase_range_def erase_range_def rss_ranges_def smap_erase_map)
next
  case (Some e)
  then obtain xs ys where m: "Map s = xs @ e # ys" "it = At (fst e)" and ok: "smap_ok (xs @ e # ys)"
    and se: "sizes_erase (Sizes s) (SizeIt (snd e)) = Some (remove1 (SizeIt (snd e)) (Sizes s))"
    using rss_deref_split [OF assms] by metis
  have er: "smap_erase (xs @ e # ys) (At (fst e)) = Some (xs @ ys, smap_begin ys)"
    using smap_erase_split [of xs "fst e" "snd e" ys] ok by simp
  have "rss_inv \<lparr>Map = xs @ ys, Sizes = remove1 (SizeIt (snd e)) (Sizes s)\<rparr>"
    using assms by (auto simp: rss_inv_def m smap_ok_append sorted_remove1)
  moreover have "smap_erase (rss_ranges s) it = Some (map (map_prod id To) (xs @ ys), smap_begin ys)"
    using smap_erase_map [of To "Map s" it] er m by (simp add: rss_ranges_def)
  ultimately show ?thesis
    using Some m er se by (simp add: rss_erase_range_def erase_range_def rss_rel_def)
      (simp add: rss_ranges_def)
qed

lemma rss_set_to_sim:
  assumes "rss_inv s" "rss_get_from s it = Some f"
  shows "rel_option rss_rel (rss_set_to s it to) (Some (smap_set f to (rss_ranges s)))"
proof -
  obtain e where d: "deref (Map s) it = Some e" "fst e = f" using assms(2) by (auto simp: rss_get_from_def)
  then obtain xs ys where m: "Map s = xs @ e # ys" "it = At (fst e)" and ok: "smap_ok (xs @ e # ys)"
    and se: "sizes_erase (Sizes s) (SizeIt (snd e)) = Some (remove1 (SizeIt (snd e)) (Sizes s))"
    using rss_deref_split [OF assms(1)] by metis
  have st: "smap_set (fst e) v (xs @ e # ys) = xs @ (fst e, v) # ys" for v
    using smap_set_split [of xs "fst e" "snd e" ys v] ok by simp
  have "smap_ok (map (map_prod id To) xs @ (fst e, To (snd e)) # map (map_prod id To) ys)"
    using ok smap_ok_map [of To "xs @ e # ys"] by (simp add: map_prod_def split_beta)
  then have "smap_set (fst e) to (map (map_prod id To) xs @ (fst e, To (snd e)) # map (map_prod id To) ys) =
      map (map_prod id To) xs @ (fst e, to) # map (map_prod id To) ys"
    by (rule smap_set_split)
  moreover have "map (map_prod id To) (xs @ e # ys) =
      map (map_prod id To) xs @ (fst e, To (snd e)) # map (map_prod id To) ys"
    by (simp add: map_prod_def split_beta)
  moreover have "rss_inv \<lparr>Map = xs @ (fst e, \<lparr>To = to, SizeIt = (calc_size (fst e) to, fst e)\<rparr>) # ys,
      Sizes = sizes_emplace (calc_size (fst e) to) (fst e) (remove1 (SizeIt (snd e)) (Sizes s))\<rparr>"
    using assms(1) by (auto simp: rss_inv_def m smap_ok_append sorted_remove1 sorted_sizes_emplace)
  ultimately show ?thesis
    using d m se st by (simp add: rss_set_to_def Let_def rss_rel_def rss_ranges_def)
qed

lemma rel_option_bind:
  "rel_option R x y \<Longrightarrow> (\<And>a b. R a b \<Longrightarrow> rel_option Q (f a) (g b)) \<Longrightarrow>
   rel_option Q (x \<bind> f) (y \<bind> g)"
  by (cases x; cases y) simp_all

lemma rel_option_bind_same:
  "(\<And>a. x = Some a \<Longrightarrow> rel_option Q (f a) (g a)) \<Longrightarrow> rel_option Q (x \<bind> f) (x \<bind> g)"
  by (cases x) simp_all

lemma rel_option_fst:
  "rel_option (rel_prod R S) x y \<Longrightarrow> rel_option R (map_option fst x) (map_option fst y)"
  by (cases x; cases y) auto

lemma rss_get_both: "rss_get_to s it = Some t \<Longrightarrow> \<exists>f. rss_get_from s it = Some f"
  by (auto simp: rss_get_to_def rss_get_from_def)

lemma rss_expand_to_sim [sim_intros]:
  assumes "rss_inv s"
  shows "rel_option rss_rel (rss_expand_to s it to) (expand_to (rss_ranges s) it to)"
  using rss_set_to_sim [OF assms] rss_get_both [of s it]
  by (cases "rss_get_to s it"; cases "rss_get_from s it")
     (auto simp: rss_expand_to_def expand_to_def check_def rss_get_from_def rss_get_to_def)

lemma rss_reduce_to_sim [sim_intros]:
  assumes "rss_inv s"
  shows "rel_option rss_rel (rss_reduce_to s it to) (reduce_to (rss_ranges s) it to)"
  using rss_set_to_sim [OF assms] rss_get_both [of s it]
  by (cases "rss_get_to s it"; cases "rss_get_from s it")
     (auto simp: rss_reduce_to_def reduce_to_def check_def rss_get_from_def rss_get_to_def)

lemma rss_maybe_expand_to_sim [sim_intros]:
  assumes "rss_inv s"
  shows "rel_option rss_rel (rss_maybe_expand_to s it to) (maybe_expand_to (rss_ranges s) it to)"
  using assms rss_expand_to_sim [OF assms]
  by (auto simp: rss_maybe_expand_to_def maybe_expand_to_def rss_rel_def intro!: rel_option_bind_same)

lemma fresh_Map_iff: "fst ` set (Map s) = fst ` set (rss_ranges s)"
  by (force simp: rss_ranges_def)

lemma rss_insert_range_rel:
  assumes "rss_rel s m" "from \<notin> fst ` set m"
  shows "rel_prod rss_rel (=) (rss_insert_range s from to) (insert_range m from to)"
proof -
  have "snd (rss_insert_range s from to) = snd (insert_range m from to)"
    by (simp add: rss_insert_range_def insert_range_def Let_def)
  with rss_insert_range_sim [of s "from" to] assms show ?thesis
    by (auto simp: rss_rel_def fresh_Map_iff rel_prod_sel)
qed

lemma erase_range_keys:
  "erase_range m it = Some (m', it') \<Longrightarrow> set m' \<subseteq> set m \<and> length m' < length m"
  by (auto simp: erase_range_def smap_erase_def Let_def split: bind_splits
      dest!: deref_SomeD intro: length_filter_less)

lemma rss_reduce_from_sim:
  assumes "rss_inv s" "from \<notin> fst ` set (rss_ranges s)"
  shows "rel_option (rel_prod rss_rel (=)) (rss_reduce_from s it from) (reduce_from (rss_ranges s) it from)"
proof -
  have "rel_option (rel_prod rss_rel (=))
      (rss_erase_range s it \<bind> (\<lambda>(s', _). Some (rss_insert_range s' from t)))
      (erase_range (rss_ranges s) it \<bind> (\<lambda>(m', _). Some (insert_range m' from t)))" for t
  proof (cases "erase_range (rss_ranges s) it")
    case None
    with rss_erase_range_sim [OF assms(1), of it] show ?thesis by simp
  next
    case (Some p)
    moreover obtain s' it' where "rss_erase_range s it = Some (s', it')" "rss_rel s' (fst p)"
      using Some rss_erase_range_sim [OF assms(1), of it] by (auto simp: option_rel_Some2 rel_prod_sel)
    moreover have "from \<notin> fst ` set (fst p)"
      using Some assms(2) erase_range_keys [of "rss_ranges s" it "fst p" "snd p"] by auto
    ultimately show ?thesis
      using rss_insert_range_rel by (simp add: case_prod_unfold)
  qed
  then show ?thesis
    unfolding rss_reduce_from_def reduce_from_def by (auto intro!: rel_option_bind_same)
qed

lemma smap_set_keys: "fst ` set (smap_set k v m) = fst ` set m"
proof -
  have "map fst (smap_set k v m) = map fst m" by (simp add: smap_set_def)
  then show ?thesis by (metis list.set_map)
qed

lemma rss_bisect_range_sim:
  assumes "rss_inv s" "to \<notin> fst ` set (rss_ranges s)"
  shows "rel_option rss_rel (rss_bisect_range s it from to) (bisect_range (rss_ranges s) it from to)"
proof -
  have keys: "to \<notin> fst ` set m'" if "reduce_to (rss_ranges s) it from = Some m'" for m'
  proof -
    obtain x v where "m' = smap_set x v (rss_ranges s)"
      using \<open>reduce_to (rss_ranges s) it from = Some m'\<close> by (auto simp: reduce_to_def split: bind_splits)
    with assms(2) show ?thesis by (simp only: smap_set_keys not_False_eq_True)
  qed
  have "rel_option rss_rel (rss_reduce_to s it from \<bind> (\<lambda>s'. Some (fst (rss_insert_range s' to t))))
      (reduce_to (rss_ranges s) it from \<bind> (\<lambda>m'. Some (fst (insert_range m' to t))))" for t
  proof (cases "reduce_to (rss_ranges s) it from")
    case None
    with rss_reduce_to_sim [OF assms(1), of it "from"] show ?thesis by simp
  next
    case (Some m')
    moreover obtain s' where "rss_reduce_to s it from = Some s'" "rss_rel s' m'"
      using Some rss_reduce_to_sim [OF assms(1), of it "from"] by (auto simp: option_rel_Some2)
    ultimately show ?thesis
      using rss_insert_range_rel [OF _ keys] by (simp add: rel_prod_sel)
  qed
  then show ?thesis
    unfolding rss_bisect_range_def bisect_range_def by (auto intro!: rel_option_bind_same)
qed

lemma maybe_expand_to_length: "maybe_expand_to m it to = Some m' \<Longrightarrow> length m' = length m"
  by (auto simp: maybe_expand_to_def expand_to_def smap_set_def split: bind_splits if_splits)

lemma rss_merge_sim:
  "rss_inv s \<Longrightarrow>
   rel_option rss_rel (rss_merge_from_iterator_to_value s ins bound to)
     (merge_from_iterator_to_value (rss_ranges s) ins bound to)"
proof (induction "length (rss_ranges s)" arbitrary: s bound rule: less_induct)
  case less
  show ?case
  proof (cases "bound = End")
    case True
    with less.prems show ?thesis
      by (subst rss_merge_from_iterator_to_value.simps, subst merge_from_iterator_to_value.simps)
         (simp add: rss_rel_def)
  next
    case False
    have "rel_option rss_rel
       (rss_maybe_expand_to s ins t \<bind> (\<lambda>s1. rss_erase_range s1 bound \<bind>
          (\<lambda>(s2, b). rss_merge_from_iterator_to_value s2 ins b to)))
       (maybe_expand_to (rss_ranges s) ins t \<bind> (\<lambda>m1. erase_range m1 bound \<bind>
          (\<lambda>(m2, b). merge_from_iterator_to_value m2 ins b to)))" for t
    proof (cases "maybe_expand_to (rss_ranges s) ins t")
      case None
      with rss_maybe_expand_to_sim [OF less.prems, of ins t] show ?thesis by simp
    next
      case (Some m1)
      then obtain s1 where s1: "rss_maybe_expand_to s ins t = Some s1" "rss_inv s1" "rss_ranges s1 = m1"
        using rss_maybe_expand_to_sim [OF less.prems, of ins t] by (auto simp: option_rel_Some2 rss_rel_def)
      show ?thesis
      proof (cases "erase_range m1 bound")
        case None
        with Some s1 rss_erase_range_sim [OF s1(2), of bound] show ?thesis by simp
      next
        case (Some p)
        then obtain s2 where "rss_erase_range s1 bound = Some (s2, snd p)" "rss_inv s2" "rss_ranges s2 = fst p"
          using rss_erase_range_sim [OF s1(2), of bound] s1(3) by (auto simp: option_rel_Some2 rss_rel_def rel_prod_sel)
        moreover have "length (fst p) < length (rss_ranges s)"
          using erase_range_keys [of m1 bound "fst p" "snd p"] Some maybe_expand_to_length
            \<open>maybe_expand_to (rss_ranges s) ins t = Some m1\<close> by fastforce
        ultimately show ?thesis
          using less.hyps [of s2 "snd p"] Some s1 \<open>maybe_expand_to (rss_ranges s) ins t = Some m1\<close>
          by (simp add: case_prod_unfold)
      qed
    qed
    then show ?thesis
      using False less.prems
      by (subst rss_merge_from_iterator_to_value.simps, subst merge_from_iterator_to_value.simps)
         (auto simp: rss_rel_def intro!: rel_option_bind_same)
  qed
qed

lemma ranges_ok_subset:
  "ranges_ok m \<Longrightarrow> ranges_ok (filter P m)"
  by (induction m) auto

lemma erase_range_ranges_ok: "ranges_ok m \<Longrightarrow> erase_range m it = Some (m', it') \<Longrightarrow> ranges_ok m'"
  by (auto simp: erase_range_def smap_erase_def Let_def ranges_ok_subset split: bind_splits)

text \<open>A point strictly inside a stored range is not the start of another one.\<close>

lemma inside_not_key:
  assumes "ranges_ok m" "(f, t) \<in> set m" "f < x" "x \<le> t"
  shows "x \<notin> fst ` set m"
proof
  assume "x \<in> fst ` set m"
  then obtain y where y: "(x, y) \<in> set m" by force
  obtain xs ys where m: "m = xs @ (f, t) # ys" using assms(2) by (meson split_list)
  with y assms(3) have "(x, y) \<in> set xs \<or> (x, y) \<in> set ys" by auto
  then show False
    using assms ranges_ok_less [OF assms(1) y] by (auto simp: m ranges_ok_append)
qed

lemma get_both_in: "get_from m it = Some f \<Longrightarrow> get_to m it = Some t \<Longrightarrow> (f, t) \<in> set m"
  by (auto simp: get_from_def get_to_def dest: deref_SomeD)

lemma rss_erase_loop_sim:
  "rss_inv s \<Longrightarrow> ranges_ok (rss_ranges s) \<Longrightarrow>
   rel_option rss_rel (rss_erase_from_iterator_to_value s bound to)
     (erase_from_iterator_to_value (rss_ranges s) bound to)"
proof (induction "length (rss_ranges s)" arbitrary: s bound rule: less_induct)
  case less
  note er = rss_erase_range_sim [OF less.prems(1), of bound]
  have rec: "rel_option rss_rel
       (rss_erase_range s bound \<bind>
          (\<lambda>(s', b). if b = End then Some s' else rss_erase_from_iterator_to_value s' b to))
       (erase_range (rss_ranges s) bound \<bind>
          (\<lambda>(m', b). if b = End then Some m' else erase_from_iterator_to_value m' b to))"
  proof (cases "erase_range (rss_ranges s) bound")
    case None
    with er show ?thesis by simp
  next
    case (Some p)
    then obtain s2 where s2: "rss_erase_range s bound = Some (s2, snd p)" "rss_inv s2" "rss_ranges s2 = fst p"
      using er by (auto simp: option_rel_Some2 rss_rel_def rel_prod_sel)
    have "length (fst p) < length (rss_ranges s)" "ranges_ok (fst p)"
      using erase_range_keys [of "rss_ranges s" bound "fst p" "snd p"] Some
        erase_range_ranges_ok [OF less.prems(2), of bound "fst p" "snd p"] by simp_all
    with less.hyps [of s2 "snd p"] Some s2 show ?thesis
      by (simp add: case_prod_unfold rss_rel_def)
  qed
  have red: "rel_option rss_rel (map_option fst (rss_reduce_from s bound to))
      (map_option fst (reduce_from (rss_ranges s) bound to))"
    if "rss_get_from s bound = Some f" "rss_get_to s bound = Some t" "\<not> to \<le> f" "to < t" for f t
  proof -
    have "(f, t) \<in> set (rss_ranges s)" using that by (intro get_both_in [of _ bound]) simp_all
    then have "to \<notin> fst ` set (rss_ranges s)"
      using inside_not_key [OF less.prems(2)] that by (meson less_imp_le not_le)
    then show ?thesis by (rule rel_option_fst [OF rss_reduce_from_sim [OF less.prems(1)]])
  qed
  show ?case
    using rec red rel_option_fst [OF er] less.prems(1)
    by (subst rss_erase_from_iterator_to_value.simps, subst erase_from_iterator_to_value.simps)
       (auto simp: rss_rel_def intro!: rel_option_bind_same)
qed

lemma rel_option_if:
  "(c \<Longrightarrow> rel_option R x x') \<Longrightarrow> (\<not> c \<Longrightarrow> rel_option R y y') \<Longrightarrow>
   rel_option R (if c then x else y) (if c then x' else y')"
  by simp

subsection \<open>The public operations simulate those of RangeSet\<close>

lemma upper_bound_split_at:
  assumes "ranges_ok m"
  obtains xs ys where "m = xs @ ys" "\<forall>x\<in>set xs. fst x \<le> k" "\<forall>y\<in>set ys. k < fst y"
    "upper_bound m k = smap_begin ys"
proof -
  obtain xs ys where "m = xs @ ys" "\<forall>x\<in>set xs. fst x \<le> k" "\<forall>y\<in>set ys. k < fst y"
    using smap_split_upper [OF ranges_ok_smap_ok [OF assms]] by metis
  then show thesis using that upper_bound_split [of xs k ys] by metis
qed

lemma begin_fresh:
  assumes "ranges_ok m" "upper_bound m k = smap_begin m" "m = [] \<or> upper_bound m k \<noteq> End"
  shows "k \<notin> fst ` set m"
proof -
  obtain xs ys where m: "m = xs @ ys" "\<forall>x\<in>set xs. fst x \<le> k" "\<forall>y\<in>set ys. k < fst y"
    "upper_bound m k = smap_begin ys" using upper_bound_split_at [OF assms(1)] by metis
  have "xs = []"
  proof (rule ccontr)
    assume "xs \<noteq> []"
    then obtain x xs' where "xs = x # xs'" by (cases xs) auto
    with m assms show False by (cases ys) auto
  qed
  with m show ?thesis by force
qed

lemma prev_fresh:
  assumes "ranges_ok m" "iter_prev m (upper_bound m k) = Some b" "get_to m b = Some t" "t < k"
  shows "k \<notin> fst ` set m"
proof -
  obtain xs ys where m: "m = xs @ ys" "\<forall>x\<in>set xs. fst x \<le> k" "\<forall>y\<in>set ys. k < fst y"
    "upper_bound m k = smap_begin ys" using upper_bound_split_at [OF assms(1)] by metis
  show ?thesis
  proof (cases "xs = []")
    case True
    with m show ?thesis by force
  next
    case False
    then obtain xs' f u where xs: "xs = xs' @ [(f, u)]" "\<forall>x\<in>set xs'. fst x < f \<and> snd x < f"
      using ranges_split_last [OF assms(1) m(2) m(1)] by metis
    have ok: "smap_ok (xs' @ (f, u) # ys)" using assms(1) ranges_ok_smap_ok by (simp add: m xs)
    have "b = At f" using assms(2) iter_prev_split [OF ok] m(4) by (simp add: m xs)
    with assms(3) get_split [OF ok] have "u = t" by (simp add: m xs)
    moreover have "f < u" using assms(1) by (simp add: m xs ranges_ok_append)
    ultimately show ?thesis using m xs assms(4) by force
  qed
qed

lemma rss_merge_rel:
  "rss_rel s m \<Longrightarrow> rel_option rss_rel (rss_merge_from_iterator_to_value s ins b to)
     (merge_from_iterator_to_value m ins b to)"
  using rss_merge_sim by (auto simp: rss_rel_def)

lemma rss_erase_range_rel:
  "rss_rel s m \<Longrightarrow> rel_option (rel_prod rss_rel (=)) (rss_erase_range s it) (erase_range m it)"
  using rss_erase_range_sim by (auto simp: rss_rel_def)

lemma rss_erase_loop_rel:
  "rss_rel s m \<Longrightarrow> ranges_ok m \<Longrightarrow> rel_option rss_rel (rss_erase_from_iterator_to_value s b to)
     (erase_from_iterator_to_value m b to)"
  using rss_erase_loop_sim by (auto simp: rss_rel_def)

lemma rss_merge_after_erase:
  "rel_prod rss_rel (=) p q \<Longrightarrow> rel_option rss_rel
     (rss_erase_range (fst p) b \<bind> (\<lambda>(s2, b'). rss_merge_from_iterator_to_value s2 (snd p) b' to))
     (erase_range (fst q) b \<bind> (\<lambda>(m2, b'). merge_from_iterator_to_value m2 (snd q) b' to))"
  by (rule rel_option_bind [OF rss_erase_range_rel])
     (auto simp: rel_prod_sel intro: rss_merge_rel)

lemma rss_insert_sim [sim_intros]:
  assumes "rss_inv s" "ranges_ok (rss_ranges s)"
  shows "rel_option rss_rel (rss_insert s from to) (rs_insert (rss_ranges s) from to)"
proof -
  have rel: "rss_rel s (rss_ranges s)" using assms(1) by (simp add: rss_rel_def)
  define b where "b = upper_bound (Map s) from"
  have ins: "rel_prod rss_rel (=) (rss_insert_range s from x) (insert_range (rss_ranges s) from x)"
    if "from \<notin> fst ` set (rss_ranges s)" for x
    using rss_insert_range_rel [OF rel that] .
  have one: "rss_rel (fst (rss_insert_range s from to)) (fst (insert_range (rss_ranges s) from to))"
    if "iter_prev (Map s) b = Some p" "rss_get_to s p = Some t" "t < from" for p t
    using ins [OF prev_fresh [OF assms(2), of "from" p t], of to] that by (simp add: rel_prod_sel b_def)
  have two: "rel_option rss_rel
      (let (s1, i) = rss_insert_range s from x
       in rss_erase_range s1 b \<bind> (\<lambda>(s2, b'). rss_merge_from_iterator_to_value s2 i b' to))
      (let (m1, i) = insert_range (rss_ranges s) from x
       in erase_range m1 b \<bind> (\<lambda>(m2, b'). merge_from_iterator_to_value m2 i b' to))"
    if "iter_prev (Map s) b = Some p" "rss_get_to s p = Some t" "t < from" for p t x
    using rss_merge_after_erase [OF ins [OF prev_fresh [OF assms(2), of "from" p t], of x]] that
    by (simp add: b_def case_prod_unfold Let_def)
  have first: "rel_option rss_rel
      (let (s', i) = rss_insert_range s from to in rss_merge_from_iterator_to_value s' i b to)
      (let (m', i) = insert_range (rss_ranges s) from to in merge_from_iterator_to_value m' i b to)"
    if "b \<noteq> End" "b = smap_begin (Map s)"
    using ins [OF begin_fresh [OF assms(2)], of to] that
    by (auto simp: b_def rel_prod_sel case_prod_unfold Let_def intro: rss_merge_rel)
  have grow: "rel_option rss_rel
      (rss_maybe_expand_to s p to \<bind> (\<lambda>s1. iter_next (Map s1) p \<bind> (\<lambda>b'. rss_merge_from_iterator_to_value s1 p b' to)))
      (maybe_expand_to (rss_ranges s) p to \<bind> (\<lambda>m1. iter_next m1 p \<bind> (\<lambda>b'. merge_from_iterator_to_value m1 p b' to)))" for p
    by (rule rel_option_bind [OF rss_maybe_expand_to_sim [OF assms(1)]])
       (auto simp: rss_rel_def intro!: rel_option_bind_same rss_merge_sim)
  have empty: "rss_rel (fst (rss_insert_range s from to)) (fst (insert_range (rss_ranges s) from to))"
    if "Map s = []"
    using ins [of to] that by (simp add: rel_prod_sel rss_ranges_def)
  show ?thesis
    unfolding rss_insert_def rs_insert_def rss_reads b_def [symmetric] Let_def [where s = b]
    by (intro rel_option_if rel_option_bind_same)
       (use rel one two first grow empty rss_maybe_expand_to_sim [OF assms(1)] in
         \<open>simp_all add: not_le\<close>)
qed

lemma prev_le:
  assumes "smap_ok m" "iter_prev m (upper_bound m k) = Some b" "get_from m b = Some f"
  shows "f \<le> k"
proof -
  obtain xs ys where m: "m = xs @ ys" "\<forall>x\<in>set xs. fst x \<le> k" "\<forall>y\<in>set ys. k < fst y"
    using smap_split_upper [OF assms(1)] by metis
  show ?thesis
  proof (cases xs rule: rev_cases)
    case Nil
    then have "iter_prev m (upper_bound m k) = None"
      using m upper_bound_split [of "[]" k ys] by (cases ys) (simp_all add: iter_prev_def)
    with assms show ?thesis by simp
  next
    case (snoc xs' e)
    have "upper_bound m k = smap_begin ys" using m by (simp add: upper_bound_split)
    with assms(1,2) snoc m iter_prev_split [of xs' e ys] have "b = At (fst e)" by simp
    with assms(3) have "f = fst e" by (auto simp: get_from_def dest: deref_SomeD)
    with m(2) snoc show ?thesis by simp
  qed
qed

lemma reduce_to_ok:
  assumes "ranges_ok m" "get_from m it = Some f" "f < k" "reduce_to m it k = Some m'"
  shows "ranges_ok m'"
proof -
  obtain t where t: "get_to m it = Some t" "k < t"
    using assms(2,4) by (auto simp: reduce_to_def split: bind_splits)
  then have "(f, t) \<in> set m" "it = At f"
    using assms(2) by (auto simp: get_from_def get_to_def dest: deref_SomeD)
  then obtain xs ys where m: "m = xs @ (f, t) # ys" by (meson split_list)
  then have "m' = xs @ (f, k) # ys"
    using assms t \<open>it = At f\<close> reduce_to_split [OF ranges_ok_smap_ok, of xs f t ys k] by simp
  with assms m t show ?thesis by (auto simp: ranges_ok_append intro: less_trans)
qed

lemma rss_erase_sim [sim_intros]:
  assumes "rss_inv s" "ranges_ok (rss_ranges s)"
  shows "rel_option rss_rel (rss_erase s from to) (rs_erase (rss_ranges s) from to)"
proof -
  have rel: "rss_rel s (rss_ranges s)" using assms(1) by (simp add: rss_rel_def)
  have fresh: "to \<notin> fst ` set (rss_ranges s)"
    if "rss_get_from s p = Some f" "rss_get_to s p = Some t" "f < to" "to < t" for p f t
    using inside_not_key [OF assms(2) get_both_in [of _ p f t]] that by (simp add: less_imp_le)
  have bis: "rel_option rss_rel (rss_bisect_range s p from to) (bisect_range (rss_ranges s) p from to)" for p
  proof (cases "rss_get_from s p"; cases "rss_get_to s p")
    fix f t
    assume a: "rss_get_from s p = Some f" "rss_get_to s p = Some t"
    show ?thesis
    proof (cases "f < to \<and> to < t")
      case True
      then show ?thesis using rss_bisect_range_sim [OF assms(1) fresh] a by blast
    next
      case False
      then show ?thesis using a by (auto simp: rss_bisect_range_def bisect_range_def check_def)
    qed
  qed (auto simp: rss_bisect_range_def bisect_range_def)
  have red: "rel_option rss_rel (map_option fst (rss_reduce_from s p to))
      (map_option fst (reduce_from (rss_ranges s) p to))"
    if "rss_get_from s p = Some f" "rss_get_to s p = Some t" "f < to" "to < t" for p f t
    using rel_option_fst [OF rss_reduce_from_sim [OF assms(1) fresh [OF that]]] .
  have tail: "rel_option rss_rel
      (rss_reduce_to s p from \<bind> (\<lambda>s1. rss_erase_from_iterator_to_value s1 b to))
      (reduce_to (rss_ranges s) p from \<bind> (\<lambda>m1. erase_from_iterator_to_value m1 b to))"
    if "iter_prev (Map s) (upper_bound (Map s) from) = Some p" "rss_get_from s p = Some f" "from \<noteq> f" for p f b
  proof (cases "reduce_to (rss_ranges s) p from")
    case None
    with rss_reduce_to_sim [OF assms(1), of p "from"] show ?thesis by simp
  next
    case (Some m1)
    moreover obtain s1 where "rss_reduce_to s p from = Some s1" "rss_rel s1 m1"
      using Some rss_reduce_to_sim [OF assms(1), of p "from"] by (auto simp: option_rel_Some2)
    moreover have "f < from"
      using prev_le [of "rss_ranges s" "from" p f] assms(2) that by (auto simp: ranges_ok_smap_ok)
    then have "ranges_ok m1" using reduce_to_ok [OF assms(2) _ _ Some] that by simp
    ultimately show ?thesis using rss_erase_loop_rel by simp
  qed
  show ?thesis
    unfolding rss_erase_def rs_erase_def rss_reads Let_def
    by (intro rel_option_if rel_option_bind_same)
       (use rel bis red tail rss_reduce_to_sim [OF assms(1)] rss_erase_loop_sim [OF assms]
         rel_option_fst [OF rss_erase_range_sim [OF assms(1)]] in \<open>simp_all add: not_le\<close>)
qed

section \<open>What the class promises\<close>

definition rss_ok :: "range_size_set \<Rightarrow> bool" where
  "rss_ok s \<longleftrightarrow> rss_inv s \<and> ranges_ok (rss_ranges s)"

lemma rss_insert_ok:
  assumes "rss_ok s"
  shows "\<exists>s'. rss_insert s from to = Some s' \<and> rss_ok s' \<and>
    points (rss_ranges s') = points (rss_ranges s) \<union> {from..<to}"
  using rss_insert_sim [of s "from" to] rs_insert_union [of "rss_ranges s" "from" to] assms
  by (auto simp: rss_ok_def rss_rel_def option_rel_Some2)

lemma rss_erase_ok:
  assumes "rss_ok s"
  shows "\<exists>s'. rss_erase s from to = Some s' \<and> rss_ok s' \<and>
    points (rss_ranges s') = points (rss_ranges s) - {from..<to}"
  using rss_erase_sim [of s "from" to] rs_erase_diff [of "rss_ranges s" "from" to] assms
  by (auto simp: rss_ok_def rss_rel_def option_rel_Some2)

lemma rss_contains_sim: "rss_contains s v = rs_contains (rss_ranges s) v"
  by (simp add: rss_contains_def rs_contains_def Let_def)

lemma rss_overlaps_sim: "rss_overlaps s from to = rs_overlaps (rss_ranges s) from to"
  by (simp add: rss_overlaps_def rs_overlaps_def Let_def)

text \<open>The size index holds exactly the ranges, each under its size.\<close>

lemma Sizes_set:
  assumes "rss_inv s"
  shows "set (Sizes s) = {(calc_size f t, f) | f t. (f, t) \<in> set (rss_ranges s)}"
proof -
  have "set (Sizes s) = (SizeIt \<circ> snd) ` set (Map s)"
    using assms unfolding rss_inv_def by (metis list.set_map set_mset_mset)
  also have "\<dots> = (\<lambda>e. (calc_size (fst e) (To (snd e)), fst e)) ` set (Map s)"
    using assms by (intro image_cong) (auto simp: rss_inv_def)
  also have "\<dots> = {(calc_size f t, f) | f t. (f, t) \<in> set (rss_ranges s)}"
    by (force simp: rss_ranges_def image_iff)
  finally show ?thesis .
qed

lemma by_size_range_eq:
  assumes "rss_ok s" "(f, t) \<in> set (rss_ranges s)"
  shows "by_size_range s (k, f) = Some (f, t)"
proof -
  obtain v where v: "(f, v) \<in> set (Map s)" "To v = t" using assms(2) by (auto simp: rss_ranges_def)
  have "distinct (map fst (Map s))"
    using assms(1) by (simp add: rss_ok_def rss_inv_def smap_ok_def strict_sorted_iff)
  with v show ?thesis by (simp add: by_size_range_def map_of_is_SomeI)
qed

lemma by_size_begin_empty: "rss_inv s \<Longrightarrow> by_size_begin s = None \<longleftrightarrow> rss_ranges s = []"
proof -
  assume a: "rss_inv s"
  have "Sizes s = [] \<longleftrightarrow> Map s = []"
  proof -
    have "length (Sizes s) = length (Map s)"
      using a unfolding rss_inv_def by (metis length_map mset_eq_length)
    then show ?thesis by auto
  qed
  then show ?thesis by (auto simp: by_size_begin_def split: list.split)
qed

lemma by_size_begin_largest:
  assumes "rss_ok s" "by_size_begin s = Some e"
  obtains f t where "by_size_range s e = Some (f, t)" "(f, t) \<in> set (rss_ranges s)"
    "e = (t - f, f)" "\<forall>(a, b)\<in>set (rss_ranges s). b - a \<le> t - f"
proof -
  have inv: "rss_inv s" using assms(1) by (simp add: rss_ok_def)
  obtain es where es: "Sizes s = e # es" using assms(2) by (auto simp: by_size_begin_def split: list.splits)
  then have "e \<in> set (Sizes s)" by simp
  then obtain f t where e: "e = (t - f, f)" "(f, t) \<in> set (rss_ranges s)"
    using Sizes_set [OF inv] by (auto simp: calc_size_def)
  have max: "\<forall>x\<in>set (Sizes s). fst x \<le> fst e" using inv es by (auto simp: rss_inv_def)
  have "b - a \<le> t - f" if "(a, b) \<in> set (rss_ranges s)" for a b
  proof -
    have "(calc_size a b, a) \<in> set (Sizes s)" using that Sizes_set [OF inv] by auto
    with max e show ?thesis by (auto simp: calc_size_def)
  qed
  with e by_size_range_eq [OF assms(1) e(2)] show thesis by (intro that [of f t]) auto
qed

text \<open>Erasing through the by-size iterator keeps the two maps in step.\<close>

lemma rss_erase_by_size_ok:
  assumes "rss_ok s" "(f, t) \<in> set (rss_ranges s)"
  shows "\<exists>s'. rss_erase_by_size s (calc_size f t, f) = Some s' \<and> rss_ok s' \<and>
    set (rss_ranges s') = set (rss_ranges s) - {(f, t)}"
proof -
  have inv: "rss_inv s" and ok: "smap_ok (Map s)" using assms(1) by (auto simp: rss_ok_def rss_inv_def)
  obtain v where v: "(f, v) \<in> set (Map s)" "To v = t" using assms(2) by (auto simp: rss_ranges_def)
  then have si: "SizeIt v = (calc_size f t, f)" using inv by (auto simp: rss_inv_def)
  obtain xs ys where m: "Map s = xs @ (f, v) # ys" using v(1) by (meson split_list)
  have er: "smap_erase (Map s) (At f) = Some (xs @ ys, smap_begin ys)"
    using smap_erase_split ok by (simp add: m)
  have "rss_inv \<lparr>Map = xs @ ys, Sizes = remove1 (calc_size f t, f) (Sizes s)\<rparr>"
    using inv si by (auto simp: rss_inv_def m smap_ok_append sorted_remove1)
  moreover have "ranges_ok (rss_ranges \<lparr>Map = xs @ ys, Sizes = q\<rparr>)" for q
    using assms(1) by (auto simp: rss_ok_def rss_ranges_def m ranges_ok_append)
  moreover have "set (rss_ranges \<lparr>Map = xs @ ys, Sizes = q\<rparr>) = set (rss_ranges s) - {(f, t)}" for q
    using ok v(2) by (force simp: rss_ranges_def m smap_ok_append)
  moreover have "sizes_erase (Sizes s) (calc_size f t, f) = Some (remove1 (calc_size f t, f) (Sizes s))"
    using sizes_erase_Some [OF inv v(1)] si by simp
  ultimately show ?thesis using er by (simp add: rss_erase_by_size_def rss_ok_def)
qed

lemma card_word_interval: "f \<le> t \<Longrightarrow> card {f..<t::u64} = unat (t - f)"
proof -
  assume ft: "f \<le> t"
  have "bij_betw unat {f..<t} {unat f..<unat t}"
    unfolding bij_betw_def
  proof (intro conjI)
    show "inj_on unat {f..<t}" by (auto intro!: inj_onI simp: word_unat_eq_iff)
    show "unat ` {f..<t} = {unat f..<unat t}"
    proof (auto simp: word_le_nat_alt word_less_nat_alt)
      fix x assume x: "unat f \<le> x" "x < unat t"
      have xl: "x < 2 ^ 64" using x(2) unat_less [of t] by simp
      then have "unat (word_of_nat x :: u64) = x" by (simp add: unat_word_of_nat_less)
      with x show "x \<in> unat ` {f..<t}"
        by (intro image_eqI [of _ _ "word_of_nat x"]) (auto simp: word_le_nat_alt word_less_nat_alt)
    qed
  qed
  then have "card {f..<t} = unat t - unat f" using bij_betw_same_card by fastforce
  with ft show ?thesis by (simp add: unat_sub)
qed

lemma fold_size_points:
  "ranges_ok (map (map_prod id To) m) \<Longrightarrow>
   fold (\<lambda>e acc. acc + calc_size (fst e) (To (snd e))) m a =
     a + word_of_nat (card (points (map (map_prod id To) m)))"
proof (induction m arbitrary: a)
  case (Cons e m)
  let ?ps = "points (map (map_prod id To) m)"
  have less: "fst e < To (snd e)" and ok: "ranges_ok (map (map_prod id To) m)"
    and above: "\<forall>x\<in>set m. To (snd e) < fst x"
    using Cons.prems by (auto simp: id_def)
  have "{fst e..<To (snd e)} \<inter> ?ps = {}" using above by (force simp: in_points_iff)
  then have "card ({fst e..<To (snd e)} \<union> ?ps) = card {fst e..<To (snd e)} + card ?ps"
    by (intro card_Un_disjoint) auto
  with less Cons.IH [OF ok] show ?case
    by (simp add: card_word_interval calc_size_def less_imp_le id_def algebra_simps)
qed simp

lemma rss_get_stats_total:
  assumes "rss_ok s"
  shows "unat (fst (rss_get_stats s)) = card (points (rss_ranges s))"
proof -
  have "- 1 \<notin> points (rss_ranges s)"
    by (auto simp: in_points_iff word_order.extremum_strict)
  then have "points (rss_ranges s) \<subset> (UNIV :: u64 set)" by blast
  then have "card (points (rss_ranges s)) < card (UNIV :: u64 set)" by (intro psubset_card_mono) auto
  then have "card (points (rss_ranges s)) < 2 ^ 64" by (simp add: card_word)
  moreover have "fst (rss_get_stats s) = word_of_nat (card (points (rss_ranges s)))"
    using fold_size_points [of "Map s" 0] assms
    by (simp add: rss_get_stats_def rss_ok_def rss_ranges_def Let_def)
  ultimately show ?thesis by (simp add: unat_word_of_nat_less)
qed

interpretation rsset: range_store rss_ok "\<lambda>s. points (rss_ranges s)" rss_insert rss_erase rss_clear
  rss_contains rss_overlaps
proof unfold_locales
  show "rss_ok (rss_clear s)" "points (rss_ranges (rss_clear s)) = {}" for s
    by (simp_all add: rss_ok_def rss_clear_def rss_inv_def rss_ranges_def)
qed (use rss_insert_ok rss_erase_ok in \<open>simp_all add: rss_contains_sim rss_overlaps_sim rss_ok_def
       rs_contains_mem rs_overlaps_inter\<close>)

section \<open>Properties\<close>

text \<open>
  (C31) \<^verbatim>\<open>RangeSizeSet\<close>: every sequence of \<^verbatim>\<open>insert\<close>, \<^verbatim>\<open>erase\<close> and \<^verbatim>\<open>clear\<close>
  on a well-formed set runs to its end, keeps the address map well formed and the by-size
  multimap in step with it (each range once, under its size, in decreasing order, with the
  stored back reference pointing at it), and denotes the same sequence of unions and
  differences.
\<close>

theorem range_size_set_run:
  assumes "rss_ok s"
  shows "\<exists>s'. range_run rss_insert rss_erase rss_clear s ops = Some s' \<and> rss_ok s' \<and>
    points (rss_ranges s') = range_spec (points (rss_ranges s)) ops"
  using assms by (rule rsset.run_ok)

theorem range_size_set_run_witness:
  "\<exists>s'. range_run rss_insert rss_erase rss_clear \<lparr>Map = [], Sizes = []\<rparr>
      [Insert 0x1000 0x9000, Erase 0x2000 0x3000] = Some s' \<and> rss_ok s' \<and>
    points (rss_ranges s') = range_spec (points (rss_ranges \<lparr>Map = [], Sizes = []\<rparr>))
      [Insert 0x1000 0x9000, Erase 0x2000 0x3000]"
  by (rule range_size_set_run) (simp add: rss_ok_def rss_inv_def rss_ranges_def)

text \<open>
  (C17) Refinement: an operation of \<^verbatim>\<open>RangeSizeSet\<close> succeeds exactly when the operation of
  \<^verbatim>\<open>RangeSet\<close> on its address map does, and yields the same ranges.
\<close>

theorem range_size_set_refines:
  assumes "rss_inv s" "ranges_ok (rss_ranges s)"
  shows "map_option rss_ranges (rss_insert s from to) = rs_insert (rss_ranges s) from to \<and>
    map_option rss_ranges (rss_erase s from to) = rs_erase (rss_ranges s) from to \<and>
    rss_contains s x = rs_contains (rss_ranges s) x \<and>
    rss_overlaps s from to = rs_overlaps (rss_ranges s) from to"
  using rss_insert_sim [OF assms, of "from" to] rss_erase_sim [OF assms, of "from" to]
  by (auto simp: rss_contains_sim rss_overlaps_sim option_rel_Some1 rss_rel_def rel_option_iff
      split: option.splits)

theorem range_size_set_refines_witness:
  "map_option rss_ranges (rss_insert \<lparr>Map = [], Sizes = []\<rparr> 5 9) =
      rs_insert (rss_ranges \<lparr>Map = [], Sizes = []\<rparr>) 5 9 \<and>
    map_option rss_ranges (rss_erase \<lparr>Map = [], Sizes = []\<rparr> 5 9) =
      rs_erase (rss_ranges \<lparr>Map = [], Sizes = []\<rparr>) 5 9 \<and>
    rss_contains \<lparr>Map = [], Sizes = []\<rparr> 7 = rs_contains (rss_ranges \<lparr>Map = [], Sizes = []\<rparr>) 7 \<and>
    rss_overlaps \<lparr>Map = [], Sizes = []\<rparr> 5 9 = rs_overlaps (rss_ranges \<lparr>Map = [], Sizes = []\<rparr>) 5 9"
  by (rule range_size_set_refines) (simp_all add: rss_inv_def rss_ranges_def)

text \<open>
  On a non-empty set \<^verbatim>\<open>by_size_begin()\<close> points at a stored range, and no stored range is
  larger; \<^verbatim>\<open>get_stats()\<close> counts the stored points without overflow.
\<close>

theorem range_size_set_largest:
  assumes "rss_ok s" "rss_ranges s \<noteq> []"
  shows "\<exists>e f t. by_size_begin s = Some e \<and> by_size_range s e = Some (f, t) \<and>
      (f, t) \<in> set (rss_ranges s) \<and> (\<forall>(a, b)\<in>set (rss_ranges s). b - a \<le> t - f) \<and>
      unat (fst (rss_get_stats s)) = card (points (rss_ranges s))"
proof -
  obtain e where e: "by_size_begin s = Some e"
    using by_size_begin_empty [of s] assms by (auto simp: rss_ok_def)
  from by_size_begin_largest [OF assms(1) e] rss_get_stats_total [OF assms(1)] e show ?thesis by metis
qed

abbreviation two_ranges :: range_size_set where
  "two_ranges \<equiv> \<lparr>Map = [(1, \<lparr>To = 3, SizeIt = (2, 1)\<rparr>), (8, \<lparr>To = 16, SizeIt = (8, 8)\<rparr>)],
                 Sizes = [(8, 8), (2, 1)]\<rparr>"

theorem range_size_set_largest_witness:
  "\<exists>e f t. by_size_begin two_ranges = Some e \<and> by_size_range two_ranges e = Some (f, t) \<and>
      (f, t) \<in> set (rss_ranges two_ranges) \<and> 16 - 8 \<le> t - f \<and>
      unat (fst (rss_get_stats two_ranges)) = card (points (rss_ranges two_ranges))"
proof -
  have "rss_ok two_ranges" "rss_ranges two_ranges \<noteq> []" "(8, 16) \<in> set (rss_ranges two_ranges)"
    by (auto simp: rss_ok_def rss_inv_def rss_ranges_def calc_size_def)
  with range_size_set_largest [of two_ranges] show ?thesis by blast
qed

end
