(* ===== verification/Bit_Set.thy ===== *)
theory Bit_Set
  imports Prelude
begin

text \<open>
  \<^verbatim>\<open>Common/BitSet.h\<close>: the register allocators' sets of small integers. A set is its
  integer \<^verbatim>\<open>m_val\<close>; the reference to a bit, the operators, the constructors and the
  iterator are translated one by one. The theorems show that the range-based loop visits
  exactly the members, in increasing order, and ends, and that the operators are the
  operations on sets.
\<close>

section \<open>Operations\<close>

text \<open>\<^verbatim>\<open>std::countr_zero\<close> and \<^verbatim>\<open>std::popcount\<close>.\<close>

definition countr_zero :: "'a::len word \<Rightarrow> nat" where
  "countr_zero w = length (takeWhile (\<lambda>i. \<not> bit w i) [0..<LENGTH('a)])"

definition popcount :: "'a::len word \<Rightarrow> nat" where
  "popcount w = length (filter (bit w) [0..<LENGTH('a)])"

definition Ref_get :: "'a::len word \<Rightarrow> 'a word \<Rightarrow> bool" where
  "Ref_get m_val m_mask \<longleftrightarrow> m_val AND m_mask \<noteq> 0"

definition Ref_set :: "'a::len word \<Rightarrow> 'a word \<Rightarrow> bool \<Rightarrow> 'a word" where
  "Ref_set m_val m_mask x = (m_val AND NOT m_mask) OR (if x then m_mask else 0)"

record 'w bs_iter =
  m_val :: 'w
  m_bit :: int

definition iter_step :: "'a::len word bs_iter \<Rightarrow> 'a word bs_iter" where
  "iter_step it =
     (if m_val it = 0 then it\<lparr>m_bit := - 1\<rparr>
      else let b = countr_zero (m_val it)
           in \<lparr>m_val = m_val it AND NOT (push_bit b 1), m_bit = int b\<rparr>)"

definition iter_eq :: "'a::len word bs_iter \<Rightarrow> 'a word bs_iter \<Rightarrow> bool" where
  "iter_eq it other \<longleftrightarrow> m_bit it = m_bit other"

definition bs_of_list :: "nat list \<Rightarrow> 'a::len word" where
  "bs_of_list init = fold (\<lambda>b v. v OR push_bit b 1) init 0"

definition AllTrue :: "nat \<Rightarrow> 'a::len word" where
  "AllTrue count = (if count = LENGTH('a) then NOT 0 else push_bit count 1 - 1)"

definition bs_index :: "'a::len word \<Rightarrow> nat \<Rightarrow> bool" where
  "bs_index v b = Ref_get v (push_bit b 1)"

definition bs_assign :: "'a::len word \<Rightarrow> nat \<Rightarrow> bool \<Rightarrow> 'a word" where
  "bs_assign v b x = Ref_set v (push_bit b 1) x"

definition bs_or :: "'a::len word \<Rightarrow> 'a word \<Rightarrow> 'a word" where
  "bs_or v other = v OR other"

definition bs_and :: "'a::len word \<Rightarrow> 'a word \<Rightarrow> 'a word" where
  "bs_and v other = v AND other"

definition bs_xor :: "'a::len word \<Rightarrow> 'a word \<Rightarrow> 'a word" where
  "bs_xor v other = v XOR other"

definition bs_not :: "'a::len word \<Rightarrow> 'a word" where
  "bs_not v = NOT v"

definition bs_shl :: "'a::len word \<Rightarrow> nat \<Rightarrow> 'a word" where
  "bs_shl v shift = push_bit shift v"

definition bs_shr :: "'a::len word \<Rightarrow> nat \<Rightarrow> 'a word" where
  "bs_shr v shift = drop_bit shift v"

definition bs_bool :: "'a::len word \<Rightarrow> bool" where
  "bs_bool v \<longleftrightarrow> v \<noteq> 0"

definition Count :: "'a::len word \<Rightarrow> nat" where
  "Count v = popcount v"

definition bs_begin :: "'a::len word \<Rightarrow> 'a word bs_iter" where
  "bs_begin v = iter_step \<lparr>m_val = v, m_bit = 0\<rparr>"

definition bs_end :: "'a::len word \<Rightarrow> 'a word bs_iter" where
  "bs_end v = \<lparr>m_val = v, m_bit = - 1\<rparr>"

section \<open>The iteration\<close>

text \<open>The lowest set bit of a non-zero word, and the word without it.\<close>

lemma countr_zero_bit:
  fixes w :: "'a::len word"
  assumes "w \<noteq> 0"
  shows "bit w (countr_zero w)" and "\<And>i. i < countr_zero w \<Longrightarrow> \<not> bit w i"
    and "countr_zero w < LENGTH('a)"
proof -
  let ?P = "\<lambda>i. \<not> bit w i" and ?xs = "[0..<LENGTH('a)]"
  obtain j where j: "j < LENGTH('a)" "bit w j"
    using assms by (metis bit_imp_le_length bit_word_eqI bit_0_eq bot_apply bot_bool_def)
  have "\<exists>x\<in>set ?xs. \<not> ?P x" using j by auto
  then have len: "length (takeWhile ?P ?xs) < length ?xs"
    by (metis length_takeWhile_le nat_less_le nth_mem set_takeWhileD takeWhile_eq_all_conv takeWhile_eq_take take_all_iff)
  then show lt: "countr_zero w < LENGTH('a)" by (simp add: countr_zero_def)
  from nth_length_takeWhile [OF len] len show "bit w (countr_zero w)"
    by (simp add: countr_zero_def)
  show "\<not> bit w i" if "i < countr_zero w" for i
  proof -
    have i: "i < length (takeWhile ?P ?xs)" using that by (simp add: countr_zero_def)
    then have "takeWhile ?P ?xs ! i = i" using len by (simp add: takeWhile_nth)
    with nth_mem [OF i] show ?thesis by (auto dest: set_takeWhileD)
  qed
qed

lemma members_split:
  fixes w :: "'a::len word"
  assumes "w \<noteq> 0"
  shows "filter (bit w) [0..<LENGTH('a)] =
    countr_zero w # filter (bit (w AND NOT (push_bit (countr_zero w) 1))) [0..<LENGTH('a)]"
proof -
  let ?c = "countr_zero w" and ?w' = "w AND NOT (push_bit (countr_zero w) 1)"
  note c = countr_zero_bit [OF assms]
  have w': "bit ?w' i \<longleftrightarrow> bit w i \<and> i \<noteq> ?c" if "i < LENGTH('a)" for i
    using that c(3) by (auto simp: bit_simps)
  have upt: "[0..<LENGTH('a)] = [0..<?c] @ ?c # [Suc ?c..<LENGTH('a)]"
    using upt_add_eq_append [of 0 ?c "LENGTH('a) - ?c"] c(3) by (simp add: upt_conv_Cons)
  have "filter (bit w) [0..<?c] = []" "filter (bit ?w') [0..<?c] = []"
    using c w' by (auto simp: filter_empty_conv)
  moreover have "filter (bit ?w') [Suc ?c..<LENGTH('a)] = filter (bit w) [Suc ?c..<LENGTH('a)]"
  proof (rule filter_cong)
    show "bit ?w' x = bit w x" if "x \<in> set [Suc ?c..<LENGTH('a)]" for x
      using that w' [of x] by simp
  qed simp
  moreover have "\<not> bit ?w' ?c" using w' c(3) by simp
  ultimately show ?thesis using c(1) by (simp add: upt)
qed

text \<open>
  \<^verbatim>\<open>for (int i : bs)\<close>: from \<^verbatim>\<open>begin()\<close>, the current bit, then \<^verbatim>\<open>++it\<close>, until the
  iterator equals \<^verbatim>\<open>end()\<close>.
\<close>

function bs_walk :: "'a::len word bs_iter \<Rightarrow> int list" where
  "bs_walk it = (if m_bit it = - 1 then [] else m_bit it # bs_walk (iter_step it))"
  by pat_completeness auto
termination
proof (relation "measure (\<lambda>it. if m_bit it = - 1 then 0 else 1 + popcount (m_val it))")
  fix it :: "'a word bs_iter"
  assume "m_bit it \<noteq> - 1"
  then show "(iter_step it, it) \<in> measure (\<lambda>it. if m_bit it = - 1 then 0 else 1 + popcount (m_val it))"
    using members_split [of "m_val it"]
    by (auto simp: iter_step_def popcount_def Let_def)
qed simp

declare bs_walk.simps [simp del]

definition bs_members :: "'a::len word \<Rightarrow> int list" where
  "bs_members v = bs_walk (bs_begin v)"

lemma bs_walk_step:
  "bs_walk (iter_step it) = map int (filter (bit (m_val it)) [0..<LENGTH('a)])"
  for it :: "'a::len word bs_iter"
proof (induction "popcount (m_val it)" arbitrary: it rule: less_induct)
  case less
  show ?case
  proof (cases "m_val it = 0")
    case True
    then show ?thesis by (subst bs_walk.simps) (simp add: iter_step_def)
  next
    case False
    define it' where "it' = iter_step it"
    have it': "m_val it' = m_val it AND NOT (push_bit (countr_zero (m_val it)) 1)"
      "m_bit it' = int (countr_zero (m_val it))"
      using False by (simp_all add: it'_def iter_step_def Let_def)
    have "popcount (m_val it') < popcount (m_val it)"
      using members_split [OF False] by (simp add: popcount_def it')
    then have "bs_walk (iter_step it') = map int (filter (bit (m_val it')) [0..<LENGTH('a)])"
      by (rule less)
    then have "bs_walk it' = int (countr_zero (m_val it)) # map int (filter (bit (m_val it')) [0..<LENGTH('a)])"
      by (subst bs_walk.simps) (simp add: it')
    with members_split [OF False] show ?thesis by (simp add: it'_def [symmetric] it')
  qed
qed

section \<open>The contract of a bit set\<close>

definition bs_set :: "'a::len word \<Rightarrow> nat set" where
  "bs_set v = {i. bit v i}"

lemma bs_set_below: "bs_set (v :: 'a::len word) \<subseteq> {..<LENGTH('a)}"
  by (auto simp: bs_set_def dest: bit_imp_le_length)

lemma bs_index_bit: "i < LENGTH('a) \<Longrightarrow> bs_index v i \<longleftrightarrow> bit v i" for v :: "'a::len word"
proof -
  assume i: "i < LENGTH('a)"
  have "v AND push_bit i 1 = (if bit v i then push_bit i 1 else 0)"
    by (rule bit_word_eqI) (auto simp: bit_simps)
  with i show ?thesis by (simp add: bs_index_def Ref_get_def push_bit_of_1)
qed

lemma bs_of_list_set:
  assumes "\<forall>b\<in>set init. b < LENGTH('a)"
  shows "bs_set (bs_of_list init :: 'a::len word) = set init"
proof -
  have "bit (fold (\<lambda>b v. v OR push_bit b 1) init v) i \<longleftrightarrow> bit v i \<or> i \<in> set init"
    for v :: "'a word" and i
    using assms by (induction init arbitrary: v) (auto simp: bit_simps)
  then show ?thesis by (auto simp: bs_of_list_def bs_set_def)
qed

lemma AllTrue_set:
  assumes "n \<le> LENGTH('a)"
  shows "bs_set (AllTrue n :: 'a::len word) = {..<n}"
proof -
  have "(AllTrue n :: 'a word) = mask n"
    using assms by (auto simp: AllTrue_def mask_eq_exp_minus_1 push_bit_of_1 intro: bit_word_eqI simp: bit_simps)
  with assms show ?thesis by (auto simp: bs_set_def bit_simps)
qed

locale bit_collection =
  fixes members :: "'b \<Rightarrow> nat set"
    and insert_at :: "'b \<Rightarrow> nat \<Rightarrow> bool \<Rightarrow> 'b"
    and union inter :: "'b \<Rightarrow> 'b \<Rightarrow> 'b"
    and complement :: "'b \<Rightarrow> 'b"
    and walk :: "'b \<Rightarrow> int list"
    and count :: "'b \<Rightarrow> nat"
    and limit :: nat
  assumes assign_law: "i < limit \<Longrightarrow>
      members (insert_at v i x) = (if x then insert i (members v) else members v - {i})"
    and union_law: "members (union v w) = members v \<union> members w"
    and inter_law: "members (inter v w) = members v \<inter> members w"
    and complement_law: "members (complement v) = {..<limit} - members v"
    and walk_law: "walk v = map int (sorted_list_of_set (members v))"
    and count_law: "count v = card (members v)"
    and limit_law: "members v \<subseteq> {..<limit}"
begin

lemma walk_sorted: "sorted_wrt (<) (walk v)"
  by (simp add: walk_law sorted_wrt_map)

lemma walk_set: "set (walk v) = int ` members v"
  using limit_law [of v] by (simp add: walk_law finite_subset)

lemma count_walk: "length (walk v) = count v"
  using limit_law [of v] by (simp add: walk_law count_law)

lemma difference_law: "members (inter v (complement w)) = members v - members w"
  using limit_law [of v] by (auto simp: inter_law complement_law)

lemma de_morgan: "members (complement (union v w)) = members (inter (complement v) (complement w))"
  by (auto simp: inter_law complement_law union_law)

end

lemma members_sorted: "filter (bit v) [0..<LENGTH('a)] = sorted_list_of_set (bs_set v)"
  for v :: "'a::len word"
proof (rule sorted_distinct_set_unique)
  have "finite (bs_set v)" using bs_set_below finite_subset by blast
  then show "set (filter (bit v) [0..<LENGTH('a)]) = set (sorted_list_of_set (bs_set v))"
    by (auto simp: bs_set_def dest: bit_imp_le_length)
qed (simp_all add: sorted_filter [of id, simplified])

interpretation bits: bit_collection "bs_set :: 'a::len word \<Rightarrow> nat set" bs_assign bs_or bs_and bs_not bs_members Count
    "LENGTH('a::len)"
proof
  fix v w :: "'a word" and i and x
  show "bs_set (bs_assign v i x) = (if x then insert i (bs_set v) else bs_set v - {i})"
    if "i < LENGTH('a)"
    using that by (auto simp: bs_set_def bs_assign_def Ref_set_def bit_simps dest: bit_imp_le_length)
  show "bs_set (bs_not v) = {..<LENGTH('a)} - bs_set v"
    by (auto simp: bs_set_def bs_not_def bit_simps)
  show "bs_members v = map int (sorted_list_of_set (bs_set v))"
    by (simp add: bs_members_def bs_begin_def bs_walk_step flip: members_sorted)
  show "Count v = card (bs_set v)"
    by (metis Count_def popcount_def members_sorted length_sorted_list_of_set)
  show "bs_set v \<subseteq> {..<LENGTH('a)}" by (rule bs_set_below)
qed (auto simp: bs_set_def bs_or_def bs_and_def bit_simps)

section \<open>Properties\<close>

text \<open>
  \<^verbatim>\<open>for (int i : bs)\<close> ends and visits exactly the indices of the set bits, in
  increasing order and each once; \<^verbatim>\<open>Count()\<close> is their number.
\<close>

theorem bit_set_iteration:
  "sorted_wrt (<) (bs_members v) \<and> set (bs_members v) = int ` {i. bit (v :: 'a::len word) i} \<and>
   length (bs_members v) = Count v"
  using bits.walk_sorted [of v] bits.walk_set [of v] bits.count_walk [of v] by (simp add: bs_set_def)

text \<open>
  The operators of \<^verbatim>\<open>BitSet\<close> are the operations on sets below the width: assignment
  through \<^verbatim>\<open>operator[]\<close> inserts or removes one member, \<^verbatim>\<open>|\<close>, \<^verbatim>\<open>&\<close>, \<^verbatim>\<open>^\<close>
  and \<^verbatim>\<open>~\<close> are union, intersection, symmetric difference and complement, the
  initializer list holds its elements and \<^verbatim>\<open>AllTrue(n)\<close> the indices below \<open>n\<close>.
\<close>

theorem bit_set_operators:
  fixes v w :: "'a::len word"
  assumes "i < LENGTH('a)" "\<forall>b\<in>set init. b < LENGTH('a)" "n \<le> LENGTH('a)"
  shows "bs_set (bs_assign v i x) = (if x then insert i (bs_set v) else bs_set v - {i}) \<and>
    (bs_index v i \<longleftrightarrow> i \<in> bs_set v) \<and>
    bs_set (bs_or v w) = bs_set v \<union> bs_set w \<and>
    bs_set (bs_and v w) = bs_set v \<inter> bs_set w \<and>
    bs_set (bs_xor v w) = (bs_set v - bs_set w) \<union> (bs_set w - bs_set v) \<and>
    bs_set (bs_not v) = {..<LENGTH('a)} - bs_set v \<and>
    bs_set (bs_of_list init :: 'a word) = set init \<and>
    bs_set (AllTrue n :: 'a word) = {..<n}"
proof (intro conjI)
  show "bs_set (bs_assign v i x) = (if x then insert i (bs_set v) else bs_set v - {i})"
    by (rule bits.assign_law [OF assms(1)])
  show "bs_index v i \<longleftrightarrow> i \<in> bs_set v" using bs_index_bit [OF assms(1)] by (simp add: bs_set_def)
  show "bs_set (bs_xor v w) = (bs_set v - bs_set w) \<union> (bs_set w - bs_set v)"
    by (auto simp: bs_xor_def bs_set_def bit_simps)
qed (use assms in \<open>simp_all add: bits.union_law bits.inter_law bits.complement_law bs_of_list_set AllTrue_set\<close>)

theorem bit_set_operators_witness:
  "bs_set (bs_assign (0x81 :: u8) 3 True) = (if True then insert 3 (bs_set (0x81 :: u8)) else bs_set (0x81 :: u8) - {3}) \<and>
    (bs_index (0x81 :: u8) 3 \<longleftrightarrow> 3 \<in> bs_set (0x81 :: u8)) \<and>
    bs_set (bs_or (0x81 :: u8) (0x18 :: u8)) = bs_set (0x81 :: u8) \<union> bs_set (0x18 :: u8) \<and>
    bs_set (bs_and (0x81 :: u8) (0x18 :: u8)) = bs_set (0x81 :: u8) \<inter> bs_set (0x18 :: u8) \<and>
    bs_set (bs_xor (0x81 :: u8) (0x18 :: u8)) = (bs_set (0x81 :: u8) - bs_set (0x18 :: u8)) \<union> (bs_set (0x18 :: u8) - bs_set (0x81 :: u8)) \<and>
    bs_set (bs_not (0x81 :: u8)) = {..<LENGTH(8)} - bs_set (0x81 :: u8) \<and>
    bs_set (bs_of_list [1, 7] :: u8) = set [1, 7] \<and>
    bs_set (AllTrue 8 :: u8) = {..<8}"
  using bit_set_operators [of 3 "[1, 7]" 8 "(0x81 :: u8)" True "(0x18 :: u8)"] by simp

end
