(* ===== verification/Fifo_Batch.thy ===== *)
theory Fifo_Batch
  imports Prelude
begin

text \<open>
  \<^verbatim>\<open>VideoCommon/FifoBatch.h\<close>: how many gather-pipe blocks the graphics thread consumes per
  decoder call, and the part of the FIFO loop of \<^verbatim>\<open>VideoCommon/Fifo.cpp\<close> that moves the ring
  pointers. The main result is that an iteration that consumes a planned batch is the same as
  that many iterations that consume one block each, none of which would have stopped.
\<close>

section \<open>FifoBatch.h\<close>

definition HORIZON_FIFO_LEGACY_BATCH_BLOCKS :: u32 where
  [field_defs]: "HORIZON_FIFO_LEGACY_BATCH_BLOCKS = 8"

definition HORIZON_FIFO_DEFAULT_BATCH_BLOCKS :: u32 where
  [field_defs]: "HORIZON_FIFO_DEFAULT_BATCH_BLOCKS = 8"

definition HORIZON_FIFO_MAX_BATCH_BLOCKS :: u32 where
  [field_defs]: "HORIZON_FIFO_MAX_BATCH_BLOCKS = 8"

definition NormalizeFifoBatchBlocks :: "u32 \<Rightarrow> u32" where
  "NormalizeFifoBatchBlocks blocks =
     (if blocks \<ge> HORIZON_FIFO_MAX_BATCH_BLOCKS then HORIZON_FIFO_MAX_BATCH_BLOCKS
      else if blocks \<ge> HORIZON_FIFO_LEGACY_BATCH_BLOCKS then HORIZON_FIFO_LEGACY_BATCH_BLOCKS
      else if blocks \<ge> 4 then 4
      else 1)"

definition EffectiveFifoBatchBlocks :: "u32 \<Rightarrow> bool \<Rightarrow> u32" where
  "EffectiveFifoBatchBlocks configured_blocks sync_gpu =
     (if sync_gpu then 1 else NormalizeFifoBatchBlocks configured_blocks)"

record fifo_batch_plan =
  blocks :: u32
  bytes :: u32
  next_read_ptr :: u32

definition PlanFifoBatch ::
  "u32 \<Rightarrow> u32 \<Rightarrow> u32 \<Rightarrow> u32 \<Rightarrow> bool \<Rightarrow> u32 \<Rightarrow> u32 \<Rightarrow> u32 \<Rightarrow> fifo_batch_plan" where
  "PlanFifoBatch read_ptr base end' distance breakpoint_enabled breakpoint gather_size max_blocks =
     (if gather_size = 0 \<or> max_blocks = 0 \<or> distance < gather_size \<or> read_ptr < base \<or>
         read_ptr > end' \<or> (end' - read_ptr) mod gather_size \<noteq> 0
      then \<lparr>blocks = 1, bytes = gather_size,
            next_read_ptr = (if read_ptr = end' then base else read_ptr + gather_size)\<rparr>
      else
        let available_blocks = distance div gather_size;
            blocks_before_wrap = (end' - read_ptr) div gather_size + 1;
            n = max 1 (min max_blocks (min available_blocks blocks_before_wrap));
            n' = (if breakpoint_enabled \<and> breakpoint > read_ptr \<and> breakpoint \<le> end' \<and>
                     (breakpoint - read_ptr) mod gather_size = 0
                  then max 1 (min n ((breakpoint - read_ptr) div gather_size)) else n);
            last_read_ptr = read_ptr + (n' - 1) * gather_size
        in \<lparr>blocks = n', bytes = n' * gather_size,
            next_read_ptr = (if last_read_ptr = end' then base else last_read_ptr + gather_size)\<rparr>)"

section \<open>The FIFO loop\<close>

text \<open>The fields of the FIFO the loop of \<^verbatim>\<open>RunGpuLoop\<close> reads and writes.\<close>

record cp_fifo =
  CPBase :: u32
  CPEnd :: u32
  CPReadPointer :: u32
  CPReadWriteDistance :: u32
  bFF_BPEnable :: bool
  CPBreakpoint :: u32

definition GATHER_PIPE_SIZE :: u32 where
  [field_defs]: "GATHER_PIPE_SIZE = 32"

definition AtBreakpoint :: "cp_fifo \<Rightarrow> bool" where
  "AtBreakpoint f \<longleftrightarrow> bFF_BPEnable f \<and> CPReadPointer f = CPBreakpoint f"

text \<open>The conditions of the \<^verbatim>\<open>while\<close> that concern the ring.\<close>

definition fifo_runnable :: "cp_fifo \<Rightarrow> bool" where
  "fifo_runnable f \<longleftrightarrow> CPReadWriteDistance f \<noteq> 0 \<and> \<not> AtBreakpoint f"

definition loop_batch :: "u32 \<Rightarrow> cp_fifo \<Rightarrow> fifo_batch_plan" where
  "loop_batch fifo_batch_blocks f =
     (let read_ptr = CPReadPointer f; base = CPBase f; end' = CPEnd f;
          batch = \<lparr>blocks = 1, bytes = GATHER_PIPE_SIZE,
                   next_read_ptr = (if read_ptr = end' then base else read_ptr + GATHER_PIPE_SIZE)\<rparr>
      in if fifo_batch_blocks > 1
         then PlanFifoBatch read_ptr base end' (CPReadWriteDistance f) (bFF_BPEnable f) (CPBreakpoint f)
                GATHER_PIPE_SIZE fifo_batch_blocks
         else batch)"

text \<open>One iteration: the bytes handed to the decoder (address and length), and the new ring.\<close>

definition loop_iteration :: "u32 \<Rightarrow> cp_fifo \<Rightarrow> (u32 \<times> u32) \<times> cp_fifo" where
  "loop_iteration fifo_batch_blocks f =
     (let batch = loop_batch fifo_batch_blocks f
      in ((CPReadPointer f, bytes batch),
          f\<lparr>CPReadPointer := next_read_ptr batch,
            CPReadWriteDistance := CPReadWriteDistance f - bytes batch\<rparr>))"

section \<open>The plan in natural numbers\<close>

definition ring_step :: "u32 \<Rightarrow> u32 \<Rightarrow> u32 \<Rightarrow> u32 \<Rightarrow> u32" where
  "ring_step base end' g p = (if p = end' then base else p + g)"

lemma ring_step_eq: "p \<noteq> end' \<Longrightarrow> ring_step base end' g p = p + g"
  by (simp add: ring_step_def)

lemma unat_dist: "a \<le> b \<Longrightarrow> unat (b - a) = unat b - unat (a :: u32)"
  by (simp add: unat_sub)

lemma word_min_max: "unat (min a b) = min (unat a) (unat b)" "unat (max a b) = max (unat a) (unat b)"
  for a b :: u32
  by (auto simp: min_def max_def word_le_nat_alt)

lemma ring_steps_before_end:
  assumes "unat p + k * unat g \<le> unat end'" "0 < unat g"
  shows "(ring_step base end' g ^^ k) p = p + word_of_nat k * g \<and>
    unat (p + word_of_nat k * g) = unat p + k * unat g"
  using assms(1)
proof (induction k)
  case (Suc k)
  then have le: "unat p + k * unat g \<le> unat end'" by simp
  with Suc.IH have IH: "(ring_step base end' g ^^ k) p = p + word_of_nat k * g"
    "unat (p + word_of_nat k * g) = unat p + k * unat g" by simp_all
  have "p + word_of_nat k * g \<noteq> end'" using IH(2) Suc.prems assms(2) by auto
  moreover have "unat (p + word_of_nat k * g + g) = unat p + k * unat g + unat g"
    using IH(2) Suc.prems unat_less [of end'] by (simp add: unat_add_lem [THEN iffD1])
  moreover have "p + word_of_nat (Suc k) * g = p + word_of_nat k * g + g" by (simp add: algebra_simps)
  ultimately show ?case
    using IH by (simp add: ring_step_eq ac_simps)
qed simp

lemma plan_nat:
  fixes r base e d bp g m :: u32 and bpe :: bool
  defines "p \<equiv> PlanFifoBatch r base e d bpe bp g m"
  defines "C \<equiv> (if bpe \<and> r < bp \<and> bp \<le> e \<and> (unat bp - unat r) mod unat g = 0
                then (unat bp - unat r) div unat g else unat m)"
  assumes "1 < g" "0 < m" "g \<le> d" "base \<le> r" "r \<le> e" "(unat e - unat r) mod unat g = 0"
  shows "unat (blocks p) = min (unat m) (min (unat d div unat g) (min ((unat e - unat r) div unat g + 1) C))"
    and "1 \<le> unat (blocks p)"
    and "bytes p = blocks p * g"
    and "next_read_ptr p = (if r + (blocks p - 1) * g = e then base else r + (blocks p - 1) * g + g)"
proof -
  let ?B = "(unat e - unat r) div unat g + 1"
  have g: "1 < unat g" using assms(3) by (simp add: word_less_nat_alt)
  have "(unat e - unat r) div unat g \<le> unat e div 2"
  proof -
    have "(unat e - unat r) div unat g \<le> (unat e - unat r) div 2"
      using g by (intro div_le_mono2) simp_all
    also have "\<dots> \<le> unat e div 2" by (intro div_le_mono) simp
    finally show ?thesis .
  qed
  then have small: "?B < 2 ^ 32" using unat_less [of e] by simp
  have edist: "unat (e - r) = unat e - unat r" using assms(7) by (rule unat_dist)
  have B: "unat ((e - r) div g + 1) = ?B"
    using small by (simp add: unat_add_lem [THEN iffD1] unat_div edist)
  have A: "unat (d div g) = unat d div unat g" by (simp add: unat_div)
  have A1: "1 \<le> unat d div unat g"
    using assms(5) g by (simp add: word_le_nat_alt div_greater_zero_iff Suc_le_eq)
  have m: "0 < unat m" using assms(4) by (simp add: word_less_nat_alt)
  have guard: "\<not> (g = 0 \<or> m = 0 \<or> d < g \<or> r < base \<or> r > e \<or> (e - r) mod g \<noteq> 0)"
    using assms g m by (auto simp: not_less unat_mod edist word_unat_eq_iff)
  have bpc: "(bpe \<and> bp > r \<and> bp \<le> e \<and> (bp - r) mod g = 0) \<longleftrightarrow>
      (bpe \<and> r < bp \<and> bp \<le> e \<and> (unat bp - unat r) mod unat g = 0)"
    by (auto simp: unat_dist unat_mod word_unat_eq_iff less_imp_le)
  define n where "n = max 1 (min m (min (d div g) ((e - r) div g + 1)))"
  have n: "unat n = min (unat m) (min (unat d div unat g) ?B)"
    using A1 m unfolding n_def word_min_max A B by (intro max_absorb2 [THEN trans]) auto
  define n' where "n' = (if bpe \<and> bp > r \<and> bp \<le> e \<and> (bp - r) mod g = 0
      then max 1 (min n ((bp - r) div g)) else n)"
  have C1: "1 \<le> (unat bp - unat r) div unat g" if "r < bp" "(unat bp - unat r) mod unat g = 0"
  proof -
    have "0 < unat bp - unat r" using that(1) by (simp add: word_less_nat_alt)
    with that(2) have "unat g \<le> unat bp - unat r" by (intro leI) (auto simp: mod_less)
    then have "unat g div unat g \<le> (unat bp - unat r) div unat g" by (rule div_le_mono)
    with g show ?thesis by simp
  qed
  have n1: "1 \<le> unat n" using n A1 assms(4) by (simp add: word_less_nat_alt)
  have n'C: "unat n' = min (unat n) C"
  proof (cases "bpe \<and> r < bp \<and> bp \<le> e \<and> (unat bp - unat r) mod unat g = 0")
    case True
    have "unat ((bp - r) div g) = (unat bp - unat r) div unat g" using True by (simp add: unat_div unat_dist less_imp_le)
    with True C1 n1 show ?thesis
      unfolding n'_def bpc C_def by (simp add: word_min_max max_absorb2)
  next
    case False
    then have "n' = n" "C = unat m" by (simp_all only: n'_def bpc C_def if_False)
    with n show ?thesis by simp
  qed
  have p: "p = \<lparr>blocks = n', bytes = n' * g,
      next_read_ptr = (if r + (n' - 1) * g = e then base else r + (n' - 1) * g + g)\<rparr>"
    unfolding p_def PlanFifoBatch_def if_not_P [OF guard] Let_def n_def [symmetric] n'_def [symmetric] by simp
  show "unat (blocks p) = min (unat m) (min (unat d div unat g) (min ?B C))"
    unfolding p fifo_batch_plan.simps n'C n by (simp only: min.assoc)
  have "1 \<le> C" using C1 assms(4) by (auto simp: C_def word_less_nat_alt)
  with n1 n'C show "1 \<le> unat (blocks p)" by (simp add: p)
  show "bytes p = blocks p * g" "next_read_ptr p = (if r + (blocks p - 1) * g = e then base else r + (blocks p - 1) * g + g)"
    by (simp_all add: p)
qed


text \<open>The plan as a walk over the ring.\<close>

lemma min4: "x = min a (min b (min c d)) \<Longrightarrow> x \<le> a \<and> x \<le> b \<and> x \<le> c \<and> x \<le> (d :: nat)"
  by linarith

lemma plan_walk:
  fixes r base e d bp g m :: u32 and bpe :: bool
  defines "p \<equiv> PlanFifoBatch r base e d bpe bp g m"
  assumes "1 < g" "0 < m" "g \<le> d" "base \<le> r" "r \<le> e" "(unat e - unat r) mod unat g = 0"
  shows "next_read_ptr p = (ring_step base e g ^^ unat (blocks p)) r"
    and "k < unat (blocks p) \<Longrightarrow> (ring_step base e g ^^ k) r = r + word_of_nat k * g"
    and "k < unat (blocks p) \<Longrightarrow> unat (r + word_of_nat k * g) = unat r + k * unat g"
    and "k < unat (blocks p) \<Longrightarrow> bpe \<Longrightarrow> r \<noteq> bp \<Longrightarrow> (ring_step base e g ^^ k) r \<noteq> bp"
    and "unat (blocks p) * unat g \<le> unat d"
    and "unat (bytes p) = unat (blocks p) * unat g"
proof -
  note plan = plan_nat [OF assms(2-), of bpe bp, folded p_def]
  let ?n = "unat (blocks p)"
  have le: "?n \<le> unat d div unat g" "?n \<le> (unat e - unat r) div unat g + 1"
    and bp_le: "?n \<le> (if bpe \<and> r < bp \<and> bp \<le> e \<and> (unat bp - unat r) mod unat g = 0
      then (unat bp - unat r) div unat g else unat m)"
    using min4 [OF plan(1)] by blast+
  have g: "1 < unat g" using assms(2) by (simp add: word_less_nat_alt)
  have steps: "(ring_step base e g ^^ k) r = r + word_of_nat k * g \<and>
      unat (r + word_of_nat k * g) = unat r + k * unat g" if "k < ?n" for k
  proof (rule ring_steps_before_end)
    have "k \<le> (unat e - unat r) div unat g" using that le(2) by simp
    then have "k * unat g \<le> unat e - unat r"
      by (meson div_times_less_eq_dividend le_trans mult_le_mono1)
    then show "unat r + k * unat g \<le> unat e" using assms(6) by (simp add: word_le_nat_alt)
  qed (use g in simp)
  then show "k < ?n \<Longrightarrow> (ring_step base e g ^^ k) r = r + word_of_nat k * g"
    "k < ?n \<Longrightarrow> unat (r + word_of_nat k * g) = unat r + k * unat g" by simp_all
  have last: "word_of_nat (?n - 1) = blocks p - 1"
    using plan(2) by (simp add: of_nat_diff)
  have Suc: "?n = Suc (?n - 1)" using plan(2) by simp
  have "(ring_step base e g ^^ Suc (?n - 1)) r = ring_step base e g ((ring_step base e g ^^ (?n - 1)) r)"
    using funpow.simps(2) [of "?n - 1" "ring_step base e g"] by (simp only: comp_apply)
  also have "(ring_step base e g ^^ (?n - 1)) r = r + (blocks p - 1) * g"
    using steps [of "?n - 1"] plan(2) last by simp
  also have "ring_step base e g \<dots> = next_read_ptr p"
    unfolding plan(4) by (simp only: ring_step_def)
  finally show "next_read_ptr p = (ring_step base e g ^^ ?n) r"
    using Suc by simp
  show "(ring_step base e g ^^ k) r \<noteq> bp" if k: "k < ?n" and "bpe" "r \<noteq> bp"
  proof
    assume eq: "(ring_step base e g ^^ k) r = bp"
    then have bp: "unat bp = unat r + k * unat g" using steps k by metis
    then have pos: "0 < k" using \<open>r \<noteq> bp\<close> by (cases k) (auto simp: word_unat_eq_iff)
    have "k \<le> (unat e - unat r) div unat g" using k le(2) by simp
    then have "k * unat g \<le> unat e - unat r"
      by (meson div_times_less_eq_dividend le_trans mult_le_mono1)
    then have "bp \<le> e" "r < bp"
      using bp pos g assms(6) by (simp_all add: word_le_nat_alt word_less_nat_alt)
    moreover have "(unat bp - unat r) div unat g = k" "(unat bp - unat r) mod unat g = 0" using bp g by simp_all
    ultimately have "?n \<le> k" using bp_le \<open>bpe\<close> by simp
    with k show False by simp
  qed
  from le(1) show nd: "?n * unat g \<le> unat d" by (meson div_times_less_eq_dividend le_trans mult_le_mono1)
  from nd have "?n * unat g < 2 ^ 32" using unat_less [of d] by simp
  then show "unat (bytes p) = ?n * unat g" by (simp add: plan(3) unat_mult_lem [THEN iffD1])
qed

section \<open>A batch is a run of single blocks\<close>

abbreviation single_block :: "cp_fifo \<Rightarrow> cp_fifo" where
  "single_block f \<equiv> snd (loop_iteration 1 f)"

lemma single_block_eq:
  "single_block f = f\<lparr>CPReadPointer := ring_step (CPBase f) (CPEnd f) GATHER_PIPE_SIZE (CPReadPointer f),
     CPReadWriteDistance := CPReadWriteDistance f - GATHER_PIPE_SIZE\<rparr>"
  by (simp add: loop_iteration_def loop_batch_def ring_step_def Let_def)

lemma single_blocks_eq:
  "(single_block ^^ k) f =
     f\<lparr>CPReadPointer := (ring_step (CPBase f) (CPEnd f) GATHER_PIPE_SIZE ^^ k) (CPReadPointer f),
       CPReadWriteDistance := CPReadWriteDistance f - word_of_nat k * GATHER_PIPE_SIZE\<rparr>"
  by (induction k) (simp_all add: single_block_eq algebra_simps)

text \<open>Outside the precondition of the planner, and for a batch size of 1, the plan is one block.\<close>

definition plannable :: "u32 \<Rightarrow> cp_fifo \<Rightarrow> bool" where
  "plannable fifo_batch_blocks f \<longleftrightarrow>
     1 < fifo_batch_blocks \<and> GATHER_PIPE_SIZE \<le> CPReadWriteDistance f \<and>
     CPBase f \<le> CPReadPointer f \<and> CPReadPointer f \<le> CPEnd f \<and>
     (CPEnd f - CPReadPointer f) mod GATHER_PIPE_SIZE = 0"

lemma loop_batch_single:
  assumes "\<not> plannable m f"
  shows "loop_batch m f = loop_batch 1 f"
proof (cases "1 < m")
  case True
  then have guard: "GATHER_PIPE_SIZE = 0 \<or> m = 0 \<or> CPReadWriteDistance f < GATHER_PIPE_SIZE \<or>
      CPReadPointer f < CPBase f \<or> CPReadPointer f > CPEnd f \<or>
      (CPEnd f - CPReadPointer f) mod GATHER_PIPE_SIZE \<noteq> 0"
    using assms by (auto simp: plannable_def not_le)
  show ?thesis
    unfolding loop_batch_def Let_def PlanFifoBatch_def if_P [OF guard] by simp
qed (simp add: loop_batch_def)

lemma loop_batch_plan:
  assumes "plannable m f"
  shows "loop_batch m f = PlanFifoBatch (CPReadPointer f) (CPBase f) (CPEnd f) (CPReadWriteDistance f)
      (bFF_BPEnable f) (CPBreakpoint f) GATHER_PIPE_SIZE m"
    and "1 < GATHER_PIPE_SIZE" "0 < m" "GATHER_PIPE_SIZE \<le> CPReadWriteDistance f"
    and "CPBase f \<le> CPReadPointer f" "CPReadPointer f \<le> CPEnd f"
    and "(unat (CPEnd f) - unat (CPReadPointer f)) mod unat GATHER_PIPE_SIZE = 0"
proof -
  have "unat ((CPEnd f - CPReadPointer f) mod GATHER_PIPE_SIZE) = 0"
    using assms by (simp add: plannable_def)
  then show "(unat (CPEnd f) - unat (CPReadPointer f)) mod unat GATHER_PIPE_SIZE = 0"
    using assms by (simp only: unat_mod unat_dist plannable_def)
  show "0 < m" using assms by (auto simp: plannable_def word_less_nat_alt)
qed (use assms in \<open>simp_all add: plannable_def loop_batch_def GATHER_PIPE_SIZE_def\<close>)


lemma batch_is_single_blocks:
  assumes "fifo_runnable f"
  shows "1 \<le> unat (blocks (loop_batch m f))"
    and "bytes (loop_batch m f) = blocks (loop_batch m f) * GATHER_PIPE_SIZE"
    and "(single_block ^^ unat (blocks (loop_batch m f))) f = snd (loop_iteration m f)"
    and "k < unat (blocks (loop_batch m f)) \<Longrightarrow> fifo_runnable ((single_block ^^ k) f)"
    and "k < unat (blocks (loop_batch m f)) \<Longrightarrow>
      CPReadPointer ((single_block ^^ k) f) = CPReadPointer f + word_of_nat k * GATHER_PIPE_SIZE"
proof -
  let ?n = "unat (blocks (loop_batch m f))"
  have "1 \<le> ?n \<and> bytes (loop_batch m f) = blocks (loop_batch m f) * GATHER_PIPE_SIZE \<and>
    (single_block ^^ ?n) f = snd (loop_iteration m f) \<and>
    (\<forall>k < ?n. fifo_runnable ((single_block ^^ k) f) \<and>
       CPReadPointer ((single_block ^^ k) f) = CPReadPointer f + word_of_nat k * GATHER_PIPE_SIZE)"
  proof (cases "plannable m f")
    case False
    have "loop_iteration m f = loop_iteration 1 f"
      by (simp add: loop_iteration_def loop_batch_single [OF False])
    moreover have "blocks (loop_batch m f) = 1" "bytes (loop_batch m f) = GATHER_PIPE_SIZE"
      unfolding loop_batch_single [OF False] by (simp_all add: loop_batch_def Let_def)
    ultimately show ?thesis using assms by simp
  next
    case True
    note pre = loop_batch_plan [OF True]
    note walk = plan_walk [where bpe = "bFF_BPEnable f" and bp = "CPBreakpoint f", OF pre(2-), folded pre(1)]
    note plan = plan_nat [OF pre(2-), of "bFF_BPEnable f" "CPBreakpoint f", folded pre(1)]
    have "(single_block ^^ ?n) f = snd (loop_iteration m f)"
      unfolding single_blocks_eq by (simp add: loop_iteration_def Let_def walk(1) plan(3))
    moreover have "fifo_runnable ((single_block ^^ k) f)" if k: "k < ?n" for k
    proof -
      have kd: "k * unat GATHER_PIPE_SIZE < unat (CPReadWriteDistance f)"
        using mult_less_mono1 [OF k, of "unat GATHER_PIPE_SIZE"] walk(5) by (simp add: GATHER_PIPE_SIZE_def)
      moreover have "word_of_nat k * GATHER_PIPE_SIZE = (word_of_nat (k * 32) :: u32)"
        by (simp add: GATHER_PIPE_SIZE_def)
      ultimately have "unat (word_of_nat k * GATHER_PIPE_SIZE :: u32) = k * unat GATHER_PIPE_SIZE"
        using unat_less [of "CPReadWriteDistance f"]
        by (simp add: unat_word_of_nat_less GATHER_PIPE_SIZE_def del: of_nat_mult)
      with kd have "CPReadWriteDistance f \<noteq> word_of_nat k * GATHER_PIPE_SIZE" by auto
      with assms walk(4) [OF k] show ?thesis
        by (auto simp: single_blocks_eq fifo_runnable_def AtBreakpoint_def)
    qed
    ultimately show ?thesis
      using plan(2,3) walk(2) by (simp add: single_blocks_eq)
  qed
  then show "1 \<le> ?n" "bytes (loop_batch m f) = blocks (loop_batch m f) * GATHER_PIPE_SIZE"
    "(single_block ^^ ?n) f = snd (loop_iteration m f)"
    "k < ?n \<Longrightarrow> fifo_runnable ((single_block ^^ k) f)"
    "k < ?n \<Longrightarrow> CPReadPointer ((single_block ^^ k) f) = CPReadPointer f + word_of_nat k * GATHER_PIPE_SIZE"
    by blast+
qed


section \<open>Properties\<close>

text \<open>
  The configured batch size is normalised to one of the supported sizes, the largest at or
  below a request of at least 1; normalising again changes nothing, and with the GPU
  synchronised the batch is one block.
\<close>

theorem batch_size_normalized:
  "NormalizeFifoBatchBlocks b \<in> {1, 4, 8} \<and>
   (1 \<le> b \<longrightarrow> NormalizeFifoBatchBlocks b \<le> b) \<and>
   (\<forall>c. c \<in> {1, 4, 8} \<and> c \<le> b \<longrightarrow> c \<le> NormalizeFifoBatchBlocks b) \<and>
   NormalizeFifoBatchBlocks (NormalizeFifoBatchBlocks b) = NormalizeFifoBatchBlocks b \<and>
   EffectiveFifoBatchBlocks b True = 1 \<and>
   EffectiveFifoBatchBlocks b False = NormalizeFifoBatchBlocks b"
proof (intro conjI allI impI)
  note defs = NormalizeFifoBatchBlocks_def HORIZON_FIFO_MAX_BATCH_BLOCKS_def HORIZON_FIFO_LEGACY_BATCH_BLOCKS_def
  show "NormalizeFifoBatchBlocks b \<in> {1, 4, 8}" by (simp add: defs)
  show "NormalizeFifoBatchBlocks b \<le> b" if "1 \<le> b" using that by (simp add: defs del: word_le_sub1)
  show "NormalizeFifoBatchBlocks (NormalizeFifoBatchBlocks b) = NormalizeFifoBatchBlocks b" by (simp add: defs word_le_nat_alt)
  show "c \<le> NormalizeFifoBatchBlocks b" if "c \<in> {1, 4, 8} \<and> c \<le> b" for c
    using that by (auto simp: defs word_le_nat_alt)
qed (simp_all add: EffectiveFifoBatchBlocks_def)

theorem batch_size_normalized_witness:
  "NormalizeFifoBatchBlocks 7 \<in> {1, 4, 8} \<and> NormalizeFifoBatchBlocks 7 \<le> 7 \<and> 4 \<le> NormalizeFifoBatchBlocks 7"
  using batch_size_normalized [of 7] by simp

text \<open>
  (C36) The plan of a batch: for a read pointer inside an aligned ring that is not at the
  breakpoint and has a block to read, the plan takes between one and the allowed number of
  blocks, no more bytes than are readable, no block past the end of the ring and none at or
  past an enabled breakpoint; no larger batch has these properties; and the byte count and next
  read pointer are those of that many single steps on the ring.
\<close>

theorem plan_is_largest_safe_batch:
  fixes r base e d bp g m :: u32 and bpe :: bool
  defines "p \<equiv> PlanFifoBatch r base e d bpe bp g m"
  defines "safe \<equiv> \<lambda>n. n \<le> unat m \<and> n * unat g \<le> unat d \<and>
    (\<forall>k < n. unat r + k * unat g \<le> unat e \<and> \<not> (bpe \<and> unat bp = unat r + k * unat g))"
  assumes "1 < g" "0 < m" "g \<le> d" "base \<le> r" "r \<le> e" "(e - r) mod g = 0" "\<not> (bpe \<and> r = bp)"
  shows "1 \<le> unat (blocks p) \<and> safe (unat (blocks p)) \<and> (\<forall>n. safe n \<longrightarrow> n \<le> unat (blocks p)) \<and>
    unat (bytes p) = unat (blocks p) * unat g \<and>
    next_read_ptr p = (ring_step base e g ^^ unat (blocks p)) r"
proof -
  have al: "(unat e - unat r) mod unat g = 0"
    using arg_cong [OF assms(8), of unat] assms(7) by (simp add: unat_mod unat_dist)
  note walk = plan_walk [where bpe = bpe and bp = bp, OF assms(3-7) al, folded p_def]
  note plan = plan_nat [OF assms(3-7) al, of bpe bp, folded p_def]
  let ?n = "unat (blocks p)"
  have g: "1 < unat g" using assms(3) by (simp add: word_less_nat_alt)
  have re: "unat r \<le> unat e" using assms(7) by (simp add: word_le_nat_alt)
  have "?n \<le> unat m" "?n \<le> (unat e - unat r) div unat g + 1"
    using min4 [OF plan(1)] by blast+
  moreover have "unat r + k * unat g \<le> unat e" if "k < ?n" for k
  proof -
    have "k \<le> (unat e - unat r) div unat g" using that calculation(2) by simp
    then have "k * unat g \<le> unat e - unat r" by (meson div_times_less_eq_dividend le_trans mult_le_mono1)
    with re show ?thesis by simp
  qed
  moreover have "\<not> (bpe \<and> unat bp = unat r + k * unat g)" if k: "k < ?n" for k
    using walk(2) [OF k] walk(3) [OF k] walk(4) [OF k] assms(9) by (metis word_unat_eq_iff)
  ultimately have s: "safe ?n" using walk(5) by (simp add: safe_def)
  have "n \<le> ?n" if n: "safe n" for n
  proof (cases n)
    case (Suc j)
    have "n \<le> unat d div unat g" using n g by (simp add: safe_def less_eq_div_iff_mult_less_eq)
    moreover have "j * unat g \<le> unat e - unat r" using n Suc by (auto simp: safe_def)
    then have "n \<le> (unat e - unat r) div unat g + 1" using g Suc by (simp add: less_eq_div_iff_mult_less_eq)
    moreover have "n \<le> (unat bp - unat r) div unat g"
      if c: "bpe" "r < bp" "bp \<le> e" "(unat bp - unat r) mod unat g = 0"
    proof (rule ccontr)
      assume "\<not> ?thesis"
      moreover have "unat bp = unat r + (unat bp - unat r) div unat g * unat g"
        using c(2) div_mult_mod_eq [of "unat bp - unat r" "unat g"] c(4) by (simp add: word_less_nat_alt)
      ultimately show False using n c(1) by (auto simp: safe_def not_le)
    qed
    ultimately show ?thesis using n unfolding plan(1) safe_def by simp
  qed simp
  with s walk(1,6) plan(2) show ?thesis by blast
qed

theorem plan_is_largest_safe_batch_witness:
  "blocks (PlanFifoBatch 0x1040 0x1000 0x10e0 512 True 0x10a0 32 8) = 3 \<and>
   unat (bytes (PlanFifoBatch 0x1040 0x1000 0x10e0 512 True 0x10a0 32 8)) = 3 * 32 \<and>
   next_read_ptr (PlanFifoBatch 0x1040 0x1000 0x10e0 512 True 0x10a0 32 8) = (ring_step 0x1000 0x10e0 32 ^^ 3) 0x1040"
proof -
  have b: "blocks (PlanFifoBatch 0x1040 0x1000 0x10e0 512 True 0x10a0 32 8) = 3"
    by (simp add: PlanFifoBatch_def Let_def)
  have "(1 :: u32) < 32 \<and> (0 :: u32) < 8 \<and> (32 :: u32) \<le> 512 \<and> (0x1000 :: u32) \<le> 0x1040 \<and> (0x1040 :: u32) \<le> 0x10e0 \<and>
    (0x10e0 - 0x1040 :: u32) mod 32 = 0 \<and> \<not> (True \<and> (0x1040 :: u32) = 0x10a0)" by simp
  with plan_is_largest_safe_batch [of 32 8 512 "0x1000" "0x1040" "0x10e0" True "0x10a0"] b
  show ?thesis by simp
qed

text \<open>
  An iteration of the graphics thread that consumes a planned batch leaves the ring as the
  same number of iterations of one block do, reads exactly the bytes those would read, in
  order, and the loop would not have stopped before any of them: neither on an empty FIFO nor at
  a breakpoint.
\<close>

theorem batch_equals_single_blocks:
  assumes "fifo_runnable f"
  shows "\<exists>n \<ge> 1. snd (loop_iteration m f) = (single_block ^^ n) f \<and>
    fst (loop_iteration m f) = (CPReadPointer f, word_of_nat n * GATHER_PIPE_SIZE) \<and>
    (\<forall>k < n. fifo_runnable ((single_block ^^ k) f) \<and>
       fst (loop_iteration 1 ((single_block ^^ k) f)) =
         (CPReadPointer f + word_of_nat k * GATHER_PIPE_SIZE, GATHER_PIPE_SIZE))"
proof -
  let ?n = "unat (blocks (loop_batch m f))"
  have one: "fst (loop_iteration 1 h) = (CPReadPointer h, GATHER_PIPE_SIZE)" for h
    by (simp add: loop_iteration_def loop_batch_def Let_def)
  have "fst (loop_iteration m f) = (CPReadPointer f, word_of_nat ?n * GATHER_PIPE_SIZE)"
    using batch_is_single_blocks(2) [OF assms, where m = m] by (simp add: loop_iteration_def Let_def)
  with batch_is_single_blocks [OF assms, where m = m] one show ?thesis by (intro exI [of _ ?n]) simp
qed


definition sample_fifo :: cp_fifo where
  "sample_fifo = \<lparr>CPBase = 0x1000, CPEnd = 0x10e0, CPReadPointer = 0x10c0, CPReadWriteDistance = 96,
     bFF_BPEnable = True, CPBreakpoint = 0x1020\<rparr>"

theorem batch_equals_single_blocks_witness:
  "\<exists>n \<ge> 1. snd (loop_iteration 8 sample_fifo) = (single_block ^^ n) sample_fifo \<and>
    fst (loop_iteration 8 sample_fifo) = (0x10c0, word_of_nat n * GATHER_PIPE_SIZE)"
proof -
  have "fifo_runnable sample_fifo" by (simp add: sample_fifo_def fifo_runnable_def AtBreakpoint_def)
  from batch_equals_single_blocks [OF this, of 8] show ?thesis by (auto simp: sample_fifo_def)
qed

end
