(* ===== verification/Byte_Swap.thy ===== *)
theory Byte_Swap
  imports Prelude
begin

text \<open>
  \<^verbatim>\<open>Common/Swap.h\<close> in its generic version (the one a Switch build selects) and the memory
  accessors of \<^verbatim>\<open>Common/BitUtils.h\<close> (\<^verbatim>\<open>BitCastPtr\<close>). Memory is a list of bytes, a
  pointer an offset into it, \<^verbatim>\<open>memcpy\<close> to and from an integer the little-endian layout of
  the host; an access outside the memory is a failure. The theorems show that a swap reverses
  the bytes, that the accessors read and write big-endian values, and that a write touches
  exactly its bytes.
\<close>

section \<open>Host layout and memcpy\<close>

definition bytes_of :: "'a::len word \<Rightarrow> u8 list" where
  "bytes_of w = map (\<lambda>i. ucast (drop_bit (8 * i) w)) [0..<LENGTH('a) div 8]"

primrec of_bytes :: "u8 list \<Rightarrow> 'a::len word" where
  "of_bytes [] = 0"
| "of_bytes (b # bs) = ucast b OR push_bit 8 (of_bytes bs)"

definition load :: "u8 list \<Rightarrow> nat \<Rightarrow> nat \<Rightarrow> u8 list option" where
  "load mem p n = (if p + n \<le> length mem then Some (take n (drop p mem)) else None)"

definition store :: "u8 list \<Rightarrow> nat \<Rightarrow> u8 list \<Rightarrow> u8 list option" where
  "store mem p bs =
     (if p + length bs \<le> length mem then Some (take p mem @ bs @ drop (p + length bs) mem) else None)"

section \<open>Swap.h\<close>

definition swap8 :: "u8 \<Rightarrow> u8" where
  "swap8 data = data"

definition swap24 :: "u8 list \<Rightarrow> nat \<Rightarrow> u32 option" where
  "swap24 mem p =
     do { d \<leftarrow> load mem p 3;
          Some (push_bit 16 (ucast (d ! 0)) OR push_bit 8 (ucast (d ! 1)) OR ucast (d ! 2)) }"

definition swap16 :: "u16 \<Rightarrow> u16" where
  "swap16 data = drop_bit 8 data OR push_bit 8 data"

definition swap32 :: "u32 \<Rightarrow> u32" where
  "swap32 data =
     push_bit 16 (ucast (swap16 (ucast data))) OR ucast (swap16 (ucast (drop_bit 16 data)))"

definition swap64 :: "u64 \<Rightarrow> u64" where
  "swap64 data =
     push_bit 32 (ucast (swap32 (ucast data))) OR ucast (swap32 (ucast (drop_bit 32 data)))"

definition swap16_ptr :: "u8 list \<Rightarrow> nat \<Rightarrow> u16 option" where
  "swap16_ptr mem p = do { d \<leftarrow> load mem p 2; Some (swap16 (of_bytes d)) }"

definition swap32_ptr :: "u8 list \<Rightarrow> nat \<Rightarrow> u32 option" where
  "swap32_ptr mem p = do { d \<leftarrow> load mem p 4; Some (swap32 (of_bytes d)) }"

definition swap64_ptr :: "u8 list \<Rightarrow> nat \<Rightarrow> u64 option" where
  "swap64_ptr mem p = do { d \<leftarrow> load mem p 8; Some (swap64 (of_bytes d)) }"

definition WriteSwap16 :: "u8 list \<Rightarrow> nat \<Rightarrow> u16 \<Rightarrow> u8 list option" where
  "WriteSwap16 mem p v = store mem p (bytes_of (swap16 v))"

definition WriteSwap32 :: "u8 list \<Rightarrow> nat \<Rightarrow> u32 \<Rightarrow> u8 list option" where
  "WriteSwap32 mem p v = store mem p (bytes_of (swap32 v))"

definition WriteSwap64 :: "u8 list \<Rightarrow> nat \<Rightarrow> u64 \<Rightarrow> u8 list option" where
  "WriteSwap64 mem p v = store mem p (bytes_of (swap64 v))"

text \<open>The specialisations \<^verbatim>\<open>swap<1>\<close>, \<^verbatim>\<open>swap<2>\<close>, \<^verbatim>\<open>swap<4>\<close>, \<^verbatim>\<open>swap<8>\<close>.\<close>

definition swap_count :: "nat \<Rightarrow> u8 list \<Rightarrow> nat \<Rightarrow> u8 list option" where
  "swap_count count mem p =
     (if count = 1 then Some mem
      else if count = 2 then do { v \<leftarrow> swap16_ptr mem p; store mem p (bytes_of v) }
      else if count = 4 then do { v \<leftarrow> swap32_ptr mem p; store mem p (bytes_of v) }
      else if count = 8 then do { v \<leftarrow> swap64_ptr mem p; store mem p (bytes_of v) }
      else None)"

definition FromBigEndian :: "'a::len word \<Rightarrow> 'a word option" where
  "FromBigEndian data = map_option of_bytes (swap_count (LENGTH('a) div 8) (bytes_of data) 0)"

text \<open>\<^verbatim>\<open>BigEndianValue\<close>: its assignment, and its conversion to the value.\<close>

definition BigEndianValue_set :: "'a::len word \<Rightarrow> 'a word option" where
  "BigEndianValue_set v = FromBigEndian v"

definition BigEndianValue_get :: "'a::len word \<Rightarrow> 'a word option" where
  "BigEndianValue_get raw = FromBigEndian raw"

section \<open>BitUtils.h: BitCastPtr\<close>

definition BitCastPtr_set :: "u8 list \<Rightarrow> nat \<Rightarrow> 'a::len word \<Rightarrow> u8 list option" where
  "BitCastPtr_set mem ptr source = store mem ptr (bytes_of source)"

definition BitCastPtr_get :: "u8 list \<Rightarrow> nat \<Rightarrow> 'a::len word option" where
  "BitCastPtr_get mem ptr = map_option of_bytes (load mem ptr (LENGTH('a) div 8))"

definition BitCastPtr_index :: "'a::len itself \<Rightarrow> nat \<Rightarrow> nat \<Rightarrow> nat" where
  "BitCastPtr_index T ptr index = ptr + index * (LENGTH('a) div 8)"

section \<open>Layout lemmas\<close>

lemma length_bytes_of [simp]: "length (bytes_of (w :: 'a::len word)) = LENGTH('a) div 8"
  by (simp add: bytes_of_def)

lemma bit_bytes_of:
  "i < LENGTH('a) div 8 \<Longrightarrow> bit (bytes_of (w :: 'a::len word) ! i) j \<longleftrightarrow> j < 8 \<and> bit w (8 * i + j)"
  by (auto simp: bytes_of_def bit_simps dest: bit_imp_le_length)

lemma bit_of_bytes:
  "bit (of_bytes bs :: 'a::len word) i \<longleftrightarrow>
     i < LENGTH('a) \<and> i div 8 < length bs \<and> bit (bs ! (i div 8)) (i mod 8)"
proof (induction bs arbitrary: i)
  case (Cons b bs)
  have ex: "bit (of_bytes (b # bs) :: 'a word) i \<longleftrightarrow>
      i < LENGTH('a) \<and> (bit b i \<or> 8 \<le> i \<and> bit (of_bytes bs :: 'a word) (i - 8))"
    by (auto simp: bit_simps dest: bit_imp_le_length)
  show ?case
  proof (cases "i < 8")
    case True
    then have "i div 8 = 0" "i mod 8 = i" by simp_all
    with True show ?thesis by (simp add: ex del: of_bytes.simps)
  next
    case False
    then have d: "i div 8 = Suc ((i - 8) div 8)" "i mod 8 = (i - 8) mod 8"
      by (simp_all add: le_div_geq le_mod_geq)
    have "\<not> bit b i" using False by (auto dest: bit_imp_le_length)
    with False show ?thesis unfolding ex d Cons.IH [of "i - 8"] by auto
  qed
qed simp

lemma of_bytes_of:
  assumes "8 dvd LENGTH('a)"
  shows "of_bytes (bytes_of w) = (w :: 'a::len word)"
proof (rule bit_word_eqI)
  fix i assume i: "i < LENGTH('a)"
  then have "i div 8 < LENGTH('a) div 8" using assms by (auto simp: dvd_def)
  with i show "bit (of_bytes (bytes_of w) :: 'a word) i = bit w i"
    by (simp add: bit_of_bytes bit_bytes_of)
qed

lemma bytes_of_bytes:
  assumes "8 * length bs = LENGTH('a)"
  shows "bytes_of (of_bytes bs :: 'a::len word) = bs"
proof (rule nth_equalityI)
  have l: "LENGTH('a) div 8 = length bs" using assms by (metis nonzero_mult_div_cancel_left zero_neq_numeral)
  show "length (bytes_of (of_bytes bs :: 'a word)) = length bs" by (simp add: l)
  fix i assume "i < length (bytes_of (of_bytes bs :: 'a word))"
  then have i: "i < length bs" by (simp add: l)
  show "bytes_of (of_bytes bs :: 'a word) ! i = bs ! i"
  proof (rule bit_word_eqI)
    fix j assume j: "j < LENGTH(8)"
    then have "8 * i + j < LENGTH('a)" "(8 * i + j) div 8 = i" "(8 * i + j) mod 8 = j"
      using i by (simp_all flip: assms)
    with i j show "bit (bytes_of (of_bytes bs :: 'a word) ! i) j = bit (bs ! i) j"
      by (simp add: bit_bytes_of bit_of_bytes l)
  qed
qed

text \<open>A swap reverses the bytes.\<close>

lemma upt_small: "[0..<2] = [0, 1::nat]" "[0..<4] = [0, 1, 2, 3::nat]"
  "[0..<8] = [0, 1, 2, 3, 4, 5, 6, 7::nat]"
  by (simp_all add: upt_rec)

lemma swap16_rev: "bytes_of (swap16 w) = rev (bytes_of w)"
  by (simp add: bytes_of_def upt_small) (intro conjI bit_word_eqI; auto simp: swap16_def bit_simps)

lemma swap32_rev: "bytes_of (swap32 w) = rev (bytes_of w)"
  by (simp add: bytes_of_def upt_small) (intro conjI bit_word_eqI; auto simp: swap32_def swap16_def bit_simps)

lemma swap64_rev: "bytes_of (swap64 w) = rev (bytes_of w)"
  by (simp add: bytes_of_def upt_small)
     (intro conjI bit_word_eqI; auto simp: swap64_def swap32_def swap16_def bit_simps)

lemma bytes_of_inject:
  assumes "8 dvd LENGTH('a)" "bytes_of v = bytes_of (w :: 'a::len word)"
  shows "v = w"
  using assms by (metis of_bytes_of)

lemma swap_involution: "swap16 (swap16 a) = a" "swap32 (swap32 b) = b" "swap64 (swap64 c) = c"
  by (auto intro!: bytes_of_inject simp: swap16_rev swap32_rev swap64_rev)

lemma swap_of_bytes:
  "length bs = 2 \<Longrightarrow> swap16 (of_bytes bs) = of_bytes (rev bs)"
  "length bs = 4 \<Longrightarrow> swap32 (of_bytes bs) = of_bytes (rev bs)"
  "length bs = 8 \<Longrightarrow> swap64 (of_bytes bs) = of_bytes (rev bs)"
  by (auto intro!: bytes_of_inject simp: swap16_rev swap32_rev swap64_rev bytes_of_bytes)

section \<open>The contract of an integer access to memory\<close>

locale memory_access =
  fixes rd :: "u8 list \<Rightarrow> nat \<Rightarrow> 'v option"
    and wr :: "u8 list \<Rightarrow> nat \<Rightarrow> 'v \<Rightarrow> u8 list option"
    and enc :: "'v \<Rightarrow> u8 list"
    and dec :: "u8 list \<Rightarrow> 'v"
    and n :: nat
  assumes rd_law: "rd mem p = map_option dec (load mem p n)"
    and wr_law: "wr mem p v = store mem p (enc v)"
    and dec_enc: "dec (enc v) = v"
    and enc_length: "length (enc v) = n"
begin

lemma read_fails_iff: "rd mem p = None \<longleftrightarrow> length mem < p + n"
  by (auto simp: rd_law load_def)

lemma write_fails_iff: "wr mem p v = None \<longleftrightarrow> length mem < p + n"
  by (auto simp: wr_law store_def enc_length)

lemma write_read:
  assumes "p + n \<le> length mem"
  shows "\<exists>mem'. wr mem p v = Some mem' \<and> length mem' = length mem \<and> rd mem' p = Some v \<and>
    (\<forall>i. i < p \<or> p + n \<le> i \<longrightarrow> i < length mem \<longrightarrow> mem' ! i = mem ! i)"
proof -
  let ?m = "take p mem @ enc v @ drop (p + n) mem"
  have "wr mem p v = Some ?m" using assms by (simp add: wr_law store_def enc_length)
  moreover have "min (length mem) p = p" using assms by simp
  then have "rd ?m p = Some v" using assms by (simp add: rd_law load_def enc_length dec_enc)
  moreover have "?m ! i = mem ! i" if "i < p \<or> p + n \<le> i" "i < length mem" for i
    using that assms by (auto simp: nth_append enc_length)
  ultimately show ?thesis using assms by (auto simp: enc_length)
qed

lemma read_other:
  assumes "wr mem p v = Some mem'" "q + n \<le> p \<or> p + n \<le> q"
  shows "rd mem' q = rd mem q"
proof -
  have m': "mem' = take p mem @ enc v @ drop (p + n) mem" and fit: "p + n \<le> length mem"
    using assms(1) by (auto simp: wr_law store_def enc_length split: if_splits)
  have "take n (drop q mem') = take n (drop q mem)"
  proof (cases "q + n \<le> p")
    case True
    with fit show ?thesis by (simp add: m' min_def take_drop)
  next
    case False
    with assms(2) have q: "p + n \<le> q" by simp
    then have "drop q mem' = drop (q - (p + n)) (drop (p + n) mem)"
      using fit by (simp add: m' enc_length min_def)
    with q show ?thesis by simp
  qed
  moreover have "length mem' = length mem" using fit by (simp add: m' enc_length)
  ultimately show ?thesis by (simp add: rd_law load_def)
qed

end

interpretation be16: memory_access swap16_ptr WriteSwap16 "\<lambda>v. bytes_of (swap16 v)"
    "\<lambda>bs. swap16 (of_bytes bs)" 2
  by unfold_locales (simp_all add: swap16_ptr_def WriteSwap16_def of_bytes_of swap_involution
      map_option_case split: option.split)

interpretation be32: memory_access swap32_ptr WriteSwap32 "\<lambda>v. bytes_of (swap32 v)"
    "\<lambda>bs. swap32 (of_bytes bs)" 4
  by unfold_locales (simp_all add: swap32_ptr_def WriteSwap32_def of_bytes_of swap_involution
      map_option_case split: option.split)

interpretation be64: memory_access swap64_ptr WriteSwap64 "\<lambda>v. bytes_of (swap64 v)"
    "\<lambda>bs. swap64 (of_bytes bs)" 8
  by unfold_locales (simp_all add: swap64_ptr_def WriteSwap64_def of_bytes_of swap_involution
      map_option_case split: option.split)

interpretation host32: memory_access "BitCastPtr_get :: u8 list \<Rightarrow> nat \<Rightarrow> u32 option" BitCastPtr_set
    bytes_of of_bytes 4
  by unfold_locales (simp_all add: BitCastPtr_get_def BitCastPtr_set_def of_bytes_of)

text \<open>The value \<^verbatim>\<open>swap<n>\<close> leaves in memory.\<close>

lemma FromBigEndian_eq:
  "FromBigEndian (a :: u16) = Some (swap16 a)" "FromBigEndian (b :: u32) = Some (swap32 b)"
  "FromBigEndian (c :: u64) = Some (swap64 c)"
  by (simp_all add: FromBigEndian_def swap_count_def swap16_ptr_def swap32_ptr_def swap64_ptr_def
      load_def store_def of_bytes_of)

text \<open>The big-endian value of a list of bytes, the reference the accessors are compared with.\<close>

definition big_endian :: "u8 list \<Rightarrow> nat" where
  "big_endian bs = foldl (\<lambda>acc b. 256 * acc + unat b) 0 bs"

lemma of_bytes_Cons_add: "(of_bytes (b # bs) :: 'a::len word) = ucast b + push_bit 8 (of_bytes bs)"
  unfolding of_bytes.simps
  by (rule disjunctive_add [symmetric]) (auto simp: bit_simps dest: bit_imp_le_length)

lemma of_bytes_nat: "(of_bytes bs :: 'a::len word) = word_of_nat (big_endian (rev bs))"
proof (induction bs)
  case (Cons b bs)
  have "(ucast b :: 'a word) = word_of_nat (unat b)" by simp
  with Cons show ?case
    by (simp only: of_bytes_Cons_add) (simp add: big_endian_def push_bit_eq_mult)
qed (simp add: big_endian_def)

lemma big_endian_less: "big_endian bs < 256 ^ length bs"
proof (induction bs rule: rev_induct)
  case (snoc b bs)
  have "unat b < 256" using unat_less [of b] by simp
  with snoc show ?case by (simp add: big_endian_def)
qed (simp add: big_endian_def)

lemma swap_big_endian:
  "length bs = 2 \<Longrightarrow> unat (swap16 (of_bytes bs)) = big_endian bs"
  "length bs = 4 \<Longrightarrow> unat (swap32 (of_bytes bs)) = big_endian bs"
  "length bs = 8 \<Longrightarrow> unat (swap64 (of_bytes bs)) = big_endian bs"
  using big_endian_less [of bs]
  by (simp_all add: swap_of_bytes of_bytes_nat [of "rev bs"] unat_word_of_nat_less)

lemma swap_ptr_value:
  "p + 2 \<le> length mem \<Longrightarrow> map_option unat (swap16_ptr mem p) = Some (big_endian (take 2 (drop p mem)))"
  "p + 4 \<le> length mem \<Longrightarrow> map_option unat (swap32_ptr mem p) = Some (big_endian (take 4 (drop p mem)))"
  "p + 8 \<le> length mem \<Longrightarrow> map_option unat (swap64_ptr mem p) = Some (big_endian (take 8 (drop p mem)))"
  by (simp_all add: swap16_ptr_def swap32_ptr_def swap64_ptr_def load_def swap_big_endian)

section \<open>Properties\<close>

text \<open>
  The generic \<^verbatim>\<open>swap16\<close>, \<^verbatim>\<open>swap32\<close> and \<^verbatim>\<open>swap64\<close> reverse the bytes of their
  argument, each is its own inverse, and \<^verbatim>\<open>FromBigEndian\<close> and a \<^verbatim>\<open>BigEndianValue\<close>
  round trip through them.
\<close>

theorem byte_swap_reverses:
  "bytes_of (swap16 a) = rev (bytes_of a) \<and> swap16 (swap16 a) = a \<and>
   bytes_of (swap32 b) = rev (bytes_of b) \<and> swap32 (swap32 b) = b \<and>
   bytes_of (swap64 c) = rev (bytes_of c) \<and> swap64 (swap64 c) = c \<and>
   BigEndianValue_set a \<bind> BigEndianValue_get = Some a \<and>
   BigEndianValue_set b \<bind> BigEndianValue_get = Some b \<and>
   BigEndianValue_set c \<bind> BigEndianValue_get = Some c"
  by (simp add: swap16_rev swap32_rev swap64_rev swap_involution BigEndianValue_set_def
      BigEndianValue_get_def FromBigEndian_eq)

text \<open>
  The pointer variants read big-endian values: on a pointer with enough bytes behind it
  \<^verbatim>\<open>swap16\<close>, \<^verbatim>\<open>swap32\<close> and \<^verbatim>\<open>swap64\<close> return the base-256 value of the bytes,
  most significant first.
\<close>

theorem byte_swap_reads_big_endian:
  assumes "p + 8 \<le> length mem"
  shows "map_option unat (swap16_ptr mem p) = Some (big_endian (take 2 (drop p mem))) \<and>
    map_option unat (swap32_ptr mem p) = Some (big_endian (take 4 (drop p mem))) \<and>
    map_option unat (swap64_ptr mem p) = Some (big_endian (take 8 (drop p mem)))"
  using assms swap_ptr_value [of p mem] by simp

theorem byte_swap_reads_big_endian_witness:
  "map_option unat (swap16_ptr [1, 2, 3, 4, 5, 6, 7, 8, 9] 1) =
      Some (big_endian (take 2 (drop 1 [1, 2, 3, 4, 5, 6, 7, 8, 9]))) \<and>
    map_option unat (swap32_ptr [1, 2, 3, 4, 5, 6, 7, 8, 9] 1) =
      Some (big_endian (take 4 (drop 1 [1, 2, 3, 4, 5, 6, 7, 8, 9]))) \<and>
    map_option unat (swap64_ptr [1, 2, 3, 4, 5, 6, 7, 8, 9] 1) =
      Some (big_endian (take 8 (drop 1 [1, 2, 3, 4, 5, 6, 7, 8, 9])))"
  by (rule byte_swap_reads_big_endian) simp

text \<open>
  \<^verbatim>\<open>WriteSwap32\<close> into the memory is read back by \<^verbatim>\<open>swap32\<close>, keeps the memory's
  length and every byte outside the four, and does not change any other word.
\<close>

theorem write_swap_local:
  assumes "p + 4 \<le> length mem"
  shows "\<exists>mem'. WriteSwap32 mem p v = Some mem' \<and> length mem' = length mem \<and>
    swap32_ptr mem' p = Some v \<and>
    (\<forall>i. i < p \<or> p + 4 \<le> i \<longrightarrow> i < length mem \<longrightarrow> mem' ! i = mem ! i) \<and>
    (\<forall>q. q + 4 \<le> p \<or> p + 4 \<le> q \<longrightarrow> swap32_ptr mem' q = swap32_ptr mem q)"
  using be32.write_read [OF assms, of v] be32.read_other by blast

theorem write_swap_local_witness:
  "\<exists>mem'. WriteSwap32 [1, 2, 3, 4, 5, 6] 1 0x11223344 = Some mem' \<and> length mem' = 6 \<and>
    swap32_ptr mem' 1 = Some 0x11223344 \<and> mem' ! 0 = 1 \<and> mem' ! 5 = 6"
proof -
  have "1 + 4 \<le> length [1, 2, 3, 4, 5, 6 :: u8]" by simp
  from write_swap_local [OF this, of "0x11223344"] show ?thesis by fastforce
qed

end
