(* ===== verification/Bit_Field.thy ===== *)
theory Bit_Field
  imports Prelude
begin

text \<open>
  \<^verbatim>\<open>Common/BitUtils.h\<close> and \<^verbatim>\<open>Common/BitField.h\<close>: bit extraction and the register
  bit fields every hardware register of the emulator is declared with. A field is given by the
  template arguments \<^verbatim>\<open>position\<close> and \<^verbatim>\<open>bits\<close>; the storage is a word of the width of
  the storage type. Where a C++ operand narrower than \<^verbatim>\<open>int\<close> is promoted before a shift,
  the model computes the promoted value on \<open>int\<close>.

  The theorems show that a field assignment is read back, that it leaves every bit outside
  the field alone, and that the signed and unsigned reads are the two's complement and the
  plain value of the bits.
\<close>

section \<open>BitUtils.h\<close>

definition BitSize :: "'a::len word \<Rightarrow> nat" where
  "BitSize w = LENGTH('a)"

definition ExtractBit :: "'a::len word \<Rightarrow> nat \<Rightarrow> 'a word" where
  "ExtractBit src b = (drop_bit b src) AND 1"

text \<open>
  The left shift happens in the promoted type: a type narrower than \<^verbatim>\<open>int\<close> loses no bits
  in it, a type of at least 32 bits drops the bits shifted out.
\<close>

definition ExtractBits :: "'a::len word \<Rightarrow> nat \<Rightarrow> nat \<Rightarrow> 'a word" where
  "ExtractBits src begin end' =
     (let n = BitSize src;
          shifted = uint src * 2 ^ (n - 1 - end');
          promoted = (if n < 32 then shifted else take_bit n shifted)
      in word_of_int (promoted div 2 ^ (n - end' + begin - 1)))"

definition IsValidLowMask :: "'a::len word \<Rightarrow> bool" where
  "IsValidLowMask m \<longleftrightarrow> m AND (m + 1) = 0"

definition SetBit :: "'a::len word \<Rightarrow> nat \<Rightarrow> bool \<Rightarrow> 'a word" where
  "SetBit v bit_number bit_value =
     (if bit_value then v OR push_bit bit_number 1 else v AND NOT (push_bit bit_number 1))"

definition FlagBit_get :: "'a::len word \<Rightarrow> 'a word \<Rightarrow> bool" where
  "FlagBit_get bits b \<longleftrightarrow> bits AND b \<noteq> 0"

definition FlagBit_set :: "'a::len word \<Rightarrow> 'a word \<Rightarrow> bool \<Rightarrow> 'a word" where
  "FlagBit_set bits b rhs = (if rhs then bits OR b else bits AND NOT b)"

definition Flags :: "'a::len word list \<Rightarrow> 'a word" where
  "Flags bits = fold (\<lambda>b m_hex. m_hex OR b) bits 0"

definition ExpandValue :: "'a::len word \<Rightarrow> nat \<Rightarrow> 'a word" where
  "ExpandValue v left_shift_amount =
     push_bit left_shift_amount v OR
     drop_bit (BitSize v - left_shift_amount) (- ExtractBit v 0)"

section \<open>BitField.h\<close>

definition GetMask :: "nat \<Rightarrow> nat \<Rightarrow> 'a::len word" where
  "GetMask position bits = push_bit position (drop_bit (LENGTH('a) - bits) (- 1))"

definition field_get :: "nat \<Rightarrow> nat \<Rightarrow> 'a::len word \<Rightarrow> 'a word" where
  "field_get position bits storage = drop_bit position (storage AND GetMask position bits)"

definition field_set :: "nat \<Rightarrow> nat \<Rightarrow> 'a::len word \<Rightarrow> 'a word \<Rightarrow> 'a word" where
  "field_set position bits val storage =
     (storage AND NOT (GetMask position bits)) OR (push_bit position val AND GetMask position bits)"

text \<open>
  \<^verbatim>\<open>Value(std::true_type)\<close>: the storage has a signed type; its shifts happen in the
  promoted type, the right one arithmetically, and the result is cast to the field type.
\<close>

definition field_get_signed :: "nat \<Rightarrow> nat \<Rightarrow> 'a::len word \<Rightarrow> 'a word" where
  "field_get_signed position bits storage =
     (let n = LENGTH('a);
          shift_amount = n - bits;
          shifted = sint storage * 2 ^ (shift_amount - position);
          promoted = (if n < 32 then shifted else signed_take_bit (n - 1) shifted)
      in word_of_int (promoted div 2 ^ shift_amount))"

definition GetElementMask :: "nat \<Rightarrow> nat \<Rightarrow> nat \<Rightarrow> 'a::len word" where
  "GetElementMask position bits index =
     (let pos = position + bits * index
      in push_bit pos (drop_bit (LENGTH('a) - bits) (- 1)))"

definition array_get :: "nat \<Rightarrow> nat \<Rightarrow> nat \<Rightarrow> 'a::len word \<Rightarrow> 'a word" where
  "array_get position bits index storage =
     (let pos = position + bits * index
      in drop_bit pos (storage AND GetElementMask position bits index))"

definition array_set :: "nat \<Rightarrow> nat \<Rightarrow> nat \<Rightarrow> 'a::len word \<Rightarrow> 'a word \<Rightarrow> 'a word" where
  "array_set position bits index val storage =
     (let pos = position + bits * index
      in (storage AND NOT (GetElementMask position bits index)) OR
         (push_bit pos val AND GetElementMask position bits index))"

text \<open>
  The range-based loop over a \<^verbatim>\<open>BitFieldArray\<close>: the iterator is its index, incremented
  from \<^verbatim>\<open>begin()\<close>, which is 0, until it equals \<^verbatim>\<open>end()\<close>, which is \<^verbatim>\<open>size\<close>.
\<close>

function array_iterate :: "nat \<Rightarrow> nat \<Rightarrow> nat \<Rightarrow> 'a::len word \<Rightarrow> nat \<Rightarrow> 'a word list" where
  "array_iterate position bits sz storage index =
     (if index \<ge> sz then []
      else array_get position bits index storage #
           array_iterate position bits sz storage (index + 1))"
  by pat_completeness auto
termination by (relation "measure (\<lambda>(p, b, n, s, i). n - i)") auto

declare array_iterate.simps [simp del]

section \<open>Bits of the operations\<close>

lemma bit_GetMask [bit_simps]:
  assumes "p + b \<le> LENGTH('a)"
  shows "bit (GetMask p b :: 'a::len word) i \<longleftrightarrow> p \<le> i \<and> i < p + b"
  using assms by (auto simp: GetMask_def bit_simps)

lemma bit_field_get:
  assumes "p + b \<le> LENGTH('a)"
  shows "bit (field_get p b (s :: 'a::len word)) i \<longleftrightarrow> i < b \<and> bit s (p + i)"
  using assms by (auto simp: field_get_def bit_simps)

lemma bit_field_set:
  assumes "p + b \<le> LENGTH('a)"
  shows "bit (field_set p b v (s :: 'a::len word)) i \<longleftrightarrow>
    (if p \<le> i \<and> i < p + b then bit v (i - p) else bit s i)"
  using assms by (cases "i < LENGTH('a)") (auto simp: field_set_def bit_simps dest: bit_imp_le_length)

lemma field_get_eq:
  assumes "p + b \<le> LENGTH('a)"
  shows "field_get p b (s :: 'a::len word) = take_bit b (drop_bit p s)"
  by (rule bit_word_eqI) (use assms in \<open>auto simp: bit_field_get bit_simps\<close>)

lemma array_get_eq: "array_get p b i s = field_get (p + b * i) b s"
  by (simp add: array_get_def field_get_def GetElementMask_def GetMask_def Let_def)

lemma array_set_eq: "array_set p b i v s = field_set (p + b * i) b v s"
  by (simp add: array_set_def field_set_def GetElementMask_def GetMask_def Let_def)

lemma array_iterate_eq:
  "array_iterate p b n s i = map (\<lambda>j. array_get p b j s) [i..<n]"
proof (induction "n - i" arbitrary: i)
  case 0
  then show ?case by (subst array_iterate.simps) simp
next
  case (Suc d)
  then have "i < n" "d = n - (i + 1)" by auto
  with Suc.hyps(1) [of "i + 1"] show ?case
    by (subst array_iterate.simps) (simp add: upt_conv_Cons)
qed

section \<open>The contract of a field\<close>

text \<open>
  What the register definitions rely on: a field of a storage, its width, and an assignment
  that is read back and that is local. The client lemmas are about whole sequences of
  assignments.
\<close>

locale register_field =
  fixes get :: "'a::len word \<Rightarrow> 'a word"
    and set :: "'a word \<Rightarrow> 'a word \<Rightarrow> 'a word"
    and width :: nat
    and inside :: "nat \<Rightarrow> bool"
  assumes get_set: "get (set v s) = take_bit width v"
    and set_get: "set (get s) s = s"
    and set_set: "set v (set u s) = set v s"
    and outside: "\<not> inside i \<Longrightarrow> bit (set v s) i = bit s i"
begin

lemma get_bound: "take_bit width (get s) = get s"
  by (metis get_set set_get)

lemma set_idem: "set v (set v s) = set v s"
  by (rule set_set)

lemma set_eq_iff: "set v s = set u s \<longleftrightarrow> take_bit width v = take_bit width u"
  by (metis get_set set_get set_set)

lemma last_write_wins: "get (fold set vs s) = (if vs = [] then get s else take_bit width (last vs))"
proof (induction vs rule: rev_induct)
  case (snoc v vs)
  then show ?case by (simp add: get_set)
qed simp

lemma fold_outside: "\<not> inside i \<Longrightarrow> bit (fold set vs s) i = bit s i"
  by (induction vs arbitrary: s) (simp_all add: outside)

end

lemma field_is_register_field:
  assumes "p + b \<le> LENGTH('a::len)"
  shows "register_field (field_get p b :: 'a word \<Rightarrow> _) (field_set p b) b (\<lambda>i. p \<le> i \<and> i < p + b)"
proof
  show "field_get p b (field_set p b v s) = take_bit b v" for v s :: "'a word"
    by (rule bit_word_eqI) (use assms in \<open>auto simp: bit_field_get bit_field_set bit_simps\<close>)
  show "field_set p b (field_get p b s) s = s" for s :: "'a word"
    by (rule bit_word_eqI) (use assms in \<open>auto simp: bit_field_get bit_field_set bit_simps\<close>)
  show "field_set p b v (field_set p b u s) = field_set p b v s" for u v s :: "'a word"
    by (rule bit_word_eqI) (use assms in \<open>auto simp: bit_field_set\<close>)
  show "bit (field_set p b v s) i = bit s i" if "\<not> (p \<le> i \<and> i < p + b)" for i and v s :: "'a word"
    using that assms by (auto simp: bit_field_set)
qed

lemmas field_laws = register_field.get_set [OF field_is_register_field]
  register_field.set_get [OF field_is_register_field]
  register_field.set_set [OF field_is_register_field]

text \<open>Two fields that do not share a bit do not disturb each other.\<close>

lemma field_get_set_other:
  assumes "p + b \<le> LENGTH('a::len)" "q + c \<le> LENGTH('a)" "p + b \<le> q \<or> q + c \<le> p"
  shows "field_get p b (field_set q c v (s :: 'a word)) = field_get p b s"
  by (rule bit_word_eqI) (use assms in \<open>auto simp: bit_field_get bit_field_set\<close>)

lemma field_set_commute:
  assumes "p + b \<le> LENGTH('a::len)" "q + c \<le> LENGTH('a)" "p + b \<le> q \<or> q + c \<le> p"
  shows "field_set p b u (field_set q c v (s :: 'a word)) = field_set q c v (field_set p b u s)"
  by (rule bit_word_eqI) (use assms in \<open>auto simp: bit_field_set\<close>)

section \<open>Extraction, masks and signs\<close>

lemma ExtractBit_eq: "ExtractBit s b = (if bit s b then 1 else 0)"
  by (rule bit_word_eqI) (auto simp: ExtractBit_def bit_simps intro: gr0I)

lemma ExtractBits_wide:
  assumes "32 \<le> LENGTH('a)" "b \<le> e" "e < LENGTH('a)"
  shows "ExtractBits (s :: 'a::len word) b e = take_bit (e + 1 - b) (drop_bit b s)"
proof (rule bit_word_eqI)
  fix i assume i: "i < LENGTH('a)"
  have idx: "LENGTH('a) - e + b - 1 + i = LENGTH('a) - 1 - e + (b + i)" using assms by simp
  show "bit (ExtractBits s b e) i = bit (take_bit (e + 1 - b) (drop_bit b s)) i"
    using assms i
    by (auto simp: ExtractBits_def BitSize_def Let_def bit_simps simp flip: push_bit_eq_mult drop_bit_eq_div)
qed

lemma ExtractBits_narrow:
  assumes "LENGTH('a) < 32" "b \<le> e" "e < LENGTH('a)"
  shows "ExtractBits (s :: 'a::len word) b e = drop_bit b s"
proof (rule bit_word_eqI)
  fix i assume i: "i < LENGTH('a)"
  show "bit (ExtractBits s b e) i = bit (drop_bit b s) i"
    using assms i
    by (auto simp: ExtractBits_def BitSize_def Let_def bit_simps simp flip: push_bit_eq_mult drop_bit_eq_div)
qed

lemma field_get_signed_wide:
  assumes "32 \<le> LENGTH('a)" "0 < b" "p + b \<le> LENGTH('a)"
  shows "sint (field_get_signed p b (s :: 'a::len word)) = signed_take_bit (b - 1) (uint (field_get p b s))"
proof -
  have top: "LENGTH('a) - Suc 0 \<le> p + b - Suc 0 \<Longrightarrow> p + b = LENGTH('a)" using assms by linarith
  have "field_get_signed p b s = word_of_int (signed_take_bit (b - 1) (uint (field_get p b s)))"
  proof (rule bit_word_eqI)
    fix i assume i: "i < LENGTH('a)"
    show "bit (field_get_signed p b s) i = bit (word_of_int (signed_take_bit (b - 1) (uint (field_get p b s))) :: 'a word) i"
      using assms i top
      by (auto simp: field_get_signed_def Let_def bit_simps bit_field_get min_def add.commute [of b p]
          add.commute [of i p] simp flip: push_bit_eq_mult drop_bit_eq_div)
  qed
  moreover have "min (LENGTH('a) - Suc 0) (b - Suc 0) = b - Suc 0" using assms by linarith
  ultimately show ?thesis by (simp add: signed_of_int)
qed

lemma nat_low_mask: "(m::nat) AND (m + 1) = 0 \<Longrightarrow> \<exists>k. m = 2 ^ k - 1"
proof (induction m rule: less_induct)
  case (less m)
  show ?case
  proof (cases "even m")
    case True
    then obtain q where "m = 2 * q" by blast
    with less.prems have "m = 0" by (simp add: and_nat_rec [of "2 * q"])
    then show ?thesis by (intro exI [of _ 0]) simp
  next
    case False
    then obtain q where m: "m = 2 * q + 1" using oddE by blast
    with less.prems have "q AND (q + 1) = 0" by (simp add: and_nat_rec [of "Suc _"])
    with less.IH [of q] m obtain k where "q = 2 ^ k - 1" by auto
    moreover have "(1::nat) \<le> 2 ^ k" by simp
    ultimately have "m = 2 ^ Suc k - 1" using m by (simp only: power_Suc)
    then show ?thesis by blast
  qed
qed

lemma IsValidLowMask_iff:
  "IsValidLowMask (m :: 'a::len word) \<longleftrightarrow> (\<exists>k. m = mask k)"
proof
  assume v: "IsValidLowMask m"
  show "\<exists>k. m = mask k"
  proof (cases "m = - 1")
    case True
    then show ?thesis by (intro exI [of _ "LENGTH('a)"]) (simp add: mask_eq_exp_minus_1)
  next
    case False
    then have "1 + m \<noteq> 0" by (metis add_eq_0_iff minus_minus)
    then have "unat (m + 1) = unat m + 1" using unatSuc [of m] by (simp add: add.commute)
    then have "unat m AND (unat m + 1) = 0"
      using v by (metis IsValidLowMask_def unsigned_and_eq unsigned_0)
    then obtain k where "unat m = 2 ^ k - 1" using nat_low_mask by blast
    then have "(word_of_nat (unat m) :: 'a word) = word_of_nat (2 ^ k - 1)" by (rule arg_cong)
    then have "m = mask k" by (simp add: mask_eq_exp_minus_1)
    then show ?thesis ..
  qed
next
  assume "\<exists>k. m = mask k"
  then obtain k where "m = mask k" ..
  moreover have "mask k AND (2 ^ k :: 'a word) = 0" by (rule bit_word_eqI) (auto simp: bit_simps)
  ultimately show "IsValidLowMask m" by (simp add: IsValidLowMask_def mask_eq_exp_minus_1)
qed

lemma SetBit_bit:
  "n < LENGTH('a) \<Longrightarrow> bit (SetBit (v :: 'a::len word) n x) i \<longleftrightarrow> (if i = n then x else bit v i)"
  by (auto simp: SetBit_def bit_simps dest: bit_imp_le_length)

lemma Flags_bit: "bit (Flags bits) i \<longleftrightarrow> (\<exists>b\<in>set bits. bit b i)"
proof -
  have "bit (fold (\<lambda>b m_hex. m_hex OR b) bits m) i \<longleftrightarrow> bit m i \<or> (\<exists>b\<in>set bits. bit b i)" for m
    by (induction bits arbitrary: m) (auto simp: bit_simps)
  then show ?thesis by (simp add: Flags_def)
qed

lemma FlagBit_laws:
  "b \<noteq> 0 \<Longrightarrow> FlagBit_get (FlagBit_set bits b x) b = x"
  "b AND c = 0 \<Longrightarrow> FlagBit_get (FlagBit_set bits b x) c = FlagBit_get bits c"
proof -
  have "(bits AND NOT b) AND b = 0" "(bits OR b) AND b = b"
    by (rule bit_word_eqI; auto simp: bit_simps)+
  then show "b \<noteq> 0 \<Longrightarrow> FlagBit_get (FlagBit_set bits b x) b = x"
    by (cases x) (simp_all add: FlagBit_get_def FlagBit_set_def)
  assume bc: "b AND c = 0"
  then have nb: "bit c i \<Longrightarrow> \<not> bit b i" for i
    by (metis bit_and_iff bit_0_eq bot_apply bot_bool_def)
  have "(bits AND NOT b) AND c = bits AND c" "(bits OR b) AND c = bits AND c"
    by (rule bit_word_eqI; use nb in \<open>auto simp: bit_simps\<close>)+
  then show "FlagBit_get (FlagBit_set bits b x) c = FlagBit_get bits c"
    by (simp add: FlagBit_get_def FlagBit_set_def)
qed

lemma ExpandValue_bit:
  assumes "k \<le> LENGTH('a)" "i < LENGTH('a)"
  shows "bit (ExpandValue (v :: 'a::len word) k) i \<longleftrightarrow> (if i < k then bit v 0 else bit v (i - k))"
  using assms by (cases "bit v 0") (auto simp: ExpandValue_def ExtractBit_eq BitSize_def bit_simps)

section \<open>Properties\<close>

text \<open>
  A bit field that fits its storage: a sequence of assignments leaves the field with the
  last assigned value cut to the field's width, and leaves every bit outside the field as it
  was; assigning a field's own value changes nothing.
\<close>

theorem bit_field_assign:
  assumes "p + b \<le> LENGTH('a::len)"
  shows "field_get p b (fold (field_set p b) vs (s :: 'a word)) =
      (if vs = [] then field_get p b s else take_bit b (last vs)) \<and>
    (\<forall>i. i < p \<or> p + b \<le> i \<longrightarrow> bit (fold (field_set p b) vs s) i = bit s i) \<and>
    field_set p b (field_get p b s) s = s"
  using register_field.last_write_wins [OF field_is_register_field [OF assms]]
    register_field.fold_outside [OF field_is_register_field [OF assms]] field_laws(2) [OF assms]
  by auto

theorem bit_field_assign_witness:
  "field_get 4 8 (fold (field_set 4 8) [0x1FF, 0x2A5] (0xFFFFFFFF :: u32)) = take_bit 8 0x2A5 \<and>
    bit (fold (field_set 4 8) [0x1FF, 0x2A5] (0xFFFFFFFF :: u32)) 12 = bit (0xFFFFFFFF :: u32) 12 \<and>
    field_set 4 8 (field_get 4 8 0xFFFFFFFF) (0xFFFFFFFF :: u32) = 0xFFFFFFFF"
proof -
  have "4 + 8 \<le> LENGTH(32)" by simp
  from bit_field_assign [OF this, of "[0x1FF, 0x2A5]" "0xFFFFFFFF"] show ?thesis by (simp del: fold_simps)
qed

text \<open>
  A bit field array whose elements fit its storage: element \<open>j\<close> reads back what was
  assigned to it, the other elements keep their value, and the range-based loop visits
  the elements in order.
\<close>

theorem bit_field_array_assign:
  assumes "b * n + p \<le> LENGTH('a::len)" "i < n" "j < n"
  shows "array_get p b j (array_set p b i v (s :: 'a word)) =
      (if j = i then take_bit b v else array_get p b j s) \<and>
    array_iterate p b n (array_set p b i v s) 0 =
      (map (\<lambda>k. array_get p b k s) [0..<n])[i := take_bit b v]"
proof -
  have fit: "p + b * k + b \<le> LENGTH('a)" if "k < n" for k
  proof -
    have "b * (k + 1) \<le> b * n" using that by (intro mult_le_mono2) simp
    with assms(1) show ?thesis by simp
  qed
  have apart: "p + b * k + b \<le> p + b * i \<or> p + b * i + b \<le> p + b * k" if "k \<noteq> i" for k
  proof -
    have "k + 1 \<le> i \<or> i + 1 \<le> k" using that by linarith
    then have "b * (k + 1) \<le> b * i \<or> b * (i + 1) \<le> b * k" using mult_le_mono2 by blast
    then show ?thesis by (simp add: add.commute)
  qed
  have get: "array_get p b k (array_set p b i v s) = (if k = i then take_bit b v else array_get p b k s)"
    if "k < n" for k
    using that assms(2) fit apart
    by (auto simp: array_get_eq array_set_eq field_laws(1) field_get_set_other)
  have "array_iterate p b n (array_set p b i v s) 0 =
      (map (\<lambda>k. array_get p b k s) [0..<n])[i := take_bit b v]"
    by (rule nth_equalityI) (auto simp: array_iterate_eq get nth_list_update)
  with get [OF assms(3)] show ?thesis by blast
qed

theorem bit_field_array_assign_witness:
  "array_get 2 3 1 (array_set 2 3 4 0xD (0x12345678 :: u32)) =
      (if 1 = (4::nat) then take_bit 3 0xD else array_get 2 3 1 0x12345678) \<and>
    array_iterate 2 3 10 (array_set 2 3 4 0xD (0x12345678 :: u32)) 0 =
      (map (\<lambda>k. array_get 2 3 k 0x12345678) [0..<10])[4 := take_bit 3 0xD]"
  by (rule bit_field_array_assign) simp_all

text \<open>
  A signed bit field of a storage of at least 32 bits reads as the two's complement
  value of its bits.
\<close>

theorem bit_field_signed:
  assumes "32 \<le> LENGTH('a)" "0 < b" "p + b \<le> LENGTH('a)"
  shows "sint (field_get_signed p b (s :: 'a::len word)) =
    signed_take_bit (b - 1) (uint (field_get p b s))"
  using assms by (rule field_get_signed_wide)

theorem bit_field_signed_witness:
  "sint (field_get_signed 11 11 (0x3FF800 :: u32)) =
    signed_take_bit (11 - 1) (uint (field_get 11 11 (0x3FF800 :: u32)))"
  by (rule bit_field_signed) simp_all

text \<open>
  \<^verbatim>\<open>ExtractBits\<close> returns the bits from \<^verbatim>\<open>begin\<close> to \<^verbatim>\<open>end\<close> for a type of at
  least 32 bits. For a narrower type the left shift is done after promotion to \<^verbatim>\<open>int\<close>
  and drops nothing, so the bits above \<^verbatim>\<open>end\<close> stay in the result.
\<close>

theorem extract_bits_range:
  assumes "b \<le> e" "e < LENGTH('a)"
  shows "ExtractBits (s :: 'a::len word) b e =
    (if 32 \<le> LENGTH('a) then take_bit (e + 1 - b) (drop_bit b s) else drop_bit b s)"
  using ExtractBits_wide [of b e s] ExtractBits_narrow [of b e s] assms by (simp add: not_le)

theorem extract_bits_range_witness:
  "ExtractBits (0xCC :: u32) 2 3 =
    (if 32 \<le> LENGTH(32) then take_bit (3 + 1 - 2) (drop_bit 2 0xCC) else drop_bit 2 0xCC) \<and>
   ExtractBits (0xCC :: u16) 2 3 =
    (if 32 \<le> LENGTH(16) then take_bit (3 + 1 - 2) (drop_bit 2 0xCC) else drop_bit 2 0xCC) \<and>
   ExtractBits (0xCC :: u32) 2 3 = 3 \<and> ExtractBits (0xCC :: u16) 2 3 = 51"
  using extract_bits_range [of 2 3 "0xCC :: u32"] extract_bits_range [of 2 3 "0xCC :: u16"]
  by (simp add: take_bit_eq_mod drop_bit_eq_div)

text \<open>
  \<^verbatim>\<open>IsValidLowMask\<close> accepts exactly the masks of the form \<^verbatim>\<open>0...01...1\<close>,
  all zeros and all ones included.
\<close>

theorem low_mask_valid: "IsValidLowMask (m :: 'a::len word) \<longleftrightarrow> (\<exists>k. m = mask k)"
  by (rule IsValidLowMask_iff)

end
