(* ===== verification/CP_Memory.thy ===== *)
theory CP_Memory
  imports Bit_Field
begin

text \<open>
  \<^verbatim>\<open>VideoCommon/CPMemory.h\<close> and \<^verbatim>\<open>CPMemory.cpp\<close>: the registers of the command
  processor that describe vertices. An \<^verbatim>\<open>enum class\<close> is a datatype with the source's
  values (an out-of-range bit pattern included where the field is wider than the
  enumeration), a register \<^verbatim>\<open>union\<close> is its 32-bit \<^verbatim>\<open>Hex\<close> word and the list of its
  bit fields, each field the pair of its position and its width. The state of the command
  processor is the record \<open>cp_state\<close>, its operations are \<^verbatim>\<open>LoadCPReg\<close>, the
  constructor from a memory image and \<^verbatim>\<open>FillCPMemoryArray\<close>.

  The theorems show that the fields of each attribute group tile the word, that the indexed
  setters and getters of \<^verbatim>\<open>VAT\<close> are independent cells, that \<^verbatim>\<open>LoadCPReg\<close> keeps the
  state in its format, and that the memory image round trips.
\<close>

section \<open>Enumerations\<close>

text \<open>The anonymous enumeration of command numbers.\<close>

definition UNKNOWN_00 :: nat where [field_defs]: "UNKNOWN_00 = 0x0"
definition UNKNOWN_10 :: nat where [field_defs]: "UNKNOWN_10 = 0x10"
definition UNKNOWN_20 :: nat where [field_defs]: "UNKNOWN_20 = 0x20"
definition MATINDEX_A :: nat where [field_defs]: "MATINDEX_A = 0x30"
definition MATINDEX_B :: nat where [field_defs]: "MATINDEX_B = 0x40"
definition VCD_LO :: nat where [field_defs]: "VCD_LO = 0x50"
definition VCD_HI :: nat where [field_defs]: "VCD_HI = 0x60"
definition CP_VAT_REG_A :: nat where [field_defs]: "CP_VAT_REG_A = 0x70"
definition CP_VAT_REG_B :: nat where [field_defs]: "CP_VAT_REG_B = 0x80"
definition CP_VAT_REG_C :: nat where [field_defs]: "CP_VAT_REG_C = 0x90"
definition ARRAY_BASE :: nat where [field_defs]: "ARRAY_BASE = 0xA0"
definition ARRAY_STRIDE :: nat where [field_defs]: "ARRAY_STRIDE = 0xB0"
definition CP_COMMAND_MASK :: nat where [field_defs]: "CP_COMMAND_MASK = 0xF0"
definition CP_NUM_VAT_REG :: nat where [field_defs]: "CP_NUM_VAT_REG = 0x8"
definition CP_VAT_MASK :: nat where [field_defs]: "CP_VAT_MASK = 0x7"
definition CP_NUM_ARRAYS :: nat where [field_defs]: "CP_NUM_ARRAYS = 0x10"
definition CP_ARRAY_MASK :: nat where [field_defs]: "CP_ARRAY_MASK = 0xF"

datatype cp_array =
    Arr_Position | Arr_Normal | Arr_Color0 | Arr_Color1
  | Arr_TexCoord0 | Arr_TexCoord1 | Arr_TexCoord2 | Arr_TexCoord3
  | Arr_TexCoord4 | Arr_TexCoord5 | Arr_TexCoord6 | Arr_TexCoord7
  | XF_A | XF_B | XF_C | XF_D

definition cp_arrays :: "cp_array list" where
  "cp_arrays =
     [Arr_Position, Arr_Normal, Arr_Color0, Arr_Color1,
      Arr_TexCoord0, Arr_TexCoord1, Arr_TexCoord2, Arr_TexCoord3,
      Arr_TexCoord4, Arr_TexCoord5, Arr_TexCoord6, Arr_TexCoord7, XF_A, XF_B, XF_C, XF_D]"

definition cp_array_names :: "string list" where
  "cp_array_names =
     [''Position'', ''Normal'', ''Color 0'', ''Color 1'',
      ''Tex Coord 0'', ''Tex Coord 1'', ''Tex Coord 2'', ''Tex Coord 3'',
      ''Tex Coord 4'', ''Tex Coord 5'', ''Tex Coord 6'', ''Tex Coord 7'',
      ''XF A'', ''XF B'', ''XF C'', ''XF D'']"

text \<open>\<^verbatim>\<open>operator+(CPArray, u8)\<close> on the number of an array; the cast truncates to \<^verbatim>\<open>u8\<close>.\<close>

definition cp_array_plus :: "u8 \<Rightarrow> u8 \<Rightarrow> u8" where
  "cp_array_plus array offset = array + offset"

definition NUM_VERTEX_COMPONENT_ARRAYS :: nat where
  "NUM_VERTEX_COMPONENT_ARRAYS = 12"

datatype vertex_component_format = NotPresent | Direct | Index8 | Index16

definition VertexComponentFormat :: "u32 \<Rightarrow> vertex_component_format" where
  "VertexComponentFormat w =
     (if w = 0 then NotPresent else if w = 1 then Direct else if w = 2 then Index8 else Index16)"

definition IsIndexed :: "vertex_component_format \<Rightarrow> bool" where
  "IsIndexed format \<longleftrightarrow> format = Index8 \<or> format = Index16"

datatype component_format =
  UByte | Byte | UShort | Short | Float | InvalidFloat5 | InvalidFloat6 | InvalidFloat7

definition component_formats :: "component_format list" where
  "component_formats =
     [UByte, Byte, UShort, Short, Float, InvalidFloat5, InvalidFloat6, InvalidFloat7]"

definition ComponentFormat :: "u32 \<Rightarrow> component_format" where
  "ComponentFormat w = component_formats ! (unat w mod 8)"

fun component_format_value :: "component_format \<Rightarrow> u32" where
  "component_format_value UByte = 0"
| "component_format_value Byte = 1"
| "component_format_value UShort = 2"
| "component_format_value Short = 3"
| "component_format_value Float = 4"
| "component_format_value InvalidFloat5 = 5"
| "component_format_value InvalidFloat6 = 6"
| "component_format_value InvalidFloat7 = 7"

text \<open>
  The constructor covers every value of the enumeration, so the default branch of the source
  (a panic) has no counterpart.
\<close>

fun GetElementSize :: "component_format \<Rightarrow> u32" where
  "GetElementSize UByte = 1"
| "GetElementSize Byte = 1"
| "GetElementSize UShort = 2"
| "GetElementSize Short = 2"
| "GetElementSize Float = 4"
| "GetElementSize InvalidFloat5 = 4"
| "GetElementSize InvalidFloat6 = 4"
| "GetElementSize InvalidFloat7 = 4"

datatype coord_component_count = XY | XYZ

definition CoordComponentCount :: "u32 \<Rightarrow> coord_component_count" where
  "CoordComponentCount w = (if w = 0 then XY else XYZ)"

datatype normal_component_count = Nrm_N | Nrm_NTB

definition NormalComponentCount :: "u32 \<Rightarrow> normal_component_count" where
  "NormalComponentCount w = (if w = 0 then Nrm_N else Nrm_NTB)"

datatype color_component_count = Col_RGB | Col_RGBA

definition ColorComponentCount :: "u32 \<Rightarrow> color_component_count" where
  "ColorComponentCount w = (if w = 0 then Col_RGB else Col_RGBA)"

text \<open>The colour format field has three bits; the values 6 and 7 have no enumerator.\<close>

datatype color_format =
  RGB565 | RGB888 | RGB888x | RGBA4444 | RGBA6666 | RGBA8888 | InvalidColor u32

definition ColorFormat :: "u32 \<Rightarrow> color_format" where
  "ColorFormat w =
     (if w = 0 then RGB565 else if w = 1 then RGB888 else if w = 2 then RGB888x
      else if w = 3 then RGBA4444 else if w = 4 then RGBA6666 else if w = 5 then RGBA8888
      else InvalidColor w)"

datatype tex_component_count = Tex_S | Tex_ST

definition TexComponentCount :: "u32 \<Rightarrow> tex_component_count" where
  "TexComponentCount w = (if w = 0 then Tex_S else Tex_ST)"

fun tex_component_count_value :: "tex_component_count \<Rightarrow> u32" where
  "tex_component_count_value Tex_S = 0"
| "tex_component_count_value Tex_ST = 1"

section \<open>Register unions\<close>

type_synonym field = "nat \<times> nat"

definition get :: "field \<Rightarrow> u32 \<Rightarrow> u32" where
  "get f w = field_get (fst f) (snd f) w"

definition put :: "field \<Rightarrow> u32 \<Rightarrow> u32 \<Rightarrow> u32" where
  "put f v w = field_set (fst f) (snd f) v w"

subsection \<open>TVtxDesc::Low and TVtxDesc::High\<close>

definition PosMatIdx :: field where [field_defs]: "PosMatIdx = (0, 1)"
definition Tex0MatIdx :: field where [field_defs]: "Tex0MatIdx = (1, 1)"
definition Tex1MatIdx :: field where [field_defs]: "Tex1MatIdx = (2, 1)"
definition Tex2MatIdx :: field where [field_defs]: "Tex2MatIdx = (3, 1)"
definition Tex3MatIdx :: field where [field_defs]: "Tex3MatIdx = (4, 1)"
definition Tex4MatIdx :: field where [field_defs]: "Tex4MatIdx = (5, 1)"
definition Tex5MatIdx :: field where [field_defs]: "Tex5MatIdx = (6, 1)"
definition Tex6MatIdx :: field where [field_defs]: "Tex6MatIdx = (7, 1)"
definition Tex7MatIdx :: field where [field_defs]: "Tex7MatIdx = (8, 1)"
definition Position :: field where [field_defs]: "Position = (9, 2)"
definition Normal :: field where [field_defs]: "Normal = (11, 2)"
definition Color0 :: field where [field_defs]: "Color0 = (13, 2)"
definition Color1 :: field where [field_defs]: "Color1 = (15, 2)"

definition TVtxDesc_Low :: "field list" where
  "TVtxDesc_Low =
     [PosMatIdx, Tex0MatIdx, Tex1MatIdx, Tex2MatIdx, Tex3MatIdx, Tex4MatIdx, Tex5MatIdx,
      Tex6MatIdx, Tex7MatIdx, Position, Normal, Color0, Color1]"

definition Tex0Coord :: field where [field_defs]: "Tex0Coord = (0, 2)"
definition Tex1Coord :: field where [field_defs]: "Tex1Coord = (2, 2)"
definition Tex2Coord :: field where [field_defs]: "Tex2Coord = (4, 2)"
definition Tex3Coord :: field where [field_defs]: "Tex3Coord = (6, 2)"
definition Tex4Coord :: field where [field_defs]: "Tex4Coord = (8, 2)"
definition Tex5Coord :: field where [field_defs]: "Tex5Coord = (10, 2)"
definition Tex6Coord :: field where [field_defs]: "Tex6Coord = (12, 2)"
definition Tex7Coord :: field where [field_defs]: "Tex7Coord = (14, 2)"

definition TVtxDesc_High :: "field list" where
  "TVtxDesc_High =
     [Tex0Coord, Tex1Coord, Tex2Coord, Tex3Coord, Tex4Coord, Tex5Coord, Tex6Coord, Tex7Coord]"

text \<open>
  The arrays of the same unions: \<^verbatim>\<open>BitFieldArray<1, 1, 8>\<close>, \<^verbatim>\<open><13, 2, 2>\<close> and
  \<^verbatim>\<open><0, 2, 8>\<close>.
\<close>

definition TexMatIdx :: "nat \<Rightarrow> u32 \<Rightarrow> u32" where
  "TexMatIdx i low = array_get 1 1 i low"

definition Color :: "nat \<Rightarrow> u32 \<Rightarrow> vertex_component_format" where
  "Color i low = VertexComponentFormat (array_get 13 2 i low)"

definition TexCoord :: "nat \<Rightarrow> u32 \<Rightarrow> vertex_component_format" where
  "TexCoord i high = VertexComponentFormat (array_get 0 2 i high)"

subsection \<open>The three attribute groups\<close>

definition PosElements :: field where [field_defs]: "PosElements = (0, 1)"
definition PosFormat :: field where [field_defs]: "PosFormat = (1, 3)"
definition PosFrac :: field where [field_defs]: "PosFrac = (4, 5)"
definition NormalElements :: field where [field_defs]: "NormalElements = (9, 1)"
definition NormalFormat :: field where [field_defs]: "NormalFormat = (10, 3)"
definition Color0Elements :: field where [field_defs]: "Color0Elements = (13, 1)"
definition Color0Comp :: field where [field_defs]: "Color0Comp = (14, 3)"
definition Color1Elements :: field where [field_defs]: "Color1Elements = (17, 1)"
definition Color1Comp :: field where [field_defs]: "Color1Comp = (18, 3)"
definition Tex0CoordElements :: field where [field_defs]: "Tex0CoordElements = (21, 1)"
definition Tex0CoordFormat :: field where [field_defs]: "Tex0CoordFormat = (22, 3)"
definition Tex0Frac :: field where [field_defs]: "Tex0Frac = (25, 5)"
definition ByteDequant :: field where [field_defs]: "ByteDequant = (30, 1)"
definition NormalIndex3 :: field where [field_defs]: "NormalIndex3 = (31, 1)"

definition UVAT_group0 :: "field list" where
  "UVAT_group0 =
     [PosElements, PosFormat, PosFrac, NormalElements, NormalFormat, Color0Elements,
      Color0Comp, Color1Elements, Color1Comp, Tex0CoordElements, Tex0CoordFormat, Tex0Frac,
      ByteDequant, NormalIndex3]"

definition Tex1CoordElements :: field where [field_defs]: "Tex1CoordElements = (0, 1)"
definition Tex1CoordFormat :: field where [field_defs]: "Tex1CoordFormat = (1, 3)"
definition Tex1Frac :: field where [field_defs]: "Tex1Frac = (4, 5)"
definition Tex2CoordElements :: field where [field_defs]: "Tex2CoordElements = (9, 1)"
definition Tex2CoordFormat :: field where [field_defs]: "Tex2CoordFormat = (10, 3)"
definition Tex2Frac :: field where [field_defs]: "Tex2Frac = (13, 5)"
definition Tex3CoordElements :: field where [field_defs]: "Tex3CoordElements = (18, 1)"
definition Tex3CoordFormat :: field where [field_defs]: "Tex3CoordFormat = (19, 3)"
definition Tex3Frac :: field where [field_defs]: "Tex3Frac = (22, 5)"
definition Tex4CoordElements :: field where [field_defs]: "Tex4CoordElements = (27, 1)"
definition Tex4CoordFormat :: field where [field_defs]: "Tex4CoordFormat = (28, 3)"
definition VCacheEnhance :: field where [field_defs]: "VCacheEnhance = (31, 1)"

definition UVAT_group1 :: "field list" where
  "UVAT_group1 =
     [Tex1CoordElements, Tex1CoordFormat, Tex1Frac, Tex2CoordElements, Tex2CoordFormat,
      Tex2Frac, Tex3CoordElements, Tex3CoordFormat, Tex3Frac, Tex4CoordElements,
      Tex4CoordFormat, VCacheEnhance]"

definition Tex4Frac :: field where [field_defs]: "Tex4Frac = (0, 5)"
definition Tex5CoordElements :: field where [field_defs]: "Tex5CoordElements = (5, 1)"
definition Tex5CoordFormat :: field where [field_defs]: "Tex5CoordFormat = (6, 3)"
definition Tex5Frac :: field where [field_defs]: "Tex5Frac = (9, 5)"
definition Tex6CoordElements :: field where [field_defs]: "Tex6CoordElements = (14, 1)"
definition Tex6CoordFormat :: field where [field_defs]: "Tex6CoordFormat = (15, 3)"
definition Tex6Frac :: field where [field_defs]: "Tex6Frac = (18, 5)"
definition Tex7CoordElements :: field where [field_defs]: "Tex7CoordElements = (23, 1)"
definition Tex7CoordFormat :: field where [field_defs]: "Tex7CoordFormat = (24, 3)"
definition Tex7Frac :: field where [field_defs]: "Tex7Frac = (27, 5)"

definition UVAT_group2 :: "field list" where
  "UVAT_group2 =
     [Tex4Frac, Tex5CoordElements, Tex5CoordFormat, Tex5Frac, Tex6CoordElements,
      Tex6CoordFormat, Tex6Frac, Tex7CoordElements, Tex7CoordFormat, Tex7Frac]"

subsection \<open>TMatrixIndexA and TMatrixIndexB\<close>

definition PosNormalMtxIdx :: field where [field_defs]: "PosNormalMtxIdx = (0, 6)"
definition Tex0MtxIdx :: field where [field_defs]: "Tex0MtxIdx = (6, 6)"
definition Tex1MtxIdx :: field where [field_defs]: "Tex1MtxIdx = (12, 6)"
definition Tex2MtxIdx :: field where [field_defs]: "Tex2MtxIdx = (18, 6)"
definition Tex3MtxIdx :: field where [field_defs]: "Tex3MtxIdx = (24, 6)"

definition TMatrixIndexA :: "field list" where
  "TMatrixIndexA =
     [PosNormalMtxIdx, Tex0MtxIdx, Tex1MtxIdx, Tex2MtxIdx, Tex3MtxIdx]"

definition Tex4MtxIdx :: field where [field_defs]: "Tex4MtxIdx = (0, 6)"
definition Tex5MtxIdx :: field where [field_defs]: "Tex5MtxIdx = (6, 6)"
definition Tex6MtxIdx :: field where [field_defs]: "Tex6MtxIdx = (12, 6)"
definition Tex7MtxIdx :: field where [field_defs]: "Tex7MtxIdx = (18, 6)"

definition TMatrixIndexB :: "field list" where
  "TMatrixIndexB =
     [Tex4MtxIdx, Tex5MtxIdx, Tex6MtxIdx, Tex7MtxIdx]"

section \<open>VAT\<close>

record vat =
  g0 :: u32
  g1 :: u32
  g2 :: u32

text \<open>
  The getters by index. An index outside the range is reported by \<^verbatim>\<open>PanicAlertFmt\<close> and
  answered with the first enumerator.
\<close>

definition GetColorElements :: "vat \<Rightarrow> nat \<Rightarrow> color_component_count" where
  "GetColorElements v idx =
     (if idx = 0 then ColorComponentCount (get Color0Elements (g0 v))
      else if idx = 1 then ColorComponentCount (get Color1Elements (g0 v))
      else Col_RGB)"

definition GetColorFormat :: "vat \<Rightarrow> nat \<Rightarrow> color_format" where
  "GetColorFormat v idx =
     (if idx = 0 then ColorFormat (get Color0Comp (g0 v))
      else if idx = 1 then ColorFormat (get Color1Comp (g0 v))
      else RGB565)"

definition GetTexElements :: "vat \<Rightarrow> nat \<Rightarrow> tex_component_count" where
  "GetTexElements v idx =
     (if idx = 0 then TexComponentCount (get Tex0CoordElements (g0 v))
      else if idx = 1 then TexComponentCount (get Tex1CoordElements (g1 v))
      else if idx = 2 then TexComponentCount (get Tex2CoordElements (g1 v))
      else if idx = 3 then TexComponentCount (get Tex3CoordElements (g1 v))
      else if idx = 4 then TexComponentCount (get Tex4CoordElements (g1 v))
      else if idx = 5 then TexComponentCount (get Tex5CoordElements (g2 v))
      else if idx = 6 then TexComponentCount (get Tex6CoordElements (g2 v))
      else if idx = 7 then TexComponentCount (get Tex7CoordElements (g2 v))
      else Tex_S)"

definition GetTexFormat :: "vat \<Rightarrow> nat \<Rightarrow> component_format" where
  "GetTexFormat v idx =
     (if idx = 0 then ComponentFormat (get Tex0CoordFormat (g0 v))
      else if idx = 1 then ComponentFormat (get Tex1CoordFormat (g1 v))
      else if idx = 2 then ComponentFormat (get Tex2CoordFormat (g1 v))
      else if idx = 3 then ComponentFormat (get Tex3CoordFormat (g1 v))
      else if idx = 4 then ComponentFormat (get Tex4CoordFormat (g1 v))
      else if idx = 5 then ComponentFormat (get Tex5CoordFormat (g2 v))
      else if idx = 6 then ComponentFormat (get Tex6CoordFormat (g2 v))
      else if idx = 7 then ComponentFormat (get Tex7CoordFormat (g2 v))
      else UByte)"

definition GetTexFrac :: "vat \<Rightarrow> nat \<Rightarrow> u8" where
  "GetTexFrac v idx =
     (if idx = 0 then ucast (get Tex0Frac (g0 v))
      else if idx = 1 then ucast (get Tex1Frac (g1 v))
      else if idx = 2 then ucast (get Tex2Frac (g1 v))
      else if idx = 3 then ucast (get Tex3Frac (g1 v))
      else if idx = 4 then ucast (get Tex4Frac (g2 v))
      else if idx = 5 then ucast (get Tex5Frac (g2 v))
      else if idx = 6 then ucast (get Tex6Frac (g2 v))
      else if idx = 7 then ucast (get Tex7Frac (g2 v))
      else 0)"

definition SetTexElements :: "nat \<Rightarrow> tex_component_count \<Rightarrow> vat \<Rightarrow> vat" where
  "SetTexElements idx value v =
     (if idx = 0 then v\<lparr>g0 := put Tex0CoordElements (tex_component_count_value value) (g0 v)\<rparr>
      else if idx = 1 then v\<lparr>g1 := put Tex1CoordElements (tex_component_count_value value) (g1 v)\<rparr>
      else if idx = 2 then v\<lparr>g1 := put Tex2CoordElements (tex_component_count_value value) (g1 v)\<rparr>
      else if idx = 3 then v\<lparr>g1 := put Tex3CoordElements (tex_component_count_value value) (g1 v)\<rparr>
      else if idx = 4 then v\<lparr>g1 := put Tex4CoordElements (tex_component_count_value value) (g1 v)\<rparr>
      else if idx = 5 then v\<lparr>g2 := put Tex5CoordElements (tex_component_count_value value) (g2 v)\<rparr>
      else if idx = 6 then v\<lparr>g2 := put Tex6CoordElements (tex_component_count_value value) (g2 v)\<rparr>
      else if idx = 7 then v\<lparr>g2 := put Tex7CoordElements (tex_component_count_value value) (g2 v)\<rparr>
      else v)"

definition SetTexFormat :: "nat \<Rightarrow> component_format \<Rightarrow> vat \<Rightarrow> vat" where
  "SetTexFormat idx value v =
     (if idx = 0 then v\<lparr>g0 := put Tex0CoordFormat (component_format_value value) (g0 v)\<rparr>
      else if idx = 1 then v\<lparr>g1 := put Tex1CoordFormat (component_format_value value) (g1 v)\<rparr>
      else if idx = 2 then v\<lparr>g1 := put Tex2CoordFormat (component_format_value value) (g1 v)\<rparr>
      else if idx = 3 then v\<lparr>g1 := put Tex3CoordFormat (component_format_value value) (g1 v)\<rparr>
      else if idx = 4 then v\<lparr>g1 := put Tex4CoordFormat (component_format_value value) (g1 v)\<rparr>
      else if idx = 5 then v\<lparr>g2 := put Tex5CoordFormat (component_format_value value) (g2 v)\<rparr>
      else if idx = 6 then v\<lparr>g2 := put Tex6CoordFormat (component_format_value value) (g2 v)\<rparr>
      else if idx = 7 then v\<lparr>g2 := put Tex7CoordFormat (component_format_value value) (g2 v)\<rparr>
      else v)"

definition SetTexFrac :: "nat \<Rightarrow> u8 \<Rightarrow> vat \<Rightarrow> vat" where
  "SetTexFrac idx value v =
     (if idx = 0 then v\<lparr>g0 := put Tex0Frac (ucast value) (g0 v)\<rparr>
      else if idx = 1 then v\<lparr>g1 := put Tex1Frac (ucast value) (g1 v)\<rparr>
      else if idx = 2 then v\<lparr>g1 := put Tex2Frac (ucast value) (g1 v)\<rparr>
      else if idx = 3 then v\<lparr>g1 := put Tex3Frac (ucast value) (g1 v)\<rparr>
      else if idx = 4 then v\<lparr>g2 := put Tex4Frac (ucast value) (g2 v)\<rparr>
      else if idx = 5 then v\<lparr>g2 := put Tex5Frac (ucast value) (g2 v)\<rparr>
      else if idx = 6 then v\<lparr>g2 := put Tex6Frac (ucast value) (g2 v)\<rparr>
      else if idx = 7 then v\<lparr>g2 := put Tex7Frac (ucast value) (g2 v)\<rparr>
      else v)"

section \<open>CPState\<close>

record cp_state =
  array_bases :: "u32 list"
  array_strides :: "u32 list"
  matrix_index_a :: u32
  matrix_index_b :: u32
  vtx_desc_low :: u32
  vtx_desc_high :: u32
  vtx_attr :: "vat list"

definition CPState_default :: cp_state where
  "CPState_default =
     \<lparr>array_bases = replicate CP_NUM_ARRAYS 0, array_strides = replicate CP_NUM_ARRAYS 0,
      matrix_index_a = 0, matrix_index_b = 0, vtx_desc_low = 0, vtx_desc_high = 0,
      vtx_attr = replicate CP_NUM_VAT_REG \<lparr>g0 = 0, g1 = 0, g2 = 0\<rparr>\<rparr>"

text \<open>The constructor from a memory image of 256 words.\<close>

definition CPState_of_memory :: "u32 list \<Rightarrow> cp_state" where
  "CPState_of_memory memory =
     CPState_default
       \<lparr>matrix_index_a := memory ! MATINDEX_A,
        matrix_index_b := memory ! MATINDEX_B,
        vtx_desc_low := memory ! VCD_LO,
        vtx_desc_high := memory ! VCD_HI,
        vtx_attr := map (\<lambda>i. \<lparr>g0 = memory ! (CP_VAT_REG_A + i), g1 = memory ! (CP_VAT_REG_B + i),
                             g2 = memory ! (CP_VAT_REG_C + i)\<rparr>) [0..<CP_NUM_VAT_REG],
        array_bases := map (\<lambda>i. memory ! (ARRAY_BASE + i)) [0..<CP_NUM_ARRAYS],
        array_strides := map (\<lambda>i. memory ! (ARRAY_STRIDE + i)) [0..<CP_NUM_ARRAYS]\<rparr>"

text \<open>The game quirks \<^verbatim>\<open>LoadCPReg\<close> reports.\<close>

datatype game_quirk = UsesCPPerfCommand | UsesMaybeInvalidCPCommand | UsesUnknownCPCommand

definition GetPhysicalAddressMask :: "bool \<Rightarrow> u32" where
  "GetPhysicalAddressMask is_wii = (if is_wii then 0x1FFFFFFF else 0x03FFFFFF)"

definition maybe_invalid :: "bool \<Rightarrow> game_quirk list" where
  "maybe_invalid b = (if b then [UsesMaybeInvalidCPCommand] else [])"

definition LoadCPReg :: "bool \<Rightarrow> u8 \<Rightarrow> u32 \<Rightarrow> cp_state \<Rightarrow> cp_state \<times> game_quirk list" where
  "LoadCPReg is_wii sub_cmd value s =
     (let c = unat sub_cmd; command = c AND CP_COMMAND_MASK;
          vat_index = c AND CP_VAT_MASK; array_index = c AND CP_ARRAY_MASK in
      if command = UNKNOWN_00 \<or> command = UNKNOWN_10 \<or> command = UNKNOWN_20 then
        (s, if \<not> (c = UNKNOWN_20 \<and> value = 0) then [UsesCPPerfCommand] else [])
      else if command = MATINDEX_A then
        (s\<lparr>matrix_index_a := value\<rparr>, maybe_invalid (c \<noteq> MATINDEX_A))
      else if command = MATINDEX_B then
        (s\<lparr>matrix_index_b := value\<rparr>, maybe_invalid (c \<noteq> MATINDEX_B))
      else if command = VCD_LO then
        (s\<lparr>vtx_desc_low := value\<rparr>, maybe_invalid (c \<noteq> VCD_LO))
      else if command = VCD_HI then
        (s\<lparr>vtx_desc_high := value\<rparr>, maybe_invalid (c \<noteq> VCD_HI))
      else if command = CP_VAT_REG_A then
        (s\<lparr>vtx_attr := (vtx_attr s)[vat_index := (vtx_attr s ! vat_index)\<lparr>g0 := value\<rparr>]\<rparr>,
         maybe_invalid (c - CP_VAT_REG_A \<ge> CP_NUM_VAT_REG))
      else if command = CP_VAT_REG_B then
        (s\<lparr>vtx_attr := (vtx_attr s)[vat_index := (vtx_attr s ! vat_index)\<lparr>g1 := value\<rparr>]\<rparr>,
         maybe_invalid (c - CP_VAT_REG_B \<ge> CP_NUM_VAT_REG))
      else if command = CP_VAT_REG_C then
        (s\<lparr>vtx_attr := (vtx_attr s)[vat_index := (vtx_attr s ! vat_index)\<lparr>g2 := value\<rparr>]\<rparr>,
         maybe_invalid (c - CP_VAT_REG_C \<ge> CP_NUM_VAT_REG))
      else if command = ARRAY_BASE then
        (s\<lparr>array_bases := (array_bases s)[array_index := value AND GetPhysicalAddressMask is_wii]\<rparr>, [])
      else if command = ARRAY_STRIDE then
        (s\<lparr>array_strides := (array_strides s)[array_index := value AND 0xFF]\<rparr>, [])
      else (s, [UsesUnknownCPCommand]))"

definition FillCPMemoryArray :: "cp_state \<Rightarrow> u32 list \<Rightarrow> u32 list" where
  "FillCPMemoryArray s memory =
     (let m1 = memory[MATINDEX_A := matrix_index_a s, MATINDEX_B := matrix_index_b s,
                      VCD_LO := vtx_desc_low s, VCD_HI := vtx_desc_high s];
          m2 = fold (\<lambda>i m. m[CP_VAT_REG_A + i := g0 (vtx_attr s ! i),
                            CP_VAT_REG_B + i := g1 (vtx_attr s ! i),
                            CP_VAT_REG_C + i := g2 (vtx_attr s ! i)]) [0..<CP_NUM_VAT_REG] m1
      in fold (\<lambda>i m. m[ARRAY_BASE + i := array_bases s ! i,
                      ARRAY_STRIDE + i := array_strides s ! i]) [0..<CP_NUM_ARRAYS] m2)"

text \<open>
  The command processor part of \<^verbatim>\<open>FifoPlayer::LoadRegisters\<close>: the registers it
  writes to the graphics FIFO, in order, from the image \<^verbatim>\<open>regs\<close> of a recording.
\<close>

definition LoadRegisters_cp :: "u32 list \<Rightarrow> (nat \<times> u32) list" where
  "LoadRegisters_cp regs =
     [(MATINDEX_A, regs ! MATINDEX_A), (MATINDEX_B, regs ! MATINDEX_B),
      (VCD_LO, regs ! VCD_LO), (VCD_HI, regs ! VCD_HI)] @
     concat (map (\<lambda>i. [(CP_VAT_REG_A + i, regs ! (CP_VAT_REG_A + i)),
                       (CP_VAT_REG_B + i, regs ! (CP_VAT_REG_B + i)),
                       (CP_VAT_REG_C + i, regs ! (CP_VAT_REG_C + i))]) [0..<CP_NUM_VAT_REG]) @
     concat (map (\<lambda>i. [(ARRAY_BASE + i, regs ! (ARRAY_BASE + i)),
                       (ARRAY_STRIDE + i, regs ! (ARRAY_STRIDE + i))]) [0..<CP_NUM_ARRAYS])"

text \<open>The globals and \<^verbatim>\<open>CopyPreprocessCPStateFromMain\<close>.\<close>

record cp_globals =
  g_main_cp_state :: cp_state
  g_preprocess_cp_state :: cp_state

definition CopyPreprocessCPStateFromMain :: "cp_globals \<Rightarrow> cp_globals" where
  "CopyPreprocessCPStateFromMain g = g\<lparr>g_preprocess_cp_state := g_main_cp_state g\<rparr>"

section \<open>Fields of a word\<close>

text \<open>A field cut to the register; every field of the unions fits as it is.\<close>

definition fit :: "field \<Rightarrow> field" where
  "fit f = (min (fst f) 32, min (snd f) (32 - min (fst f) 32))"

lemma fit_id: "fst f + snd f \<le> 32 \<Longrightarrow> fit f = f"
  by (cases f) (auto simp: fit_def)

interpretation reg: register_field "get (fit f)" "put (fit f)" "snd (fit f)"
  "\<lambda>i. fst (fit f) \<le> i \<and> i < fst (fit f) + snd (fit f)" for f
proof -
  have "fst (fit f) + snd (fit f) \<le> LENGTH(32)" by (auto simp: fit_def min_def)
  from field_is_register_field [OF this]
  show "register_field (get (fit f)) (put (fit f)) (snd (fit f)) (\<lambda>i. fst (fit f) \<le> i \<and> i < fst (fit f) + snd (fit f))"
    by (simp add: get_def [abs_def] put_def [abs_def])
qed

lemma get_put:
  "fst f + snd f \<le> 32 \<Longrightarrow> get f (put f v w) = take_bit (snd f) v"
  using reg.get_set [of f v w] by (simp add: fit_id)

lemma get_put_other:
  "fst f + snd f \<le> 32 \<Longrightarrow> fst g + snd g \<le> 32 \<Longrightarrow> fst f + snd f \<le> fst g \<or> fst g + snd g \<le> fst f \<Longrightarrow>
   get f (put g v w) = get f w"
  unfolding get_def put_def by (rule field_get_set_other) simp_all

definition field_bits :: "field \<Rightarrow> nat list" where
  "field_bits f = [fst f..<fst f + snd f]"

definition tiles :: "field list \<Rightarrow> nat \<Rightarrow> bool" where
  "tiles fs n \<longleftrightarrow> concat (map field_bits fs) = [0..<n]"

lemma tiles_fit: "tiles fs n \<Longrightarrow> f \<in> set fs \<Longrightarrow> 0 < snd f \<Longrightarrow> fst f + snd f \<le> n"
proof -
  assume a: "tiles fs n" "f \<in> set fs" "0 < snd f"
  then have "fst f + snd f - 1 \<in> set (concat (map field_bits fs))"
    by (auto simp: field_bits_def intro!: bexI [of _ f])
  with a show ?thesis by (simp add: tiles_def)
qed

text \<open>A word is determined by the fields that tile it.\<close>

lemma tiles_determine:
  assumes "tiles fs 32" "\<forall>f\<in>set fs. 0 < snd f" "\<forall>f\<in>set fs. get f w = get f w'"
  shows "w = w'"
proof (rule bit_word_eqI)
  fix i assume "i < LENGTH(32)"
  then have "i \<in> set (concat (map field_bits fs))" using assms(1) by (simp add: tiles_def)
  then obtain f where f: "f \<in> set fs" "fst f \<le> i" "i < fst f + snd f"
    by (auto simp: field_bits_def)
  have "bit (get f w) (i - fst f) = bit (get f w') (i - fst f)" using assms(3) f(1) by simp
  moreover have "i - fst f < snd f" using f by linarith
  ultimately show "bit w i = bit w' i"
    using f tiles_fit [OF assms(1) f(1)] assms(2) by (simp add: get_def bit_field_get)
qed

lemma tiles_disjoint:
  assumes "tiles fs n" "f \<in> set fs" "g \<in> set fs" "f \<noteq> g" "0 < snd f" "0 < snd g"
  shows "fst f + snd f \<le> fst g \<or> fst g + snd g \<le> fst f"
proof (rule ccontr)
  assume n: "\<not> ?thesis"
  have "field_bits f \<noteq> field_bits g"
  proof
    assume "field_bits f = field_bits g"
    then have "hd (field_bits f) = hd (field_bits g)" "length (field_bits f) = length (field_bits g)" by simp_all
    with assms(4-6) show False by (simp add: field_bits_def prod_eq_iff)
  qed
  moreover have "distinct (concat (map field_bits fs))" using assms(1) by (simp add: tiles_def)
  ultimately have "set (field_bits f) \<inter> set (field_bits g) = {}"
    using assms(2,3) by (simp add: distinct_concat_iff)
  moreover have "max (fst f) (fst g) \<in> set (field_bits f) \<inter> set (field_bits g)"
    using n assms(5,6) by (auto simp: field_bits_def max_def)
  ultimately show False by blast
qed

lemma groups_tile: "tiles UVAT_group0 32" "tiles UVAT_group1 32" "tiles UVAT_group2 32"
  "tiles TVtxDesc_Low 17" "tiles TVtxDesc_High 16" "tiles TMatrixIndexA 30" "tiles TMatrixIndexB 24"
  by (simp_all add: tiles_def field_bits_def UVAT_group0_def UVAT_group1_def UVAT_group2_def
      TVtxDesc_Low_def TVtxDesc_High_def TMatrixIndexA_def TMatrixIndexB_def field_defs upt_rec)

lemma groups_pos:
  "\<forall>f\<in>set (UVAT_group0 @ UVAT_group1 @ UVAT_group2). 0 < snd f"
  by (simp add: UVAT_group0_def UVAT_group1_def UVAT_group2_def field_defs)

section \<open>The indexed accessors of VAT\<close>

locale indexed_cells =
  fixes cell :: "'s \<Rightarrow> nat \<Rightarrow> 'v"
    and assign :: "nat \<Rightarrow> 'v \<Rightarrow> 's \<Rightarrow> 's"
    and valid :: "'v \<Rightarrow> bool"
    and n :: nat
  assumes cell_assign: "i < n \<Longrightarrow> j < n \<Longrightarrow> valid v \<Longrightarrow>
      cell (assign i v s) j = (if i = j then v else cell s j)"
    and assign_out: "n \<le> i \<Longrightarrow> assign i v s = s"
begin

lemma assign_all:
  assumes "length vs = n" "\<forall>v\<in>set vs. valid v" "j < n"
  shows "cell (fold (\<lambda>i. assign i (vs ! i)) [0..<n] s) j = vs ! j"
proof -
  have "cell (fold (\<lambda>i. assign i (vs ! i)) [0..<k] s) j = (if j < k then vs ! j else cell s j)"
    if "k \<le> n" for k
    using that assms by (induction k) (auto simp: cell_assign)
  from this [of n] assms(3) show ?thesis by simp
qed

lemma assign_comm:
  assumes "i < n" "j < n" "k < n" "i \<noteq> j" "valid u" "valid v"
  shows "cell (assign i u (assign j v s)) k = cell (assign j v (assign i u s)) k"
  using assms by (simp add: cell_assign)

end

lemma less_8_cases:
  assumes "i < (8::nat)"
  obtains "i = 0" | "i = 1" | "i = 2" | "i = 3" | "i = 4" | "i = 5" | "i = 6" | "i = 7"
  using assms by linarith

lemma enum_round_trips:
  "TexComponentCount (tex_component_count_value c mod 2) = c"
  "ComponentFormat (take_bit 3 (component_format_value f)) = f"
  by (cases c; simp add: TexComponentCount_def)
     (cases f; simp add: ComponentFormat_def component_formats_def take_bit_eq_mod)

lemma frac_round_trip: "unat v < 32 \<Longrightarrow> ucast (take_bit 5 (ucast v :: u32)) = (v :: u8)"
proof -
  assume "unat v < 32"
  then have "take_bit 5 v = v" by (simp add: take_bit_eq_mod unat_mod_distrib word_unat_eq_iff)
  moreover have "ucast (take_bit 5 (ucast v :: u32)) = take_bit 5 v"
    by (rule bit_word_eqI) (auto simp: bit_simps)
  ultimately show ?thesis by simp
qed

lemmas vat_access_defs = GetTexElements_def GetTexFormat_def GetTexFrac_def
  SetTexElements_def SetTexFormat_def SetTexFrac_def

interpretation elements: indexed_cells GetTexElements SetTexElements "\<lambda>_. True" 8
proof
  fix i j :: nat and v and s :: vat
  assume "i < 8" "j < 8"
  then show "GetTexElements (SetTexElements i v s) j = (if i = j then v else GetTexElements s j)"
    by (elim less_8_cases) (simp_all add: vat_access_defs get_put get_put_other field_defs enum_round_trips)
qed (simp add: SetTexElements_def)

interpretation formats: indexed_cells GetTexFormat SetTexFormat "\<lambda>_. True" 8
proof
  fix i j :: nat and v and s :: vat
  assume "i < 8" "j < 8"
  then show "GetTexFormat (SetTexFormat i v s) j = (if i = j then v else GetTexFormat s j)"
    by (elim less_8_cases) (simp_all add: vat_access_defs get_put get_put_other field_defs enum_round_trips)
qed (simp add: SetTexFormat_def)

interpretation fracs: indexed_cells GetTexFrac SetTexFrac "\<lambda>v. unat v < 32" 8
proof
  fix i j :: nat and v :: u8 and s :: vat
  assume "i < 8" "j < 8" "unat v < 32"
  then show "GetTexFrac (SetTexFrac i v s) j = (if i = j then v else GetTexFrac s j)"
    by (elim less_8_cases) (simp_all add: vat_access_defs get_put get_put_other field_defs frac_round_trip)
qed (simp add: SetTexFrac_def)

section \<open>The memory image\<close>

definition cp_ok :: "bool \<Rightarrow> cp_state \<Rightarrow> bool" where
  "cp_ok is_wii s \<longleftrightarrow>
     length (array_bases s) = 16 \<and> length (array_strides s) = 16 \<and> length (vtx_attr s) = 8 \<and>
     (\<forall>b\<in>set (array_bases s). b AND GetPhysicalAddressMask is_wii = b) \<and>
     (\<forall>x\<in>set (array_strides s). x AND 0xFF = x)"

lemma CPState_default_ok: "cp_ok is_wii CPState_default"
  by (simp add: cp_ok_def CPState_default_def field_defs)

lemma LoadCPReg_ok:
  assumes "cp_ok is_wii s"
  shows "cp_ok is_wii (fst (LoadCPReg is_wii sub_cmd value s))"
proof -
  have upd: "\<forall>b\<in>set (bs[k := x AND m]). b AND m = b" if "\<forall>b\<in>set bs. b AND m = b"
    for bs k x and m :: u32
    using that by (metis and.assoc and.idem set_update_subset_insert insertE subsetD)
  have "\<forall>b\<in>set ((array_bases s)[k := x AND GetPhysicalAddressMask is_wii]).
      b AND GetPhysicalAddressMask is_wii = b"
    "\<forall>b\<in>set ((array_strides s)[k := x AND 0xFF]). b AND 0xFF = b" for k x
    using assms by (intro upd; simp add: cp_ok_def)+
  with assms show ?thesis unfolding LoadCPReg_def Let_def cp_ok_def by simp
qed

lemma nth_fold3:
  assumes "a + n \<le> b" "b + n \<le> c" "c + n \<le> length m" "j < length m"
  shows "fold (\<lambda>i m. m[a + i := f i, b + i := g i, c + i := h i]) [0..<n] m ! j =
    (if a \<le> j \<and> j < a + n then f (j - a) else if b \<le> j \<and> j < b + n then g (j - b)
     else if c \<le> j \<and> j < c + n then h (j - c) else m ! j)"
  using assms
proof (induction n)
  case (Suc n)
  have "length (fold (\<lambda>i m. m[a + i := f i, b + i := g i, c + i := h i]) [0..<k] m) = length m" for k
    by (induction k) simp_all
  with Suc show ?case by (auto simp: nth_list_update less_Suc_eq)
qed auto

lemma nth_fold2:
  assumes "a + n \<le> b" "b + n \<le> length m" "j < length m"
  shows "fold (\<lambda>i m. m[a + i := f i, b + i := g i]) [0..<n] m ! j =
    (if a \<le> j \<and> j < a + n then f (j - a) else if b \<le> j \<and> j < b + n then g (j - b) else m ! j)"
  using assms
proof (induction n)
  case (Suc n)
  have "length (fold (\<lambda>i m. m[a + i := f i, b + i := g i]) [0..<k] m) = length m" for k
    by (induction k) simp_all
  with Suc show ?case by (auto simp: nth_list_update less_Suc_eq)
qed auto

lemma length_fold3:
  "length (fold (\<lambda>i m. m[a + i := f i, b + i := g i, c + i := h i]) xs m) = length m"
  by (induction xs arbitrary: m) simp_all

lemma length_fold2: "length (fold (\<lambda>i m. m[a + i := f i, b + i := g i]) xs m) = length m"
  by (induction xs arbitrary: m) simp_all

lemma length_Fill: "length (FillCPMemoryArray s m) = length m"
  by (simp add: FillCPMemoryArray_def Let_def length_fold2 length_fold3)

lemma nth_Fill:
  assumes "length m = 256" "j < 256"
  shows "FillCPMemoryArray s m ! j =
    (if 0xa0 \<le> j \<and> j < 0xb0 then array_bases s ! (j - 0xa0)
     else if 0xb0 \<le> j \<and> j < 0xc0 then array_strides s ! (j - 0xb0)
     else if 0x70 \<le> j \<and> j < 0x78 then g0 (vtx_attr s ! (j - 0x70))
     else if 0x80 \<le> j \<and> j < 0x88 then g1 (vtx_attr s ! (j - 0x80))
     else if 0x90 \<le> j \<and> j < 0x98 then g2 (vtx_attr s ! (j - 0x90))
     else if j = 0x30 then matrix_index_a s else if j = 0x40 then matrix_index_b s
     else if j = 0x50 then vtx_desc_low s else if j = 0x60 then vtx_desc_high s else m ! j)"
  using assms
  by (simp add: FillCPMemoryArray_def Let_def field_defs nth_fold2 nth_fold3 length_fold3 nth_list_update)

lemma CPState_round_trip:
  assumes "cp_ok is_wii s" "length m = 256"
  shows "CPState_of_memory (FillCPMemoryArray s m) = s"
proof -
  have "map (\<lambda>i. \<lparr>g0 = FillCPMemoryArray s m ! (0x70 + i), g1 = FillCPMemoryArray s m ! (0x80 + i),
        g2 = FillCPMemoryArray s m ! (0x90 + i)\<rparr>) [0..<8] = vtx_attr s"
    "map (\<lambda>i. FillCPMemoryArray s m ! (0xa0 + i)) [0..<16] = array_bases s"
    "map (\<lambda>i. FillCPMemoryArray s m ! (0xb0 + i)) [0..<16] = array_strides s"
    using assms by (auto simp: cp_ok_def nth_Fill intro!: nth_equalityI)
  with assms(2) show ?thesis
    by (simp add: CPState_of_memory_def field_defs nth_Fill)
qed

section \<open>Replaying a memory image\<close>

lemma masked_index:
  "i < 8 \<Longrightarrow> (0x70 + i) AND 0xf0 = (0x70::nat)" "i < 8 \<Longrightarrow> (0x80 + i) AND 0xf0 = (0x80::nat)"
  "i < 8 \<Longrightarrow> (0x90 + i) AND 0xf0 = (0x90::nat)" "i < 8 \<Longrightarrow> (0x70 + i) AND 7 = (i::nat)"
  "i < 8 \<Longrightarrow> (0x80 + i) AND 7 = (i::nat)" "i < 8 \<Longrightarrow> (0x90 + i) AND 7 = (i::nat)"
  by (erule less_8_cases; simp)+

lemma less_16_cases:
  assumes "i < (16::nat)"
  obtains k where "k < 8" "i = k" | k where "k < 8" "i = 8 + k"
proof (cases "i < 8")
  case False
  then show thesis using that(2) [of "i - 8"] assms by simp
qed (use that(1) in simp)

lemma masked_array_index:
  "i < 16 \<Longrightarrow> (0xa0 + i) AND 0xf0 = (0xa0::nat)" "i < 16 \<Longrightarrow> (0xb0 + i) AND 0xf0 = (0xb0::nat)"
  "i < 16 \<Longrightarrow> (0xa0 + i) AND 0xf = (i::nat)" "i < 16 \<Longrightarrow> (0xb0 + i) AND 0xf = (i::nat)"
  by (erule less_16_cases; erule less_8_cases; simp)+

definition load_at :: "bool \<Rightarrow> nat \<Rightarrow> u32 \<Rightarrow> cp_state \<Rightarrow> cp_state" where
  "load_at is_wii r v s = fst (LoadCPReg is_wii (word_of_nat r) v s)"

lemma vat_update_all: "v\<lparr>g0 := x, g1 := y, g2 := z\<rparr> = \<lparr>g0 = x, g1 = y, g2 = z\<rparr>" for v :: vat
  by (cases v) simp

lemma load_vat_regs:
  assumes "i < 8" "i < length (vtx_attr s)"
  shows "load_at w (0x90 + i) z (load_at w (0x80 + i) y (load_at w (0x70 + i) x s)) =
    s\<lparr>vtx_attr := (vtx_attr s)[i := \<lparr>g0 = x, g1 = y, g2 = z\<rparr>]\<rparr>"
proof -
  have "unat (word_of_nat (0x70 + i) :: u8) = 0x70 + i" "unat (word_of_nat (0x80 + i) :: u8) = 0x80 + i"
    "unat (word_of_nat (0x90 + i) :: u8) = 0x90 + i"
    using assms(1) by (intro unat_word_of_nat_less; simp)+
  with assms show ?thesis
    by (simp add: load_at_def LoadCPReg_def Let_def field_defs masked_index vat_update_all
        del: of_nat_add)
qed

lemma load_array_regs:
  assumes "i < 16"
  shows "load_at w (0xb0 + i) y (load_at w (0xa0 + i) x s) =
    s\<lparr>array_bases := (array_bases s)[i := x AND GetPhysicalAddressMask w],
      array_strides := (array_strides s)[i := y AND 0xFF]\<rparr>"
proof -
  have "unat (word_of_nat (0xa0 + i) :: u8) = 0xa0 + i" "unat (word_of_nat (0xb0 + i) :: u8) = 0xb0 + i"
    using assms by (intro unat_word_of_nat_less; simp)+
  with assms show ?thesis
    by (simp add: load_at_def LoadCPReg_def Let_def field_defs masked_array_index del: of_nat_add)
qed

lemma map_upt_update: "length xs = n \<Longrightarrow> k < n \<Longrightarrow>
  (map f [0..<k] @ drop k xs)[k := f k] = map f [0..<Suc k] @ drop (Suc k) xs"
  by (simp add: list_update_append Cons_nth_drop_Suc [symmetric])

lemma fold_vat_regs:
  assumes "length (vtx_attr s) = 8" "k \<le> 8"
  shows "fold (\<lambda>i s. load_at w (0x90 + i) (z i) (load_at w (0x80 + i) (y i) (load_at w (0x70 + i) (x i) s)))
      [0..<k] s =
    s\<lparr>vtx_attr := map (\<lambda>i. \<lparr>g0 = x i, g1 = y i, g2 = z i\<rparr>) [0..<k] @ drop k (vtx_attr s)\<rparr>"
  using assms(2)
proof (induction k)
  case (Suc k)
  with assms(1) map_upt_update [of "vtx_attr s" 8 k "\<lambda>i. \<lparr>g0 = x i, g1 = y i, g2 = z i\<rparr>"]
  show ?case by (simp add: load_vat_regs)
qed simp

lemma fold_array_regs:
  assumes "length (array_bases s) = 16" "length (array_strides s) = 16" "k \<le> 16"
  shows "fold (\<lambda>i s. load_at w (0xb0 + i) (y i) (load_at w (0xa0 + i) (x i) s)) [0..<k] s =
    s\<lparr>array_bases := map (\<lambda>i. x i AND GetPhysicalAddressMask w) [0..<k] @ drop k (array_bases s),
      array_strides := map (\<lambda>i. y i AND 0xFF) [0..<k] @ drop k (array_strides s)\<rparr>"
  using assms(3)
proof (induction k)
  case (Suc k)
  with assms(1,2) map_upt_update [of "array_bases s" 16 k "\<lambda>i. x i AND GetPhysicalAddressMask w"]
    map_upt_update [of "array_strides s" 16 k "\<lambda>i. y i AND 0xFF"]
  show ?case by (simp add: load_array_regs)
qed simp

lemma load_singles:
  "load_at w 0x30 v s = s\<lparr>matrix_index_a := v\<rparr>" "load_at w 0x40 v s = s\<lparr>matrix_index_b := v\<rparr>"
  "load_at w 0x50 v s = s\<lparr>vtx_desc_low := v\<rparr>" "load_at w 0x60 v s = s\<lparr>vtx_desc_high := v\<rparr>"
  by (simp_all add: load_at_def LoadCPReg_def Let_def field_defs)

lemma fold_concat_map: "fold f (concat (map g xs)) s = fold (\<lambda>x. fold f (g x)) xs s"
  by (induction xs arbitrary: s) simp_all

lemma replay_memory:
  assumes "cp_ok w s" "cp_ok w t" "length regs = 256" "t = CPState_of_memory regs"
  shows "fold (\<lambda>(r, v). load_at w r v) (LoadRegisters_cp regs) s = t"
proof -
  have m: "regs ! (0xa0 + i) AND GetPhysicalAddressMask w = regs ! (0xa0 + i)"
    "regs ! (0xb0 + i) AND 0xFF = regs ! (0xb0 + i)" if "i < 16" for i
    using assms(2,4) that by (auto simp: cp_ok_def CPState_of_memory_def field_defs)
  have "map (\<lambda>i. regs ! (0xa0 + i) AND GetPhysicalAddressMask w) [0..<16] = map (\<lambda>i. regs ! (0xa0 + i)) [0..<16]"
    "map (\<lambda>i. regs ! (0xb0 + i) AND 0xFF) [0..<16] = map (\<lambda>i. regs ! (0xb0 + i)) [0..<16]"
    by (auto simp: m)
  with assms(1) show ?thesis
    by (simp add: LoadRegisters_cp_def field_defs fold_concat_map load_singles fold_vat_regs fold_array_regs
        assms(4) CPState_of_memory_def cp_ok_def comp_def CPState_default_def
        del: upt_rec_numeral)
qed

section \<open>Properties\<close>

text \<open>
  The bit fields of each vertex attribute group tile the 32-bit register: two register
  values with equal fields are equal, and assigning one field leaves the value of every other
  field of the group alone.
\<close>

theorem vat_fields_tile:
  assumes "grp \<in> {UVAT_group0, UVAT_group1, UVAT_group2}"
  shows "((\<forall>f\<in>set grp. get f w = get f w') \<longleftrightarrow> w = w') \<and>
    (\<forall>f\<in>set grp. \<forall>g\<in>set grp.
      get f (put g v w) = (if f = g then take_bit (snd f) v else get f w))"
proof -
  have t: "tiles grp 32" "\<forall>f\<in>set grp. 0 < snd f" using assms groups_tile groups_pos by auto
  have "get f (put g v w) = (if f = g then take_bit (snd f) v else get f w)"
    if "f \<in> set grp" "g \<in> set grp" for f g
    using that t tiles_fit [OF t(1)] tiles_disjoint [OF t(1), of f g] get_put get_put_other by simp
  with tiles_determine [OF t] show ?thesis by blast
qed

theorem vat_fields_tile_witness:
  "get Tex2Frac (put Tex3Frac 7 5) = get Tex2Frac 5 \<and> get Tex3Frac (put Tex3Frac 7 5) = take_bit 5 7"
proof -
  have "Tex2Frac \<in> set UVAT_group1" "Tex3Frac \<in> set UVAT_group1" by (simp_all add: UVAT_group1_def)
  with vat_fields_tile [of UVAT_group1 5 6 7] show ?thesis by (simp add: field_defs)
qed

text \<open>
  \<^verbatim>\<open>VAT::SetTexElements\<close>, \<^verbatim>\<open>SetTexFormat\<close> and \<^verbatim>\<open>SetTexFrac\<close> behave as three
  arrays of eight cells: writing all eight of one kind in a loop is read back by the getter of
  that kind, although the cells are scattered over the three registers (the fraction of texture
  coordinate 4 is in another register than its format).
\<close>

theorem vat_tex_accessors:
  assumes "length es = 8" "length fs = 8" "length rs = 8" "\<forall>r\<in>set rs. unat r < 32" "j < 8"
  shows "GetTexElements (fold (\<lambda>i. SetTexElements i (es ! i)) [0..<8] v) j = es ! j \<and>
    GetTexFormat (fold (\<lambda>i. SetTexFormat i (fs ! i)) [0..<8] v) j = fs ! j \<and>
    GetTexFrac (fold (\<lambda>i. SetTexFrac i (rs ! i)) [0..<8] v) j = rs ! j"
  using elements.assign_all [of es j v] formats.assign_all [of fs j v] fracs.assign_all [of rs j v] assms
  by simp

theorem vat_tex_accessors_witness:
  "GetTexElements (fold (\<lambda>i. SetTexElements i (replicate 8 Tex_ST ! i)) [0..<8] \<lparr>g0 = 1, g1 = 2, g2 = 3\<rparr>) 4 =
      replicate 8 Tex_ST ! 4 \<and>
    GetTexFormat (fold (\<lambda>i. SetTexFormat i (component_formats ! i)) [0..<8] \<lparr>g0 = 1, g1 = 2, g2 = 3\<rparr>) 4 =
      component_formats ! 4 \<and>
    GetTexFrac (fold (\<lambda>i. SetTexFrac i ([1, 2, 3, 4, 5, 6, 7, 31] ! i)) [0..<8] \<lparr>g0 = 1, g1 = 2, g2 = 3\<rparr>) 4 =
      [1, 2, 3, 4, 5, 6, 7, 31] ! 4"
  by (rule vat_tex_accessors) (simp_all add: component_formats_def)

text \<open>
  \<^verbatim>\<open>LoadCPReg\<close> never leaves the register format: the array sizes stay, every base
  stays inside the physical address mask of the console and every stride below 256, whatever
  command and value the game sends.
\<close>

theorem load_cp_reg_invariant:
  assumes "cp_ok is_wii s"
  shows "cp_ok is_wii (fold (\<lambda>(c, v) s. fst (LoadCPReg is_wii c v s)) cmds s)"
  using assms by (induction cmds arbitrary: s) (auto simp: LoadCPReg_ok)

theorem load_cp_reg_invariant_witness:
  "cp_ok False (fold (\<lambda>(c, v) s. fst (LoadCPReg False c v s)) [(0xa3, 0xFFFFFFFF), (0xbf, 0x123), (0x7f, 5)] CPState_default)"
  by (rule load_cp_reg_invariant) (rule CPState_default_ok)

text \<open>
  The memory image of a command processor state (\<^verbatim>\<open>FillCPMemoryArray\<close>) determines the
  state: the constructor \<^verbatim>\<open>CPState(memory)\<close> restores it, and so does sending, from any
  starting state, the register writes \<^verbatim>\<open>FifoPlayer::LoadRegisters\<close> makes of the image.
\<close>

theorem cp_state_round_trip:
  assumes "cp_ok is_wii s" "cp_ok is_wii t" "length memory = 256"
  shows "CPState_of_memory (FillCPMemoryArray s memory) = s \<and>
    fold (\<lambda>(r, v). load_at is_wii r v) (LoadRegisters_cp (FillCPMemoryArray s memory)) t = s"
proof -
  have "length (FillCPMemoryArray s memory) = 256"
    using assms(3) by (simp add: length_Fill)
  with CPState_round_trip [OF assms(1,3)] replay_memory [OF assms(2,1)] show ?thesis by simp
qed

theorem cp_state_round_trip_witness:
  "CPState_of_memory (FillCPMemoryArray CPState_default (replicate 256 7)) = CPState_default \<and>
    fold (\<lambda>(r, v). load_at True r v) (LoadRegisters_cp (FillCPMemoryArray CPState_default (replicate 256 7)))
      CPState_default = CPState_default"
  by (rule cp_state_round_trip) (simp_all add: CPState_default_ok)

end
