(* ===== verification/Vertex_Loader.thy ===== *)
theory Vertex_Loader
  imports CP_Memory Bit_Set
begin

text \<open>
  \<^verbatim>\<open>VideoCommon/VertexLoader_Position.h\<close>, \<^verbatim>\<open>_Normal.h\<close>, \<^verbatim>\<open>_Color.h\<close>,
  \<^verbatim>\<open>_TextCoord.h\<close> and \<^verbatim>\<open>VertexLoaderBase.h\<close>: how many bytes a vertex takes in
  the command stream and which components it has. The size tables are lists in the order of the enumerations, as in the
  source; a loader is the record of what its constructor computes.

  The theorems give the closed form of the tables, bound the size of a vertex and characterise
  the component bits.
\<close>

section \<open>Size tables\<close>

fun vcf_index :: "vertex_component_format \<Rightarrow> nat" where
  "vcf_index NotPresent = 0"
| "vcf_index Direct = 1"
| "vcf_index Index8 = 2"
| "vcf_index Index16 = 3"

definition fmt_index :: "component_format \<Rightarrow> nat" where
  "fmt_index f = unat (component_format_value f)"

definition position_table :: "(u32 \<times> u32) list list" where
  "position_table =
     [[(0, 0), (0, 0), (0, 0), (0, 0), (0, 0), (0, 0), (0, 0), (0, 0)],
      [(2, 3), (2, 3), (4, 6), (4, 6), (8, 12), (8, 12), (8, 12), (8, 12)],
      [(1, 1), (1, 1), (1, 1), (1, 1), (1, 1), (1, 1), (1, 1), (1, 1)],
      [(2, 2), (2, 2), (2, 2), (2, 2), (2, 2), (2, 2), (2, 2), (2, 2)]]"

definition Position_GetSize ::
  "vertex_component_format \<Rightarrow> component_format \<Rightarrow> coord_component_count \<Rightarrow> u32" where
  "Position_GetSize type format elements =
     (case elements of XY \<Rightarrow> fst | XYZ \<Rightarrow> snd) (position_table ! vcf_index type ! fmt_index format)"

definition normal_table :: "u32 list list list list" where
  "normal_table =
     [[[[0, 0, 0, 0, 0, 0, 0, 0],
          [0, 0, 0, 0, 0, 0, 0, 0]],
         [[0, 0, 0, 0, 0, 0, 0, 0],
          [0, 0, 0, 0, 0, 0, 0, 0]]],
      [[[3, 3, 6, 6, 12, 12, 12, 12],
          [9, 9, 18, 18, 36, 36, 36, 36]],
         [[3, 3, 6, 6, 12, 12, 12, 12],
          [9, 9, 18, 18, 36, 36, 36, 36]]],
      [[[1, 1, 1, 1, 1, 1, 1, 1],
          [1, 1, 1, 1, 1, 1, 1, 1]],
         [[1, 1, 1, 1, 1, 1, 1, 1],
          [3, 3, 3, 3, 3, 3, 3, 3]]],
      [[[2, 2, 2, 2, 2, 2, 2, 2],
          [2, 2, 2, 2, 2, 2, 2, 2]],
         [[2, 2, 2, 2, 2, 2, 2, 2],
          [6, 6, 6, 6, 6, 6, 6, 6]]]]"

definition Normal_GetSize ::
  "vertex_component_format \<Rightarrow> component_format \<Rightarrow> normal_component_count \<Rightarrow> bool \<Rightarrow> u32" where
  "Normal_GetSize type format elements index3 =
     normal_table ! vcf_index type ! (if index3 then 1 else 0) !
       (case elements of Nrm_N \<Rightarrow> 0 | Nrm_NTB \<Rightarrow> 1) ! fmt_index format"

text \<open>
  The colour table has no column for an invalid format: \<^verbatim>\<open>GetSize\<close> reports it and answers 0.
\<close>

definition color_table :: "u32 list list" where
  "color_table = [[0, 0, 0, 0, 0, 0], [2, 3, 4, 2, 3, 4], [1, 1, 1, 1, 1, 1], [2, 2, 2, 2, 2, 2]]"

fun color_index :: "color_format \<Rightarrow> nat option" where
  "color_index RGB565 = Some 0"
| "color_index RGB888 = Some 1"
| "color_index RGB888x = Some 2"
| "color_index RGBA4444 = Some 3"
| "color_index RGBA6666 = Some 4"
| "color_index RGBA8888 = Some 5"
| "color_index (InvalidColor _) = None"

definition Color_GetSize :: "vertex_component_format \<Rightarrow> color_format \<Rightarrow> u32" where
  "Color_GetSize type format =
     (case color_index format of None \<Rightarrow> 0 | Some i \<Rightarrow> color_table ! vcf_index type ! i)"

definition tex_coord_table :: "(u32 \<times> u32) list list" where
  "tex_coord_table =
     [[(0, 0), (0, 0), (0, 0), (0, 0), (0, 0), (0, 0), (0, 0), (0, 0)],
      [(1, 2), (1, 2), (2, 4), (2, 4), (4, 8), (4, 8), (4, 8), (4, 8)],
      [(1, 1), (1, 1), (1, 1), (1, 1), (1, 1), (1, 1), (1, 1), (1, 1)],
      [(2, 2), (2, 2), (2, 2), (2, 2), (2, 2), (2, 2), (2, 2), (2, 2)]]"

definition TextCoord_GetSize ::
  "vertex_component_format \<Rightarrow> component_format \<Rightarrow> tex_component_count \<Rightarrow> u32" where
  "TextCoord_GetSize type format elements =
     (case elements of Tex_S \<Rightarrow> fst | Tex_ST \<Rightarrow> snd) (tex_coord_table ! vcf_index type ! fmt_index format)"

section \<open>VertexLoaderBase\<close>

definition GetVertexSize :: "u32 \<Rightarrow> u32 \<Rightarrow> vat \<Rightarrow> u32" where
  "GetVertexSize low high attr =
     (let s0 = word_of_nat (popcount (low AND 0x1FF));
          s1 = s0 + Position_GetSize (VertexComponentFormat (get Position low))
                      (ComponentFormat (get PosFormat (g0 attr)))
                      (CoordComponentCount (get PosElements (g0 attr)));
          s2 = s1 + Normal_GetSize (VertexComponentFormat (get Normal low))
                      (ComponentFormat (get NormalFormat (g0 attr)))
                      (NormalComponentCount (get NormalElements (g0 attr)))
                      (get NormalIndex3 (g0 attr) \<noteq> 0);
          s3 = fold (\<lambda>i s. s + Color_GetSize (Color i low) (GetColorFormat attr i)) [0..<2] s2
      in fold (\<lambda>i s. s + TextCoord_GetSize (TexCoord i high) (GetTexFormat attr i) (GetTexElements attr i))
           [0..<8] s3)"

text \<open>The bits of the anonymous enumeration of \<^verbatim>\<open>NativeVertexFormat.h\<close>.\<close>

definition VB_HAS_POSMTXIDX :: u32 where "VB_HAS_POSMTXIDX = push_bit 1 1"
definition VB_HAS_TEXMTXIDX0 :: u32 where "VB_HAS_TEXMTXIDX0 = push_bit 2 1"
definition VB_HAS_NORMAL :: u32 where "VB_HAS_NORMAL = push_bit 10 1"
definition VB_HAS_TANGENT :: u32 where "VB_HAS_TANGENT = push_bit 11 1"
definition VB_HAS_BINORMAL :: u32 where "VB_HAS_BINORMAL = push_bit 12 1"
definition VB_HAS_COL0 :: u32 where "VB_HAS_COL0 = push_bit 13 1"
definition VB_HAS_UV0 :: u32 where "VB_HAS_UV0 = push_bit 15 1"

definition GetVertexComponents :: "u32 \<Rightarrow> u32 \<Rightarrow> vat \<Rightarrow> u32" where
  "GetVertexComponents low high attr =
     (let c0 = (if get PosMatIdx low \<noteq> 0 then VB_HAS_POSMTXIDX else 0);
          c1 = fold (\<lambda>i c. if TexMatIdx i low \<noteq> 0 then c OR push_bit i VB_HAS_TEXMTXIDX0 else c) [0..<8] c0;
          c2 = (if VertexComponentFormat (get Normal low) \<noteq> NotPresent
                then let c = c1 OR VB_HAS_NORMAL
                     in if NormalComponentCount (get NormalElements (g0 attr)) = Nrm_NTB
                        then c OR (VB_HAS_TANGENT OR VB_HAS_BINORMAL) else c
                else c1);
          c3 = fold (\<lambda>i c. if Color i low \<noteq> NotPresent then c OR push_bit i VB_HAS_COL0 else c) [0..<2] c2
      in fold (\<lambda>i c. if TexCoord i high \<noteq> NotPresent then c OR push_bit i VB_HAS_UV0 else c) [0..<8] c3)"

text \<open>\<^verbatim>\<open>VertexLoaderUID\<close>: the key of the loader cache, with its stored hash.\<close>

record vertex_loader_uid =
  vid :: "u32 list"
  hash :: u64

definition CalculateHash :: "u32 list \<Rightarrow> u64" where
  "CalculateHash ws = fold (\<lambda>word h. h * 137 + ucast word) ws (- 1)"

definition VertexLoaderUID :: "u32 \<Rightarrow> u32 \<Rightarrow> vat \<Rightarrow> vertex_loader_uid" where
  "VertexLoaderUID low high attr =
     (let v = [low, high, g0 attr, g1 attr, g2 attr] in \<lparr>vid = v, hash = CalculateHash v\<rparr>)"

definition uid_eq :: "vertex_loader_uid \<Rightarrow> vertex_loader_uid \<Rightarrow> bool" where
  "uid_eq a b \<longleftrightarrow> vid a = vid b"

text \<open>
  A vertex loader: the registers it was created for, and the two numbers its constructor
  computes from them. Which of the loader classes is created does not change these.
\<close>

record vertex_loader =
  m_low :: u32
  m_high :: u32
  m_VtxAttr :: vat
  m_vertex_size :: u32
  m_native_components :: u32

definition VertexLoaderBase :: "u32 \<Rightarrow> u32 \<Rightarrow> vat \<Rightarrow> vertex_loader" where
  "VertexLoaderBase low high attr =
     \<lparr>m_low = low, m_high = high, m_VtxAttr = attr,
      m_vertex_size = GetVertexSize low high attr,
      m_native_components = GetVertexComponents low high attr\<rparr>"

section \<open>Closed form of the tables\<close>

fun index_size :: "vertex_component_format \<Rightarrow> u32 \<Rightarrow> u32 \<Rightarrow> u32" where
  "index_size NotPresent direct indices = 0"
| "index_size Direct direct indices = direct"
| "index_size Index8 direct indices = indices"
| "index_size Index16 direct indices = 2 * indices"

lemma Position_size:
  "Position_GetSize t f e = index_size t ((case e of XY \<Rightarrow> 2 | XYZ \<Rightarrow> 3) * GetElementSize f) 1"
  by (cases t; cases f; cases e) (simp_all add: Position_GetSize_def position_table_def fmt_index_def)

lemma TextCoord_size:
  "TextCoord_GetSize t f e = index_size t ((case e of Tex_S \<Rightarrow> 1 | Tex_ST \<Rightarrow> 2) * GetElementSize f) 1"
  by (cases t; cases f; cases e) (simp_all add: TextCoord_GetSize_def tex_coord_table_def fmt_index_def)

lemma Normal_size:
  "Normal_GetSize t f e i3 =
     index_size t ((case e of Nrm_N \<Rightarrow> 3 | Nrm_NTB \<Rightarrow> 9) * GetElementSize f)
       (if i3 \<and> e = Nrm_NTB then 3 else 1)"
  by (cases t; cases f; cases e; cases i3) (simp_all add: Normal_GetSize_def normal_table_def fmt_index_def)

lemma component_size_bounds:
  "unat (Position_GetSize t f e) \<le> 12" "unat (TextCoord_GetSize t f e') \<le> 8"
  "unat (Normal_GetSize t f e'' i3) \<le> 36" "unat (Color_GetSize t cf) \<le> 4"
proof -
  show "unat (Position_GetSize t f e) \<le> 12" by (cases t; cases f; cases e) (simp_all add: Position_size)
  show "unat (TextCoord_GetSize t f e') \<le> 8" by (cases t; cases f; cases e') (simp_all add: TextCoord_size)
  show "unat (Normal_GetSize t f e'' i3) \<le> 36"
    by (cases t; cases f; cases e''; cases i3) (simp_all add: Normal_size)
  show "unat (Color_GetSize t cf) \<le> 4"
    by (cases t; cases cf) (simp_all add: Color_GetSize_def color_table_def)
qed

lemma unat_add_le: "unat ((a :: u32) + b) \<le> unat a + unat b"
  by (simp add: unat_word_ariths)

lemma unat_fold_add_le:
  assumes "\<forall>i\<in>set xs. unat (f i) \<le> k"
  shows "unat (fold (\<lambda>i s. s + (f i :: u32)) xs s) \<le> unat s + length xs * k"
  using assms
proof (induction xs arbitrary: s)
  case (Cons x xs)
  have "unat (fold (\<lambda>i s. s + f i) xs (s + f x)) \<le> unat (s + f x) + length xs * k"
    using Cons.prems by (intro Cons.IH) simp
  moreover have "unat (s + f x) \<le> unat s + k" using unat_add_le [of s "f x"] Cons.prems by simp
  ultimately show ?case by simp
qed simp

lemma popcount_low: "popcount (low AND 0x1FF :: u32) \<le> 9"
proof -
  have "bit (low AND 0x1FF) i \<Longrightarrow> i < 9" for i
  proof -
    have "(0x1FF :: u32) = mask 9" by (simp add: mask_eq_exp_minus_1)
    then show "bit (low AND 0x1FF) i \<Longrightarrow> i < 9" by (simp add: bit_simps)
  qed
  then have "set (filter (bit (low AND 0x1FF)) [0..<LENGTH(32)]) \<subseteq> {..<9}" by auto
  then have "card (set (filter (bit (low AND 0x1FF)) [0..<LENGTH(32)])) \<le> 9"
    using card_mono [of "{..<9::nat}"] by fastforce
  moreover have "card (set (filter (bit (low AND 0x1FF)) [0..<LENGTH(32)])) = popcount (low AND 0x1FF)"
    unfolding popcount_def by (rule distinct_card) simp
  ultimately show ?thesis by simp
qed

lemma GetVertexSize_bound: "unat (GetVertexSize low high attr) \<le> 129"
proof -
  let ?s0 = "word_of_nat (popcount (low AND 0x1FF)) :: u32"
  have s0: "unat ?s0 \<le> 9" using popcount_low [of low] by (simp add: unat_word_of_nat_less)
  define s1 where "s1 = ?s0 + Position_GetSize (VertexComponentFormat (get Position low))
      (ComponentFormat (get PosFormat (g0 attr))) (CoordComponentCount (get PosElements (g0 attr)))"
  define s2 where "s2 = s1 + Normal_GetSize (VertexComponentFormat (get Normal low))
      (ComponentFormat (get NormalFormat (g0 attr))) (NormalComponentCount (get NormalElements (g0 attr)))
      (get NormalIndex3 (g0 attr) \<noteq> 0)"
  define s3 where "s3 = fold (\<lambda>i s. s + Color_GetSize (Color i low) (GetColorFormat attr i)) [0..<2] s2"
  have step: "unat (a + b) \<le> m + n" if "unat a \<le> m" "unat b \<le> n" for a b :: u32 and m n
    using unat_add_le [of a b] that by linarith
  have "unat s1 \<le> 9 + 12" unfolding s1_def by (intro step s0 component_size_bounds(1))
  then have "unat s2 \<le> 9 + 12 + 36" unfolding s2_def by (intro step component_size_bounds(3))
  moreover have "unat s3 \<le> unat s2 + length [0..<2::nat] * 4"
    unfolding s3_def by (rule unat_fold_add_le) (simp add: component_size_bounds)
  moreover have "unat (GetVertexSize low high attr) \<le> unat s3 + length [0..<8::nat] * 8"
    unfolding GetVertexSize_def Let_def s3_def s2_def s1_def
    by (rule unat_fold_add_le) (simp add: component_size_bounds)
  ultimately show ?thesis by simp
qed

section \<open>The components\<close>

lemma bit_fold_or:
  assumes "k + n \<le> 32"
  shows "bit (fold (\<lambda>i c. if P i then c OR push_bit i (push_bit k 1) else c) [0..<n] (c :: u32)) j \<longleftrightarrow>
    bit c j \<or> (k \<le> j \<and> j < k + n \<and> P (j - k))"
  using assms
proof (induction n)
  case (Suc n)
  then show ?case by (auto simp: bit_simps less_Suc_eq)
qed auto

lemma bit_single: "bit (push_bit k (1 :: u32)) j \<longleftrightarrow> j = k \<and> k < 32"
  by (auto simp: bit_simps)

lemmas vb_defs = VB_HAS_POSMTXIDX_def VB_HAS_TEXMTXIDX0_def VB_HAS_NORMAL_def VB_HAS_TANGENT_def
  VB_HAS_BINORMAL_def VB_HAS_COL0_def VB_HAS_UV0_def

lemma bit_GetVertexComponents:
  "bit (GetVertexComponents low high attr) j \<longleftrightarrow>
     j = 1 \<and> get PosMatIdx low \<noteq> 0 \<or>
     2 \<le> j \<and> j < 10 \<and> TexMatIdx (j - 2) low \<noteq> 0 \<or>
     j = 10 \<and> VertexComponentFormat (get Normal low) \<noteq> NotPresent \<or>
     (j = 11 \<or> j = 12) \<and> VertexComponentFormat (get Normal low) \<noteq> NotPresent \<and>
       NormalComponentCount (get NormalElements (g0 attr)) = Nrm_NTB \<or>
     13 \<le> j \<and> j < 15 \<and> Color (j - 13) low \<noteq> NotPresent \<or>
     15 \<le> j \<and> j < 23 \<and> TexCoord (j - 15) high \<noteq> NotPresent"
proof -
  define c0 :: u32 where "c0 = (if get PosMatIdx low \<noteq> 0 then VB_HAS_POSMTXIDX else 0)"
  define c1 where
    "c1 = fold (\<lambda>i c. if TexMatIdx i low \<noteq> 0 then c OR push_bit i VB_HAS_TEXMTXIDX0 else c) [0..<8] c0"
  define c2 where "c2 = (if VertexComponentFormat (get Normal low) \<noteq> NotPresent
      then let c = c1 OR VB_HAS_NORMAL
           in if NormalComponentCount (get NormalElements (g0 attr)) = Nrm_NTB
              then c OR (VB_HAS_TANGENT OR VB_HAS_BINORMAL) else c
      else c1)"
  define c3 where
    "c3 = fold (\<lambda>i c. if Color i low \<noteq> NotPresent then c OR push_bit i VB_HAS_COL0 else c) [0..<2] c2"
  have "bit c0 j \<longleftrightarrow> j = 1 \<and> get PosMatIdx low \<noteq> 0"
    using bit_single [of 1 j] by (simp add: c0_def vb_defs del: push_bit_of_1)
  moreover have "bit c1 j \<longleftrightarrow> bit c0 j \<or> 2 \<le> j \<and> j < 2 + 8 \<and> TexMatIdx (j - 2) low \<noteq> 0"
    unfolding c1_def vb_defs by (rule bit_fold_or) simp
  moreover have "bit c2 j \<longleftrightarrow> bit c1 j \<or> j = 10 \<and> VertexComponentFormat (get Normal low) \<noteq> NotPresent \<or>
     (j = 11 \<or> j = 12) \<and> VertexComponentFormat (get Normal low) \<noteq> NotPresent \<and>
       NormalComponentCount (get NormalElements (g0 attr)) = Nrm_NTB"
    unfolding c2_def vb_defs Let_def by (simp add: bit_or_iff bit_single del: push_bit_of_1)
  moreover have "bit c3 j \<longleftrightarrow> bit c2 j \<or> 13 \<le> j \<and> j < 13 + 2 \<and> Color (j - 13) low \<noteq> NotPresent"
    unfolding c3_def vb_defs by (rule bit_fold_or) simp
  moreover have "bit (GetVertexComponents low high attr) j \<longleftrightarrow>
      bit c3 j \<or> 15 \<le> j \<and> j < 15 + 8 \<and> TexCoord (j - 15) high \<noteq> NotPresent"
    unfolding GetVertexComponents_def c3_def c2_def c1_def c0_def VB_HAS_UV0_def Let_def
    by (rule bit_fold_or) simp
  ultimately show ?thesis by simp
qed

section \<open>Properties\<close>

text \<open>
  The size tables of the vertex loaders are what the formats say: a direct component takes
  its element count times its element size, an indexed one one or two bytes per index, three
  indices only for a normal with tangent and binormal and \<^verbatim>\<open>NormalIndex3\<close>.
\<close>

theorem vertex_size_tables:
  "Position_GetSize t f e = index_size t ((case e of XY \<Rightarrow> 2 | XYZ \<Rightarrow> 3) * GetElementSize f) 1 \<and>
   TextCoord_GetSize t f e' = index_size t ((case e' of Tex_S \<Rightarrow> 1 | Tex_ST \<Rightarrow> 2) * GetElementSize f) 1 \<and>
   Normal_GetSize t f e'' i3 =
     index_size t ((case e'' of Nrm_N \<Rightarrow> 3 | Nrm_NTB \<Rightarrow> 9) * GetElementSize f)
       (if i3 \<and> e'' = Nrm_NTB then 3 else 1)"
  using Position_size TextCoord_size Normal_size by blast

text \<open>
  A vertex never takes more than 129 bytes, so the product with a 16-bit vertex count and
  the three bytes of the command header stay far below \<open>2^32\<close>: the size computation of a
  primitive command cannot wrap around.
\<close>

theorem vertex_size_bound:
  "unat (GetVertexSize low high attr) \<le> 129 \<and>
   unat (3 + ucast (n :: u16) * GetVertexSize low high attr :: u32) =
     3 + unat n * unat (GetVertexSize low high attr)"
proof -
  let ?v = "GetVertexSize low high attr"
  have v: "unat ?v \<le> 129" by (rule GetVertexSize_bound)
  have n: "unat n < 2 ^ 16" using unat_less [of n] by simp
  have "unat n * unat ?v \<le> 65535 * 129" using v n by (intro mult_le_mono) auto
  moreover have "unat (ucast n :: u32) = unat n" using n by (simp add: unsigned_ucast_eq take_bit_nat_eq_self)
  ultimately have "unat (ucast n * ?v) = unat n * unat ?v" by (simp add: unat_mult_lem [THEN iffD1])
  with v \<open>unat n * unat ?v \<le> 65535 * 129\<close> show ?thesis
    by (simp add: unat_add_lem [THEN iffD1])
qed

text \<open>
  \<^verbatim>\<open>GetVertexComponents\<close> sets exactly the bits of the components that are present:
  the matrix indices, the normal with tangent and binormal, the colours and the texture
  coordinates, and no other bit.
\<close>

theorem vertex_components_bits:
  "bit (GetVertexComponents low high attr) j \<longleftrightarrow>
     j = 1 \<and> get PosMatIdx low \<noteq> 0 \<or>
     2 \<le> j \<and> j < 10 \<and> TexMatIdx (j - 2) low \<noteq> 0 \<or>
     j = 10 \<and> VertexComponentFormat (get Normal low) \<noteq> NotPresent \<or>
     (j = 11 \<or> j = 12) \<and> VertexComponentFormat (get Normal low) \<noteq> NotPresent \<and>
       NormalComponentCount (get NormalElements (g0 attr)) = Nrm_NTB \<or>
     13 \<le> j \<and> j < 15 \<and> Color (j - 13) low \<noteq> NotPresent \<or>
     15 \<le> j \<and> j < 23 \<and> TexCoord (j - 15) high \<noteq> NotPresent"
  by (rule bit_GetVertexComponents)

end
