(* ===== verification/Vertex_Manager.thy ===== *)
theory Vertex_Manager
  imports Vertex_Loader
begin

text \<open>
  \<^verbatim>\<open>VideoCommon/VertexLoaderManager.{h,cpp}\<close> and the handler \<^verbatim>\<open>OnCP\<close> of
  \<^verbatim>\<open>VideoCommon/OpcodeDecoding.cpp\<close>: the dirty bits of the eight attribute groups, the cache
  of vertex loaders, and the cached pointers to the vertex arrays.

  The theorems show that in every state reachable by register loads and refreshes the cached
  loader is the loader for the current registers, and that a refresh leaves the array pointers
  those of the current registers.
\<close>

section \<open>State\<close>

text \<open>
  What the code runs in: which of the two instances of the templates (main or preprocess), the
  console, and emulated memory as \<^verbatim>\<open>MemoryManager::GetPointerForRange\<close> shows it: the bytes of
  a range, or \<^term>\<open>None\<close> for its null pointer.
\<close>

record video_env =
  is_preprocess :: bool
  is_wii :: bool
  GetPointerForRange :: "u32 \<Rightarrow> u32 \<Rightarrow> u8 list option"

text \<open>
  The state of one instance: the registers, the dirty bits of the attribute groups, the loader
  of each group, the map of all loaders (an association list keyed by the unique id; the
  source shares it between both instances under a lock, so a lookup may find entries of the
  other), and, of the main instance, the flags and the array pointers, each given by the
  emulated address it was taken for.
\<close>

record loader_state =
  cp :: cp_state
  vat_dirty :: u8
  vertex_loaders :: "vertex_loader option list"
  vertex_loader_map :: "(vertex_loader_uid \<times> vertex_loader) list"
  g_bases_dirty :: bool
  g_needs_cp_xf_consistency_check :: bool
  cached_arraybases :: "u32 option list"

section \<open>Operations\<close>

definition MarkAllDirty :: "loader_state \<Rightarrow> loader_state" where
  "MarkAllDirty s =
     s\<lparr>g_bases_dirty := True, vat_dirty := AllTrue 8, g_needs_cp_xf_consistency_check := True\<rparr>"

definition loader_init :: "loader_state \<Rightarrow> loader_state" where
  "loader_init s = (MarkAllDirty s)\<lparr>vertex_loaders := replicate CP_NUM_VAT_REG None\<rparr>"

definition loader_clear :: "loader_state \<Rightarrow> loader_state" where
  "loader_clear s = s\<lparr>vertex_loader_map := []\<rparr>"

text \<open>The formats of the twelve vertex arrays, in the order of \<^verbatim>\<open>CPArray\<close>.\<close>

definition array_format :: "cp_state \<Rightarrow> nat \<Rightarrow> vertex_component_format" where
  "array_format c i =
     (if i = 0 then VertexComponentFormat (get Position (vtx_desc_low c))
      else if i = 1 then VertexComponentFormat (get Normal (vtx_desc_low c))
      else if i < 4 then Color (i - 2) (vtx_desc_low c)
      else TexCoord (i - 4) (vtx_desc_high c))"

definition update_base :: "video_env \<Rightarrow> cp_state \<Rightarrow> nat \<Rightarrow> u32 option list \<Rightarrow> u32 option list" where
  "update_base env c i bases =
     (if IsIndexed (array_format c i) \<and> GetPointerForRange env (array_bases c ! i) 4 \<noteq> None
      then bases[i := Some (array_bases c ! i)] else bases)"

definition UpdateVertexArrayPointers :: "video_env \<Rightarrow> loader_state \<Rightarrow> loader_state" where
  "UpdateVertexArrayPointers env s =
     (if \<not> g_bases_dirty s then s
      else s\<lparr>cached_arraybases := fold (update_base env (cp s)) [0..<12] (cached_arraybases s),
             g_bases_dirty := False\<rparr>)"

definition find_loader ::
  "(vertex_loader_uid \<times> vertex_loader) list \<Rightarrow> vertex_loader_uid \<Rightarrow> vertex_loader option" where
  "find_loader m uid = map_option snd (find (\<lambda>e. uid_eq (fst e) uid) m)"

definition GetOrCreateLoader :: "nat \<Rightarrow> loader_state \<Rightarrow> vertex_loader \<times> loader_state" where
  "GetOrCreateLoader grp s =
     (let low = vtx_desc_low (cp s); high = vtx_desc_high (cp s); attr = vtx_attr (cp s) ! grp;
          uid = VertexLoaderUID low high attr;
          (loader, m) = (case find_loader (vertex_loader_map s) uid of
                           Some l \<Rightarrow> (l, vertex_loader_map s)
                         | None \<Rightarrow> let l = VertexLoaderBase low high attr
                                   in (l, (uid, l) # vertex_loader_map s))
      in (loader, s\<lparr>vertex_loader_map := m,
                    vertex_loaders := (vertex_loaders s)[grp := Some loader],
                    vat_dirty := bs_assign (vat_dirty s) grp False\<rparr>))"

text \<open>The result is the pointer; \<^term>\<open>None\<close> stands for the null pointer \<^verbatim>\<open>Init\<close> stores.\<close>

definition RefreshLoader :: "video_env \<Rightarrow> nat \<Rightarrow> loader_state \<Rightarrow> vertex_loader option \<times> loader_state" where
  "RefreshLoader env grp s =
     (let (loader, s1) = (if \<not> bs_index (vat_dirty s) grp then (vertex_loaders s ! grp, s)
                          else apfst Some (GetOrCreateLoader grp s))
      in (loader, if \<not> is_preprocess env then UpdateVertexArrayPointers env s1 else s1))"

text \<open>
  \<^verbatim>\<open>RunCallback::OnCP\<close>, with the flags of the main instance, then the register itself. The
  notification of \<^verbatim>\<open>XFStateManager\<close>, the statistics and the cycle count are left out.
\<close>

definition OnCP :: "video_env \<Rightarrow> u8 \<Rightarrow> u32 \<Rightarrow> loader_state \<Rightarrow> loader_state" where
  "OnCP env command value s =
     (let sub_command = unat command AND CP_COMMAND_MASK;
          vcd = (sub_command = VCD_LO \<or> sub_command = VCD_HI);
          vat_reg = (sub_command = CP_VAT_REG_A \<or> sub_command = CP_VAT_REG_B \<or> sub_command = CP_VAT_REG_C);
          vat_bit = bs_assign (vat_dirty s) (unat command AND CP_VAT_MASK) True;
          s1 = (if \<not> is_preprocess env
                then if sub_command = MATINDEX_A then s\<lparr>g_needs_cp_xf_consistency_check := True\<rparr>
                     else if sub_command = MATINDEX_B then s\<lparr>g_needs_cp_xf_consistency_check := True\<rparr>
                     else if vcd
                     then s\<lparr>vat_dirty := AllTrue CP_NUM_VAT_REG, g_bases_dirty := True,
                            g_needs_cp_xf_consistency_check := True\<rparr>
                     else if vat_reg
                     then s\<lparr>vat_dirty := vat_bit, g_needs_cp_xf_consistency_check := True\<rparr>
                     else if sub_command = ARRAY_BASE then s\<lparr>g_bases_dirty := True\<rparr>
                     else s
                else if vcd then s\<lparr>vat_dirty := AllTrue CP_NUM_VAT_REG\<rparr>
                else if vat_reg then s\<lparr>vat_dirty := vat_bit\<rparr>
                else s)
      in s1\<lparr>cp := fst (LoadCPReg (is_wii env) command value (cp s1))\<rparr>)"

text \<open>
  The part of \<^verbatim>\<open>RunVertices\<close> that concerns this state: nothing for no vertices, else the
  loader is refreshed and, in the main instance, the pending check of the configuration is
  made. The result is the number of bytes.
\<close>

definition RunVertices :: "video_env \<Rightarrow> nat \<Rightarrow> u16 \<Rightarrow> loader_state \<Rightarrow> u32 \<times> loader_state" where
  "RunVertices env grp n s =
     (if n = 0 then (0, s)
      else let (loader, s1) = RefreshLoader env grp s
           in (ucast n * (case loader of Some l \<Rightarrow> m_vertex_size l | None \<Rightarrow> 0),
               if \<not> is_preprocess env then s1\<lparr>g_needs_cp_xf_consistency_check := False\<rparr> else s1))"

section \<open>Coherence of the loader cache\<close>

definition fresh_loader :: "cp_state \<Rightarrow> nat \<Rightarrow> vertex_loader" where
  "fresh_loader s grp = VertexLoaderBase (vtx_desc_low s) (vtx_desc_high s) (vtx_attr s ! grp)"

definition entry_ok :: "vertex_loader_uid \<times> vertex_loader \<Rightarrow> bool" where
  "entry_ok e \<longleftrightarrow>
     fst e = VertexLoaderUID (m_low (snd e)) (m_high (snd e)) (m_VtxAttr (snd e)) \<and>
     snd e = VertexLoaderBase (m_low (snd e)) (m_high (snd e)) (m_VtxAttr (snd e))"

definition loaders_ok :: "loader_state \<Rightarrow> bool" where
  "loaders_ok s \<longleftrightarrow>
     length (vertex_loaders s) = 8 \<and> length (vtx_attr (cp s)) = 8 \<and>
     (\<forall>e\<in>set (vertex_loader_map s). entry_ok e) \<and>
     (\<forall>grp<8. \<not> bit (vat_dirty s) grp \<longrightarrow> vertex_loaders s ! grp = Some (fresh_loader (cp s) grp))"

text \<open>The array pointers are current unless marked dirty.\<close>

definition base_current :: "video_env \<Rightarrow> loader_state \<Rightarrow> nat \<Rightarrow> bool" where
  "base_current env s i \<longleftrightarrow>
     (IsIndexed (array_format (cp s) i) \<and> GetPointerForRange env (array_bases (cp s) ! i) 4 \<noteq> None \<longrightarrow>
      cached_arraybases s ! i = Some (array_bases (cp s) ! i))"

definition bases_ok :: "video_env \<Rightarrow> loader_state \<Rightarrow> bool" where
  "bases_ok env s \<longleftrightarrow> length (cached_arraybases s) = 12 \<and>
     (\<not> is_preprocess env \<and> \<not> g_bases_dirty s \<longrightarrow> (\<forall>i<12. base_current env s i))"

lemma uid_inject:
  "uid_eq (VertexLoaderUID l h a) (VertexLoaderUID l' h' a') \<longleftrightarrow> l = l' \<and> h = h' \<and> a = a'"
  by (cases a; cases a') (auto simp: uid_eq_def VertexLoaderUID_def Let_def)

lemma find_loader_ok:
  assumes "\<forall>e\<in>set m. entry_ok e" "find_loader m (VertexLoaderUID l h a) = Some ld"
  shows "ld = VertexLoaderBase l h a"
proof -
  obtain e where e: "find (\<lambda>e. uid_eq (fst e) (VertexLoaderUID l h a)) m = Some e" "ld = snd e"
    using assms(2) by (auto simp: find_loader_def)
  then have "e \<in> set m" "uid_eq (fst e) (VertexLoaderUID l h a)" by (auto simp: find_Some_iff)
  with assms(1) e(2) show ?thesis by (metis entry_ok_def uid_inject)
qed

lemma GetOrCreateLoader_ok:
  assumes "loaders_ok s" "grp < 8"
  shows "fst (GetOrCreateLoader grp s) = fresh_loader (cp s) grp \<and>
    loaders_ok (snd (GetOrCreateLoader grp s)) \<and> \<not> bit (vat_dirty (snd (GetOrCreateLoader grp s))) grp"
proof -
  let ?l = "vtx_desc_low (cp s)" and ?h = "vtx_desc_high (cp s)" and ?a = "vtx_attr (cp s) ! grp"
  have new: "entry_ok (VertexLoaderUID ?l ?h ?a, VertexLoaderBase ?l ?h ?a)"
    by (simp add: entry_ok_def VertexLoaderBase_def)
  have dirty: "bit (bs_assign d grp False) g \<longleftrightarrow> bit d g \<and> g \<noteq> grp" for d :: u8 and g
    using bits.assign_law [of grp d False] assms(2) by (auto simp: bs_set_def set_eq_iff)
  show ?thesis
    using assms new find_loader_ok [of "vertex_loader_map s" ?l ?h ?a]
    by (cases "find_loader (vertex_loader_map s) (VertexLoaderUID ?l ?h ?a)")
       (auto simp: GetOrCreateLoader_def Let_def loaders_ok_def dirty fresh_loader_def nth_list_update)
qed

lemma GetOrCreateLoader_frame:
  "cp (snd (GetOrCreateLoader grp s)) = cp s"
  "g_bases_dirty (snd (GetOrCreateLoader grp s)) = g_bases_dirty s"
  "cached_arraybases (snd (GetOrCreateLoader grp s)) = cached_arraybases s"
  by (simp_all add: GetOrCreateLoader_def Let_def split: prod.splits)

text \<open>The array pointers.\<close>

lemma fold_update_base:
  assumes "n \<le> length bases"
  shows "length (fold (update_base env c) [0..<n] bases) = length bases \<and>
    (i < n \<longrightarrow> IsIndexed (array_format c i) \<and> GetPointerForRange env (array_bases c ! i) 4 \<noteq> None \<longrightarrow>
       fold (update_base env c) [0..<n] bases ! i = Some (array_bases c ! i))"
  using assms
proof (induction n)
  case (Suc n)
  then show ?case by (auto simp: update_base_def nth_list_update less_Suc_eq)
qed simp

lemma UpdateVertexArrayPointers_frame:
  "cp (UpdateVertexArrayPointers env s) = cp s"
  "loaders_ok (UpdateVertexArrayPointers env s) = loaders_ok s"
  "vat_dirty (UpdateVertexArrayPointers env s) = vat_dirty s"
  "vertex_loaders (UpdateVertexArrayPointers env s) = vertex_loaders s"
  "\<not> g_bases_dirty (UpdateVertexArrayPointers env s)"
  by (simp_all add: UpdateVertexArrayPointers_def loaders_ok_def)

lemma UpdateVertexArrayPointers_ok:
  assumes "bases_ok env s" "\<not> is_preprocess env"
  shows "bases_ok env (UpdateVertexArrayPointers env s)"
    and "i < 12 \<Longrightarrow> base_current env (UpdateVertexArrayPointers env s) i"
proof -
  show "bases_ok env (UpdateVertexArrayPointers env s)"
    using assms fold_update_base [of 12 "cached_arraybases s" env "cp s"]
    by (auto simp: bases_ok_def UpdateVertexArrayPointers_def base_current_def)
  then show "i < 12 \<Longrightarrow> base_current env (UpdateVertexArrayPointers env s) i"
    using assms(2) UpdateVertexArrayPointers_frame(5) [of env s] by (simp add: bases_ok_def)
qed

lemma UpdateVertexArrayPointers_idem:
  "UpdateVertexArrayPointers env (UpdateVertexArrayPointers env s) = UpdateVertexArrayPointers env s"
  by (simp add: UpdateVertexArrayPointers_def)

text \<open>The invariant of the whole state, and the refresh.\<close>

definition manager_ok :: "video_env \<Rightarrow> loader_state \<Rightarrow> bool" where
  "manager_ok env s \<longleftrightarrow> loaders_ok s \<and> bases_ok env s"

lemma GetOrCreateLoader_bases: "bases_ok env s \<Longrightarrow> bases_ok env (snd (GetOrCreateLoader grp s))"
  by (simp add: bases_ok_def base_current_def GetOrCreateLoader_frame)

lemma RefreshLoader_ok:
  assumes "manager_ok env s" "grp < 8"
  shows "fst (RefreshLoader env grp s) = Some (fresh_loader (cp s) grp)"
    and "manager_ok env (snd (RefreshLoader env grp s))"
    and "cp (snd (RefreshLoader env grp s)) = cp s"
    and "\<not> bit (vat_dirty (snd (RefreshLoader env grp s))) grp"
    and "\<not> is_preprocess env \<Longrightarrow> \<not> g_bases_dirty (snd (RefreshLoader env grp s))"
    and "\<not> is_preprocess env \<Longrightarrow> i < 12 \<Longrightarrow> base_current env (snd (RefreshLoader env grp s)) i"
proof -
  have ok: "loaders_ok s" "bases_ok env s" using assms(1) by (simp_all add: manager_ok_def)
  define s1 where "s1 = (if \<not> bs_index (vat_dirty s) grp then s else snd (GetOrCreateLoader grp s))"
  have s1: "loaders_ok s1" "bases_ok env s1" "cp s1 = cp s" "\<not> bit (vat_dirty s1) grp"
    using ok GetOrCreateLoader_ok [OF ok(1) assms(2)] assms(2)
    by (auto simp: s1_def GetOrCreateLoader_frame GetOrCreateLoader_bases bs_index_bit [of grp "vat_dirty s"])
  have r: "RefreshLoader env grp s = (Some (fresh_loader (cp s) grp),
      if \<not> is_preprocess env then UpdateVertexArrayPointers env s1 else s1)"
    using ok assms(2) GetOrCreateLoader_ok [OF ok(1) assms(2)] bs_index_bit [of grp "vat_dirty s"]
    by (auto simp: RefreshLoader_def Let_def s1_def loaders_ok_def case_prod_beta)
  note frame = UpdateVertexArrayPointers_frame and upd = UpdateVertexArrayPointers_ok [OF s1(2)]
  show "fst (RefreshLoader env grp s) = Some (fresh_loader (cp s) grp)" by (simp add: r)
  show "manager_ok env (snd (RefreshLoader env grp s))"
    using s1 upd by (simp add: r manager_ok_def frame)
  show "cp (snd (RefreshLoader env grp s)) = cp s" "\<not> bit (vat_dirty (snd (RefreshLoader env grp s))) grp"
    using s1 by (simp_all add: r frame)
  show "\<not> is_preprocess env \<Longrightarrow> \<not> g_bases_dirty (snd (RefreshLoader env grp s))"
    by (simp add: r frame)
  show "\<not> is_preprocess env \<Longrightarrow> i < 12 \<Longrightarrow> base_current env (snd (RefreshLoader env grp s)) i"
    using upd by (simp add: r)
qed

text \<open>A second refresh of the same group changes nothing.\<close>

lemma RefreshLoader_idem:
  assumes "manager_ok env s" "grp < 8"
  shows "RefreshLoader env grp (snd (RefreshLoader env grp s)) = RefreshLoader env grp s"
proof -
  let ?t = "snd (RefreshLoader env grp s)"
  note ok = RefreshLoader_ok [OF assms]
  have "UpdateVertexArrayPointers env ?t = ?t" if "\<not> is_preprocess env"
    using ok(5) [OF that] by (simp add: UpdateVertexArrayPointers_def)
  moreover have "\<not> bs_index (vat_dirty ?t) grp" using ok(4) assms(2) by (simp add: bs_index_bit)
  ultimately have "snd (RefreshLoader env grp ?t) = ?t"
    by (simp add: RefreshLoader_def [of env grp ?t] Let_def)
  moreover have "fst (RefreshLoader env grp ?t) = fst (RefreshLoader env grp s)"
    using RefreshLoader_ok(1) [OF ok(2) assms(2)] ok(1,3) by simp
  ultimately show ?thesis by (simp add: prod_eq_iff)
qed

text \<open>Which registers a CP command changes.\<close>

lemma LoadCPReg_vtx:
  fixes command :: u8
  defines "sub \<equiv> unat command AND CP_COMMAND_MASK"
  assumes "sub \<noteq> VCD_LO" "sub \<noteq> VCD_HI"
    and "grp < length (vtx_attr s)"
    and "(sub = CP_VAT_REG_A \<or> sub = CP_VAT_REG_B \<or> sub = CP_VAT_REG_C) \<Longrightarrow> grp \<noteq> unat command AND CP_VAT_MASK"
  shows "fresh_loader (fst (LoadCPReg w command value s)) grp = fresh_loader s grp"
  using assms(2-) unfolding sub_def
  by (auto simp: LoadCPReg_def Let_def fresh_loader_def nth_list_update)

lemma LoadCPReg_bases:
  fixes command :: u8
  defines "sub \<equiv> unat command AND CP_COMMAND_MASK"
  assumes "sub \<noteq> VCD_LO" "sub \<noteq> VCD_HI" "sub \<noteq> ARRAY_BASE"
  shows "array_bases (fst (LoadCPReg w command value s)) = array_bases s"
    and "array_format (fst (LoadCPReg w command value s)) = array_format s"
proof -
  show "array_bases (fst (LoadCPReg w command value s)) = array_bases s"
    using assms(2-) unfolding sub_def LoadCPReg_def Let_def by simp
  have "vtx_desc_low (fst (LoadCPReg w command value s)) = vtx_desc_low s"
    "vtx_desc_high (fst (LoadCPReg w command value s)) = vtx_desc_high s"
    using assms(2-) unfolding sub_def LoadCPReg_def Let_def by simp_all
  then show "array_format (fst (LoadCPReg w command value s)) = array_format s"
    by (simp add: fun_eq_iff array_format_def)
qed

lemma LoadCPReg_length: "length (vtx_attr (fst (LoadCPReg w c v s))) = length (vtx_attr s)"
  by (simp add: LoadCPReg_def Let_def)

lemma cp_codes_distinct:
  "MATINDEX_A \<noteq> VCD_LO" "MATINDEX_A \<noteq> VCD_HI" "MATINDEX_B \<noteq> VCD_LO" "MATINDEX_B \<noteq> VCD_HI"
  "MATINDEX_A \<noteq> CP_VAT_REG_A" "MATINDEX_A \<noteq> CP_VAT_REG_B" "MATINDEX_A \<noteq> CP_VAT_REG_C"
  "MATINDEX_B \<noteq> CP_VAT_REG_A" "MATINDEX_B \<noteq> CP_VAT_REG_B" "MATINDEX_B \<noteq> CP_VAT_REG_C"
  "MATINDEX_A \<noteq> ARRAY_BASE" "MATINDEX_B \<noteq> ARRAY_BASE"
  "CP_VAT_REG_A \<noteq> ARRAY_BASE" "CP_VAT_REG_B \<noteq> ARRAY_BASE" "CP_VAT_REG_C \<noteq> ARRAY_BASE"
  by (simp_all add: field_defs)

lemma OnCP_fields:
  fixes command :: u8
  defines "sub \<equiv> unat command AND CP_COMMAND_MASK"
  shows "cp (OnCP env command value s) = fst (LoadCPReg (is_wii env) command value (cp s))"
    and "vertex_loaders (OnCP env command value s) = vertex_loaders s"
    and "vertex_loader_map (OnCP env command value s) = vertex_loader_map s"
    and "cached_arraybases (OnCP env command value s) = cached_arraybases s"
    and "vat_dirty (OnCP env command value s) =
      (if sub = VCD_LO \<or> sub = VCD_HI then AllTrue CP_NUM_VAT_REG
       else if sub = CP_VAT_REG_A \<or> sub = CP_VAT_REG_B \<or> sub = CP_VAT_REG_C
       then bs_assign (vat_dirty s) (unat command AND CP_VAT_MASK) True else vat_dirty s)"
    and "\<not> is_preprocess env \<Longrightarrow> g_bases_dirty (OnCP env command value s) \<longleftrightarrow>
      g_bases_dirty s \<or> sub = VCD_LO \<or> sub = VCD_HI \<or> sub = ARRAY_BASE"
  unfolding sub_def using cp_codes_distinct
  by (auto simp: OnCP_def Let_def)

lemma OnCP_loaders_ok:
  assumes "loaders_ok s"
  shows "loaders_ok (OnCP env command value s)"
proof -
  let ?k = "unat command AND CP_VAT_MASK" and ?sub = "unat command AND CP_COMMAND_MASK"
  let ?vat = "?sub = CP_VAT_REG_A \<or> ?sub = CP_VAT_REG_B \<or> ?sub = CP_VAT_REG_C"
  define d where "d = vat_dirty (OnCP env command value s)"
  have k: "?k < 8" by (simp add: field_defs nat_and_7)
  have d: "bit d g \<longleftrightarrow> ?sub = VCD_LO \<or> ?sub = VCD_HI \<or> bit (vat_dirty s) g \<or> ?vat \<and> g = ?k" if "g < 8" for g
    using that k bits.assign_law [of ?k "vat_dirty s" True] AllTrue_set [of 8, where 'a = 8]
    unfolding d_def OnCP_fields(5) by (auto simp: bs_set_def set_eq_iff CP_NUM_VAT_REG_def)
  have "vertex_loaders s ! g = Some (fresh_loader (cp (OnCP env command value s)) g)"
    if "g < 8" "\<not> bit d g" for g
  proof -
    have "fresh_loader (fst (LoadCPReg (is_wii env) command value (cp s))) g = fresh_loader (cp s) g"
      using that d assms by (intro LoadCPReg_vtx) (auto simp: loaders_ok_def)
    moreover have "\<not> bit (vat_dirty s) g" using that d by blast
    ultimately show ?thesis using assms that by (simp add: OnCP_fields loaders_ok_def)
  qed
  then show ?thesis
    using assms unfolding loaders_ok_def d_def [symmetric] OnCP_fields(1-3) by (simp add: LoadCPReg_length)
qed

lemma OnCP_ok: "manager_ok env s \<Longrightarrow> manager_ok env (OnCP env command value s)"
  using OnCP_loaders_ok [of s env command "value"]
  by (auto simp: manager_ok_def bases_ok_def base_current_def OnCP_fields LoadCPReg_bases)

lemma RunVertices_ok:
  assumes "manager_ok env s" "grp < 8"
  shows "manager_ok env (snd (RunVertices env grp n s))"
proof -
  have "manager_ok env (t\<lparr>g_needs_cp_xf_consistency_check := b\<rparr>) = manager_ok env t" for t b
    by (simp add: manager_ok_def loaders_ok_def bases_ok_def base_current_def)
  with RefreshLoader_ok(2) [OF assms] assms(1) show ?thesis
    by (auto simp: RunVertices_def Let_def split: prod.splits)
qed

text \<open>
  The states the decoder can reach: from any registers after \<^verbatim>\<open>Init\<close> with an empty map, by
  CP commands, loader refreshes, draws and \<^verbatim>\<open>MarkAllDirty\<close> in any order.
\<close>

inductive loader_reachable :: "video_env \<Rightarrow> loader_state \<Rightarrow> bool" for env where
  init: "length (vtx_attr (cp s)) = 8 \<Longrightarrow> length (cached_arraybases s) = 12 \<Longrightarrow>
    loader_reachable env (loader_init (loader_clear s))"
| cp_command: "loader_reachable env s \<Longrightarrow> loader_reachable env (OnCP env command value s)"
| refresh: "loader_reachable env s \<Longrightarrow> grp < 8 \<Longrightarrow> loader_reachable env (snd (RefreshLoader env grp s))"
| draw: "loader_reachable env s \<Longrightarrow> grp < 8 \<Longrightarrow> loader_reachable env (snd (RunVertices env grp n s))"
| dirty: "loader_reachable env s \<Longrightarrow> loader_reachable env (MarkAllDirty s)"

lemma all_dirty: "g < 8 \<Longrightarrow> bit (AllTrue 8 :: u8) g"
  using AllTrue_set [of 8, where 'a = 8] by (auto simp: bs_set_def set_eq_iff)

lemma loader_init_ok:
  assumes "length (vtx_attr (cp s)) = 8" "length (cached_arraybases s) = 12"
  shows "manager_ok env (loader_init (loader_clear s))"
  using assms all_dirty
  by (auto simp: manager_ok_def loaders_ok_def bases_ok_def loader_init_def loader_clear_def
      MarkAllDirty_def CP_NUM_VAT_REG_def)

lemma MarkAllDirty_ok: "manager_ok env s \<Longrightarrow> manager_ok env (MarkAllDirty s)"
  using all_dirty by (auto simp: manager_ok_def loaders_ok_def bases_ok_def MarkAllDirty_def)

lemma reachable_ok: "loader_reachable env s \<Longrightarrow> manager_ok env s"
  by (induction rule: loader_reachable.induct)
     (simp_all add: loader_init_ok OnCP_ok RefreshLoader_ok RunVertices_ok MarkAllDirty_ok)

section \<open>Properties\<close>

text \<open>
  (C16) Coherence of the vertex loader cache: in every reachable state, after any interleaving of
  CP commands, refreshes, draws and invalidations, \<^verbatim>\<open>RefreshLoader\<close> returns a loader whose
  vertex size and components are those of the current registers, although it only consults
  the dirty bit and the cached pointer.
\<close>

theorem loader_cache_coherent:
  assumes "loader_reachable env s" "grp < 8"
  shows "\<exists>l. fst (RefreshLoader env grp s) = Some l \<and>
    m_vertex_size l = GetVertexSize (vtx_desc_low (cp s)) (vtx_desc_high (cp s)) (vtx_attr (cp s) ! grp) \<and>
    m_native_components l =
      GetVertexComponents (vtx_desc_low (cp s)) (vtx_desc_high (cp s)) (vtx_attr (cp s) ! grp)"
  using RefreshLoader_ok(1) [OF reachable_ok [OF assms(1)] assms(2)]
  by (simp add: fresh_loader_def VertexLoaderBase_def)

abbreviation start_state :: loader_state where
  "start_state \<equiv> loader_init (loader_clear
     \<lparr>cp = CPState_default, vat_dirty = 0, vertex_loaders = [], vertex_loader_map = [], g_bases_dirty = False,
      g_needs_cp_xf_consistency_check = False, cached_arraybases = replicate 12 None\<rparr>)"

definition sample_env :: video_env where
  "sample_env = \<lparr>is_preprocess = False, is_wii = True,
     GetPointerForRange = (\<lambda>a n. if a < 0x1800000 then Some (replicate (unat n) 0) else None)\<rparr>"

lemma start_reachable: "loader_reachable env start_state"
  by (rule loader_reachable.init) (simp_all add: CPState_default_def CP_NUM_VAT_REG_def)

theorem loader_cache_coherent_witness:
  "\<exists>l. fst (RefreshLoader sample_env 3 (OnCP sample_env 0x73 0x40 start_state)) = Some l \<and>
    m_vertex_size l = GetVertexSize (vtx_desc_low (cp (OnCP sample_env 0x73 0x40 start_state)))
      (vtx_desc_high (cp (OnCP sample_env 0x73 0x40 start_state)))
      (vtx_attr (cp (OnCP sample_env 0x73 0x40 start_state)) ! 3)"
  using loader_cache_coherent [OF loader_reachable.cp_command [OF start_reachable], of 3 sample_env "0x73" "0x40"]
  by auto

text \<open>
  Coherence of the vertex array pointers: after a refresh in the main instance, every array
  the vertex description reads through an index, whose base address is mapped, has its pointer
  taken for the base address the registers hold now.
\<close>

theorem array_bases_coherent:
  assumes "loader_reachable env s" "\<not> is_preprocess env" "grp < 8" "i < 12"
    and "IsIndexed (array_format (cp s) i)" "GetPointerForRange env (array_bases (cp s) ! i) 4 \<noteq> None"
  shows "cached_arraybases (snd (RefreshLoader env grp s)) ! i = Some (array_bases (cp s) ! i)"
  using RefreshLoader_ok(3,6) [OF reachable_ok [OF assms(1)] assms(3)] assms(2,4-)
  by (auto simp: base_current_def)

theorem array_bases_coherent_witness:
  "cached_arraybases (snd (RefreshLoader sample_env 0
     (OnCP sample_env 0xa0 0x1000 (OnCP sample_env 0x50 0x400 start_state)))) ! 0 =
   Some (array_bases (cp (OnCP sample_env 0xa0 0x1000 (OnCP sample_env 0x50 0x400 start_state))) ! 0)"
proof (rule array_bases_coherent)
  show "loader_reachable sample_env (OnCP sample_env 0xa0 0x1000 (OnCP sample_env 0x50 0x400 start_state))"
    by (intro loader_reachable.cp_command start_reachable)
  let ?c = "cp (OnCP sample_env 0xa0 0x1000 (OnCP sample_env 0x50 0x400 start_state))"
  have "vtx_desc_low ?c = 0x400" "array_bases ?c ! 0 = 0x1000"
    by (simp_all add: OnCP_fields LoadCPReg_def Let_def field_defs loader_init_def loader_clear_def
        MarkAllDirty_def CPState_default_def sample_env_def GetPhysicalAddressMask_def)
  moreover have "VertexComponentFormat (get Position 0x400) = Index8" by code_simp
  moreover have "GetPointerForRange sample_env 0x1000 4 \<noteq> None" by (simp add: sample_env_def)
  ultimately show "IsIndexed (array_format ?c 0)" "GetPointerForRange sample_env (array_bases ?c ! 0) 4 \<noteq> None"
    by (simp_all only: array_format_def IsIndexed_def if_True simp_thms)
qed (simp_all add: sample_env_def)

end
