(* ===== verification/Opcode_Decoding.thy ===== *)
theory Opcode_Decoding
  imports Byte_Swap Vertex_Manager
begin

text \<open>
  \<^verbatim>\<open>VideoCommon/OpcodeDecoding.h\<close>: the decoder of the graphics command stream. The buffer is
  a list of bytes; every read is checked against it, so that a read past its end is a failure
  of the model. The callback interface is a state \<open>'s\<close> with a handler for the events and
  the vertex size query, given as arguments; an event carries the bytes of its command in
  place of the pointer to them. Sizes are 32-bit words, with the wrap-around of the source.

  The theorems show that the decoder never reads past the bytes it was given, never consumes
  more than it was given, that \<^verbatim>\<open>Run\<close> ends and stops only at an incomplete command, and that
  a complete command is decoded the same way however many bytes follow it.
\<close>

section \<open>Opcodes and primitives\<close>

definition GX_NOP :: u8 where [field_defs]: "GX_NOP = 0x00"
definition GX_LOAD_BP_REG :: u8 where [field_defs]: "GX_LOAD_BP_REG = 0x61"
definition GX_LOAD_CP_REG :: u8 where [field_defs]: "GX_LOAD_CP_REG = 0x08"
definition GX_LOAD_XF_REG :: u8 where [field_defs]: "GX_LOAD_XF_REG = 0x10"
definition GX_LOAD_INDX_A :: u8 where [field_defs]: "GX_LOAD_INDX_A = 0x20"
definition GX_LOAD_INDX_B :: u8 where [field_defs]: "GX_LOAD_INDX_B = 0x28"
definition GX_LOAD_INDX_C :: u8 where [field_defs]: "GX_LOAD_INDX_C = 0x30"
definition GX_LOAD_INDX_D :: u8 where [field_defs]: "GX_LOAD_INDX_D = 0x38"
definition GX_CMD_CALL_DL :: u8 where [field_defs]: "GX_CMD_CALL_DL = 0x40"
definition GX_CMD_UNKNOWN_METRICS :: u8 where [field_defs]: "GX_CMD_UNKNOWN_METRICS = 0x44"
definition GX_CMD_INVL_VC :: u8 where [field_defs]: "GX_CMD_INVL_VC = 0x48"
definition GX_PRIMITIVE_START :: u8 where [field_defs]: "GX_PRIMITIVE_START = 0x80"
definition GX_PRIMITIVE_END :: u8 where [field_defs]: "GX_PRIMITIVE_END = 0xbf"

definition GX_PRIMITIVE_MASK :: u8 where [field_defs]: "GX_PRIMITIVE_MASK = 0x78"
definition GX_PRIMITIVE_SHIFT :: nat where [field_defs]: "GX_PRIMITIVE_SHIFT = 3"
definition GX_VAT_MASK :: u8 where [field_defs]: "GX_VAT_MASK = 0x07"

datatype primitive =
    GX_DRAW_QUADS | GX_DRAW_QUADS_2 | GX_DRAW_TRIANGLES | GX_DRAW_TRIANGLE_STRIP
  | GX_DRAW_TRIANGLE_FAN | GX_DRAW_LINES | GX_DRAW_LINE_STRIP | GX_DRAW_POINTS

definition primitives :: "primitive list" where
  "primitives =
     [GX_DRAW_QUADS, GX_DRAW_QUADS_2, GX_DRAW_TRIANGLES, GX_DRAW_TRIANGLE_STRIP,
      GX_DRAW_TRIANGLE_FAN, GX_DRAW_LINES, GX_DRAW_LINE_STRIP, GX_DRAW_POINTS]"

definition primitive_names :: "string list" where
  "primitive_names =
     [''GX_DRAW_QUADS'', ''GX_DRAW_QUADS_2 (nonstandard)'', ''GX_DRAW_TRIANGLES'',
      ''GX_DRAW_TRIANGLE_STRIP'', ''GX_DRAW_TRIANGLE_FAN'', ''GX_DRAW_LINES'',
      ''GX_DRAW_LINE_STRIP'', ''GX_DRAW_POINTS'']"

text \<open>The cast of the masked command byte; the mask has four bits, of which the top one is 0 for
  the opcodes of primitives.\<close>

definition Primitive :: "u8 \<Rightarrow> primitive" where
  "Primitive w = primitives ! (unat w mod 8)"

section \<open>The callback interface\<close>

datatype event =
    OnXF u16 u8 "u8 list"
  | OnCP_event u8 u32
  | OnBP u8 u32
  | OnIndexedLoad u8 u32 u16 u8
  | OnPrimitiveCommand primitive u8 u32 u16 "u8 list"
  | OnDisplayList u32 u32
  | OnNop u32
  | OnUnknown u8
  | OnCommand "u8 list"

type_synonym 's handler = "event \<Rightarrow> 's \<Rightarrow> 's"
type_synonym 's vertex_sizes = "u8 \<Rightarrow> 's \<Rightarrow> u32 \<times> 's"

section \<open>RunCommand and Run\<close>

definition read8 :: "u8 list \<Rightarrow> nat \<Rightarrow> u8 option" where
  "read8 data i = (if i < length data then Some (data ! i) else None)"

text \<open>The loop over the bytes of a run of \<^verbatim>\<open>GX_NOP\<close>, from \<open>count\<close>.\<close>

function count_nops :: "u8 list \<Rightarrow> u32 \<Rightarrow> u32 \<Rightarrow> u32 option" where
  "count_nops data available count =
     (if count < available
      then do { b \<leftarrow> read8 data (unat count);
                if b = GX_NOP then count_nops data available (count + 1) else Some count }
      else Some count)"
  by pat_completeness auto
termination
proof (relation "measure (\<lambda>(d, a, c). unat a - unat c)")
  fix data :: "u8 list" and available count :: u32 and b
  assume lt: "count < available"
  then have "unat (count + 1) = unat count + 1" by (rule unat_Suc_less)
  with lt show "((data, available, count + 1), data, available, count) \<in> measure (\<lambda>(d, a, c). unat a - unat c)"
    by (simp add: word_less_nat_alt)
qed simp

declare count_nops.simps [simp del]

text \<open>The cases of the switch, one definition each.\<close>

definition run_nop :: "'s handler \<Rightarrow> u8 list \<Rightarrow> u32 \<Rightarrow> 's \<Rightarrow> (u32 \<times> 's) option" where
  "run_nop callback data available s =
     do { count \<leftarrow> count_nops data available 1;
          Some (count, callback (OnNop count) s) }"

definition run_cp :: "'s handler \<Rightarrow> u8 list \<Rightarrow> u32 \<Rightarrow> 's \<Rightarrow> (u32 \<times> 's) option" where
  "run_cp callback data available s =
     (if available < 6 then Some (0, s)
      else do { cmd2 \<leftarrow> read8 data 1;
                v \<leftarrow> swap32_ptr data 2;
                Some (6, callback (OnCP_event cmd2 v) s) })"

definition run_xf :: "'s handler \<Rightarrow> u8 list \<Rightarrow> u32 \<Rightarrow> 's \<Rightarrow> (u32 \<times> 's) option" where
  "run_xf callback data available s =
     (if available < 5 then Some (0, s)
      else do { cmd2 \<leftarrow> swap32_ptr data 1;
                let base_address = (ucast (cmd2 AND 0xffff) :: u16);
                let stream_size_temp = (ucast (drop_bit 16 cmd2) :: u16);
                let stream_size = (ucast (stream_size_temp AND 0xf) + 1 :: u8);
                let total = (5 + ucast stream_size * 4 :: u32);
                if available < total then Some (0, s)
                else do { d \<leftarrow> load data 5 (unat stream_size * 4);
                          Some (total, callback (OnXF base_address stream_size d) s) } })"

definition run_indexed :: "'s handler \<Rightarrow> u8 \<Rightarrow> u8 list \<Rightarrow> u32 \<Rightarrow> 's \<Rightarrow> (u32 \<times> 's) option" where
  "run_indexed callback cmd data available s =
     (if available < 5 then Some (0, s)
      else do { v \<leftarrow> swap32_ptr data 1;
                let index = drop_bit 16 v;
                let addr = (ucast (v AND 0xFFF) :: u16);
                let sz = (ucast (drop_bit 12 v AND 0xF) + 1 :: u8);
                let ref_array = cmd div 8 + 8;
                Some (5, callback (OnIndexedLoad ref_array index addr sz) s) })"

definition run_display_list :: "'s handler \<Rightarrow> u8 list \<Rightarrow> u32 \<Rightarrow> 's \<Rightarrow> (u32 \<times> 's) option" where
  "run_display_list callback data available s =
     (if available < 9 then Some (0, s)
      else do { addr \<leftarrow> swap32_ptr data 1;
                sz \<leftarrow> swap32_ptr data 5;
                Some (9, callback (OnDisplayList (addr AND NOT 31) (sz AND NOT 31)) s) })"

definition run_bp :: "'s handler \<Rightarrow> u8 list \<Rightarrow> u32 \<Rightarrow> 's \<Rightarrow> (u32 \<times> 's) option" where
  "run_bp callback data available s =
     (if available < 5 then Some (0, s)
      else do { cmd2 \<leftarrow> read8 data 1;
                v \<leftarrow> swap24 data 2;
                Some (5, callback (OnBP cmd2 v) s) })"

definition run_primitive ::
  "'s vertex_sizes \<Rightarrow> 's handler \<Rightarrow> u8 \<Rightarrow> u8 list \<Rightarrow> u32 \<Rightarrow> 's \<Rightarrow> (u32 \<times> 's) option" where
  "run_primitive vertex_size_of callback cmd data available s =
     (if available < 3 then Some (0, s)
      else do { let prim = Primitive (drop_bit GX_PRIMITIVE_SHIFT (cmd AND GX_PRIMITIVE_MASK));
                let vat = cmd AND GX_VAT_MASK;
                let (vertex_size, s1) = vertex_size_of vat s;
                num_vertices \<leftarrow> swap16_ptr data 1;
                let total = (3 + ucast num_vertices * vertex_size :: u32);
                if available < total then Some (0, s1)
                else do { d \<leftarrow> load data 3 (unat (ucast num_vertices * vertex_size :: u32));
                          Some (total, callback (OnPrimitiveCommand prim vat vertex_size num_vertices d) s1) } })"

definition detail_RunCommand ::
  "'s vertex_sizes \<Rightarrow> 's handler \<Rightarrow> u8 list \<Rightarrow> u32 \<Rightarrow> 's \<Rightarrow> (u32 \<times> 's) option" where
  "detail_RunCommand vertex_size_of callback data available s =
     (if available < 1 then Some (0, s)
      else do {
        cmd \<leftarrow> read8 data 0;
        if cmd = GX_NOP then run_nop callback data available s
        else if cmd = GX_LOAD_CP_REG then run_cp callback data available s
        else if cmd = GX_LOAD_XF_REG then run_xf callback data available s
        else if cmd = GX_LOAD_INDX_A \<or> cmd = GX_LOAD_INDX_B \<or> cmd = GX_LOAD_INDX_C \<or> cmd = GX_LOAD_INDX_D
        then run_indexed callback cmd data available s
        else if cmd = GX_CMD_CALL_DL then run_display_list callback data available s
        else if cmd = GX_LOAD_BP_REG then run_bp callback data available s
        else if GX_PRIMITIVE_START \<le> cmd \<and> cmd \<le> GX_PRIMITIVE_END
        then run_primitive vertex_size_of callback cmd data available s
        else Some (1, callback (OnUnknown cmd) s) })"

definition RunCommand ::
  "'s vertex_sizes \<Rightarrow> 's handler \<Rightarrow> u8 list \<Rightarrow> u32 \<Rightarrow> 's \<Rightarrow> (u32 \<times> 's) option" where
  "RunCommand vertex_size_of callback data available s =
     do { (n, s') \<leftarrow> detail_RunCommand vertex_size_of callback data available s;
          if n > 0
          then do { d \<leftarrow> load data 0 (unat n); Some (n, callback (OnCommand d) s') }
          else Some (n, s') }"

partial_function (option) run_from ::
  "'s vertex_sizes \<Rightarrow> 's handler \<Rightarrow> u8 list \<Rightarrow> u32 \<Rightarrow> u32 \<Rightarrow> 's \<Rightarrow> (u32 \<times> 's) option" where
  "run_from vertex_size_of callback data available consumed s =
     (if consumed < available
      then do { (command_size, s') \<leftarrow> RunCommand vertex_size_of callback (drop (unat consumed) data) (available - consumed) s;
                if command_size = 0 then Some (consumed, s')
                else run_from vertex_size_of callback data available (consumed + command_size) s' }
      else Some (consumed, s))"

definition Run ::
  "'s vertex_sizes \<Rightarrow> 's handler \<Rightarrow> u8 list \<Rightarrow> u32 \<Rightarrow> 's \<Rightarrow> (u32 \<times> 's) option" where
  "Run vertex_size_of callback data available s = run_from vertex_size_of callback data available 0 s"

section \<open>Reads inside the buffer\<close>

lemma read8_Some: "i < length data \<Longrightarrow> read8 data i = Some (data ! i)"
  by (simp add: read8_def)

lemma load_Some: "p + n \<le> length data \<Longrightarrow> \<exists>d. load data p n = Some d"
  by (simp add: load_def)

lemma swap_ptr_Some:
  "p + 4 \<le> length data \<Longrightarrow> \<exists>v. swap32_ptr data p = Some v"
  "p + 2 \<le> length data \<Longrightarrow> \<exists>u. swap16_ptr data p = Some u"
  "p + 3 \<le> length data \<Longrightarrow> \<exists>v. swap24 data p = Some v"
  by (simp_all add: swap32_ptr_def swap16_ptr_def swap24_def load_def)

lemma count_nops_ok:
  assumes "unat available \<le> length data" "c \<le> available"
  shows "\<exists>n. count_nops data available c = Some n \<and> c \<le> n \<and> n \<le> available \<and>
    (\<forall>i. unat c \<le> i \<and> i < unat n \<longrightarrow> data ! i = GX_NOP) \<and>
    (n < available \<longrightarrow> data ! unat n \<noteq> GX_NOP)"
  using assms
proof (induction data available c rule: count_nops.induct)
  case (1 data available c)
  show ?case
  proof (cases "c < available")
    case False
    then have "count_nops data available c = Some c" by (simp add: count_nops.simps [of data available c])
    with False "1.prems"(2) show ?thesis by (intro exI [of _ c]) auto
  next
    case True
    then have len: "unat c < length data" using "1.prems"(1) by (simp add: word_less_nat_alt)
    note r = read8_Some [OF len]
    show ?thesis
    proof (cases "data ! unat c = GX_NOP")
      case False
      with True r show ?thesis by (auto simp: count_nops.simps [of data available c])
    next
      case nop: True
      have s: "unat (c + 1) = unat c + 1" using True by (rule unat_Suc_less)
      then have "c + 1 \<le> available" using True by (simp add: word_le_nat_alt word_less_nat_alt)
      then obtain n where n: "count_nops data available (c + 1) = Some n" "c + 1 \<le> n" "n \<le> available"
        "\<forall>i. unat (c + 1) \<le> i \<and> i < unat n \<longrightarrow> data ! i = GX_NOP" "n < available \<longrightarrow> data ! unat n \<noteq> GX_NOP"
        using "1.IH" [OF True r nop "1.prems"(1)] by blast
      have "count_nops data available c = Some n"
        using True r nop n(1) by (simp add: count_nops.simps [of data available c])
      moreover have "c \<le> n" using n(2) s by (simp add: word_le_nat_alt)
      moreover have "\<forall>i. unat c \<le> i \<and> i < unat n \<longrightarrow> data ! i = GX_NOP"
        using n(4) nop s by (metis Suc_eq_plus1 le_antisym not_less_eq_eq)
      ultimately show ?thesis using n by blast
    qed
  qed
qed

text \<open>A buffer that agrees with another on its first \<open>k\<close> bytes.\<close>

definition agree :: "nat \<Rightarrow> u8 list \<Rightarrow> u8 list \<Rightarrow> bool" where
  "agree k d d' \<longleftrightarrow> k \<le> length d \<and> k \<le> length d' \<and> take k d = take k d'"

lemma load_agree: "agree k d d' \<Longrightarrow> p + n \<le> k \<Longrightarrow> load d' p n = load d p n"
proof -
  assume a: "agree k d d'" "p + n \<le> k"
  have t: "take n (drop p d) = take n (drop p (take k d))" if "agree k d e" for d e
    using a(2) by (simp add: take_drop min_def)
  have "take n (drop p d) = take n (drop p d')"
    using t [of d d'] t [of d' d] a(1) by (simp add: agree_def)
  with a show ?thesis by (simp add: load_def agree_def)
qed

lemma read_agree:
  assumes "agree k d d'"
  shows "i < k \<Longrightarrow> read8 d' i = read8 d i"
    and "p + 4 \<le> k \<Longrightarrow> swap32_ptr d' p = swap32_ptr d p"
    and "p + 2 \<le> k \<Longrightarrow> swap16_ptr d' p = swap16_ptr d p"
    and "p + 3 \<le> k \<Longrightarrow> swap24 d' p = swap24 d p"
proof -
  have "d' ! i = d ! i" if "i < k" using assms that by (metis agree_def nth_take)
  then show "i < k \<Longrightarrow> read8 d' i = read8 d i" using assms by (auto simp: read8_def agree_def)
qed (simp_all add: swap32_ptr_def swap16_ptr_def swap24_def load_agree [OF assms])

section \<open>The contract of a callback\<close>

lemma stream_size_bound: "unat (ucast (x AND 0xf :: u16) + 1 :: u8) \<le> 16"
proof -
  have "x AND 0xf = take_bit 4 x" by (simp add: take_bit_eq_mask mask_eq_exp_minus_1)
  then have "unat (x AND 0xf) < 16" using take_bit_nat_less_exp [of 4 "unat x"] by (simp add: unsigned_take_bit_eq)
  then have "unat (ucast (x AND 0xf) :: u8) < 16" by (simp add: unsigned_ucast_eq take_bit_nat_eq_self)
  then show ?thesis by (simp add: unat_word_ariths)
qed

lemma xf_total: "unat (5 + ucast (n :: u8) * 4 :: u32) = 5 + unat n * 4"
proof -
  have n: "unat n < 256" using unat_less [of n] by simp
  then have u: "unat (ucast n :: u32) = unat n" by (simp add: unsigned_ucast_eq take_bit_nat_eq_self)
  with n have m: "unat (ucast n * 4 :: u32) = unat n * 4" by (simp add: unat_mult_lem [THEN iffD1])
  with n show ?thesis by (simp add: unat_add_lem [THEN iffD1])
qed

lemma primitive_total:
  assumes "unat v \<le> 129"
  shows "unat (3 + ucast (n :: u16) * v :: u32) = 3 + unat (ucast n * v :: u32)"
proof -
  have n: "unat n < 2 ^ 16" using unat_less [of n] by simp
  then have p: "unat n * unat v \<le> 65535 * 129" using assms by (intro mult_le_mono) auto
  have "unat (ucast n :: u32) = unat n" using n by (simp add: unsigned_ucast_eq take_bit_nat_eq_self)
  with p have "unat (ucast n * v :: u32) = unat n * unat v" by (simp add: unat_mult_lem [THEN iffD1])
  with p show ?thesis by (simp add: unat_add_lem [THEN iffD1])
qed

lemma run_primitive_eq:
  assumes "\<not> available < 3" "swap16_ptr data 1 = Some u" "vs (cmd AND GX_VAT_MASK) s = (v, s1)"
  shows "run_primitive vs cb cmd data available s =
    (if available < 3 + ucast u * v then Some (0, s1)
     else do { d \<leftarrow> load data 3 (unat (ucast u * v));
               Some (3 + ucast u * v,
                 cb (OnPrimitiveCommand (Primitive (drop_bit GX_PRIMITIVE_SHIFT (cmd AND GX_PRIMITIVE_MASK)))
                   (cmd AND GX_VAT_MASK) v u d) s1) })"
  using assms by (simp add: run_primitive_def Let_def)

text \<open>
  A callback keeps an invariant of its state: events of primitives name one of the eight
  attribute groups, and the size of a vertex of each group is at most 129 bytes.
\<close>

definition event_ok :: "event \<Rightarrow> bool" where
  "event_ok e \<longleftrightarrow> (case e of OnPrimitiveCommand _ vat _ _ _ \<Rightarrow> unat vat < 8 | _ \<Rightarrow> True)"

lemma event_ok_simps [simp]:
  "event_ok (OnXF xa xn d)" "event_ok (OnCP_event c w)" "event_ok (OnBP c w)" "event_ok (OnIndexedLoad r i a m)"
  "event_ok (OnDisplayList da dn)" "event_ok (OnNop nn)" "event_ok (OnUnknown c)" "event_ok (OnCommand d)"
  "event_ok (OnPrimitiveCommand p vat v n d) \<longleftrightarrow> unat vat < 8"
  by (simp_all add: event_ok_def)

lemma vat_less_8 [simp]: "unat (cmd AND GX_VAT_MASK) < 8"
proof -
  have "unat (cmd AND GX_VAT_MASK) = unat cmd AND 7" by (simp add: GX_VAT_MASK_def unsigned_and_eq)
  then show ?thesis using nat_and_7 by simp
qed

locale decoder_callback =
  fixes vertex_size_of :: "'s vertex_sizes"
    and callback :: "'s handler"
    and ok :: "'s \<Rightarrow> bool"
  assumes vertex_size_law: "ok s \<Longrightarrow> unat vat < 8 \<Longrightarrow> unat (fst (vertex_size_of vat s)) \<le> 129"
    and vertex_size_ok: "ok s \<Longrightarrow> unat vat < 8 \<Longrightarrow> ok (snd (vertex_size_of vat s))"
    and callback_ok: "ok s \<Longrightarrow> event_ok e \<Longrightarrow> ok (callback e s)"
begin

lemma run_primitive_safe:
  assumes "unat available \<le> length data" "ok s"
  shows "\<exists>n s'. run_primitive vertex_size_of callback cmd data available s = Some (n, s') \<and>
    n \<le> available \<and> ok s'"
proof (cases "available < 3")
  case False
  obtain v s1 where v: "vertex_size_of (cmd AND GX_VAT_MASK) s = (v, s1)" by force
  have v': "unat v \<le> 129" "ok s1"
    using vertex_size_law [OF assms(2), of "cmd AND GX_VAT_MASK"] vertex_size_ok [OF assms(2), of "cmd AND GX_VAT_MASK"] v
    by simp_all
  from False obtain u where u: "swap16_ptr data 1 = Some u"
    using swap_ptr_Some(2) [of 1 data] assms(1) by (auto simp: word_less_nat_alt)
  have "load data 3 (unat (ucast u * v)) \<noteq> None" if "\<not> available < 3 + ucast u * v"
    using that assms(1) primitive_total [OF v'(1), of u] by (auto simp: word_less_nat_alt load_def)
  then show ?thesis
    using run_primitive_eq [where vs = vertex_size_of and cb = callback, OF False u v] v'(2) callback_ok [OF v'(2)]
    by (auto simp: not_less)
qed (use assms in \<open>simp add: run_primitive_def\<close>)

lemma run_cases_safe:
  assumes "unat available \<le> length data" "\<not> available < 1" "ok s"
  shows "\<exists>n s'. run_nop callback data available s = Some (n, s') \<and> n \<le> available \<and> ok s'"
    and "\<exists>n s'. run_cp callback data available s = Some (n, s') \<and> n \<le> available \<and> ok s'"
    and "\<exists>n s'. run_xf callback data available s = Some (n, s') \<and> n \<le> available \<and> ok s'"
    and "\<exists>n s'. run_indexed callback cmd data available s = Some (n, s') \<and> n \<le> available \<and> ok s'"
    and "\<exists>n s'. run_display_list callback data available s = Some (n, s') \<and> n \<le> available \<and> ok s'"
    and "\<exists>n s'. run_bp callback data available s = Some (n, s') \<and> n \<le> available \<and> ok s'"
proof -
  note le = word_less_nat_alt word_le_nat_alt and cb = callback_ok [OF assms(3)]
  have one: "1 \<le> available" using assms(2) by (simp only: not_less)
  have sw: "\<exists>v. swap32_ptr data p = Some v" if "p + 4 \<le> unat available" for p
    using that assms(1) by (intro swap_ptr_Some) simp
  show "\<exists>n s'. run_nop callback data available s = Some (n, s') \<and> n \<le> available \<and> ok s'"
    using count_nops_ok [OF assms(1) one] cb by (auto simp: run_nop_def)
  show "\<exists>n s'. run_cp callback data available s = Some (n, s') \<and> n \<le> available \<and> ok s'"
    using sw [of 2] read8_Some [of 1 data] assms cb by (auto simp: run_cp_def le)
  show "\<exists>n s'. run_indexed callback cmd data available s = Some (n, s') \<and> n \<le> available \<and> ok s'"
    using sw [of 1] assms(3) cb by (auto simp: run_indexed_def le)
  show "\<exists>n s'. run_display_list callback data available s = Some (n, s') \<and> n \<le> available \<and> ok s'"
    using sw [of 1] sw [of 5] assms(3) cb by (auto simp: run_display_list_def le)
  show "\<exists>n s'. run_bp callback data available s = Some (n, s') \<and> n \<le> available \<and> ok s'"
    using swap_ptr_Some(3) [of 2 data] read8_Some [of 1 data] assms cb by (auto simp: run_bp_def le)
  show "\<exists>n s'. run_xf callback data available s = Some (n, s') \<and> n \<le> available \<and> ok s'"
  proof (cases "available < 5")
    case False
    then obtain v where "swap32_ptr data 1 = Some v" using sw [of 1] by (auto simp: le)
    with False show ?thesis using assms(1,3) cb by (auto simp: run_xf_def Let_def le xf_total load_def)
  qed (use assms(3) in \<open>simp add: run_xf_def\<close>)
qed

lemma detail_RunCommand_safe:
  assumes "unat available \<le> length data" "ok s"
  shows "\<exists>n s'. detail_RunCommand vertex_size_of callback data available s = Some (n, s') \<and>
    n \<le> available \<and> ok s'"
proof (cases "available < 1")
  case True
  then show ?thesis using assms(2) by (simp add: detail_RunCommand_def)
next
  case False
  then have one: "1 \<le> available" by (simp only: not_less)
  have "0 < unat available" using False by (simp add: word_less_nat_alt)
  with assms have "0 < length data" by linarith
  then have "read8 data 0 = Some (data ! 0)" by (rule read8_Some)
  with False show ?thesis
    using run_cases_safe [OF assms(1) False assms(2)] run_primitive_safe [OF assms] one
      callback_ok [OF assms(2)] by (simp add: detail_RunCommand_def)
qed

lemma RunCommand_safe:
  assumes "unat available \<le> length data" "ok s"
  shows "\<exists>n s'. RunCommand vertex_size_of callback data available s = Some (n, s') \<and> n \<le> available \<and> ok s'"
proof -
  obtain n s' where d: "detail_RunCommand vertex_size_of callback data available s = Some (n, s')"
      "n \<le> available" "ok s'"
    using detail_RunCommand_safe [OF assms] by blast
  then have "unat n \<le> length data" using assms by (simp add: word_le_nat_alt)
  with d callback_ok [OF d(3)] show ?thesis by (auto simp: RunCommand_def load_def)
qed

lemma run_from_safe:
  assumes "unat available \<le> length data" "consumed \<le> available" "ok s"
  shows "\<exists>n s'. run_from vertex_size_of callback data available consumed s = Some (n, s') \<and>
    consumed \<le> n \<and> n \<le> available \<and> ok s' \<and>
    (n < available \<longrightarrow> (\<exists>t. ok t \<and> RunCommand vertex_size_of callback (drop (unat n) data) (available - n) t = Some (0, s')))"
  using assms(2,3)
proof (induction "unat (available - consumed)" arbitrary: consumed s rule: less_induct)
  case less
  show ?case
  proof (cases "consumed < available")
    case False
    with less.prems have "consumed = available" by simp
    then show ?thesis using less.prems(2) by (subst run_from.simps) simp
  next
    case True
    have rest: "unat (available - consumed) = unat available - unat consumed"
      using less.prems by (simp add: unat_sub)
    then have "unat (available - consumed) \<le> length (drop (unat consumed) data)" using assms(1) by simp
    from RunCommand_safe [OF this less.prems(2)] obtain c s' where
      c: "RunCommand vertex_size_of callback (drop (unat consumed) data) (available - consumed) s = Some (c, s')"
      "c \<le> available - consumed" "ok s'" by blast
    show ?thesis
    proof (cases "c = 0")
      case c0: True
      with True c less.prems(2) show ?thesis by (subst run_from.simps) auto
    next
      case c0: False
      have "unat consumed + unat c \<le> unat available"
        using c(2) rest less.prems by (simp add: word_le_nat_alt)
      moreover from this have sum: "unat (consumed + c) = unat consumed + unat c"
        using unat_less [of available] by (simp add: unat_add_lem [THEN iffD1])
      moreover have "0 < unat c" using c0 by (simp add: unat_gt_0)
      ultimately have nx: "consumed + c \<le> available" "consumed \<le> consumed + c"
        "unat (available - (consumed + c)) < unat (available - consumed)"
        using True by (simp_all add: word_le_nat_alt word_less_nat_alt unat_sub)
      from less.hyps [OF nx(3,1) c(3)] obtain n t where
        n: "run_from vertex_size_of callback data available (consumed + c) s' = Some (n, t)"
        "consumed + c \<le> n" "n \<le> available" "ok t"
        "n < available \<longrightarrow> (\<exists>u. ok u \<and> RunCommand vertex_size_of callback (drop (unat n) data) (available - n) u = Some (0, t))"
        by blast
      moreover have "run_from vertex_size_of callback data available consumed s = Some (n, t)"
        using True c c0 n(1) by (subst run_from.simps) simp
      ultimately show ?thesis using nx(2) order_trans by blast
    qed
  qed
qed

end

section \<open>More bytes do not change a complete command\<close>

lemma run_stable:
  assumes ag: "agree (unat a) d d'" and a': "a \<le> a'" and pos: "0 < n"
  shows "run_cp cb d a s = Some (n, s') \<Longrightarrow> run_cp cb d' a' s = Some (n, s')"
    and "run_xf cb d a s = Some (n, s') \<Longrightarrow> run_xf cb d' a' s = Some (n, s')"
    and "run_indexed cb cmd d a s = Some (n, s') \<Longrightarrow> run_indexed cb cmd d' a' s = Some (n, s')"
    and "run_display_list cb d a s = Some (n, s') \<Longrightarrow> run_display_list cb d' a' s = Some (n, s')"
    and "run_bp cb d a s = Some (n, s') \<Longrightarrow> run_bp cb d' a' s = Some (n, s')"
proof -
  have up: "\<not> a' < k" if "\<not> a < k" for k using that a' by auto
  have ge: "k \<le> unat a" if "\<not> a < word_of_nat k" "k < 2 ^ 32" for k
    using that by (simp add: word_less_nat_alt unat_word_of_nat_less)
  note ra = read_agree [OF ag]
  show "run_cp cb d a s = Some (n, s') \<Longrightarrow> run_cp cb d' a' s = Some (n, s')"
    using pos up [of 6] ge [of 6] ra(1) [of 1] ra(2) [of 2] by (cases "a < 6") (auto simp: run_cp_def)
  show "run_indexed cb cmd d a s = Some (n, s') \<Longrightarrow> run_indexed cb cmd d' a' s = Some (n, s')"
    using pos up [of 5] ge [of 5] ra(2) [of 1] by (cases "a < 5") (auto simp: run_indexed_def)
  show "run_display_list cb d a s = Some (n, s') \<Longrightarrow> run_display_list cb d' a' s = Some (n, s')"
    using pos up [of 9] ge [of 9] ra(2) [of 1] ra(2) [of 5] by (cases "a < 9") (auto simp: run_display_list_def)
  show "run_bp cb d a s = Some (n, s') \<Longrightarrow> run_bp cb d' a' s = Some (n, s')"
    using pos up [of 5] ge [of 5] ra(1) [of 1] ra(4) [of 2] by (cases "a < 5") (auto simp: run_bp_def)
  show "run_xf cb d a s = Some (n, s') \<Longrightarrow> run_xf cb d' a' s = Some (n, s')"
  proof -
    assume r: "run_xf cb d a s = Some (n, s')"
    with pos have a5: "\<not> a < 5" by (auto simp: run_xf_def)
    then obtain v where v: "swap32_ptr d 1 = Some v" using r by (cases "swap32_ptr d 1") (auto simp: run_xf_def)
    define k where "k = (ucast (ucast (drop_bit 16 v) AND 0xf :: u16) + 1 :: u8)"
    define tot where "tot = (5 + ucast k * 4 :: u32)"
    have t: "\<not> a < tot" using r a5 v pos by (auto simp: run_xf_def Let_def k_def tot_def split: if_splits)
    then have "5 + unat k * 4 \<le> unat a" using xf_total [of k] by (simp add: tot_def word_less_nat_alt)
    then have "load d' 5 (unat k * 4) = load d 5 (unat k * 4)" by (rule load_agree [OF ag])
    moreover have "swap32_ptr d' 1 = Some v" using ra(2) [of 1] v ge [of 5] a5 by simp
    ultimately show ?thesis
      using r v a5 t up [OF a5] up [OF t] by (simp add: run_xf_def Let_def k_def tot_def)
  qed
qed

lemma if_stable:
  assumes "(if c then x else z) = Some y" "c \<Longrightarrow> x = Some y \<Longrightarrow> x' = Some y"
    and "\<not> c \<Longrightarrow> z = Some y \<Longrightarrow> z' = Some y"
  shows "(if c then x' else z') = Some y"
  using assms by (cases c) simp_all

context decoder_callback
begin

lemma run_primitive_stable:
  assumes ag: "agree (unat a) d d'" and a': "a \<le> a'" and pos: "0 < n" and "ok s"
    and r: "run_primitive vertex_size_of callback cmd d a s = Some (n, s')"
  shows "run_primitive vertex_size_of callback cmd d' a' s = Some (n, s')"
proof -
  have up: "\<not> a' < k" if "\<not> a < k" for k using that a' by auto
  have a3: "\<not> a < 3" using r pos by (auto simp: run_primitive_def)
  obtain v s1 where v: "vertex_size_of (cmd AND GX_VAT_MASK) s = (v, s1)" by force
  obtain u where u: "swap16_ptr d 1 = Some u"
    using r a3 v by (cases "swap16_ptr d 1") (auto simp: run_primitive_def Let_def)
  note eq = run_primitive_eq [where vs = vertex_size_of and cb = callback, OF a3 u v]
  have t: "\<not> a < 3 + ucast u * v" using r pos unfolding eq by (auto split: if_splits)
  have "unat v \<le> 129" using vertex_size_law [OF assms(4), of "cmd AND GX_VAT_MASK"] v by simp
  from primitive_total [OF this, of u] have "3 + unat (ucast u * v) \<le> unat a" using t by (simp add: word_less_nat_alt)
  then have ld: "load d' 3 (unat (ucast u * v)) = load d 3 (unat (ucast u * v))" by (rule load_agree [OF ag])
  have "swap16_ptr d' 1 = Some u"
    using read_agree(3) [OF ag, of 1] u a3 by (simp add: word_less_nat_alt)
  from run_primitive_eq [where vs = vertex_size_of and cb = callback, OF up [OF a3] this v] show ?thesis
    using r t up [OF t] unfolding eq by (simp add: ld)
qed

lemma detail_RunCommand_stable:
  assumes ag: "agree (unat a) d d'" and a': "a \<le> a'" and pos: "0 < n" and nop: "d ! 0 \<noteq> GX_NOP" and "ok s"
    and r: "detail_RunCommand vertex_size_of callback d a s = Some (n, s')"
  shows "detail_RunCommand vertex_size_of callback d' a' s = Some (n, s')"
proof -
  have a1: "\<not> a < 1" using r pos by (auto simp: detail_RunCommand_def)
  with a' have a1': "\<not> a' < 1" by (meson not_less order_trans)
  have "0 < unat a" using a1 by (simp add: word_less_nat_alt)
  then have rd: "read8 d' 0 = read8 d 0" "read8 d 0 = Some (d ! 0)"
    using read_agree(1) [OF ag, of 0] ag by (auto simp: read8_def agree_def)
  note st = run_stable [OF ag a' pos] run_primitive_stable [OF ag a' pos \<open>ok s\<close>]
  from r show ?thesis
    unfolding detail_RunCommand_def rd(1) unfolding rd(2) bind.simps if_not_P [OF a1] if_not_P [OF a1']
      if_not_P [OF nop]
    by (elim if_stable st)
qed

lemma RunCommand_stable:
  assumes ag: "agree (unat a) d d'" and a': "a \<le> a'" and pos: "0 < n" and nop: "d ! 0 \<noteq> GX_NOP" and "ok s"
    and r: "RunCommand vertex_size_of callback d a s = Some (n, s')"
  shows "RunCommand vertex_size_of callback d' a' s = Some (n, s')"
proof -
  obtain t where dt: "detail_RunCommand vertex_size_of callback d a s = Some (n, t)"
    using r pos by (auto simp: RunCommand_def split: bind_splits if_splits)
  have "unat a \<le> length d" using ag by (simp add: agree_def)
  from detail_RunCommand_safe [OF this \<open>ok s\<close>] dt have "n \<le> a" by simp
  then have "load d' 0 (unat n) = load d 0 (unat n)"
    by (intro load_agree [OF ag]) (simp add: word_le_nat_alt)
  with r dt detail_RunCommand_stable [OF ag a' pos nop \<open>ok s\<close> dt] pos show ?thesis by (simp add: RunCommand_def)
qed

end

section \<open>The callback of the emulator\<close>

text \<open>
  The part of \<^verbatim>\<open>RunCallback\<close> that acts on the registers and the vertex loaders. The size of
  a vertex comes from the refreshed loader (the source dereferences the pointer; that it is
  never null is a theorem below). While a display list runs \<^verbatim>\<open>m_in_display_list\<close> is set and
  a nested one is ignored: \<open>run_callback_basic\<close> is the callback in that state. The XF and BP
  registers, the cycle count, statistics and recording are left out.
\<close>

definition Callback_GetVertexSize :: "video_env \<Rightarrow> loader_state vertex_sizes" where
  "Callback_GetVertexSize env vat s =
     (let (loader, s') = RefreshLoader env (unat vat) s
      in (case loader of Some l \<Rightarrow> m_vertex_size l | None \<Rightarrow> 0, s'))"

definition run_callback_basic :: "video_env \<Rightarrow> loader_state handler" where
  "run_callback_basic env e s =
     (case e of
        OnCP_event command value \<Rightarrow> OnCP env command value s
      | OnPrimitiveCommand _ vat _ n _ \<Rightarrow> snd (RunVertices env (unat vat) n s)
      | _ \<Rightarrow> s)"

definition OnDisplayList_run :: "video_env \<Rightarrow> u32 \<Rightarrow> u32 \<Rightarrow> loader_state \<Rightarrow> loader_state" where
  "OnDisplayList_run env address sz s =
     (case GetPointerForRange env address sz of
        None \<Rightarrow> s
      | Some start_address \<Rightarrow>
          (case Run (Callback_GetVertexSize env) (run_callback_basic env) start_address sz s of
             Some (_, s') \<Rightarrow> s' | None \<Rightarrow> s))"

definition RunCallback :: "video_env \<Rightarrow> loader_state handler" where
  "RunCallback env e s =
     (case e of OnDisplayList address sz \<Rightarrow> OnDisplayList_run env address sz s
              | _ \<Rightarrow> run_callback_basic env e s)"

lemma Callback_GetVertexSize_ok:
  assumes "loader_reachable env s" "unat vat < 8"
  shows "unat (fst (Callback_GetVertexSize env vat s)) \<le> 129"
    and "loader_reachable env (snd (Callback_GetVertexSize env vat s))"
    and "Callback_GetVertexSize env vat (snd (Callback_GetVertexSize env vat s)) = Callback_GetVertexSize env vat s"
    and "fst (Callback_GetVertexSize env vat s) =
      GetVertexSize (vtx_desc_low (cp s)) (vtx_desc_high (cp s)) (vtx_attr (cp s) ! unat vat)"
proof -
  note ok = reachable_ok [OF assms(1)]
  have r: "RefreshLoader env (unat vat) s = (Some (fresh_loader (cp s) (unat vat)), snd (RefreshLoader env (unat vat) s))"
    using RefreshLoader_ok(1) [OF ok assms(2)] by (simp add: prod_eq_iff)
  have e: "Callback_GetVertexSize env vat s = (m_vertex_size (fresh_loader (cp s) (unat vat)), snd (RefreshLoader env (unat vat) s))"
    by (subst Callback_GetVertexSize_def, subst r) simp
  show "fst (Callback_GetVertexSize env vat s) =
      GetVertexSize (vtx_desc_low (cp s)) (vtx_desc_high (cp s)) (vtx_attr (cp s) ! unat vat)"
    by (simp add: e fresh_loader_def VertexLoaderBase_def)
  then show "unat (fst (Callback_GetVertexSize env vat s)) \<le> 129" by (simp add: GetVertexSize_bound)
  show "loader_reachable env (snd (Callback_GetVertexSize env vat s))"
    using assms by (simp add: e loader_reachable.refresh)
  show "Callback_GetVertexSize env vat (snd (Callback_GetVertexSize env vat s)) = Callback_GetVertexSize env vat s"
    by (simp only: e snd_conv Callback_GetVertexSize_def [of env vat "snd (RefreshLoader env (unat vat) s)"]
        RefreshLoader_idem [OF ok assms(2)]) (subst r, simp)
qed

lemma run_callback_basic_ok:
  "event_ok e \<Longrightarrow> loader_reachable env s \<Longrightarrow> loader_reachable env (run_callback_basic env e s)"
  by (auto simp: run_callback_basic_def split: event.splits intro: loader_reachable.intros)

interpretation list_decoder: decoder_callback "Callback_GetVertexSize env" "run_callback_basic env" "loader_reachable env" for env
  by unfold_locales (simp_all add: Callback_GetVertexSize_ok(1,2) run_callback_basic_ok)

lemma display_list_run:
  assumes "loader_reachable env s" "GetPointerForRange env a n = Some xs" "length xs = unat n"
  shows "\<exists>k s'. Run (Callback_GetVertexSize env) (run_callback_basic env) xs n s = Some (k, s') \<and>
    OnDisplayList_run env a n s = s' \<and> k \<le> n \<and> loader_reachable env s'"
proof -
  have le: "unat n \<le> length xs" "(0 :: u32) \<le> n" using assms(3) by simp_all
  from list_decoder.run_from_safe [OF le assms(1)] obtain k s' where
    "run_from (Callback_GetVertexSize env) (run_callback_basic env) xs n 0 s = Some (k, s')" "k \<le> n"
    "loader_reachable env s'" by blast
  with assms(2) show ?thesis by (simp add: OnDisplayList_run_def Run_def)
qed

lemma OnDisplayList_run_ok:
  assumes "loader_reachable env s" "\<And>xs. GetPointerForRange env a n = Some xs \<Longrightarrow> length xs = unat n"
  shows "loader_reachable env (OnDisplayList_run env a n s)"
proof (cases "GetPointerForRange env a n")
  case None
  with assms(1) show ?thesis by (simp add: OnDisplayList_run_def)
next
  case (Some xs)
  from display_list_run [OF assms(1) Some assms(2) [OF Some]] show ?thesis by blast
qed

text \<open>The documented behaviour of \<^verbatim>\<open>GetPointerForRange\<close>: the range it returns has the size asked for.\<close>

definition env_ok :: "video_env \<Rightarrow> bool" where
  "env_ok env \<longleftrightarrow> (\<forall>a n xs. GetPointerForRange env a n = Some xs \<longrightarrow> length xs = unat n)"

definition decoder_ok :: "video_env \<Rightarrow> loader_state \<Rightarrow> bool" where
  "decoder_ok env s \<longleftrightarrow> env_ok env \<and> loader_reachable env s"

lemma RunCallback_ok:
  assumes "decoder_ok env s" "event_ok e"
  shows "decoder_ok env (RunCallback env e s)"
  using assms OnDisplayList_run_ok [of env s] run_callback_basic_ok [of e env s]
  by (auto simp: decoder_ok_def env_ok_def RunCallback_def split: event.splits)

interpretation emu_decoder: decoder_callback "Callback_GetVertexSize env" "RunCallback env" "decoder_ok env" for env
  by unfold_locales (simp_all add: Callback_GetVertexSize_ok(1,2) RunCallback_ok, simp_all add: decoder_ok_def Callback_GetVertexSize_ok(1,2))

section \<open>A stream of register loads\<close>

text \<open>
  \<^verbatim>\<open>FifoPlayer::LoadCPReg\<close>: the bytes it writes to the graphics FIFO, which stores
  integers big-endian.
\<close>

definition LoadCPReg_bytes :: "u8 \<Rightarrow> u32 \<Rightarrow> u8 list" where
  "LoadCPReg_bytes reg value = [0x08, reg] @ bytes_of (swap32 value)"

lemma length_LoadCPReg_bytes [simp]: "length (LoadCPReg_bytes r v) = 6"
  by (simp add: LoadCPReg_bytes_def)

lemma RunCommand_cp:
  assumes "6 \<le> unat a"
  shows "RunCommand vs cb (LoadCPReg_bytes r v @ rest) a s =
    Some (6, cb (OnCommand (LoadCPReg_bytes r v)) (cb (OnCP_event r v) s))"
proof -
  let ?d = "LoadCPReg_bytes r v @ rest"
  have "load ?d 2 4 = Some (bytes_of (swap32 v))" by (simp add: load_def LoadCPReg_bytes_def)
  then have sw: "swap32_ptr ?d 2 = Some v"
    by (simp add: swap32_ptr_def of_bytes_of swap_involution)
  have rd: "read8 ?d 0 = Some 8" "read8 ?d (Suc 0) = Some r" by (simp_all add: read8_def LoadCPReg_bytes_def)
  have a: "\<not> a < 1" "\<not> a < 6" using assms by (simp_all add: word_less_nat_alt)
  have "detail_RunCommand vs cb ?d a s = Some (6, cb (OnCP_event r v) s)"
    unfolding detail_RunCommand_def rd bind.simps if_not_P [OF a(1)]
    by (simp add: field_defs run_cp_def if_not_P [OF a(2)] rd sw del: word_less_1)
  moreover have "load ?d 0 (unat (6 :: u32)) = Some (LoadCPReg_bytes r v)"
    by (simp add: load_def)
  ultimately show ?thesis by (simp add: RunCommand_def)
qed

lemma run_cp_stream:
  assumes "length data < 2 ^ 32" "unat available = length data" "unat consumed \<le> length data"
    and "drop (unat consumed) data = concat (map (\<lambda>(r, v). LoadCPReg_bytes r v) ws)"
  shows "run_from vs cb data available consumed s =
    Some (available, fold (\<lambda>(r, v) s. cb (OnCommand (LoadCPReg_bytes r v)) (cb (OnCP_event r v) s)) ws s)"
  using assms(3,4)
proof (induction ws arbitrary: consumed s)
  case Nil
  then have "unat consumed = unat available" using assms(2) by simp
  then have "consumed = available" by (simp add: word_unat_eq_iff)
  then show ?case by (subst run_from.simps) simp
next
  case (Cons w ws)
  obtain r v where w: "w = (r, v)" by force
  have len: "unat consumed + 6 \<le> length data"
    using arg_cong [OF Cons.prems(2), of length] by (simp add: w)
  then have lt: "consumed < available" using assms(2) by (simp add: word_less_nat_alt)
  have rest: "unat (available - consumed) = length data - unat consumed"
    using lt assms(2) by (simp add: unat_sub)
  have sum: "unat (consumed + 6) = unat consumed + 6"
    using len assms(1) by (simp add: unat_add_lem [THEN iffD1])
  have six: "6 \<le> unat (available - consumed)" using rest len by linarith
  have cmd: "RunCommand vs cb (drop (unat consumed) data) (available - consumed) s =
      Some (6, cb (OnCommand (LoadCPReg_bytes r v)) (cb (OnCP_event r v) s))"
    unfolding Cons.prems(2) by (simp add: w RunCommand_cp [OF six])
  have "drop (unat (consumed + 6)) data = concat (map (\<lambda>(r, v). LoadCPReg_bytes r v) ws)"
    using arg_cong [OF Cons.prems(2), of "drop 6"] by (simp add: sum w add.commute)
  then show ?case
    using Cons.IH [of "consumed + 6"] lt cmd len sum by (subst run_from.simps) (simp add: w)
qed

section \<open>Properties\<close>

text \<open>
  Memory safety of the decoder: given a callback whose vertex sizes are at most 129 bytes,
  \<^verbatim>\<open>RunCommand\<close> on any bytes never reads past the \<^verbatim>\<open>available\<close> bytes of the buffer and
  returns a size of at most \<^verbatim>\<open>available\<close>.
\<close>

theorem run_command_safe:
  assumes "\<And>vat s. unat (fst (vertex_size_of vat s)) \<le> 129" "unat available \<le> length data"
  shows "\<exists>n s'. RunCommand vertex_size_of callback data available s = Some (n, s') \<and> n \<le> available"
proof -
  have "decoder_callback vertex_size_of callback (\<lambda>s. True)" using assms(1) by unfold_locales simp_all
  from decoder_callback.RunCommand_safe [OF this assms(2), of s] show ?thesis by auto
qed

theorem run_command_safe_witness:
  "\<exists>n s'. RunCommand (\<lambda>vat s. (12, s)) (\<lambda>e s. e # s) [0x80, 0, 2, 1] 4 [] = Some (n, s') \<and> n \<le> 4"
  by (rule run_command_safe) simp_all



text \<open>
  A complete command other than a run of NOPs is decoded the same way however many bytes
  follow it: with a longer buffer that starts with the same bytes \<^verbatim>\<open>RunCommand\<close> returns the
  same size and makes the same calls.
\<close>

theorem run_command_stable:
  assumes "\<And>vat s. unat (fst (vertex_size_of vat s)) \<le> 129"
    and "RunCommand vertex_size_of callback data available s = Some (n, s')" "0 < n" "data ! 0 \<noteq> GX_NOP"
    and "unat available \<le> length data" "available \<le> available'" "take (unat available) data' = take (unat available) data"
    and "unat available' \<le> length data'"
  shows "RunCommand vertex_size_of callback data' available' s = Some (n, s')"
proof -
  have "decoder_callback vertex_size_of callback (\<lambda>s. True)" using assms(1) by unfold_locales simp_all
  moreover have "agree (unat available) data data'"
    using assms(5-8) by (simp add: agree_def word_le_nat_alt)
  ultimately show ?thesis using decoder_callback.RunCommand_stable assms(2-4,6) by metis
qed

theorem run_command_stable_witness:
  "RunCommand (\<lambda>vat s. (12, s)) (\<lambda>e s. e # s) (LoadCPReg_bytes 0x50 7 @ [1, 2, 3]) 9 [] =
    Some (6, [OnCommand (LoadCPReg_bytes 0x50 7), OnCP_event 0x50 7])"
proof (rule run_command_stable [where data = "LoadCPReg_bytes 0x50 7" and available = 6])
  show "RunCommand (\<lambda>vat s. (12, s)) (\<lambda>e s. e # s) (LoadCPReg_bytes 0x50 7) 6 [] =
      Some (6, [OnCommand (LoadCPReg_bytes 0x50 7), OnCP_event 0x50 7])"
    using RunCommand_cp [of 6 "\<lambda>vat s. (12, s)" "\<lambda>e s. e # s" "0x50" 7 "[]" "[]"] by simp
qed (simp_all add: GX_NOP_def, simp add: LoadCPReg_bytes_def)


lemma sample_env_ok: "env_ok sample_env"
  by (simp add: env_ok_def sample_env_def)


text \<open>
  A display list runs to its end, one level deep: the handler has the effect of decoding the
  bytes of the list with nested calls ignored, and a null range leaves the state alone.
\<close>

theorem display_list_runs:
  assumes "env_ok env" "loader_reachable env s"
  shows "(case GetPointerForRange env address sz of
      None \<Rightarrow> RunCallback env (OnDisplayList address sz) s = s
    | Some xs \<Rightarrow> (\<exists>k. Run (Callback_GetVertexSize env) (run_callback_basic env) xs sz s =
        Some (k, RunCallback env (OnDisplayList address sz) s))) \<and>
    run_callback_basic env (OnDisplayList address sz) s = s \<and>
    loader_reachable env (RunCallback env (OnDisplayList address sz) s)"
proof (cases "GetPointerForRange env address sz")
  case None
  with assms(2) show ?thesis by (simp add: RunCallback_def OnDisplayList_run_def run_callback_basic_def)
next
  case (Some xs)
  then have "length xs = unat sz" using assms(1) by (simp add: env_ok_def)
  from display_list_run [OF assms(2) Some this] Some show ?thesis
    by (auto simp: RunCallback_def run_callback_basic_def)
qed

theorem display_list_runs_witness:
  "\<exists>k. Run (Callback_GetVertexSize sample_env) (run_callback_basic sample_env) (replicate 64 0) 64 start_state =
     Some (k, RunCallback sample_env (OnDisplayList 0x1000 64) start_state)"
  using display_list_runs [OF sample_env_ok start_reachable, where address = "0x1000" and sz = 64]
  by (simp add: sample_env_def)

end
