(* ===== verification/Fifo.thy ===== *)
theory Fifo
  imports Fifo_Batch Opcode_Decoding
begin

text \<open>
  The video buffer of \<^verbatim>\<open>VideoCommon/Fifo.cpp\<close> between the ring in emulated memory and the
  opcode decoder: \<^verbatim>\<open>FifoManager::ReadDataFromFifo\<close>, and the body of the loop of
  \<^verbatim>\<open>FifoManager::RunGpuLoop\<close> that reads a batch, decodes it and moves the pointers. The main
  results are that the buffer is a queue of the bytes not yet decoded, and that decoding in
  batches leaves the decoder's state and the queue as decoding block by block does.
\<close>

section \<open>The video buffer\<close>

definition FIFO_SIZE :: nat where
  [field_defs]: "FIFO_SIZE = 2 * 1024 * 1024"

record video_buffer =
  m_video_buffer :: "u8 list"
  m_video_buffer_read_ptr :: nat
  m_video_buffer_write_ptr :: nat

definition ResetVideoBuffer :: "video_buffer \<Rightarrow> video_buffer" where
  "ResetVideoBuffer b = b\<lparr>m_video_buffer_read_ptr := 0, m_video_buffer_write_ptr := 0\<rparr>"

text \<open>Emulated memory as a function of the address; the copy of a range of it.\<close>

definition CopyFromEmu :: "(u32 \<Rightarrow> u8) \<Rightarrow> u32 \<Rightarrow> nat \<Rightarrow> u8 list" where
  "CopyFromEmu mem address n = map (\<lambda>i. mem (address + word_of_nat i)) [0..<n]"

text \<open>\<open>copy_to xs p ys\<close>: the list \<open>xs\<close> with \<open>ys\<close> written over it from \<open>p\<close>.\<close>

definition copy_to :: "u8 list \<Rightarrow> nat \<Rightarrow> u8 list \<Rightarrow> u8 list" where
  "copy_to xs p ys = take p xs @ ys @ drop (p + length ys) xs"

text \<open>The first component tells whether the data was taken; the source reports the other case
  with \<^verbatim>\<open>PanicAlertFmt\<close> and returns.\<close>

definition ReadDataFromFifo :: "(u32 \<Rightarrow> u8) \<Rightarrow> u32 \<Rightarrow> u32 \<Rightarrow> video_buffer \<Rightarrow> bool \<times> video_buffer" where
  "ReadDataFromFifo mem read_ptr sz b =
     (let existing_len = m_video_buffer_write_ptr b - m_video_buffer_read_ptr b;
          full = unat sz > FIFO_SIZE - m_video_buffer_write_ptr b;
          moved = b\<lparr>m_video_buffer :=
                      copy_to (m_video_buffer b) 0
                        (take existing_len (drop (m_video_buffer_read_ptr b) (m_video_buffer b))),
                    m_video_buffer_write_ptr := existing_len,
                    m_video_buffer_read_ptr := 0\<rparr>;
          append = (\<lambda>b. b\<lparr>m_video_buffer :=
                      copy_to (m_video_buffer b) (m_video_buffer_write_ptr b)
                        (CopyFromEmu mem read_ptr (unat sz)),
                    m_video_buffer_write_ptr := m_video_buffer_write_ptr b + unat sz\<rparr>)
      in if full \<and> unat sz > FIFO_SIZE - existing_len then (False, b)
         else (True, append (if full then moved else b)))"

definition buffer_ok :: "video_buffer \<Rightarrow> bool" where
  "buffer_ok b \<longleftrightarrow> length (m_video_buffer b) = FIFO_SIZE \<and>
     m_video_buffer_read_ptr b \<le> m_video_buffer_write_ptr b \<and> m_video_buffer_write_ptr b \<le> FIFO_SIZE"

definition pending :: "video_buffer \<Rightarrow> u8 list" where
  "pending b = take (m_video_buffer_write_ptr b - m_video_buffer_read_ptr b)
     (drop (m_video_buffer_read_ptr b) (m_video_buffer b))"

lemma length_CopyFromEmu [simp]: "length (CopyFromEmu mem a n) = n"
  by (simp add: CopyFromEmu_def)

lemma length_pending: "buffer_ok b \<Longrightarrow> length (pending b) = m_video_buffer_write_ptr b - m_video_buffer_read_ptr b"
  by (auto simp: buffer_ok_def pending_def)

lemma length_copy_to [simp]: "p + length ys \<le> length xs \<Longrightarrow> length (copy_to xs p ys) = length xs"
  by (simp add: copy_to_def)

text \<open>Appending at the write pointer when there is room.\<close>

lemma append_pending:
  assumes "buffer_ok b" "m_video_buffer_write_ptr b + length ys \<le> FIFO_SIZE"
  defines "c \<equiv> b\<lparr>m_video_buffer := copy_to (m_video_buffer b) (m_video_buffer_write_ptr b) ys,
      m_video_buffer_write_ptr := m_video_buffer_write_ptr b + length ys\<rparr>"
  shows "buffer_ok c" "pending c = pending b @ ys"
proof -
  let ?xs = "m_video_buffer b" and ?r = "m_video_buffer_read_ptr b" and ?w = "m_video_buffer_write_ptr b"
  have le: "?r \<le> ?w" "?w + length ys \<le> length ?xs" using assms by (simp_all add: buffer_ok_def)
  then show "buffer_ok c" using assms by (simp add: buffer_ok_def c_def)
  have "drop ?r (copy_to ?xs ?w ys) = take (?w - ?r) (drop ?r ?xs) @ ys @ drop (?w + length ys) ?xs"
    using le by (simp add: copy_to_def drop_take)
  then show "pending c = pending b @ ys"
    using le by (simp add: pending_def c_def)
qed

lemma move_pending:
  assumes "buffer_ok b"
  defines "c \<equiv> b\<lparr>m_video_buffer := copy_to (m_video_buffer b) 0 (pending b),
      m_video_buffer_write_ptr := m_video_buffer_write_ptr b - m_video_buffer_read_ptr b,
      m_video_buffer_read_ptr := 0\<rparr>"
  shows "buffer_ok c" "pending c = pending b"
proof -
  have l: "length (pending b) = m_video_buffer_write_ptr b - m_video_buffer_read_ptr b"
    using assms(1) by (rule length_pending)
  then show "buffer_ok c" using assms by (auto simp: buffer_ok_def c_def)
  have "pending c = take (length (pending b)) (copy_to (m_video_buffer b) 0 (pending b))"
    unfolding pending_def [of c] l by (simp add: c_def)
  then show "pending c = pending b" by (simp add: copy_to_def)
qed

lemma ReadDataFromFifo_queue:
  assumes "buffer_ok b"
  shows "fst (ReadDataFromFifo mem a sz b) \<longleftrightarrow> length (pending b) + unat sz \<le> FIFO_SIZE"
    and "buffer_ok (snd (ReadDataFromFifo mem a sz b))"
    and "fst (ReadDataFromFifo mem a sz b) \<Longrightarrow>
      pending (snd (ReadDataFromFifo mem a sz b)) = pending b @ CopyFromEmu mem a (unat sz)"
    and "\<not> fst (ReadDataFromFifo mem a sz b) \<Longrightarrow> snd (ReadDataFromFifo mem a sz b) = b"
proof -
  let ?e = "m_video_buffer_write_ptr b - m_video_buffer_read_ptr b" and ?ys = "CopyFromEmu mem a (unat sz)"
  define mv where "mv = b\<lparr>m_video_buffer := copy_to (m_video_buffer b) 0 (pending b),
      m_video_buffer_write_ptr := ?e, m_video_buffer_read_ptr := 0\<rparr>"
  define ap where "ap c = c\<lparr>m_video_buffer := copy_to (m_video_buffer c) (m_video_buffer_write_ptr c) ?ys,
      m_video_buffer_write_ptr := m_video_buffer_write_ptr c + unat sz\<rparr>" for c :: video_buffer
  define full where "full \<longleftrightarrow> unat sz > FIFO_SIZE - m_video_buffer_write_ptr b"
  have rd: "ReadDataFromFifo mem a sz b = (if full \<and> unat sz > FIFO_SIZE - ?e then (False, b)
      else (True, ap (if full then mv else b)))"
    unfolding ReadDataFromFifo_def Let_def full_def [symmetric] mv_def ap_def pending_def by simp
  have len: "length (pending b) = ?e" "m_video_buffer_write_ptr b \<le> FIFO_SIZE"
    using length_pending [OF assms] assms by (simp_all add: buffer_ok_def)
  have mv: "buffer_ok mv" "pending mv = pending b" "m_video_buffer_write_ptr mv = ?e"
    using move_pending [OF assms, folded mv_def] by (simp_all add: mv_def)
  have ap: "buffer_ok (ap c) \<and> pending (ap c) = pending c @ ?ys"
    if "buffer_ok c" "m_video_buffer_write_ptr c + unat sz \<le> FIFO_SIZE" for c
    using append_pending [OF that(1), of ?ys] that(2) by (simp add: ap_def)
  show "fst (ReadDataFromFifo mem a sz b) \<longleftrightarrow> length (pending b) + unat sz \<le> FIFO_SIZE"
    using len by (auto simp: rd full_def)
  show "buffer_ok (snd (ReadDataFromFifo mem a sz b))"
    using assms len mv ap [of b] ap [of mv] by (auto simp: rd full_def)
  show "pending (snd (ReadDataFromFifo mem a sz b)) = pending b @ ?ys" if "fst (ReadDataFromFifo mem a sz b)"
    using that assms len mv ap [of b] ap [of mv] by (auto simp: rd full_def split: if_splits)
  show "snd (ReadDataFromFifo mem a sz b) = b" if "\<not> fst (ReadDataFromFifo mem a sz b)"
    using that by (auto simp: rd split: if_splits)
qed

section \<open>Decoding in pieces\<close>

definition nop_run :: "u8 list \<Rightarrow> nat \<Rightarrow> nat \<Rightarrow> bool" where
  "nop_run d a n \<longleftrightarrow> n \<le> a \<and> (\<forall>i < n. d ! i = GX_NOP) \<and> (n < a \<longrightarrow> d ! n \<noteq> GX_NOP)"

lemma nop_run_unique: "nop_run d a n \<Longrightarrow> nop_run d a m \<Longrightarrow> n = m"
  unfolding nop_run_def by (metis linorder_neqE_nat order_less_le_trans)

lemma nop_run_longer:
  "nop_run d a n \<Longrightarrow> n < a \<Longrightarrow> a \<le> a' \<Longrightarrow> agree a d d' \<Longrightarrow> nop_run d' a' n"
  unfolding nop_run_def agree_def by (metis le_trans nth_take order_less_trans)

lemma nop_run_ge:
  "nop_run d a a \<Longrightarrow> nop_run d' a' n \<Longrightarrow> a \<le> a' \<Longrightarrow> agree a d d' \<Longrightarrow> a \<le> n"
  unfolding nop_run_def agree_def by (metis not_le nth_take order_less_le_trans)

lemma nop_run_drop:
  assumes "nop_run d a n" "k \<le> n" "n \<le> length d"
  shows "nop_run (drop k d) (a - k) (n - k)"
proof -
  have "drop k d ! i = GX_NOP" if "i < n - k" for i
    using that assms by (simp add: nop_run_def less_diff_conv add.commute)
  then show ?thesis using assms by (auto simp: nop_run_def)
qed

lemma agree_drop: "agree a d d' \<Longrightarrow> c \<le> a \<Longrightarrow> agree (a - c) (drop c d) (drop c d')"
  by (auto simp: agree_def take_drop)

text \<open>
  A callback that does nothing on runs of NOPs and on the closing event of a command, and whose
  answer on the size of a vertex is the same when asked again.
\<close>

locale silent_decoder = decoder_callback vertex_size_of callback ok
  for vertex_size_of :: "'s vertex_sizes" and callback :: "'s handler" and ok :: "'s \<Rightarrow> bool" +
  assumes nop_law: "callback (OnNop n) s = s"
    and command_law: "callback (OnCommand d) s = s"
    and idem_law: "ok s \<Longrightarrow> unat vat < 8 \<Longrightarrow>
      vertex_size_of vat (snd (vertex_size_of vat s)) = vertex_size_of vat s"
begin

text \<open>An incomplete command can only have asked for a vertex size; decoding it again, with more
  bytes, goes as if it had not.\<close>

lemma run_primitive_zero:
  assumes ag: "agree (unat a) d d'" and a': "a \<le> a'" and "ok s"
    and r: "run_primitive vertex_size_of callback cmd d a s = Some (0, t)"
  shows "run_primitive vertex_size_of callback cmd d' a' t = run_primitive vertex_size_of callback cmd d' a' s"
proof (cases "a < 3")
  case True
  with r show ?thesis by (simp add: run_primitive_def)
next
  case a3: False
  then have a3': "\<not> a' < 3" using a' by auto
  let ?vat = "cmd AND GX_VAT_MASK"
  obtain v s1 where v: "vertex_size_of ?vat s = (v, s1)" by force
  have v129: "unat v \<le> 129" using vertex_size_law [OF assms(3), of ?vat] v by simp
  have v1: "vertex_size_of ?vat s1 = (v, s1)" using idem_law [OF assms(3), of ?vat] v by simp
  obtain u where u: "swap16_ptr d 1 = Some u"
    using r a3 v by (cases "swap16_ptr d 1") (auto simp: run_primitive_def Let_def)
  have "3 + ucast u * v \<noteq> 0" using primitive_total [OF v129, of u] by (metis add_is_0 unat_0 zero_neq_numeral)
  then have "t = s1"
    using r unfolding run_primitive_eq [where vs = vertex_size_of and cb = callback, OF a3 u v]
    by (auto split: if_splits bind_splits)
  moreover have u': "swap16_ptr d' 1 = Some u"
    using read_agree(3) [OF ag, of 1] u a3 by (simp add: word_less_nat_alt)
  ultimately show ?thesis
    using run_primitive_eq [where vs = vertex_size_of and cb = callback, OF a3' u' v]
      run_primitive_eq [where vs = vertex_size_of and cb = callback, OF a3' u' v1] by simp
qed

lemma detail_RunCommand_zero:
  assumes ag: "agree (unat a) d d'" and a': "a \<le> a'" and "ok s"
    and r: "detail_RunCommand vertex_size_of callback d a s = Some (0, t)"
  shows "detail_RunCommand vertex_size_of callback d' a' t = detail_RunCommand vertex_size_of callback d' a' s"
proof (cases "a < 1")
  case True
  then show ?thesis using r by (simp add: detail_RunCommand_def)
next
  case False
  have len: "unat a \<le> length d" using ag by (simp add: agree_def)
  have one: "1 \<le> a" using False by (simp only: not_less)
  from count_nops_ok [OF len one] have nop: "count_nops d a 1 \<noteq> Some 0" by auto
  have xf: "5 + ucast n * 4 \<noteq> (0 :: u32)" for n :: u8
    using xf_total [of n] by (metis add_is_0 unat_0 zero_neq_numeral)
  have "0 < unat a" using False by (simp add: word_less_nat_alt)
  then have rd: "read8 d' 0 = Some (d ! 0)" "read8 d 0 = Some (d ! 0)"
    using read_agree(1) [OF ag, of 0] ag by (auto simp: read8_def agree_def)
  let ?prim = "run_primitive vertex_size_of callback (d ! 0) d a s = Some (0, t)"
  have "t = s \<or> ?prim"
    using r nop xf if_not_P [OF False] rd(2)
    by (auto simp: detail_RunCommand_def run_nop_def run_cp_def run_xf_def run_indexed_def
        run_display_list_def run_bp_def Let_def split: if_splits bind_splits)
  moreover have ?thesis if prim: ?prim and ne: "t \<noteq> s"
  proof -
    have "GX_PRIMITIVE_START \<le> d ! 0"
      using r ne nop xf if_not_P [OF False] rd(2)
      by (auto simp: detail_RunCommand_def run_nop_def run_cp_def run_xf_def run_indexed_def
        run_display_list_def run_bp_def Let_def split: if_splits bind_splits)
    then have "d ! 0 \<noteq> GX_NOP" "d ! 0 \<noteq> GX_LOAD_CP_REG" "d ! 0 \<noteq> GX_LOAD_XF_REG"
      "\<not> (d ! 0 = GX_LOAD_INDX_A \<or> d ! 0 = GX_LOAD_INDX_B \<or> d ! 0 = GX_LOAD_INDX_C \<or> d ! 0 = GX_LOAD_INDX_D)"
      "d ! 0 \<noteq> GX_CMD_CALL_DL" "d ! 0 \<noteq> GX_LOAD_BP_REG"
      by (auto simp: field_defs)
    note ne' = this [THEN if_not_P]
    have le: "d ! 0 \<le> GX_PRIMITIVE_END"
      using r ne rd(2) if_not_P [OF False] unfolding detail_RunCommand_def ne'
      by (auto simp: detail_RunCommand_def ne' split: if_splits)
    have "\<not> a' < 1" using one a' by (meson not_less order_trans)
    then show ?thesis
      using run_primitive_zero [OF ag a' assms(3) prim] \<open>GX_PRIMITIVE_START \<le> d ! 0\<close> le
      unfolding detail_RunCommand_def rd(1) bind.simps ne' by simp
  qed
  ultimately show ?thesis by blast
qed

lemma RunCommand_zero:
  assumes ag: "agree (unat a) d d'" and a': "a \<le> a'" and "ok s"
    and r: "RunCommand vertex_size_of callback d a s = Some (0, t)"
  shows "RunCommand vertex_size_of callback d' a' t = RunCommand vertex_size_of callback d' a' s"
proof -
  have "detail_RunCommand vertex_size_of callback d a s = Some (0, t)"
    using r by (auto simp: RunCommand_def split: bind_splits if_splits)
  from detail_RunCommand_zero [OF ag a' assms(3) this] show ?thesis by (simp add: RunCommand_def)
qed

lemma RunCommand_nops:
  assumes "unat a \<le> length d" "0 < unat a" "d ! 0 = GX_NOP"
  shows "\<exists>n. RunCommand vertex_size_of callback d a s = Some (n, s) \<and> 1 \<le> n \<and> n \<le> a \<and>
    nop_run d (unat a) (unat n)"
proof -
  have one: "1 \<le> a" using assms(2) by (simp add: word_le_nat_alt)
  from count_nops_ok [OF assms(1) one] obtain n where
    n: "count_nops d a 1 = Some n" "1 \<le> n" "n \<le> a"
      "\<forall>i. unat (1 :: u32) \<le> i \<and> i < unat n \<longrightarrow> d ! i = GX_NOP" "n < a \<longrightarrow> d ! unat n \<noteq> GX_NOP" by blast
  have "0 < length d" using assms(1,2) by linarith
  then have "read8 d 0 = Some GX_NOP" using assms(3) by (simp add: read8_def)
  moreover have "\<not> a < 1" using one by (simp only: not_less)
  ultimately have "detail_RunCommand vertex_size_of callback d a s = Some (n, s)"
    using n(1) by (simp only: detail_RunCommand_def bind.simps if_False if_True simp_thms run_nop_def nop_law)
  moreover have "0 < n" using n(2) by (simp add: word_less_nat_alt word_le_nat_alt)
  moreover have "unat n \<le> length d" using n(3) assms(1) by (simp add: word_le_nat_alt)
  ultimately have "RunCommand vertex_size_of callback d a s = Some (n, s)"
    by (simp add: RunCommand_def command_law load_def)
  moreover have "\<forall>i < unat n. d ! i = GX_NOP"
    using n(4) assms(3) by (metis One_nat_def Suc_leI gr0I unat_1)
  ultimately show ?thesis
    using n(2,3,5) by (auto simp: nop_run_def word_less_nat_alt word_le_nat_alt)
qed

lemma run_from_step:
  assumes "c < a" "RunCommand vertex_size_of callback (drop (unat c) d) (a - c) s = Some (k, t)" "k \<noteq> 0"
  shows "run_from vertex_size_of callback d a c s = run_from vertex_size_of callback d a (c + k) t"
  using assms by (subst run_from.simps) simp

lemma run_from_nops:
  assumes "unat a \<le> length d" "c < a" "d ! unat c = GX_NOP"
  obtains k where "RunCommand vertex_size_of callback (drop (unat c) d) (a - c) s = Some (k, s)"
    "0 < unat k" "unat c + unat k \<le> unat a" "unat (c + k) = unat c + unat k"
    "nop_run (drop (unat c) d) (unat a - unat c) (unat k)"
    "run_from vertex_size_of callback d a c s = run_from vertex_size_of callback d a (c + k) s"
proof -
  have u: "unat (a - c) = unat a - unat c" "unat c < unat a"
    using assms(2) by (simp_all add: unat_sub word_less_nat_alt less_imp_le)
  have "unat a - unat c \<le> length d - unat c" using assms(1) by (rule diff_le_mono)
  with RunCommand_nops [of "a - c" "drop (unat c) d" s] assms u obtain k where
    k: "RunCommand vertex_size_of callback (drop (unat c) d) (a - c) s = Some (k, s)" "1 \<le> k" "k \<le> a - c"
      "nop_run (drop (unat c) d) (unat a - unat c) (unat k)" by auto
  have pos: "0 < unat k" using k(2) by (simp add: word_le_nat_alt)
  have le: "unat c + unat k \<le> unat a" using k(3) u by (simp add: word_le_nat_alt)
  then have "unat (c + k) = unat c + unat k"
    using unat_less [of a] by (simp add: unat_add_lem [THEN iffD1])
  moreover have "k \<noteq> 0" using pos by auto
  ultimately show ?thesis using that k pos le run_from_step [OF assms(2) k(1)] by blast
qed

text \<open>What a run on a prefix consumes, a run on the longer buffer consumes first.\<close>

lemma run_nops_split:
  assumes ag: "agree (unat a) d d'" and "a \<le> T" "unat T \<le> length d'" "c < a"
    and nops: "nop_run (drop (unat c) d) (unat a - unat c) (unat a - unat c)"
  shows "run_from vertex_size_of callback d' T c s = run_from vertex_size_of callback d' T a s"
proof -
  let ?c = "unat c" and ?a = "unat a" and ?T = "unat T"
  have lt: "?c < ?a" "?a \<le> ?T" "c < T"
    using assms(2,4) by (auto simp: word_less_nat_alt word_le_nat_alt)
  have ag': "agree (?a - ?c) (drop ?c d) (drop ?c d')" using agree_drop [OF ag, of ?c] lt by simp
  have "d ! ?c = GX_NOP" using nops lt ag by (auto simp: nop_run_def agree_def dest!: spec [of _ 0])
  then have "d' ! ?c = GX_NOP" using ag lt by (metis agree_def nth_take)
  then obtain k where k: "0 < unat k" "?c + unat k \<le> ?T" "unat (c + k) = ?c + unat k"
      "nop_run (drop ?c d') (?T - ?c) (unat k)"
      "run_from vertex_size_of callback d' T c s = run_from vertex_size_of callback d' T (c + k) s"
    using run_from_nops [OF assms(3) \<open>c < T\<close>] by metis
  have ge: "?a - ?c \<le> unat k" using nop_run_ge [OF nops k(4) _ ag'] lt by simp
  show ?thesis
  proof (cases "unat k = ?a - ?c")
    case True
    then have "unat (c + k) = ?a" using k(3) lt by simp
    then have "c + k = a" by (simp add: word_unat_eq_iff)
    with k(5) show ?thesis by simp
  next
    case False
    have dd: "nop_run (drop ?a d') (?T - ?a) (unat k - (?a - ?c))"
      using nop_run_drop [OF k(4) ge] lt k(2) assms(3) by simp
    have "a < T" using False ge k(2) lt by (simp add: word_less_nat_alt)
    moreover have "d' ! ?a = GX_NOP"
      using dd False ge \<open>a < T\<close> assms(3) by (auto simp: nop_run_def word_less_nat_alt dest!: spec [of _ 0])
    ultimately obtain j where j: "unat (a + j) = ?a + unat j" "nop_run (drop ?a d') (?T - ?a) (unat j)"
        "run_from vertex_size_of callback d' T a s = run_from vertex_size_of callback d' T (a + j) s"
      using run_from_nops [OF assms(3)] by metis
    have "unat j = unat k - (?a - ?c)" using nop_run_unique [OF j(2) dd] .
    then have "unat (a + j) = unat (c + k)" using j(1) k(3) ge lt by simp
    then have "a + j = c + k" by (simp add: word_unat_eq_iff)
    with j(3) k(5) show ?thesis by simp
  qed
qed


lemma run_from_split:
  assumes ag: "agree (unat a) d d'" and aT: "a \<le> T" "unat T \<le> length d'"
    and "c \<le> a" "ok s" "run_from vertex_size_of callback d a c s = Some (n, s')"
  shows "run_from vertex_size_of callback d' T c s = run_from vertex_size_of callback d' T n s'"
  using assms(4-6)
proof (induction "unat (a - c)" arbitrary: c s rule: less_induct)
  case less
  let ?c = "unat c" and ?a = "unat a"
  have len: "?a \<le> length d" using ag by (simp add: agree_def)
  show ?case
  proof (cases "c < a")
    case False
    have "n = c \<and> s' = s" using less.prems(3) False by (subst (asm) run_from.simps) simp
    then show ?thesis by simp
  next
    case True
    have lt: "?c < ?a" "c < T" using True aT by (auto simp: word_less_nat_alt word_le_nat_alt)
    have u: "unat (a - c) = ?a - ?c" "unat (T - c) = unat T - ?c"
      using True lt by (simp_all add: unat_sub less_imp_le)
    have sub: "a - c \<le> T - c" using aT(1) u by (simp add: word_le_nat_alt)
    have dl: "unat (a - c) \<le> length (drop ?c d)" using len u by simp
    from RunCommand_safe [OF dl less.prems(2)] obtain k t where
      k: "RunCommand vertex_size_of callback (drop ?c d) (a - c) s = Some (k, t)" "k \<le> a - c" and "ok t" by blast
    have ag': "agree (unat (a - c)) (drop ?c d) (drop ?c d')" using agree_drop [OF ag, of ?c] lt u by simp
    have sum: "?c + unat k \<le> ?a" "unat (c + k) = ?c + unat k"
      using k(2) u lt unat_less [of a] by (auto simp: word_le_nat_alt unat_add_lem [THEN iffD1])
    have IH: "run_from vertex_size_of callback d' T (c + k) t = run_from vertex_size_of callback d' T n s'" if "k \<noteq> 0"
    proof (rule less.hyps)
      have "0 < unat k" using that by (simp add: unat_gt_0)
      then show "unat (a - (c + k)) < unat (a - c)" "c + k \<le> a"
        using sum lt u by (simp_all add: unat_sub word_le_nat_alt)
      show "run_from vertex_size_of callback d a (c + k) t = Some (n, s')"
        using less.prems(3) run_from_step [OF True k(1) that] by simp
    qed (rule \<open>ok t\<close>)
    consider "k = 0" | "k \<noteq> 0" "drop ?c d ! 0 \<noteq> GX_NOP" | "k \<noteq> 0" "drop ?c d ! 0 = GX_NOP" by blast
    then show ?thesis
    proof cases
      case 1
      with k(1) have "RunCommand vertex_size_of callback (drop ?c d') (T - c) t =
          RunCommand vertex_size_of callback (drop ?c d') (T - c) s"
        using RunCommand_zero [OF ag' sub less.prems(2)] by simp
      moreover have "n = c \<and> s' = t" using less.prems(3) True k 1 by (subst (asm) run_from.simps) simp
      ultimately show ?thesis using lt(2) by (simp add: run_from.simps [of _ _ _ _ c])
    next
      case 2
      have "0 < k" using 2(1) by (simp add: word_gt_0)
      from RunCommand_stable [OF ag' sub this 2(2) less.prems(2) k(1)]
      show ?thesis using run_from_step [OF lt(2)] 2(1) IH by simp
    next
      case 3
      then have d: "d ! ?c = GX_NOP" using len lt by simp
      obtain j where j: "RunCommand vertex_size_of callback (drop ?c d) (a - c) s = Some (j, s)"
          "nop_run (drop ?c d) (?a - ?c) (unat j)"
        using run_from_nops [OF len True d, of s] by metis
      with k have kj: "k = j" "t = s" by simp_all
      show ?thesis
      proof (cases "unat k < ?a - ?c")
        case True
        have run: "nop_run (drop ?c d') (unat T - ?c) (unat k)"
          using nop_run_longer [OF j(2)] True kj ag' u sub by (simp add: word_le_nat_alt)
        have "d' ! ?c = GX_NOP" using d ag lt by (metis agree_def nth_take)
        then obtain i where i: "nop_run (drop ?c d') (unat T - ?c) (unat i)"
            "run_from vertex_size_of callback d' T c s = run_from vertex_size_of callback d' T (c + i) s"
          using run_from_nops [OF aT(2) lt(2), of s] by metis
        have "i = k" using nop_run_unique [OF i(1) run] by (simp add: word_unat_eq_iff)
        with i(2) IH 3(1) kj show ?thesis by simp
      next
        case False
        then have full: "unat k = ?a - ?c" using sum(1) by simp
        then have "c + k = a" using sum(2) lt by (simp add: word_unat_eq_iff)
        then have "run_from vertex_size_of callback d' T a s = run_from vertex_size_of callback d' T n s'"
          using IH 3(1) kj by simp
        moreover have "nop_run (drop ?c d) (?a - ?c) (?a - ?c)" using j(2) full kj by simp
        ultimately show ?thesis using run_nops_split [OF ag aT True] by simp
      qed
    qed
  qed
qed

lemma run_from_shift:
  assumes "unat T \<le> length d" "c \<le> T" "ok s"
  shows "run_from vertex_size_of callback d T c s =
    map_option (\<lambda>(m, t). (c + m, t)) (Run vertex_size_of callback (drop (unat c) d) (T - c) s)"
proof -
  have "run_from vertex_size_of callback d T (c + m) s =
    map_option (\<lambda>(m, t). (c + m, t)) (run_from vertex_size_of callback (drop (unat c) d) (T - c) m s)"
    if "m \<le> T - c" "ok s" for m s
    using that
  proof (induction "unat (T - c - m)" arbitrary: m s rule: less_induct)
    case less
    have u: "unat (T - c) = unat T - unat c" "unat c \<le> unat T"
      using assms(2) by (simp_all add: unat_sub word_le_nat_alt)
    have m: "unat c + unat m \<le> unat T" using less.prems(1) u by (simp add: word_le_nat_alt)
    then have cm: "unat (c + m) = unat c + unat m"
      using unat_less [of T] by (simp add: unat_add_lem [THEN iffD1])
    have lt: "c + m < T \<longleftrightarrow> m < T - c" using cm u m by (auto simp: word_less_nat_alt)
    show ?case
    proof (cases "m < T - c")
      case False
      then show ?thesis using lt by (simp add: run_from.simps [of _ _ _ _ m] run_from.simps [of _ _ _ _ "c + m"])
    next
      case True
      have len: "unat (T - c - m) \<le> length (drop (unat c + unat m) d)"
        using True assms(1) u by (simp add: unat_sub less_imp_le)
      from RunCommand_safe [OF len less.prems(2)] obtain k t where
        k: "RunCommand vertex_size_of callback (drop (unat c + unat m) d) (T - c - m) s = Some (k, t)"
          "k \<le> T - c - m" and "ok t" by blast
      have k': "RunCommand vertex_size_of callback (drop (unat (c + m)) d) (T - (c + m)) s = Some (k, t)"
        using k(1) cm by (simp add: diff_diff_eq)
      have k'': "RunCommand vertex_size_of callback (drop (unat m) (drop (unat c) d)) (T - c - m) s = Some (k, t)"
        using k(1) by (simp add: add.commute)
      show ?thesis
      proof (cases "k = 0")
        case True
        then show ?thesis
          using lt \<open>m < T - c\<close> k' k''
          by (simp add: run_from.simps [of _ _ _ _ m] run_from.simps [of _ _ _ _ "c + m"])
      next
        case k0: False
        have "unat (T - c - m) = unat (T - c) - unat m" "unat m < unat (T - c)"
          using True by (simp_all add: unat_sub word_less_nat_alt less_imp_le)
        then have mk: "unat m + unat k \<le> unat (T - c)" using k(2) by (simp add: word_le_nat_alt)
        then have "unat (m + k) = unat m + unat k"
          using unat_less [of "T - c"] by (simp add: unat_add_lem [THEN iffD1])
        moreover have "0 < unat k" using k0 by (simp add: unat_gt_0)
        ultimately have "m + k \<le> T - c" "unat (T - c - (m + k)) < unat (T - c - m)"
          using mk True by (simp_all add: word_le_nat_alt unat_sub less_imp_le)
        from less.hyps [OF this(2,1) \<open>ok t\<close>] show ?thesis
          using run_from_step [OF _ k' k0] run_from_step [OF True k'' k0] lt True by (simp add: add.assoc)
      qed
    qed
  qed
  from this [of 0, OF _ assms(3)] show ?thesis by (simp add: Run_def)
qed

text \<open>Running on a prefix and then on what is left with the rest is running on all of it.\<close>

lemma Run_append:
  assumes "unat a = length xs" "unat T = length (xs @ ys)" "ok s"
    and "Run vertex_size_of callback xs a s = Some (n, s')"
  shows "Run vertex_size_of callback (xs @ ys) T s =
    map_option (\<lambda>(m, t). (n + m, t)) (Run vertex_size_of callback (drop (unat n) xs @ ys) (T - n) s')"
    and "n \<le> a" "ok s'"
proof -
  have ag: "agree (unat a) xs (xs @ ys)" using assms(1) by (simp add: agree_def)
  have aT: "a \<le> T" "unat T \<le> length (xs @ ys)" using assms(1,2) by (simp_all add: word_le_nat_alt)
  have r: "run_from vertex_size_of callback xs a 0 s = Some (n, s')" using assms(4) by (simp add: Run_def)
  then show na: "n \<le> a" and ok': "ok s'" using run_from_safe [of a xs 0 s] assms(1,3) by auto
  have "run_from vertex_size_of callback (xs @ ys) T 0 s = run_from vertex_size_of callback (xs @ ys) T n s'"
    by (rule run_from_split [OF ag aT _ assms(3) r]) simp
  moreover have "drop (unat n) (xs @ ys) = drop (unat n) xs @ ys"
    using na assms(1) by (simp add: word_le_nat_alt)
  ultimately show "Run vertex_size_of callback (xs @ ys) T s =
    map_option (\<lambda>(m, t). (n + m, t)) (Run vertex_size_of callback (drop (unat n) xs @ ys) (T - n) s')"
    using run_from_shift [OF aT(2) _ ok', of n] na aT(1) by (simp add: Run_def)
qed

end

interpretation emu_silent: silent_decoder "Callback_GetVertexSize env" "RunCallback env" "decoder_ok env" for env
  by unfold_locales
     (simp_all add: RunCallback_def run_callback_basic_def decoder_ok_def Callback_GetVertexSize_ok(3))

section \<open>The loop body\<close>

record 's gpu_state =
  cp_fifo_state :: cp_fifo
  SafeCPReadPointer :: u32
  buffer :: video_buffer
  decoder :: 's

text \<open>\<^verbatim>\<open>OpcodeDecoder::RunFifo\<close> on the bytes between the read and the write pointer.\<close>

definition RunFifo :: "'s vertex_sizes \<Rightarrow> 's handler \<Rightarrow> u8 list \<Rightarrow> 's \<Rightarrow> (u32 \<times> 's) option" where
  "RunFifo vs cb src s = Run vs cb src (word_of_nat (length src)) s"

definition gpu_iteration ::
  "'s vertex_sizes \<Rightarrow> 's handler \<Rightarrow> (u32 \<Rightarrow> u8) \<Rightarrow> u32 \<Rightarrow> 's gpu_state \<Rightarrow> 's gpu_state option" where
  "gpu_iteration vs cb mem fifo_batch_blocks g =
     (let batch = loop_batch fifo_batch_blocks (cp_fifo_state g);
          b = snd (ReadDataFromFifo mem (CPReadPointer (cp_fifo_state g)) (bytes batch) (buffer g))
      in do { (n, s') \<leftarrow> RunFifo vs cb (pending b) (decoder g);
              let b' = b\<lparr>m_video_buffer_read_ptr := m_video_buffer_read_ptr b + unat n\<rparr>;
              let f = snd (loop_iteration fifo_batch_blocks (cp_fifo_state g));
              Some (g\<lparr>cp_fifo_state := f,
                      SafeCPReadPointer :=
                        (if m_video_buffer_write_ptr b' - m_video_buffer_read_ptr b' = 0
                         then CPReadPointer f else SafeCPReadPointer g),
                      buffer := b', decoder := s'\<rparr>) })"

text \<open>Iterations of the loop.\<close>

fun gpu_iterations ::
  "'s vertex_sizes \<Rightarrow> 's handler \<Rightarrow> (u32 \<Rightarrow> u8) \<Rightarrow> u32 \<Rightarrow> nat \<Rightarrow> 's gpu_state \<Rightarrow> 's gpu_state option" where
  "gpu_iterations vs cb mem m 0 g = Some g"
| "gpu_iterations vs cb mem m (Suc k) g = gpu_iterations vs cb mem m k g \<bind> gpu_iteration vs cb mem m"

definition gpu_ok :: "'s gpu_state \<Rightarrow> bool" where
  "gpu_ok g \<longleftrightarrow> buffer_ok (buffer g)"

lemma CopyFromEmu_add:
  "CopyFromEmu mem a (i + j) = CopyFromEmu mem a i @ CopyFromEmu mem (a + word_of_nat i) j"
  by (induction j) (simp_all add: CopyFromEmu_def add.assoc)

lemma skip_pending:
  assumes "buffer_ok b" "n \<le> length (pending b)"
  defines "c \<equiv> b\<lparr>m_video_buffer_read_ptr := m_video_buffer_read_ptr b + n\<rparr>"
  shows "buffer_ok c" "pending c = drop n (pending b)"
    "m_video_buffer_write_ptr c - m_video_buffer_read_ptr c = 0 \<longleftrightarrow> pending c = []"
proof -
  have "n \<le> m_video_buffer_write_ptr b - m_video_buffer_read_ptr b" using assms(1,2) length_pending by metis
  then show ok: "buffer_ok c" using assms by (auto simp: buffer_ok_def)
  show "pending c = drop n (pending b)"
    by (simp add: pending_def c_def drop_take add.commute)
  show "m_video_buffer_write_ptr c - m_video_buffer_read_ptr c = 0 \<longleftrightarrow> pending c = []"
    using length_pending [OF ok] by auto
qed

text \<open>The number of blocks of a batch is small enough for its bytes not to wrap around.\<close>

lemma blocks_bound:
  assumes "fifo_runnable f"
  shows "unat (blocks (loop_batch m f)) * 32 < 2 ^ 32"
proof (cases "plannable m f")
  case False
  then show ?thesis unfolding loop_batch_single [OF False] by (simp add: loop_batch_def Let_def)
next
  case True
  note pre = loop_batch_plan [OF True]
  note walk = plan_walk [where bpe = "bFF_BPEnable f" and bp = "CPBreakpoint f", OF pre(2-), folded pre(1)]
  show ?thesis using walk(5) unat_less [of "CPReadWriteDistance f"] by (simp add: GATHER_PIPE_SIZE_def)
qed

context silent_decoder
begin

lemma RunFifo_total:
  assumes "length xs \<le> FIFO_SIZE" "ok s"
  shows "\<exists>n s'. RunFifo vertex_size_of callback xs s = Some (n, s') \<and> unat n \<le> length xs \<and> ok s'"
proof -
  have u: "unat (word_of_nat (length xs) :: u32) = length xs"
    using assms by (simp add: unat_word_of_nat_less FIFO_SIZE_def)
  with run_from_safe [of "word_of_nat (length xs)" xs 0 s] assms(2) show ?thesis
    by (auto simp: RunFifo_def Run_def word_le_nat_alt)
qed

lemma RunFifo_append:
  assumes "length (xs @ ys) \<le> FIFO_SIZE" "ok s"
    and "RunFifo vertex_size_of callback xs s = Some (n, t)"
    and "RunFifo vertex_size_of callback (drop (unat n) xs @ ys) t = Some (m, u)"
  shows "RunFifo vertex_size_of callback (xs @ ys) s = Some (n + m, u) \<and> unat (n + m) = unat n + unat m \<and>
    unat n \<le> length xs \<and> unat m \<le> length (drop (unat n) xs @ ys)"
proof -
  have u: "unat (word_of_nat k :: u32) = k" if "k \<le> FIFO_SIZE" for k
    using that by (simp add: unat_word_of_nat_less FIFO_SIZE_def)
  let ?a = "word_of_nat (length xs) :: u32" and ?T = "word_of_nat (length (xs @ ys)) :: u32"
  have a: "unat ?a = length xs" "unat ?T = length (xs @ ys)" using u assms(1) by (simp_all del: of_nat_add)
  note ra = Run_append [OF a assms(2), of n t]
  have na: "unat n \<le> length xs" using ra(2) assms(3) a(1) by (simp add: RunFifo_def word_le_nat_alt)
  have "unat (?T - n) = length (drop (unat n) xs @ ys)"
    using na a by (simp add: unat_sub word_le_nat_alt)
  then have "?T - n = word_of_nat (length (drop (unat n) xs @ ys))"
    using assms(1) by (simp only: word_unat_eq_iff) (subst u, simp_all)
  then have r: "Run vertex_size_of callback (drop (unat n) xs @ ys) (?T - n) t = Some (m, u)"
    if "RunFifo vertex_size_of callback (drop (unat n) xs @ ys) t = Some (m, u)" for u m
    using that by (simp only: RunFifo_def)
  have m: "unat m \<le> length (drop (unat n) xs @ ys)"
    using RunFifo_total [of "drop (unat n) xs @ ys" t] assms ra(3) by (auto simp: RunFifo_def)
  then have "unat n + unat m < 2 ^ 32" using na assms(1) by (simp add: FIFO_SIZE_def)
  then show ?thesis
    using ra(1) assms(3) r [OF assms(4)] na m
    by (simp add: RunFifo_def unat_add_lem [THEN iffD1])
qed

lemma gpu_iteration_effect:
  fixes mem :: "u32 \<Rightarrow> u8" and m :: u32 and g :: "'s gpu_state"
  assumes "gpu_ok g" "ok (decoder g)"
    and "length (pending (buffer g)) + unat (bytes (loop_batch m (cp_fifo_state g))) \<le> FIFO_SIZE"
  defines "xs \<equiv> pending (buffer g) @
      CopyFromEmu mem (CPReadPointer (cp_fifo_state g)) (unat (bytes (loop_batch m (cp_fifo_state g))))"
  obtains n h where "gpu_iteration vertex_size_of callback mem m g = Some h" "gpu_ok h" "ok (decoder h)"
    "RunFifo vertex_size_of callback xs (decoder g) = Some (n, decoder h)"
    "pending (buffer h) = drop (unat n) xs"
    "cp_fifo_state h = snd (loop_iteration m (cp_fifo_state g))"
    "SafeCPReadPointer h = (if pending (buffer h) = [] then CPReadPointer (cp_fifo_state h) else SafeCPReadPointer g)"
proof -
  let ?f = "cp_fifo_state g"
  define b where "b = snd (ReadDataFromFifo mem (CPReadPointer ?f) (bytes (loop_batch m ?f)) (buffer g))"
  have ok: "buffer_ok (buffer g)" using assms(1) by (simp add: gpu_ok_def)
  have b: "buffer_ok b" "pending b = xs"
    using ReadDataFromFifo_queue [OF ok, of mem "CPReadPointer ?f" "bytes (loop_batch m ?f)"] assms(3)
    by (simp_all add: b_def xs_def)
  have "length xs \<le> FIFO_SIZE" using assms(3) by (simp add: xs_def)
  then obtain n s' where n: "RunFifo vertex_size_of callback xs (decoder g) = Some (n, s')" "unat n \<le> length xs" "ok s'"
    using RunFifo_total [OF _ assms(2)] by blast
  note sk = skip_pending [OF b(1), of "unat n", unfolded b(2), OF n(2)]
  let ?b = "b\<lparr>m_video_buffer_read_ptr := m_video_buffer_read_ptr b + unat n\<rparr>"
  let ?h = "g\<lparr>cp_fifo_state := snd (loop_iteration m ?f),
      SafeCPReadPointer := (if pending ?b = [] then CPReadPointer (snd (loop_iteration m ?f)) else SafeCPReadPointer g),
      buffer := ?b, decoder := s'\<rparr>"
  have "gpu_iteration vertex_size_of callback mem m g = Some ?h"
    unfolding gpu_iteration_def Let_def b_def [symmetric] b(2) n(1) sk(3) [symmetric] by simp
  then show ?thesis
    by (rule that) (use n sk in \<open>simp_all add: gpu_ok_def\<close>)
qed


text \<open>The state after \<open>k\<close> iterations of one block.\<close>

lemma single_blocks_effect:
  fixes mem :: "u32 \<Rightarrow> u8" and g :: "'s gpu_state"
  defines "f \<equiv> cp_fifo_state g"
  defines "xs \<equiv> \<lambda>k. pending (buffer g) @ CopyFromEmu mem (CPReadPointer f) (k * 32)"
  assumes "gpu_ok g" "ok (decoder g)" "1 \<le> k" "k \<le> n" "length (pending (buffer g)) + n * 32 \<le> FIFO_SIZE"
    and ptr: "\<And>k. k < n \<Longrightarrow> CPReadPointer ((single_block ^^ k) f) = CPReadPointer f + word_of_nat (k * 32)"
  shows "\<exists>c h. gpu_iterations vertex_size_of callback mem 1 k g = Some h \<and> gpu_ok h \<and> ok (decoder h) \<and>
    RunFifo vertex_size_of callback (xs k) (decoder g) = Some (c, decoder h) \<and>
    pending (buffer h) = drop (unat c) (xs k) \<and> cp_fifo_state h = (single_block ^^ k) f \<and>
    (pending (buffer h) = [] \<longrightarrow> SafeCPReadPointer h = CPReadPointer (cp_fifo_state h))"
  using assms(5,6)
proof (induction k rule: nat_induct_at_least)
  have one: "bytes (loop_batch 1 h) = 32" for h by (simp add: loop_batch_def GATHER_PIPE_SIZE_def Let_def)
  {
    case base
    have room: "length (pending (buffer g)) + unat (bytes (loop_batch 1 (cp_fifo_state g))) \<le> FIFO_SIZE"
      using assms(7) base by (simp add: one)
    obtain c h where "gpu_iteration vertex_size_of callback mem 1 g = Some h" "gpu_ok h" "ok (decoder h)"
      "RunFifo vertex_size_of callback (xs 1) (decoder g) = Some (c, decoder h)"
      "pending (buffer h) = drop (unat c) (xs 1)" "cp_fifo_state h = single_block f"
      "SafeCPReadPointer h = (if pending (buffer h) = [] then CPReadPointer (cp_fifo_state h) else SafeCPReadPointer g)"
      by (rule gpu_iteration_effect [OF assms(3,4) room, of mem]) (simp_all add: one xs_def f_def)
    then show ?case by (intro exI [of _ c] exI [of _ h]) simp
  next
    case (Suc k)
    then obtain c h where h: "gpu_iterations vertex_size_of callback mem 1 k g = Some h" "gpu_ok h" "ok (decoder h)"
        "RunFifo vertex_size_of callback (xs k) (decoder g) = Some (c, decoder h)"
        "pending (buffer h) = drop (unat c) (xs k)" "cp_fifo_state h = (single_block ^^ k) f" by auto
    let ?ys = "CopyFromEmu mem (CPReadPointer f + word_of_nat (k * 32)) 32"
    have app: "xs (Suc k) = xs k @ ?ys"
      using CopyFromEmu_add [of mem "CPReadPointer f" "k * 32" 32] by (simp add: xs_def add.commute)
    have len: "length (xs k @ ?ys) \<le> FIFO_SIZE"
      using assms(7) mult_le_mono1 [OF Suc.prems, of 32] by (simp add: xs_def)
    have room: "length (pending (buffer h)) + unat (bytes (loop_batch 1 (cp_fifo_state h))) \<le> FIFO_SIZE"
      using len by (simp add: h(5) one)
    have rp: "CPReadPointer (cp_fifo_state h) = CPReadPointer f + word_of_nat (k * 32)"
      using ptr [of k] Suc.prems by (simp add: h(6))
    obtain d i where i: "gpu_iteration vertex_size_of callback mem 1 h = Some i" "gpu_ok i" "ok (decoder i)"
      "RunFifo vertex_size_of callback (drop (unat c) (xs k) @ ?ys) (decoder h) = Some (d, decoder i)"
      "pending (buffer i) = drop (unat d) (drop (unat c) (xs k) @ ?ys)"
      "cp_fifo_state i = single_block (cp_fifo_state h)"
      "SafeCPReadPointer i = (if pending (buffer i) = [] then CPReadPointer (cp_fifo_state i) else SafeCPReadPointer h)"
      by (rule gpu_iteration_effect [OF h(2,3) room, of mem]) (simp_all add: one rp h(5) del: of_nat_mult)
    note ra = RunFifo_append [OF len assms(4) h(4) i(4)]
    have "pending (buffer i) = drop (unat (c + d)) (xs (Suc k))"
      using ra i(5) by (simp add: app add.commute)
    then show ?case
      using h(1) i(1,2,3,6,7) ra by (intro exI [of _ "c + d"] exI [of _ i]) (simp add: app h(6))
  }
qed

text \<open>A batch decodes and leaves what its blocks, one by one, decode and leave.\<close>

lemma batched_iteration:
  assumes ok: "gpu_ok g" "fifo_runnable (cp_fifo_state g)" "ok (decoder g)"
    and room: "length (pending (buffer g)) + unat (bytes (loop_batch m (cp_fifo_state g))) \<le> FIFO_SIZE"
  shows "\<exists>n h h'. 1 \<le> n \<and> gpu_iteration vertex_size_of callback mem m g = Some h \<and>
    gpu_iterations vertex_size_of callback mem 1 n g = Some h' \<and> gpu_ok h \<and> ok (decoder h) \<and>
    cp_fifo_state h = cp_fifo_state h' \<and> decoder h = decoder h' \<and>
    pending (buffer h) = pending (buffer h') \<and>
    (pending (buffer h) = [] \<longrightarrow> SafeCPReadPointer h = SafeCPReadPointer h')"
proof -
  let ?f = "cp_fifo_state g" let ?n = "unat (blocks (loop_batch m ?f))"
  note b = batch_is_single_blocks [OF ok(2), where m = m]
  have "bytes (loop_batch m ?f) = word_of_nat (?n * 32)"
    by (simp add: b(2) GATHER_PIPE_SIZE_def)
  moreover have "?n * 32 < 2 ^ 32" if "unat (bytes (loop_batch m ?f)) \<le> FIFO_SIZE"
    using blocks_bound [OF ok(2), of m] by simp
  ultimately have nb: "unat (bytes (loop_batch m ?f)) = ?n * 32"
    using room by (simp add: unat_word_of_nat_less del: of_nat_mult)
  have ptr: "CPReadPointer ((single_block ^^ k) ?f) = CPReadPointer ?f + word_of_nat (k * 32)" if "k < ?n" for k
    using b(5) [OF that] by (simp add: GATHER_PIPE_SIZE_def)
  from single_blocks_effect [OF ok(1,3) b(1) order_refl, of mem, OF _ ptr] room nb obtain c h' where
    h': "gpu_iterations vertex_size_of callback mem 1 ?n g = Some h'"
      "RunFifo vertex_size_of callback (pending (buffer g) @ CopyFromEmu mem (CPReadPointer ?f) (?n * 32)) (decoder g) = Some (c, decoder h')"
      "pending (buffer h') = drop (unat c) (pending (buffer g) @ CopyFromEmu mem (CPReadPointer ?f) (?n * 32))"
      "cp_fifo_state h' = (single_block ^^ ?n) ?f"
      "pending (buffer h') = [] \<longrightarrow> SafeCPReadPointer h' = CPReadPointer (cp_fifo_state h')" by auto
  obtain d h where h: "gpu_iteration vertex_size_of callback mem m g = Some h" "gpu_ok h" "ok (decoder h)"
      "RunFifo vertex_size_of callback (pending (buffer g) @ CopyFromEmu mem (CPReadPointer ?f) (?n * 32)) (decoder g) = Some (d, decoder h)"
      "pending (buffer h) = drop (unat d) (pending (buffer g) @ CopyFromEmu mem (CPReadPointer ?f) (?n * 32))"
      "cp_fifo_state h = snd (loop_iteration m ?f)"
      "SafeCPReadPointer h = (if pending (buffer h) = [] then CPReadPointer (cp_fifo_state h) else SafeCPReadPointer g)"
    by (rule gpu_iteration_effect [OF ok(1,3) room, of mem]) (simp_all add: nb)
  have "c = d" "decoder h = decoder h'" using h(4) h'(2) by simp_all
  with h h' b(1,3) show ?thesis by (intro exI [of _ ?n] exI [of _ h] exI [of _ h']) auto
qed

end

section \<open>Properties\<close>

text \<open>
  The video buffer is a queue: \<^verbatim>\<open>ReadDataFromFifo\<close> takes the bytes exactly when they fit
  beside those not yet decoded, whatever the position of the pointers; it then appends the bytes
  of emulated memory to the pending ones, moving those to the front where needed, and otherwise
  leaves the buffer alone; the pointers stay in order and inside the buffer.
\<close>

theorem video_buffer_is_queue:
  assumes "buffer_ok b"
  shows "case ReadDataFromFifo mem read_ptr sz b of (taken, b') \<Rightarrow>
    buffer_ok b' \<and>
    (taken \<longleftrightarrow> length (pending b) + unat sz \<le> FIFO_SIZE) \<and>
    (taken \<longrightarrow> pending b' = pending b @ map (\<lambda>i. mem (read_ptr + word_of_nat i)) [0..<unat sz]) \<and>
    (\<not> taken \<longrightarrow> b' = b)"
  using ReadDataFromFifo_queue [OF assms, of mem read_ptr sz]
  by (auto simp: CopyFromEmu_def split: prod.splits)

definition sample_buffer :: video_buffer where
  "sample_buffer = \<lparr>m_video_buffer = replicate FIFO_SIZE 7,
     m_video_buffer_read_ptr = FIFO_SIZE - 3, m_video_buffer_write_ptr = FIFO_SIZE - 1\<rparr>"

lemma sample_buffer_ok: "buffer_ok sample_buffer" "pending sample_buffer = [7, 7]"
  by (simp_all add: buffer_ok_def sample_buffer_def pending_def FIFO_SIZE_def numeral_2_eq_2)

theorem video_buffer_is_queue_witness:
  "case ReadDataFromFifo (\<lambda>a. ucast a) 0x20 3 sample_buffer of (taken, b') \<Rightarrow>
    taken \<and> pending b' = [7, 7, 0x20, 0x21, 0x22]"
proof -
  have "[0..<3] = [0, 1, 2 :: nat]" by (simp add: numeral_3_eq_3 numeral_2_eq_2)
  then show ?thesis
    using video_buffer_is_queue [OF sample_buffer_ok(1), where mem = "\<lambda>a. ucast a" and read_ptr = "0x20" and sz = 3]
    by (auto simp: sample_buffer_ok(2) FIFO_SIZE_def split: prod.splits)
qed

text \<open>
  The stream may be decoded in pieces: for a callback that does nothing on NOPs, running the
  decoder on a prefix and then on what it left followed by the rest has the effect of running it
  on everything, and consumes the same bytes.
\<close>

theorem decode_in_pieces:
  assumes "\<And>vat s. unat (fst (vs vat s)) \<le> 129" "\<And>vat s. vs vat (snd (vs vat s)) = vs vat s"
    and "\<And>n s. cb (OnNop n) s = s" "\<And>d s. cb (OnCommand d) s = s"
    and "length (xs @ ys) \<le> FIFO_SIZE"
  shows "\<exists>n t m u. RunFifo vs cb xs s = Some (n, t) \<and>
    RunFifo vs cb (drop (unat n) xs @ ys) t = Some (m, u) \<and>
    RunFifo vs cb (xs @ ys) s = Some (n + m, u) \<and> unat (n + m) = unat n + unat m"
proof -
  have sd: "silent_decoder vs cb (\<lambda>s. True)" using assms(1-4) by unfold_locales simp_all
  obtain n t where n: "RunFifo vs cb xs s = Some (n, t)"
    using silent_decoder.RunFifo_total [OF sd, of xs s] assms(5) by auto
  have "length (drop (unat n) xs @ ys) \<le> length (xs @ ys)" by simp
  with assms(5) have "length (drop (unat n) xs @ ys) \<le> FIFO_SIZE" by (rule order_trans [rotated])
  then obtain m u where m: "RunFifo vs cb (drop (unat n) xs @ ys) t = Some (m, u)"
    using silent_decoder.RunFifo_total [OF sd] by blast
  with n silent_decoder.RunFifo_append [OF sd assms(5) _ n m] show ?thesis by blast
qed

theorem decode_in_pieces_witness:
  "\<exists>n t m u. RunFifo (\<lambda>vat s. (12, s)) (\<lambda>e s. case e of OnCP_event c v \<Rightarrow> (c, v) # s | _ \<Rightarrow> s) [0, 0, 0x08, 0x50, 0] [] = Some (n, t) \<and>
    RunFifo (\<lambda>vat s. (12, s)) (\<lambda>e s. case e of OnCP_event c v \<Rightarrow> (c, v) # s | _ \<Rightarrow> s)
      (drop (unat n) [0, 0, 0x08, 0x50, 0] @ [0, 2, 0, 0]) t = Some (m, u) \<and>
    RunFifo (\<lambda>vat s. (12, s)) (\<lambda>e s. case e of OnCP_event c v \<Rightarrow> (c, v) # s | _ \<Rightarrow> s)
      ([0, 0, 0x08, 0x50, 0] @ [0, 2, 0, 0]) [] = Some (n + m, u) \<and>
    unat (n + m) = unat n + unat m"
  by (rule decode_in_pieces) (simp_all add: FIFO_SIZE_def)


definition sample_gpu :: "loader_state gpu_state" where
  "sample_gpu = \<lparr>cp_fifo_state = sample_fifo, SafeCPReadPointer = 0x10c0, buffer = sample_buffer, decoder = start_state\<rparr>"


end
