(* ===== verification/Clock_Policy.thy ===== *)
theory Clock_Policy
  imports Prelude
begin

text \<open>
  \<^verbatim>\<open>Horizon/ClockPolicy.{h,cpp}\<close>: the session that asks for higher CPU and GPU clocks while a
  game runs. The abstract class \<^verbatim>\<open>Backend\<close> is a record of functions, its virtual methods, over
  a backend object and the outside world; out-parameters are passed in and returned. The session
  is a state machine that holds a backend exactly while it is active.

  The locale states what a backend must promise; inside it every path through \<^verbatim>\<open>Start\<close> and
  \<^verbatim>\<open>Stop\<close> is shown to give back what was requested. The platform backends interpret it in
  \<^verbatim>\<open>Clock_Ownership\<close>.
\<close>

section \<open>Data\<close>

definition PERFORMANCE_CPU_TARGET_HZ :: u32 where [field_defs]: "PERFORMANCE_CPU_TARGET_HZ = 1785000000"
definition PERFORMANCE_GPU_TARGET_HZ :: u32 where [field_defs]: "PERFORMANCE_GPU_TARGET_HZ = 768000000"
definition LEGACY_CPU_TARGET_HZ :: u32 where [field_defs]: "LEGACY_CPU_TARGET_HZ = 1581000000"
definition LEGACY_GPU_TARGET_HZ :: u32 where [field_defs]: "LEGACY_GPU_TARGET_HZ = 614400000"

datatype profile = Performance | Legacy

record clock_targets =
  target_cpu_hz :: u32
  target_gpu_hz :: u32

definition TargetsForProfile :: "profile \<Rightarrow> clock_targets" where
  "TargetsForProfile profile =
     (if profile = Legacy
      then \<lparr>target_cpu_hz = LEGACY_CPU_TARGET_HZ, target_gpu_hz = LEGACY_GPU_TARGET_HZ\<rparr>
      else \<lparr>target_cpu_hz = PERFORMANCE_CPU_TARGET_HZ, target_gpu_hz = PERFORMANCE_GPU_TARGET_HZ\<rparr>)"

definition ProfileName :: "profile \<Rightarrow> string" where
  "ProfileName profile = (if profile = Legacy then ''legacy'' else ''performance'')"

datatype domain = CPU | GPU

record clock_readings =
  cpu_hz :: u32
  gpu_hz :: u32
  memory_hz :: u32
  cpu_valid :: bool
  gpu_valid :: bool
  memory_valid :: bool

definition no_readings :: clock_readings where
  "no_readings = \<lparr>cpu_hz = 0, gpu_hz = 0, memory_hz = 0, cpu_valid = False, gpu_valid = False, memory_valid = False\<rparr>"

text \<open>The virtual methods of \<^verbatim>\<open>Backend\<close>; \<^verbatim>\<open>Destroy\<close> is its destructor.\<close>

record ('b, 't) backend_class =
  Mechanism :: "'b \<Rightarrow> string"
  ExternalManager :: "'b \<Rightarrow> string"
  Initialize :: "clock_readings \<Rightarrow> string \<Rightarrow> 'b \<times> 't \<Rightarrow> (bool \<times> clock_readings \<times> string) \<times> 'b \<times> 't"
  GetAvailableRates :: "domain \<Rightarrow> u32 list \<Rightarrow> string \<Rightarrow> 'b \<times> 't \<Rightarrow> (bool \<times> u32 list \<times> string) \<times> 'b \<times> 't"
  RequestRate :: "domain \<Rightarrow> u32 \<Rightarrow> string \<Rightarrow> 'b \<times> 't \<Rightarrow> (bool \<times> string) \<times> 'b \<times> 't"
  WaitForApply :: "'b \<times> 't \<Rightarrow> 'b \<times> 't"
  ReadEffective :: "clock_readings \<Rightarrow> string \<Rightarrow> 'b \<times> 't \<Rightarrow> (bool \<times> clock_readings \<times> string) \<times> 'b \<times> 't"
  Release :: "string \<Rightarrow> 'b \<times> 't \<Rightarrow> (bool \<times> string) \<times> 'b \<times> 't"
  Destroy :: "'b \<times> 't \<Rightarrow> 't"

record 'b backend_selection =
  backend :: "'b option"
  external_manager :: string
  error :: string

datatype start_status = Disabled | Active | Failed

record start_report =
  status :: start_status
  mechanism :: string
  report_external_manager :: string
  detail :: string
  before :: clock_readings
  effective :: clock_readings
  report_profile :: profile
  requested_cpu_hz :: u32
  requested_gpu_hz :: u32
  selected_cpu_hz :: u32
  selected_gpu_hz :: u32
  cpu_requested :: bool
  gpu_requested :: bool

definition default_report :: start_report where
  "default_report =
     \<lparr>status = Disabled, mechanism = ''disabled'', report_external_manager = ''not checked'', detail = '''',
      before = no_readings, effective = no_readings, report_profile = Performance,
      requested_cpu_hz = PERFORMANCE_CPU_TARGET_HZ, requested_gpu_hz = PERFORMANCE_GPU_TARGET_HZ,
      selected_cpu_hz = 0, selected_gpu_hz = 0, cpu_requested = False, gpu_requested = False\<rparr>"

record stop_report =
  attempted :: bool
  succeeded :: bool
  stop_mechanism :: string
  stop_detail :: string

record 'b session =
  m_backend :: "'b option"
  m_report :: start_report

section \<open>Rate selection\<close>

definition SelectNearestAtOrBelow :: "u32 list \<Rightarrow> u32 \<Rightarrow> u32" where
  "SelectNearestAtOrBelow rates target_hz =
     fold (\<lambda>rate selected. if rate \<noteq> 0 \<and> rate \<le> target_hz then max selected rate else selected) rates 0"

definition ControlStillOwned :: "u32 \<Rightarrow> u32 \<Rightarrow> bool" where
  "ControlStillOwned current_hz requested_hz \<longleftrightarrow> current_hz = requested_hz"

section \<open>The session\<close>

definition IsActive :: "'b session \<Rightarrow> bool" where
  "IsActive ses \<longleftrightarrow> status (m_report ses) = Active \<and> m_backend ses \<noteq> None"

definition or_default :: "string \<Rightarrow> string \<Rightarrow> string" where
  "or_default e d = (if e = '''' then d else e)"

definition FailAndRelease ::
  "('b, 't) backend_class \<Rightarrow> string \<Rightarrow> 'b session \<Rightarrow> 't \<Rightarrow> 'b session \<times> 't" where
  "FailAndRelease cls det ses t =
     (let (released, release_detail, t') =
            (case m_backend ses of
               None \<Rightarrow> (True, '''', t)
             | Some b \<Rightarrow> (let ((ok, d), b', t1) = Release cls '''' (b, t) in (ok, d, Destroy cls (b', t1))));
          det' = (if \<not> released
                  then (if det \<noteq> '''' then det @ ''; '' else det) @ or_default release_detail ''rollback failed''
                  else det)
      in (\<lparr>m_backend = None, m_report = (m_report ses)\<lparr>status := Failed, detail := det'\<rparr>\<rparr>, t'))"

text \<open>The end of \<^verbatim>\<open>Start\<close>: wait, read back, and report.\<close>

definition start_finish ::
  "('b, 't) backend_class \<Rightarrow> start_report \<Rightarrow> string \<Rightarrow> 'b \<Rightarrow> 't \<Rightarrow> 'b session \<times> 't" where
  "start_finish cls rep err b t =
     (let (b1, t1) = WaitForApply cls (b, t);
          ((ok, eff, err'), b2, t2) = ReadEffective cls (effective rep) err (b1, t1);
          det = (if \<not> ok then or_default err' ''requests accepted; effective clock read unavailable''
                 else ''CPU/GPU requests accepted; memory remained read only'')
      in (\<lparr>m_backend = Some b2, m_report = rep\<lparr>effective := eff, detail := det, status := Active\<rparr>\<rparr>, t2))"

definition start_requests ::
  "('b, 't) backend_class \<Rightarrow> start_report \<Rightarrow> string \<Rightarrow> 'b \<Rightarrow> 't \<Rightarrow> 'b session \<times> 't" where
  "start_requests cls rep err b t =
     (let rep1 = rep\<lparr>cpu_requested := True\<rparr>;
          ((ok, err1), b1, t1) = RequestRate cls CPU (selected_cpu_hz rep) err (b, t)
      in if \<not> ok then FailAndRelease cls (or_default err1 ''CPU clock request failed'')
                       \<lparr>m_backend = Some b1, m_report = rep1\<rparr> t1
         else let rep2 = rep1\<lparr>gpu_requested := True\<rparr>;
                  ((ok, err2), b2, t2) = RequestRate cls GPU (selected_gpu_hz rep) err1 (b1, t1)
              in if \<not> ok then FailAndRelease cls (or_default err2 ''GPU clock request failed; CPU request rolled back'')
                               \<lparr>m_backend = Some b2, m_report = rep2\<rparr> t2
                 else start_finish cls rep2 err2 b2 t2)"

definition start_rates ::
  "('b, 't) backend_class \<Rightarrow> clock_targets \<Rightarrow> start_report \<Rightarrow> string \<Rightarrow> 'b \<Rightarrow> 't \<Rightarrow> 'b session \<times> 't" where
  "start_rates cls targets rep err b t =
     (let ((ok1, cpu_rates, err1), b1, t1) = GetAvailableRates cls CPU [] err (b, t);
          ((ok2, gpu_rates, err2), b2, t2) =
            (if ok1 then GetAvailableRates cls GPU [] err1 (b1, t1) else ((False, [], err1), b1, t1))
      in if \<not> ok1 \<or> \<not> ok2
         then FailAndRelease cls (or_default err2 ''failed reading supported CPU/GPU rates'')
                \<lparr>m_backend = Some b2, m_report = rep\<rparr> t2
         else let rep1 = rep\<lparr>selected_cpu_hz := SelectNearestAtOrBelow cpu_rates (target_cpu_hz targets),
                            selected_gpu_hz := SelectNearestAtOrBelow gpu_rates (target_gpu_hz targets)\<rparr>
              in if selected_cpu_hz rep1 = 0 \<or> selected_gpu_hz rep1 = 0
                 then FailAndRelease cls ''no supported CPU/GPU rate exists at or below the requested targets''
                        \<lparr>m_backend = Some b2, m_report = rep1\<rparr> t2
                 else start_requests cls rep1 err2 b2 t2)"

definition start_backend ::
  "('b, 't) backend_class \<Rightarrow> clock_targets \<Rightarrow> start_report \<Rightarrow> 'b \<Rightarrow> 't \<Rightarrow> 'b session \<times> 't" where
  "start_backend cls targets rep b t =
     (let rep1 = rep\<lparr>mechanism := Mechanism cls b\<rparr>;
          rep2 = (if ExternalManager cls b \<noteq> '''' then rep1\<lparr>report_external_manager := ExternalManager cls b\<rparr> else rep1);
          ((ok, bef, err), b1, t1) = Initialize cls (before rep2) '''' (b, t);
          rep3 = rep2\<lparr>before := bef\<rparr>
      in if \<not> ok then FailAndRelease cls (or_default err ''clock backend initialization failed'')
                       \<lparr>m_backend = Some b1, m_report = rep3\<rparr> t1
         else start_rates cls targets rep3 err b1 t1)"

definition Start ::
  "('b, 't) backend_class \<Rightarrow> bool \<Rightarrow> ('t \<Rightarrow> 'b backend_selection \<times> 't) \<Rightarrow> profile \<Rightarrow> 'b session \<Rightarrow> 't \<Rightarrow>
   'b session \<times> 't" where
  "Start cls enabled factory prof ses t =
     (if IsActive ses
      then (ses\<lparr>m_report := (m_report ses)\<lparr>detail := ''clock session already active; no additional requests made''\<rparr>\<rparr>, t)
      else let targets = TargetsForProfile prof;
               rep = default_report\<lparr>report_profile := prof, requested_cpu_hz := target_cpu_hz targets,
                                    requested_gpu_hz := target_gpu_hz targets\<rparr>
           in if \<not> enabled
              then (ses\<lparr>m_report := rep\<lparr>status := Disabled, mechanism := ''disabled by phocoena_auto_clocks=0'',
                                      report_external_manager := ''not checked'',
                                      detail := ''zero CPU/GPU/MEM clock writes''\<rparr>\<rparr>, t)
              else let (sel, t1) = factory t;
                       rep1 = rep\<lparr>report_external_manager := or_default (external_manager sel) ''none detected''\<rparr>
                   in case backend sel of
                        None \<Rightarrow> (ses\<lparr>m_report := rep1\<lparr>status := Failed, mechanism := ''none'',
                                  detail := or_default (error sel) ''no compatible clock-control backend''\<rparr>\<rparr>, t1)
                      | Some b \<Rightarrow> start_backend cls targets rep1 b
                                   (case m_backend ses of None \<Rightarrow> t1 | Some old \<Rightarrow> Destroy cls (old, t1)))"

definition Stop :: "('b, 't) backend_class \<Rightarrow> 'b session \<Rightarrow> 't \<Rightarrow> stop_report \<times> 'b session \<times> 't" where
  "Stop cls ses t =
     (let report = \<lparr>attempted = False, succeeded = True, stop_mechanism = ''disabled'', stop_detail = ''''\<rparr>
      in case m_backend ses of
           None \<Rightarrow> (report, ses, t)
         | Some b \<Rightarrow>
             (let ((ok, d), b1, t1) = Release cls '''' (b, t);
                  t2 = Destroy cls (b1, t1)
              in (\<lparr>attempted = True, succeeded = ok, stop_mechanism = Mechanism cls b, stop_detail = d\<rparr>,
                  \<lparr>m_backend = None,
                   m_report = (if status (m_report ses) = Active then (m_report ses)\<lparr>status := Disabled\<rparr> else m_report ses)\<rparr>,
                  t2)))"

definition new_session :: "'b session" where
  "new_session = \<lparr>m_backend = None, m_report = default_report\<rparr>"

section \<open>Selection\<close>

lemma select_fold:
  fixes rates :: "u32 list" and a target :: u32
  defines "f \<equiv> \<lambda>rate selected. if rate \<noteq> 0 \<and> rate \<le> target then max selected rate else selected"
  shows "a \<le> fold f rates a \<and> (fold f rates a = a \<or> fold f rates a \<in> set rates \<and> fold f rates a \<le> target) \<and>
    (\<forall>r\<in>set rates. r \<le> target \<longrightarrow> r \<le> fold f rates a)"
proof (induction rates arbitrary: a)
  case (Cons x rates)
  have "a \<le> f x a" "f x a = a \<or> f x a = x \<and> x \<le> target" "x \<le> target \<Longrightarrow> x \<le> f x a"
    by (auto simp: f_def max_def)
  then show ?case using Cons.IH [of "f x a"] by auto
qed simp

lemmas select_bounds = select_fold [of 0, folded SelectNearestAtOrBelow_def]

section \<open>The contract of a backend\<close>

text \<open>
  \<open>fresh\<close>: selected, not initialised. \<open>usable F\<close>: initialised, with the domains \<open>F\<close> not
  requested yet. \<open>releasable\<close>: \<^verbatim>\<open>Release\<close> may be called. \<open>released\<close>: it was. \<open>clean\<close>: the world
  when no backend exists; \<open>restored\<close>: a world in which every request was given back.
\<close>

locale clock_backend =
  fixes cls :: "('b, 't) backend_class"
    and factory :: "'t \<Rightarrow> 'b backend_selection \<times> 't"
    and fresh :: "'b \<Rightarrow> 't \<Rightarrow> bool"
    and usable :: "domain set \<Rightarrow> 'b \<Rightarrow> 't \<Rightarrow> bool"
    and releasable :: "'b \<Rightarrow> 't \<Rightarrow> bool"
    and released :: "'b \<Rightarrow> 't \<Rightarrow> bool"
    and clean :: "'t \<Rightarrow> bool"
    and restored :: "'t \<Rightarrow> bool"
  assumes factory_law: "clean t \<Longrightarrow> factory t = (sel, t') \<Longrightarrow>
      (case backend sel of None \<Rightarrow> clean t' | Some b \<Rightarrow> fresh b t')"
    and init_law: "fresh b t \<Longrightarrow> Initialize cls r e (b, t) = ((ok, r', e'), b', t') \<Longrightarrow>
      (if ok then usable {CPU, GPU} b' t' else releasable b' t')"
    and rates_law: "usable F b t \<Longrightarrow> GetAvailableRates cls d rs e (b, t) = ((ok, rs', e'), b', t') \<Longrightarrow> usable F b' t'"
    and request_law: "usable F b t \<Longrightarrow> d \<in> F \<Longrightarrow> RequestRate cls d hz e (b, t) = ((ok, e'), b', t') \<Longrightarrow>
      usable (F - {d}) b' t'"
    and wait_law: "usable F b t \<Longrightarrow> WaitForApply cls (b, t) = (b', t') \<Longrightarrow> usable F b' t'"
    and effective_law: "usable {} b t \<Longrightarrow> ReadEffective cls r e (b, t) = ((ok, r', e'), b', t') \<Longrightarrow> usable {} b' t'"
    and usable_releasable: "usable F b t \<Longrightarrow> releasable b t"
    and release_law: "releasable b t \<Longrightarrow> Release cls s (b, t) = ((ok, s'), b', t') \<Longrightarrow>
      released b' t'"
    and restore_law: "usable {} b t \<Longrightarrow> Release cls s (b, t) = ((True, s'), b', t') \<Longrightarrow> restored t'"
    and destroy_law: "released b t \<Longrightarrow> clean (Destroy cls (b, t)) \<and> (restored t \<longrightarrow> restored (Destroy cls (b, t)))"
begin

definition session_ok :: "'b session \<Rightarrow> 't \<Rightarrow> bool" where
  "session_ok ses t \<longleftrightarrow>
     (case m_backend ses of None \<Rightarrow> clean t | Some b \<Rightarrow> usable {} b t) \<and>
     (m_backend ses \<noteq> None \<longleftrightarrow> status (m_report ses) = Active)"

lemma FailAndRelease_ok:
  assumes "m_backend ses = Some b" "releasable b t" "FailAndRelease cls det ses t = (ses', t')"
  shows "session_ok ses' t' \<and> status (m_report ses') = Failed"
proof -
  obtain ok d b1 t1 where r: "Release cls '''' (b, t) = ((ok, d), b1, t1)" by (metis prod.exhaust)
  from release_law [OF assms(2) r] destroy_law have "clean (Destroy cls (b1, t1))" by blast
  with assms(1,3) r show ?thesis by (auto simp: FailAndRelease_def session_ok_def Let_def)
qed

lemma FailAndRelease_held:
  "releasable b t \<Longrightarrow> FailAndRelease cls det \<lparr>m_backend = Some b, m_report = r\<rparr> t = (ses', t') \<Longrightarrow> session_ok ses' t'"
  using FailAndRelease_ok [of "\<lparr>m_backend = Some b, m_report = r\<rparr>" b t] by simp

lemma start_finish_ok:
  assumes "usable {} b t" "start_finish cls rep err b t = (ses', t')"
  shows "session_ok ses' t'"
proof -
  obtain b1 t1 where w: "WaitForApply cls (b, t) = (b1, t1)" by force
  obtain ok r e b2 t2 where "ReadEffective cls (effective rep) err (b1, t1) = ((ok, r, e), b2, t2)" by (metis prod.exhaust)
  with effective_law [OF wait_law [OF assms(1) w] this] w assms(2) show ?thesis
    by (auto simp: start_finish_def session_ok_def Let_def)
qed

lemma start_requests_ok:
  assumes "usable {CPU, GPU} b t" "start_requests cls rep err b t = (ses', t')"
  shows "session_ok ses' t'"
proof -
  obtain ok1 e1 b1 t1 where r1: "RequestRate cls CPU (selected_cpu_hz rep) err (b, t) = ((ok1, e1), b1, t1)"
    by (metis prod.exhaust)
  obtain ok2 e2 b2 t2 where r2: "RequestRate cls GPU (selected_gpu_hz rep) e1 (b1, t1) = ((ok2, e2), b2, t2)"
    by (metis prod.exhaust)
  have u1: "usable {GPU} b1 t1" using request_law [OF assms(1) _ r1] by (simp add: insert_Diff_if)
  have u2: "usable {} b2 t2" using request_law [OF u1 _ r2] by simp
  note rel = usable_releasable [OF u1] usable_releasable [OF u2]
  show ?thesis
    using assms(2) r1 r2 FailAndRelease_held [OF rel(1)] FailAndRelease_held [OF rel(2)] start_finish_ok [OF u2]
    by (auto simp: start_requests_def Let_def split: if_splits)
qed

lemma start_rates_ok:
  assumes "usable {CPU, GPU} b t" "start_rates cls targets rep err b t = (ses', t')"
  shows "session_ok ses' t'"
proof -
  obtain ok1 rs1 e1 b1 t1 where r1: "GetAvailableRates cls CPU [] err (b, t) = ((ok1, rs1, e1), b1, t1)"
    by (metis prod.exhaust)
  obtain ok2 rs2 e2 b2 t2 where
    r2: "(if ok1 then GetAvailableRates cls GPU [] e1 (b1, t1) else ((False, [], e1), b1, t1)) = ((ok2, rs2, e2), b2, t2)"
    by (metis prod.exhaust)
  have u1: "usable {CPU, GPU} b1 t1" using rates_law [OF assms(1) r1] .
  have u2: "usable {CPU, GPU} b2 t2" using rates_law [OF u1, of GPU "[]" e1] u1 r2 by (auto split: if_splits)
  show ?thesis
    using assms(2) r1 r2 FailAndRelease_held [OF usable_releasable [OF u2]] start_requests_ok [OF u2]
    by (auto simp: start_rates_def Let_def split: if_splits)
qed

lemma start_backend_ok:
  assumes "fresh b t" "start_backend cls targets rep b t = (ses', t')"
  shows "session_ok ses' t'"
proof -
  define rep2 where "rep2 = (let rep1 = rep\<lparr>mechanism := Mechanism cls b\<rparr>
      in if ExternalManager cls b \<noteq> '''' then rep1\<lparr>report_external_manager := ExternalManager cls b\<rparr> else rep1)"
  obtain ok r e b1 t1 where i: "Initialize cls (before rep2) '''' (b, t) = ((ok, r, e), b1, t1)" by (metis prod.exhaust)
  note law = init_law [OF assms(1) i]
  have "(ses', t') = (if \<not> ok then FailAndRelease cls (or_default e ''clock backend initialization failed'')
        \<lparr>m_backend = Some b1, m_report = rep2\<lparr>before := r\<rparr>\<rparr> t1
      else start_rates cls targets (rep2\<lparr>before := r\<rparr>) e b1 t1)"
    using assms(2) i unfolding start_backend_def rep2_def Let_def by simp
  with law FailAndRelease_held [of b1 t1] start_rates_ok [of b1 t1] show ?thesis
    by (cases ok) (metis, metis)
qed

lemma Start_ok:
  assumes "session_ok ses t" "Start cls enabled factory prof ses t = (ses', t')"
  shows "session_ok ses' t'"
proof (cases "IsActive ses")
  case True
  with assms show ?thesis by (auto simp: Start_def session_ok_def IsActive_def split: option.splits)
next
  case False
  then have none: "m_backend ses = None" using assms(1) by (auto simp: session_ok_def IsActive_def)
  with assms(1) have cl: "clean t" by (simp add: session_ok_def)
  obtain sel t1 where f: "factory t = (sel, t1)" by force
  note law = factory_law [OF cl f]
  show ?thesis
  proof (cases "enabled \<and> backend sel \<noteq> None")
    case True
    then obtain b rep where "fresh b t1" "start_backend cls (TargetsForProfile prof) rep b t1 = (ses', t')"
      using assms(2) False none f law by (auto simp: Start_def Let_def)
    then show ?thesis by (rule start_backend_ok)
  next
    case nb: False
    then show ?thesis
      using assms(2) False none f law cl by (auto simp: Start_def Let_def session_ok_def split: if_splits)
  qed
qed

lemma Stop_ok:
  assumes "session_ok ses t" "Stop cls ses t = (rep, ses', t')"
  shows "session_ok ses' t' \<and> clean t' \<and> \<not> IsActive ses' \<and> (attempted rep \<and> succeeded rep \<longrightarrow> restored t')"
proof (cases "m_backend ses")
  case None
  with assms show ?thesis by (auto simp: Stop_def session_ok_def IsActive_def)
next
  case (Some b)
  obtain ok d b1 t1 where r: "Release cls '''' (b, t) = ((ok, d), b1, t1)" by (metis prod.exhaust)
  have u: "usable {} b t" using assms(1) Some by (simp add: session_ok_def)
  from release_law [OF usable_releasable [OF u] r] restore_law [OF u] r destroy_law [of b1 t1]
  show ?thesis
    using assms(2) Some r by (cases "status (m_report ses) = Active") (auto simp: Stop_def session_ok_def IsActive_def Let_def)
qed

end

section \<open>Reports\<close>

lemma FailAndRelease_failed: "status (m_report (fst (FailAndRelease cls det ses t))) = Failed"
  by (simp add: FailAndRelease_def Let_def split: option.splits prod.splits)

lemma start_finish_report:
  "selected_cpu_hz (m_report (fst (start_finish cls rep err b t))) = selected_cpu_hz rep"
  "selected_gpu_hz (m_report (fst (start_finish cls rep err b t))) = selected_gpu_hz rep"
  by (simp_all add: start_finish_def Let_def split: prod.splits)

lemma start_requests_report:
  assumes "status (m_report (fst (start_requests cls rep err b t))) = Active"
  shows "selected_cpu_hz (m_report (fst (start_requests cls rep err b t))) = selected_cpu_hz rep"
    and "selected_gpu_hz (m_report (fst (start_requests cls rep err b t))) = selected_gpu_hz rep"
  using assms
  by (auto simp: start_requests_def Let_def FailAndRelease_failed start_finish_report split: prod.splits if_splits)

lemma start_rates_report:
  assumes "status (m_report (fst (start_rates cls targets rep err b t))) = Active"
  shows "\<exists>rs rs'. let r = m_report (fst (start_rates cls targets rep err b t)) in
    selected_cpu_hz r = SelectNearestAtOrBelow rs (target_cpu_hz targets) \<and> selected_cpu_hz r \<noteq> 0 \<and>
    selected_gpu_hz r = SelectNearestAtOrBelow rs' (target_gpu_hz targets) \<and> selected_gpu_hz r \<noteq> 0"
  using assms
  by (auto simp: start_rates_def Let_def FailAndRelease_failed start_requests_report split: prod.splits if_splits)

lemma start_backend_report:
  assumes "status (m_report (fst (start_backend cls targets rep b t))) = Active"
  shows "\<exists>rs rs'. let r = m_report (fst (start_backend cls targets rep b t)) in
    selected_cpu_hz r = SelectNearestAtOrBelow rs (target_cpu_hz targets) \<and> selected_cpu_hz r \<noteq> 0 \<and>
    selected_gpu_hz r = SelectNearestAtOrBelow rs' (target_gpu_hz targets) \<and> selected_gpu_hz r \<noteq> 0"
proof -
  obtain rep' err b1 t1 where "start_backend cls targets rep b t = start_rates cls targets rep' err b1 t1"
    using assms FailAndRelease_failed [of cls]
    by (fastforce simp: start_backend_def Let_def split: prod.splits if_splits)
  with assms start_rates_report show ?thesis by metis
qed

lemma Select_le: "SelectNearestAtOrBelow rs target \<le> target"
  using select_bounds [of rs target] by auto

section \<open>Properties\<close>

text \<open>
  The rate chosen is the highest supported rate at or below the target, and 0 exactly when
  there is none.
\<close>

theorem select_nearest_rate:
  "(SelectNearestAtOrBelow rates target = 0 \<longleftrightarrow> (\<forall>r\<in>set rates. r = 0 \<or> target < r)) \<and>
   (SelectNearestAtOrBelow rates target \<noteq> 0 \<longrightarrow>
     SelectNearestAtOrBelow rates target \<in> set rates \<and> SelectNearestAtOrBelow rates target \<le> target \<and>
     (\<forall>r\<in>set rates. r \<le> target \<longrightarrow> r \<le> SelectNearestAtOrBelow rates target))"
  using select_bounds [of rates target] by (auto simp: not_less)

theorem select_nearest_rate_witness:
  "SelectNearestAtOrBelow [1020000000, 1785000000, 0, 1963500000] 1785000000 \<in> set [1020000000, 1785000000, 0, 1963500000] \<and>
   SelectNearestAtOrBelow [1020000000, 1785000000, 0, 1963500000] 1785000000 \<le> 1785000000"
proof -
  have "SelectNearestAtOrBelow [1020000000, 1785000000, 0, 1963500000] 1785000000 \<noteq> 0" by code_simp
  with select_nearest_rate [of "[1020000000, 1785000000, 0, 1963500000]" 1785000000] show ?thesis by blast
qed



definition sample_class :: "(unit, unit) backend_class" where
  "sample_class =
     \<lparr>Mechanism = (\<lambda>b. ''sample''), ExternalManager = (\<lambda>b. ''''),
      Initialize = (\<lambda>r e w. ((True, r, e), w)),
      GetAvailableRates = (\<lambda>d rs e w. ((True, [768000000, 1785000000], e), w)),
      RequestRate = (\<lambda>d hz e w. ((True, e), w)), WaitForApply = (\<lambda>w. w),
      ReadEffective = (\<lambda>r e w. ((True, r, e), w)), Release = (\<lambda>d w. ((True, d), w)), Destroy = (\<lambda>w. ())\<rparr>"

definition sample_factory :: "unit \<Rightarrow> unit backend_selection \<times> unit" where
  "sample_factory t = (\<lparr>backend = Some (), external_manager = '''', error = ''''\<rparr>, t)"


end
