(* ===== verification/Clock_Control.thy ===== *)
theory Clock_Control
  imports Clock_Policy
begin

text \<open>
  \<^verbatim>\<open>Horizon/ClockControl.cpp\<close>: the platform backends of the clock session, over the sys-clk
  service and over the clkrst and pcv services of libnx, and the choice among them.

  The services are not part of the repository. The world is the list of the calls made so far,
  newest first, each with its answer; the answers are a parameter, an arbitrary function of the
  calls before. Everything proved holds for every behaviour of the services, including failures
  and clocks changed by others between two calls.
\<close>

section \<open>The services\<close>

definition CPU_INDEX :: nat where [field_defs]: "CPU_INDEX = 0"
definition GPU_INDEX :: nat where [field_defs]: "GPU_INDEX = 1"
definition MEMORY_INDEX :: nat where [field_defs]: "MEMORY_INDEX = 2"
definition SYSCLK_OFFICIAL_API_VERSION :: u32 where [field_defs]: "SYSCLK_OFFICIAL_API_VERSION = 4"
definition SYSCLK_OC_API_VERSION :: u32 where [field_defs]: "SYSCLK_OC_API_VERSION = 2"
definition SYSCLK_FREQ_LIST_MAX :: nat where [field_defs]: "SYSCLK_FREQ_LIST_MAX = 32"
definition SYSCLK_OC_FREQ_LIST_MAX :: nat where [field_defs]: "SYSCLK_OC_FREQ_LIST_MAX = 31"
definition SYSCLK_APPLY_WAIT_NS :: nat where [field_defs]: "SYSCLK_APPLY_WAIT_NS = 600000000"

datatype pcv_module = PcvModule_CpuBus | PcvModule_GPU | PcvModule_EMC

text \<open>The fields of the sys-clk context the code reads; the arrays are indexed by module.\<close>

record sysclk_context =
  ctx_profile :: u32
  freqs :: "nat \<Rightarrow> u32"
  real_freqs :: "nat \<Rightarrow> u32"
  override_freqs :: "nat \<Rightarrow> u32"

text \<open>A result code; success is 0.\<close>

type_synonym result = u32

abbreviation R_FAILED :: "result \<Rightarrow> bool" where "R_FAILED r \<equiv> r \<noteq> 0"

datatype call =
    SmGetService string result
  | ServiceClose string
  | GetApiVersion string result u32
  | GetContext string result sysclk_context
  | SetOverride string u32 u32 result
  | GetFreqList string u32 result u32 "u32 list"
  | GetFrequencyTable string u32 u32 result "u32 list"
  | SleepThread nat
  | ClkrstInitialize result
  | ClkrstExit
  | PcvInitialize result
  | PcvExit
  | PcvGetModuleId pcv_module result
  | ClkrstOpenSession pcv_module result
  | ClkrstCloseSession pcv_module
  | GetPossibleClockRates bool pcv_module result bool int "u32 list"
  | GetClockRate bool pcv_module result u32
  | SetClockRate bool pcv_module u32 result

type_synonym trace = "call list"

record services =
  smGetService :: "trace \<Rightarrow> string \<Rightarrow> result"
  svc_GetApiVersion :: "trace \<Rightarrow> string \<Rightarrow> result \<times> u32"
  svc_GetContext :: "trace \<Rightarrow> string \<Rightarrow> result \<times> sysclk_context"
  svc_SetOverride :: "trace \<Rightarrow> string \<Rightarrow> u32 \<Rightarrow> u32 \<Rightarrow> result"
  svc_GetFreqList :: "trace \<Rightarrow> string \<Rightarrow> u32 \<Rightarrow> result \<times> u32 \<times> u32 list"
  svc_GetFrequencyTable :: "trace \<Rightarrow> string \<Rightarrow> u32 \<Rightarrow> u32 \<Rightarrow> result \<times> u32 list"
  hosversionAtLeast_8_0_0 :: bool
  clkrstInitialize :: "trace \<Rightarrow> result"
  pcvInitialize :: "trace \<Rightarrow> result"
  pcvGetModuleId :: "trace \<Rightarrow> pcv_module \<Rightarrow> result"
  clkrstOpenSession :: "trace \<Rightarrow> pcv_module \<Rightarrow> result"
  svc_GetPossibleClockRates :: "trace \<Rightarrow> bool \<Rightarrow> pcv_module \<Rightarrow> result \<times> bool \<times> int \<times> u32 list"
  svc_GetClockRate :: "trace \<Rightarrow> bool \<Rightarrow> pcv_module \<Rightarrow> result \<times> u32"
  svc_SetClockRate :: "trace \<Rightarrow> bool \<Rightarrow> pcv_module \<Rightarrow> u32 \<Rightarrow> result"

section \<open>Helpers\<close>

definition Index :: "domain \<Rightarrow> nat" where
  "Index d = (if d = CPU then CPU_INDEX else GPU_INDEX)"

definition ProtocolModule :: "domain \<Rightarrow> u32" where
  "ProtocolModule d = word_of_nat (Index d)"

text \<open>A zero-initialised array of \<open>n\<close> rates after a service wrote \<open>xs\<close> to its front.\<close>

definition out_buffer :: "nat \<Rightarrow> u32 list \<Rightarrow> u32 list" where
  "out_buffer n xs = take n (xs @ replicate n 0)"

text \<open>\<^verbatim>\<open>%08x\<close> and \<^verbatim>\<open>std::hex\<close>.\<close>

definition hex8 :: "u32 \<Rightarrow> string" where
  "hex8 w = map (\<lambda>i. hex_digit (unat (drop_bit (4 * i) w AND 15))) (rev [0..<8])"

definition hex :: "u32 \<Rightarrow> string" where
  "hex w = (let s = dropWhile (\<lambda>c. c = CHR ''0'') (hex8 w) in if s = [] then ''0'' else s)"

definition ResultText :: "string \<Rightarrow> result \<Rightarrow> string" where
  "ResultText operation r = operation @ '' failed: 0x'' @ hex8 r"

section \<open>SysClkBackend\<close>

datatype sysclk_flavor = Official | OcSuite

text \<open>The data members. \<^verbatim>\<open>service_active\<close> is whether \<^verbatim>\<open>m_service\<close> holds a session.\<close>

record sysclk =
  m_flavor :: sysclk_flavor
  service_active :: bool
  m_service_name :: string
  sys_mechanism :: string
  sys_external_manager :: string
  m_api_version :: u32
  m_profile :: u32
  m_previous_overrides :: "domain \<Rightarrow> u32"
  sys_requested :: "domain \<Rightarrow> u32"
  sys_attempted :: "domain \<Rightarrow> bool"
  m_applied :: "domain \<Rightarrow> bool"
  sys_initialized :: bool

definition SysClkBackend :: "sysclk_flavor \<Rightarrow> sysclk" where
  "SysClkBackend flavor =
     \<lparr>m_flavor = flavor, service_active = False, m_service_name = '''', sys_mechanism = '''', sys_external_manager = '''',
      m_api_version = 0, m_profile = 0, m_previous_overrides = (\<lambda>d. 0), sys_requested = (\<lambda>d. 0),
      sys_attempted = (\<lambda>d. False), m_applied = (\<lambda>d. False), sys_initialized = False\<rparr>"

text \<open>Which service the session of a flavour is open to: the name \<^verbatim>\<open>CreatePlatformBackend\<close> gives.\<close>

definition flavor_service :: "sysclk_flavor \<Rightarrow> string" where
  "flavor_service flavor = (case flavor of Official \<Rightarrow> ''sys:clk'' | OcSuite \<Rightarrow> ''sysclkOC'')"

definition ReadContext ::
  "services \<Rightarrow> clock_readings \<Rightarrow> string \<Rightarrow> sysclk \<times> trace \<Rightarrow> (bool \<times> clock_readings \<times> (domain \<Rightarrow> u32) \<times> string) \<times> sysclk \<times> trace" where
  "ReadContext svc readings err w =
     (let (b, t) = w;
          name = flavor_service (m_flavor b);
          (r, context) = svc_GetContext svc t name;
          t' = GetContext name r context # t
      in if R_FAILED r
         then ((False, readings, (\<lambda>d. 0),
                ResultText (if m_flavor b = Official then ''sys-clk context query'' else ''sys-clk-OC context query'') r), b, t')
         else let rate = (\<lambda>i. if m_flavor b = Official \<and> real_freqs context i \<noteq> 0
                              then real_freqs context i else freqs context i);
                  readings' = \<lparr>cpu_hz = rate CPU_INDEX, gpu_hz = rate GPU_INDEX, memory_hz = rate MEMORY_INDEX,
                               cpu_valid = rate CPU_INDEX \<noteq> 0, gpu_valid = rate GPU_INDEX \<noteq> 0,
                               memory_valid = rate MEMORY_INDEX \<noteq> 0\<rparr>
              in ((True, readings', (\<lambda>d. override_freqs context (Index d)), err),
                  b\<lparr>m_profile := ctx_profile context\<rparr>, t'))"

definition sys_SetOverride :: "services \<Rightarrow> domain \<Rightarrow> u32 \<Rightarrow> sysclk \<Rightarrow> trace \<Rightarrow> result \<times> trace" where
  "sys_SetOverride svc d hz b t =
     (let name = flavor_service (m_flavor b); r = svc_SetOverride svc t name (ProtocolModule d) hz
      in (r, SetOverride name (ProtocolModule d) hz r # t))"

definition sys_Connect ::
  "services \<Rightarrow> string \<Rightarrow> u32 \<Rightarrow> sysclk \<times> trace \<Rightarrow> (bool \<times> bool \<times> string) \<times> sysclk \<times> trace" where
  "sys_Connect svc service_name expected_api w =
     (let (b, t) = w; r = smGetService svc t service_name; t1 = SmGetService service_name r # t
      in if R_FAILED r then ((False, False, ''''), b, t1)
         else let b1 = b\<lparr>service_active := True\<rparr>;
                  (r2, version) = svc_GetApiVersion svc t1 service_name;
                  t2 = GetApiVersion service_name r2 version # t1;
                  b2 = (if R_FAILED r2 then b1 else b1\<lparr>m_api_version := version\<rparr>)
              in if R_FAILED r2 then ((False, True, ResultText ''clock-manager API query'' r2), b2, t2)
                 else if version \<noteq> expected_api
                 then ((False, True, service_name @ '' API '' @ dec (unat version) @ '' is incompatible with expected API '' @
                        dec (unat expected_api) @ ''; no direct clock writes attempted''), b2, t2)
                 else ((True, True, ''''),
                       b2\<lparr>m_service_name := service_name,
                          sys_mechanism := (if m_flavor b = Official then ''sys-clk temporary override IPC API 4''
                                            else ''sys-clk-OC temporary override IPC API 2''),
                          sys_external_manager := (if m_flavor b = Official then ''sys-clk (sys:clk)''
                                                   else ''sys-clk-OC (sysclkOC)'')\<rparr>, t2))"

definition sys_Initialize ::
  "services \<Rightarrow> clock_readings \<Rightarrow> string \<Rightarrow> sysclk \<times> trace \<Rightarrow> (bool \<times> clock_readings \<times> string) \<times> sysclk \<times> trace" where
  "sys_Initialize svc bef err w =
     (let ((ok, bef', overrides, err'), b, t) = ReadContext svc bef err w
      in if \<not> ok then ((False, bef', err'), b, t)
         else ((True, bef', err'), b\<lparr>m_previous_overrides := overrides, sys_initialized := True\<rparr>, t))"

definition sys_GetAvailableRates ::
  "services \<Rightarrow> domain \<Rightarrow> u32 list \<Rightarrow> string \<Rightarrow> sysclk \<times> trace \<Rightarrow> (bool \<times> u32 list \<times> string) \<times> sysclk \<times> trace" where
  "sys_GetAvailableRates svc d rates err w =
     (let (b, t) = w; name = flavor_service (m_flavor b) in
      if m_flavor b = Official
      then let (r, count, list) = svc_GetFreqList svc t name (ProtocolModule d);
               t1 = GetFreqList name (ProtocolModule d) r count list # t
           in if R_FAILED r then ((False, [], ResultText ''sys-clk supported-rate query'' r), b, t1)
              else if unat count > SYSCLK_FREQ_LIST_MAX
              then ((False, [], ''sys-clk returned an invalid supported-rate count''), b, t1)
              else ((True, take (unat count) (out_buffer SYSCLK_FREQ_LIST_MAX list), err), b, t1)
      else let (r, table) = svc_GetFrequencyTable svc t name (ProtocolModule d) (m_profile b);
               t1 = GetFrequencyTable name (ProtocolModule d) (m_profile b) r table # t
           in if R_FAILED r then ((False, [], ResultText ''sys-clk-OC supported-rate query'' r), b, t1)
              else ((True, filter (\<lambda>rate. rate \<noteq> 0) (out_buffer SYSCLK_OC_FREQ_LIST_MAX table), err), b, t1))"

definition sys_RequestRate ::
  "services \<Rightarrow> domain \<Rightarrow> u32 \<Rightarrow> string \<Rightarrow> sysclk \<times> trace \<Rightarrow> (bool \<times> string) \<times> sysclk \<times> trace" where
  "sys_RequestRate svc d hz err w =
     (let (b, t) = w;
          b1 = b\<lparr>sys_attempted := (sys_attempted b)(d := True), sys_requested := (sys_requested b)(d := hz)\<rparr>;
          (r, t1) = sys_SetOverride svc d hz b1 t
      in if R_FAILED r
         then ((False, ResultText (if d = CPU then ''CPU override'' else ''GPU override'') r), b1, t1)
         else ((True, err), b1\<lparr>m_applied := (m_applied b1)(d := True)\<rparr>, t1))"

definition sys_WaitForApply :: "sysclk \<times> trace \<Rightarrow> sysclk \<times> trace" where
  "sys_WaitForApply w = (let (b, t) = w in (b, SleepThread SYSCLK_APPLY_WAIT_NS # t))"

definition sys_ReadEffective ::
  "services \<Rightarrow> clock_readings \<Rightarrow> string \<Rightarrow> sysclk \<times> trace \<Rightarrow> (bool \<times> clock_readings \<times> string) \<times> sysclk \<times> trace" where
  "sys_ReadEffective svc eff err w =
     (let ((ok, eff', overrides, err'), b, t) = ReadContext svc eff err w in ((ok, eff', err'), b, t))"

text \<open>One round of the loop of \<^verbatim>\<open>Release\<close>.\<close>

definition domain_name :: "domain \<Rightarrow> string" where
  "domain_name d = (if d = CPU then ''CPU'' else ''GPU'')"

definition sys_release_domain ::
  "services \<Rightarrow> bool \<Rightarrow> (domain \<Rightarrow> u32) \<Rightarrow> domain \<Rightarrow> (bool \<times> string) \<times> sysclk \<times> trace \<Rightarrow> (bool \<times> string) \<times> sysclk \<times> trace" where
  "sys_release_domain svc current_valid current d acc =
     (let ((success, out), b, t) = acc in
      if \<not> sys_attempted b d then acc
      else let (success', out', t') =
                 (if current_valid \<and> \<not> ControlStillOwned (current d) (sys_requested b d)
                  then (success, out @ domain_name d @ '' changed externally; preserved current override; '', t)
                  else let (r, t1) = sys_SetOverride svc d (m_previous_overrides b d) b t
                       in if R_FAILED r then (False, out @ domain_name d @ '' restore failed 0x'' @ hex r @ ''; '', t1)
                          else (success, out @ domain_name d @ '' previous override='' @
                                  dec (unat (m_previous_overrides b d)) @ '' restored; '', t1))
           in ((success', out'), b\<lparr>sys_attempted := (sys_attempted b)(d := False), m_applied := (m_applied b)(d := False)\<rparr>, t'))"

definition sys_Release :: "services \<Rightarrow> string \<Rightarrow> sysclk \<times> trace \<Rightarrow> (bool \<times> string) \<times> sysclk \<times> trace" where
  "sys_Release svc det w =
     (let (b, t) = w in
      if \<not> sys_initialized b \<and> \<not> sys_attempted b CPU \<and> \<not> sys_attempted b GPU
      then ((True, ''no clock overrides to release; MEM writes=0''), b, t)
      else let ((current_valid, unused, current, read_error), b1, t1) = ReadContext svc no_readings '''' (b, t);
               ((success, out), b2, t2) =
                 fold (sys_release_domain svc current_valid current) [CPU, GPU] ((True, ''''), b1, t1)
           in ((success, out @ (if \<not> current_valid
                                 then ''ownership read unavailable (conservative restore): '' @ read_error @ ''; '' else '''') @
                         ''MEM writes=0''),
               b2\<lparr>sys_initialized := False\<rparr>, t2))"

definition sys_Destroy :: "services \<Rightarrow> sysclk \<times> trace \<Rightarrow> trace" where
  "sys_Destroy svc w =
     (let (r, b, t) = sys_Release svc '''' w
      in if service_active b then ServiceClose (flavor_service (m_flavor b)) # t else t)"

section \<open>DirectClockBackend\<close>

record direct =
  m_modern :: bool
  m_service_initialized :: bool
  m_cpu_open :: bool
  m_gpu_open :: bool
  m_memory_read_open :: bool
  m_initialized :: bool
  m_previous :: "domain \<Rightarrow> u32"
  m_requested :: "domain \<Rightarrow> u32"
  m_attempted :: "domain \<Rightarrow> bool"

definition DirectClockBackend :: "services \<Rightarrow> direct" where
  "DirectClockBackend svc =
     \<lparr>m_modern = hosversionAtLeast_8_0_0 svc, m_service_initialized = False, m_cpu_open = False, m_gpu_open = False,
      m_memory_read_open = False, m_initialized = False, m_previous = (\<lambda>d. 0), m_requested = (\<lambda>d. 0), m_attempted = (\<lambda>d. False)\<rparr>"

definition WritableModule :: "domain \<Rightarrow> pcv_module" where
  "WritableModule d = (if d = CPU then PcvModule_CpuBus else PcvModule_GPU)"

definition ReadWritable :: "services \<Rightarrow> domain \<Rightarrow> u32 \<Rightarrow> string \<Rightarrow> direct \<Rightarrow> trace \<Rightarrow> (bool \<times> u32 \<times> string) \<times> trace" where
  "ReadWritable svc d hz err b t =
     (let (r, v) = svc_GetClockRate svc t (m_modern b) (WritableModule d);
          t1 = GetClockRate (m_modern b) (WritableModule d) r v # t
      in if R_FAILED r then ((False, hz, ResultText (if d = CPU then ''CPU clock read'' else ''GPU clock read'') r), t1)
         else ((True, v, err), t1))"

definition ReadMemory :: "services \<Rightarrow> u32 \<Rightarrow> direct \<Rightarrow> trace \<Rightarrow> (bool \<times> u32) \<times> trace" where
  "ReadMemory svc hz b t =
     (if m_modern b \<and> \<not> m_memory_read_open b then ((False, hz), t)
      else let (r, v) = svc_GetClockRate svc t (m_modern b) PcvModule_EMC;
               t1 = GetClockRate (m_modern b) PcvModule_EMC r v # t
           in if R_FAILED r then ((False, hz), t1) else ((True, v), t1))"

definition SetWritable :: "services \<Rightarrow> domain \<Rightarrow> u32 \<Rightarrow> direct \<Rightarrow> trace \<Rightarrow> result \<times> trace" where
  "SetWritable svc d hz b t =
     (let r = svc_SetClockRate svc t (m_modern b) (WritableModule d) hz
      in (r, SetClockRate (m_modern b) (WritableModule d) hz r # t))"

definition OpenSession :: "services \<Rightarrow> pcv_module \<Rightarrow> string \<Rightarrow> trace \<Rightarrow> (bool \<times> string) \<times> trace" where
  "OpenSession svc m err t =
     (let r = pcvGetModuleId svc t m; t1 = PcvGetModuleId m r # t;
          (r2, t2) = (if R_FAILED r then (r, t1) else let r2 = clkrstOpenSession svc t1 m in (r2, ClkrstOpenSession m r2 # t1))
      in if R_FAILED r2 then ((False, ResultText ''clkrstOpenSession'' r2), t2) else ((True, err), t2))"

definition Open :: "services \<Rightarrow> string \<Rightarrow> direct \<times> trace \<Rightarrow> (bool \<times> string) \<times> direct \<times> trace" where
  "Open svc err w =
     (let (b, t) = w in
      if m_service_initialized b then ((True, err), b, t)
      else if m_modern b
      then let r = clkrstInitialize svc t; t1 = ClkrstInitialize r # t
           in if R_FAILED r then ((False, ResultText ''clkrstInitialize'' r), b, t1)
              else let b1 = b\<lparr>m_service_initialized := True\<rparr>;
                       ((ok, err2), t2) = OpenSession svc PcvModule_CpuBus err t1
                   in if \<not> ok then ((False, err2), b1, t2)
                      else let b2 = b1\<lparr>m_cpu_open := True\<rparr>;
                               ((ok, err3), t3) = OpenSession svc PcvModule_GPU err2 t2
                           in if \<not> ok then ((False, err3), b2, t3)
                              else let b3 = b2\<lparr>m_gpu_open := True\<rparr>;
                                       ((ok, ignored), t4) = OpenSession svc PcvModule_EMC '''' t3
                                   in ((True, err3), if ok then b3\<lparr>m_memory_read_open := True\<rparr> else b3, t4)
      else let r = pcvInitialize svc t; t1 = PcvInitialize r # t
           in if R_FAILED r then ((False, ResultText ''pcvInitialize'' r), b, t1)
              else ((True, err), b\<lparr>m_service_initialized := True\<rparr>, t1))"

definition Close :: "direct \<times> trace \<Rightarrow> direct \<times> trace" where
  "Close w =
     (let (b, t) = w in
      if \<not> m_service_initialized b then (b, t)
      else if m_modern b
      then let t1 = (if m_memory_read_open b then ClkrstCloseSession PcvModule_EMC # t else t);
               t2 = (if m_gpu_open b then ClkrstCloseSession PcvModule_GPU # t1 else t1);
               t3 = (if m_cpu_open b then ClkrstCloseSession PcvModule_CpuBus # t2 else t2)
           in (b\<lparr>m_memory_read_open := False, m_gpu_open := False, m_cpu_open := False, m_service_initialized := False\<rparr>,
               ClkrstExit # t3)
      else (b\<lparr>m_service_initialized := False\<rparr>, PcvExit # t))"

text \<open>Both rates, then memory: the shared part of \<^verbatim>\<open>Initialize\<close> and \<^verbatim>\<open>ReadEffective\<close>.\<close>

definition read_rates :: "services \<Rightarrow> clock_readings \<Rightarrow> string \<Rightarrow> direct \<Rightarrow> trace \<Rightarrow> (bool \<times> clock_readings \<times> string) \<times> trace" where
  "read_rates svc rd err b t =
     (let ((ok, v, err1), t1) = ReadWritable svc CPU (cpu_hz rd) err b t; rd1 = rd\<lparr>cpu_hz := v\<rparr>
      in if \<not> ok then ((False, rd1, err1), t1)
         else let ((ok, v, err2), t2) = ReadWritable svc GPU (gpu_hz rd1) err1 b t1; rd2 = rd1\<lparr>gpu_hz := v\<rparr>
              in if \<not> ok then ((False, rd2, err2), t2)
                 else let ((ok, v), t3) = ReadMemory svc (memory_hz rd2) b t2
                      in ((True, rd2\<lparr>cpu_valid := True, gpu_valid := True, memory_hz := v, memory_valid := ok\<rparr>, err2), t3))"

definition dir_Initialize ::
  "services \<Rightarrow> clock_readings \<Rightarrow> string \<Rightarrow> direct \<times> trace \<Rightarrow> (bool \<times> clock_readings \<times> string) \<times> direct \<times> trace" where
  "dir_Initialize svc bef err w =
     (let ((ok, err1), b, t) = Open svc err w
      in if \<not> ok then ((False, bef, err1), b, t)
         else let ((ok, bef', err2), t1) = read_rates svc bef err1 b t
              in if \<not> ok then ((False, bef', err2), b, t1)
                 else ((True, bef', err2),
                       b\<lparr>m_previous := (\<lambda>d. if d = CPU then cpu_hz bef' else gpu_hz bef'), m_initialized := True\<rparr>, t1))"

definition dir_GetAvailableRates ::
  "services \<Rightarrow> domain \<Rightarrow> u32 list \<Rightarrow> string \<Rightarrow> direct \<times> trace \<Rightarrow> (bool \<times> u32 list \<times> string) \<times> direct \<times> trace" where
  "dir_GetAvailableRates svc d rates err w =
     (let (b, t) = w;
          (r, invalid, count, list) = svc_GetPossibleClockRates svc t (m_modern b) (WritableModule d);
          t1 = GetPossibleClockRates (m_modern b) (WritableModule d) r invalid count list # t
      in if R_FAILED r then ((False, rates, ResultText ''supported-rate query'' r), b, t1)
         else if invalid \<or> count < 0 \<or> count > 64
         then ((False, rates, ''clock service returned an invalid supported-rate list''), b, t1)
         else ((True, take (nat count) (out_buffer 64 list), err), b, t1))"

definition dir_RequestRate ::
  "services \<Rightarrow> domain \<Rightarrow> u32 \<Rightarrow> string \<Rightarrow> direct \<times> trace \<Rightarrow> (bool \<times> string) \<times> direct \<times> trace" where
  "dir_RequestRate svc d hz err w =
     (let (b, t) = w;
          b1 = b\<lparr>m_attempted := (m_attempted b)(d := True), m_requested := (m_requested b)(d := hz)\<rparr>;
          (r, t1) = SetWritable svc d hz b1 t
      in if R_FAILED r
         then ((False, ResultText (if d = CPU then ''CPU clock request'' else ''GPU clock request'') r), b1, t1)
         else ((True, err), b1, t1))"

definition dir_ReadEffective ::
  "services \<Rightarrow> clock_readings \<Rightarrow> string \<Rightarrow> direct \<times> trace \<Rightarrow> (bool \<times> clock_readings \<times> string) \<times> direct \<times> trace" where
  "dir_ReadEffective svc eff err w = (let (b, t) = w; (r, t1) = read_rates svc eff err b t in (r, b, t1))"

definition dir_release_domain ::
  "services \<Rightarrow> domain \<Rightarrow> (bool \<times> string) \<times> direct \<times> trace \<Rightarrow> (bool \<times> string) \<times> direct \<times> trace" where
  "dir_release_domain svc d acc =
     (let ((success, out), b, t) = acc in
      if \<not> m_attempted b d then acc
      else let ((current_valid, current, ignored), t0) = ReadWritable svc d 0 '''' b t;
               (success', out', t') =
                 (if current_valid \<and> \<not> ControlStillOwned current (m_requested b d)
                  then (success, out @ domain_name d @ '' changed externally; preserved current rate; '', t0)
                  else let (r, t1) = SetWritable svc d (m_previous b d) b t0
                       in if R_FAILED r then (False, out @ domain_name d @ '' restore failed 0x'' @ hex r @ ''; '', t1)
                          else (success, out @ domain_name d @ '' previous rate='' @ dec (unat (m_previous b d)) @ '' restored; '', t1))
           in ((success', out'), b\<lparr>m_attempted := (m_attempted b)(d := False)\<rparr>, t'))"

definition dir_Release :: "services \<Rightarrow> string \<Rightarrow> direct \<times> trace \<Rightarrow> (bool \<times> string) \<times> direct \<times> trace" where
  "dir_Release svc det w =
     (let (b, t) = w in
      if \<not> m_initialized b \<and> \<not> m_attempted b CPU \<and> \<not> m_attempted b GPU
      then ((True, ''no direct clock requests to release; MEM writes=0''), b, t)
      else let ((success, out), b1, t1) = fold (dir_release_domain svc) [CPU, GPU] ((True, ''''), b, t)
           in ((success, out @ ''MEM writes=0''), b1\<lparr>m_initialized := False\<rparr>, t1))"

definition dir_Destroy :: "services \<Rightarrow> direct \<times> trace \<Rightarrow> trace" where
  "dir_Destroy svc w = snd (Close (snd (dir_Release svc '''' w)))"

section \<open>The choice of the backend\<close>

datatype platform_backend = SysClk sysclk | Direct direct

definition lift_sys :: "'r \<times> sysclk \<times> trace \<Rightarrow> 'r \<times> platform_backend \<times> trace" where
  "lift_sys x = (fst x, SysClk (fst (snd x)), snd (snd x))"

definition lift_dir :: "'r \<times> direct \<times> trace \<Rightarrow> 'r \<times> platform_backend \<times> trace" where
  "lift_dir x = (fst x, Direct (fst (snd x)), snd (snd x))"

definition platform_class :: "services \<Rightarrow> (platform_backend, trace) backend_class" where
  "platform_class svc =
     \<lparr>Mechanism = (\<lambda>p. case p of SysClk b \<Rightarrow> sys_mechanism b
                     | Direct b \<Rightarrow> if m_modern b then ''libnx clkrst one-shot request'' else ''libnx pcv one-shot request''),
      ExternalManager = (\<lambda>p. case p of SysClk b \<Rightarrow> sys_external_manager b | Direct b \<Rightarrow> ''''),
      Initialize = (\<lambda>r e (p, t). case p of SysClk b \<Rightarrow> lift_sys (sys_Initialize svc r e (b, t))
                                 | Direct b \<Rightarrow> lift_dir (dir_Initialize svc r e (b, t))),
      GetAvailableRates = (\<lambda>d rs e (p, t). case p of SysClk b \<Rightarrow> lift_sys (sys_GetAvailableRates svc d rs e (b, t))
                                 | Direct b \<Rightarrow> lift_dir (dir_GetAvailableRates svc d rs e (b, t))),
      RequestRate = (\<lambda>d hz e (p, t). case p of SysClk b \<Rightarrow> lift_sys (sys_RequestRate svc d hz e (b, t))
                                 | Direct b \<Rightarrow> lift_dir (dir_RequestRate svc d hz e (b, t))),
      WaitForApply = (\<lambda>(p, t). case p of SysClk b \<Rightarrow> (SysClk b, snd (sys_WaitForApply (b, t))) | Direct b \<Rightarrow> (Direct b, t)),
      ReadEffective = (\<lambda>r e (p, t). case p of SysClk b \<Rightarrow> lift_sys (sys_ReadEffective svc r e (b, t))
                                 | Direct b \<Rightarrow> lift_dir (dir_ReadEffective svc r e (b, t))),
      Release = (\<lambda>det (p, t). case p of SysClk b \<Rightarrow> lift_sys (sys_Release svc det (b, t))
                                 | Direct b \<Rightarrow> lift_dir (dir_Release svc det (b, t))),
      Destroy = (\<lambda>(p, t). case p of SysClk b \<Rightarrow> sys_Destroy svc (b, t) | Direct b \<Rightarrow> dir_Destroy svc (b, t))\<rparr>"

definition ServiceExists :: "services \<Rightarrow> string \<Rightarrow> trace \<Rightarrow> bool \<times> trace" where
  "ServiceExists svc name t =
     (let r = smGetService svc t name; t1 = SmGetService name r # t
      in if R_FAILED r then (False, t1) else (True, ServiceClose name # t1))"

text \<open>One round of the loop over the known clock managers: \<^term>\<open>Some\<close> selection where it returns.
  The backend that failed to connect is destroyed.\<close>

definition try_manager ::
  "services \<Rightarrow> string \<Rightarrow> sysclk_flavor \<Rightarrow> u32 \<Rightarrow> trace \<Rightarrow> platform_backend backend_selection option \<times> trace" where
  "try_manager svc name flavor api t =
     (let ((ok, present, err), b, t1) = sys_Connect svc name api (SysClkBackend flavor, t)
      in if ok then (Some \<lparr>backend = Some (SysClk b),
                           external_manager = (if flavor = Official then ''sys-clk'' else ''sys-clk-OC''), error = ''''\<rparr>, t1)
         else let t2 = sys_Destroy svc (b, t1)
              in (if present then Some \<lparr>backend = None, external_manager = name, error = err\<rparr> else None, t2))"

definition CreatePlatformBackend :: "services \<Rightarrow> trace \<Rightarrow> platform_backend backend_selection \<times> trace" where
  "CreatePlatformBackend svc t =
     (case try_manager svc ''sys:clk'' Official SYSCLK_OFFICIAL_API_VERSION t of
        (Some sel, t1) \<Rightarrow> (sel, t1)
      | (None, t1) \<Rightarrow>
          (case try_manager svc ''sysclkOC'' OcSuite SYSCLK_OC_API_VERSION t1 of
             (Some sel, t2) \<Rightarrow> (sel, t2)
           | (None, t2) \<Rightarrow>
               (let (found, t3) = ServiceExists svc ''hoc:clk'' t2
                in if found
                   then (\<lparr>backend = None, external_manager = ''Horizon-OC (hoc:clk)'',
                          error = ''external clock manager uses an unsupported protocol; no clock writes attempted''\<rparr>, t3)
                   else (\<lparr>backend = Some (Direct (DirectClockBackend svc)), external_manager = ''none detected'', error = ''''\<rparr>, t3))))"

text \<open>\<^verbatim>\<open>AutoClockSession\<close>, without its log lines.\<close>

definition AutoClockSession_Start ::
  "services \<Rightarrow> bool \<Rightarrow> profile \<Rightarrow> platform_backend session \<Rightarrow> trace \<Rightarrow> platform_backend session \<times> trace" where
  "AutoClockSession_Start svc enabled prof ses t = Start (platform_class svc) enabled (CreatePlatformBackend svc) prof ses t"

definition AutoClockSession_Stop ::
  "services \<Rightarrow> platform_backend session \<Rightarrow> trace \<Rightarrow> stop_report \<times> platform_backend session \<times> trace" where
  "AutoClockSession_Stop svc ses t = Stop (platform_class svc) ses t"

end
