(* ===== verification/Clock_Ownership.thy ===== *)
theory Clock_Ownership
  imports Clock_Control
begin

text \<open>
  The correctness of the clock session over the platform backends. The specification reads the
  calls: an ownership protocol per clock, the handles open, and the absence of memory clock
  writes. Both backends obey the contract of \<^verbatim>\<open>Clock_Policy\<close> for every behaviour of the
  services; the properties of the session follow through the interpretation.
\<close>

section \<open>What the calls mean\<close>

text \<open>
  The ownership protocol of one clock domain, as seen in the calls. A session begins with the
  connection to a service; the rate read then is the one to give back; a write takes ownership;
  the domain is settled when it was written back, or when the last rate read differs from the
  one requested, so that somebody else changed it. A write that is neither a first request after
  a read nor a write-back violates the protocol.
\<close>

datatype observation = OBegin | ORead domain u32 | OWrite domain u32 bool

datatype ownership = Free | Known u32 | Owned u32 u32 "u32 option" | Restored | Unrestored | Violated

definition module_domain :: "pcv_module \<Rightarrow> domain option" where
  "module_domain m = (case m of PcvModule_CpuBus \<Rightarrow> Some CPU | PcvModule_GPU \<Rightarrow> Some GPU | PcvModule_EMC \<Rightarrow> None)"

fun observe :: "call \<Rightarrow> observation list" where
  "observe (SmGetService n r) = (if r = 0 then [OBegin] else [])"
| "observe (ClkrstInitialize r) = (if r = 0 then [OBegin] else [])"
| "observe (PcvInitialize r) = (if r = 0 then [OBegin] else [])"
| "observe (GetContext n r c) =
     (if r = 0 then [ORead CPU (override_freqs c CPU_INDEX), ORead GPU (override_freqs c GPU_INDEX)] else [])"
| "observe (SetOverride n m hz r) = (if m = 0 then [OWrite CPU hz (r = 0)] else if m = 1 then [OWrite GPU hz (r = 0)] else [])"
| "observe (GetClockRate x m r v) = (case module_domain m of Some d \<Rightarrow> if r = 0 then [ORead d v] else [] | None \<Rightarrow> [])"
| "observe (SetClockRate x m hz r) = (case module_domain m of Some d \<Rightarrow> [OWrite d hz (r = 0)] | None \<Rightarrow> [])"
| "observe c = []"

fun settled :: "ownership \<Rightarrow> bool" where
  "settled (Owned p r (Some c)) \<longleftrightarrow> c \<noteq> r"
| "settled (Owned p r None) \<longleftrightarrow> False"
| "settled Violated \<longleftrightarrow> False"
| "settled ph \<longleftrightarrow> True"

fun read_phase :: "u32 \<Rightarrow> ownership \<Rightarrow> ownership" where
  "read_phase v Free = Known v"
| "read_phase v (Known p) = Known v"
| "read_phase v (Owned p r l) = Owned p r (Some v)"
| "read_phase v ph = ph"

fun write_phase :: "u32 \<Rightarrow> bool \<Rightarrow> ownership \<Rightarrow> ownership" where
  "write_phase v ok (Known p) = Owned p v None"
| "write_phase v ok (Owned p r l) = (if v = p then if ok then Restored else Unrestored else Violated)"
| "write_phase v ok ph = Violated"

definition phase_step :: "domain \<Rightarrow> observation \<Rightarrow> ownership \<Rightarrow> ownership" where
  "phase_step d ob ph =
     (case ob of OBegin \<Rightarrow> if settled ph then Free else Violated
               | ORead d' v \<Rightarrow> if d' = d then read_phase v ph else ph
               | OWrite d' v ok \<Rightarrow> if d' = d then write_phase v ok ph else ph)"

primrec phase :: "domain \<Rightarrow> trace \<Rightarrow> ownership" where
  "phase d [] = Free"
| "phase d (c # t) = fold (phase_step d) (observe c) (phase d t)"

text \<open>The handles open after the calls, counted.\<close>

datatype handle = HService string | HClkrst | HPcv | HSession pcv_module

fun opens :: "call \<Rightarrow> handle option" where
  "opens (SmGetService n r) = (if r = 0 then Some (HService n) else None)"
| "opens (ClkrstInitialize r) = (if r = 0 then Some HClkrst else None)"
| "opens (PcvInitialize r) = (if r = 0 then Some HPcv else None)"
| "opens (ClkrstOpenSession m r) = (if r = 0 then Some (HSession m) else None)"
| "opens c = None"

fun closes :: "call \<Rightarrow> handle option" where
  "closes (ServiceClose n) = Some (HService n)"
| "closes ClkrstExit = Some HClkrst"
| "closes PcvExit = Some HPcv"
| "closes (ClkrstCloseSession m) = Some (HSession m)"
| "closes c = None"

primrec balance :: "trace \<Rightarrow> handle \<Rightarrow> int" where
  "balance [] h = 0"
| "balance (c # t) h = balance t h + (if opens c = Some h then 1 else 0) - (if closes c = Some h then 1 else 0)"

text \<open>Calls that write the memory clock.\<close>

fun memory_write :: "call \<Rightarrow> bool" where
  "memory_write (SetOverride n m hz r) \<longleftrightarrow> m = word_of_nat MEMORY_INDEX"
| "memory_write (SetClockRate x m hz r) \<longleftrightarrow> m = PcvModule_EMC"
| "memory_write c \<longleftrightarrow> False"

definition no_memory_writes :: "trace \<Rightarrow> bool" where
  "no_memory_writes t \<longleftrightarrow> (\<forall>c\<in>set t. \<not> memory_write c)"

definition all_settled :: "trace \<Rightarrow> bool" where
  "all_settled t \<longleftrightarrow> (\<forall>d. settled (phase d t))"

definition clean :: "trace \<Rightarrow> bool" where
  "clean t \<longleftrightarrow> all_settled t \<and> (\<forall>h. balance t h = 0) \<and> no_memory_writes t"

definition restored :: "trace \<Rightarrow> bool" where
  "restored t \<longleftrightarrow> all_settled t \<and> (\<forall>d. phase d t \<noteq> Unrestored)"

section \<open>States of the backends\<close>

lemma all_domains: "(\<forall>d. P d) \<longleftrightarrow> P CPU \<and> P GPU"
  by (metis domain.exhaust)

lemma ex_domain: "d = CPU \<or> d = GPU"
  by (cases d) simp_all

fun sys_handles :: "sysclk \<Rightarrow> handle \<Rightarrow> int" where
  "sys_handles b h = (if service_active b \<and> h = HService (flavor_service (m_flavor b)) then 1 else 0)"

definition dir_handles :: "direct \<Rightarrow> handle \<Rightarrow> int" where
  "dir_handles b h =
     (let one = (\<lambda>c. if c then 1 else 0) in
      case h of HService n \<Rightarrow> 0
      | HClkrst \<Rightarrow> one (m_service_initialized b \<and> m_modern b)
      | HPcv \<Rightarrow> one (m_service_initialized b \<and> \<not> m_modern b)
      | HSession m \<Rightarrow> one (case m of PcvModule_CpuBus \<Rightarrow> m_cpu_open b | PcvModule_GPU \<Rightarrow> m_gpu_open b
                                 | PcvModule_EMC \<Rightarrow> m_memory_read_open b))"

definition dir_flags :: "direct \<Rightarrow> bool" where
  "dir_flags b \<longleftrightarrow> (m_cpu_open b \<or> m_gpu_open b \<or> m_memory_read_open b \<longrightarrow> m_service_initialized b \<and> m_modern b)"

text \<open>What both kinds of backend have: the flags, the previous and the requested rates.\<close>

fun attempted_of :: "platform_backend \<Rightarrow> domain \<Rightarrow> bool" where
  "attempted_of (SysClk b) = sys_attempted b"
| "attempted_of (Direct b) = m_attempted b"

fun previous_of :: "platform_backend \<Rightarrow> domain \<Rightarrow> u32" where
  "previous_of (SysClk b) = m_previous_overrides b"
| "previous_of (Direct b) = m_previous b"

fun requested_of :: "platform_backend \<Rightarrow> domain \<Rightarrow> u32" where
  "requested_of (SysClk b) = sys_requested b"
| "requested_of (Direct b) = m_requested b"

fun initialized_of :: "platform_backend \<Rightarrow> bool" where
  "initialized_of (SysClk b) \<longleftrightarrow> sys_initialized b"
| "initialized_of (Direct b) \<longleftrightarrow> m_initialized b"

fun base :: "platform_backend \<Rightarrow> trace \<Rightarrow> bool" where
  "base (SysClk b) t \<longleftrightarrow> (\<forall>h. balance t h = sys_handles b h) \<and> no_memory_writes t"
| "base (Direct b) t \<longleftrightarrow> (\<forall>h. balance t h = dir_handles b h) \<and> no_memory_writes t \<and> dir_flags b"

definition owned_phase :: "u32 \<Rightarrow> u32 \<Rightarrow> ownership \<Rightarrow> bool" where
  "owned_phase p r ph \<longleftrightarrow> (\<exists>l. ph = Owned p r l)"

definition quiet :: "ownership \<Rightarrow> bool" where
  "quiet ph \<longleftrightarrow> ph = Free \<or> (\<exists>p. ph = Known p)"

definition idle :: "platform_backend \<Rightarrow> bool" where
  "idle p \<longleftrightarrow> \<not> initialized_of p \<and> (\<forall>d. \<not> attempted_of p d)"

definition fresh :: "platform_backend \<Rightarrow> trace \<Rightarrow> bool" where
  "fresh p t \<longleftrightarrow> base p t \<and> idle p \<and> all_settled t \<and>
     (case p of SysClk b \<Rightarrow> \<forall>d. phase d t = Free | Direct b \<Rightarrow> \<not> m_service_initialized b)"

definition usable :: "domain set \<Rightarrow> platform_backend \<Rightarrow> trace \<Rightarrow> bool" where
  "usable F p t \<longleftrightarrow> base p t \<and> initialized_of p \<and>
     (\<forall>d. if d \<in> F then \<not> attempted_of p d \<and> phase d t = Known (previous_of p d)
          else attempted_of p d \<and> owned_phase (previous_of p d) (requested_of p d) (phase d t))"

definition tracked :: "platform_backend \<Rightarrow> trace \<Rightarrow> bool" where
  "tracked p t \<longleftrightarrow>
     (\<forall>d. if attempted_of p d then owned_phase (previous_of p d) (requested_of p d) (phase d t) else quiet (phase d t))"

definition releasable :: "platform_backend \<Rightarrow> trace \<Rightarrow> bool" where
  "releasable p t \<longleftrightarrow> base p t \<and>
     (idle p \<and> all_settled t \<or>
      initialized_of p \<and> tracked p t)"

definition released :: "platform_backend \<Rightarrow> trace \<Rightarrow> bool" where
  "released p t \<longleftrightarrow> base p t \<and> idle p \<and> all_settled t"

section \<open>Effects of the operations\<close>

lemma no_memory_writes_Cons [simp]: "no_memory_writes (c # t) \<longleftrightarrow> \<not> memory_write c \<and> no_memory_writes t"
  by (auto simp: no_memory_writes_def)

lemma module_of_domain [simp]:
  "module_domain (WritableModule d) = Some d" "WritableModule d \<noteq> PcvModule_EMC" "module_domain PcvModule_EMC = None"
  by (cases d; simp add: module_domain_def WritableModule_def)+

lemma protocol_module:
  "ProtocolModule CPU = 0" "ProtocolModule GPU = 1" "ProtocolModule d \<noteq> word_of_nat MEMORY_INDEX"
  by (simp_all add: ProtocolModule_def Index_def field_defs)

lemma phase_write:
  "phase d' (SetOverride n (ProtocolModule d) hz r # t) = (if d' = d then write_phase hz (r = 0) (phase d' t) else phase d' t)"
  "phase d' (SetClockRate x (WritableModule d) hz r # t) = (if d' = d then write_phase hz (r = 0) (phase d' t) else phase d' t)"
  by (cases d; simp add: protocol_module phase_step_def)+

lemma phase_read:
  "phase d' (GetClockRate x (WritableModule d) r v # t) = (if r = 0 \<and> d' = d then read_phase v (phase d' t) else phase d' t)"
  "phase d (GetContext n r c # t) = (if r = 0 then read_phase (override_freqs c (Index d)) (phase d t) else phase d t)"
  by (cases d; simp add: phase_step_def Index_def)+

lemma ReadContext_effect:
  assumes "ReadContext svc rd e (b, t) = ((ok, rd', ov, e'), b', t')"
  shows "balance t' h = balance t h" "no_memory_writes t' = no_memory_writes t"
    "phase d t' = (if ok then read_phase (ov d) (phase d t) else phase d t)" "\<exists>p. b' = b\<lparr>m_profile := p\<rparr>"
proof -
  obtain r c where g: "svc_GetContext svc t (flavor_service (m_flavor b)) = (r, c)" by force
  have t': "t' = GetContext (flavor_service (m_flavor b)) r c # t" "ok \<longleftrightarrow> r = 0"
    "ok \<Longrightarrow> ov = (\<lambda>d. override_freqs c (Index d))"
    using assms g by (auto simp: ReadContext_def Let_def split: if_splits)
  show "balance t' h = balance t h" "no_memory_writes t' = no_memory_writes t" by (simp_all add: t')
  show "phase d t' = (if ok then read_phase (ov d) (phase d t) else phase d t)"
    using t' by (simp add: phase_read del: phase.simps)
  have "b' = b \<or> b' = b\<lparr>m_profile := ctx_profile c\<rparr>" using assms g by (auto simp: ReadContext_def Let_def split: if_splits)
  then show "\<exists>p. b' = b\<lparr>m_profile := p\<rparr>" by (metis sysclk.surjective sysclk.update_convs(7))
qed

lemma sys_SetOverride_effect:
  assumes "sys_SetOverride svc d hz b t = (r, t')"
  shows "balance t' h = balance t h" "no_memory_writes t' = no_memory_writes t"
    "phase d' t' = (if d' = d then write_phase hz (r = 0) (phase d' t) else phase d' t)"
proof -
  have t': "t' = SetOverride (flavor_service (m_flavor b)) (ProtocolModule d) hz r # t"
    using assms by (auto simp: sys_SetOverride_def Let_def)
  show "balance t' h = balance t h" "no_memory_writes t' = no_memory_writes t" by (simp_all add: t' protocol_module)
  show "phase d' t' = (if d' = d then write_phase hz (r = 0) (phase d' t) else phase d' t)"
    unfolding t' by (rule phase_write)
qed

lemma ReadWritable_effect:
  assumes "ReadWritable svc d hz e b t = ((ok, v, e'), t')"
  shows "balance t' h = balance t h" "no_memory_writes t' = no_memory_writes t"
    "phase d' t' = (if ok \<and> d' = d then read_phase v (phase d' t) else phase d' t)"
proof -
  obtain r w where g: "svc_GetClockRate svc t (m_modern b) (WritableModule d) = (r, w)" by force
  have t': "t' = GetClockRate (m_modern b) (WritableModule d) r w # t" "ok \<longleftrightarrow> r = 0" "ok \<Longrightarrow> v = w"
    using assms g by (auto simp: ReadWritable_def Let_def split: if_splits)
  show "balance t' h = balance t h" "no_memory_writes t' = no_memory_writes t" by (simp_all add: t')
  show "phase d' t' = (if ok \<and> d' = d then read_phase v (phase d' t) else phase d' t)"
    using t' by (simp add: phase_read del: phase.simps)
qed

lemma ReadMemory_effect:
  assumes "ReadMemory svc hz b t = (r, t')"
  shows "balance t' h = balance t h" "no_memory_writes t' = no_memory_writes t" "phase d t' = phase d t"
  using assms by (auto simp: ReadMemory_def Let_def split: if_splits prod.splits)

lemma SetWritable_effect:
  assumes "SetWritable svc d hz b t = (r, t')"
  shows "balance t' h = balance t h" "no_memory_writes t' = no_memory_writes t"
    "phase d' t' = (if d' = d then write_phase hz (r = 0) (phase d' t) else phase d' t)"
proof -
  have t': "t' = SetClockRate (m_modern b) (WritableModule d) hz r # t" using assms by (auto simp: SetWritable_def Let_def)
  show "balance t' h = balance t h" "no_memory_writes t' = no_memory_writes t" by (simp_all add: t')
  show "phase d' t' = (if d' = d then write_phase hz (r = 0) (phase d' t) else phase d' t)"
    unfolding t' by (rule phase_write)
qed

lemma OpenSession_effect:
  assumes "OpenSession svc m e t = ((ok, e'), t')"
  shows "balance t' h = balance t h + (if ok \<and> h = HSession m then 1 else 0)"
    "no_memory_writes t' = no_memory_writes t" "phase d t' = phase d t"
  using assms by (auto simp: OpenSession_def Let_def split: if_splits)

lemma read_rates_effect:
  assumes "read_rates svc rd e b t = ((ok, rd', e'), t')"
  shows "balance t' h = balance t h" "no_memory_writes t' = no_memory_writes t"
    "ok \<Longrightarrow> phase d t' = read_phase (if d = CPU then cpu_hz rd' else gpu_hz rd') (phase d t)"
    "\<not> ok \<Longrightarrow> \<exists>v. phase d t' \<in> {phase d t, read_phase v (phase d t)}"
proof -
  obtain ok1 v1 e1 t1 where r1: "ReadWritable svc CPU (cpu_hz rd) e b t = ((ok1, v1, e1), t1)" by (metis prod.exhaust)
  obtain ok2 v2 e2 t2 where r2: "ReadWritable svc GPU (gpu_hz rd) e1 b t1 = ((ok2, v2, e2), t2)" by (metis prod.exhaust)
  obtain ok3 v3 t3 where r3: "ReadMemory svc (memory_hz rd) b t2 = ((ok3, v3), t3)" by (metis prod.exhaust)
  note f1 = ReadWritable_effect [OF r1] and f2 = ReadWritable_effect [OF r2] and f3 = ReadMemory_effect [OF r3]
  have eq: "read_rates svc rd e b t =
      (if \<not> ok1 then ((False, rd\<lparr>cpu_hz := v1\<rparr>, e1), t1)
       else if \<not> ok2 then ((False, rd\<lparr>cpu_hz := v1, gpu_hz := v2\<rparr>, e2), t2)
       else ((True, rd\<lparr>cpu_hz := v1, gpu_hz := v2, cpu_valid := True, gpu_valid := True, memory_hz := v3, memory_valid := ok3\<rparr>, e2), t3))"
    using r1 r2 r3 by (simp add: read_rates_def Let_def)
  show "balance t' h = balance t h" "no_memory_writes t' = no_memory_writes t"
    using assms eq f1 f2 f3 by (auto split: if_splits)
  show "phase d t' = read_phase (if d = CPU then cpu_hz rd' else gpu_hz rd') (phase d t)" if ok
    using that assms eq f1(3) [of d] f2(3) [of d] f3(3) [of d] ex_domain [of d] by (auto split: if_splits)
  show "\<exists>v. phase d t' \<in> {phase d t, read_phase v (phase d t)}" if "\<not> ok"
    using that assms eq f1(3) [of d] f2(3) [of d] ex_domain [of d] by (auto split: if_splits)
qed

lemma settled_simps [simp]:
  "quiet ph \<Longrightarrow> settled ph" "quiet ph \<Longrightarrow> quiet (read_phase v ph)" "quiet Free" "quiet (Known p)"
  "quiet ph \<Longrightarrow> ph \<noteq> Unrestored"
  by (auto simp: quiet_def)

lemma owned_read [simp]: "owned_phase p r ph \<Longrightarrow> owned_phase p r (read_phase v ph)"
  by (auto simp: owned_phase_def)

lemma read_Free: "read_phase v Free = Known v" by simp

section \<open>The laws for SysClkBackend\<close>

lemma sys_Connect_effect:
  assumes "sys_Connect svc n api (b, t) = ((ok, present, e), b', t')"
  shows "balance t' h = balance t h + (if present \<and> h = HService n then 1 else 0)"
    "no_memory_writes t' = no_memory_writes t"
    "present \<Longrightarrow> all_settled t \<Longrightarrow> phase d t' = Free" "\<not> present \<Longrightarrow> phase d t' = phase d t"
    "ok \<Longrightarrow> present"
    "service_active b' = (present \<or> service_active b)" "m_flavor b' = m_flavor b"
    "sys_initialized b' = sys_initialized b" "sys_attempted b' = sys_attempted b"
proof -
  define r where "r = smGetService svc t n"
  obtain r2 v where v: "svc_GetApiVersion svc (SmGetService n r # t) n = (r2, v)" by force
  have "(present \<longleftrightarrow> r = 0) \<and> (ok \<longrightarrow> present) \<and>
    t' = (if r = 0 then GetApiVersion n r2 v # SmGetService n r # t else SmGetService n r # t) \<and>
    service_active b' = (present \<or> service_active b) \<and> m_flavor b' = m_flavor b \<and>
    sys_initialized b' = sys_initialized b \<and> sys_attempted b' = sys_attempted b"
  proof (cases "r = 0")
    case True
    then show ?thesis
      using assms v by (cases "r2 = 0"; cases "v = api") (auto simp: sys_Connect_def Let_def r_def)
  qed (use assms in \<open>auto simp: sys_Connect_def Let_def r_def\<close>)
  then show "balance t' h = balance t h + (if present \<and> h = HService n then 1 else 0)"
    "no_memory_writes t' = no_memory_writes t"
    "present \<Longrightarrow> all_settled t \<Longrightarrow> phase d t' = Free" "\<not> present \<Longrightarrow> phase d t' = phase d t"
    "ok \<Longrightarrow> present"
    "service_active b' = (present \<or> service_active b)" "m_flavor b' = m_flavor b"
    "sys_initialized b' = sys_initialized b" "sys_attempted b' = sys_attempted b"
    by (auto simp: phase_step_def all_settled_def)
qed

lemma sys_init_law:
  assumes f: "fresh (SysClk b) t" and "sys_Initialize svc r e (b, t) = ((ok, r', e'), b', t')"
  shows "if ok then usable {CPU, GPU} (SysClk b') t' else releasable (SysClk b') t'"
proof -
  obtain ok1 r1 ov e1 b1 t1 where rc: "ReadContext svc r e (b, t) = ((ok1, r1, ov, e1), b1, t1)" by (metis prod.exhaust)
  note ef = ReadContext_effect [OF rc]
  obtain p where p: "b1 = b\<lparr>m_profile := p\<rparr>" using ef(4) by blast
  have res: "ok = ok1" "t' = t1" "b' = (if ok1 then b1\<lparr>m_previous_overrides := ov, sys_initialized := True\<rparr> else b1)"
    using assms(2) rc by (auto simp: sys_Initialize_def Let_def split: if_splits)
  have base: "base (SysClk b') t'" using f ef(1,2) p by (simp add: res fresh_def)
  have ph: "phase d t = Free" for d using f by (simp add: fresh_def)
  show ?thesis
  proof (cases ok)
    case True
    then have "phase d t' = Known (ov d)" for d using ef(3) [of d] ph by (simp add: res)
    with True f base p show ?thesis by (auto simp: usable_def res fresh_def idle_def all_domains)
  next
    case False
    then have "phase d t' = Free" for d using ef(3) [of d] ph by (simp add: res)
    with False f base p show ?thesis by (simp add: releasable_def res fresh_def idle_def all_settled_def)
  qed
qed

text \<open>Operations that change neither the flags nor the phases.\<close>

lemma base_frame:
  assumes "\<And>h. balance t' h = balance t h" "no_memory_writes t' = no_memory_writes t"
  shows "base p t' = base p t"
  using assms by (cases p) simp_all

lemma usable_frame:
  assumes "usable F p t" "\<And>h. balance t' h = balance t h" "no_memory_writes t' = no_memory_writes t"
    and "\<And>d. phase d t' = phase d t"
  shows "usable F p t'"
  using assms(1,4) base_frame [OF assms(2,3), of p] by (simp add: usable_def)

lemma usable_request:
  assumes "usable F p t" "d \<in> F" "base p' t'" "initialized_of p'"
    and "attempted_of p' = (attempted_of p)(d := True)" "requested_of p' = (requested_of p)(d := hz)"
    and "previous_of p' = previous_of p"
    and ph: "\<And>d'. phase d' t' = (if d' = d then write_phase hz ok (phase d' t) else phase d' t)"
  shows "usable (F - {d}) p' t'"
  unfolding usable_def
proof (intro conjI allI)
  fix d'
  have u: "if d' \<in> F then \<not> attempted_of p d' \<and> phase d' t = Known (previous_of p d')
      else attempted_of p d' \<and> owned_phase (previous_of p d') (requested_of p d') (phase d' t)"
    using assms(1) by (simp add: usable_def)
  show "if d' \<in> F - {d} then \<not> attempted_of p' d' \<and> phase d' t' = Known (previous_of p' d')
      else attempted_of p' d' \<and> owned_phase (previous_of p' d') (requested_of p' d') (phase d' t')"
    using u assms(2,5-7) ph [of d'] by (cases "d' = d") (auto simp: owned_phase_def)
qed (fact assms(3,4))+

lemma sys_rates_law:
  assumes "usable F (SysClk b) t" "sys_GetAvailableRates svc d rs e (b, t) = ((ok, rs', e'), b', t')"
  shows "usable F (SysClk b') t'"
proof -
  have "b' = b" "\<And>h. balance t' h = balance t h" "no_memory_writes t' = no_memory_writes t" "\<And>d. phase d t' = phase d t"
    using assms(2) by (auto simp: sys_GetAvailableRates_def Let_def split: if_splits prod.splits)
  with usable_frame [OF assms(1)] show ?thesis by blast
qed

lemma sys_request_law:
  assumes "usable F (SysClk b) t" "d \<in> F" "sys_RequestRate svc d hz e (b, t) = ((ok, e'), b', t')"
  shows "usable (F - {d}) (SysClk b') t'"
proof -
  let ?b = "b\<lparr>sys_attempted := (sys_attempted b)(d := True), sys_requested := (sys_requested b)(d := hz)\<rparr>"
  obtain r t1 where s: "sys_SetOverride svc d hz ?b t = (r, t1)" by force
  note ef = sys_SetOverride_effect [OF s]
  have b': "t' = t1" "sys_attempted b' = (sys_attempted b)(d := True)" "sys_requested b' = (sys_requested b)(d := hz)"
    "m_previous_overrides b' = m_previous_overrides b" "sys_initialized b' = sys_initialized b"
    "service_active b' = service_active b" "m_flavor b' = m_flavor b"
    using assms(3) s by (auto simp: sys_RequestRate_def Let_def split: if_splits)
  have "base (SysClk b') t'" using assms(1) ef(1,2) by (simp add: usable_def b')
  moreover have "sys_initialized b" using assms(1) by (simp add: usable_def)
  ultimately show ?thesis
    using usable_request [OF assms(1,2), of "SysClk b'" t' hz "r = 0"] ef(3) by (simp add: b')
qed

lemma sys_wait_law:
  assumes "usable F (SysClk b) t"
  shows "usable F (SysClk b) (snd (sys_WaitForApply (b, t)))"
  by (rule usable_frame [OF assms]) (simp_all add: sys_WaitForApply_def)

lemma sys_effective_law:
  assumes "usable {} (SysClk b) t" "sys_ReadEffective svc r e (b, t) = ((ok, r', e'), b', t')"
  shows "usable {} (SysClk b') t'"
proof -
  obtain ok1 r1 ov e1 b1 t1 where rc: "ReadContext svc r e (b, t) = ((ok1, r1, ov, e1), b1, t1)" by (metis prod.exhaust)
  note ef = ReadContext_effect [OF rc]
  obtain p where p: "b1 = b\<lparr>m_profile := p\<rparr>" using ef(4) by blast
  have "b' = b1" "t' = t1" using assms(2) rc by (auto simp: sys_ReadEffective_def Let_def)
  with assms(1) ef(1-3) p show ?thesis by (auto simp: usable_def)
qed


lemma tracked_domain:
  "tracked p t \<Longrightarrow> if attempted_of p d then owned_phase (previous_of p d) (requested_of p d) (phase d t) else quiet (phase d t)"
  by (simp add: tracked_def)

text \<open>The write-back of one domain.\<close>

lemma settle_phase:
  assumes "owned_phase p r ph"
  shows "settled (write_phase p ok ph)" "ok \<Longrightarrow> write_phase p ok ph \<noteq> Unrestored"
    "c \<noteq> r \<Longrightarrow> ph = Owned p r (Some c) \<Longrightarrow> settled ph \<and> ph \<noteq> Unrestored"
  using assms by (auto simp: owned_phase_def)

lemma sys_release_domain_effect:
  assumes "sys_release_domain svc valid cur d ((s, out), b, t) = ((s', out'), b', t')"
    and own: "if sys_attempted b d then owned_phase (m_previous_overrides b d) (sys_requested b d) (phase d t) else quiet (phase d t)"
    and read: "sys_attempted b d \<and> valid \<longrightarrow> (\<exists>p r. phase d t = Owned p r (Some (cur d)))"
  shows "balance t' h = balance t h" "no_memory_writes t' = no_memory_writes t"
    "settled (phase d t')" "s' \<Longrightarrow> s \<and> phase d t' \<noteq> Unrestored" "d' \<noteq> d \<Longrightarrow> phase d' t' = phase d' t"
    "sys_attempted b' = (sys_attempted b)(d := False)"
    "m_previous_overrides b' = m_previous_overrides b" "sys_requested b' = sys_requested b"
    "service_active b' = service_active b" "m_flavor b' = m_flavor b"
proof -
  have "balance t' h = balance t h \<and> no_memory_writes t' = no_memory_writes t \<and> settled (phase d t') \<and>
    (s' \<longrightarrow> s \<and> phase d t' \<noteq> Unrestored) \<and> (d' \<noteq> d \<longrightarrow> phase d' t' = phase d' t) \<and>
    sys_attempted b' = (sys_attempted b)(d := False) \<and>
    m_previous_overrides b' = m_previous_overrides b \<and> sys_requested b' = sys_requested b \<and>
    service_active b' = service_active b \<and> m_flavor b' = m_flavor b"
  proof (cases "sys_attempted b d")
    case False
    with assms(1) have "s' = s" "b' = b" "t' = t" by (simp_all add: sys_release_domain_def)
    moreover have "(sys_attempted b)(d := False) = sys_attempted b" using False by (simp add: fun_upd_idem)
    ultimately show ?thesis using False own by simp
  next
    case True
    then have owned: "owned_phase (m_previous_overrides b d) (sys_requested b d) (phase d t)" using own by simp
    let ?b = "b\<lparr>sys_attempted := (sys_attempted b)(d := False), m_applied := (m_applied b)(d := False)\<rparr>"
    show ?thesis
    proof (cases "valid \<and> cur d \<noteq> sys_requested b d")
      case lost: True
      then have "s' = s" "t' = t" "b' = ?b"
        using assms(1) True by (simp_all add: sys_release_domain_def ControlStillOwned_def)
      moreover have "settled (phase d t) \<and> phase d t \<noteq> Unrestored"
        using owned read True lost by (auto simp: owned_phase_def)
      ultimately show ?thesis by simp
    next
      case False
      obtain r t1 where w: "sys_SetOverride svc d (m_previous_overrides b d) b t = (r, t1)" by force
      have "s' = (s \<and> r = 0)" "t' = t1" "b' = ?b"
        using assms(1) True False w by (auto simp: sys_release_domain_def ControlStillOwned_def Let_def split: if_splits)
      moreover note ef = sys_SetOverride_effect [OF w]
      ultimately show ?thesis using settle_phase(1,2) [OF owned, of "r = 0"] by simp
    qed
  qed
  then show "balance t' h = balance t h" "no_memory_writes t' = no_memory_writes t"
    "settled (phase d t')" "s' \<Longrightarrow> s \<and> phase d t' \<noteq> Unrestored" "d' \<noteq> d \<Longrightarrow> phase d' t' = phase d' t"
    "sys_attempted b' = (sys_attempted b)(d := False)"
    "m_previous_overrides b' = m_previous_overrides b" "sys_requested b' = sys_requested b"
    "service_active b' = service_active b" "m_flavor b' = m_flavor b" by blast+
qed

lemma sys_Release_idle:
  assumes "idle (SysClk b)"
  shows "\<exists>d. sys_Release svc s (b, t) = ((True, d), b, t)"
  using assms by (auto simp: sys_Release_def idle_def)

lemma sys_Release_active:
  assumes "base (SysClk b) t" "initialized_of (SysClk b)" "tracked (SysClk b) t"
    and rel: "sys_Release svc s (b, t) = ((ok, s'), b', t')"
  shows "released (SysClk b') t' \<and> (ok \<longrightarrow> restored t')"
proof -
  note own = tracked_domain [OF assms(3), simplified]
  obtain valid rd cur e b1 t1 where rc: "ReadContext svc no_readings '''' (b, t) = ((valid, rd, cur, e), b1, t1)"
    by (metis prod.exhaust)
  obtain s2 o2 b2 t2 where c: "sys_release_domain svc valid cur CPU ((True, ''''), b1, t1) = ((s2, o2), b2, t2)"
    by (metis prod.exhaust)
  obtain s3 o3 b3 t3 where g: "sys_release_domain svc valid cur GPU ((s2, o2), b2, t2) = ((s3, o3), b3, t3)"
    by (metis prod.exhaust)
  have r: "ok = s3" "b' = b3\<lparr>sys_initialized := False\<rparr>" "t' = t3"
    using rel assms(2) rc c g by (auto simp: sys_Release_def Let_def)
  note ef = ReadContext_effect [OF rc]
  obtain p where p: "b1 = b\<lparr>m_profile := p\<rparr>" using ef(4) by blast
  have own1: "if sys_attempted b1 d then owned_phase (m_previous_overrides b1 d) (sys_requested b1 d) (phase d t1) else quiet (phase d t1)" for d
    using own [of d] ef(3) [of d] by (auto simp: p)
  have cur1: "sys_attempted b1 d \<and> valid \<longrightarrow> (\<exists>p r. phase d t1 = Owned p r (Some (cur d)))" for d
    using own [of d] ef(3) [of d] by (auto simp: p owned_phase_def)
  note e1 = sys_release_domain_effect [OF c own1 cur1]
  have GPU1: "phase GPU t2 = phase GPU t1" using e1(5) [of GPU] by simp
  have att: "sys_attempted b2 GPU = sys_attempted b1 GPU" by (simp add: e1(6))
  note e2 = sys_release_domain_effect [OF g, unfolded e1(7,8) GPU1 att, OF own1 cur1]
  have CPU2: "phase CPU t3 = phase CPU t2" using e2(5) [of CPU] by simp
  have "base (SysClk b') t'" using assms(1) ef(1,2) e1(1,2,9,10) e2(1,2,9,10) by (simp add: r p)
  moreover have "idle (SysClk b')" using e1(6) e2(6) by (simp add: r idle_def all_domains)
  moreover have "all_settled t'" using e1(3) e2(3) CPU2 by (simp add: r all_settled_def all_domains)
  moreover have "ok \<longrightarrow> (\<forall>d. phase d t' \<noteq> Unrestored)" using e1(4) e2(4) CPU2 by (auto simp: r all_domains)
  ultimately show ?thesis by (simp add: released_def restored_def)
qed

lemma sys_release_law:
  assumes "releasable (SysClk b) t" "sys_Release svc s (b, t) = ((ok, s'), b', t')"
  shows "released (SysClk b') t'"
proof (cases "idle (SysClk b)")
  case True
  then have "b' = b" "t' = t" using sys_Release_idle [OF True, of svc s t] assms(2) by auto
  moreover have "all_settled t"
    using assms(1) True by (auto simp: releasable_def all_settled_def idle_def)
  ultimately show ?thesis using assms(1) True by (simp add: released_def releasable_def)
next
  case False
  then have a: "base (SysClk b) t" "initialized_of (SysClk b)" "tracked (SysClk b) t"
    using assms(1) unfolding releasable_def by blast+
  from sys_Release_active [OF this assms(2)] show ?thesis by blast
qed

lemma sys_destroy_law:
  assumes "released (SysClk b) t"
  shows "clean (sys_Destroy svc (b, t))" "phase d (sys_Destroy svc (b, t)) = phase d t"
proof -
  have "idle (SysClk b)" using assms by (simp add: released_def)
  from sys_Release_idle [OF this] obtain x where "sys_Release svc '''' (b, t) = ((True, x), b, t)" by blast
  then have d: "sys_Destroy svc (b, t) = (if service_active b then ServiceClose (flavor_service (m_flavor b)) # t else t)"
    by (simp add: sys_Destroy_def Let_def)
  show "phase d (sys_Destroy svc (b, t)) = phase d t" by (simp add: d)
  show "clean (sys_Destroy svc (b, t))" using assms by (auto simp: d clean_def released_def all_settled_def)
qed

section \<open>The laws for DirectClockBackend\<close>

lemma handle_cases:
  "(\<forall>h. P h) \<longleftrightarrow> (\<forall>n. P (HService n)) \<and> P HClkrst \<and> P HPcv \<and>
     P (HSession PcvModule_CpuBus) \<and> P (HSession PcvModule_GPU) \<and> P (HSession PcvModule_EMC)"
proof (rule iffI)
  assume a: "(\<forall>n. P (HService n)) \<and> P HClkrst \<and> P HPcv \<and>
     P (HSession PcvModule_CpuBus) \<and> P (HSession PcvModule_GPU) \<and> P (HSession PcvModule_EMC)"
  have "P (HSession m)" for m using a by (cases m) simp_all
  then show "\<forall>h. P h" using a by (auto intro: handle.induct)
qed blast

text \<open>The handles do not depend on the bookkeeping of the rates.\<close>

lemma dir_handles_rates [simp]:
  "dir_handles (b\<lparr>m_previous := f\<rparr>) = dir_handles b" "dir_handles (b\<lparr>m_requested := f\<rparr>) = dir_handles b"
  "dir_handles (b\<lparr>m_attempted := g\<rparr>) = dir_handles b" "dir_handles (b\<lparr>m_initialized := x\<rparr>) = dir_handles b"
  by (auto simp: dir_handles_def fun_eq_iff split: handle.split pcv_module.split)

lemma dir_flags_rates [simp]:
  "dir_flags (b\<lparr>m_previous := f\<rparr>) = dir_flags b" "dir_flags (b\<lparr>m_requested := f\<rparr>) = dir_flags b"
  "dir_flags (b\<lparr>m_attempted := g\<rparr>) = dir_flags b" "dir_flags (b\<lparr>m_initialized := x\<rparr>) = dir_flags b"
  by (simp_all add: dir_flags_def)

lemma phase_connect:
  assumes "all_settled t"
  shows "phase d (ClkrstInitialize r # t) = (if r = 0 then Free else phase d t)"
    "phase d (PcvInitialize r # t) = (if r = 0 then Free else phase d t)"
  using assms by (auto simp: phase_step_def all_settled_def)

lemma Open_modern:
  assumes "m_modern b" "\<not> m_service_initialized b" "\<not> m_cpu_open b" "\<not> m_gpu_open b" "\<not> m_memory_read_open b"
    and "\<forall>h. balance t h = 0" "no_memory_writes t" "all_settled t"
    and "Open svc e (b, t) = ((ok, e'), b', t')"
  shows "base (Direct b') t' \<and> (if m_service_initialized b' then \<forall>d. phase d t' = Free else \<not> ok \<and> all_settled t')
    \<and> m_initialized b' = m_initialized b \<and> m_attempted b' = m_attempted b"
proof -
  define r where "r = clkrstInitialize svc t"
  define t1 where "t1 = ClkrstInitialize r # t"
  obtain ok2 e2 t2 where o2: "OpenSession svc PcvModule_CpuBus e t1 = ((ok2, e2), t2)" by (metis prod.exhaust)
  obtain ok3 e3 t3 where o3: "OpenSession svc PcvModule_GPU e2 t2 = ((ok3, e3), t3)" by (metis prod.exhaust)
  obtain ok4 e4 t4 where o4: "OpenSession svc PcvModule_EMC '''' t3 = ((ok4, e4), t4)" by (metis prod.exhaust)
  note eff = OpenSession_effect [OF o2] OpenSession_effect [OF o3] OpenSession_effect [OF o4]
  define b1 where "b1 = b\<lparr>m_service_initialized := True\<rparr>"
  define b3 where "b3 = b1\<lparr>m_cpu_open := True, m_gpu_open := True\<rparr>"
  have eq: "Open svc e (b, t) =
     (if r \<noteq> 0 then ((False, ResultText ''clkrstInitialize'' r), b, t1)
      else if \<not> ok2 then ((False, e2), b1, t2)
      else if \<not> ok3 then ((False, e3), b1\<lparr>m_cpu_open := True\<rparr>, t3)
      else ((True, e3), if ok4 then b3\<lparr>m_memory_read_open := True\<rparr> else b3, t4))"
    using assms(1,2) o2 o3 o4 unfolding t1_def r_def
    by (cases "clkrstInitialize svc t = 0") (simp_all add: Open_def Let_def b1_def b3_def)
  have bal: "balance t1 h = (if r = 0 \<and> h = HClkrst then 1 else 0)" for h using assms(6) by (simp add: t1_def)
  have mem: "no_memory_writes t1" using assms(7) by (simp add: t1_def)
  have ph: "phase d t1 = (if r = 0 then Free else phase d t)" for d
    unfolding t1_def by (rule phase_connect [OF assms(8)])
  consider "r \<noteq> 0" | "r = 0" "\<not> ok2" | "r = 0" ok2 "\<not> ok3" | "r = 0" ok2 ok3 ok4 | "r = 0" ok2 ok3 "\<not> ok4" by blast
  then show ?thesis
  proof cases
    case 1
    with assms(9) eq have res: "\<not> ok" "b' = b" "t' = t1" by simp_all
    from 1 assms(1-5,8) bal mem ph show ?thesis unfolding res(2,3)
      by (simp add: res(1) dir_handles_def dir_flags_def all_settled_def handle_cases b1_def b3_def)
  next
    case 2
    with assms(9) eq have res: "\<not> ok" "b' = b1" "t' = t2" by simp_all
    from 2 assms(1-5) bal mem ph eff show ?thesis unfolding res(2,3)
      by (simp add: res(1) dir_handles_def dir_flags_def handle_cases b1_def b3_def)
  next
    case 3
    with assms(9) eq have res: "\<not> ok" "b' = b1\<lparr>m_cpu_open := True\<rparr>" "t' = t3" by simp_all
    from 3 assms(1-5) bal mem ph eff show ?thesis unfolding res(2,3)
      by (simp add: res(1) dir_handles_def dir_flags_def handle_cases b1_def b3_def)
  next
    case 4
    with assms(9) eq have res: "ok" "b' = b3\<lparr>m_memory_read_open := True\<rparr>" "t' = t4" by simp_all
    from 4 assms(1-5) bal mem ph eff show ?thesis unfolding res(2,3)
      by (simp add: res(1) dir_handles_def dir_flags_def handle_cases b1_def b3_def)
  next
    case 5
    with assms(9) eq have res: "ok" "b' = b3" "t' = t4" by simp_all
    from 5 assms(1-5) bal mem ph eff show ?thesis unfolding res(2,3)
      by (simp add: res(1) dir_handles_def dir_flags_def handle_cases b1_def b3_def)
  qed
qed

lemma Open_legacy:
  assumes "\<not> m_modern b" "\<not> m_service_initialized b" "\<not> m_cpu_open b" "\<not> m_gpu_open b" "\<not> m_memory_read_open b"
    and "\<forall>h. balance t h = 0" "no_memory_writes t" "all_settled t"
    and "Open svc e (b, t) = ((ok, e'), b', t')"
  shows "base (Direct b') t' \<and> (if m_service_initialized b' then \<forall>d. phase d t' = Free else \<not> ok \<and> all_settled t')
    \<and> m_initialized b' = m_initialized b \<and> m_attempted b' = m_attempted b"
proof -
  define r where "r = pcvInitialize svc t"
  have "(ok, b', t') = (r = 0, if r = 0 then b\<lparr>m_service_initialized := True\<rparr> else b, PcvInitialize r # t)"
    using assms(1,2,9) by (auto simp: Open_def Let_def r_def split: if_splits)
  then have eq: "ok = (r = 0)" "b' = (if r = 0 then b\<lparr>m_service_initialized := True\<rparr> else b)" "t' = PcvInitialize r # t"
    by simp_all
  have "phase d t' = (if r = 0 then Free else phase d t)" for d unfolding eq by (rule phase_connect [OF assms(8)])
  with assms(1-8) eq show ?thesis
    by (cases "r = 0") (simp_all add: dir_handles_def dir_flags_def all_settled_def handle_cases)
qed

lemma fresh_direct:
  assumes "fresh (Direct b) t"
  shows "\<not> m_service_initialized b" "\<not> m_cpu_open b" "\<not> m_gpu_open b" "\<not> m_memory_read_open b"
    "\<forall>h. balance t h = 0" "no_memory_writes t" "all_settled t" "\<not> m_initialized b" "m_attempted b = (\<lambda>d. False)"
  using assms by (auto simp: fresh_def dir_flags_def idle_def dir_handles_def handle_cases)

lemma dir_init_law:
  assumes f: "fresh (Direct b) t" and i: "dir_Initialize svc r e (b, t) = ((ok, r', e'), b', t')"
  shows "if ok then usable {CPU, GPU} (Direct b') t' else releasable (Direct b') t'"
proof -
  obtain ok1 e1 b1 t1 where o: "Open svc e (b, t) = ((ok1, e1), b1, t1)" by (metis prod.exhaust)
  obtain ok2 r2 e2 t2 where rr: "read_rates svc r e1 b1 t1 = ((ok2, r2, e2), t2)" by (metis prod.exhaust)
  let ?b = "b1\<lparr>m_previous := (\<lambda>d. if d = CPU then cpu_hz r2 else gpu_hz r2), m_initialized := True\<rparr>"
  have op: "base (Direct b1) t1 \<and> (if m_service_initialized b1 then \<forall>d. phase d t1 = Free else \<not> ok1 \<and> all_settled t1)
    \<and> \<not> m_initialized b1 \<and> m_attempted b1 = (\<lambda>d. False)"
    using Open_modern [OF _ fresh_direct(1-7) [OF f] o] Open_legacy [OF _ fresh_direct(1-7) [OF f] o] fresh_direct(8,9) [OF f]
    by (cases "m_modern b") simp_all
  then have settled1: "all_settled t1" by (auto simp: all_settled_def split: if_splits)
  note ef = read_rates_effect [OF rr]
  have base2: "base (Direct b1) t2" using op base_frame [OF ef(1,2), of "Direct b1"] by simp
  consider "\<not> ok1" | "ok1" "\<not> ok2" | "ok1" "ok2" by blast
  then show ?thesis
  proof cases
    case 1
    with i o have "\<not> ok" "b' = b1" "t' = t1" by (simp_all add: dir_Initialize_def Let_def)
    with op settled1 show ?thesis by (simp add: releasable_def idle_def)
  next
    case 2
    with i o rr have eq: "\<not> ok" "b' = b1" "t' = t2" by (simp_all add: dir_Initialize_def Let_def)
    have "settled (phase d t2)" for d using 2 op ef(4) [of d] by (auto split: if_splits)
    with eq op base2 show ?thesis by (simp add: releasable_def idle_def all_settled_def)
  next
    case 3
    with i o rr have eq: "ok" "b' = ?b" "t' = t2" by (simp_all add: dir_Initialize_def Let_def)
    have "phase d t2 = Known (m_previous ?b d)" for d using 3 op ef(3) [of d] by (simp split: if_splits)
    moreover have "base (Direct ?b) t2" using base2 by simp
    ultimately show ?thesis using eq op by (simp add: usable_def all_domains)
  qed
qed

lemma dir_rates_law:
  assumes "usable F (Direct b) t" "dir_GetAvailableRates svc d rs e (b, t) = ((ok, rs', e'), b', t')"
  shows "usable F (Direct b') t'"
proof -
  have "b' = b" "\<And>h. balance t' h = balance t h" "no_memory_writes t' = no_memory_writes t" "\<And>d. phase d t' = phase d t"
    using assms(2) by (auto simp: dir_GetAvailableRates_def Let_def split: if_splits prod.splits)
  with usable_frame [OF assms(1)] show ?thesis by blast
qed

lemma dir_request_law:
  assumes "usable F (Direct b) t" "d \<in> F" "dir_RequestRate svc d hz e (b, t) = ((ok, e'), b', t')"
  shows "usable (F - {d}) (Direct b') t'"
proof -
  let ?b = "b\<lparr>m_attempted := (m_attempted b)(d := True), m_requested := (m_requested b)(d := hz)\<rparr>"
  obtain r t1 where s: "SetWritable svc d hz ?b t = (r, t1)" by force
  note ef = SetWritable_effect [OF s]
  have b': "b' = ?b" "t' = t1" using assms(3) s by (auto simp: dir_RequestRate_def Let_def split: if_splits)
  have "base (Direct b') t'"
    using assms(1) base_frame [OF ef(1,2), of "Direct b"] by (simp add: usable_def b')
  moreover have "m_initialized b" using assms(1) by (simp add: usable_def)
  ultimately show ?thesis
    using usable_request [OF assms(1,2), of "Direct b'" t' hz "r = 0"] ef(3) by (simp add: b')
qed

lemma dir_effective_law:
  assumes "usable {} (Direct b) t" "dir_ReadEffective svc r e (b, t) = ((ok, r', e'), b', t')"
  shows "usable {} (Direct b') t'"
proof -
  obtain ok1 r1 e1 t1 where rc: "read_rates svc r e b t = ((ok1, r1, e1), t1)" by (metis prod.exhaust)
  note ef = read_rates_effect [OF rc]
  have "b' = b" "t' = t1" using assms(2) rc by (auto simp: dir_ReadEffective_def Let_def)
  moreover have "owned_phase p q (phase d t1)" if "owned_phase p q (phase d t)" for p q d
    using that ef(3) [of d] ef(4) [of d] by (cases ok1) auto
  moreover have "base (Direct b) t1" using assms(1) base_frame [OF ef(1,2), of "Direct b"] by (simp add: usable_def)
  ultimately show ?thesis using assms(1) by (simp add: usable_def)
qed

lemma dir_release_domain_effect:
  assumes "dir_release_domain svc d ((s, out), b, t) = ((s', out'), b', t')"
    and own: "if m_attempted b d then owned_phase (m_previous b d) (m_requested b d) (phase d t) else quiet (phase d t)"
  shows "balance t' h = balance t h" "no_memory_writes t' = no_memory_writes t"
    "settled (phase d t')" "s' \<Longrightarrow> s \<and> phase d t' \<noteq> Unrestored" "d' \<noteq> d \<Longrightarrow> phase d' t' = phase d' t"
    "b' = b\<lparr>m_attempted := (m_attempted b)(d := False)\<rparr>"
proof -
  have "balance t' h = balance t h \<and> no_memory_writes t' = no_memory_writes t \<and> settled (phase d t') \<and>
    (s' \<longrightarrow> s \<and> phase d t' \<noteq> Unrestored) \<and> (d' \<noteq> d \<longrightarrow> phase d' t' = phase d' t) \<and>
    b' = b\<lparr>m_attempted := (m_attempted b)(d := False)\<rparr>"
  proof (cases "m_attempted b d")
    case False
    with assms(1) have "s' = s" "b' = b" "t' = t" by (simp_all add: dir_release_domain_def)
    moreover have "(m_attempted b)(d := False) = m_attempted b" using False by (simp add: fun_upd_idem)
    ultimately show ?thesis using False own by simp
  next
    case True
    then have owned: "owned_phase (m_previous b d) (m_requested b d) (phase d t)" using own by simp
    obtain valid cur e t0 where rd: "ReadWritable svc d 0 '''' b t = ((valid, cur, e), t0)" by (metis prod.exhaust)
    note e0 = ReadWritable_effect [OF rd]
    have owned0: "owned_phase (m_previous b d) (m_requested b d) (phase d t0)" using owned e0(3) [of d] by simp
    let ?b = "b\<lparr>m_attempted := (m_attempted b)(d := False)\<rparr>"
    show ?thesis
    proof (cases "valid \<and> cur \<noteq> m_requested b d")
      case lost: True
      then have "s' = s" "t' = t0" "b' = ?b"
        using assms(1) True rd by (simp_all add: dir_release_domain_def ControlStillOwned_def Let_def)
      moreover have "settled (phase d t0) \<and> phase d t0 \<noteq> Unrestored"
        using owned e0(3) [of d] lost by (auto simp: owned_phase_def)
      ultimately show ?thesis using e0 by simp
    next
      case False
      obtain r t1 where w: "SetWritable svc d (m_previous b d) b t0 = (r, t1)" by force
      have "s' = (s \<and> r = 0)" "t' = t1" "b' = ?b"
        using assms(1) True False rd w
        by (auto simp: dir_release_domain_def ControlStillOwned_def Let_def split: if_splits)
      moreover note ef = SetWritable_effect [OF w]
      ultimately show ?thesis using e0 settle_phase(1,2) [OF owned0, of "r = 0"] by simp
    qed
  qed
  then show "balance t' h = balance t h" "no_memory_writes t' = no_memory_writes t"
    "settled (phase d t')" "s' \<Longrightarrow> s \<and> phase d t' \<noteq> Unrestored" "d' \<noteq> d \<Longrightarrow> phase d' t' = phase d' t"
    "b' = b\<lparr>m_attempted := (m_attempted b)(d := False)\<rparr>" by blast+
qed

lemma dir_Release_idle:
  assumes "idle (Direct b)"
  shows "\<exists>d. dir_Release svc s (b, t) = ((True, d), b, t)"
  using assms by (auto simp: dir_Release_def idle_def)

lemma dir_Release_active:
  assumes "base (Direct b) t" "initialized_of (Direct b)" "tracked (Direct b) t"
    and rel: "dir_Release svc s (b, t) = ((ok, s'), b', t')"
  shows "released (Direct b') t' \<and> (ok \<longrightarrow> restored t')"
proof -
  note own = tracked_domain [OF assms(3), unfolded attempted_of.simps previous_of.simps requested_of.simps]
  obtain s2 o2 b2 t2 where c: "dir_release_domain svc CPU ((True, ''''), b, t) = ((s2, o2), b2, t2)"
    by (metis prod.exhaust)
  obtain s3 o3 b3 t3 where g: "dir_release_domain svc GPU ((s2, o2), b2, t2) = ((s3, o3), b3, t3)"
    by (metis prod.exhaust)
  have r: "ok = s3" "b' = b3\<lparr>m_initialized := False\<rparr>" "t' = t3"
    using rel assms(2) c g by (auto simp: dir_Release_def Let_def)
  note e1 = dir_release_domain_effect [OF c own]
  have GPU1: "phase GPU t2 = phase GPU t" using e1(5) [of GPU] by simp
  have own2: "if m_attempted b2 GPU then owned_phase (m_previous b2 GPU) (m_requested b2 GPU) (phase GPU t2) else quiet (phase GPU t2)"
    using own [of GPU] by (simp add: e1(6) GPU1)
  note e2 = dir_release_domain_effect [OF g own2]
  have CPU2: "phase CPU t3 = phase CPU t2" using e2(5) [of CPU] by simp
  have "base (Direct b') t'" using assms(1) e1(1,2) e2(1,2) by (simp add: r e1(6) e2(6))
  moreover have "idle (Direct b')" by (simp add: r e1(6) e2(6) idle_def all_domains)
  moreover have "all_settled t'" using e1(3) e2(3) CPU2 by (simp add: r all_settled_def all_domains)
  moreover have "ok \<longrightarrow> (\<forall>d. phase d t' \<noteq> Unrestored)" using e1(4) e2(4) CPU2 by (auto simp: r all_domains)
  ultimately show ?thesis by (simp add: released_def restored_def)
qed

lemma Close_effect:
  assumes "base (Direct b) t"
  shows "balance (snd (Close (b, t))) h = 0" "no_memory_writes (snd (Close (b, t)))" "phase d (snd (Close (b, t))) = phase d t"
proof -
  have bal: "balance t h = dir_handles b h" and f: "dir_flags b" and m: "no_memory_writes t" using assms by simp_all
  show "no_memory_writes (snd (Close (b, t)))" "phase d (snd (Close (b, t))) = phase d t"
    using m by (simp_all add: Close_def Let_def)
  have "\<forall>h. balance (snd (Close (b, t))) h = 0"
    using assms f by (simp add: Close_def Let_def handle_cases dir_handles_def dir_flags_def)
  then show "balance (snd (Close (b, t))) h = 0" by blast
qed

lemma dir_destroy_law:
  assumes "released (Direct b) t"
  shows "clean (dir_Destroy svc (b, t))" "phase d (dir_Destroy svc (b, t)) = phase d t"
proof -
  have "idle (Direct b)" using assms by (simp add: released_def)
  from dir_Release_idle [OF this] obtain x where "dir_Release svc '''' (b, t) = ((True, x), b, t)" by blast
  then have d: "dir_Destroy svc (b, t) = snd (Close (b, t))" by (simp add: dir_Destroy_def)
  have b: "base (Direct b) t" using assms by (simp add: released_def)
  show "phase d (dir_Destroy svc (b, t)) = phase d t" unfolding d by (rule Close_effect(3) [OF b])
  show "clean (dir_Destroy svc (b, t))"
    using assms Close_effect [OF b] by (auto simp: d clean_def released_def all_settled_def)
qed

lemma dir_release_law:
  assumes "releasable (Direct b) t" "dir_Release svc s (b, t) = ((ok, s'), b', t')"
  shows "released (Direct b') t'"
proof (cases "idle (Direct b)")
  case True
  then have "b' = b" "t' = t" using dir_Release_idle [OF True, of svc s t] assms(2) by auto
  moreover have "all_settled t" using assms(1) True by (auto simp: releasable_def idle_def)
  ultimately show ?thesis using assms(1) True by (simp add: released_def releasable_def)
next
  case False
  then have "base (Direct b) t" "initialized_of (Direct b)" "tracked (Direct b) t"
    using assms(1) unfolding releasable_def by blast+
  from dir_Release_active [OF this assms(2)] show ?thesis by blast
qed

section \<open>The laws for the choice\<close>

lemma try_manager_law:
  assumes "clean t" "flavor_service flavor = name" "try_manager svc name flavor api t = (res, t')"
  shows "case res of None \<Rightarrow> clean t' | Some sel \<Rightarrow> (case backend sel of None \<Rightarrow> clean t' | Some b \<Rightarrow> fresh b t')"
proof -
  obtain ok present e b t1 where c: "sys_Connect svc name api (SysClkBackend flavor, t) = ((ok, present, e), b, t1)"
    by (metis prod.exhaust)
  note ef = sys_Connect_effect [OF c]
  have st: "all_settled t" "\<forall>h. balance t h = 0" "no_memory_writes t" using assms(1) by (simp_all add: clean_def)
  have bal: "balance t1 h = sys_handles b h" for h
    using ef(1) [of h] ef(6,7) st(2) assms(2) by (simp add: SysClkBackend_def)
  have bs: "base (SysClk b) t1" "idle (SysClk b)"
    using bal ef(2,8,9) st(3) by (simp_all add: idle_def SysClkBackend_def)
  have se: "all_settled t1"
    using ef(3,4) st(1) by (cases present) (simp_all add: all_settled_def)
  show ?thesis
  proof (cases ok)
    case True
    then have "phase d t1 = Free" for d using ef(3,5) st(1) by blast
    with bs se have "fresh (SysClk b) t1" by (simp add: fresh_def)
    with True assms(3) c show ?thesis by (auto simp: try_manager_def Let_def)
  next
    case False
    have "clean (sys_Destroy svc (b, t1))" using bs se by (intro sys_destroy_law(1)) (simp only: released_def)
    with False assms(3) c show ?thesis by (cases present) (auto simp: try_manager_def Let_def)
  qed
qed

lemma ServiceExists_clean:
  assumes "clean t" "ServiceExists svc name t = (found, t')"
  shows "clean t'"
proof -
  have "(\<forall>h. balance t' h = balance t h) \<and> no_memory_writes t' = no_memory_writes t \<and>
      (\<forall>d. phase d t' \<in> {phase d t, Free} \<or> \<not> settled (phase d t))"
    using assms(2) by (auto simp: ServiceExists_def Let_def phase_step_def split: if_splits)
  then have "settled (phase d t')" "balance t' h = 0" "no_memory_writes t'" for d h
    using assms(1) unfolding clean_def all_settled_def by (metis insertE singletonD settled.simps(4))+
  then show ?thesis by (simp add: clean_def all_settled_def)
qed

lemma fresh_new_direct: "clean t \<Longrightarrow> fresh (Direct (DirectClockBackend svc)) t"
  by (simp add: fresh_def clean_def DirectClockBackend_def idle_def dir_flags_def handle_cases dir_handles_def)

lemma CreatePlatformBackend_law:
  assumes "clean t" "CreatePlatformBackend svc t = (sel, t')"
  shows "case backend sel of None \<Rightarrow> clean t' | Some b \<Rightarrow> fresh b t'"
proof -
  obtain r1 t1 where m1: "try_manager svc ''sys:clk'' Official SYSCLK_OFFICIAL_API_VERSION t = (r1, t1)" by force
  obtain r2 t2 where m2: "try_manager svc ''sysclkOC'' OcSuite SYSCLK_OC_API_VERSION t1 = (r2, t2)" by force
  obtain f t3 where s: "ServiceExists svc ''hoc:clk'' t2 = (f, t3)" by force
  have l1: "case r1 of None \<Rightarrow> clean t1 | Some sel \<Rightarrow> (case backend sel of None \<Rightarrow> clean t1 | Some b \<Rightarrow> fresh b t1)"
    by (rule try_manager_law [OF assms(1) _ m1]) (simp add: flavor_service_def)
  show ?thesis
  proof (cases r1)
    case (Some sel1)
    with l1 assms(2) m1 show ?thesis by (auto simp: CreatePlatformBackend_def)
  next
    case None
    with l1 have "clean t1" by simp
    then have l2: "case r2 of None \<Rightarrow> clean t2 | Some sel \<Rightarrow> (case backend sel of None \<Rightarrow> clean t2 | Some b \<Rightarrow> fresh b t2)"
      by (rule try_manager_law [OF _ _ m2]) (simp add: flavor_service_def)
    show ?thesis
    proof (cases r2)
      case (Some sel2)
      with None l2 assms(2) m1 m2 show ?thesis by (auto simp: CreatePlatformBackend_def)
    next
      case none2: None
      with l2 have "clean t2" by simp
      from ServiceExists_clean [OF this s] have cl: "clean t3" .
      show ?thesis
        using assms(2) cl fresh_new_direct [OF cl, of svc] None none2 m1 m2 s
        by (cases f) (auto simp: CreatePlatformBackend_def Let_def)
    qed
  qed
qed

lemma usable_tracked: "usable F p t \<Longrightarrow> tracked p t"
  unfolding usable_def tracked_def by (metis settled_simps(4))

lemma restored_phases: "(\<And>d. phase d t' = phase d t) \<Longrightarrow> restored t' = restored t"
  by (simp add: restored_def all_settled_def)

lemma platform_wait: "WaitForApply (platform_class svc) (p, t) = (p', t') \<Longrightarrow> usable F p t \<Longrightarrow> usable F p' t'"
  by (auto simp: platform_class_def sys_wait_law split: platform_backend.splits)

interpretation platform: clock_backend "platform_class svc" "CreatePlatformBackend svc" fresh usable releasable released clean restored
  for svc
proof unfold_locales
  fix t sel t'
  show "clean t \<Longrightarrow> CreatePlatformBackend svc t = (sel, t') \<Longrightarrow>
      (case backend sel of None \<Rightarrow> clean t' | Some b \<Rightarrow> fresh b t')"
    by (rule CreatePlatformBackend_law)
next
  fix b t r e ok r' e' b' t'
  assume "fresh b t" "Initialize (platform_class svc) r e (b, t) = ((ok, r', e'), b', t')"
  then show "if ok then usable {CPU, GPU} b' t' else releasable b' t'"
    using sys_init_law [of _ t svc r e ok r' e' _ t'] dir_init_law [of _ t svc r e ok r' e' _ t']
    by (cases b) (auto simp: platform_class_def lift_sys_def lift_dir_def prod_eq_iff)
next
  fix F b t d rs e ok rs' e' b' t'
  assume "usable F b t" "GetAvailableRates (platform_class svc) d rs e (b, t) = ((ok, rs', e'), b', t')"
  then show "usable F b' t'"
    using sys_rates_law [of F _ t svc d rs e ok rs' e' _ t'] dir_rates_law [of F _ t svc d rs e ok rs' e' _ t']
    by (cases b) (auto simp: platform_class_def lift_sys_def lift_dir_def prod_eq_iff)
next
  fix F b t d hz e ok e' b' t'
  assume "usable F b t" "d \<in> F" "RequestRate (platform_class svc) d hz e (b, t) = ((ok, e'), b', t')"
  then show "usable (F - {d}) b' t'"
    using sys_request_law [of F _ t d svc hz e ok e' _ t'] dir_request_law [of F _ t d svc hz e ok e' _ t']
    by (cases b) (auto simp: platform_class_def lift_sys_def lift_dir_def prod_eq_iff)
next
  fix F b t b' t'
  show "usable F b t \<Longrightarrow> WaitForApply (platform_class svc) (b, t) = (b', t') \<Longrightarrow> usable F b' t'"
    by (rule platform_wait)
next
  fix b t r e ok r' e' b' t'
  assume "usable {} b t" "ReadEffective (platform_class svc) r e (b, t) = ((ok, r', e'), b', t')"
  then show "usable {} b' t'"
    using sys_effective_law [of _ t svc r e ok r' e' _ t'] dir_effective_law [of _ t svc r e ok r' e' _ t']
    by (cases b) (auto simp: platform_class_def lift_sys_def lift_dir_def prod_eq_iff)
next
  fix F b t
  show "usable F b t \<Longrightarrow> releasable b t" using usable_tracked by (auto simp: releasable_def usable_def)
next
  fix b t s ok s' b' t'
  assume "releasable b t" "Release (platform_class svc) s (b, t) = ((ok, s'), b', t')"
  then show "released b' t'"
    using sys_release_law [of _ t svc s ok s' _ t'] dir_release_law [of _ t svc s ok s' _ t']
    by (cases b) (auto simp: platform_class_def lift_sys_def lift_dir_def prod_eq_iff)
next
  fix b t s s' b' t'
  assume u: "usable {} b t" and "Release (platform_class svc) s (b, t) = ((True, s'), b', t')"
  moreover have "base b t" "initialized_of b" "tracked b t" using u usable_tracked by (auto simp: usable_def)
  ultimately show "restored t'"
    using sys_Release_active [of _ t svc s True s' _ t'] dir_Release_active [of _ t svc s True s' _ t']
    by (cases b) (auto simp: platform_class_def lift_sys_def lift_dir_def prod_eq_iff)
next
  fix b t
  assume r: "released b t"
  show "clean (Destroy (platform_class svc) (b, t)) \<and> (restored t \<longrightarrow> restored (Destroy (platform_class svc) (b, t)))"
  proof (cases b)
    case (SysClk x)
    with r sys_destroy_law(1) [of x t svc] sys_destroy_law(2) [of x t _ svc] restored_phases [of "sys_Destroy svc (x, t)" t] show ?thesis
      by (simp add: platform_class_def)
  next
    case (Direct x)
    with r dir_destroy_law(1) [of x t svc] dir_destroy_law(2) [of x t _ svc] restored_phases [of "dir_Destroy svc (x, t)" t] show ?thesis
      by (simp add: platform_class_def)
  qed
qed

section \<open>Sequences of Start and Stop\<close>

datatype session_action = DoStart bool profile | DoStop

definition session_action :: "services \<Rightarrow> session_action \<Rightarrow> platform_backend session \<times> trace \<Rightarrow> platform_backend session \<times> trace" where
  "session_action svc a st =
     (case a of DoStart enabled prof \<Rightarrow> AutoClockSession_Start svc enabled prof (fst st) (snd st)
              | DoStop \<Rightarrow> snd (AutoClockSession_Stop svc (fst st) (snd st)))"

definition run_session :: "services \<Rightarrow> session_action list \<Rightarrow> platform_backend session \<times> trace" where
  "run_session svc as = fold (session_action svc) as (new_session, [])"

lemma clean_start: "clean []"
  by (simp add: clean_def all_settled_def no_memory_writes_def)

lemma session_action_ok:
  assumes "platform.session_ok (fst st) (snd st)"
  shows "platform.session_ok (fst (session_action svc a st)) (snd (session_action svc a st))"
proof (cases a)
  case (DoStart enabled prof)
  with platform.Start_ok [OF assms] show ?thesis by (simp add: session_action_def AutoClockSession_Start_def)
next
  case DoStop
  with platform.Stop_ok [OF assms] show ?thesis
    by (simp add: session_action_def AutoClockSession_Stop_def) (metis prod.collapse)
qed

lemma run_session_ok: "platform.session_ok (fst (run_session svc as)) (snd (run_session svc as))"
proof -
  have "platform.session_ok (fst st) (snd st) \<Longrightarrow>
      platform.session_ok (fst (fold (session_action svc) as st)) (snd (fold (session_action svc) as st))" for st
    by (induction as arbitrary: st) (simp_all add: session_action_ok)
  moreover have "platform.session_ok new_session []"
    by (simp add: platform.session_ok_def new_session_def clean_start default_report_def)
  ultimately show ?thesis by (simp add: run_session_def)
qed

lemma usable_facts:
  assumes "usable {} p t"
  shows "no_memory_writes t" "phase d t \<noteq> Violated"
proof -
  show "no_memory_writes t" using assms by (cases p) (simp_all add: usable_def)
  have "\<exists>l. phase d t = Owned (previous_of p d) (requested_of p d) l" using assms by (simp add: usable_def owned_phase_def)
  then show "phase d t \<noteq> Violated" by auto
qed

lemma clean_facts:
  assumes "clean t"
  shows "no_memory_writes t" "phase d t \<noteq> Violated"
  using assms by (auto simp: clean_def all_settled_def) (metis settled.simps(3))

section \<open>Properties\<close>


text \<open>
  (C30) Stopping the session, after any history, closes every handle and settles both clocks;
  when it reports that the release succeeded, no write-back was refused.
\<close>

theorem clock_stop_restores:
  fixes svc :: services and as :: "session_action list"
  assumes "AutoClockSession_Stop svc (fst (run_session svc as)) (snd (run_session svc as)) = (rep, ses', t')"
  shows "\<not> IsActive ses' \<and> (\<forall>h. balance t' h = 0) \<and> (\<forall>d. settled (phase d t')) \<and>
    (attempted rep \<and> succeeded rep \<longrightarrow> (\<forall>d. phase d t' \<noteq> Unrestored))"
  using platform.Stop_ok [OF run_session_ok assms [unfolded AutoClockSession_Stop_def]]
  by (auto simp: clean_def all_settled_def restored_def)

text \<open>Services without a clock manager, over which the last accepted rate is read back.\<close>

fun last_rate :: "trace \<Rightarrow> pcv_module \<Rightarrow> u32" where
  "last_rate [] m = 3"
| "last_rate (SetClockRate x m' hz r # t) m = (if m' = m then hz else last_rate t m)"
| "last_rate (c # t) m = last_rate t m"

definition sample_services :: services where
  "sample_services =
     \<lparr>smGetService = (\<lambda>t n. 1), svc_GetApiVersion = (\<lambda>t n. (1, 0)),
      svc_GetContext = (\<lambda>t n. (1, \<lparr>ctx_profile = 0, freqs = (\<lambda>i. 0), real_freqs = (\<lambda>i. 0), override_freqs = (\<lambda>i. 0)\<rparr>)),
      svc_SetOverride = (\<lambda>t n m hz. 1), svc_GetFreqList = (\<lambda>t n m. (1, 0, [])), svc_GetFrequencyTable = (\<lambda>t n m p. (1, [])),
      hosversionAtLeast_8_0_0 = True, clkrstInitialize = (\<lambda>t. 0), pcvInitialize = (\<lambda>t. 0), pcvGetModuleId = (\<lambda>t m. 0),
      clkrstOpenSession = (\<lambda>t m. 0), svc_GetPossibleClockRates = (\<lambda>t x m. (0, False, 2, [5, 7])),
      svc_GetClockRate = (\<lambda>t x m. (0, last_rate t m)), svc_SetClockRate = (\<lambda>t x m hz. 0)\<rparr>"

lemma sample_run:
  "m_backend (fst (run_session sample_services [DoStart True Performance])) \<noteq> None"
  "m_backend (fst (run_session sample_services [DoStart True Performance, DoStop])) = None"
  "let x = run_session sample_services [DoStart True Performance];
       rep = fst (AutoClockSession_Stop sample_services (fst x) (snd x)) in attempted rep \<and> succeeded rep"
  by code_simp+


theorem clock_stop_restores_witness:
  "let x = run_session sample_services [DoStart True Performance];
       t' = snd (snd (AutoClockSession_Stop sample_services (fst x) (snd x)))
   in \<forall>d. settled (phase d t') \<and> phase d t' \<noteq> Unrestored"
proof -
  let ?x = "run_session sample_services [DoStart True Performance]"
  obtain rep ses t' where s: "AutoClockSession_Stop sample_services (fst ?x) (snd ?x) = (rep, ses, t')" by (metis prod.exhaust)
  with sample_run(3) have "attempted rep \<and> succeeded rep" by (simp add: Let_def)
  with clock_stop_restores [OF s] s show ?thesis by (simp add: Let_def)
qed

end
