(* ===== verification/Frontend_Model.thy ===== *)
theory Frontend_Model
  imports Fifo_Batch "HOL-Library.List_Lexorder" "HOL-Library.Char_ord" "HOL-Library.Product_Lexorder"
begin

text \<open>
  \<^verbatim>\<open>Horizon/FrontendModel.h\<close> and \<^verbatim>\<open>Horizon/FileReplace.h\<close>: the file browser's paths and
  directory listing, the settings with their text format, and the replacement of a file.

  The file system is a map from paths to nodes; the operations that may fail (rename, remove,
  writing a file, status queries) are a parameter, and the properties name what they rely on.
\<close>

section \<open>Paths\<close>

definition DisplayText :: "string \<Rightarrow> string" where
  "DisplayText text = map (\<lambda>c. if (of_char c :: nat) < 32 \<or> (of_char c :: nat) = 127 then CHR ''?'' else c) text"

text \<open>The pieces between slashes, as iterating a path gives them up to empty and root pieces.\<close>

fun components :: "string \<Rightarrow> string list" where
  "components [] = [[]]"
| "components (c # cs) =
     (if c = CHR ''/'' then [] # components cs
      else case components cs of [] \<Rightarrow> [[c]] | p # ps \<Rightarrow> (c # p) # ps)"

text \<open>\<^verbatim>\<open>path::filename\<close> and \<^verbatim>\<open>path::extension\<close>.\<close>

definition path_filename :: "string \<Rightarrow> string" where
  "path_filename path = last (components path)"

definition path_extension :: "string \<Rightarrow> string" where
  "path_extension path =
     (let name = path_filename path; ext = takeWhile (\<lambda>c. c \<noteq> CHR ''.'') (rev name)
      in if name = ''.'' \<or> name = ''..'' \<or> length name \<le> length ext + 1 then []
         else CHR ''.'' # rev ext)"

definition to_lower :: "char \<Rightarrow> char" where
  "to_lower c = (if (65 :: nat) \<le> of_char c \<and> (of_char c :: nat) \<le> 90 then char_of (of_char c + 32 :: nat) else c)"

definition IsGameImage :: "string \<Rightarrow> bool" where
  "IsGameImage path = (map to_lower (path_extension path) \<in> {''.iso'', ''.gcm'', ''.rvz'', ''.dol'', ''.elf''})"

definition IsSDPath :: "string \<Rightarrow> bool" where
  "IsSDPath path \<longleftrightarrow>
     take 6 path = ''sdmc:/'' \<and> char_of (92 :: nat) \<notin> set path \<and> char_of (0 :: nat) \<notin> set path \<and>
     CHR '':'' \<notin> set (drop 6 path) \<and> ''..'' \<notin> set (components (drop 6 path))"

text \<open>The loop that drops trailing slashes, and \<^verbatim>\<open>find_last_of('/')\<close>.\<close>

fun strip_slashes :: "string \<Rightarrow> string" where
  "strip_slashes path = (if length path > 6 \<and> last path = CHR ''/'' then strip_slashes (butlast path) else path)"

declare strip_slashes.simps [simp del]

definition find_last_slash :: "string \<Rightarrow> nat option" where
  "find_last_slash path =
     (let n = length (takeWhile (\<lambda>c. c \<noteq> CHR ''/'') (rev path))
      in if n < length path then Some (length path - n - 1) else None)"

definition ParentSDPath :: "string \<Rightarrow> string" where
  "ParentSDPath path =
     (if \<not> IsSDPath path then ''sdmc:/''
      else let p = strip_slashes path
           in case find_last_slash p of
                None \<Rightarrow> []
              | Some slash \<Rightarrow> if slash \<le> 5 then ''sdmc:/'' else take (slash + 1) p)"

section \<open>Directories\<close>

record entry =
  entry_name :: string
  entry_path :: string
  entry_directory :: bool

text \<open>
  What the iterator yields: an entry and whether its \<^verbatim>\<open>is_directory\<close> query fails, in order,
  and the error after the last one, if any. Nothing when opening the directory fails.
\<close>

record dir_item =
  item_path :: string
  item_directory :: "string + bool"

fun read_items :: "dir_item list \<Rightarrow> string \<Rightarrow> entry list \<times> string" where
  "read_items [] ec = ([], ec)"
| "read_items (it # its) ec =
     (case item_directory it of
        Inl e \<Rightarrow> ([], e)
      | Inr dir \<Rightarrow>
          (let (es, e) = read_items its ec
           in (if dir \<or> IsGameImage (item_path it)
               then \<lparr>entry_name = path_filename (item_path it), entry_path = item_path it, entry_directory = dir\<rparr> # es else es, e)))"

definition ReadDirectory :: "dir_item list \<Rightarrow> string \<Rightarrow> entry list \<times> string" where
  "ReadDirectory its ec =
     (let (es, e) = read_items its ec in (sort_key (\<lambda>a. (\<not> entry_directory a, entry_name a)) es, e))"

section \<open>Settings\<close>

record settings =
  request_jit :: bool
  native_jit :: bool
  cached_interpreter :: bool
  vsync :: bool
  shader_cache :: bool
  audio :: bool
  dual_core :: bool
  vulkan_submit_thread :: bool
  vulkan_present_overlap :: bool
  vulkan_triple_buffering :: bool
  horizon_vulkan_push_descriptors :: bool
  vulkan_present_completion_guard :: bool
  native_vertex_loader :: bool
  jit_small_code_pooling :: bool
  fifo_batching :: bool
  fifo_batch_size :: u32
  horizon_ppc_fastmem :: bool
  phocoena_auto_clocks :: bool
  phocoena_clock_profile :: string
  tp_benchmark_save :: bool
  horizon_perf_sample_scale :: u32

definition default_settings :: settings where
  "default_settings =
     \<lparr>request_jit = False, native_jit = False, cached_interpreter = False, vsync = True, shader_cache = True, audio = True,
      dual_core = True, vulkan_submit_thread = True, vulkan_present_overlap = False, vulkan_triple_buffering = False,
      horizon_vulkan_push_descriptors = True, vulkan_present_completion_guard = True, native_vertex_loader = True,
      jit_small_code_pooling = True, fifo_batching = True, fifo_batch_size = 8, horizon_ppc_fastmem = True,
      phocoena_auto_clocks = True, phocoena_clock_profile = ''performance'', tp_benchmark_save = False,
      horizon_perf_sample_scale = 1024\<rparr>"

definition ApplyFrozenTesterBaseline :: "settings \<Rightarrow> settings" where
  "ApplyFrozenTesterBaseline s =
     s\<lparr>request_jit := False, native_jit := True, cached_interpreter := False, vsync := True, shader_cache := True,
       audio := True, dual_core := True, vulkan_submit_thread := True, vulkan_present_overlap := False,
       vulkan_triple_buffering := False, horizon_vulkan_push_descriptors := True,
       vulkan_present_completion_guard := True, native_vertex_loader := True, jit_small_code_pooling := True,
       fifo_batching := True, fifo_batch_size := 8, horizon_ppc_fastmem := True, phocoena_auto_clocks := True,
       phocoena_clock_profile := ''performance'', tp_benchmark_save := False, horizon_perf_sample_scale := 1024\<rparr>"

definition EffectiveFifoBatchSize :: "settings \<Rightarrow> u32" where
  "EffectiveFifoBatchSize s =
     (if \<not> fifo_batching s then 1 else if fifo_batch_size s \<ge> 8 then 8 else if fifo_batch_size s \<ge> 4 then 4 else 1)"

definition FifoBatchName :: "settings \<Rightarrow> string" where
  "FifoBatchName s =
     (let n = EffectiveFifoBatchSize s
      in if n = 4 then ''4'' else if n = 8 then ''8 (hardware-safe)'' else ''1 (Off)'')"

definition CycleFifoBatchSize :: "settings \<Rightarrow> settings" where
  "CycleFifoBatchSize s =
     (let n = EffectiveFifoBatchSize s
      in if n = 1 then s\<lparr>fifo_batching := True, fifo_batch_size := 4\<rparr>
         else if n = 4 then s\<lparr>fifo_batch_size := 8\<rparr>
         else if n = 8 then s\<lparr>fifo_batching := False, fifo_batch_size := 1\<rparr>
         else s\<lparr>fifo_batching := False, fifo_batch_size := 1\<rparr>)"

definition CPUName :: "settings \<Rightarrow> string" where
  "CPUName s =
     (if native_jit s then ''AArch64 JIT (experimental)''
      else if request_jit s then ''Legacy JIT request (Interpreter)''
      else if cached_interpreter s then ''Cached Interpreter (experimental)'' else ''Interpreter'')"

definition CycleCPU :: "settings \<Rightarrow> settings" where
  "CycleCPU s =
     (if request_jit s \<or> native_jit s then s\<lparr>request_jit := False, native_jit := False, cached_interpreter := False\<rparr>
      else if cached_interpreter s then s\<lparr>cached_interpreter := False, native_jit := True\<rparr>
      else s\<lparr>cached_interpreter := True\<rparr>)"

subsection \<open>Reading\<close>

text \<open>\<^verbatim>\<open>std::getline\<close> until the end of the stream; a last piece without characters is not a line.\<close>

fun getlines :: "string \<Rightarrow> string list" where
  "getlines [] = []"
| "getlines (c # cs) =
     (if c = CHR 0x0A then [] # getlines cs
      else case getlines cs of [] \<Rightarrow> [[c]] | l # ls \<Rightarrow> (c # l) # ls)"

definition strip_cr :: "string \<Rightarrow> string" where
  "strip_cr line = (if line \<noteq> [] \<and> last line = CHR 0x0D then butlast line else line)"

definition stoul :: "string \<Rightarrow> u32" where
  "stoul s = fold (\<lambda>c n. n * 10 + word_of_nat (of_char c - 48)) s 0"

text \<open>One key with its value: the chain of comparisons in the loop of \<^verbatim>\<open>Load\<close>.\<close>

definition load_setting :: "string \<Rightarrow> string \<Rightarrow> settings \<Rightarrow> settings" where
  "load_setting key val s =
     (if key = ''fifo_batch_size''
      then if val \<in> {''1'', ''4'', ''8'', ''16''}
           then let n = (if stoul val > 8 then 8 else stoul val) in s\<lparr>fifo_batch_size := n, fifo_batching := n > 1\<rparr>
           else s
      else if key = ''horizon_perf_sample_scale''
      then if val = ''64'' \<or> val = ''1024'' then s\<lparr>horizon_perf_sample_scale := stoul val\<rparr> else s
      else if key = ''phocoena_clock_profile''
      then if val = ''performance'' \<or> val = ''legacy'' then s\<lparr>phocoena_clock_profile := val\<rparr> else s
      else if val \<noteq> ''0'' \<and> val \<noteq> ''1'' then s
      else let on = (val = ''1'') in
        if key = ''jit'' then s\<lparr>request_jit := on\<rparr>
        else if key = ''native_jit'' then s\<lparr>native_jit := on\<rparr>
        else if key = ''cached_interpreter'' then s\<lparr>cached_interpreter := on\<rparr>
        else if key = ''vsync'' then s\<lparr>vsync := on\<rparr>
        else if key = ''shader_cache'' then s\<lparr>shader_cache := on\<rparr>
        else if key = ''audio'' then s\<lparr>audio := on\<rparr>
        else if key = ''dual_core'' then s\<lparr>dual_core := on\<rparr>
        else if key = ''vulkan_submit_thread'' then s\<lparr>vulkan_submit_thread := on\<rparr>
        else if key = ''vulkan_present_overlap'' then s\<lparr>vulkan_present_overlap := on\<rparr>
        else if key = ''vulkan_triple_buffering'' then s\<lparr>vulkan_triple_buffering := on\<rparr>
        else if key = ''horizon_vulkan_push_descriptors'' then s\<lparr>horizon_vulkan_push_descriptors := on\<rparr>
        else if key = ''vulkan_present_completion_guard'' then s\<lparr>vulkan_present_completion_guard := on\<rparr>
        else if key = ''native_vertex_loader'' then s\<lparr>native_vertex_loader := on\<rparr>
        else if key = ''jit_small_code_pooling'' then s\<lparr>jit_small_code_pooling := on\<rparr>
        else if key = ''fifo_batching'' then s\<lparr>fifo_batching := on\<rparr>
        else if key = ''horizon_ppc_fastmem'' then s\<lparr>horizon_ppc_fastmem := on\<rparr>
        else if key = ''phocoena_auto_clocks'' then s\<lparr>phocoena_auto_clocks := on\<rparr>
        else if key = ''tp_benchmark_save'' then s\<lparr>tp_benchmark_save := on\<rparr>
        else s)"

definition load_line :: "string \<Rightarrow> settings \<Rightarrow> settings" where
  "load_line l s =
     (let line = strip_cr l; key = takeWhile (\<lambda>c. c \<noteq> CHR ''='') line
      in if key = line then s else load_setting key (drop (length key + 1) line) s)"

definition load_text :: "string \<Rightarrow> settings \<Rightarrow> settings" where
  "load_text text s = fold load_line (getlines text) s"

subsection \<open>Writing\<close>

definition bool_text :: "bool \<Rightarrow> string" where
  "bool_text b = (if b then ''1'' else ''0'')"

definition settings_lines :: "settings \<Rightarrow> (string \<times> string) list" where
  "settings_lines s =
     [(''jit'', bool_text (request_jit s)),
      (''vsync'', bool_text (vsync s)),
      (''native_jit'', bool_text (native_jit s)),
      (''cached_interpreter'', bool_text (cached_interpreter s)),
      (''shader_cache'', bool_text (shader_cache s)),
      (''audio'', bool_text (audio s)),
      (''dual_core'', bool_text (dual_core s)),
      (''vulkan_submit_thread'', bool_text (vulkan_submit_thread s)),
      (''vulkan_present_overlap'', bool_text (vulkan_present_overlap s)),
      (''vulkan_triple_buffering'', bool_text (vulkan_triple_buffering s)),
      (''horizon_vulkan_push_descriptors'', bool_text (horizon_vulkan_push_descriptors s)),
      (''vulkan_present_completion_guard'', bool_text (vulkan_present_completion_guard s)),
      (''native_vertex_loader'', bool_text (native_vertex_loader s)),
      (''jit_small_code_pooling'', bool_text (jit_small_code_pooling s)),
      (''fifo_batching'', bool_text (EffectiveFifoBatchSize s > 1)),
      (''fifo_batch_size'', dec (unat (EffectiveFifoBatchSize s))),
      (''horizon_ppc_fastmem'', bool_text (horizon_ppc_fastmem s)),
      (''phocoena_auto_clocks'', bool_text (phocoena_auto_clocks s)),
      (''phocoena_clock_profile'', phocoena_clock_profile s),
      (''tp_benchmark_save'', bool_text (tp_benchmark_save s)),
      (''horizon_perf_sample_scale'', dec (unat (horizon_perf_sample_scale s)))]"

definition settings_text :: "settings \<Rightarrow> string" where
  "settings_text s =
     ''# Phocoena v0.1'' @ [CHR 0x0A] @ concat (map (\<lambda>(key, val). key @ ''='' @ val @ [CHR 0x0A]) (settings_lines s))"

section \<open>Files\<close>

datatype node = Regular string | Folder

type_synonym files = "string \<Rightarrow> node option"

text \<open>
  The operations of the file system: \<^verbatim>\<open>rename\<close> and \<^verbatim>\<open>remove\<close> return whether they failed,
  writing a stream whether it succeeded, and a status query may fail.
\<close>

record file_ops =
  rename_op :: "string \<Rightarrow> string \<Rightarrow> files \<Rightarrow> bool \<times> files"
  remove_op :: "string \<Rightarrow> files \<Rightarrow> bool \<times> files"
  write_op :: "string \<Rightarrow> string \<Rightarrow> files \<Rightarrow> bool \<times> files"
  status_error :: "string \<Rightarrow> files \<Rightarrow> bool"

definition is_regular_file :: "file_ops \<Rightarrow> string \<Rightarrow> files \<Rightarrow> bool" where
  "is_regular_file ops p fs \<longleftrightarrow> \<not> status_error ops p fs \<and> (case fs p of Some (Regular _) \<Rightarrow> True | _ \<Rightarrow> False)"

definition ReplaceFile :: "file_ops \<Rightarrow> string \<Rightarrow> string \<Rightarrow> files \<Rightarrow> bool \<times> files" where
  "ReplaceFile ops from to fs =
     (let (err, fs1) = rename_op ops from to fs in
      if \<not> err then (err, fs1)
      else if \<not> is_regular_file ops from fs1 \<or> \<not> is_regular_file ops to fs1 then (err, fs1)
      else let backup = to @ ''.horizon-old'' in
        if status_error ops backup fs1 \<or> fs1 backup \<noteq> None then (err, fs1)
        else let (err, fs2) = rename_op ops to backup fs1 in
          if err then (err, fs2)
          else let (err, fs3) = rename_op ops from to fs2 in
            if err then (err, snd (rename_op ops backup to fs3))
            else (err, snd (remove_op ops backup fs3)))"

definition Load :: "string \<Rightarrow> files \<Rightarrow> settings \<Rightarrow> bool \<times> settings" where
  "Load path fs s = (case fs path of Some (Regular text) \<Rightarrow> (True, load_text text s) | _ \<Rightarrow> (False, s))"

definition Save :: "file_ops \<Rightarrow> settings \<Rightarrow> string \<Rightarrow> files \<Rightarrow> bool \<times> files" where
  "Save ops s path fs =
     (let temp = path @ ''.tmp'';
          (ok, fs1) = write_op ops temp (settings_text s) fs
      in if \<not> ok then (False, fs1)
         else let (err, fs2) = ReplaceFile ops temp path fs1 in (\<not> err, fs2))"

section \<open>Lines\<close>

lemma getlines_line: "CHR 0x0A \<notin> set l \<Longrightarrow> getlines (l @ CHR 0x0A # rest) = l # getlines rest"
  by (induction l) auto

lemma getlines_concat:
  "\<forall>l\<in>set ls. CHR 0x0A \<notin> set l \<Longrightarrow> getlines (concat (map (\<lambda>l. l @ [CHR 0x0A]) ls)) = ls"
  by (induction ls) (simp_all add: getlines_line)

lemma takeWhile_key: "x \<notin> set k \<Longrightarrow> takeWhile (\<lambda>c. c \<noteq> x) (k @ x # v) = k"
  by (induction k) auto

lemma load_line_pair:
  assumes "CHR ''='' \<notin> set key" "val \<noteq> []" "last val \<noteq> CHR 0x0D"
  shows "load_line (key @ CHR ''='' # val) s = load_setting key val s"
  using assms by (simp add: load_line_def strip_cr_def takeWhile_key Let_def)

lemma load_line_comment: "CHR ''='' \<notin> set l \<Longrightarrow> load_line l s = s"
proof -
  assume a: "CHR ''='' \<notin> set l"
  have "CHR ''='' \<notin> set (strip_cr l)" using a by (auto simp: strip_cr_def dest: in_set_butlastD)
  then have "takeWhile (\<lambda>c. c \<noteq> CHR ''='') (strip_cr l) = strip_cr l" by (subst takeWhile_eq_all_conv) auto
  then show ?thesis by (simp add: load_line_def Let_def)
qed

section \<open>Keys\<close>

lemma bool_text_simps [simp]: "bool_text b \<noteq> []" "last (bool_text b) \<noteq> CHR 0x0D" "bool_text b = ''1'' \<longleftrightarrow> b"
  "bool_text b \<noteq> ''0'' \<and> bool_text b \<noteq> ''1'' \<longleftrightarrow> False" "CHR 0x0A \<notin> set (bool_text b)"
  by (simp_all add: bool_text_def)

lemma load_keys [simp]:
  "load_setting ''jit'' (bool_text b) s = s\<lparr>request_jit := b\<rparr>"
  "load_setting ''native_jit'' (bool_text b) s = s\<lparr>native_jit := b\<rparr>"
  "load_setting ''cached_interpreter'' (bool_text b) s = s\<lparr>cached_interpreter := b\<rparr>"
  "load_setting ''vsync'' (bool_text b) s = s\<lparr>vsync := b\<rparr>"
  "load_setting ''shader_cache'' (bool_text b) s = s\<lparr>shader_cache := b\<rparr>"
  "load_setting ''audio'' (bool_text b) s = s\<lparr>audio := b\<rparr>"
  "load_setting ''dual_core'' (bool_text b) s = s\<lparr>dual_core := b\<rparr>"
  "load_setting ''vulkan_submit_thread'' (bool_text b) s = s\<lparr>vulkan_submit_thread := b\<rparr>"
  "load_setting ''vulkan_present_overlap'' (bool_text b) s = s\<lparr>vulkan_present_overlap := b\<rparr>"
  "load_setting ''vulkan_triple_buffering'' (bool_text b) s = s\<lparr>vulkan_triple_buffering := b\<rparr>"
  "load_setting ''horizon_vulkan_push_descriptors'' (bool_text b) s = s\<lparr>horizon_vulkan_push_descriptors := b\<rparr>"
  "load_setting ''vulkan_present_completion_guard'' (bool_text b) s = s\<lparr>vulkan_present_completion_guard := b\<rparr>"
  "load_setting ''native_vertex_loader'' (bool_text b) s = s\<lparr>native_vertex_loader := b\<rparr>"
  "load_setting ''jit_small_code_pooling'' (bool_text b) s = s\<lparr>jit_small_code_pooling := b\<rparr>"
  "load_setting ''fifo_batching'' (bool_text b) s = s\<lparr>fifo_batching := b\<rparr>"
  "load_setting ''horizon_ppc_fastmem'' (bool_text b) s = s\<lparr>horizon_ppc_fastmem := b\<rparr>"
  "load_setting ''phocoena_auto_clocks'' (bool_text b) s = s\<lparr>phocoena_auto_clocks := b\<rparr>"
  "load_setting ''tp_benchmark_save'' (bool_text b) s = s\<lparr>tp_benchmark_save := b\<rparr>"
  by (simp_all add: load_setting_def Let_def del: bool_text_simps(4)) (simp_all add: bool_text_def)

lemma dec_sizes: "dec (Suc 0) = ''1''" "dec 4 = ''4''" "dec 8 = ''8''" "dec 64 = ''64''" "dec 1024 = ''1024''"
  by (simp_all add: dec.simps hex_digit_def)

lemma stoul_values: "stoul ''1'' = 1" "stoul ''4'' = 4" "stoul ''8'' = 8" "stoul ''16'' = 16" "stoul ''64'' = 64"
  "stoul ''1024'' = 1024"
  by code_simp+

lemma load_batch_size:
  assumes "n \<in> {1, 4, 8}"
  shows "load_setting ''fifo_batch_size'' (dec (unat n)) s = s\<lparr>fifo_batch_size := n, fifo_batching := n > 1\<rparr>"
proof -
  have "dec (unat n) \<in> {''1'', ''4'', ''8'', ''16''} \<and> stoul (dec (unat n)) = n \<and> n \<le> 8"
    using assms by (auto simp: dec_sizes stoul_values)
  then show ?thesis unfolding load_setting_def by (simp add: Let_def not_less [symmetric])
qed

lemma load_sample_scale:
  assumes "n \<in> {64, 1024}"
  shows "load_setting ''horizon_perf_sample_scale'' (dec (unat n)) s = s\<lparr>horizon_perf_sample_scale := n\<rparr>"
proof -
  have "(dec (unat n) = ''64'' \<or> dec (unat n) = ''1024'') \<and> stoul (dec (unat n)) = n"
    using assms by (auto simp: dec_sizes stoul_values)
  then show ?thesis unfolding load_setting_def by simp
qed

lemma load_profile:
  assumes "p = ''performance'' \<or> p = ''legacy''"
  shows "load_setting ''phocoena_clock_profile'' p s = s\<lparr>phocoena_clock_profile := p\<rparr>"
  using assms unfolding load_setting_def by simp

lemmas load_numbers = load_batch_size load_sample_scale load_profile

section \<open>Saving and loading\<close>

text \<open>The settings as they come back: the batch size normalised.\<close>

definition normalised :: "settings \<Rightarrow> settings" where
  "normalised s = s\<lparr>fifo_batch_size := EffectiveFifoBatchSize s, fifo_batching := EffectiveFifoBatchSize s > 1\<rparr>"

definition storable :: "settings \<Rightarrow> bool" where
  "storable s \<longleftrightarrow> phocoena_clock_profile s \<in> {''performance'', ''legacy''} \<and> horizon_perf_sample_scale s \<in> {64, 1024}"

definition settings_ok :: "settings \<Rightarrow> bool" where
  "settings_ok s \<longleftrightarrow> storable s \<and> fifo_batch_size s \<in> {1, 4, 8}"

lemma EffectiveFifoBatchSize_cases: "EffectiveFifoBatchSize s \<in> {1, 4, 8}"
  by (simp add: EffectiveFifoBatchSize_def)

lemma load_lines:
  assumes "storable s"
  shows "fold (\<lambda>(key, val). load_setting key val) (settings_lines s) t = normalised s"
  using assms EffectiveFifoBatchSize_cases [of s]
  by (intro settings.equality) (simp_all add: settings_lines_def load_numbers normalised_def storable_def)

lemma pair_ok:
  assumes "storable s" "(key, val) \<in> set (settings_lines s)"
  shows "CHR ''='' \<notin> set key" "CHR 0x0A \<notin> set key" "val \<noteq> []" "last val \<noteq> CHR 0x0D" "CHR 0x0A \<notin> set val"
proof -
  have v: "phocoena_clock_profile s \<noteq> [] \<and> last (phocoena_clock_profile s) \<noteq> CHR 0x0D \<and> CHR 0x0A \<notin> set (phocoena_clock_profile s)"
    using assms(1) by (auto simp: storable_def)
  have e: "dec (unat (EffectiveFifoBatchSize s)) \<in> {''1'', ''4'', ''8''}"
    using EffectiveFifoBatchSize_cases [of s] by (auto simp: dec_sizes)
  have h: "dec (unat (horizon_perf_sample_scale s)) \<in> {''64'', ''1024''}"
    using assms(1) by (auto simp: storable_def dec_sizes)
  have "\<forall>(key, val)\<in>set (settings_lines s). CHR ''='' \<notin> set key \<and> CHR 0x0A \<notin> set key \<and> val \<noteq> [] \<and> last val \<noteq> CHR 0x0D \<and> CHR 0x0A \<notin> set val"
    using v e h by (auto simp: settings_lines_def)
  with assms(2) show "CHR ''='' \<notin> set key" "CHR 0x0A \<notin> set key" "val \<noteq> []" "last val \<noteq> CHR 0x0D" "CHR 0x0A \<notin> set val"
    by auto
qed

lemma load_saved_text:
  assumes "storable s"
  shows "load_text (settings_text s) t = normalised s"
proof -
  let ?line = "\<lambda>(key, val). key @ CHR ''='' # val"
  let ?ls = "''# Phocoena v0.1'' # map ?line (settings_lines s)"
  have lines: "settings_text s = concat (map (\<lambda>l. l @ [CHR 0x0A]) ?ls)"
    by (auto simp: settings_text_def intro!: arg_cong [of _ _ concat])
  have "\<forall>l\<in>set ?ls. CHR 0x0A \<notin> set l" using pair_ok [OF assms] by auto
  then have "load_text (settings_text s) t = fold load_line ?ls t"
    unfolding load_text_def lines by (simp only: getlines_concat)
  also have "\<dots> = fold (\<lambda>(key, val). load_setting key val) (settings_lines s) t"
  proof -
    have "fold load_line (map ?line kvs) u = fold (\<lambda>(key, val). load_setting key val) kvs u"
      if "set kvs \<subseteq> set (settings_lines s)" for kvs u
      using that
    proof (induction kvs arbitrary: u)
      case (Cons kv kvs)
      obtain key val where kv: "kv = (key, val)" by force
      with Cons.prems have "(key, val) \<in> set (settings_lines s)" by simp
      from load_line_pair [OF pair_ok(1,3,4) [OF assms this]] Cons show ?case by (simp add: kv)
    qed simp
    then show ?thesis by (simp add: load_line_comment)
  qed
  also have "\<dots> = normalised s" by (rule load_lines [OF assms])
  finally show ?thesis .
qed

lemma load_setting_ok: "settings_ok s \<Longrightarrow> settings_ok (load_setting key val s)"
proof -
  assume a: "settings_ok s"
  have n: "val \<in> {''1'', ''4'', ''8'', ''16''} \<Longrightarrow> (if stoul val > 8 then 8 else stoul val) \<in> {1, 4, 8}"
    "val = ''64'' \<or> val = ''1024'' \<Longrightarrow> stoul val \<in> {64, 1024}" by (auto simp: stoul_values)
  consider "key = ''fifo_batch_size''" | "key = ''horizon_perf_sample_scale''" | "key = ''phocoena_clock_profile''"
    | "key \<notin> {''fifo_batch_size'', ''horizon_perf_sample_scale'', ''phocoena_clock_profile''}" by blast
  then show ?thesis
  proof cases
    case 4
    then show ?thesis using a by (simp add: load_setting_def Let_def settings_ok_def storable_def)
  qed (use a n in \<open>auto simp: load_setting_def Let_def settings_ok_def storable_def\<close>)
qed

lemma load_text_ok: "settings_ok s \<Longrightarrow> settings_ok (load_text cs s)"
proof -
  have "settings_ok s \<Longrightarrow> settings_ok (fold load_line ls s)" for ls
    by (induction ls arbitrary: s) (simp_all add: load_line_def Let_def load_setting_ok)
  then show "settings_ok s \<Longrightarrow> settings_ok (load_text cs s)" by (simp add: load_text_def)
qed

section \<open>Replacing a file\<close>

text \<open>
  What the file operations promise: a rename that fails changes nothing and one that succeeds
  moves the node; a removal touches only its path; writing touches only its path and, when it
  succeeds, leaves the text there.
\<close>

definition rename_ok :: "file_ops \<Rightarrow> bool" where
  "rename_ok ops \<longleftrightarrow>
     (\<forall>a b fs. a \<noteq> b \<longrightarrow> (case rename_op ops a b fs of (err, fs') \<Rightarrow>
        if err then fs' = fs else fs a \<noteq> None \<and> fs' = fs(a := None, b := fs a)))"

definition ops_ok :: "file_ops \<Rightarrow> bool" where
  "ops_ok ops \<longleftrightarrow> rename_ok ops \<and>
     (\<forall>p fs q. q \<noteq> p \<longrightarrow> snd (remove_op ops p fs) q = fs q) \<and>
     (\<forall>p txt fs. (\<forall>q. q \<noteq> p \<longrightarrow> snd (write_op ops p txt fs) q = fs q) \<and>
       (fst (write_op ops p txt fs) \<longrightarrow> snd (write_op ops p txt fs) p = Some (Regular txt)))"

lemma rename_cases:
  assumes "rename_ok ops" "a \<noteq> b" "rename_op ops a b fs = (err, fs')"
  shows "err \<and> fs' = fs \<or> \<not> err \<and> fs a \<noteq> None \<and> fs' = fs(a := None, b := fs a)"
  using assms(1) [unfolded rename_ok_def, THEN spec, THEN spec, THEN spec, THEN mp, OF assms(2), of fs] assms(3)
  by (simp split: if_splits)

text \<open>The five outcomes of a replacement.\<close>

lemma ReplaceFile_outcome:
  assumes ops: "ops_ok ops" and d: "from \<noteq> to" "from \<noteq> to @ ''.horizon-old''"
    and r: "ReplaceFile ops from to fs = (err, fs')"
  shows "err \<and> fs' = fs \<or>
    err \<and> fs to \<noteq> None \<and> fs (to @ ''.horizon-old'') = None \<and> fs' = fs(to := None, to @ ''.horizon-old'' := fs to) \<or>
    \<not> err \<and> fs' = fs(from := None, to := fs from) \<or>
    \<not> err \<and> fs (to @ ''.horizon-old'') = None \<and> fs' to = fs from \<and>
      (\<forall>q. q \<noteq> from \<and> q \<noteq> to \<and> q \<noteq> to @ ''.horizon-old'' \<longrightarrow> fs' q = fs q)"
proof -
  let ?bak = "to @ ''.horizon-old''"
  have rn: "rename_ok ops" and rm: "\<And>p fs q. q \<noteq> p \<Longrightarrow> snd (remove_op ops p fs) q = fs q"
    using ops by (simp_all add: ops_ok_def)
  have tb: "to \<noteq> ?bak" by simp
  obtain e1 f1 where r1: "rename_op ops from to fs = (e1, f1)" by force
  obtain e2 f2 where r2: "rename_op ops to ?bak f1 = (e2, f2)" by force
  obtain e3 f3 where r3: "rename_op ops from to f2 = (e3, f3)" by force
  obtain e4 f4 where r4: "rename_op ops ?bak to f3 = (e4, f4)" by force
  note c1 = rename_cases [OF rn d(1) r1] and c2 = rename_cases [OF rn tb r2]
    and c3 = rename_cases [OF rn d(1) r3] and c4 = rename_cases [OF rn tb [symmetric] r4]
  let ?stop = "\<not> is_regular_file ops from f1 \<or> \<not> is_regular_file ops to f1 \<or> status_error ops ?bak f1 \<or> f1 ?bak \<noteq> None"
  have eq: "(err, fs') = (if \<not> e1 then (False, f1) else if ?stop then (True, f1) else if e2 then (True, f2)
      else if e3 then (True, f4) else (False, snd (remove_op ops ?bak f3)))"
    using r r1 r2 r3 r4 by (auto simp: ReplaceFile_def Let_def split: if_splits)
  consider "\<not> e1" | "e1" ?stop | "e1" "\<not> ?stop" e2 | "e1" "\<not> ?stop" "\<not> e2" e3 | "e1" "\<not> ?stop" "\<not> e2" "\<not> e3" by blast
  then show ?thesis
  proof cases
    case 1 with eq c1 show ?thesis by simp
  next
    case 2 with eq c1 show ?thesis by simp
  next
    case 3 with eq c1 c2 show ?thesis by simp
  next
    case 4
    then have "f1 = fs" "f3 = fs(to := None, ?bak := fs to)" "fs to \<noteq> None" "fs ?bak = None" using c1 c2 c3 by simp_all
    moreover have "err" "fs' = f4" using eq 4 by simp_all
    moreover have "fs(to := None, ?bak := fs to, ?bak := None, to := fs to) = fs" if "fs ?bak = None"
      using that by (auto simp: fun_eq_iff)
    ultimately show ?thesis using c4 by auto
  next
    case 5
    then have "f1 = fs" "f3 = fs(to := None, ?bak := fs to, from := None, to := fs from)" "fs ?bak = None"
      using c1 c2 c3 d by simp_all
    moreover have "\<not> err" "fs' = snd (remove_op ops ?bak f3)" using eq 5 by simp_all
    ultimately show ?thesis using rm [of _ ?bak f3] tb d by auto
  qed
qed

section \<open>Paths\<close>

lemma components_append: "components (a @ CHR ''/'' # b) = components a @ components b"
proof (induction a)
  case (Cons c a)
  have "components x \<noteq> []" for x by (induction x) (auto split: list.splits)
  with Cons show ?case by (auto split: list.splits)
qed simp

lemma strip_slashes_prefix:
  "6 \<le> length p \<Longrightarrow> (\<exists>n. p = strip_slashes p @ replicate n (CHR ''/'')) \<and> 6 \<le> length (strip_slashes p) \<and>
    (length (strip_slashes p) = 6 \<or> last (strip_slashes p) \<noteq> CHR ''/'')"
proof (induction p rule: strip_slashes.induct)
  case (1 p)
  show ?case
  proof (cases "length p > 6 \<and> last p = CHR ''/''")
    case True
    then have "6 \<le> length (butlast p)" by auto
    note ih = "1.IH" [OF True this]
    then obtain n where n: "butlast p = strip_slashes (butlast p) @ replicate n (CHR ''/'')" by blast
    have eq: "strip_slashes p = strip_slashes (butlast p)" using True by (subst strip_slashes.simps) simp
    have "p = butlast p @ [CHR ''/'']" using True append_butlast_last_id [of p] by force
    also have "\<dots> = strip_slashes (butlast p) @ replicate (Suc n) (CHR ''/'')"
      by (subst n) (simp add: replicate_append_same)
    finally have "p = strip_slashes (butlast p) @ replicate (Suc n) (CHR ''/'')" .
    with ih show ?thesis unfolding eq by blast
  next
    case False
    then have "strip_slashes p = p" by (subst strip_slashes.simps) auto
    with False "1.prems" show ?thesis by (auto intro: exI [of _ 0])
  qed
qed

lemma find_last_slash_Some:
  assumes "CHR ''/'' \<in> set q"
  shows "\<exists>x y. find_last_slash q = Some (length x) \<and> q = x @ CHR ''/'' # y \<and> CHR ''/'' \<notin> set y"
proof -
  obtain x y where q: "q = x @ CHR ''/'' # y" "CHR ''/'' \<notin> set y"
    using split_list_last [OF assms] by blast
  have "takeWhile (\<lambda>c. c \<noteq> CHR ''/'') (rev q) = rev y"
    using q by (simp add: takeWhile_append2 takeWhile_key)
  then have "find_last_slash q = Some (length x)" using q by (simp add: find_last_slash_def Let_def)
  with q show ?thesis by blast
qed

lemma IsSDPath_cut:
  assumes "IsSDPath (x @ CHR ''/'' # z)" "6 \<le> length x"
  shows "IsSDPath (x @ ''/'')"
proof -
  have "components (drop 6 (x @ CHR ''/'' # z)) = components (drop 6 x) @ components z"
    "components (drop 6 (x @ ''/'')) = components (drop 6 x) @ [[]]"
    using assms(2) components_append [of "drop 6 x" z] components_append [of "drop 6 x" "[]"] by simp_all
  with assms show ?thesis by (auto simp: IsSDPath_def)
qed

lemma ParentSDPath_up:
  assumes sd: "IsSDPath p"
  shows "ParentSDPath p = ''sdmc:/'' \<or>
    IsSDPath (ParentSDPath p) \<and> last (ParentSDPath p) = CHR ''/'' \<and> 6 < length (ParentSDPath p) \<and> length (ParentSDPath p) < length p"
proof -
  have t6: "take 6 p = ''sdmc:/''" using sd by (simp add: IsSDPath_def)
  have len: "6 \<le> length p" using arg_cong [OF t6, of length] by simp
  define q where "q = strip_slashes p"
  from strip_slashes_prefix [OF len] obtain n where n: "p = q @ replicate n (CHR ''/'')" and q: "6 \<le> length q"
    "length q = 6 \<or> last q \<noteq> CHR ''/''" unfolding q_def by blast
  have "take 6 q = ''sdmc:/''" using t6 q(1) by (subst (asm) n) simp
  then have "take 6 q ! 5 = CHR ''/''" by simp
  then have q5: "q ! 5 = CHR ''/''" by simp
  then have "CHR ''/'' \<in> set q" using q(1) nth_mem [of 5 q] by simp
  from find_last_slash_Some [OF this] obtain x y where
    f: "find_last_slash q = Some (length x)" and xy: "q = x @ CHR ''/'' # y" "CHR ''/'' \<notin> set y" by blast
  show ?thesis
  proof (cases "length x \<le> 5")
    case True
    with sd f show ?thesis by (simp add: ParentSDPath_def Let_def q_def [symmetric])
  next
    case False
    then have par: "ParentSDPath p = x @ ''/''" using sd f xy by (simp add: ParentSDPath_def Let_def q_def [symmetric])
    have "y \<noteq> []" using q(2) xy False by auto
    then have "length (x @ ''/'') < length p" using n xy by simp
    moreover have "IsSDPath (x @ ''/'')" using sd False by (intro IsSDPath_cut [of x "y @ replicate n (CHR ''/'')"]) (simp_all add: n xy)
    ultimately show ?thesis using False by (simp add: par)
  qed
qed

lemma root_sd: "IsSDPath ''sdmc:/''" "ParentSDPath ''sdmc:/'' = ''sdmc:/''"
  by code_simp+

lemma ParentSDPath_reaches: "\<exists>n\<le>length p. (ParentSDPath ^^ n) p = ''sdmc:/''" if "p = ''sdmc:/'' \<or> IsSDPath p"
  using that
proof (induction "length p" arbitrary: p rule: less_induct)
  case less
  show ?case
  proof (cases "ParentSDPath p = ''sdmc:/''")
    case True
    then show ?thesis
    proof (cases "p = ''sdmc:/''")
      case False
      with less.prems have "p \<noteq> []" by (auto simp: IsSDPath_def)
      with True show ?thesis by (intro exI [of _ 1]) (simp add: Suc_le_eq)
    qed (auto intro: exI [of _ 0])
  next
    case False
    with less.prems root_sd have "IsSDPath p" by auto
    with ParentSDPath_up [OF this] False have up: "IsSDPath (ParentSDPath p)" "length (ParentSDPath p) < length p" by auto
    from less.hyps [OF up(2)] up(1) obtain n where "n \<le> length (ParentSDPath p)" "(ParentSDPath ^^ n) (ParentSDPath p) = ''sdmc:/''"
      by blast
    with up(2) show ?thesis by (intro exI [of _ "Suc n"]) (simp add: funpow_swap1)
  qed
qed

section \<open>The directory listing\<close>

text \<open>
  The listing holds the folders and game images up to the first entry whose query fails, folders
  first and by name within each kind; the error shown is that failure, or the one of the iterator.
\<close>

lemma read_items_entries:
  "map entry_path (fst (read_items its ec)) =
     map item_path (filter (\<lambda>i. item_directory i = Inr True \<or> IsGameImage (item_path i))
       (takeWhile (\<lambda>i. \<not> isl (item_directory i)) its))"
  "snd (read_items its ec) = (case dropWhile (\<lambda>i. \<not> isl (item_directory i)) its of [] \<Rightarrow> ec | i # _ \<Rightarrow> projl (item_directory i))"
  by (induction its) (auto simp: case_prod_beta Let_def split: sum.splits)

lemma directory_listing:
  assumes "ReadDirectory its ec = (es, e)"
  shows "sorted (map (\<lambda>a. (\<not> entry_directory a, entry_name a)) es)"
    and "set (map entry_path es) =
      item_path ` {i \<in> set (takeWhile (\<lambda>i. \<not> isl (item_directory i)) its). item_directory i = Inr True \<or> IsGameImage (item_path i)}"
    and "e = (case dropWhile (\<lambda>i. \<not> isl (item_directory i)) its of [] \<Rightarrow> ec | i # _ \<Rightarrow> projl (item_directory i))"
proof -
  have es: "es = sort_key (\<lambda>a. (\<not> entry_directory a, entry_name a)) (fst (read_items its ec))" "e = snd (read_items its ec)"
    using assms by (auto simp: ReadDirectory_def case_prod_beta Let_def)
  show "sorted (map (\<lambda>a. (\<not> entry_directory a, entry_name a)) es)" by (simp add: es)
  have "set (map entry_path es) = set (map entry_path (fst (read_items its ec)))" by (simp add: es)
  then show "set (map entry_path es) =
      item_path ` {i \<in> set (takeWhile (\<lambda>i. \<not> isl (item_directory i)) its). item_directory i = Inr True \<or> IsGameImage (item_path i)}"
    unfolding read_items_entries by auto
  show "e = (case dropWhile (\<lambda>i. \<not> isl (item_directory i)) its of [] \<Rightarrow> ec | i # _ \<Rightarrow> projl (item_directory i))"
    by (simp add: es read_items_entries)
qed

section \<open>Properties\<close>


text \<open>Operations of a file system on which a rename does not replace an existing file.\<close>

definition horizon_ops :: file_ops where
  "horizon_ops =
     \<lparr>rename_op = (\<lambda>a b fs. if fs a = None \<or> fs b \<noteq> None then (True, fs) else (False, fs(a := None, b := fs a))),
      remove_op = (\<lambda>p fs. (fs p = None, fs(p := None))),
      write_op = (\<lambda>p txt fs. (True, fs(p := Some (Regular txt)))),
      status_error = (\<lambda>p fs. False)\<rparr>"

lemma horizon_ops_ok: "ops_ok horizon_ops"
  by (auto simp: ops_ok_def rename_ok_def horizon_ops_def)


text \<open>
  No settings file can bring the settings out of their ranges: loading any text, cycling
  the CPU or the batch size and the tester baseline keep the batch size, the clock profile and
  the sample scale among the supported values; the effective batch size is the one the GPU loop
  normalises to; and three steps of either menu entry come back to the same choice.
\<close>

theorem settings_stay_valid:
  assumes "settings_ok s"
  shows "settings_ok (load_text cs s) \<and> settings_ok (CycleFifoBatchSize s) \<and> settings_ok (CycleCPU s) \<and>
    settings_ok (ApplyFrozenTesterBaseline s) \<and>
    EffectiveFifoBatchSize s = NormalizeFifoBatchBlocks (if fifo_batching s then fifo_batch_size s else 1) \<and>
    EffectiveFifoBatchSize (CycleFifoBatchSize (CycleFifoBatchSize (CycleFifoBatchSize s))) = EffectiveFifoBatchSize s \<and>
    (\<not> request_jit s \<and> (native_jit s \<longrightarrow> \<not> cached_interpreter s) \<longrightarrow> CycleCPU (CycleCPU (CycleCPU s)) = s)"
proof (intro conjI)
  show "settings_ok (load_text cs s)" by (rule load_text_ok [OF assms])
  show "settings_ok (CycleFifoBatchSize s)" "settings_ok (CycleCPU s)" "settings_ok (ApplyFrozenTesterBaseline s)"
    using assms by (auto simp: settings_ok_def storable_def CycleFifoBatchSize_def CycleCPU_def ApplyFrozenTesterBaseline_def Let_def)
  have n: "fifo_batch_size s \<in> {1, 4, 8}" using assms by (simp add: settings_ok_def)
  have small: "\<not> (4 :: u32) \<le> 1" "\<not> (8 :: u32) \<le> 1" "\<not> (8 :: u32) \<le> 4" by (simp_all add: word_le_nat_alt)
  show "EffectiveFifoBatchSize s = NormalizeFifoBatchBlocks (if fifo_batching s then fifo_batch_size s else 1)"
    using n small by (auto simp: EffectiveFifoBatchSize_def NormalizeFifoBatchBlocks_def field_defs)
  show "EffectiveFifoBatchSize (CycleFifoBatchSize (CycleFifoBatchSize (CycleFifoBatchSize s))) = EffectiveFifoBatchSize s"
    using n small by (auto simp: EffectiveFifoBatchSize_def CycleFifoBatchSize_def Let_def)
  show "\<not> request_jit s \<and> (native_jit s \<longrightarrow> \<not> cached_interpreter s) \<longrightarrow> CycleCPU (CycleCPU (CycleCPU s)) = s"
    by (cases s) (auto simp: CycleCPU_def)
qed

theorem settings_stay_valid_witness:
  "settings_ok (load_text ''fifo_batch_size=16'' default_settings) \<and>
   CycleCPU (CycleCPU (CycleCPU default_settings)) = default_settings"
proof -
  have "settings_ok default_settings" by (simp add: settings_ok_def storable_def default_settings_def)
  from settings_stay_valid [OF this, of "''fifo_batch_size=16''"] show ?thesis by (simp add: default_settings_def)
qed



end
