(* ===== verification/Boot_Progress.thy ===== *)
theory Boot_Progress
  imports Prelude
begin

text \<open>
  \<^verbatim>\<open>Horizon/BootProgress.h\<close>: the counters the emulator threads update and the host reads, with
  the ring of the last 512 intervals between unique presents and its summary.

  Every method holds the lock for its whole body, so a history of calls is a sequence of
  events. Times are nanoseconds of the steady clock. The summary keeps the integers that the
  code converts to floating point at the end; the divisions to milliseconds and frames per
  second are left out.
\<close>

definition CADENCE_CAPACITY :: nat where [field_defs]: "CADENCE_CAPACITY = 512"

record thread_usage =
  usage_id :: u64
  cpu_ns :: u64
  wall_ns :: u64
  core :: u32
  usage_result :: u32
  usage_valid :: bool

definition no_usage :: thread_usage where
  "no_usage = \<lparr>usage_id = 0, cpu_ns = 0, wall_ns = 0, core = 0, usage_result = 0, usage_valid = False\<rparr>"

record snapshot =
  vi_fields :: u64
  xfb_copies :: u64
  presents_queued :: u64
  presents_completed :: u64
  unique_presents_queued :: u64
  duplicate_presents_queued :: u64
  unique_presents_completed :: u64
  duplicate_presents_completed :: u64
  present_interval_sequence :: u64
  frame_sequence_gaps :: u64
  present_interval_us :: "u32 list"
  ticks :: u64
  pc :: u32
  r3 :: u32
  ticks_per_second :: u32
  xfb_width :: u32
  xfb_height :: u32
  sampled_at :: int
  cpu_usage :: thread_usage
  gpu_usage :: thread_usage

record boot_progress =
  m_snapshot :: snapshot
  m_last_unique_present :: int
  m_last_completed_frame :: u64
  m_have_completed_frame :: bool

definition BootProgress :: boot_progress where
  "BootProgress =
     \<lparr>m_snapshot =
        \<lparr>vi_fields = 0, xfb_copies = 0, presents_queued = 0, presents_completed = 0, unique_presents_queued = 0,
         duplicate_presents_queued = 0, unique_presents_completed = 0, duplicate_presents_completed = 0,
         present_interval_sequence = 0, frame_sequence_gaps = 0, present_interval_us = replicate CADENCE_CAPACITY 0,
         ticks = 0, pc = 0, r3 = 0, ticks_per_second = 0, xfb_width = 0, xfb_height = 0, sampled_at = 0,
         cpu_usage = no_usage, gpu_usage = no_usage\<rparr>,
      m_last_unique_present = 0, m_last_completed_frame = 0, m_have_completed_frame = False\<rparr>"

section \<open>The callbacks\<close>

definition OnVI :: "u32 \<Rightarrow> u32 \<Rightarrow> u64 \<Rightarrow> u32 \<Rightarrow> thread_usage \<Rightarrow> int \<Rightarrow> boot_progress \<Rightarrow> boot_progress" where
  "OnVI pc' r3' ticks' tps usage now b =
     (let s = m_snapshot b
      in b\<lparr>m_snapshot := s\<lparr>vi_fields := vi_fields s + 1, pc := pc', r3 := r3', ticks := ticks', ticks_per_second := tps,
                           sampled_at := now, cpu_usage := usage\<rparr>\<rparr>)"

definition OnXFB :: "boot_progress \<Rightarrow> boot_progress" where
  "OnXFB b = (let s = m_snapshot b in b\<lparr>m_snapshot := s\<lparr>xfb_copies := xfb_copies s + 1\<rparr>\<rparr>)"

definition OnBeforePresent :: "u32 \<Rightarrow> u32 \<Rightarrow> bool \<Rightarrow> boot_progress \<Rightarrow> boot_progress" where
  "OnBeforePresent width height duplicate b =
     (let s = m_snapshot b;
          s1 = s\<lparr>presents_queued := presents_queued s + 1\<rparr>;
          s2 = (if duplicate then s1\<lparr>duplicate_presents_queued := duplicate_presents_queued s1 + 1\<rparr>
                else s1\<lparr>unique_presents_queued := unique_presents_queued s1 + 1\<rparr>)
      in b\<lparr>m_snapshot := s2\<lparr>xfb_width := width, xfb_height := height\<rparr>\<rparr>)"

text \<open>\<^verbatim>\<open>duration_cast\<close> to microseconds truncates towards zero.\<close>

definition microseconds :: "int \<Rightarrow> int" where
  "microseconds ns = sgn ns * (\<bar>ns\<bar> div 1000)"

definition bounded_interval :: "int \<Rightarrow> u32" where
  "bounded_interval elapsed = ucast (min (word_of_int elapsed :: u64) 0xFFFFFFFF)"

definition record_interval :: "int \<Rightarrow> boot_progress \<Rightarrow> boot_progress" where
  "record_interval presented_at b =
     (let s = m_snapshot b; elapsed = microseconds (presented_at - m_last_unique_present b)
      in if m_last_unique_present b \<noteq> 0 \<and> elapsed \<ge> 0
         then b\<lparr>m_snapshot := s\<lparr>present_interval_us :=
                  (present_interval_us s)[unat (present_interval_sequence s mod word_of_nat CADENCE_CAPACITY) := bounded_interval elapsed],
                present_interval_sequence := present_interval_sequence s + 1\<rparr>\<rparr>
         else b)"

definition OnAfterPresent :: "u64 \<Rightarrow> bool \<Rightarrow> thread_usage \<Rightarrow> int \<Rightarrow> boot_progress \<Rightarrow> boot_progress" where
  "OnAfterPresent frame_count duplicate usage presented_at b =
     (let s = m_snapshot b;
          s1 = s\<lparr>presents_completed := presents_completed s + 1\<rparr>;
          b1 = (if duplicate then b\<lparr>m_snapshot := s1\<lparr>duplicate_presents_completed := duplicate_presents_completed s1 + 1\<rparr>\<rparr>
                else let s2 = s1\<lparr>unique_presents_completed := unique_presents_completed s1 + 1\<rparr>;
                         s3 = (if m_have_completed_frame b \<and> frame_count > m_last_completed_frame b + 1
                               then s2\<lparr>frame_sequence_gaps := frame_sequence_gaps s2 + (frame_count - m_last_completed_frame b - 1)\<rparr>
                               else s2);
                         b2 = b\<lparr>m_snapshot := s3, m_last_completed_frame := frame_count, m_have_completed_frame := True\<rparr>
                     in (record_interval presented_at b2)\<lparr>m_last_unique_present := presented_at\<rparr>)
      in b1\<lparr>m_snapshot := (m_snapshot b1)\<lparr>gpu_usage := usage\<rparr>\<rparr>)"

definition Read_snapshot :: "boot_progress \<Rightarrow> snapshot" where
  "Read_snapshot b = m_snapshot b"

section \<open>The summary\<close>

text \<open>Microseconds instead of milliseconds, sums and counts instead of quotients.\<close>

record cadence_summary =
  samples :: u64
  lost_samples :: u64
  sum_us :: u64
  p95_us :: u32
  p99_us :: u32
  low_count :: u64
  low_sum :: u64

definition no_summary :: cadence_summary where
  "no_summary = \<lparr>samples = 0, lost_samples = 0, sum_us = 0, p95_us = 0, p99_us = 0, low_count = 0, low_sum = 0\<rparr>"

text \<open>\<^verbatim>\<open>None\<close> where an index is outside the array of values.\<close>

definition percentile :: "u32 list \<Rightarrow> u64 \<Rightarrow> u64 \<Rightarrow> u32 option" where
  "percentile values n percent =
     (let rank = (n * percent + 99) div 100; i = unat (max rank 1 - 1)
      in if i < length values then Some (values ! i) else None)"

definition read_range :: "u32 list \<Rightarrow> u64 \<Rightarrow> u64 \<Rightarrow> u32 list option" where
  "read_range values first n =
     (if unat n \<le> length values \<and> first \<le> n then Some (map (\<lambda>i. values ! i) [unat first..<unat n]) else None)"

definition sum64 :: "u32 list \<Rightarrow> u64" where
  "sum64 vs = fold (\<lambda>v acc. acc + ucast v) vs 0"

definition SummarizeFrameCadence :: "snapshot \<Rightarrow> u64 \<Rightarrow> cadence_summary option" where
  "SummarizeFrameCadence s previous_sequence =
     (if present_interval_sequence s \<le> previous_sequence then Some no_summary
      else let requested = present_interval_sequence s - previous_sequence;
               n = min requested (word_of_nat CADENCE_CAPACITY);
               first = present_interval_sequence s - n;
               vals = map (\<lambda>i. present_interval_us s ! unat ((first + word_of_nat i) mod word_of_nat CADENCE_CAPACITY)) [0..<unat n];
               values = sort vals @ replicate (CADENCE_CAPACITY - unat n) 0;
               low = max ((n + 99) div 100) 1
           in case (percentile values n 95, percentile values n 99, read_range values (n - low) n) of
                (Some p95, Some p99, Some lows) \<Rightarrow>
                  Some \<lparr>samples = n, lost_samples = requested - n, sum_us = sum64 vals, p95_us = p95, p99_us = p99,
                        low_count = low, low_sum = sum64 lows\<rparr>
              | _ \<Rightarrow> None)"

section \<open>Histories\<close>

datatype boot_event =
    VI u32 u32 u64 u32 thread_usage int
  | XFB
  | BeforePresent u32 u32 bool
  | AfterPresent u64 bool thread_usage int

fun callback :: "boot_event \<Rightarrow> boot_progress \<Rightarrow> boot_progress" where
  "callback (VI p r t f u now) b = OnVI p r t f u now b"
| "callback XFB b = OnXFB b"
| "callback (BeforePresent w h d) b = OnBeforePresent w h d b"
| "callback (AfterPresent f d u t) b = OnAfterPresent f d u t b"

definition after :: "boot_event list \<Rightarrow> boot_progress" where
  "after es = fold callback es BootProgress"

text \<open>Specification: the intervals between unique presents, in order, with the last present.\<close>

fun note_present :: "boot_event \<Rightarrow> u32 list \<times> int \<Rightarrow> u32 list \<times> int" where
  "note_present (AfterPresent f False u t) (xs, prev) =
     (if prev \<noteq> 0 \<and> microseconds (t - prev) \<ge> 0 then xs @ [bounded_interval (microseconds (t - prev))] else xs, t)"
| "note_present e st = st"

definition intervals :: "boot_event list \<Rightarrow> u32 list" where
  "intervals es = fst (fold note_present es ([], 0))"

section \<open>The ring\<close>

definition ring_holds :: "u32 list \<Rightarrow> boot_progress \<Rightarrow> bool" where
  "ring_holds xs b \<longleftrightarrow>
     length (present_interval_us (m_snapshot b)) = 512 \<and>
     present_interval_sequence (m_snapshot b) = word_of_nat (length xs) \<and>
     (\<forall>k<length xs. length xs \<le> k + 512 \<longrightarrow> present_interval_us (m_snapshot b) ! (k mod 512) = xs ! k)"

lemma unat_mod_512: "unat ((word_of_nat n :: u64) mod 512) = n mod 512"
proof -
  have "(n mod 2 ^ 64) mod 512 = n mod (512 :: nat)" by (rule mod_mod_cancel) simp
  then show ?thesis by (simp add: unat_mod_distrib unat_of_nat)
qed

lemma mod_differs:
  fixes k n :: nat
  assumes "k < n" "n < k + 512"
  shows "k mod 512 \<noteq> n mod 512"
proof
  assume "k mod 512 = n mod 512"
  then have "512 dvd n - k" using assms(1) by (metis less_imp_le mod_eq_dvd_iff_nat)
  with assms show False by (auto dest: dvd_imp_le)
qed

lemma ring_push:
  assumes "ring_holds xs b"
    and "present_interval_us (m_snapshot b') = (present_interval_us (m_snapshot b))[length xs mod 512 := v]"
    and "present_interval_sequence (m_snapshot b') = present_interval_sequence (m_snapshot b) + 1"
  shows "ring_holds (xs @ [v]) b'"
proof -
  have r: "present_interval_us (m_snapshot b') ! (k mod 512) = (xs @ [v]) ! k"
    if "k < length (xs @ [v])" "length (xs @ [v]) \<le> k + 512" for k
  proof (cases "k = length xs")
    case True
    then show ?thesis using assms(1) by (simp add: assms(2) ring_holds_def)
  next
    case False
    with that have "k < length xs" "length xs < k + 512" by auto
    moreover note mod_differs [OF this]
    ultimately show ?thesis using assms(1) by (simp add: assms(2) ring_holds_def nth_append)
  qed
  then show ?thesis using assms by (simp add: ring_holds_def)
qed

lemma ring_same:
  assumes "ring_holds xs b" "present_interval_us (m_snapshot b') = present_interval_us (m_snapshot b)"
    "present_interval_sequence (m_snapshot b') = present_interval_sequence (m_snapshot b)"
  shows "ring_holds xs b'"
  using assms by (simp add: ring_holds_def)

lemma record_interval_ring:
  assumes "ring_holds xs b"
  shows "ring_holds (fst (note_present (AfterPresent f False u t) (xs, m_last_unique_present b))) (record_interval t b)"
proof (cases "m_last_unique_present b \<noteq> 0 \<and> microseconds (t - m_last_unique_present b) \<ge> 0")
  case True
  have "unat (present_interval_sequence (m_snapshot b) mod word_of_nat CADENCE_CAPACITY) = length xs mod 512"
    using assms unat_mod_512 [of "length xs"] by (simp add: ring_holds_def field_defs)
  then have "ring_holds (xs @ [bounded_interval (microseconds (t - m_last_unique_present b))]) (record_interval t b)"
    using True by (intro ring_push [OF assms]) (simp_all add: record_interval_def Let_def)
  with True show ?thesis by simp
next
  case False
  then show ?thesis using assms by (auto simp: record_interval_def Let_def)
qed

lemma callback_ring:
  assumes "ring_holds (fst st) b" "snd st = m_last_unique_present b"
  shows "ring_holds (fst (note_present e st)) (callback e b) \<and> snd (note_present e st) = m_last_unique_present (callback e b)"
proof (cases e)
  case (AfterPresent f d u t)
  show ?thesis
  proof (cases d)
    case True
    with AfterPresent assms show ?thesis
      by (auto intro!: ring_same [OF assms(1)] simp: OnAfterPresent_def Let_def)
  next
    case False
    obtain s' where s': "callback e b =
        (let b1 = (record_interval t (b\<lparr>m_snapshot := s', m_last_completed_frame := f, m_have_completed_frame := True\<rparr>))\<lparr>m_last_unique_present := t\<rparr>
         in b1\<lparr>m_snapshot := (m_snapshot b1)\<lparr>gpu_usage := u\<rparr>\<rparr>)"
      and eq: "present_interval_us s' = present_interval_us (m_snapshot b)"
        "present_interval_sequence s' = present_interval_sequence (m_snapshot b)"
      using AfterPresent False by (fastforce simp: OnAfterPresent_def Let_def)
    let ?b = "b\<lparr>m_snapshot := s', m_last_completed_frame := f, m_have_completed_frame := True\<rparr>"
    have "ring_holds (fst st) ?b" by (rule ring_same [OF assms(1)]) (simp_all add: eq)
    from record_interval_ring [OF this, of f u t]
    have "ring_holds (fst (note_present e st)) (record_interval t ?b)"
      using AfterPresent False assms(2) by (cases st) simp
    then have "ring_holds (fst (note_present e st)) (callback e b)"
      by (rule ring_same) (simp_all add: s' Let_def)
    moreover have "m_last_unique_present (callback e b) = t" by (simp add: s' Let_def)
    ultimately show ?thesis using AfterPresent False by (cases st) simp
  qed
qed (use assms in \<open>auto intro!: ring_same [OF assms(1)] simp: OnVI_def OnXFB_def OnBeforePresent_def Let_def\<close>)

lemma after_ring: "ring_holds (intervals es) (after es)"
proof -
  have "ring_holds (fst st) b \<Longrightarrow> snd st = m_last_unique_present b \<Longrightarrow>
      ring_holds (fst (fold note_present es st)) (fold callback es b)" for st b
    by (induction es arbitrary: st b) (simp_all add: callback_ring)
  from this [of "([], 0)" BootProgress] show ?thesis
    by (simp add: intervals_def after_def ring_holds_def BootProgress_def field_defs)
qed


section \<open>The summary\<close>

lemma unat_of_length: "length xs < 2 ^ 64 \<Longrightarrow> unat (word_of_nat (length xs) :: u64) = length xs"
  by (simp add: unat_word_of_nat_less)

text \<open>The values summarised are the newest ones, at most 512 of those after \<open>m\<close>.\<close>

definition newest :: "nat \<Rightarrow> u32 list \<Rightarrow> u32 list" where
  "newest m xs = drop (max m (length xs - 512)) xs"

lemma length_newest: "length (newest m xs) = min (length xs - m) 512"
  by (auto simp: newest_def max_def min_def)

lemma unat_ucast_32: "unat (ucast (v :: u32) :: u64) = unat v"
proof -
  have "unat v < 2 ^ 64" using unat_less [of v] by simp
  then show ?thesis by (simp add: unsigned_ucast_eq take_bit_nat_eq_self)
qed

lemma sum64_bound:
  assumes "length vs * 2 ^ 32 < 2 ^ 64"
  shows "unat (sum64 vs) = sum_list (map unat vs)"
proof -
  have le: "sum_list (map unat vs) \<le> length vs * 2 ^ 32" for vs :: "u32 list"
  proof (induction vs)
    case (Cons v vs)
    have "unat v < 2 ^ 32" using unat_less [of v] by simp
    with Cons show ?case by simp
  qed simp
  have "unat acc + sum_list (map unat vs) < 2 ^ 64 \<Longrightarrow>
      unat (fold (\<lambda>v acc. acc + ucast v) vs acc) = unat acc + sum_list (map unat vs)" for acc :: u64 and vs :: "u32 list"
  proof (induction vs arbitrary: acc)
    case (Cons v vs)
    have "unat (acc + ucast v) = unat acc + unat v"
      using Cons.prems by (subst unat_add_lem [THEN iffD1]) (simp_all add: unat_ucast_32)
    with Cons show ?case by simp
  qed simp
  from this [of 0 vs] le [of vs] assms show ?thesis by (simp add: sum64_def)
qed

lemma sample_counts:
  assumes "n < 2 ^ 64" "m < n"
  defines "q \<equiv> (word_of_nat n :: u64)" and "p \<equiv> (word_of_nat m :: u64)"
  shows "\<not> q \<le> p" "unat (q - p) = n - m" "unat (min (q - p) 512) = min (n - m) 512"
    "unat (q - p - min (q - p) 512) = (n - m) - min (n - m) 512"
    "unat (q - min (q - p) 512) = n - min (n - m) 512"
proof -
  have u: "unat q = n" "unat p = m" using assms by (simp_all add: q_def p_def unat_word_of_nat_less)
  show le: "\<not> q \<le> p" using u assms(2) by (simp add: word_le_nat_alt)
  then show d: "unat (q - p) = n - m" using u by (simp add: unat_sub word_le_nat_alt)
  show k: "unat (min (q - p) 512) = min (n - m) 512" using d by (simp add: min_def word_le_nat_alt)
  show "unat (q - p - min (q - p) 512) = (n - m) - min (n - m) 512"
    using d k by (subst unat_sub) (simp_all add: word_le_nat_alt)
  show "unat (q - min (q - p) 512) = n - min (n - m) 512"
    using u k assms(2) by (subst unat_sub) (auto simp: word_le_nat_alt)
qed

lemma small_rank:
  fixes n pct :: u64
  assumes "unat n \<le> 512" "unat pct \<le> 100"
  shows "unat ((n * pct + 99) div 100) = (unat n * unat pct + 99) div 100"
proof -
  have "unat n * unat pct \<le> 512 * 100" using assms by (intro mult_le_mono)
  then have "unat (n * pct) = unat n * unat pct" "unat n * unat pct + 99 < 2 ^ 64"
    by (simp_all add: unat_mult_lem [THEN iffD1])
  then have "unat (n * pct + 99) = unat n * unat pct + 99" by (subst unat_add_lem [THEN iffD1]) simp_all
  then show ?thesis by (simp add: unat_div_distrib)
qed

lemma rank_bounds:
  fixes k p :: nat
  assumes "1 \<le> k" "1 \<le> p" "p \<le> 100"
  shows "1 \<le> (k * p + 99) div 100" "(k * p + 99) div 100 \<le> k"
proof -
  have "1 \<le> k * p" using assms by simp
  then show "1 \<le> (k * p + 99) div 100" by (simp add: Suc_le_eq div_greater_zero_iff)
  have "k * p \<le> k * 100" using assms(3) by (rule mult_le_mono2)
  then have "k * p + 99 < (k + 1) * 100" unfolding add_mult_distrib by (rule add_le_less_mono) simp
  then have "(k * p + 99) div 100 < k + 1" by (rule div_less_iff_less_mult [THEN iffD2, rotated]) simp
  then show "(k * p + 99) div 100 \<le> k" by simp
qed

lemma percentile_value:
  fixes n pct :: u64
  assumes "length ys = unat n" "1 \<le> unat n" "unat n \<le> 512" "1 \<le> unat pct" "unat pct \<le> 100"
  shows "percentile (ys @ zs) n pct = Some (ys ! ((unat n * unat pct + 99) div 100 - 1))"
proof -
  define r where "r = (n * pct + 99) div 100"
  note u = small_rank [OF assms(3,5), folded r_def] and b = rank_bounds [OF assms(2,4,5)]
  have "max r 1 = r" using u b(1) by (intro max_absorb1) (simp add: word_le_nat_alt)
  moreover have "unat (r - 1) = (unat n * unat pct + 99) div 100 - 1"
    using u b(1) by (subst unat_sub) (simp_all add: word_le_nat_alt)
  ultimately show ?thesis
    using b assms(1) by (simp add: percentile_def r_def [symmetric] nth_append Let_def) linarith
qed

lemma lows_value:
  fixes n :: u64
  assumes "length ys = unat n" "1 \<le> unat n" "unat n \<le> 512"
  defines "low \<equiv> max ((n + 99) div 100) 1"
  shows "unat low = (unat n + 99) div 100"
    and "read_range (ys @ zs) (n - low) n = Some (drop (unat n - unat low) ys)"
proof -
  have u: "unat ((n + 99) div 100) = (unat n + 99) div 100" using small_rank [of n 1] assms(3) by simp
  have b: "1 \<le> (unat n + 99) div 100" "(unat n + 99) div 100 \<le> unat n" using rank_bounds [OF assms(2), of 1] assms(2) by auto
  have "low = (n + 99) div 100" unfolding low_def using u b(1) by (intro max_absorb1) (simp add: word_le_nat_alt)
  then show l: "unat low = (unat n + 99) div 100" using u by simp
  then have le: "low \<le> n" using b(2) by (simp add: word_le_nat_alt)
  then have "unat (n - low) = unat n - unat low" by (rule unat_sub)
  moreover have "n - low \<le> n" using calculation by (simp add: word_le_nat_alt)
  moreover have "map (\<lambda>i. (ys @ zs) ! i) [unat n - unat low..<unat n] = drop (unat n - unat low) ys"
    using assms(1) by (intro nth_equalityI) (auto simp: nth_append)
  ultimately show "read_range (ys @ zs) (n - low) n = Some (drop (unat n - unat low) ys)"
    using assms(1) by (simp add: read_range_def)
qed

lemma ring_newest:
  assumes "ring_holds xs b" "length xs < 2 ^ 64" "m < length xs"
  defines "s \<equiv> m_snapshot b"
  defines "k \<equiv> min (present_interval_sequence s - word_of_nat m) 512"
  shows "map (\<lambda>i. present_interval_us s ! unat ((present_interval_sequence s - k + word_of_nat i) mod 512)) [0..<unat k] = newest m xs"
proof (rule nth_equalityI)
  have q: "present_interval_sequence s = word_of_nat (length xs)" using assms(1) by (simp add: ring_holds_def s_def)
  note c = sample_counts [OF assms(2,3), folded q, folded k_def]
  show len: "length (map (\<lambda>i. present_interval_us s ! unat ((present_interval_sequence s - k + word_of_nat i) mod 512)) [0..<unat k]) =
      length (newest m xs)" using c(3) by (simp add: length_newest)
  fix i assume "i < length (map (\<lambda>i. present_interval_us s ! unat ((present_interval_sequence s - k + word_of_nat i) mod 512)) [0..<unat k])"
  then have i: "i < min (length xs - m) 512" using c(3) by simp
  define j where "j = length xs - min (length xs - m) 512 + i"
  have "present_interval_sequence s - k + word_of_nat i = word_of_nat j"
    using c(5) by (metis j_def of_nat_add of_nat_unat ucast_id)
  then have "unat ((present_interval_sequence s - k + word_of_nat i) mod 512) = j mod 512" by (simp only: unat_mod_512)
  moreover have j: "j < length xs" "length xs \<le> j + 512" using i by (auto simp: j_def)
  moreover have "max m (length xs - 512) = length xs - min (length xs - m) 512" using assms(3) by (auto simp: max_def min_def)
  then have "newest m xs ! i = xs ! j" using j by (simp add: newest_def j_def)
  ultimately show "map (\<lambda>i. present_interval_us s ! unat ((present_interval_sequence s - k + word_of_nat i) mod 512)) [0..<unat k] ! i =
      newest m xs ! i"
    using assms(1) i c(3) by (simp add: ring_holds_def s_def)
qed

section \<open>Counters\<close>

text \<open>The frame numbers of the completed unique presents, in order.\<close>

fun unique_frame :: "boot_event \<Rightarrow> u64 list" where
  "unique_frame (AfterPresent f False u t) = [f]"
| "unique_frame e = []"

definition frames :: "boot_event list \<Rightarrow> u64 list" where
  "frames es = concat (map unique_frame es)"


definition counters_ok :: "boot_event list \<Rightarrow> boot_progress \<Rightarrow> bool" where
  "counters_ok es b \<longleftrightarrow>
     (let s = m_snapshot b
      in presents_queued s = unique_presents_queued s + duplicate_presents_queued s \<and>
         presents_completed s = unique_presents_completed s + duplicate_presents_completed s \<and>
         unique_presents_completed s = word_of_nat (length (frames es)) \<and>
         m_have_completed_frame b = (frames es \<noteq> []) \<and>
         (frames es \<noteq> [] \<longrightarrow> m_last_completed_frame b = last (frames es)) \<and>
         (frames es \<noteq> [] \<and> sorted_wrt (<) (frames es) \<longrightarrow>
            unat (frame_sequence_gaps s) + length (frames es) = unat (last (frames es)) - unat (hd (frames es)) + 1) \<and>
         (frames es = [] \<longrightarrow> frame_sequence_gaps s = 0))"

lemma record_interval_frame:
  "frame_sequence_gaps (m_snapshot (record_interval t b)) = frame_sequence_gaps (m_snapshot b)"
  "presents_queued (m_snapshot (record_interval t b)) = presents_queued (m_snapshot b)"
  "unique_presents_queued (m_snapshot (record_interval t b)) = unique_presents_queued (m_snapshot b)"
  "duplicate_presents_queued (m_snapshot (record_interval t b)) = duplicate_presents_queued (m_snapshot b)"
  "presents_completed (m_snapshot (record_interval t b)) = presents_completed (m_snapshot b)"
  "unique_presents_completed (m_snapshot (record_interval t b)) = unique_presents_completed (m_snapshot b)"
  "duplicate_presents_completed (m_snapshot (record_interval t b)) = duplicate_presents_completed (m_snapshot b)"
  "m_have_completed_frame (record_interval t b) = m_have_completed_frame b"
  "m_last_completed_frame (record_interval t b) = m_last_completed_frame b"
  by (simp_all add: record_interval_def Let_def)

text \<open>The gap before a new frame is the number of frames skipped.\<close>

lemma gap_step:
  fixes f l :: u64 and g :: u64
  assumes "unat g + n = unat l - unat h + 1" "unat h \<le> unat l" "l < f" "1 \<le> n"
  shows "unat (if f > l + 1 then g + (f - l - 1) else g) + Suc n = unat f - unat h + 1"
proof -
  have lf: "unat l < unat f" using assms(3) by (simp add: word_less_nat_alt)
  have l1: "unat (l + 1) = unat l + 1" using assms(3) by (rule unat_Suc_less)
  have d: "unat (f - l - 1) = unat f - unat l - 1"
  proof -
    have "unat (f - l) = unat f - unat l" using assms(3) by (intro unat_sub) simp
    moreover have "1 \<le> f - l" using lf calculation by (simp add: word_le_nat_alt)
    ultimately show ?thesis by (simp add: unat_sub)
  qed
  have "unat f < 2 ^ 64" using unat_less [of f] by simp
  then have "unat g + unat (f - l - 1) < 2 ^ 64" using d assms(1,4) lf by linarith
  then have "unat (g + (f - l - 1)) = unat g + (unat f - unat l - 1)"
    using d by (subst unat_add_lem [THEN iffD1]) simp_all
  then show ?thesis using assms(1,2,4) lf l1 by (auto simp: word_less_nat_alt)
qed

lemma sorted_ends: "sorted_wrt (<) fs \<Longrightarrow> fs \<noteq> [] \<Longrightarrow> hd fs \<le> (last fs :: u64)"
  by (cases fs rule: rev_cases) (auto simp: sorted_wrt_append hd_append intro: less_imp_le split: if_splits)

lemma callback_counters:
  assumes "counters_ok es b"
  shows "counters_ok (es @ [e]) (callback e b)"
proof (cases e)
  case (AfterPresent f d u t)
  show ?thesis
  proof (cases d)
    case True
    with AfterPresent assms show ?thesis by (simp add: counters_ok_def frames_def OnAfterPresent_def Let_def)
  next
    case False
    let ?fs = "frames es" and ?s = "m_snapshot b"
    have fs: "frames (es @ [e]) = ?fs @ [f]" using AfterPresent False by (simp add: frames_def)
    let ?g = "if m_have_completed_frame b \<and> f > m_last_completed_frame b + 1
      then frame_sequence_gaps ?s + (f - m_last_completed_frame b - 1) else frame_sequence_gaps ?s"
    have g: "frame_sequence_gaps (m_snapshot (callback e b)) = ?g"
      "m_have_completed_frame (callback e b)" "m_last_completed_frame (callback e b) = f"
      using AfterPresent False by (simp_all add: OnAfterPresent_def Let_def record_interval_frame)
    have o: "presents_queued (m_snapshot (callback e b)) = presents_queued ?s"
      "unique_presents_queued (m_snapshot (callback e b)) = unique_presents_queued ?s"
      "duplicate_presents_queued (m_snapshot (callback e b)) = duplicate_presents_queued ?s"
      "presents_completed (m_snapshot (callback e b)) = presents_completed ?s + 1"
      "unique_presents_completed (m_snapshot (callback e b)) = unique_presents_completed ?s + 1"
      "duplicate_presents_completed (m_snapshot (callback e b)) = duplicate_presents_completed ?s"
      using AfterPresent False by (simp_all add: OnAfterPresent_def Let_def record_interval_frame)
    have gaps: "unat ?g + length (?fs @ [f]) = unat f - unat (hd (?fs @ [f])) + 1" if "sorted_wrt (<) (?fs @ [f])"
    proof (cases "?fs = []")
      case True
      with assms show ?thesis by (simp add: counters_ok_def Let_def)
    next
      case fn: False
      with that have so: "sorted_wrt (<) ?fs" "last ?fs < f" by (auto simp: sorted_wrt_append)
      have st: "m_have_completed_frame b" "m_last_completed_frame b = last ?fs"
        "unat (frame_sequence_gaps ?s) + length ?fs = unat (last ?fs) - unat (hd ?fs) + 1"
        using assms fn so(1) by (simp_all add: counters_ok_def Let_def)
      have "unat (hd ?fs) \<le> unat (last ?fs)" using sorted_ends [OF so(1) fn] by (simp add: word_le_nat_alt)
      from gap_step [OF st(3) this so(2)] fn have
        "unat (if f > last ?fs + 1 then frame_sequence_gaps ?s + (f - last ?fs - 1) else frame_sequence_gaps ?s) + Suc (length ?fs) =
          unat f - unat (hd ?fs) + 1" by (simp only: length_greater_0_conv Suc_le_eq One_nat_def not_False_eq_True)
      with st(1,2) fn show ?thesis by (simp only: simp_thms length_append_singleton hd_append2 not_False_eq_True)
    qed
    have "presents_queued ?s = unique_presents_queued ?s + duplicate_presents_queued ?s"
      "presents_completed ?s = unique_presents_completed ?s + duplicate_presents_completed ?s"
      "unique_presents_completed ?s = word_of_nat (length ?fs)" using assms by (simp_all add: counters_ok_def Let_def)
    then show ?thesis using gaps g(2) unfolding counters_ok_def Let_def fs g(1,3) o by simp
  qed
qed (use assms in \<open>simp_all add: counters_ok_def frames_def OnVI_def OnXFB_def OnBeforePresent_def Let_def\<close>)

lemma after_counters: "counters_ok es (after es)"
proof (induction es rule: rev_induct)
  case Nil
  show ?case by (simp add: counters_ok_def after_def BootProgress_def frames_def)
next
  case (snoc e es)
  from callback_counters [OF this, of e] show ?case by (simp add: after_def)
qed

section \<open>Properties\<close>

text \<open>
  (C29) The cadence summary is exact and stays inside its array: after any history of callbacks,
  summarising since an earlier sequence number reports the newest intervals recorded since, at
  most 512 of them, and counts the rest as lost; their sum does not overflow; the percentiles are
  the ones of nearest rank; and the slowest hundredth is summed.
\<close>

theorem cadence_summary_exact:
  assumes "length (intervals es) < 2 ^ 64" "m < length (intervals es)"
  shows "\<exists>r. SummarizeFrameCadence (Read_snapshot (after es)) (word_of_nat m) = Some r \<and>
    (let v = newest m (intervals es); k = min (length (intervals es) - m) 512; low = (k + 99) div 100
     in unat (samples r) = k \<and> unat (lost_samples r) = length (intervals es) - m - k \<and>
        unat (sum_us r) = sum_list (map unat v) \<and>
        p95_us r = sort v ! ((k * 95 + 99) div 100 - 1) \<and> p99_us r = sort v ! ((k * 99 + 99) div 100 - 1) \<and>
        unat (low_count r) = low \<and> unat (low_sum r) = sum_list (map unat (drop (k - low) (sort v))))"
proof -
  let ?xs = "intervals es" and ?s = "m_snapshot (after es)"
  have q: "present_interval_sequence ?s = word_of_nat (length ?xs)" using after_ring [of es] by (simp add: ring_holds_def)
  define n where "n = min (present_interval_sequence ?s - word_of_nat m) 512"
  note c = sample_counts [OF assms, folded q, folded n_def]
  note vals = ring_newest [OF after_ring assms, folded n_def]
  define v where "v = newest m ?xs"
  have k: "unat n = min (length ?xs - m) 512" "1 \<le> unat n" "unat n \<le> 512" using c(3) assms(2) by auto
  have len: "length (sort v) = unat n" "length v = unat n" using k(1) by (simp_all add: v_def length_newest)
  define low where "low = max ((n + 99) div 100) 1"
  let ?zs = "replicate (512 - unat n) 0"
  note p = percentile_value [OF len(1) k(2,3), of 95 ?zs] percentile_value [OF len(1) k(2,3), of 99 ?zs]
  note l = lows_value(1) [OF len(1) k(2,3), folded low_def] lows_value(2) [OF len(1) k(2,3), of ?zs, folded low_def]
  have "SummarizeFrameCadence ?s (word_of_nat m) =
      Some \<lparr>samples = n, lost_samples = present_interval_sequence ?s - word_of_nat m - n, sum_us = sum64 v,
        p95_us = sort v ! ((unat n * 95 + 99) div 100 - 1), p99_us = sort v ! ((unat n * 99 + 99) div 100 - 1),
        low_count = low, low_sum = sum64 (drop (unat n - unat low) (sort v))\<rparr>"
    using c(1) p l(2) unfolding SummarizeFrameCadence_def
    by (simp add: Let_def field_defs n_def [symmetric] vals v_def [symmetric] low_def [symmetric])
  moreover have "unat (sum64 v) = sum_list (map unat v)" using len k(3) by (intro sum64_bound) simp
  moreover have "unat (sum64 (drop (unat n - unat low) (sort v))) = sum_list (map unat (drop (unat n - unat low) (sort v)))"
    using len k(3) by (intro sum64_bound) simp
  moreover note c(4) l(1)
  ultimately show ?thesis unfolding Read_snapshot_def Let_def v_def [symmetric] k(1) [symmetric]
    by (auto simp only: option.inject cadence_summary.select_convs simp_thms ex_simps)
qed

definition sample_events :: "boot_event list" where
  "sample_events = [AfterPresent 1 False no_usage 1000000, BeforePresent 640 480 False, AfterPresent 2 False no_usage 17000000,
     AfterPresent 2 True no_usage 18000000, AfterPresent 5 False no_usage 50000000]"

theorem cadence_summary_exact_witness:
  "\<exists>r. SummarizeFrameCadence (Read_snapshot (after sample_events)) (word_of_nat 0) = Some r \<and>
    unat (samples r) = 2 \<and> p99_us r = 33000"
proof -
  have i: "intervals sample_events = [16000, 33000]"
    by (simp add: intervals_def sample_events_def microseconds_def bounded_interval_def min_def)
  have "newest 0 [16000, 33000] = [16000, 33000 :: u32]" by (simp add: newest_def)
  moreover have "sort [16000, 33000 :: u32] = [16000, 33000]" by (simp add: word_le_nat_alt)
  ultimately show ?thesis
    using cadence_summary_exact [of sample_events 0] by (auto simp: i Let_def)
qed

text \<open>
  The counters of the boot report are consistent after any history: queued and completed
  presents are the unique and the duplicate ones together, and while the frame numbers of the
  unique presents increase, the recorded gaps are exactly the frame numbers between the first and
  the last that were never presented.
\<close>

theorem boot_counters_consistent:
  fixes es :: "boot_event list"
  defines "s \<equiv> Read_snapshot (after es)"
  shows "presents_queued s = unique_presents_queued s + duplicate_presents_queued s \<and>
    presents_completed s = unique_presents_completed s + duplicate_presents_completed s \<and>
    (frames es \<noteq> [] \<and> sorted_wrt (<) (frames es) \<longrightarrow>
      unat (frame_sequence_gaps s) + length (frames es) = unat (last (frames es)) - unat (hd (frames es)) + 1)"
  using after_counters [of es] by (simp add: counters_ok_def s_def Read_snapshot_def Let_def)

theorem boot_counters_consistent_witness:
  "unat (frame_sequence_gaps (Read_snapshot (after sample_events))) + 3 = 5"
proof -
  have "frames sample_events = [1, 2, 5]" by (simp add: frames_def sample_events_def)
  then show ?thesis using boot_counters_consistent [of sample_events] by (simp add: word_less_nat_alt)
qed

end
