(* ===== verification/Gekko.thy ===== *)
theory Gekko
  imports Bit_Field
begin

text \<open>
  \<^verbatim>\<open>Core/PowerPC/Gekko.h\<close>: the fields of an instruction word, the mask of the
  rotate instructions, the fields of the machine, exception, floating-point status and control
  registers that the interpreter reads, and the numbers of the special registers. A register
  number has the width of its field, so that a register file, an array of \<open>2 ^ k\<close>
  elements, is a function of it. The lemmas give the bits of the rotation mask and read a
  one-bit register field as a bit.
\<close>

section \<open>Instruction fields\<close>

definition Rc :: "u32 \<Rightarrow> bool" where "Rc inst = bit inst 0"
definition SUBOP10 :: "u32 \<Rightarrow> 10 word" where "SUBOP10 inst = ucast (drop_bit 1 inst)"
definition SUBOP5 :: "u32 \<Rightarrow> 5 word" where "SUBOP5 inst = ucast (drop_bit 1 inst)"
definition RB :: "u32 \<Rightarrow> 5 word" where "RB inst = ucast (drop_bit 11 inst)"
definition RA :: "u32 \<Rightarrow> 5 word" where "RA inst = ucast (drop_bit 16 inst)"
definition RD :: "u32 \<Rightarrow> 5 word" where "RD inst = ucast (drop_bit 21 inst)"
definition RS :: "u32 \<Rightarrow> 5 word" where "RS inst = ucast (drop_bit 21 inst)"
definition OPCD :: "u32 \<Rightarrow> 6 word" where "OPCD inst = ucast (drop_bit 26 inst)"

text \<open>The signed 16-bit immediate, as the 32-bit value its conversion to \<^verbatim>\<open>u32\<close> gives.\<close>

definition SIMM_16 :: "u32 \<Rightarrow> u32" where "SIMM_16 inst = scast (ucast inst :: u16)"
definition UIMM :: "u32 \<Rightarrow> u32" where "UIMM inst = ucast (ucast inst :: u16)"
definition TO :: "u32 \<Rightarrow> u32" where "TO inst = ucast (ucast (drop_bit 21 inst) :: 5 word)"

definition LK :: "u32 \<Rightarrow> bool" where "LK inst = bit inst 0"
definition AA :: "u32 \<Rightarrow> bool" where "AA inst = bit inst 1"
definition LI :: "u32 \<Rightarrow> u32" where "LI inst = ucast (ucast (drop_bit 2 inst) :: 24 word)"
definition BD :: "u32 \<Rightarrow> u32" where "BD inst = ucast (ucast (drop_bit 2 inst) :: 14 word)"
definition BI :: "u32 \<Rightarrow> u32" where "BI inst = ucast (ucast (drop_bit 16 inst) :: 5 word)"
definition BO :: "u32 \<Rightarrow> u32" where "BO inst = ucast (ucast (drop_bit 21 inst) :: 5 word)"

definition CRFD :: "u32 \<Rightarrow> u32" where "CRFD inst = ucast (ucast (drop_bit 23 inst) :: 3 word)"
definition CRFS :: "u32 \<Rightarrow> u32" where "CRFS inst = ucast (ucast (drop_bit 18 inst) :: 3 word)"
definition SR_field :: "u32 \<Rightarrow> 4 word" where "SR_field inst = ucast (drop_bit 16 inst)"
definition OE :: "u32 \<Rightarrow> bool" where "OE inst = bit inst 10"
definition SPR_field :: "u32 \<Rightarrow> u32" where "SPR_field inst = ucast (ucast (drop_bit 11 inst) :: 10 word)"
definition SPRU :: "u32 \<Rightarrow> u32" where "SPRU inst = ucast (ucast (drop_bit 11 inst) :: 5 word)"
definition SPRL :: "u32 \<Rightarrow> u32" where "SPRL inst = ucast (ucast (drop_bit 16 inst) :: 5 word)"
definition ME :: "u32 \<Rightarrow> u32" where "ME inst = ucast (ucast (drop_bit 1 inst) :: 5 word)"
definition MB :: "u32 \<Rightarrow> u32" where "MB inst = ucast (ucast (drop_bit 6 inst) :: 5 word)"
definition SH :: "u32 \<Rightarrow> u32" where "SH inst = ucast (ucast (drop_bit 11 inst) :: 5 word)"
definition CRBB :: "u32 \<Rightarrow> u32" where "CRBB inst = ucast (ucast (drop_bit 11 inst) :: 5 word)"
definition CRBA :: "u32 \<Rightarrow> u32" where "CRBA inst = ucast (ucast (drop_bit 16 inst) :: 5 word)"
definition CRBD :: "u32 \<Rightarrow> u32" where "CRBD inst = ucast (ucast (drop_bit 21 inst) :: 5 word)"
definition CRM :: "u32 \<Rightarrow> u32" where "CRM inst = ucast (ucast (drop_bit 12 inst) :: u8)"
definition FD :: "u32 \<Rightarrow> 5 word" where "FD inst = ucast (drop_bit 21 inst)"
definition FB :: "u32 \<Rightarrow> 5 word" where "FB inst = ucast (drop_bit 11 inst)"
definition FS :: "u32 \<Rightarrow> 5 word" where "FS inst = ucast (drop_bit 21 inst)"
definition NB :: "u32 \<Rightarrow> u32" where "NB inst = ucast (ucast (drop_bit 11 inst) :: 5 word)"
definition FM :: "u32 \<Rightarrow> u32" where "FM inst = ucast (ucast (drop_bit 17 inst) :: u8)"

definition SignExt16 :: "u16 \<Rightarrow> u32" where
  "SignExt16 x = scast x"

definition SignExt26 :: "u32 \<Rightarrow> u32" where
  "SignExt26 x = (if x AND 0x2000000 \<noteq> 0 then x OR 0xFC000000 else x)"

definition MakeRotationMask :: "u32 \<Rightarrow> u32 \<Rightarrow> u32" where
  "MakeRotationMask mb me =
     (let begin = drop_bit (unat mb) 0xFFFFFFFF;
          end' = drop_bit (unat me) 0x7FFFFFFF;
          mask = begin XOR end'
      in if me < mb then NOT mask else mask)"

section \<open>Register fields\<close>

definition XER_BYTE_COUNT :: "u32 \<Rightarrow> u32" where "XER_BYTE_COUNT = field_get 0 7"
definition XER_BYTE_CMP :: "u32 \<Rightarrow> u32" where "XER_BYTE_CMP = field_get 8 8"
definition XER_CA :: "u32 \<Rightarrow> u32" where "XER_CA = field_get 29 1"
definition XER_OV :: "u32 \<Rightarrow> u32" where "XER_OV = field_get 30 1"
definition XER_SO :: "u32 \<Rightarrow> u32" where "XER_SO = field_get 31 1"

definition XER_CA_SHIFT :: nat where "XER_CA_SHIFT = 29"
definition XER_OV_SHIFT :: nat where "XER_OV_SHIFT = 30"

definition MSR_LE :: "u32 \<Rightarrow> u32" where "MSR_LE = field_get 0 1"
definition MSR_set_LE :: "u32 \<Rightarrow> u32 \<Rightarrow> u32" where "MSR_set_LE = field_set 0 1"
definition MSR_DR :: "u32 \<Rightarrow> u32" where "MSR_DR = field_get 4 1"
definition MSR_IR :: "u32 \<Rightarrow> u32" where "MSR_IR = field_get 5 1"
definition MSR_FE1 :: "u32 \<Rightarrow> u32" where "MSR_FE1 = field_get 8 1"
definition MSR_FE0 :: "u32 \<Rightarrow> u32" where "MSR_FE0 = field_get 11 1"
definition MSR_FP :: "u32 \<Rightarrow> u32" where "MSR_FP = field_get 13 1"
definition MSR_PR :: "u32 \<Rightarrow> u32" where "MSR_PR = field_get 14 1"
definition MSR_EE :: "u32 \<Rightarrow> u32" where "MSR_EE = field_get 15 1"
definition MSR_ILE :: "u32 \<Rightarrow> u32" where "MSR_ILE = field_get 16 1"

definition FPSCR_RN :: "u32 \<Rightarrow> u32" where "FPSCR_RN = field_get 0 2"
definition FPSCR_NI :: "u32 \<Rightarrow> u32" where "FPSCR_NI = field_get 2 1"
definition FPSCR_get_OX :: "u32 \<Rightarrow> u32" where "FPSCR_get_OX = field_get 28 1"
definition FPSCR_get_VX :: "u32 \<Rightarrow> u32" where "FPSCR_get_VX = field_get 29 1"
definition FPSCR_get_FEX :: "u32 \<Rightarrow> u32" where "FPSCR_get_FEX = field_get 30 1"
definition FPSCR_get_FX :: "u32 \<Rightarrow> u32" where "FPSCR_get_FX = field_get 31 1"
definition FPSCR_set_VX :: "u32 \<Rightarrow> u32 \<Rightarrow> u32" where "FPSCR_set_VX = field_set 29 1"
definition FPSCR_set_FEX :: "u32 \<Rightarrow> u32 \<Rightarrow> u32" where "FPSCR_set_FEX = field_set 30 1"
definition FPSCR_set_FX :: "u32 \<Rightarrow> u32 \<Rightarrow> u32" where "FPSCR_set_FX = field_set 31 1"

text \<open>The exception flags: bit \<open>31 - k\<close> of the register for the PowerPC bit \<open>k\<close>.\<close>

definition FPSCR_FX :: u32 where "FPSCR_FX = push_bit (31 - 0) 1"
definition FPSCR_VX_ANY :: u32 where
  "FPSCR_VX_ANY =
     push_bit (31 - 7) 1 OR push_bit (31 - 8) 1 OR push_bit (31 - 9) 1 OR
     push_bit (31 - 10) 1 OR push_bit (31 - 11) 1 OR push_bit (31 - 12) 1 OR
     push_bit (31 - 21) 1 OR push_bit (31 - 22) 1 OR push_bit (31 - 23) 1"
definition FPSCR_ANY_X :: u32 where
  "FPSCR_ANY_X =
     push_bit (31 - 3) 1 OR push_bit (31 - 4) 1 OR push_bit (31 - 5) 1 OR
     push_bit (31 - 6) 1 OR FPSCR_VX_ANY"
definition FPSCR_ANY_E :: u32 where
  "FPSCR_ANY_E =
     push_bit (31 - 24) 1 OR push_bit (31 - 25) 1 OR push_bit (31 - 26) 1 OR
     push_bit (31 - 27) 1 OR push_bit (31 - 28) 1"
definition FPSCR_mask :: u32 where "FPSCR_mask = 0xFFFFF7FF"

definition HID0_ICFI :: "u32 \<Rightarrow> u32" where "HID0_ICFI = field_get 11 1"
definition HID0_set_ICFI :: "u32 \<Rightarrow> u32 \<Rightarrow> u32" where "HID0_set_ICFI = field_set 11 1"
definition HID0_DCE :: "u32 \<Rightarrow> u32" where "HID0_DCE = field_get 14 1"
definition HID2_LCE :: "u32 \<Rightarrow> u32" where "HID2_LCE = field_get 28 1"
definition HID2_PSE :: "u32 \<Rightarrow> u32" where "HID2_PSE = field_get 29 1"
definition HID2_LSQE :: "u32 \<Rightarrow> u32" where "HID2_LSQE = field_get 31 1"
definition MMCR0_PMC2SELECT :: "u32 \<Rightarrow> u32" where "MMCR0_PMC2SELECT = field_get 0 6"
definition MMCR0_PMC1SELECT :: "u32 \<Rightarrow> u32" where "MMCR0_PMC1SELECT = field_get 6 7"
definition MMCR0_PMCINTCONTROL :: "u32 \<Rightarrow> u32" where "MMCR0_PMCINTCONTROL = field_get 14 1"
definition MMCR0_PMC1INTCONTROL :: "u32 \<Rightarrow> u32" where "MMCR0_PMC1INTCONTROL = field_get 15 1"
definition MMCR1_PMC4SELECT :: "u32 \<Rightarrow> u32" where "MMCR1_PMC4SELECT = field_get 22 5"
definition MMCR1_PMC3SELECT :: "u32 \<Rightarrow> u32" where "MMCR1_PMC3SELECT = field_get 27 5"
definition DMAU_DMA_LEN_U :: "u32 \<Rightarrow> u32" where "DMAU_DMA_LEN_U = field_get 0 5"
definition DMAU_MEM_ADDR :: "u32 \<Rightarrow> u32" where "DMAU_MEM_ADDR = field_get 5 27"
definition DMAL_DMA_T :: "u32 \<Rightarrow> u32" where "DMAL_DMA_T = field_get 1 1"
definition DMAL_set_DMA_T :: "u32 \<Rightarrow> u32 \<Rightarrow> u32" where "DMAL_set_DMA_T = field_set 1 1"
definition DMAL_DMA_LEN_L :: "u32 \<Rightarrow> u32" where "DMAL_DMA_LEN_L = field_get 2 2"
definition DMAL_DMA_LD :: "u32 \<Rightarrow> u32" where "DMAL_DMA_LD = field_get 4 1"
definition DMAL_LC_ADDR :: "u32 \<Rightarrow> u32" where "DMAL_LC_ADDR = field_get 5 27"
definition THRM12_V :: "u32 \<Rightarrow> u32" where "THRM12_V = field_get 0 1"
definition THRM12_TID :: "u32 \<Rightarrow> u32" where "THRM12_TID = field_get 2 1"
definition THRM12_THRESHOLD :: "u32 \<Rightarrow> u32" where "THRM12_THRESHOLD = field_get 23 7"
definition THRM12_set_TIV :: "u32 \<Rightarrow> u32 \<Rightarrow> u32" where "THRM12_set_TIV = field_set 30 1"
definition THRM12_set_TIN :: "u32 \<Rightarrow> u32 \<Rightarrow> u32" where "THRM12_set_TIN = field_set 31 1"
definition THRM3_E :: "u32 \<Rightarrow> u32" where "THRM3_E = field_get 0 1"

lemmas msr_defs = MSR_LE_def MSR_set_LE_def MSR_DR_def MSR_IR_def MSR_FE1_def MSR_FE0_def
  MSR_FP_def MSR_PR_def MSR_EE_def MSR_ILE_def

section \<open>Special registers and exceptions\<close>

type_synonym spr_index = "10 word"

definition SPR_XER :: spr_index where "SPR_XER = 1"
definition SPR_LR :: spr_index where "SPR_LR = 8"
definition SPR_CTR :: spr_index where "SPR_CTR = 9"
definition SPR_DAR :: spr_index where "SPR_DAR = 19"
definition SPR_DEC :: spr_index where "SPR_DEC = 22"
definition SPR_SDR :: spr_index where "SPR_SDR = 25"
definition SPR_SRR0 :: spr_index where "SPR_SRR0 = 26"
definition SPR_SRR1 :: spr_index where "SPR_SRR1 = 27"
definition SPR_TL :: spr_index where "SPR_TL = 268"
definition SPR_TU :: spr_index where "SPR_TU = 269"
definition SPR_EAR :: spr_index where "SPR_EAR = 282"
definition SPR_TL_W :: spr_index where "SPR_TL_W = 284"
definition SPR_TU_W :: spr_index where "SPR_TU_W = 285"
definition SPR_PVR :: spr_index where "SPR_PVR = 287"
definition SPR_IBAT0U :: spr_index where "SPR_IBAT0U = 528"
definition SPR_IBAT3L :: spr_index where "SPR_IBAT3L = 535"
definition SPR_DBAT0U :: spr_index where "SPR_DBAT0U = 536"
definition SPR_DBAT3L :: spr_index where "SPR_DBAT3L = 543"
definition SPR_IBAT4U :: spr_index where "SPR_IBAT4U = 560"
definition SPR_IBAT7L :: spr_index where "SPR_IBAT7L = 567"
definition SPR_DBAT4U :: spr_index where "SPR_DBAT4U = 568"
definition SPR_DBAT7L :: spr_index where "SPR_DBAT7L = 575"
definition SPR_HID0 :: spr_index where "SPR_HID0 = 1008"
definition SPR_HID1 :: spr_index where "SPR_HID1 = 1009"
definition SPR_HID2 :: spr_index where "SPR_HID2 = 920"
definition SPR_HID4 :: spr_index where "SPR_HID4 = 1011"
definition SPR_IABR :: spr_index where "SPR_IABR = 1010"
definition SPR_WPAR :: spr_index where "SPR_WPAR = 921"
definition SPR_DMAU :: spr_index where "SPR_DMAU = 922"
definition SPR_DMAL :: spr_index where "SPR_DMAL = 923"
definition SPR_UPMC1 :: spr_index where "SPR_UPMC1 = 937"
definition SPR_UPMC2 :: spr_index where "SPR_UPMC2 = 938"
definition SPR_UPMC3 :: spr_index where "SPR_UPMC3 = 941"
definition SPR_UPMC4 :: spr_index where "SPR_UPMC4 = 942"
definition SPR_MMCR0 :: spr_index where "SPR_MMCR0 = 952"
definition SPR_PMC1 :: spr_index where "SPR_PMC1 = 953"
definition SPR_PMC2 :: spr_index where "SPR_PMC2 = 954"
definition SPR_MMCR1 :: spr_index where "SPR_MMCR1 = 956"
definition SPR_PMC3 :: spr_index where "SPR_PMC3 = 957"
definition SPR_PMC4 :: spr_index where "SPR_PMC4 = 958"
definition SPR_THRM1 :: spr_index where "SPR_THRM1 = 1020"
definition SPR_THRM2 :: spr_index where "SPR_THRM2 = 1021"
definition SPR_THRM3 :: spr_index where "SPR_THRM3 = 1022"

lemmas spr_defs = SPR_XER_def SPR_LR_def SPR_CTR_def SPR_DAR_def SPR_DEC_def SPR_SDR_def
  SPR_SRR0_def SPR_SRR1_def SPR_TL_def SPR_TU_def SPR_TL_W_def SPR_TU_W_def SPR_PVR_def
  SPR_IBAT0U_def SPR_IBAT3L_def SPR_DBAT0U_def SPR_DBAT3L_def SPR_IBAT4U_def SPR_IBAT7L_def
  SPR_DBAT4U_def SPR_DBAT7L_def SPR_HID0_def SPR_HID1_def SPR_HID2_def SPR_HID4_def
  SPR_IABR_def SPR_WPAR_def SPR_DMAU_def SPR_DMAL_def SPR_UPMC1_def SPR_UPMC2_def
  SPR_UPMC3_def SPR_UPMC4_def SPR_MMCR0_def SPR_PMC1_def SPR_PMC2_def SPR_MMCR1_def
  SPR_PMC3_def SPR_PMC4_def SPR_THRM1_def SPR_THRM2_def SPR_THRM3_def SPR_EAR_def

definition EXCEPTION_DECREMENTER :: u32 where "EXCEPTION_DECREMENTER = 0x00000001"
definition EXCEPTION_SYSCALL :: u32 where "EXCEPTION_SYSCALL = 0x00000002"
definition EXCEPTION_EXTERNAL_INT :: u32 where "EXCEPTION_EXTERNAL_INT = 0x00000004"
definition EXCEPTION_DSI :: u32 where "EXCEPTION_DSI = 0x00000008"
definition EXCEPTION_ISI :: u32 where "EXCEPTION_ISI = 0x00000010"
definition EXCEPTION_ALIGNMENT :: u32 where "EXCEPTION_ALIGNMENT = 0x00000020"
definition EXCEPTION_FPU_UNAVAILABLE :: u32 where "EXCEPTION_FPU_UNAVAILABLE = 0x00000040"
definition EXCEPTION_PROGRAM :: u32 where "EXCEPTION_PROGRAM = 0x00000080"
definition EXCEPTION_PERFORMANCE_MONITOR :: u32 where
  "EXCEPTION_PERFORMANCE_MONITOR = 0x00000100"
definition EXCEPTION_FAKE_MEMCHECK_HIT :: u32 where "EXCEPTION_FAKE_MEMCHECK_HIT = 0x00000200"

lemmas exception_defs = EXCEPTION_DECREMENTER_def EXCEPTION_SYSCALL_def
  EXCEPTION_EXTERNAL_INT_def EXCEPTION_DSI_def EXCEPTION_ISI_def EXCEPTION_ALIGNMENT_def
  EXCEPTION_FPU_UNAVAILABLE_def EXCEPTION_PROGRAM_def EXCEPTION_PERFORMANCE_MONITOR_def
  EXCEPTION_FAKE_MEMCHECK_HIT_def

definition FEATURE_FLAG_PERFMON :: u32 where "FEATURE_FLAG_PERFMON = push_bit 2 1"

definition BO_DONT_DECREMENT_FLAG :: u32 where "BO_DONT_DECREMENT_FLAG = 4"

section \<open>Lemmas\<close>

lemma field_get_1: "p < 32 \<Longrightarrow> field_get p 1 (w :: u32) = of_bool (bit w p)"
  by (rule bit_word_eqI) (auto simp: bit_field_get bit_1_iff)

lemmas field_get_Suc_0 = field_get_1 [unfolded One_nat_def]

lemma low_mask32: "(0xFFFFFFFF :: u32) = mask 32" "(0x7FFFFFFF :: u32) = mask 31"
  by (simp_all add: mask_eq_exp_minus_1)

text \<open>
  The rotation mask of \<^verbatim>\<open>rlwinm\<close> and its relatives, with bit 0 the most
  significant one: the bits from \<open>mb\<close> to \<open>me\<close> are set, and when \<open>me\<close> comes before
  \<open>mb\<close> the range wraps around the end of the word.
\<close>

theorem rotation_mask_bits:
  assumes "mb < 32" "me < 32" "i < 32"
  shows "bit (MakeRotationMask mb me) (31 - i) \<longleftrightarrow>
    (if mb \<le> me then unat mb \<le> i \<and> i \<le> unat me else unat mb \<le> i \<or> i \<le> unat me)"
proof -
  have b: "unat mb < 32" "unat me < 32" using assms by (simp_all add: word_less_nat_alt)
  have "bit (drop_bit (unat mb) (0xFFFFFFFF :: u32)) (31 - i) \<longleftrightarrow> unat mb \<le> i"
    using b assms unfolding low_mask32 by (auto simp: bit_simps)
  moreover have "bit (drop_bit (unat me) (0x7FFFFFFF :: u32)) (31 - i) \<longleftrightarrow> unat me < i"
    using b assms unfolding low_mask32 by (auto simp: bit_simps)
  ultimately show ?thesis
    using assms unfolding MakeRotationMask_def Let_def
    by (auto simp: bit_xor_iff bit_not_iff word_le_nat_alt word_less_nat_alt)
qed

lemma rotation_mask_bits_witness:
  "bit (MakeRotationMask 28 3) (31 - 30) \<and> \<not> bit (MakeRotationMask 28 3) (31 - 4)"
  using rotation_mask_bits [of 28 3 30] rotation_mask_bits [of 28 3 4] by simp

end
