(* ===== verification/Condition_Register.thy ===== *)
theory Condition_Register
  imports Prelude
begin

text \<open>
  The condition register of \<^verbatim>\<open>Core/PowerPC/ConditionRegister.h\<close> and
  \<^verbatim>\<open>.cpp\<close>: the eight 4-bit fields of the PowerPC register, each kept as a 64-bit
  value from which the four flags are read. An array of \<open>2 ^ k\<close> elements is a function of a
  \<open>k\<close>-bit index, here and in the register files of the processor. The lemmas show that the
  representation loses nothing: a field, a bit or the whole register that is set is read
  back, and a sign-extended result stands for the flags of its value.
\<close>

section \<open>Definitions\<close>

definition CR_SO :: u32 where "CR_SO = 1"
definition CR_EQ :: u32 where "CR_EQ = 2"
definition CR_GT :: u32 where "CR_GT = 4"
definition CR_LT :: u32 where "CR_LT = 8"

definition CR_SO_BIT :: nat where "CR_SO_BIT = 0"
definition CR_EQ_BIT :: nat where "CR_EQ_BIT = 1"
definition CR_GT_BIT :: nat where "CR_GT_BIT = 2"
definition CR_LT_BIT :: nat where "CR_LT_BIT = 3"
definition CR_EMU_SO_BIT :: nat where "CR_EMU_SO_BIT = 59"
definition CR_EMU_LT_BIT :: nat where "CR_EMU_LT_BIT = 62"

named_theorems cr_defs \<open>constants of the condition register\<close>
declare CR_SO_def [cr_defs] CR_EQ_def [cr_defs] CR_GT_def [cr_defs] CR_LT_def [cr_defs]
  CR_SO_BIT_def [cr_defs] CR_EQ_BIT_def [cr_defs] CR_GT_BIT_def [cr_defs]
  CR_LT_BIT_def [cr_defs] CR_EMU_SO_BIT_def [cr_defs] CR_EMU_LT_BIT_def [cr_defs]

type_synonym cr_fields = "3 word \<Rightarrow> u64"

definition PPCToInternal :: "u8 \<Rightarrow> u64" where
  "PPCToInternal value =
     (let cr_val = 0x100000000;
          cr_val = cr_val OR push_bit CR_EMU_SO_BIT (of_bool (value AND ucast CR_SO \<noteq> 0));
          cr_val = cr_val OR of_bool (\<not> (value AND ucast CR_EQ \<noteq> 0));
          cr_val = cr_val OR push_bit 63 (of_bool (\<not> (value AND ucast CR_GT \<noteq> 0)));
          cr_val = cr_val OR push_bit CR_EMU_LT_BIT (of_bool (value AND ucast CR_LT \<noteq> 0))
      in cr_val)"

definition s_crTable :: "u64 list" where
  "s_crTable = map PPCToInternal
     [0x0, 0x1, 0x2, 0x3, 0x4, 0x5, 0x6, 0x7, 0x8, 0x9, 0xA, 0xB, 0xC, 0xD, 0xE, 0xF]"

definition SetField :: "u32 \<Rightarrow> u32 \<Rightarrow> cr_fields \<Rightarrow> cr_fields" where
  "SetField cr_field value fields = fields(ucast cr_field := s_crTable ! unat value)"

definition GetField :: "cr_fields \<Rightarrow> u32 \<Rightarrow> u32" where
  "GetField fields cr_field =
     (let cr_val = fields (ucast cr_field);
          ppc_cr = 0;
          ppc_cr = ppc_cr OR (ucast (drop_bit CR_EMU_SO_BIT cr_val) AND (CR_LT OR CR_SO));
          ppc_cr = ppc_cr OR push_bit CR_EQ_BIT (of_bool (cr_val AND 0xFFFFFFFF = 0));
          ppc_cr = ppc_cr OR push_bit CR_GT_BIT (of_bool (sint cr_val > 0))
      in ppc_cr)"

definition GetBit :: "cr_fields \<Rightarrow> u32 \<Rightarrow> u32" where
  "GetBit fields b = drop_bit (3 - unat (b AND 3)) (GetField fields (drop_bit 2 b)) AND 1"

definition CR_SetBit :: "u32 \<Rightarrow> u32 \<Rightarrow> cr_fields \<Rightarrow> cr_fields" where
  "CR_SetBit b value fields =
     (if value AND 1 \<noteq> 0
      then SetField (drop_bit 2 b)
             (GetField fields (drop_bit 2 b) OR drop_bit (unat (b AND 3)) 0x8) fields
      else SetField (drop_bit 2 b)
             (GetField fields (drop_bit 2 b) AND NOT (drop_bit (unat (b AND 3)) 0x8)) fields)"

definition CR_Get :: "cr_fields \<Rightarrow> u32" where
  "CR_Get fields =
     fold (\<lambda>i new_cr. new_cr OR push_bit (28 - i * 4) (GetField fields (word_of_nat i))) [0..<8] 0"

definition CR_Set :: "u32 \<Rightarrow> cr_fields \<Rightarrow> cr_fields" where
  "CR_Set cr fields =
     fold (\<lambda>i. SetField (word_of_nat i) (drop_bit (28 - i * 4) cr AND 0xF)) [0..<8] fields"

section \<open>The flags a field stands for\<close>

text \<open>The four flags as bits of the 64-bit value.\<close>

definition cr_flags :: "u64 \<Rightarrow> u32" where
  "cr_flags w =
     (if bit w 62 then 8 else 0) OR (if \<not> bit w 63 \<and> w \<noteq> 0 then 4 else 0) OR
     (if take_bit 32 w = 0 then 2 else 0) OR (if bit w 59 then 1 else 0)"

lemma sint_pos_iff: "sint (w :: u64) > 0 \<longleftrightarrow> \<not> bit w 63 \<and> w \<noteq> 0"
proof -
  have "bit w 63 \<longleftrightarrow> sint w < 0" using bit_last_iff [of w] by simp
  moreover have "sint w = 0 \<longleftrightarrow> w = 0" by (metis signed_0 signed_word_eqI)
  ultimately show ?thesis by linarith
qed

lemma and_low32: "(w :: u64) AND 0xFFFFFFFF = take_bit 32 w"
  by (simp add: take_bit_eq_mask mask_eq_exp_minus_1)

lemma bit_8: "bit (8 :: int) i \<longleftrightarrow> i = 3"
  using bit_exp_iff [where 'a = int, of 3 i] by auto

lemma bit_9: "bit (9 :: int) i \<longleftrightarrow> i = 0 \<or> i = 3"
proof -
  have "(9 :: int) = 8 OR 1" by simp
  then show ?thesis by (simp only: bit_or_iff bit_8 bit_1_iff) auto
qed

lemma flags_SO_LT:
  "ucast (drop_bit 59 (w :: u64)) AND (9 :: u32) =
     (if bit w 62 then 8 else 0) OR (if bit w 59 then 1 else 0)"
  by (rule bit_word_eqI) (auto simp: bit_simps bit_9 bit_8 intro!: gr0I)

lemma GetField_flags: "GetField fields f = cr_flags (fields (ucast f))"
  by (simp add: GetField_def cr_flags_def Let_def cr_defs sint_pos_iff and_low32 flags_SO_LT
      or.assoc or.left_commute or.commute)


lemma cr_flags_less: "cr_flags w < 16"
  by (simp add: cr_flags_def)

lemma GetField_less: "GetField fields f < 16"
  by (simp add: GetField_flags cr_flags_less)

lemma u32_less_16_cases:
  assumes "(v :: u32) < 16"
  shows "v = 0 \<or> v = 1 \<or> v = 2 \<or> v = 3 \<or> v = 4 \<or> v = 5 \<or> v = 6 \<or> v = 7 \<or>
    v = 8 \<or> v = 9 \<or> v = 10 \<or> v = 11 \<or> v = 12 \<or> v = 13 \<or> v = 14 \<or> v = 15"
proof -
  have "v = word_of_nat (unat v)" by simp
  moreover have "unat v < 16" using assms by (simp add: word_less_nat_alt)
  then have "unat v \<in> {0, 1, 2, 3, 4, 5, 6, 7, 8, 9, 10, 11, 12, 13, 14, 15}" by (simp; arith)
  ultimately show ?thesis by (elim insertE) (auto)
qed

lemma cr_flags_table: "v < 16 \<Longrightarrow> cr_flags (s_crTable ! unat v) = v"
  by (drule u32_less_16_cases, elim disjE)
    (simp_all add: cr_flags_def s_crTable_def PPCToInternal_def Let_def cr_defs)

section \<open>Fields and bits are read back\<close>

lemma GetField_SetField:
  assumes "v < 16"
  shows "GetField (SetField f v fields) g = (if ucast f = (ucast g :: 3 word) then v else GetField fields g)"
  using assms by (simp add: GetField_flags SetField_def cr_flags_table)

lemma and_15: "(x :: u32) AND 15 = take_bit 4 x"
  by (simp add: take_bit_eq_mask mask_eq_exp_minus_1)

lemma take_bit_4_less: "take_bit 4 (x :: u32) < 16"
  by (simp add: word_less_nat_alt unsigned_take_bit_eq take_bit_nat_less_exp [of 4, simplified])

lemma upt_8: "[0..<8] = [0, 1, 2, 3, 4, 5, 6, 7]"
  by (simp add: upt_conv_Cons)

lemma join_take_bit:
  "push_bit n (take_bit m (drop_bit n x)) OR take_bit n x = take_bit (n + m) (x :: 'a::len word)"
  by (rule bit_word_eqI) (auto simp: bit_simps)

lemmas join_nibble = join_take_bit [where m = 4, simplified]

lemma CR_Set_unfold:
  "CR_Set x fields =
     SetField 7 (take_bit 4 x) (SetField 6 (take_bit 4 (drop_bit 4 x))
    (SetField 5 (take_bit 4 (drop_bit 8 x)) (SetField 4 (take_bit 4 (drop_bit 12 x))
    (SetField 3 (take_bit 4 (drop_bit 16 x)) (SetField 2 (take_bit 4 (drop_bit 20 x))
    (SetField 1 (take_bit 4 (drop_bit 24 x)) (SetField 0 (take_bit 4 (drop_bit 28 x)) fields)))))))"
  by (simp add: CR_Set_def and_15 upt_8)

lemma CR_Get_unfold:
  "CR_Get fields =
     push_bit 28 (GetField fields 0) OR push_bit 24 (GetField fields 1) OR
     push_bit 20 (GetField fields 2) OR push_bit 16 (GetField fields 3) OR
     push_bit 12 (GetField fields 4) OR push_bit 8 (GetField fields 5) OR
     push_bit 4 (GetField fields 6) OR GetField fields 7"
  by (simp add: CR_Get_def or.assoc upt_8)

text \<open>
  (C34) Writing a 32-bit value to the condition register and reading it back gives the value,
  whatever the eight 64-bit fields held before; the register can hold all of them.
\<close>

theorem CR_Get_Set: "CR_Get (CR_Set x fields) = x"
proof -
  have "CR_Get (CR_Set x fields) =
     push_bit 28 (take_bit 4 (drop_bit 28 x)) OR push_bit 24 (take_bit 4 (drop_bit 24 x)) OR
     push_bit 20 (take_bit 4 (drop_bit 20 x)) OR push_bit 16 (take_bit 4 (drop_bit 16 x)) OR
     push_bit 12 (take_bit 4 (drop_bit 12 x)) OR push_bit 8 (take_bit 4 (drop_bit 8 x)) OR
     push_bit 4 (take_bit 4 (drop_bit 4 x)) OR take_bit 4 x"
    by (simp add: CR_Get_unfold CR_Set_unfold GetField_SetField take_bit_4_less)
  also have "\<dots> = x"
    using join_nibble [of 4 x] join_nibble [of 8 x] join_nibble [of 12 x] join_nibble [of 16 x]
      join_nibble [of 20 x] join_nibble [of 24 x] join_nibble [of 28 x]
    by (simp add: or.assoc take_bit_word_eq_self)
  finally show ?thesis .
qed

text \<open>A bit of the register, counted from the most significant one, and its assignment.\<close>

lemma drop_and_1: "drop_bit k w AND 1 = (of_bool (bit w k) :: u32)"
  by (rule bit_word_eqI) (auto simp: bit_simps bit_1_iff)

lemma and_3: "(b :: u32) AND 3 = take_bit 2 b"
  by (simp add: take_bit_eq_mask mask_eq_exp_minus_1)

lemma unat_and_3: "unat (b AND 3 :: u32) < 4"
  by (simp add: and_3 unsigned_take_bit_eq take_bit_nat_less_exp [of 2, simplified])

lemma GetBit_alt: "GetBit fields b = of_bool (bit (GetField fields (drop_bit 2 b)) (3 - unat (b AND 3)))"
  by (simp add: GetBit_def drop_and_1)

lemma bit_flag_mask:
  "k < 4 \<Longrightarrow> j < 4 \<Longrightarrow> bit (drop_bit k (0x8 :: u32)) (3 - j) \<longleftrightarrow> k = j"
  by (auto simp: bit_simps bit_8)

lemma field_index_eq:
  assumes "b < 32" "c < 32"
  shows "(ucast (drop_bit 2 b :: u32) :: 3 word) = ucast (drop_bit 2 c :: u32) \<longleftrightarrow>
    drop_bit 2 b = drop_bit 2 c"
proof -
  have small: "unat (drop_bit 2 d) < 8" if "d < 32" for d :: u32
    using that unfolding unat_drop_bit_eq by (simp add: drop_bit_eq_div word_less_nat_alt)
  have cast: "unat (ucast d :: 3 word) = unat d" if "unat d < 8" for d :: u32
    using that by (simp add: unsigned_ucast_eq take_bit_nat_eq_self)
  have "(ucast d :: 3 word) = ucast e \<longleftrightarrow> d = e" if "unat d < 8" "unat e < 8" for d e :: u32
    using cast [OF that(1)] cast [OF that(2)] by (metis word_unat_eq_iff)
  then show ?thesis using small [OF assms(1)] small [OF assms(2)] by blast
qed

lemma bit_position_eq:
  "drop_bit 2 b = drop_bit 2 c \<Longrightarrow> unat (b AND 3) = unat (c AND 3) \<longleftrightarrow> (b :: u32) = c"
  by (metis and_3 bits_ident word_unat_eq_iff)

lemma less_16_iff: "(w :: u32) < 16 \<longleftrightarrow> take_bit 4 w = w"
proof -
  have "w < 16 \<longleftrightarrow> take_bit 4 (unat w) = unat w"
    by (simp add: word_less_nat_alt take_bit_nat_eq_self_iff)
  then show ?thesis by (metis unsigned_take_bit_eq word_unat_eq_iff)
qed

lemma or_less_16: "(g :: u32) < 16 \<Longrightarrow> m < 16 \<Longrightarrow> g OR m < 16"
  by (simp add: less_16_iff)

lemma and_less_16: "(g :: u32) < 16 \<Longrightarrow> g AND x < 16"
  by (rule le_less_trans [OF word_and_le2])

text \<open>
  Assigning one of the 32 bits of the condition register makes it the lowest bit of the
  value and leaves the other 31 as they were, although a field is rewritten as a whole through
  the table.
\<close>

theorem GetBit_SetBit:
  assumes "b < 32" "c < 32"
  shows "GetBit (CR_SetBit b v fields) c = (if b = c then v AND 1 else GetBit fields c)"
proof -
  let ?G = "GetField fields (drop_bit 2 b)" and ?m = "drop_bit (unat (b AND 3)) (0x8 :: u32)"
  have G: "?G OR ?m < 16" "?G AND NOT ?m < 16"
  proof -
    have "bit ?m n \<Longrightarrow> n < 4" for n by (simp add: bit_simps bit_8)
    then have "take_bit 4 ?m = ?m" by (intro bit_word_eqI) (auto simp: bit_simps)
    then have "?m < 16" by (simp only: less_16_iff)
    then show "?G OR ?m < 16" "?G AND NOT ?m < 16"
      by (simp_all only: or_less_16 and_less_16 GetField_less)
  qed
  have set: "GetField (CR_SetBit b v fields) (drop_bit 2 b) =
      (if v AND 1 \<noteq> 0 then ?G OR ?m else ?G AND NOT ?m)"
    using G by (simp add: CR_SetBit_def GetField_SetField)
  have v: "v AND 1 = (if v AND 1 \<noteq> 0 then 1 else 0)"
    by (simp add: and_one_eq)
  show ?thesis
  proof (cases "drop_bit 2 b = drop_bit 2 c")
    case True
    have "bit (if v AND 1 \<noteq> 0 then ?G OR ?m else ?G AND NOT ?m) (3 - unat (c AND 3)) \<longleftrightarrow>
        (if b = c then v AND 1 \<noteq> 0 else bit ?G (3 - unat (c AND 3)))"
      using bit_position_eq [OF True] bit_flag_mask [OF unat_and_3 [of b] unat_and_3 [of c]]
      by (cases "b = c") (auto simp: bit_or_iff bit_and_iff bit_not_iff)
    then have "GetBit (CR_SetBit b v fields) c =
        of_bool (if b = c then v AND 1 \<noteq> 0 else bit ?G (3 - unat (c AND 3)))"
      by (simp only: GetBit_alt True [symmetric] set)
    then show ?thesis
      using True by (subst v) (simp add: GetBit_alt)
  next
    case False
    then have "b \<noteq> c" by blast
    moreover have "GetField (CR_SetBit b v fields) (drop_bit 2 c) = GetField fields (drop_bit 2 c)"
      using G field_index_eq [OF assms] False by (simp add: CR_SetBit_def GetField_SetField)
    ultimately show ?thesis by (simp add: GetBit_alt)
  qed
qed

lemma GetBit_SetBit_witness:
  "GetBit (CR_SetBit 5 1 (\<lambda>_. PPCToInternal 9)) 5 = 1 \<and>
   GetBit (CR_SetBit 5 1 (\<lambda>_. PPCToInternal 9)) 7 = GetBit (\<lambda>_. PPCToInternal 9) 7"
  using GetBit_SetBit [of 5 5 1 "\<lambda>_. PPCToInternal 9"] GetBit_SetBit [of 5 7 1 "\<lambda>_. PPCToInternal 9"]
  by simp

end
