(* ===== verification/PowerPC_State.thy ===== *)
theory PowerPC_State
  imports Gekko Condition_Register
begin

text \<open>
  The state of the emulated processor, \<^verbatim>\<open>PowerPCState\<close> of
  \<^verbatim>\<open>Core/PowerPC/PowerPC.h\<close>, with its accessors of the fixed-point exception register,
  and the exception machinery: \<^verbatim>\<open>ExceptionUtils.h\<close>, \<^verbatim>\<open>CheckExceptions\<close>,
  \<^verbatim>\<open>CheckExternalExceptions\<close>, \<^verbatim>\<open>MSRUpdated\<close>, the feature flags and the
  performance monitor of \<^verbatim>\<open>PowerPC.cpp\<close>, and the floating-point exception summary of
  \<^verbatim>\<open>Interpreter_FPUtils.h\<close>. What is left out of the record is the host side (pointers, TLB,
  caches); a call into another part of the system (memory management, JIT, timers, the gather
  pipe) is recorded in order in the field \<open>host\<close>.

  The lemmas show that an exception enters exactly one handler, that the invariant \<open>cpu_ok\<close>
  (ranges of the split register and feature flags that agree with the machine state register)
  is kept, and that the register accessors are a round trip.
\<close>

section \<open>State\<close>

datatype host_call =
    PageTableUpdated | UpdateMembase | SRUpdated | SDRUpdated | IBATUpdated | DBATUpdated
  | TimeBaseSet | DecrementerSet | iCache_Reset | ResetGatherPipe | IllegalTimeBaseWrite
  | DMA_MemoryToLC u32 u32 u32
  | DMA_LCToMemory u32 u32 u32
  | SetSIMDMode u32 u32

record PowerPCState =
  pc :: u32
  npc :: u32
  gpr :: "5 word \<Rightarrow> u32"
  cr :: cr_fields
  msr :: u32
  fpscr :: u32
  feature_flags :: u32
  Exceptions :: u32
  xer_ca :: u8
  xer_so_ov :: u8
  xer_stringctrl :: u16
  reserve_address :: u32
  reserve :: bool
  pagetable_update_pending :: bool
  m_enable_dcache :: bool
  ps :: "5 word \<Rightarrow> u64 \<times> u64"
  sr :: "4 word \<Rightarrow> u32"
  spr :: "spr_index \<Rightarrow> u32"

record Interpreter =
  m_ppc_state :: PowerPCState
  m_end_block :: bool
  m_last_pc :: u32
  m_prev_inst :: u32
  host :: "host_call list"

definition on_ppc :: "(PowerPCState \<Rightarrow> PowerPCState) \<Rightarrow> Interpreter \<Rightarrow> Interpreter" where
  "on_ppc f i = i\<lparr>m_ppc_state := f (m_ppc_state i)\<rparr>"

definition call_host :: "host_call \<Rightarrow> Interpreter \<Rightarrow> Interpreter" where
  "call_host c i = i\<lparr>host := host i @ [c]\<rparr>"

definition set_gpr :: "5 word \<Rightarrow> u32 \<Rightarrow> PowerPCState \<Rightarrow> PowerPCState" where
  "set_gpr r v s = s\<lparr>gpr := (gpr s)(r := v)\<rparr>"

definition set_spr :: "spr_index \<Rightarrow> u32 \<Rightarrow> PowerPCState \<Rightarrow> PowerPCState" where
  "set_spr r v s = s\<lparr>spr := (spr s)(r := v)\<rparr>"

section \<open>The fixed-point exception register\<close>

definition SetCarry :: "u32 \<Rightarrow> PowerPCState \<Rightarrow> PowerPCState" where
  "SetCarry ca s = s\<lparr>xer_ca := ucast ca\<rparr>"

definition GetCarry :: "PowerPCState \<Rightarrow> u32" where
  "GetCarry s = ucast (xer_ca s)"

definition GetXER :: "PowerPCState \<Rightarrow> u32" where
  "GetXER s =
     (let xer = 0;
          xer = xer OR ucast (xer_stringctrl s);
          xer = xer OR push_bit XER_CA_SHIFT (ucast (xer_ca s));
          xer = xer OR push_bit XER_OV_SHIFT (ucast (xer_so_ov s))
      in xer)"

definition SetXER :: "u32 \<Rightarrow> PowerPCState \<Rightarrow> PowerPCState" where
  "SetXER new_xer s =
     s\<lparr>xer_stringctrl := ucast (XER_BYTE_COUNT new_xer + push_bit 8 (XER_BYTE_CMP new_xer)),
       xer_ca := ucast (XER_CA new_xer),
       xer_so_ov := ucast (push_bit 1 (XER_SO new_xer) + XER_OV new_xer)\<rparr>"

definition GetXER_SO :: "PowerPCState \<Rightarrow> u32" where
  "GetXER_SO s = ucast (drop_bit 1 (xer_so_ov s))"

definition SetXER_SO :: "bool \<Rightarrow> PowerPCState \<Rightarrow> PowerPCState" where
  "SetXER_SO value s = s\<lparr>xer_so_ov := xer_so_ov s OR push_bit 1 (of_bool value)\<rparr>"

definition GetXER_OV :: "PowerPCState \<Rightarrow> u32" where
  "GetXER_OV s = ucast (xer_so_ov s AND 1)"

definition SetXER_OV :: "bool \<Rightarrow> PowerPCState \<Rightarrow> PowerPCState" where
  "SetXER_OV value s =
     SetXER_SO value (s\<lparr>xer_so_ov := (xer_so_ov s AND 0xFE) OR of_bool value\<rparr>)"

definition UpdateCR1 :: "PowerPCState \<Rightarrow> PowerPCState" where
  "UpdateCR1 s =
     s\<lparr>cr := SetField 1 (push_bit 3 (FPSCR_get_FX (fpscr s)) OR push_bit 2 (FPSCR_get_FEX (fpscr s)) OR
                         push_bit 1 (FPSCR_get_VX (fpscr s)) OR FPSCR_get_OX (fpscr s)) (cr s)\<rparr>"

section \<open>Feature flags\<close>

definition MMCRUpdated :: "PowerPCState \<Rightarrow> PowerPCState" where
  "MMCRUpdated s =
     (let perfmon = spr s SPR_MMCR0 \<noteq> 0 \<or> spr s SPR_MMCR1 \<noteq> 0
      in s\<lparr>feature_flags := (feature_flags s AND NOT FEATURE_FLAG_PERFMON) OR
                            (if perfmon then FEATURE_FLAG_PERFMON else 0)\<rparr>)"

definition RecalculateAllFeatureFlags :: "PowerPCState \<Rightarrow> PowerPCState" where
  "RecalculateAllFeatureFlags s =
     (let perfmon = spr s SPR_MMCR0 \<noteq> 0 \<or> spr s SPR_MMCR1 \<noteq> 0
      in s\<lparr>feature_flags := (drop_bit 4 (msr s) AND 3) OR
                            (if perfmon then FEATURE_FLAG_PERFMON else 0)\<rparr>)"

text \<open>
  \<^verbatim>\<open>MMU::PageTableUpdated\<close> starts by clearing the pending flag; the rest of it is the
  memory management unit's.
\<close>

definition MSRUpdated :: "Interpreter \<Rightarrow> Interpreter" where
  "MSRUpdated i =
     (let i = on_ppc (\<lambda>s. s\<lparr>feature_flags := (feature_flags s AND FEATURE_FLAG_PERFMON) OR
                                             (drop_bit 4 (msr s) AND 3)\<rparr>) i;
          i = (if MSR_DR (msr (m_ppc_state i)) \<noteq> 0 \<and> pagetable_update_pending (m_ppc_state i)
               then call_host PageTableUpdated
                      (on_ppc (\<lambda>s. s\<lparr>pagetable_update_pending := False\<rparr>) i)
               else i)
      in call_host UpdateMembase i)"

section \<open>Exceptions\<close>

datatype ProgramExceptionCause = FloatingPoint | IllegalInstruction | PrivilegedInstruction | Trap

fun cause_bits :: "ProgramExceptionCause \<Rightarrow> u32" where
  "cause_bits FloatingPoint = push_bit (31 - 11) 1"
| "cause_bits IllegalInstruction = push_bit (31 - 12) 1"
| "cause_bits PrivilegedInstruction = push_bit (31 - 13) 1"
| "cause_bits Trap = push_bit (31 - 14) 1"

definition GenerateAlignmentException :: "u32 \<Rightarrow> PowerPCState \<Rightarrow> PowerPCState" where
  "GenerateAlignmentException address s =
     set_spr SPR_DAR address (s\<lparr>Exceptions := Exceptions s OR EXCEPTION_ALIGNMENT\<rparr>)"

definition GenerateDSIException :: "u32 \<Rightarrow> PowerPCState \<Rightarrow> PowerPCState" where
  "GenerateDSIException address s =
     set_spr SPR_DAR address (s\<lparr>Exceptions := Exceptions s OR EXCEPTION_DSI\<rparr>)"

definition GenerateProgramException :: "ProgramExceptionCause \<Rightarrow> PowerPCState \<Rightarrow> PowerPCState" where
  "GenerateProgramException cause s =
     set_spr SPR_SRR1 (cause_bits cause) (s\<lparr>Exceptions := Exceptions s OR EXCEPTION_PROGRAM\<rparr>)"

text \<open>
  The entry every branch of \<^verbatim>\<open>CheckExceptions\<close> writes out: the return address and the
  machine state are saved, the state register is cleared of the bits the handler runs without,
  and execution continues at the vector.
\<close>

definition enter_exception :: "u32 \<Rightarrow> u32 \<Rightarrow> u32 \<Rightarrow> u32 \<Rightarrow> PowerPCState \<Rightarrow> PowerPCState" where
  "enter_exception srr0 srr1 vector b s =
     (let s = set_spr SPR_SRR0 srr0 s;
          s = set_spr SPR_SRR1 srr1 s;
          s = s\<lparr>msr := MSR_set_LE (MSR_ILE (msr s)) (msr s)\<rparr>;
          s = s\<lparr>msr := msr s AND NOT 0x04EF36\<rparr>;
          s = s\<lparr>pc := vector, npc := vector\<rparr>
      in s\<lparr>Exceptions := Exceptions s AND NOT b\<rparr>)"

definition CheckExternalExceptions :: "Interpreter \<Rightarrow> Interpreter" where
  "CheckExternalExceptions i =
     (let s = m_ppc_state i;
          exceptions = Exceptions s;
          enter = (\<lambda>vector b.
            MSRUpdated (on_ppc (enter_exception (npc s) (msr s AND 0x87C0FFFF) vector b) i))
      in if exceptions = 0 \<or> MSR_EE (msr s) = 0 then i
         else if exceptions AND EXCEPTION_EXTERNAL_INT \<noteq> 0 then enter 0x500 EXCEPTION_EXTERNAL_INT
         else if exceptions AND EXCEPTION_PERFORMANCE_MONITOR \<noteq> 0
           then enter 0xF00 EXCEPTION_PERFORMANCE_MONITOR
         else if exceptions AND EXCEPTION_DECREMENTER \<noteq> 0 then enter 0x900 EXCEPTION_DECREMENTER
         else i)"

definition CheckExceptions :: "Interpreter \<Rightarrow> Interpreter" where
  "CheckExceptions i =
     (let s = m_ppc_state i;
          exceptions = Exceptions s;
          saved = msr s AND 0x87C0FFFF;
          enter = (\<lambda>srr0 srr1 vector b.
            MSRUpdated (on_ppc (enter_exception srr0 srr1 vector b) i))
      in if exceptions AND EXCEPTION_ISI \<noteq> 0 then
           enter (npc s) (saved OR push_bit 30 1) 0x400 EXCEPTION_ISI
         else if exceptions AND EXCEPTION_PROGRAM \<noteq> 0 then
           enter (pc s) (spr s SPR_SRR1 OR saved) 0x700 EXCEPTION_PROGRAM
         else if exceptions AND EXCEPTION_SYSCALL \<noteq> 0 then
           enter (npc s) saved 0xC00 EXCEPTION_SYSCALL
         else if exceptions AND EXCEPTION_FPU_UNAVAILABLE \<noteq> 0 then
           enter (pc s) saved 0x800 EXCEPTION_FPU_UNAVAILABLE
         else if exceptions AND EXCEPTION_FAKE_MEMCHECK_HIT \<noteq> 0 then
           MSRUpdated (on_ppc (\<lambda>s. s\<lparr>Exceptions := Exceptions s AND
             (NOT EXCEPTION_DSI AND NOT EXCEPTION_FAKE_MEMCHECK_HIT)\<rparr>) i)
         else if exceptions AND EXCEPTION_DSI \<noteq> 0 then
           enter (pc s) saved 0x300 EXCEPTION_DSI
         else if exceptions AND EXCEPTION_ALIGNMENT \<noteq> 0 then
           enter (pc s) saved 0x600 EXCEPTION_ALIGNMENT
         else CheckExternalExceptions i)"

section \<open>Floating-point exception summary\<close>

definition CheckFPExceptions :: "PowerPCState \<Rightarrow> PowerPCState" where
  "CheckFPExceptions s =
     (if FPSCR_get_FEX (fpscr s) \<noteq> 0 \<and> (MSR_FE0 (msr s) \<noteq> 0 \<or> MSR_FE1 (msr s) \<noteq> 0)
      then GenerateProgramException FloatingPoint s else s)"

definition UpdateFPExceptionSummary :: "PowerPCState \<Rightarrow> PowerPCState" where
  "UpdateFPExceptionSummary s =
     (let s = s\<lparr>fpscr := FPSCR_set_VX (of_bool (fpscr s AND FPSCR_VX_ANY \<noteq> 0)) (fpscr s)\<rparr>;
          s = s\<lparr>fpscr := FPSCR_set_FEX
                (of_bool (drop_bit 22 (fpscr s) AND (fpscr s AND FPSCR_ANY_E) \<noteq> 0)) (fpscr s)\<rparr>
      in CheckFPExceptions s)"

definition SetFPException :: "u32 \<Rightarrow> PowerPCState \<Rightarrow> PowerPCState" where
  "SetFPException m s =
     (let s = (if fpscr s AND m \<noteq> m then s\<lparr>fpscr := FPSCR_set_FX 1 (fpscr s)\<rparr> else s)
      in UpdateFPExceptionSummary (s\<lparr>fpscr := fpscr s OR m\<rparr>))"

definition RoundingModeUpdated :: "Interpreter \<Rightarrow> Interpreter" where
  "RoundingModeUpdated i =
     (let s = m_ppc_state i in call_host (SetSIMDMode (FPSCR_RN (fpscr s)) (FPSCR_NI (fpscr s))) i)"

section \<open>Performance monitor\<close>

definition UpdatePerformanceMonitor :: "u32 \<Rightarrow> u32 \<Rightarrow> u32 \<Rightarrow> PowerPCState \<Rightarrow> PowerPCState" where
  "UpdatePerformanceMonitor cycles num_load_stores num_fp_inst s =
     (let s = (if MMCR0_PMC1SELECT (spr s SPR_MMCR0) = 1
               then set_spr SPR_PMC1 (spr s SPR_PMC1 + cycles) s else s);
          s = (if MMCR0_PMC2SELECT (spr s SPR_MMCR0) = 1
               then set_spr SPR_PMC2 (spr s SPR_PMC2 + cycles) s
               else if MMCR0_PMC2SELECT (spr s SPR_MMCR0) = 11
               then set_spr SPR_PMC2 (spr s SPR_PMC2 + num_load_stores) s else s);
          s = (if MMCR1_PMC3SELECT (spr s SPR_MMCR1) = 1
               then set_spr SPR_PMC3 (spr s SPR_PMC3 + cycles) s
               else if MMCR1_PMC3SELECT (spr s SPR_MMCR1) = 11
               then set_spr SPR_PMC3 (spr s SPR_PMC3 + num_fp_inst) s else s);
          s = (if MMCR1_PMC4SELECT (spr s SPR_MMCR1) = 1
               then set_spr SPR_PMC4 (spr s SPR_PMC4 + cycles) s else s);
          neg = (\<lambda>r. spr s r AND 0x80000000 \<noteq> 0);
          ctl = MMCR0_PMCINTCONTROL (spr s SPR_MMCR0) \<noteq> 0
      in if MMCR0_PMC1INTCONTROL (spr s SPR_MMCR0) \<noteq> 0 \<and> neg SPR_PMC1 \<or>
            ctl \<and> neg SPR_PMC2 \<or> ctl \<and> neg SPR_PMC3 \<or> ctl \<and> neg SPR_PMC4
         then s\<lparr>Exceptions := Exceptions s OR EXCEPTION_PERFORMANCE_MONITOR\<rparr> else s)"

section \<open>Frame lemmas\<close>

lemma on_ppc_simps [simp]:
  "m_ppc_state (on_ppc f i) = f (m_ppc_state i)" "m_end_block (on_ppc f i) = m_end_block i"
  "m_last_pc (on_ppc f i) = m_last_pc i" "m_prev_inst (on_ppc f i) = m_prev_inst i"
  "host (on_ppc f i) = host i"
  by (simp_all add: on_ppc_def)

lemma call_host_simps [simp]:
  "m_ppc_state (call_host c i) = m_ppc_state i" "m_end_block (call_host c i) = m_end_block i"
  "m_last_pc (call_host c i) = m_last_pc i" "m_prev_inst (call_host c i) = m_prev_inst i"
  "host (call_host c i) = host i @ [c]"
  by (simp_all add: call_host_def)

lemma MSRUpdated_state:
  "m_ppc_state (MSRUpdated i) =
     (m_ppc_state i)\<lparr>
       feature_flags := (feature_flags (m_ppc_state i) AND FEATURE_FLAG_PERFMON) OR
                        (drop_bit 4 (msr (m_ppc_state i)) AND 3),
       pagetable_update_pending := pagetable_update_pending (m_ppc_state i) \<and>
         MSR_DR (msr (m_ppc_state i)) = 0\<rparr>"
  by (simp add: MSRUpdated_def Let_def)

lemma MSRUpdated_end_block [simp]: "m_end_block (MSRUpdated i) = m_end_block i"
  by (simp add: MSRUpdated_def Let_def)

section \<open>The invariant\<close>

text \<open>
  The ranges of the split register and the reserved bit of the floating-point status register;
  and the feature flags, by which the JIT selects the blocks it runs, agree with the machine
  state register and the performance monitor.
\<close>

definition state_ok :: "PowerPCState \<Rightarrow> bool" where
  "state_ok s \<longleftrightarrow> xer_ca s \<le> 1 \<and> xer_so_ov s \<le> 3 \<and> \<not> bit (xer_stringctrl s) 7 \<and> \<not> bit (fpscr s) 11"

definition perf_bits :: "PowerPCState \<Rightarrow> u32" where
  "perf_bits s = (if spr s SPR_MMCR0 \<noteq> 0 \<or> spr s SPR_MMCR1 \<noteq> 0 then FEATURE_FLAG_PERFMON else 0)"

definition perf_ok :: "PowerPCState \<Rightarrow> bool" where
  "perf_ok s \<longleftrightarrow> feature_flags s AND FEATURE_FLAG_PERFMON = perf_bits s"

definition flags_ok :: "PowerPCState \<Rightarrow> bool" where
  "flags_ok s \<longleftrightarrow> feature_flags s = feature_flags (RecalculateAllFeatureFlags s)"

definition cpu_ok :: "PowerPCState \<Rightarrow> bool" where
  "cpu_ok s \<longleftrightarrow> state_ok s \<and> flags_ok s"

lemma flags_ok_alt: "flags_ok s \<longleftrightarrow> feature_flags s = (drop_bit 4 (msr s) AND 3) OR perf_bits s"
  by (simp add: flags_ok_def RecalculateAllFeatureFlags_def perf_bits_def Let_def)

lemma and_3_and_4: "(w AND 3) AND (4 :: u32) = 0"
  by (simp add: and.assoc)

lemma perf_bits_and: "perf_bits s AND FEATURE_FLAG_PERFMON = perf_bits s"
  by (simp add: perf_bits_def)

lemma flags_ok_perf_ok: "flags_ok s \<Longrightarrow> perf_ok s"
  by (simp add: flags_ok_alt perf_ok_def bit.conj_disj_distrib2 perf_bits_and)
    (simp add: FEATURE_FLAG_PERFMON_def and_3_and_4)

lemma flags_ok_MSRUpdated: "perf_ok (m_ppc_state i) \<Longrightarrow> flags_ok (m_ppc_state (MSRUpdated i))"
  by (simp add: flags_ok_alt perf_ok_def MSRUpdated_state or.commute perf_bits_def)

lemma state_ok_MSRUpdated: "state_ok (m_ppc_state i) \<Longrightarrow> state_ok (m_ppc_state (MSRUpdated i))"
  by (simp add: state_ok_def MSRUpdated_state)

subsection \<open>What keeps it\<close>

lemma set_gpr_simps [simp]:
  "cr (set_gpr r v s) = cr s" "msr (set_gpr r v s) = msr s" "pc (set_gpr r v s) = pc s"
  "npc (set_gpr r v s) = npc s" "spr (set_gpr r v s) = spr s" "fpscr (set_gpr r v s) = fpscr s"
  "gpr (set_gpr r v s) = (gpr s)(r := v)" "Exceptions (set_gpr r v s) = Exceptions s"
  "xer_ca (set_gpr r v s) = xer_ca s" "xer_so_ov (set_gpr r v s) = xer_so_ov s"
  "xer_stringctrl (set_gpr r v s) = xer_stringctrl s" "sr (set_gpr r v s) = sr s"
  "feature_flags (set_gpr r v s) = feature_flags s" "ps (set_gpr r v s) = ps s"
  by (simp_all add: set_gpr_def)

lemma set_spr_simps [simp]:
  "cr (set_spr r v s) = cr s" "msr (set_spr r v s) = msr s" "pc (set_spr r v s) = pc s"
  "npc (set_spr r v s) = npc s" "gpr (set_spr r v s) = gpr s" "fpscr (set_spr r v s) = fpscr s"
  "spr (set_spr r v s) = (spr s)(r := v)" "Exceptions (set_spr r v s) = Exceptions s"
  "xer_ca (set_spr r v s) = xer_ca s" "xer_so_ov (set_spr r v s) = xer_so_ov s"
  "xer_stringctrl (set_spr r v s) = xer_stringctrl s" "sr (set_spr r v s) = sr s"
  "feature_flags (set_spr r v s) = feature_flags s" "ps (set_spr r v s) = ps s"
  by (simp_all add: set_spr_def)

named_theorems cpu_ok_simps \<open>updates the invariant does not depend on, and those that keep it\<close>

lemma cpu_ok_frame [cpu_ok_simps]:
  "cpu_ok (set_gpr r v s) = cpu_ok s"
  "cpu_ok (s\<lparr>pc := x\<rparr>) = cpu_ok s" "cpu_ok (s\<lparr>npc := x\<rparr>) = cpu_ok s"
  "cpu_ok (s\<lparr>cr := c\<rparr>) = cpu_ok s" "cpu_ok (s\<lparr>Exceptions := x\<rparr>) = cpu_ok s"
  "cpu_ok (s\<lparr>sr := g\<rparr>) = cpu_ok s" "cpu_ok (s\<lparr>reserve := b\<rparr>) = cpu_ok s"
  "cpu_ok (s\<lparr>reserve_address := x\<rparr>) = cpu_ok s" "cpu_ok (s\<lparr>ps := p\<rparr>) = cpu_ok s"
  by (simp_all add: cpu_ok_def state_ok_def flags_ok_alt perf_bits_def)

lemma cpu_ok_set_spr [cpu_ok_simps]:
  "r \<noteq> SPR_MMCR0 \<Longrightarrow> r \<noteq> SPR_MMCR1 \<Longrightarrow> cpu_ok (set_spr r v s) = cpu_ok s"
  by (simp add: cpu_ok_def state_ok_def flags_ok_alt perf_bits_def)

lemma state_ok_frame [cpu_ok_simps]:
  "state_ok (set_gpr r v s) = state_ok s" "state_ok (set_spr q v s) = state_ok s"
  "state_ok (s\<lparr>pc := x\<rparr>) = state_ok s" "state_ok (s\<lparr>npc := x\<rparr>) = state_ok s"
  "state_ok (s\<lparr>Exceptions := x\<rparr>) = state_ok s" "state_ok (s\<lparr>msr := x\<rparr>) = state_ok s"
  "state_ok (s\<lparr>feature_flags := x\<rparr>) = state_ok s"
  by (simp_all add: state_ok_def)

lemma perf_ok_frame [cpu_ok_simps]:
  "perf_ok (set_gpr r v s) = perf_ok s"
  "q \<noteq> SPR_MMCR0 \<Longrightarrow> q \<noteq> SPR_MMCR1 \<Longrightarrow> perf_ok (set_spr q v s) = perf_ok s"
  "perf_ok (s\<lparr>pc := x\<rparr>) = perf_ok s" "perf_ok (s\<lparr>npc := x\<rparr>) = perf_ok s"
  "perf_ok (s\<lparr>Exceptions := x\<rparr>) = perf_ok s" "perf_ok (s\<lparr>msr := x\<rparr>) = perf_ok s"
  by (simp_all add: perf_ok_def perf_bits_def)

lemma cpu_ok_SetCarry [cpu_ok_simps]: "c \<le> 1 \<Longrightarrow> cpu_ok s \<Longrightarrow> cpu_ok (SetCarry c s)"
  by (auto simp: cpu_ok_def state_ok_def flags_ok_alt perf_bits_def SetCarry_def
      word_le_nat_alt unsigned_ucast_eq take_bit_nat_eq_self)

lemma le_3_cases: "(w :: u8) \<le> 3 \<Longrightarrow> w = 0 \<or> w = 1 \<or> w = 2 \<or> w = 3"
proof -
  assume "w \<le> 3"
  then have "unat w \<le> 3" by (simp add: word_le_nat_alt)
  then have "unat w = 0 \<or> unat w = 1 \<or> unat w = 2 \<or> unat w = 3" by arith
  moreover have "w = word_of_nat (unat w)" by simp
  ultimately show ?thesis by (elim disjE) auto
qed

lemma cpu_ok_SetXER_OV [cpu_ok_simps]: "cpu_ok s \<Longrightarrow> cpu_ok (SetXER_OV b s)"
  using le_3_cases [of "xer_so_ov s"]
  by (auto simp: cpu_ok_def state_ok_def flags_ok_alt perf_bits_def SetXER_OV_def SetXER_SO_def)

lemma MSRUpdated_cpu_ok:
  "state_ok (m_ppc_state i) \<Longrightarrow> perf_ok (m_ppc_state i) \<Longrightarrow> cpu_ok (m_ppc_state (MSRUpdated i))"
  by (simp add: cpu_ok_def flags_ok_MSRUpdated state_ok_MSRUpdated)

lemma cpu_okD: "cpu_ok s \<Longrightarrow> state_ok s" "cpu_ok s \<Longrightarrow> perf_ok s"
  by (simp_all add: cpu_ok_def flags_ok_perf_ok)

lemma cpu_ok_Generate [cpu_ok_simps]:
  "cpu_ok (GenerateProgramException c s) = cpu_ok s"
  "cpu_ok (GenerateAlignmentException a s) = cpu_ok s"
  "cpu_ok (GenerateDSIException a s) = cpu_ok s"
  by (simp_all add: GenerateProgramException_def GenerateAlignmentException_def
      GenerateDSIException_def cpu_ok_simps spr_defs)

lemma enter_exception_ok:
  "cpu_ok s \<Longrightarrow> state_ok (enter_exception a b v e s) \<and> perf_ok (enter_exception a b v e s)"
  using cpu_okD [of s] by (simp add: enter_exception_def Let_def cpu_ok_simps spr_defs)

lemma cpu_ok_CheckExternalExceptions:
  "cpu_ok (m_ppc_state i) \<Longrightarrow> cpu_ok (m_ppc_state (CheckExternalExceptions i))"
  by (simp add: CheckExternalExceptions_def Let_def MSRUpdated_cpu_ok enter_exception_ok)

lemma cpu_ok_CheckExceptions:
  "cpu_ok (m_ppc_state i) \<Longrightarrow> cpu_ok (m_ppc_state (CheckExceptions i))"
  by (simp add: CheckExceptions_def Let_def MSRUpdated_cpu_ok enter_exception_ok
      cpu_ok_CheckExternalExceptions cpu_ok_simps cpu_okD)

lemma cpu_ok_UpdatePerformanceMonitor:
  "cpu_ok s \<Longrightarrow> cpu_ok (UpdatePerformanceMonitor c l f s)"
  by (simp add: UpdatePerformanceMonitor_def Let_def cpu_ok_simps spr_defs)

lemma state_ok_fpscr:
  "state_ok (s\<lparr>fpscr := f\<rparr>) \<longleftrightarrow> xer_ca s \<le> 1 \<and> xer_so_ov s \<le> 3 \<and> \<not> bit (xer_stringctrl s) 7 \<and> \<not> bit f 11"
  by (simp add: state_ok_def)

lemma cpu_ok_fpscr: "cpu_ok s \<Longrightarrow> \<not> bit f 11 \<Longrightarrow> cpu_ok (s\<lparr>fpscr := f\<rparr>)"
  by (simp add: cpu_ok_def state_ok_def flags_ok_alt perf_bits_def)

lemma fpscr_bit_11: "cpu_ok s \<Longrightarrow> \<not> bit (fpscr s) 11"
  by (simp add: cpu_ok_def state_ok_def)

lemma fpscr_set_bit_11:
  "bit (FPSCR_set_VX v f) 11 = bit f 11" "bit (FPSCR_set_FEX v f) 11 = bit f 11"
  "bit (FPSCR_set_FX v f) 11 = bit f 11"
  by (simp_all add: FPSCR_set_VX_def FPSCR_set_FEX_def FPSCR_set_FX_def bit_field_set)

lemma cpu_ok_CheckFPExceptions [cpu_ok_simps]: "cpu_ok (CheckFPExceptions s) = cpu_ok s"
  by (simp add: CheckFPExceptions_def cpu_ok_simps)

lemma cpu_ok_UpdateFPExceptionSummary [cpu_ok_simps]:
  "cpu_ok s \<Longrightarrow> cpu_ok (UpdateFPExceptionSummary s)"
  by (simp add: UpdateFPExceptionSummary_def Let_def cpu_ok_simps cpu_ok_fpscr fpscr_bit_11
      fpscr_set_bit_11)

lemma cpu_ok_SetFPException [cpu_ok_simps]:
  "cpu_ok s \<Longrightarrow> \<not> bit m 11 \<Longrightarrow> cpu_ok (SetFPException m s)"
  by (simp add: SetFPException_def Let_def cpu_ok_simps cpu_ok_fpscr fpscr_bit_11
      fpscr_set_bit_11 bit_or_iff)

section \<open>The exception register is a round trip\<close>

lemma GetXER_SO_le: "state_ok s \<Longrightarrow> GetXER_SO s \<le> 1"
  using le_3_cases [of "xer_so_ov s"] by (auto simp: state_ok_def GetXER_SO_def)

lemma SetXER_fields:
  "xer_stringctrl (SetXER x s) = ucast (XER_BYTE_COUNT x + push_bit 8 (XER_BYTE_CMP x))"
  "xer_ca (SetXER x s) = ucast (XER_CA x)"
  "xer_so_ov (SetXER x s) = ucast (push_bit 1 (XER_SO x) + XER_OV x)"
  by (simp_all add: SetXER_def)

text \<open>
  Moving a value to the fixed-point exception register and back keeps the summary
  overflow, overflow and carry bits, the byte count and the comparison byte of it, and reads
  the other bits as zero, although the register is kept as three separate fields.
\<close>

theorem GetXER_SetXER: "GetXER (SetXER x s) = x AND 0xE000FF7F"
proof -
  have one: "field_get p (Suc 0) x = take_bit 1 (drop_bit p x)" if "p < 32" for p
    using that by (simp add: field_get_eq)
  have so: "XER_SO x = take_bit 1 (drop_bit 31 x)" and ov: "XER_OV x = take_bit 1 (drop_bit 30 x)"
    by (simp_all add: XER_SO_def XER_OV_def one)
  have so_ov: "ucast (ucast (push_bit 1 (XER_SO x) + XER_OV x) :: u8) =
      (push_bit 1 (take_bit 1 (drop_bit 31 x)) OR take_bit 1 (drop_bit 30 x) :: u32)"
  proof -
    have "push_bit 1 (XER_SO x) + XER_OV x = push_bit 1 (XER_SO x) OR XER_OV x"
      by (rule disjunctive_add) (auto simp: XER_SO_def XER_OV_def one bit_simps bit_0 intro!: gr0I)
    also have "ucast (ucast \<dots> :: u8) =
        (push_bit 1 (take_bit 1 (drop_bit 31 x)) OR take_bit 1 (drop_bit 30 x) :: u32)"
      unfolding so ov by (rule bit_word_eqI, unfold bit_simps) auto
    finally show ?thesis .
  qed
  have ca: "ucast (ucast (XER_CA x) :: u8) = (take_bit 1 (drop_bit 29 x) :: u32)"
    by (rule bit_word_eqI) (auto simp: XER_CA_def one bit_simps)
  have disj: "XER_BYTE_COUNT x + push_bit 8 (XER_BYTE_CMP x) =
      XER_BYTE_COUNT x OR push_bit 8 (XER_BYTE_CMP x)"
    by (rule disjunctive_add) (simp add: XER_BYTE_COUNT_def XER_BYTE_CMP_def bit_simps bit_field_get)
  have str: "ucast (ucast (XER_BYTE_COUNT x + push_bit 8 (XER_BYTE_CMP x)) :: u16) =
      (take_bit 7 x OR (push_bit 8 (take_bit 8 (drop_bit 8 x))) :: u32)"
    unfolding disj
    by (rule bit_word_eqI) (auto simp: XER_BYTE_COUNT_def XER_BYTE_CMP_def bit_simps bit_field_get)
  have top: "push_bit 29 (take_bit 1 (drop_bit 29 x)) OR
      push_bit 30 (push_bit 1 (take_bit 1 (drop_bit 31 x)) OR take_bit 1 (drop_bit 30 x)) =
      push_bit 29 (take_bit 3 (drop_bit 29 x))" (is "?l = ?r")
  proof (rule bit_word_eqI)
    fix n assume "n < LENGTH(32)"
    then consider "n < 29" | "n = 29" | "n = 30" | "n = 31" by force
    then show "bit ?l n \<longleftrightarrow> bit ?r n"
      by cases (unfold bit_simps, auto)
  qed
  have mask: "(0xE000FF7F :: u32) = mask 7 OR push_bit 8 (mask 8) OR push_bit 29 (mask 3)"
    by (simp add: mask_eq_exp_minus_1)
  have "GetXER (SetXER x s) =
      (take_bit 7 x OR push_bit 8 (take_bit 8 (drop_bit 8 x))) OR
      push_bit 29 (take_bit 1 (drop_bit 29 x)) OR
      push_bit 30 (push_bit 1 (take_bit 1 (drop_bit 31 x)) OR take_bit 1 (drop_bit 30 x))"
    unfolding GetXER_def XER_CA_SHIFT_def XER_OV_SHIFT_def Let_def SetXER_fields
    by (simp only: so_ov ca str or.assoc or.left_neutral)
  also have "\<dots> = x AND 0xE000FF7F"
    unfolding or.assoc top mask by (rule bit_word_eqI) (auto simp: bit_simps)
  finally show ?thesis .
qed

lemma cpu_ok_SetXER [cpu_ok_simps]: "cpu_ok s \<Longrightarrow> cpu_ok (SetXER x s)"
proof -
  assume ok: "cpu_ok s"
  have "bit (GetXER (SetXER x s)) 7 = False" unfolding GetXER_SetXER by (simp add: bit_and_iff)
  then have "\<not> bit (xer_stringctrl (SetXER x s)) 7"
    by (simp add: GetXER_def Let_def XER_CA_SHIFT_def XER_OV_SHIFT_def bit_simps)
  moreover have "xer_ca (SetXER x s) \<le> 1"
    unfolding SetXER_fields XER_CA_def One_nat_def by (simp add: field_get_Suc_0)
  moreover have "xer_so_ov (SetXER x s) \<le> 3"
    unfolding SetXER_fields XER_SO_def XER_OV_def One_nat_def by (simp add: field_get_Suc_0)
  ultimately show ?thesis
    using ok by (simp add: cpu_ok_def state_ok_def flags_ok_alt perf_bits_def)
      (simp add: SetXER_def)
qed

section \<open>Exception entry\<close>

text \<open>
  What the processor manual calls for, as far as the code orders it: the first pending
  exception of the list is taken, the external ones only when the machine state register
  enables them.
\<close>

definition sync_exceptions :: "(u32 \<times> u32) list" where
  "sync_exceptions =
     [(0x400, EXCEPTION_ISI), (0x700, EXCEPTION_PROGRAM), (0xC00, EXCEPTION_SYSCALL),
      (0x800, EXCEPTION_FPU_UNAVAILABLE), (0x300, EXCEPTION_DSI), (0x600, EXCEPTION_ALIGNMENT)]"

definition external_exceptions :: "(u32 \<times> u32) list" where
  "external_exceptions =
     [(0x500, EXCEPTION_EXTERNAL_INT), (0xF00, EXCEPTION_PERFORMANCE_MONITOR),
      (0x900, EXCEPTION_DECREMENTER)]"

definition pending_exception :: "PowerPCState \<Rightarrow> (u32 \<times> u32) option" where
  "pending_exception s =
     find (\<lambda>e. Exceptions s AND snd e \<noteq> 0)
       (sync_exceptions @ (if bit (msr s) 15 then external_exceptions else []))"

definition resume_address :: "PowerPCState \<Rightarrow> u32 \<Rightarrow> u32" where
  "resume_address s b =
     (if b \<in> {EXCEPTION_PROGRAM, EXCEPTION_FPU_UNAVAILABLE, EXCEPTION_DSI, EXCEPTION_ALIGNMENT}
      then pc s else npc s)"

lemma MSR_EE_bit: "MSR_EE w = 0 \<longleftrightarrow> \<not> bit w 15"
  by (simp add: MSR_EE_def field_get_Suc_0)

lemma enter_exception_fields:
  "pc (enter_exception a b v e s) = v" "npc (enter_exception a b v e s) = v"
  "Exceptions (enter_exception a b v e s) = Exceptions s AND NOT e"
  "spr (enter_exception a b v e s) = (spr s)(SPR_SRR0 := a, SPR_SRR1 := b)"
  "gpr (enter_exception a b v e s) = gpr s"
  "msr (enter_exception a b v e s) = MSR_set_LE (MSR_ILE (msr s)) (msr s) AND NOT 0x04EF36"
  by (simp_all add: enter_exception_def Let_def)

lemma MSRUpdated_fields [simp]:
  "pc (m_ppc_state (MSRUpdated i)) = pc (m_ppc_state i)"
  "npc (m_ppc_state (MSRUpdated i)) = npc (m_ppc_state i)"
  "Exceptions (m_ppc_state (MSRUpdated i)) = Exceptions (m_ppc_state i)"
  "spr (m_ppc_state (MSRUpdated i)) = spr (m_ppc_state i)"
  "gpr (m_ppc_state (MSRUpdated i)) = gpr (m_ppc_state i)"
  "msr (m_ppc_state (MSRUpdated i)) = msr (m_ppc_state i)"
  by (simp_all add: MSRUpdated_state)

text \<open>Taking the exception \<open>b\<close>: the state is the entry's, up to the low half of SRR1.\<close>

definition entered :: "Interpreter \<Rightarrow> u32 \<times> u32 \<Rightarrow> Interpreter \<Rightarrow> bool" where
  "entered i e j \<longleftrightarrow>
     (\<exists>srr1. srr1 AND 0x87C0FFFF =
          (msr (m_ppc_state i) OR
           (if snd e = EXCEPTION_PROGRAM then spr (m_ppc_state i) SPR_SRR1 else 0)) AND 0x87C0FFFF \<and>
        j = MSRUpdated (on_ppc (enter_exception (resume_address (m_ppc_state i) (snd e)) srr1
              (fst e) (snd e)) i))"

lemma enteredI:
  assumes "a = resume_address (m_ppc_state i) b"
    and "srr1 AND 0x87C0FFFF =
      (msr (m_ppc_state i) OR (if b = EXCEPTION_PROGRAM then spr (m_ppc_state i) SPR_SRR1 else 0))
        AND 0x87C0FFFF"
  shows "entered i (v, b) (MSRUpdated (on_ppc (enter_exception a srr1 v b) i))"
  using assms by (auto simp: entered_def)

lemma and_or_saved: "((x :: u32) OR (m AND k)) AND k = (m OR x) AND k"
  by (rule bit_word_eqI) (auto simp: bit_simps)

lemma CheckExceptions_cases:
  assumes "Exceptions (m_ppc_state i) AND EXCEPTION_FAKE_MEMCHECK_HIT = 0"
  shows "case pending_exception (m_ppc_state i) of
      None \<Rightarrow> CheckExceptions i = i
    | Some e \<Rightarrow> entered i e (CheckExceptions i)"
proof -
  let ?s = "m_ppc_state i"
  have resume: "resume_address ?s EXCEPTION_ISI = npc ?s" "resume_address ?s EXCEPTION_PROGRAM = pc ?s"
    "resume_address ?s EXCEPTION_SYSCALL = npc ?s"
    "resume_address ?s EXCEPTION_FPU_UNAVAILABLE = pc ?s" "resume_address ?s EXCEPTION_DSI = pc ?s"
    "resume_address ?s EXCEPTION_ALIGNMENT = pc ?s"
    "resume_address ?s EXCEPTION_EXTERNAL_INT = npc ?s"
    "resume_address ?s EXCEPTION_PERFORMANCE_MONITOR = npc ?s"
    "resume_address ?s EXCEPTION_DECREMENTER = npc ?s"
    by (simp_all add: resume_address_def exception_defs)
  have other: "EXCEPTION_ISI \<noteq> EXCEPTION_PROGRAM" "EXCEPTION_SYSCALL \<noteq> EXCEPTION_PROGRAM"
    "EXCEPTION_FPU_UNAVAILABLE \<noteq> EXCEPTION_PROGRAM" "EXCEPTION_DSI \<noteq> EXCEPTION_PROGRAM"
    "EXCEPTION_ALIGNMENT \<noteq> EXCEPTION_PROGRAM" "EXCEPTION_EXTERNAL_INT \<noteq> EXCEPTION_PROGRAM"
    "EXCEPTION_PERFORMANCE_MONITOR \<noteq> EXCEPTION_PROGRAM" "EXCEPTION_DECREMENTER \<noteq> EXCEPTION_PROGRAM"
    by (simp_all add: exception_defs)
  have isi: "((x :: u32) AND 0x87C0FFFF OR 0x40000000) AND 0x87C0FFFF = x AND 0x87C0FFFF" for x
    by (simp add: bit.conj_disj_distrib2 and.assoc)
  show ?thesis
    using assms
    by (simp add: CheckExceptions_def CheckExternalExceptions_def pending_exception_def
        sync_exceptions_def external_exceptions_def Let_def MSR_EE_bit)
      (simp add: enteredI resume other isi and_or_saved and.assoc)
qed

lemma enter_exception_msr:
  "msr (enter_exception a b v e s) AND 0xE030 = 0"
  "bit (msr (enter_exception a b v e s)) 0 = bit (msr s) 16"
proof -
  have "NOT 0x04EF36 AND (0xE030 :: u32) = 0" by simp
  then show "msr (enter_exception a b v e s) AND 0xE030 = 0"
    unfolding enter_exception_fields by (simp add: and.assoc)
  show "bit (msr (enter_exception a b v e s)) 0 = bit (msr s) 16"
    unfolding enter_exception_fields MSR_set_LE_def MSR_ILE_def One_nat_def
    by (simp add: bit_and_iff bit_field_set field_get_Suc_0 del: bit_0)
qed


definition boot_state :: PowerPCState where
  "boot_state =
     \<lparr>pc = 0x100, npc = 0x104, gpr = (\<lambda>_. 0), cr = (\<lambda>_. 0), msr = 0x8040, fpscr = 0,
      feature_flags = 0, Exceptions = 0, xer_ca = 0, xer_so_ov = 0, xer_stringctrl = 0,
      reserve_address = 0, reserve = False, pagetable_update_pending = False, m_enable_dcache = False, ps = (\<lambda>_. (0, 0)), sr = (\<lambda>_. 0), spr = (\<lambda>_. 0)\<rparr>"

definition boot_cpu :: Interpreter where
  "boot_cpu =
     \<lparr>m_ppc_state = boot_state, m_end_block = False, m_last_pc = 0, m_prev_inst = 0, host = []\<rparr>"


end
