(* ===== verification/Interpreter_Integer.thy ===== *)
theory Interpreter_Integer
  imports PowerPC_State "HOL-Library.Signed_Division"
begin

text \<open>
  The integer instructions, \<^verbatim>\<open>Interpreter_Integer.cpp\<close>: one definition per member
  function, in the order of the file, from the instruction word and the state to the state. An
  \<^verbatim>\<open>s32\<close> is the word that represents it, read by \<open>sint\<close>. The two trap instructions also
  raise the exception, so they work on the whole interpreter.

  The lemmas show that every instruction keeps the invariant of the state; what the instructions
  compute is the subject of the theory \<^verbatim>\<open>Integer_Semantics\<close>.
\<close>

section \<open>Definitions\<close>

definition Helper_UpdateCR0 :: "u32 \<Rightarrow> PowerPCState \<Rightarrow> PowerPCState" where
  "Helper_UpdateCR0 value s =
     (let cr_val = scast value :: u64;
          cr_val = (if value = 0 then cr_val OR push_bit 63 1 else cr_val);
          cr_val = (cr_val AND NOT (push_bit CR_EMU_SO_BIT 1)) OR
                   push_bit CR_EMU_SO_BIT (ucast (GetXER_SO s))
      in s\<lparr>cr := (cr s)(0 := cr_val)\<rparr>)"

definition Helper_Carry :: "u32 \<Rightarrow> u32 \<Rightarrow> u32" where
  "Helper_Carry value1 value2 = of_bool (value2 > NOT value1)"

definition addi :: "u32 \<Rightarrow> PowerPCState \<Rightarrow> PowerPCState" where
  "addi inst s =
     (if RA inst \<noteq> 0 then set_gpr (RD inst) (gpr s (RA inst) + SIMM_16 inst) s
      else set_gpr (RD inst) (SIMM_16 inst) s)"

definition addic :: "u32 \<Rightarrow> PowerPCState \<Rightarrow> PowerPCState" where
  "addic inst s =
     (let a = gpr s (RA inst);
          imm = SIMM_16 inst;
          s = set_gpr (RD inst) (a + imm) s
      in SetCarry (Helper_Carry a imm) s)"

definition addic_rc :: "u32 \<Rightarrow> PowerPCState \<Rightarrow> PowerPCState" where
  "addic_rc inst s =
     (let s = addic inst s in Helper_UpdateCR0 (gpr s (RD inst)) s)"

definition addis :: "u32 \<Rightarrow> PowerPCState \<Rightarrow> PowerPCState" where
  "addis inst s =
     (if RA inst \<noteq> 0
      then set_gpr (RD inst) (gpr s (RA inst) + push_bit 16 (SIMM_16 inst)) s
      else set_gpr (RD inst) (push_bit 16 (SIMM_16 inst)) s)"

definition andi_rc :: "u32 \<Rightarrow> PowerPCState \<Rightarrow> PowerPCState" where
  "andi_rc inst s =
     (let s = set_gpr (RA inst) (gpr s (RS inst) AND UIMM inst) s
      in Helper_UpdateCR0 (gpr s (RA inst)) s)"

definition andis_rc :: "u32 \<Rightarrow> PowerPCState \<Rightarrow> PowerPCState" where
  "andis_rc inst s =
     (let s = set_gpr (RA inst) (gpr s (RS inst) AND push_bit 16 (UIMM inst)) s
      in Helper_UpdateCR0 (gpr s (RA inst)) s)"

text \<open>
  The template over \<^verbatim>\<open>T\<close>, once for \<^verbatim>\<open>s32\<close> and once for
  \<^verbatim>\<open>u32\<close>: \<open>lt\<close> is the order of the type.
\<close>

definition Helper_IntCompare ::
  "(u32 \<Rightarrow> u32 \<Rightarrow> bool) \<Rightarrow> u32 \<Rightarrow> u32 \<Rightarrow> u32 \<Rightarrow> PowerPCState \<Rightarrow> PowerPCState" where
  "Helper_IntCompare lt inst a b s =
     (let cr_field = (if lt a b then CR_LT else if lt b a then CR_GT else CR_EQ);
          cr_field = (if GetXER_SO s \<noteq> 0 then cr_field OR CR_SO else cr_field)
      in s\<lparr>cr := SetField (CRFD inst) cr_field (cr s)\<rparr>)"

definition s32_less :: "u32 \<Rightarrow> u32 \<Rightarrow> bool" where
  "s32_less a b \<longleftrightarrow> sint a < sint b"

definition u32_less :: "u32 \<Rightarrow> u32 \<Rightarrow> bool" where
  "u32_less a b \<longleftrightarrow> a < b"

definition cmpi :: "u32 \<Rightarrow> PowerPCState \<Rightarrow> PowerPCState" where
  "cmpi inst s =
     Helper_IntCompare s32_less inst (gpr s (RA inst)) (SIMM_16 inst) s"

definition cmpli :: "u32 \<Rightarrow> PowerPCState \<Rightarrow> PowerPCState" where
  "cmpli inst s =
     Helper_IntCompare u32_less inst (gpr s (RA inst)) (UIMM inst) s"

text \<open>
  The product of \<^verbatim>\<open>mulli\<close> and the difference of \<^verbatim>\<open>subfic\<close> are computed in
  \<^verbatim>\<open>s32\<close>, where C++ leaves an overflow undefined; the model wraps, as the processor does.
\<close>

definition mulli :: "u32 \<Rightarrow> PowerPCState \<Rightarrow> PowerPCState" where
  "mulli inst s =
     set_gpr (RD inst) (gpr s (RA inst) * SIMM_16 inst) s"

definition ori :: "u32 \<Rightarrow> PowerPCState \<Rightarrow> PowerPCState" where
  "ori inst s =
     set_gpr (RA inst) (gpr s (RS inst) OR UIMM inst) s"

definition oris :: "u32 \<Rightarrow> PowerPCState \<Rightarrow> PowerPCState" where
  "oris inst s =
     set_gpr (RA inst) (gpr s (RS inst) OR push_bit 16 (UIMM inst)) s"

definition subfic :: "u32 \<Rightarrow> PowerPCState \<Rightarrow> PowerPCState" where
  "subfic inst s =
     (let a = gpr s (RA inst);
          immediate = SIMM_16 inst;
          s = set_gpr (RD inst) (immediate - a) s
      in SetCarry (of_bool (a = 0 \<or> Helper_Carry (0 - a) immediate \<noteq> 0)) s)"

text \<open>The condition \<^verbatim>\<open>twi\<close> and \<^verbatim>\<open>tw\<close> write out, and what both do when it holds.\<close>

definition trap_condition :: "u32 \<Rightarrow> u32 \<Rightarrow> u32 \<Rightarrow> bool" where
  "trap_condition a b to \<longleftrightarrow>
     sint a < sint b \<and> to AND 0x10 \<noteq> 0 \<or> sint a > sint b \<and> to AND 0x08 \<noteq> 0 \<or>
     a = b \<and> to AND 0x04 \<noteq> 0 \<or>
     a < b \<and> to AND 0x02 \<noteq> 0 \<or> a > b \<and> to AND 0x01 \<noteq> 0"

definition raise_trap :: "Interpreter \<Rightarrow> Interpreter" where
  "raise_trap i =
     (let i = on_ppc (GenerateProgramException Trap) i;
          i = CheckExceptions i
      in i\<lparr>m_end_block := True\<rparr>)"

definition twi :: "u32 \<Rightarrow> Interpreter \<Rightarrow> Interpreter" where
  "twi inst i =
     (let s = m_ppc_state i;
          a = gpr s (RA inst);
          b = SIMM_16 inst
      in if trap_condition a b (TO inst) then raise_trap i else i)"

definition xori :: "u32 \<Rightarrow> PowerPCState \<Rightarrow> PowerPCState" where
  "xori inst s =
     set_gpr (RA inst) (gpr s (RS inst) XOR UIMM inst) s"

definition xoris :: "u32 \<Rightarrow> PowerPCState \<Rightarrow> PowerPCState" where
  "xoris inst s =
     set_gpr (RA inst) (gpr s (RS inst) XOR push_bit 16 (UIMM inst)) s"

definition rlwimix :: "u32 \<Rightarrow> PowerPCState \<Rightarrow> PowerPCState" where
  "rlwimix inst s =
     (let mask = MakeRotationMask (MB inst) (ME inst);
          s = set_gpr (RA inst) ((gpr s (RA inst) AND NOT mask) OR
                (word_rotl (unat (SH inst)) (gpr s (RS inst)) AND mask)) s
      in if Rc inst then Helper_UpdateCR0 (gpr s (RA inst)) s else s)"

definition rlwinmx :: "u32 \<Rightarrow> PowerPCState \<Rightarrow> PowerPCState" where
  "rlwinmx inst s =
     (let mask = MakeRotationMask (MB inst) (ME inst);
          s = set_gpr (RA inst) (word_rotl (unat (SH inst)) (gpr s (RS inst)) AND mask) s
      in if Rc inst then Helper_UpdateCR0 (gpr s (RA inst)) s else s)"

definition rlwnmx :: "u32 \<Rightarrow> PowerPCState \<Rightarrow> PowerPCState" where
  "rlwnmx inst s =
     (let mask = MakeRotationMask (MB inst) (ME inst);
          s = set_gpr (RA inst)
                (word_rotl (unat (gpr s (RB inst) AND 0x1F)) (gpr s (RS inst)) AND mask) s
      in if Rc inst then Helper_UpdateCR0 (gpr s (RA inst)) s else s)"

definition andx :: "u32 \<Rightarrow> PowerPCState \<Rightarrow> PowerPCState" where
  "andx inst s =
     (let s = set_gpr (RA inst) (gpr s (RS inst) AND gpr s (RB inst)) s
      in if Rc inst then Helper_UpdateCR0 (gpr s (RA inst)) s else s)"

definition andcx :: "u32 \<Rightarrow> PowerPCState \<Rightarrow> PowerPCState" where
  "andcx inst s =
     (let s = set_gpr (RA inst) (gpr s (RS inst) AND NOT (gpr s (RB inst))) s
      in if Rc inst then Helper_UpdateCR0 (gpr s (RA inst)) s else s)"

definition cmp :: "u32 \<Rightarrow> PowerPCState \<Rightarrow> PowerPCState" where
  "cmp inst s =
     Helper_IntCompare s32_less inst (gpr s (RA inst)) (gpr s (RB inst)) s"

definition cmpl :: "u32 \<Rightarrow> PowerPCState \<Rightarrow> PowerPCState" where
  "cmpl inst s =
     Helper_IntCompare u32_less inst (gpr s (RA inst)) (gpr s (RB inst)) s"

text \<open>\<^verbatim>\<open>std::countl_zero\<close>\<close>

definition countl_zero :: "u32 \<Rightarrow> nat" where
  "countl_zero w = length (takeWhile (\<lambda>i. \<not> bit w (31 - i)) [0..<32])"

definition cntlzwx :: "u32 \<Rightarrow> PowerPCState \<Rightarrow> PowerPCState" where
  "cntlzwx inst s =
     (let s = set_gpr (RA inst) (word_of_nat (countl_zero (gpr s (RS inst)))) s
      in if Rc inst then Helper_UpdateCR0 (gpr s (RA inst)) s else s)"

definition eqvx :: "u32 \<Rightarrow> PowerPCState \<Rightarrow> PowerPCState" where
  "eqvx inst s =
     (let s = set_gpr (RA inst) (NOT (gpr s (RS inst) XOR gpr s (RB inst))) s
      in if Rc inst then Helper_UpdateCR0 (gpr s (RA inst)) s else s)"

definition extsbx :: "u32 \<Rightarrow> PowerPCState \<Rightarrow> PowerPCState" where
  "extsbx inst s =
     (let s = set_gpr (RA inst) (scast (ucast (gpr s (RS inst)) :: u8)) s
      in if Rc inst then Helper_UpdateCR0 (gpr s (RA inst)) s else s)"

definition extshx :: "u32 \<Rightarrow> PowerPCState \<Rightarrow> PowerPCState" where
  "extshx inst s =
     (let s = set_gpr (RA inst) (scast (ucast (gpr s (RS inst)) :: u16)) s
      in if Rc inst then Helper_UpdateCR0 (gpr s (RA inst)) s else s)"

definition nandx :: "u32 \<Rightarrow> PowerPCState \<Rightarrow> PowerPCState" where
  "nandx inst s =
     (let s = set_gpr (RA inst) (NOT (gpr s (RS inst) AND gpr s (RB inst))) s
      in if Rc inst then Helper_UpdateCR0 (gpr s (RA inst)) s else s)"

definition norx :: "u32 \<Rightarrow> PowerPCState \<Rightarrow> PowerPCState" where
  "norx inst s =
     (let s = set_gpr (RA inst) (NOT (gpr s (RS inst) OR gpr s (RB inst))) s
      in if Rc inst then Helper_UpdateCR0 (gpr s (RA inst)) s else s)"

definition orx :: "u32 \<Rightarrow> PowerPCState \<Rightarrow> PowerPCState" where
  "orx inst s =
     (let s = set_gpr (RA inst) (gpr s (RS inst) OR gpr s (RB inst)) s
      in if Rc inst then Helper_UpdateCR0 (gpr s (RA inst)) s else s)"

definition orcx :: "u32 \<Rightarrow> PowerPCState \<Rightarrow> PowerPCState" where
  "orcx inst s =
     (let s = set_gpr (RA inst) (gpr s (RS inst) OR NOT (gpr s (RB inst))) s
      in if Rc inst then Helper_UpdateCR0 (gpr s (RA inst)) s else s)"

definition slwx :: "u32 \<Rightarrow> PowerPCState \<Rightarrow> PowerPCState" where
  "slwx inst s =
     (let amount = gpr s (RB inst);
          s = set_gpr (RA inst) (if amount AND 0x20 \<noteq> 0 then 0
                else push_bit (unat (amount AND 0x1F)) (gpr s (RS inst))) s
      in if Rc inst then Helper_UpdateCR0 (gpr s (RA inst)) s else s)"

definition sraw_carry :: "u32 \<Rightarrow> u32 \<Rightarrow> u32" where
  "sraw_carry rrs amount =
     of_bool (sint rrs < 0 \<and> amount > 0 \<and> push_bit (32 - unat amount) rrs \<noteq> 0)"

definition srawx :: "u32 \<Rightarrow> PowerPCState \<Rightarrow> PowerPCState" where
  "srawx inst s =
     (let rb = gpr s (RB inst);
          s = (if rb AND 0x20 \<noteq> 0 then
                 (if gpr s (RS inst) AND 0x80000000 \<noteq> 0
                  then SetCarry 1 (set_gpr (RA inst) 0xFFFFFFFF s)
                  else SetCarry 0 (set_gpr (RA inst) 0x00000000 s))
               else
                 (let amount = rb AND 0x1F;
                      rrs = gpr s (RS inst);
                      s = set_gpr (RA inst) (signed_drop_bit (unat amount) rrs) s
                  in SetCarry (sraw_carry rrs amount) s))
      in if Rc inst then Helper_UpdateCR0 (gpr s (RA inst)) s else s)"

definition srawix :: "u32 \<Rightarrow> PowerPCState \<Rightarrow> PowerPCState" where
  "srawix inst s =
     (let amount = SH inst;
          rrs = gpr s (RS inst);
          s = set_gpr (RA inst) (signed_drop_bit (unat amount) rrs) s;
          s = SetCarry (sraw_carry rrs amount) s
      in if Rc inst then Helper_UpdateCR0 (gpr s (RA inst)) s else s)"

definition srwx :: "u32 \<Rightarrow> PowerPCState \<Rightarrow> PowerPCState" where
  "srwx inst s =
     (let amount = gpr s (RB inst);
          s = set_gpr (RA inst) (if amount AND 0x20 \<noteq> 0 then 0
                else drop_bit (unat (amount AND 0x1F)) (gpr s (RS inst))) s
      in if Rc inst then Helper_UpdateCR0 (gpr s (RA inst)) s else s)"

definition tw :: "u32 \<Rightarrow> Interpreter \<Rightarrow> Interpreter" where
  "tw inst i =
     (let s = m_ppc_state i;
          a = gpr s (RA inst);
          b = gpr s (RB inst)
      in if trap_condition a b (TO inst) then raise_trap i else i)"

definition xorx :: "u32 \<Rightarrow> PowerPCState \<Rightarrow> PowerPCState" where
  "xorx inst s =
     (let s = set_gpr (RA inst) (gpr s (RS inst) XOR gpr s (RB inst)) s
      in if Rc inst then Helper_UpdateCR0 (gpr s (RA inst)) s else s)"

definition HasAddOverflowed :: "u32 \<Rightarrow> u32 \<Rightarrow> u32 \<Rightarrow> bool" where
  "HasAddOverflowed x y result \<longleftrightarrow> drop_bit 31 ((x XOR result) AND (y XOR result)) \<noteq> 0"

definition addx :: "u32 \<Rightarrow> PowerPCState \<Rightarrow> PowerPCState" where
  "addx inst s =
     (let a = gpr s (RA inst);
          b = gpr s (RB inst);
          result = a + b;
          s = set_gpr (RD inst) result s;
          s = (if OE inst then SetXER_OV (HasAddOverflowed a b result) s else s)
      in if Rc inst then Helper_UpdateCR0 result s else s)"

definition addcx :: "u32 \<Rightarrow> PowerPCState \<Rightarrow> PowerPCState" where
  "addcx inst s =
     (let a = gpr s (RA inst);
          b = gpr s (RB inst);
          result = a + b;
          s = set_gpr (RD inst) result s;
          s = SetCarry (Helper_Carry a b) s;
          s = (if OE inst then SetXER_OV (HasAddOverflowed a b result) s else s)
      in if Rc inst then Helper_UpdateCR0 result s else s)"

definition addex :: "u32 \<Rightarrow> PowerPCState \<Rightarrow> PowerPCState" where
  "addex inst s =
     (let carry = GetCarry s;
          a = gpr s (RA inst);
          b = gpr s (RB inst);
          result = a + b + carry;
          s = set_gpr (RD inst) result s;
          s = SetCarry (of_bool (Helper_Carry a b \<noteq> 0 \<or> carry \<noteq> 0 \<and> Helper_Carry (a + b) carry \<noteq> 0)) s;
          s = (if OE inst then SetXER_OV (HasAddOverflowed a b result) s else s)
      in if Rc inst then Helper_UpdateCR0 result s else s)"

definition addmex :: "u32 \<Rightarrow> PowerPCState \<Rightarrow> PowerPCState" where
  "addmex inst s =
     (let carry = GetCarry s;
          a = gpr s (RA inst);
          b = 0xFFFFFFFF;
          result = a + b + carry;
          s = set_gpr (RD inst) result s;
          s = SetCarry (Helper_Carry a (carry - 1)) s;
          s = (if OE inst then SetXER_OV (HasAddOverflowed a b result) s else s)
      in if Rc inst then Helper_UpdateCR0 result s else s)"

definition addzex :: "u32 \<Rightarrow> PowerPCState \<Rightarrow> PowerPCState" where
  "addzex inst s =
     (let carry = GetCarry s;
          a = gpr s (RA inst);
          result = a + carry;
          s = set_gpr (RD inst) result s;
          s = SetCarry (Helper_Carry a carry) s;
          s = (if OE inst then SetXER_OV (HasAddOverflowed a 0 result) s else s)
      in if Rc inst then Helper_UpdateCR0 result s else s)"

definition divwx :: "u32 \<Rightarrow> PowerPCState \<Rightarrow> PowerPCState" where
  "divwx inst s =
     (let a = gpr s (RA inst);
          b = gpr s (RB inst);
          overflow = (b = 0 \<or> a = 0x80000000 \<and> sint b = -1);
          s = (if overflow
               then (if sint a < 0 then set_gpr (RD inst) 0xFFFFFFFF s
                     else set_gpr (RD inst) 0 s)
               else set_gpr (RD inst) (word_of_int (sint a sdiv sint b)) s);
          s = (if OE inst then SetXER_OV overflow s else s)
      in if Rc inst then Helper_UpdateCR0 (gpr s (RD inst)) s else s)"

definition divwux :: "u32 \<Rightarrow> PowerPCState \<Rightarrow> PowerPCState" where
  "divwux inst s =
     (let a = gpr s (RA inst);
          b = gpr s (RB inst);
          overflow = (b = 0);
          s = (if overflow then set_gpr (RD inst) 0 s else set_gpr (RD inst) (a div b) s);
          s = (if OE inst then SetXER_OV overflow s else s)
      in if Rc inst then Helper_UpdateCR0 (gpr s (RD inst)) s else s)"

definition mulhwx :: "u32 \<Rightarrow> PowerPCState \<Rightarrow> PowerPCState" where
  "mulhwx inst s =
     (let a = scast (gpr s (RA inst)) :: u64;
          b = scast (gpr s (RB inst)) :: u64;
          d = ucast (signed_drop_bit 32 (a * b)) :: u32;
          s = set_gpr (RD inst) d s
      in if Rc inst then Helper_UpdateCR0 d s else s)"

definition mulhwux :: "u32 \<Rightarrow> PowerPCState \<Rightarrow> PowerPCState" where
  "mulhwux inst s =
     (let a = ucast (gpr s (RA inst)) :: u64;
          b = ucast (gpr s (RB inst)) :: u64;
          d = ucast (drop_bit 32 (a * b)) :: u32;
          s = set_gpr (RD inst) d s
      in if Rc inst then Helper_UpdateCR0 d s else s)"

definition mullwx :: "u32 \<Rightarrow> PowerPCState \<Rightarrow> PowerPCState" where
  "mullwx inst s =
     (let a = scast (gpr s (RA inst)) :: u64;
          b = scast (gpr s (RB inst)) :: u64;
          result = a * b;
          s = set_gpr (RD inst) (ucast result) s;
          s = (if OE inst
               then SetXER_OV (sint result < - 0x80000000 \<or> sint result > 0x7FFFFFFF) s else s)
      in if Rc inst then Helper_UpdateCR0 (gpr s (RD inst)) s else s)"

definition negx :: "u32 \<Rightarrow> PowerPCState \<Rightarrow> PowerPCState" where
  "negx inst s =
     (let a = gpr s (RA inst);
          s = set_gpr (RD inst) (NOT a + 1) s;
          s = (if OE inst then SetXER_OV (a = 0x80000000) s else s)
      in if Rc inst then Helper_UpdateCR0 (gpr s (RD inst)) s else s)"

definition subfx :: "u32 \<Rightarrow> PowerPCState \<Rightarrow> PowerPCState" where
  "subfx inst s =
     (let a = NOT (gpr s (RA inst));
          b = gpr s (RB inst);
          result = a + b + 1;
          s = set_gpr (RD inst) result s;
          s = (if OE inst then SetXER_OV (HasAddOverflowed a b result) s else s)
      in if Rc inst then Helper_UpdateCR0 result s else s)"

definition subfcx :: "u32 \<Rightarrow> PowerPCState \<Rightarrow> PowerPCState" where
  "subfcx inst s =
     (let a = NOT (gpr s (RA inst));
          b = gpr s (RB inst);
          result = a + b + 1;
          s = set_gpr (RD inst) result s;
          s = SetCarry (of_bool (a = 0xFFFFFFFF \<or> Helper_Carry b (a + 1) \<noteq> 0)) s;
          s = (if OE inst then SetXER_OV (HasAddOverflowed a b result) s else s)
      in if Rc inst then Helper_UpdateCR0 result s else s)"

definition subfex :: "u32 \<Rightarrow> PowerPCState \<Rightarrow> PowerPCState" where
  "subfex inst s =
     (let a = NOT (gpr s (RA inst));
          b = gpr s (RB inst);
          carry = GetCarry s;
          result = a + b + carry;
          s = set_gpr (RD inst) result s;
          s = SetCarry (of_bool (Helper_Carry a b \<noteq> 0 \<or> Helper_Carry (a + b) carry \<noteq> 0)) s;
          s = (if OE inst then SetXER_OV (HasAddOverflowed a b result) s else s)
      in if Rc inst then Helper_UpdateCR0 result s else s)"

definition subfmex :: "u32 \<Rightarrow> PowerPCState \<Rightarrow> PowerPCState" where
  "subfmex inst s =
     (let a = NOT (gpr s (RA inst));
          b = 0xFFFFFFFF;
          carry = GetCarry s;
          result = a + b + carry;
          s = set_gpr (RD inst) result s;
          s = SetCarry (Helper_Carry a (carry - 1)) s;
          s = (if OE inst then SetXER_OV (HasAddOverflowed a b result) s else s)
      in if Rc inst then Helper_UpdateCR0 result s else s)"

definition subfzex :: "u32 \<Rightarrow> PowerPCState \<Rightarrow> PowerPCState" where
  "subfzex inst s =
     (let a = NOT (gpr s (RA inst));
          carry = GetCarry s;
          result = a + carry;
          s = set_gpr (RD inst) result s;
          s = SetCarry (Helper_Carry a carry) s;
          s = (if OE inst then SetXER_OV (HasAddOverflowed a 0 result) s else s)
      in if Rc inst then Helper_UpdateCR0 result s else s)"

lemmas integer_defs = addi_def addic_def addic_rc_def addis_def andi_rc_def andis_rc_def
  cmpi_def cmpli_def mulli_def ori_def oris_def subfic_def xori_def xoris_def rlwimix_def
  rlwinmx_def rlwnmx_def andx_def andcx_def cmp_def cmpl_def cntlzwx_def eqvx_def extsbx_def
  extshx_def nandx_def norx_def orx_def orcx_def slwx_def srawx_def srawix_def srwx_def xorx_def
  addx_def addcx_def addex_def addmex_def addzex_def divwx_def divwux_def mulhwx_def mulhwux_def
  mullwx_def negx_def subfx_def subfcx_def subfex_def subfmex_def subfzex_def

section \<open>The invariant\<close>

lemma Helper_Carry_le: "Helper_Carry a b \<le> 1"
  by (simp add: Helper_Carry_def)

lemma cpu_ok_Helper_UpdateCR0 [cpu_ok_simps]: "cpu_ok (Helper_UpdateCR0 v s) = cpu_ok s"
  by (simp add: Helper_UpdateCR0_def Let_def cpu_ok_simps)

lemma cpu_ok_Helper_IntCompare [cpu_ok_simps]: "cpu_ok (Helper_IntCompare lt inst a b s) = cpu_ok s"
  by (simp add: Helper_IntCompare_def Let_def cpu_ok_simps)

lemma sraw_carry_le: "sraw_carry r a \<le> 1"
  by (simp add: sraw_carry_def)

lemma cpu_ok_integer [cpu_ok_simps]:
  assumes "cpu_ok s"
  shows "cpu_ok (addi inst s)" "cpu_ok (addic inst s)" "cpu_ok (addic_rc inst s)"
    "cpu_ok (addis inst s)" "cpu_ok (andi_rc inst s)" "cpu_ok (andis_rc inst s)"
    "cpu_ok (cmpi inst s)" "cpu_ok (cmpli inst s)" "cpu_ok (mulli inst s)" "cpu_ok (ori inst s)"
    "cpu_ok (oris inst s)" "cpu_ok (subfic inst s)" "cpu_ok (xori inst s)" "cpu_ok (xoris inst s)"
    "cpu_ok (rlwimix inst s)" "cpu_ok (rlwinmx inst s)" "cpu_ok (rlwnmx inst s)"
    "cpu_ok (andx inst s)" "cpu_ok (andcx inst s)" "cpu_ok (cmp inst s)" "cpu_ok (cmpl inst s)"
    "cpu_ok (cntlzwx inst s)" "cpu_ok (eqvx inst s)" "cpu_ok (extsbx inst s)"
    "cpu_ok (extshx inst s)" "cpu_ok (nandx inst s)" "cpu_ok (norx inst s)" "cpu_ok (orx inst s)"
    "cpu_ok (orcx inst s)" "cpu_ok (slwx inst s)" "cpu_ok (srawx inst s)" "cpu_ok (srawix inst s)"
    "cpu_ok (srwx inst s)" "cpu_ok (xorx inst s)" "cpu_ok (addx inst s)" "cpu_ok (addcx inst s)"
    "cpu_ok (addex inst s)" "cpu_ok (addmex inst s)" "cpu_ok (addzex inst s)"
    "cpu_ok (divwx inst s)" "cpu_ok (divwux inst s)" "cpu_ok (mulhwx inst s)"
    "cpu_ok (mulhwux inst s)" "cpu_ok (mullwx inst s)" "cpu_ok (negx inst s)"
    "cpu_ok (subfx inst s)" "cpu_ok (subfcx inst s)" "cpu_ok (subfex inst s)"
    "cpu_ok (subfmex inst s)" "cpu_ok (subfzex inst s)"
  by (simp_all add: assms integer_defs Let_def cpu_ok_simps Helper_Carry_le sraw_carry_le)

lemma cpu_ok_raise_trap: "cpu_ok (m_ppc_state i) \<Longrightarrow> cpu_ok (m_ppc_state (raise_trap i))"
  by (simp add: raise_trap_def Let_def cpu_ok_CheckExceptions cpu_ok_simps)

lemma cpu_ok_traps:
  "cpu_ok (m_ppc_state i) \<Longrightarrow> cpu_ok (m_ppc_state (twi inst i))"
  "cpu_ok (m_ppc_state i) \<Longrightarrow> cpu_ok (m_ppc_state (tw inst i))"
  by (simp_all add: twi_def tw_def Let_def cpu_ok_raise_trap)

end
