(* ===== verification/Integer_Semantics.thy ===== *)
theory Integer_Semantics
  imports Interpreter_Integer
begin

text \<open>
  What the integer instructions compute, against integer arithmetic: the carry and the overflow
  they record, the order a comparison writes, the flags of a recorded result, the bits of a
  rotation, the quotient of a shift and of a division, sums and products of two words. The
  theorems are about instruction words of any register assignment, and those on more than one
  instruction say which registers have to differ.
\<close>

section \<open>Carry\<close>

lemma unat_NOT: "unat (NOT a :: u32) = 2 ^ 32 - 1 - unat a"
proof -
  have "NOT a = - 1 - a" by (simp add: not_eq_complement)
  moreover have "unat (- 1 - a) = unat (- 1 :: u32) - unat a"
    by (rule unat_sub) simp
  ultimately show ?thesis by (simp add: unsigned_minus_1_eq_mask mask_eq_exp_minus_1)
qed

lemma Helper_Carry_eq: "Helper_Carry a b = of_bool (2 ^ 32 \<le> unat a + unat b)"
  using unat_less [of a] by (auto simp: Helper_Carry_def word_less_nat_alt unat_NOT)

lemma Helper_Carry_neq_0: "Helper_Carry a b \<noteq> 0 \<longleftrightarrow> 2 ^ 32 \<le> unat a + unat b"
  by (simp add: Helper_Carry_eq)

lemma unat_carry:
  "unat (a + b :: u32) + (if 2 ^ 32 \<le> unat a + unat b then 2 ^ 32 else 0) = unat a + unat b"
  using unat_less [of a] unat_less [of b] by (auto simp: unat_word_ariths mod_if)

lemma carry3:
  assumes "(c :: u32) \<le> 1"
  shows "Helper_Carry a b \<noteq> 0 \<or> Helper_Carry (a + b) c \<noteq> 0 \<longleftrightarrow>
      2 ^ 32 \<le> unat a + unat b + unat c"
proof -
  have "unat c \<le> 1" using assms by (simp add: word_le_nat_alt)
  then show ?thesis
    using unat_carry [of a b] unat_less [of a] unat_less [of b]
    unfolding Helper_Carry_neq_0 by (auto split: if_splits)
qed

lemma le_1_cases: "(w :: 'a::len word) \<le> 1 \<Longrightarrow> w = 0 \<or> w = 1"
proof -
  assume "w \<le> 1"
  then have "unat w \<le> 1" by (simp add: word_le_nat_alt)
  then have "unat w = 0 \<or> unat w = 1" by arith
  then show ?thesis by (metis unsigned_0 unsigned_1 word_unat_eq_iff)
qed

lemma GetCarry_le: "cpu_ok s \<Longrightarrow> GetCarry s \<le> 1"
  using le_1_cases [of "xer_ca s"] by (auto simp: cpu_ok_def state_ok_def GetCarry_def)

lemma Helper_UpdateCR0_simps [simp]:
  "GetCarry (Helper_UpdateCR0 v s) = GetCarry s" "gpr (Helper_UpdateCR0 v s) = gpr s"
  "GetXER_SO (Helper_UpdateCR0 v s) = GetXER_SO s" "GetXER_OV (Helper_UpdateCR0 v s) = GetXER_OV s"
  by (simp_all add: Helper_UpdateCR0_def Let_def GetCarry_def GetXER_SO_def GetXER_OV_def)

lemma SetXER_OV_simps [simp]:
  "GetCarry (SetXER_OV v s) = GetCarry s" "gpr (SetXER_OV v s) = gpr s"
  by (simp_all add: SetXER_OV_def SetXER_SO_def GetCarry_def)

lemma SetCarry_simps [simp]:
  "gpr (SetCarry v s) = gpr s" "c \<le> 1 \<Longrightarrow> GetCarry (SetCarry c s) = c"
  using le_1_cases [of c] by (auto simp: SetCarry_def GetCarry_def)

lemma SetXER_OV_bits:
  "GetXER_OV (SetXER_OV v s) = of_bool v"
  "GetXER_SO (SetXER_OV v s) = (if v then GetXER_SO s OR 1 else GetXER_SO s)"
proof -
  let ?x = "xer_so_ov s" and ?v = "of_bool v :: u8"
  have fe: "(0xFE :: u8) = NOT 1" by simp
  have "xer_so_ov (SetXER_OV v s) = ((?x AND NOT 1) OR ?v) OR push_bit 1 ?v"
    unfolding fe [symmetric] by (simp add: SetXER_OV_def SetXER_SO_def)
  moreover have "(((?x AND NOT 1) OR ?v) OR push_bit 1 ?v) AND 1 = ?v"
    by (rule bit_word_eqI, unfold bit_simps) (auto simp: bit_1_iff)
  moreover have "drop_bit 1 (((?x AND NOT 1) OR ?v) OR push_bit 1 ?v) = drop_bit 1 ?x OR ?v"
    by (rule bit_word_eqI, unfold bit_simps) (auto simp: bit_1_iff dest: bit_imp_le_length)
  ultimately show "GetXER_OV (SetXER_OV v s) = of_bool v"
    "GetXER_SO (SetXER_OV v s) = (if v then GetXER_SO s OR 1 else GetXER_SO s)"
    by (simp_all add: GetXER_OV_def GetXER_SO_def unsigned_or_eq)
qed

section \<open>Signed overflow\<close>

lemma sint_bit_31: "bit (w :: u32) 31 \<longleftrightarrow> sint w < 0"
  using bit_last_iff [of w] by simp

lemma sint_range32: "- (2 ^ 31) \<le> sint (w :: u32)" "sint (w :: u32) < 2 ^ 31"
  using sint_greater_eq [of w] sint_less [of w] by simp_all

lemma sint_word_of_int32:
  assumes "- (2 ^ 32) \<le> k" "k < 2 ^ 32"
  shows "sint (word_of_int k :: u32) =
    (if k < - (2 ^ 31) then k + 2 ^ 32 else if 2 ^ 31 \<le> k then k - 2 ^ 32 else k)"
proof -
  have "sint (word_of_int k :: u32) = (k + 2 ^ 31) mod 2 ^ 32 - 2 ^ 31"
    by (simp add: signed_of_int signed_take_bit_eq_take_bit_shift take_bit_eq_mod)
  moreover have "(k + 2 ^ 31) mod 2 ^ 32 = (if k < - (2 ^ 31) then k + 2 ^ 31 + 2 ^ 32
      else if 2 ^ 31 \<le> k then k + 2 ^ 31 - 2 ^ 32 else k + 2 ^ 31)"
  proof -
    have e: "(k + 2 ^ 31) mod 2 ^ 32 = (k + 2 ^ 31 + 2 ^ 32) mod 2 ^ 32"
      "(k + 2 ^ 31) mod 2 ^ 32 = (k + 2 ^ 31 - 2 ^ 32) mod 2 ^ 32"
      by (simp_all only: mod_add_self2 minus_mod_self2)
    consider (low) "k < - (2 ^ 31)" | (high) "\<not> k < - (2 ^ 31)" "2 ^ 31 \<le> k"
      | (mid) "\<not> k < - (2 ^ 31)" "\<not> 2 ^ 31 \<le> k"
      by blast
    then show ?thesis
    proof cases
      case low
      have "(k + 2 ^ 31 + 2 ^ 32) mod 2 ^ 32 = k + 2 ^ 31 + 2 ^ 32"
        by (rule mod_pos_pos_trivial) (use low assms in simp_all)
      then show ?thesis using low e(1) by (simp only: if_True)
    next
      case high
      have "(k + 2 ^ 31 - 2 ^ 32) mod 2 ^ 32 = k + 2 ^ 31 - 2 ^ 32"
        by (rule mod_pos_pos_trivial) (use high assms in simp_all)
      then show ?thesis using high e(2) by (simp only: if_True if_False)
    next
      case mid
      have "(k + 2 ^ 31) mod 2 ^ 32 = k + 2 ^ 31"
        by (rule mod_pos_pos_trivial) (use mid in simp_all)
      then show ?thesis using mid by (simp only: if_False)
    qed
  qed
  ultimately show ?thesis by auto
qed

lemma HasAddOverflowed_sign:
  "HasAddOverflowed x y r \<longleftrightarrow> (sint x < 0 \<longleftrightarrow> \<not> sint r < 0) \<and> (sint y < 0 \<longleftrightarrow> \<not> sint r < 0)"
proof -
  have "drop_bit 31 w = of_bool (bit w 31)" for w :: u32
  proof (rule bit_word_eqI)
    fix n
    show "bit (drop_bit 31 w) n = bit (of_bool (bit w 31) :: u32) n"
    proof (cases "n = 0")
      case False
      then show ?thesis using bit_imp_le_length [of w "31 + n"] by (auto simp: bit_simps bit_1_iff)
    qed (simp add: bit_simps)
  qed
  then show ?thesis
    unfolding HasAddOverflowed_def sint_bit_31 [symmetric] by (auto simp: bit_and_iff bit_xor_iff)
qed

lemma overflow_arith:
  fixes x y z :: int
  assumes "- (2 ^ 31) \<le> x" "x < 2 ^ 31" "- (2 ^ 31) \<le> y" "y < 2 ^ 31" "0 \<le> z" "z \<le> 1"
  shows "- (2 ^ 32) \<le> x + y + z" "x + y + z < 2 ^ 32"
    "r = (if x + y + z < - (2 ^ 31) then x + y + z + 2 ^ 32
          else if 2 ^ 31 \<le> x + y + z then x + y + z - 2 ^ 32 else x + y + z) \<Longrightarrow>
     (x < 0 \<longleftrightarrow> \<not> r < 0) \<and> (y < 0 \<longleftrightarrow> \<not> r < 0) \<longleftrightarrow>
     x + y + z < - (2 ^ 31) \<or> 2 ^ 31 \<le> x + y + z"
  using assms by (simp_all split: if_splits) linarith

lemma HasAddOverflowed_eq:
  assumes "(c :: u32) \<le> 1"
  shows "HasAddOverflowed a b (a + b + c) \<longleftrightarrow>
    sint a + sint b + int (unat c) < - (2 ^ 31) \<or> 2 ^ 31 \<le> sint a + sint b + int (unat c)"
proof -
  have "0 \<le> int (unat c)" "int (unat c) \<le> 1" using assms le_1_cases [of c] by auto
  note arith = overflow_arith [OF sint_range32 [of a] sint_range32 [of b] this]
  have "a + b + c = word_of_int (sint a + sint b + int (unat c))" by simp
  then show ?thesis
    unfolding HasAddOverflowed_sign
    by (intro arith(3)) (simp only: sint_word_of_int32 [OF arith(1,2)])
qed

lemma SetCarry_XER [simp]:
  "GetXER_OV (SetCarry c s) = GetXER_OV s" "GetXER_SO (SetCarry c s) = GetXER_SO s"
  "GetXER_OV (set_gpr r v s) = GetXER_OV s" "GetXER_SO (set_gpr r v s) = GetXER_SO s"
  "GetCarry (set_gpr r v s) = GetCarry s"
  by (simp_all add: SetCarry_def GetXER_OV_def GetXER_SO_def GetCarry_def)

lemma HasAddOverflowed_eq0:
  "HasAddOverflowed a b (a + b) \<longleftrightarrow> sint a + sint b < - (2 ^ 31) \<or> 2 ^ 31 \<le> sint a + sint b"
  using HasAddOverflowed_eq [of 0 a b] by simp

lemma add_gpr [simp]:
  "gpr (addcx inst s) = (gpr s)(RD inst := gpr s (RA inst) + gpr s (RB inst))"
  "gpr (addex inst s) = (gpr s)(RD inst := gpr s (RA inst) + gpr s (RB inst) + GetCarry s)"
  "gpr (subfcx inst s) = (gpr s)(RD inst := NOT (gpr s (RA inst)) + gpr s (RB inst) + 1)"
  "gpr (subfex inst s) = (gpr s)(RD inst := NOT (gpr s (RA inst)) + gpr s (RB inst) + GetCarry s)"
  by (simp_all add: addcx_def addex_def subfcx_def subfex_def Let_def)

lemma unat_carry3:
  assumes "unat (c :: u32) \<le> 1"
  shows "unat (a + b + c :: u32) + (if 2 ^ 32 \<le> unat a + unat b + unat c then 2 ^ 32 else 0) =
    unat a + unat b + unat c"
proof -
  have "unat (a + b + c) = (unat a + unat b + unat c) mod 2 ^ 32"
    by (simp add: unat_word_ariths mod_simps)
  then show ?thesis
    using unat_less [of a] unat_less [of b] assms by (auto simp: mod_if)
qed

lemma add_carry:
  "GetCarry (addcx inst s) = of_bool (2 ^ 32 \<le> unat (gpr s (RA inst)) + unat (gpr s (RB inst)))"
  "GetCarry s \<le> 1 \<Longrightarrow> GetCarry (addex inst s) =
     of_bool (2 ^ 32 \<le> unat (gpr s (RA inst)) + unat (gpr s (RB inst)) + unat (GetCarry s))"
  "GetCarry (subfcx inst s) =
     of_bool (2 ^ 32 \<le> unat (NOT (gpr s (RA inst))) + unat (gpr s (RB inst)) + 1)"
  "GetCarry s \<le> 1 \<Longrightarrow> GetCarry (subfex inst s) =
     of_bool (2 ^ 32 \<le> unat (NOT (gpr s (RA inst))) + unat (gpr s (RB inst)) + unat (GetCarry s))"
proof -
  show "GetCarry (addcx inst s) = of_bool (2 ^ 32 \<le> unat (gpr s (RA inst)) + unat (gpr s (RB inst)))"
    by (simp add: addcx_def Let_def Helper_Carry_le Helper_Carry_eq)
  show "GetCarry (addex inst s) =
     of_bool (2 ^ 32 \<le> unat (gpr s (RA inst)) + unat (gpr s (RB inst)) + unat (GetCarry s))"
    if "GetCarry s \<le> 1"
  proof -
    have "Helper_Carry (gpr s (RA inst) + gpr s (RB inst)) (GetCarry s) \<noteq> 0 \<Longrightarrow> GetCarry s \<noteq> 0"
      by (auto simp: Helper_Carry_def)
    then show ?thesis
      using carry3 [OF that, of "gpr s (RA inst)" "gpr s (RB inst)"]
      by (simp add: addex_def Let_def) blast
  qed
  show "GetCarry (subfex inst s) =
     of_bool (2 ^ 32 \<le> unat (NOT (gpr s (RA inst))) + unat (gpr s (RB inst)) + unat (GetCarry s))"
    if "GetCarry s \<le> 1"
    using carry3 [OF that, of "NOT (gpr s (RA inst))" "gpr s (RB inst)"]
    by (simp add: subfex_def Let_def)
  show "GetCarry (subfcx inst s) =
     of_bool (2 ^ 32 \<le> unat (NOT (gpr s (RA inst))) + unat (gpr s (RB inst)) + 1)"
  proof -
    define a where "a = NOT (gpr s (RA inst))"
    have "a = 0xFFFFFFFF \<or> Helper_Carry (gpr s (RB inst)) (a + 1) \<noteq> 0 \<longleftrightarrow>
        2 ^ 32 \<le> unat a + unat (gpr s (RB inst)) + 1"
    proof (cases "a = 0xFFFFFFFF")
      case True
      then have "unat a = 2 ^ 32 - 1" by simp
      then show ?thesis using True by simp
    next
      case False
      then have "unat (a + 1) = unat a + 1"
      proof -
        have "unat a \<noteq> unat (0xFFFFFFFF :: u32)" using False by (metis word_unat_eq_iff)
        then have "unat a + 1 < 2 ^ 32" using unat_less [of a] by simp
        then show ?thesis by (simp add: unat_word_ariths)
      qed
      then show ?thesis using False by (simp add: Helper_Carry_neq_0 add.commute add.left_commute)
    qed
    then show ?thesis by (simp add: subfcx_def Let_def a_def)
  qed
qed

text \<open>
  (C25) \<^verbatim>\<open>addc\<close> on the low words and \<^verbatim>\<open>adde\<close> on the high words add two 64-bit
  numbers, with the carry out of the sum left in the register: the recorded carry is the
  carry, whatever the operands.
\<close>

theorem wide_add:
  assumes "RD lo \<noteq> RA hi" "RD lo \<noteq> RB hi" "RD lo \<noteq> RD hi"
  shows "let t = addex hi (addcx lo s); wide = (\<lambda>s h l. 2 ^ 32 * unat (gpr s h) + unat (gpr s l))
    in 2 ^ 64 * unat (GetCarry t) + wide t (RD hi) (RD lo) =
       wide s (RA hi) (RA lo) + wide s (RB hi) (RB lo)"
proof -
  let ?s = "addcx lo s"
  have c: "GetCarry ?s \<le> 1" "unat (GetCarry ?s) \<le> 1" by (simp_all add: add_carry)
  have "unat (gpr s (RA lo) + gpr s (RB lo)) + 2 ^ 32 * unat (GetCarry ?s) =
      unat (gpr s (RA lo)) + unat (gpr s (RB lo))"
    using unat_carry [of "gpr s (RA lo)" "gpr s (RB lo)"] by (auto simp: add_carry split: if_splits)
  moreover have "unat (gpr s (RA hi) + gpr s (RB hi) + GetCarry ?s) +
      2 ^ 32 * unat (GetCarry (addex hi ?s)) =
      unat (gpr s (RA hi)) + unat (gpr s (RB hi)) + unat (GetCarry ?s)"
    using unat_carry3 [OF c(2), of "gpr s (RA hi)" "gpr s (RB hi)"] assms
    by (auto simp: add_carry(2) [OF c(1)] split: if_splits)
  ultimately show ?thesis
    using assms by (simp add: Let_def)
qed

lemma wide_add_witness:
  "let s = boot_state\<lparr>gpr := (\<lambda>_. 0xFFFFFFFF)\<rparr>; t = addex 0x7C852914 (addcx 0x7C642814 s)
   in gpr t 4 = 0xFFFFFFFF \<and> gpr t 3 = 0xFFFFFFFE \<and> GetCarry t = 1"
  using wide_add [of "0x7C642814" "0x7C852914" "boot_state\<lparr>gpr := (\<lambda>_. 0xFFFFFFFF)\<rparr>"]
  by (simp add: RD_def RA_def RB_def Let_def add_carry)

text \<open>
  \<^verbatim>\<open>subfc\<close> and \<^verbatim>\<open>subfe\<close> subtract 64-bit numbers in the same way: the result and
  the subtrahend add up to the minuend modulo \<open>2 ^ 64\<close>, and the carry is left set exactly when
  there was no borrow.
\<close>

theorem wide_sub:
  assumes "RD lo \<noteq> RA hi" "RD lo \<noteq> RB hi" "RD lo \<noteq> RD hi"
  shows "let t = subfex hi (subfcx lo s); wide = (\<lambda>s h l. 2 ^ 32 * unat (gpr s h) + unat (gpr s l))
    in wide t (RD hi) (RD lo) + wide s (RA hi) (RA lo) + 2 ^ 64 * unat (GetCarry t) =
       wide s (RB hi) (RB lo) + 2 ^ 64"
proof -
  let ?s = "subfcx lo s" and ?a = "gpr s (RA lo)" and ?b = "gpr s (RB lo)"
    and ?c = "gpr s (RA hi)" and ?d = "gpr s (RB hi)"
  have c: "GetCarry ?s \<le> 1" "unat (GetCarry ?s) \<le> 1" by (simp_all add: add_carry)
  have n: "unat (NOT ?a) + unat ?a = 2 ^ 32 - 1" "unat (NOT ?c) + unat ?c = 2 ^ 32 - 1"
    using unat_less [of ?a] unat_less [of ?c] by (simp_all add: unat_NOT)
  have "unat (NOT ?a + ?b + 1) + 2 ^ 32 * unat (GetCarry ?s) = unat (NOT ?a) + unat ?b + 1"
    using unat_carry3 [of 1 "NOT ?a" ?b] by (auto simp: add_carry split: if_splits)
  moreover have "unat (NOT ?c + ?d + GetCarry ?s) + 2 ^ 32 * unat (GetCarry (subfex hi ?s)) =
      unat (NOT ?c) + unat ?d + unat (GetCarry ?s)"
    using unat_carry3 [OF c(2), of "NOT ?c" ?d] assms
    by (auto simp: add_carry(4) [OF c(1)] split: if_splits)
  ultimately show ?thesis
    using assms n by (simp add: Let_def)
qed

lemma wide_sub_witness:
  "let s = boot_state\<lparr>gpr := (\<lambda>_. 5)\<rparr>; t = subfex 0x7C852910 (subfcx 0x7C642810 s)
   in gpr t 4 = 0 \<and> gpr t 3 = 0 \<and> GetCarry t = 1"
  using wide_sub [of "0x7C642810" "0x7C852910" "boot_state\<lparr>gpr := (\<lambda>_. 5)\<rparr>"]
  by (simp add: RD_def RA_def RB_def Let_def add_carry)

lemma addmex_carry_clear:
  assumes "GetCarry s = 0"
  shows "GetCarry (addmex inst s) = of_bool (2 ^ 32 \<le> unat (gpr s (RA inst)) + unat (0xFFFFFFFF :: u32))"
  using assms by (simp add: addmex_def Let_def Helper_Carry_le Helper_Carry_eq unsigned_minus_1_eq_mask mask_eq_exp_minus_1)



section \<open>Overflow\<close>

definition in_s32 :: "int \<Rightarrow> bool" where
  "in_s32 k \<longleftrightarrow> - (2 ^ 31) \<le> k \<and> k < 2 ^ 31"

lemma sint_NOT32: "sint (NOT a :: u32) = - sint a - 1"
proof -
  have eq: "NOT a = word_of_int (- sint a - 1)" by (simp add: not_eq_complement)
  have range: "- (2 ^ 32) \<le> - sint a - 1" "- sint a - 1 < 2 ^ 32"
    "\<not> - sint a - 1 < - (2 ^ 31)" "\<not> 2 ^ 31 \<le> - sint a - 1"
    using sint_range32 [of a] by simp_all
  show ?thesis
    unfolding eq sint_word_of_int32 [OF range(1,2)] using range by (simp only: if_False)
qed

text \<open>What an instruction with the overflow bit leaves in the register for the exact result \<open>k\<close>.\<close>

definition records_overflow ::
  "(u32 \<Rightarrow> PowerPCState \<Rightarrow> PowerPCState) \<Rightarrow> u32 \<Rightarrow> PowerPCState \<Rightarrow> int \<Rightarrow> bool" where
  "records_overflow f inst s k \<longleftrightarrow>
     GetXER_OV (f inst s) = of_bool (\<not> in_s32 k) \<and>
     GetXER_SO (f inst s) = (if in_s32 k then GetXER_SO s else GetXER_SO s OR 1)"

lemma HasAddOverflowed_in_s32:
  "(c :: u32) \<le> 1 \<Longrightarrow> HasAddOverflowed a b (a + b + c) = (\<not> in_s32 (sint a + sint b + uint c))"
  "HasAddOverflowed a b (a + b) = (\<not> in_s32 (sint a + sint b))"
  by (simp_all add: HasAddOverflowed_eq HasAddOverflowed_eq0 in_s32_def not_le not_less)

lemma product_range:
  "\<bar>sint (a :: u32) * sint (b :: u32)\<bar> \<le> 2 ^ 62"
proof -
  have "\<bar>sint a\<bar> \<le> 2 ^ 31" "\<bar>sint b\<bar> \<le> 2 ^ 31"
    using sint_range32 [of a] sint_range32 [of b] by auto
  then have "\<bar>sint a\<bar> * \<bar>sint b\<bar> \<le> 2 ^ 31 * 2 ^ 31" by (rule mult_mono) auto
  then show ?thesis by (simp add: abs_mult)
qed

lemma sint_scast64: "sint (scast (a :: u32) :: u64) = sint a"
  by (rule sint_up_scast) (simp add: is_up)

lemma sint_product:
  "sint (scast a * scast b :: u64) = sint (a :: u32) * sint (b :: u32)"
proof -
  have "- (2 ^ 63) \<le> sint a * sint b" "sint a * sint b < 2 ^ 63"
    using product_range [of a b] by auto
  then have "signed_take_bit 63 (sint a * sint b) = sint a * sint b"
    by (rule signed_take_bit_int_eq_self)
  then show ?thesis by (simp add: sint_word_mult sint_scast64)
qed

text \<open>
  (C14) With the overflow bit enabled, \<^verbatim>\<open>add\<close>, \<^verbatim>\<open>addc\<close>, \<^verbatim>\<open>adde\<close>, \<^verbatim>\<open>subf\<close>,
  \<^verbatim>\<open>subfc\<close>, \<^verbatim>\<open>subfe\<close>, \<^verbatim>\<open>neg\<close> and \<^verbatim>\<open>mullw\<close> set the overflow flag exactly
  when the signed result does not fit in 32 bits, and the summary flag is set by an overflow
  and never cleared.
\<close>

theorem overflow_exact:
  assumes "OE inst" and "GetCarry s \<le> 1"
  shows "let a = sint (gpr s (RA inst)); b = sint (gpr s (RB inst)); c = uint (GetCarry s)
    in records_overflow addx inst s (a + b) \<and> records_overflow addcx inst s (a + b) \<and>
       records_overflow addex inst s (a + b + c) \<and> records_overflow subfx inst s (b - a) \<and>
       records_overflow subfcx inst s (b - a) \<and> records_overflow subfex inst s (b - a - 1 + c) \<and>
       records_overflow negx inst s (- a) \<and> records_overflow mullwx inst s (a * b)"
proof -
  let ?a = "gpr s (RA inst)" and ?b = "gpr s (RB inst)"
  have one: "HasAddOverflowed (NOT ?a) ?b (NOT ?a + ?b + 1) = (\<not> in_s32 (sint ?b - sint ?a))"
    using HasAddOverflowed_in_s32(1) [of 1 "NOT ?a" ?b] by (simp add: sint_NOT32)
  have carry: "HasAddOverflowed (NOT ?a) ?b (NOT ?a + ?b + GetCarry s) =
      (\<not> in_s32 (sint ?b - sint ?a - 1 + uint (GetCarry s)))"
    using HasAddOverflowed_in_s32(1) [OF assms(2), of "NOT ?a" ?b]
    by (simp add: sint_NOT32 algebra_simps)
  have neg: "?a = 0x80000000 \<longleftrightarrow> \<not> in_s32 (- sint ?a)"
  proof -
    have "?a = 0x80000000 \<longleftrightarrow> sint ?a = sint (0x80000000 :: u32)" by (metis signed_word_eqI)
    then show ?thesis using sint_range32 [of ?a] by (auto simp: in_s32_def)
  qed
  have mul: "sint (scast ?a * scast ?b :: u64) < - 0x80000000 \<or>
      sint (scast ?a * scast ?b :: u64) > 0x7FFFFFFF \<longleftrightarrow> \<not> in_s32 (sint ?a * sint ?b)"
    by (auto simp: sint_product in_s32_def)
  show ?thesis
    using assms(1) HasAddOverflowed_in_s32(1) [OF assms(2), of ?a ?b] one carry neg mul
    by (simp add: Let_def records_overflow_def addx_def addcx_def addex_def subfx_def subfcx_def
        subfex_def negx_def mullwx_def SetXER_OV_bits HasAddOverflowed_in_s32(2))
qed

lemma overflow_exact_witness:
  "GetXER_OV (addx 0x7C642E14 (boot_state\<lparr>gpr := (\<lambda>_. 0x7FFFFFFF)\<rparr>)) = 1 \<and>
   GetXER_SO (addx 0x7C642E14 (boot_state\<lparr>gpr := (\<lambda>_. 0x7FFFFFFF)\<rparr>)) = 1"
  using overflow_exact [of "0x7C642E14" "boot_state\<lparr>gpr := (\<lambda>_. 0x7FFFFFFF)\<rparr>"]
  by (simp add: OE_def RA_def RB_def Let_def records_overflow_def in_s32_def boot_state_def
      GetCarry_def GetXER_SO_def)

section \<open>Flags\<close>

definition order_flag :: "int \<Rightarrow> u32" where
  "order_flag k = (if k < 0 then CR_LT else if 0 < k then CR_GT else CR_EQ)"

lemma order_flag_less: "order_flag k OR so < 16" if "so \<le> 1" for so :: u32
  using le_1_cases [OF that] by (auto simp: order_flag_def cr_defs)

lemma so_of_bool: "so \<le> 1 \<Longrightarrow> (if so \<noteq> 0 then x OR 1 else x) = x OR (so :: u32)"
  using le_1_cases [of so] by auto

lemma bit_scast64: "bit (scast (v :: u32) :: u64) n \<longleftrightarrow> n < 64 \<and> (if n < 32 then bit v n else bit v 31)"
  by (cases "n = 31") (auto simp: bit_signed_iff min_def)

lemma bit_replace:
  assumes "k < 64"
  shows "bit ((x AND NOT (push_bit k 1)) OR push_bit k (of_bool b) :: u64) n \<longleftrightarrow>
    (if n = k then b else bit x n)"
  using assms bit_imp_le_length [of x n]
  by (auto simp: bit_or_iff bit_and_iff bit_not_iff bit_push_bit_iff bit_exp_iff bit_1_iff)

lemma recorded_flags:
  assumes so: "(so :: u32) \<le> 1"
  shows "cr_flags (((if v = 0 then scast v OR push_bit 63 1 else scast (v :: u32)) AND
      NOT (push_bit 59 1)) OR push_bit 59 (ucast so)) = order_flag (sint v) OR so"
proof -
  define x where "x = (if v = 0 then scast v OR push_bit 63 1 else scast v :: u64)"
  define w where "w = (x AND NOT (push_bit 59 1)) OR push_bit 59 (ucast so)"
  have so_bit: "ucast so = (of_bool (so = 1) :: u64)"
    using le_1_cases [OF so] by auto
  have bits: "bit w n \<longleftrightarrow> (if n = 59 then so = 1 else bit x n)" for n
    unfolding w_def so_bit by (rule bit_replace) simp
  have x62: "bit x 62 \<longleftrightarrow> sint v < 0" and x63: "bit x 63 \<longleftrightarrow> v = 0 \<or> sint v < 0"
    by (auto simp: x_def bit_scast64 sint_bit_31 bit_or_iff)
  have "take_bit 32 w = ucast v"
  proof (rule bit_word_eqI)
    fix n
    show "bit (take_bit 32 w) n \<longleftrightarrow> bit (ucast v :: u64) n"
    proof (cases "n < 32")
      case True
      then have "bit x n = bit v n"
        unfolding x_def by (auto simp: bit_scast64 bit_or_iff bit_push_bit_iff simp del: push_bit_of_1)
      then show ?thesis using True by (simp add: bit_take_bit_iff bits bit_ucast_iff)
    next
      case False
      then show ?thesis
        using bit_imp_le_length [of v n] by (auto simp: bit_take_bit_iff bit_ucast_iff)
    qed
  qed
  moreover have "ucast v = (0 :: u64) \<longleftrightarrow> v = 0" by transfer simp
  ultimately have low: "take_bit 32 w = 0 \<longleftrightarrow> v = 0" by simp
  then have "v \<noteq> 0 \<Longrightarrow> w \<noteq> 0" by auto
  moreover have "sint v = 0 \<longleftrightarrow> v = 0" by (metis signed_0 signed_word_eqI)
  ultimately have "cr_flags w = order_flag (sint v) OR so"
    using le_1_cases [OF so] x62 x63 low bits [of 59] bits [of 62] bits [of 63]
    by (auto simp: cr_flags_def order_flag_def cr_defs)
  then show ?thesis by (simp only: w_def x_def)
qed

text \<open>
  A recorded result: field 0 of the condition register reads as the sign of the value,
  less, greater or equal to zero, with the summary overflow flag, and the other fields keep
  their value. The overflow flag is stored in a bit of the sign-extended result and does not
  change what the three other flags read.
\<close>

theorem record_bit_flags:
  assumes "cpu_ok s"
  shows "GetField (cr (Helper_UpdateCR0 v s)) f =
    (if ucast f = (0 :: 3 word) then order_flag (sint v) OR GetXER_SO s else GetField (cr s) f)"
proof -
  have "GetXER_SO s \<le> 1" using assms by (simp add: cpu_ok_def GetXER_SO_le)
  from recorded_flags [OF this, of v] show ?thesis
    by (simp add: GetField_flags Helper_UpdateCR0_def Let_def CR_EMU_SO_BIT_def)
qed

lemma record_bit_flags_witness:
  "GetField (cr (Helper_UpdateCR0 0xFFFFFFFE (boot_state\<lparr>xer_so_ov := 2, feature_flags := 0\<rparr>))) 0 = 9"
  using record_bit_flags [of "boot_state\<lparr>xer_so_ov := 2, feature_flags := 0\<rparr>" "0xFFFFFFFE" 0]
  by (simp add: boot_state_def cpu_ok_def state_ok_def flags_ok_alt perf_bits_def order_flag_def
      GetXER_SO_def cr_defs)

text \<open>
  The four compare instructions write the order of their operands, signed for
  \<^verbatim>\<open>cmp\<close> and \<^verbatim>\<open>cmpi\<close> and unsigned for \<^verbatim>\<open>cmpl\<close> and \<^verbatim>\<open>cmpli\<close>, with the
  summary overflow flag into the field the instruction names and into no other.
\<close>

theorem compare_writes_order:
  assumes "cpu_ok s"
  shows "let a = gpr s (RA inst); b = gpr s (RB inst);
      writes = (\<lambda>t k. \<forall>f. GetField (cr t) f =
        (if ucast f = (ucast (CRFD inst) :: 3 word) then order_flag k OR GetXER_SO s
         else GetField (cr s) f))
    in writes (cmp inst s) (sint a - sint b) \<and> writes (cmpi inst s) (sint a - sint (SIMM_16 inst)) \<and>
       writes (cmpl inst s) (uint a - uint b) \<and> writes (cmpli inst s) (uint a - uint (UIMM inst))"
proof -
  have so: "GetXER_SO s \<le> 1" using assms by (simp add: cpu_ok_def GetXER_SO_le)
  have "GetField (cr (Helper_IntCompare lt inst a b s)) f =
      (if ucast f = (ucast (CRFD inst) :: 3 word) then order_flag k OR GetXER_SO s
       else GetField (cr s) f)"
    if "lt a b \<longleftrightarrow> k < 0" "lt b a \<longleftrightarrow> 0 < k" for lt a b k f
    using that order_flag_less [OF so, of k] so_of_bool [OF so]
    by (auto simp: Helper_IntCompare_def Let_def GetField_SetField order_flag_def CR_SO_def)
  then show ?thesis
    by (auto simp: cmp_def cmpi_def cmpl_def cmpli_def Let_def s32_less_def u32_less_def
        word_less_def)
qed

lemma compare_writes_order_witness:
  "GetField (cr (cmp 0x7C032000 (boot_state\<lparr>gpr := (\<lambda>_. 0)(3 := 0x80000000)\<rparr>))) 0 = 8 \<and>
   GetField (cr (cmpl 0x7C032040 (boot_state\<lparr>gpr := (\<lambda>_. 0)(3 := 0x80000000)\<rparr>))) 0 = 4"
  using compare_writes_order [of "boot_state\<lparr>gpr := (\<lambda>_. 0)(3 := 0x80000000)\<rparr>" "0x7C032000"]
    compare_writes_order [of "boot_state\<lparr>gpr := (\<lambda>_. 0)(3 := 0x80000000)\<rparr>" "0x7C032040"]
  by (simp add: boot_state_def cpu_ok_def state_ok_def flags_ok_alt perf_bits_def order_flag_def
      GetXER_SO_def cr_defs Let_def RA_def RB_def CRFD_def)

section \<open>Rotation\<close>

lemma ucast5_less: "(ucast (w :: 5 word) :: u32) < 32"
  using unat_less [of w] by (simp add: word_less_nat_alt unsigned_ucast_eq take_bit_nat_eq_self)

lemma rotate_fields: "MB inst < 32" "ME inst < 32" "SH inst < 32"
  by (simp_all add: MB_def ME_def SH_def ucast5_less)

lemma bit_rotl:
  assumes "i < 32"
  shows "bit (word_rotl k (w :: u32)) (31 - i) \<longleftrightarrow> bit w (31 - (i + k) mod 32)"
proof -
  have "(31 - i + (32 - k mod 32)) mod 32 = 31 - (i + k) mod 32"
  proof -
    define m where "m = k mod 32"
    have "(i + k) mod 32 = (i + m) mod 32" by (simp add: m_def mod_simps)
    moreover have "m < 32" by (simp add: m_def)
    moreover have "(31 - i + (32 - m)) mod 32 = 31 - (i + m) mod 32"
      by (cases "i + m < 32") (use assms \<open>m < 32\<close> in \<open>auto simp: mod_if\<close>)
    ultimately show ?thesis by (simp add: m_def)
  qed
  then show ?thesis using assms by (auto simp: bit_word_rotl_iff)
qed

text \<open>
  (C32) \<^verbatim>\<open>rlwinm\<close> and \<^verbatim>\<open>rlwimi\<close>, bit by bit with bit 0 the most significant: inside
  the mask, which may wrap around, a bit of the result is the bit \<open>SH\<close> places to the right in
  the source; outside it is zero, or the old bit for the insert.
\<close>

theorem rotate_and_mask_bits:
  assumes "i < 32"
  shows "let mb = unat (MB inst); me = unat (ME inst); sh = unat (SH inst);
      inside = (if mb \<le> me then mb \<le> i \<and> i \<le> me else mb \<le> i \<or> i \<le> me);
      source = bit (gpr s (RS inst)) (31 - (i + sh) mod 32)
    in bit (gpr (rlwinmx inst s) (RA inst)) (31 - i) = (inside \<and> source) \<and>
       bit (gpr (rlwimix inst s) (RA inst)) (31 - i) =
         (if inside then source else bit (gpr s (RA inst)) (31 - i))"
  using rotation_mask_bits [OF rotate_fields(1,2) assms, of inst inst] assms
  by (auto simp: rlwinmx_def rlwimix_def Let_def bit_and_iff bit_or_iff bit_not_iff bit_rotl
      word_le_nat_alt)

lemma rotate_and_mask_bits_witness:
  "\<not> bit (gpr (rlwinmx 0x5464402E (boot_state\<lparr>gpr := (\<lambda>_. 0x8000)\<rparr>)) (RA 0x5464402E)) (31 - 24) \<and>
   bit (gpr (rlwimix 0x5064402E (boot_state\<lparr>gpr := (\<lambda>_. 0xFF)\<rparr>)) (RA 0x5064402E)) (31 - 31)"
  using rotate_and_mask_bits [of 24 "0x5464402E" "boot_state\<lparr>gpr := (\<lambda>_. 0x8000)\<rparr>"]
    rotate_and_mask_bits [of 31 "0x5064402E" "boot_state\<lparr>gpr := (\<lambda>_. 0xFF)\<rparr>"]
  by (simp add: MB_def ME_def SH_def Let_def)

section \<open>Shifts, products and quotients\<close>

lemma sdiv_pow2:
  "k sdiv 2 ^ n = k div 2 ^ n + of_bool (k < 0 \<and> k mod 2 ^ n \<noteq> (0 :: int))"
proof (cases "k < 0")
  case True
  then show ?thesis
    by (simp add: signed_divide_int_def zdiv_zminus1_eq_if)
next
  case False
  then show ?thesis by (cases "k = 0") (simp_all add: signed_divide_int_def)
qed

lemma push_bit_eq_0_take_bit:
  "push_bit m (w :: u32) = 0 \<longleftrightarrow> take_bit (32 - m) w = 0"
proof -
  have "push_bit m w = push_bit m (take_bit (32 - m) w)"
    by (rule bit_word_eqI) (auto simp: bit_simps)
  moreover have "take_bit (32 - m) w = drop_bit m (push_bit m w)"
    by (rule bit_word_eqI) (auto simp: bit_simps)
  ultimately show ?thesis by (metis drop_bit_of_0 push_bit_of_0)
qed

lemma take_bit_sint: "n \<le> 32 \<Longrightarrow> take_bit n (w :: u32) = 0 \<longleftrightarrow> sint w mod 2 ^ n = 0"
proof -
  assume n: "n \<le> 32"
  have "sint w mod 2 ^ n = take_bit n (uint w)"
    unfolding take_bit_eq_mod [symmetric] sint_uint using n by (simp add: take_bit_signed_take_bit)
  also have "\<dots> = uint (take_bit n w)" by (simp add: unsigned_take_bit_eq)
  finally show ?thesis by (simp add: uint_0_iff)
qed

lemma sraw_carry_eq:
  assumes "amount < 32"
  shows "sraw_carry w amount = of_bool (sint w < 0 \<and> sint w mod 2 ^ unat amount \<noteq> 0)"
proof (cases "amount = 0")
  case False
  have n: "unat amount < 32" using assms by (simp add: word_less_nat_alt)
  then show ?thesis
    using False take_bit_sint [of "unat amount" w]
    by (simp add: sraw_carry_def push_bit_eq_0_take_bit word_neq_0_conv)
qed (simp add: sraw_carry_def)

text \<open>
  (C26) The processor's idiom for a signed division by a power of two: \<^verbatim>\<open>srawi\<close>, whose
  carry says that a negative operand lost a bit, followed by \<^verbatim>\<open>addze\<close>, gives the quotient
  rounded towards zero for every dividend and every shift.
\<close>

theorem shift_and_addze_divides:
  assumes "RA hi = RA lo"
  shows "gpr (addzex hi (srawix lo s)) (RD hi) =
    word_of_int (sint (gpr s (RS lo)) sdiv 2 ^ unat (SH lo))"
proof -
  let ?w = "gpr s (RS lo)" and ?n = "unat (SH lo)"
  have "gpr (addzex hi (srawix lo s)) (RD hi) = signed_drop_bit ?n ?w + sraw_carry ?w (SH lo)"
    using assms by (simp add: addzex_def srawix_def Let_def sraw_carry_le)
  also have "signed_drop_bit ?n ?w = word_of_int (sint ?w div 2 ^ ?n)"
  proof -
    have "sint (signed_drop_bit ?n ?w) = sint ?w div 2 ^ ?n"
      by (simp add: sint_signed_drop_bit_eq drop_bit_eq_div)
    then have "word_of_int (sint (signed_drop_bit ?n ?w)) = (word_of_int (sint ?w div 2 ^ ?n) :: u32)"
      by (simp only:)
    then show ?thesis by simp
  qed
  finally show ?thesis
    using rotate_fields(3) by (simp add: sdiv_pow2 sraw_carry_eq)
qed

lemma shift_and_addze_divides_witness:
  "gpr (addzex 0x7C630194 (srawix 0x7C831670 (boot_state\<lparr>gpr := (\<lambda>_. 0xFFFFFFF9)\<rparr>)))
     (RD 0x7C630194) = - 1"
  using shift_and_addze_divides [of "0x7C630194" "0x7C831670" "boot_state\<lparr>gpr := (\<lambda>_. 0xFFFFFFF9)\<rparr>"]
  by (simp add: RA_def SH_def signed_divide_int_def)

lemma ucast_word_of_int: "ucast (word_of_int k :: u64) = (word_of_int k :: u32)"
  by transfer simp

lemma wide_mult_hi: "ucast (signed_drop_bit 32 p :: u64) = (word_of_int (sint p div 2 ^ 32) :: u32)"
proof -
  have "signed_drop_bit 32 p = (word_of_int (sint (signed_drop_bit 32 p)) :: u64)" by simp
  also have "sint (signed_drop_bit 32 p) = sint p div 2 ^ 32"
    by (simp only: sint_signed_drop_bit_eq drop_bit_eq_div)
  finally have "signed_drop_bit 32 p = (word_of_int (sint p div 2 ^ 32) :: u64)" .
  then show ?thesis by (simp only: ucast_word_of_int)
qed

text \<open>
  \<^verbatim>\<open>mulhw\<close> and \<^verbatim>\<open>mullw\<close> give the two halves of the signed 64-bit product of
  their operands, \<^verbatim>\<open>mulhwu\<close> and \<^verbatim>\<open>mullw\<close> those of the unsigned one.
\<close>

theorem wide_product:
  "let a = gpr s (RA inst); b = gpr s (RB inst); hi = gpr (mulhwx inst s) (RD inst);
       hiu = gpr (mulhwux inst s) (RD inst); lo = gpr (mullwx inst s) (RD inst)
   in 2 ^ 32 * sint hi + uint lo = sint a * sint b \<and>
      2 ^ 32 * unat hiu + unat lo = unat a * unat b"
proof -
  let ?a = "gpr s (RA inst)" and ?b = "gpr s (RB inst)"
  let ?P = "sint ?a * sint ?b" and ?p = "scast ?a * scast ?b :: u64" and ?q = "ucast ?a * ucast ?b :: u64"
  have lo: "ucast ?p = (word_of_int ?P :: u32)"
  proof -
    have "?p = word_of_int (sint ?p)" by simp
    then show ?thesis unfolding sint_product by (metis ucast_word_of_int)
  qed
  have lo': "word_of_int ?P = ?a * ?b" by simp
  have hi: "sint (word_of_int (?P div 2 ^ 32) :: u32) = ?P div 2 ^ 32"
  proof -
    define d where "d = ?P div 2 ^ 32"
    have "?P = 2 ^ 32 * d + ?P mod 2 ^ 32" "0 \<le> ?P mod 2 ^ 32" "?P mod 2 ^ 32 < 2 ^ 32"
      by (simp_all add: d_def)
    moreover have "- (2 ^ 62) \<le> ?P" "?P \<le> 2 ^ 62" using product_range [of ?a ?b] by linarith+
    ultimately have "- (2 ^ 30) - 1 \<le> d" "d \<le> 2 ^ 30" by simp_all
    then have "- (2 ^ 32) \<le> d" "d < 2 ^ 32" "\<not> d < - (2 ^ 31)" "\<not> 2 ^ 31 \<le> d" by simp_all
    then show ?thesis unfolding d_def [symmetric] by (simp only: sint_word_of_int32 if_False)
  qed
  have q: "unat ?q = unat ?a * unat ?b"
  proof -
    have "unat ?a * unat ?b < 2 ^ 32 * 2 ^ 32"
      using unat_less [of ?a] unat_less [of ?b] by (intro mult_strict_mono) auto
    moreover have "unat (ucast w :: u64) = unat w" for w :: u32
      using unat_less [of w] by (simp add: unsigned_ucast_eq take_bit_nat_eq_self)
    ultimately show ?thesis by (simp add: unat_word_ariths)
  qed
  have hiu: "unat (ucast (drop_bit 32 ?q) :: u32) = unat ?a * unat ?b div 2 ^ 32"
  proof -
    have "unat ?q < 2 ^ 32 * 2 ^ 32" using unat_less [of ?q] by simp
    then have "unat ?q div 2 ^ 32 < 2 ^ 32" by (simp only: less_mult_imp_div_less)
    moreover have "unat (drop_bit 32 ?q) = unat ?q div 2 ^ 32"
      unfolding unat_drop_bit_eq by (simp only: drop_bit_eq_div)
    moreover have "LENGTH(32) = (32 :: nat)" by simp
    ultimately show ?thesis
      unfolding q [symmetric] by (simp only: unsigned_ucast_eq take_bit_nat_eq_self)
  qed
  have "uint (?a * ?b) = ?P mod 2 ^ 32"
    unfolding lo' [symmetric] uint_word_of_int by simp
  moreover have "unat (?a * ?b) = unat ?a * unat ?b mod 2 ^ 32" by (simp add: unat_word_ariths)
  ultimately show ?thesis
    using hi hiu lo lo'
    by (simp add: Let_def mulhwx_def mulhwux_def mullwx_def wide_mult_hi sint_product)
qed

lemma mullw_word: "ucast (scast a * scast b :: u64) = (a * b :: u32)"
proof -
  have "scast a * scast b = (word_of_int (sint (scast a * scast b :: u64)) :: u64)" by simp
  then have "ucast (scast a * scast b :: u64) = (word_of_int (sint a * sint b) :: u32)"
    unfolding sint_product by (metis ucast_word_of_int)
  then show ?thesis by simp
qed

lemma sint_in_s32: "in_s32 k \<Longrightarrow> sint (word_of_int k :: u32) = k"
proof -
  assume k: "in_s32 k"
  then have range: "- (2 ^ 32) \<le> k" "k < 2 ^ 32" "\<not> k < - (2 ^ 31)" "\<not> 2 ^ 31 \<le> k"
    by (simp_all add: in_s32_def)
  show ?thesis unfolding sint_word_of_int32 [OF range(1,2)] using range by (simp only: if_False)
qed

lemma sdiv_in_s32:
  assumes "in_s32 a" "b \<noteq> 0" "\<not> (a = - (2 ^ 31) \<and> b = - 1)"
  shows "in_s32 (a sdiv b)"
proof (cases "b = 1 \<or> b = - 1")
  case True
  then show ?thesis using assms by (auto simp: in_s32_def)
next
  case False
  then have "2 \<le> \<bar>b\<bar>" using assms(2) by linarith
  then have "\<bar>a\<bar> div \<bar>b\<bar> \<le> \<bar>a\<bar> div 2" by (intro zdiv_mono2) auto
  also have "\<dots> \<le> 2 ^ 30" using assms(1) by (auto simp: in_s32_def)
  finally have "\<bar>a\<bar> div \<bar>b\<bar> \<le> 2 ^ 30" .
  moreover have "0 \<le> \<bar>a\<bar> div \<bar>b\<bar>" by (simp add: pos_imp_zdiv_nonneg_iff assms(2))
  moreover have "a sdiv b = \<bar>a\<bar> div \<bar>b\<bar> \<or> a sdiv b = - (\<bar>a\<bar> div \<bar>b\<bar>) \<or> a sdiv b = 0"
    by (auto simp: signed_divide_int_def sgn_if)
  ultimately show ?thesis by (auto simp: in_s32_def)
qed

lemma smod_in_s32:
  assumes "in_s32 b" "b \<noteq> 0"
  shows "in_s32 (a smod b)"
  using smod_int_range [OF assms(2), of a] assms by (auto simp: in_s32_def)

text \<open>
  (C15) The division sequence of a compiler: \<^verbatim>\<open>divw\<close>, \<^verbatim>\<open>mullw\<close> of the quotient with
  the divisor and \<^verbatim>\<open>subf\<close> leave quotient and remainder of the division truncated towards
  zero. For a zero divisor or the one quotient that does not fit, the result is all ones or
  zero by the sign of the dividend, and the overflow flag is recorded.
\<close>

theorem division_and_remainder:
  assumes regs: "RB sub_i = RA div_i" "RB mul_i = RB div_i" "RA mul_i = RD div_i"
      "RA sub_i = RD mul_i" "RD div_i \<notin> {RB div_i, RA div_i}" "RD mul_i \<noteq> RA div_i"
  shows "let a = sint (gpr s (RA div_i)); b = sint (gpr s (RB div_i)); q = divwx div_i s;
      t = subfx sub_i (mullwx mul_i q); ov = (b = 0 \<or> a = - (2 ^ 31) \<and> b = - 1)
    in gpr q (RD div_i) = (if ov then if a < 0 then 0xFFFFFFFF else 0 else word_of_int (a sdiv b)) \<and>
       (if ov then True else sint (gpr q (RD div_i)) = a sdiv b \<and> sint (gpr t (RD sub_i)) = a smod b) \<and>
       (if OE div_i then GetXER_OV q = of_bool ov else GetXER_OV q = GetXER_OV s)"
proof -
  let ?a = "gpr s (RA div_i)" and ?b = "gpr s (RB div_i)"
  let ?q = "word_of_int (sint ?a sdiv sint ?b) :: u32"
  have zero: "?b = 0 \<longleftrightarrow> sint ?b = 0" by (metis signed_0 signed_word_eqI)
  have "sint (0x80000000 :: u32) = - (2 ^ 31)" by simp
  then have min: "?a = 0x80000000 \<longleftrightarrow> sint ?a = - (2 ^ 31)" by (metis signed_word_eqI)
  have in_range: "in_s32 (sint ?a)" "in_s32 (sint ?b)"
    using sint_range32 [of ?a] sint_range32 [of ?b] by (simp_all add: in_s32_def)
  define ov where "ov \<longleftrightarrow> sint ?b = 0 \<or> sint ?a = - (2 ^ 31) \<and> sint ?b = - 1"
  define Q where "Q = (if ov then if sint ?a < 0 then 0xFFFFFFFF else 0 else ?q)"
  have gq: "gpr (divwx div_i s) = (gpr s)(RD div_i := Q)"
    by (simp add: divwx_def Let_def Q_def ov_def zero min)
  have gt: "gpr (subfx sub_i (mullwx mul_i t)) (RD sub_i) =
      NOT (if RA sub_i = RD mul_i then gpr t (RA mul_i) * gpr t (RB mul_i) else gpr t (RA sub_i)) +
      (if RB sub_i = RD mul_i then gpr t (RA mul_i) * gpr t (RB mul_i) else gpr t (RB sub_i)) + 1" for t
    by (simp add: subfx_def mullwx_def Let_def mullw_word)
  have ne: "RB div_i \<noteq> RD div_i" "RA div_i \<noteq> RD div_i" "RA div_i \<noteq> RD mul_i"
    using regs by auto
  have "gpr (subfx sub_i (mullwx mul_i (divwx div_i s))) (RD sub_i) = NOT (Q * ?b) + ?a + 1"
    unfolding gt gq using regs by (simp add: ne)
  also have "\<dots> = ?a - Q * ?b" by (simp add: not_eq_complement)
  finally have sub: "gpr (subfx sub_i (mullwx mul_i (divwx div_i s))) (RD sub_i) = ?a - Q * ?b" .
  have "sint (?a - Q * ?b) = sint ?a smod sint ?b \<and> sint Q = sint ?a sdiv sint ?b" if "\<not> ov"
  proof -
    have "?a - Q * ?b = word_of_int (sint ?a - sint ?a sdiv sint ?b * sint ?b)"
      using that by (simp add: Q_def)
    also have "\<dots> = word_of_int (sint ?a smod sint ?b)" by (simp only: minus_sdiv_mult_eq_smod)
    finally show ?thesis
      using that in_range smod_in_s32 [of "sint ?b" "sint ?a"] sdiv_in_s32 [of "sint ?a" "sint ?b"]
      by (simp add: sint_in_s32 Q_def ov_def)
  qed
  moreover have "GetXER_OV (divwx div_i s) = (if OE div_i then of_bool ov else GetXER_OV s)"
    by (simp add: divwx_def Let_def ov_def zero min SetXER_OV_bits)
  ultimately show ?thesis
    unfolding Let_def ov_def [symmetric] sub gq by (simp add: Q_def)
qed

lemma division_and_remainder_witness:
  "sint (gpr (subfx 0x7CC51850 (mullwx 0x7CA521D6 (divwx 0x7CA323D6
     (boot_state\<lparr>gpr := (\<lambda>_. 0)(3 := 0xFFFFFFF9, 4 := 2)\<rparr>)))) (RD 0x7CC51850)) = - 1"
  using division_and_remainder [of "0x7CC51850" "0x7CA323D6" "0x7CA521D6"
      "boot_state\<lparr>gpr := (\<lambda>_. 0)(3 := 0xFFFFFFF9, 4 := 2)\<rparr>"]
  by (simp add: RA_def RB_def Let_def RD_def)

end
