(* ===== verification/Interpreter_Branch.thy ===== *)
theory Interpreter_Branch
  imports PowerPC_State
begin

text \<open>
  The branch instructions, \<^verbatim>\<open>Interpreter_Branch.cpp\<close>. The branch watch of the debugger,
  which records the branches without changing them, is left out; the branch functions compute
  32-bit values, so the one-bit tests keep their \<^verbatim>\<open>& 1\<close>.

  The lemmas give the condition of a conditional branch as the processor manual states it, the
  number of iterations of a counted loop, and two round trips: a call returns behind itself, and
  a handler that returns from an exception resumes the interrupted program.
\<close>

section \<open>Definitions\<close>

definition bx :: "u32 \<Rightarrow> Interpreter \<Rightarrow> Interpreter" where
  "bx inst i =
     (let i = (if LK inst then on_ppc (\<lambda>s. set_spr SPR_LR (pc s + 4) s) i else i);
          destination_addr = SignExt26 (push_bit 2 (LI inst));
          destination_addr =
            (if \<not> AA inst then destination_addr + pc (m_ppc_state i) else destination_addr);
          i = on_ppc (\<lambda>s. s\<lparr>npc := destination_addr\<rparr>) i
      in i\<lparr>m_end_block := True\<rparr>)"

definition bcx :: "u32 \<Rightarrow> Interpreter \<Rightarrow> Interpreter" where
  "bcx inst i =
     (let i = (if BO inst AND BO_DONT_DECREMENT_FLAG = 0
               then on_ppc (\<lambda>s. set_spr SPR_CTR (spr s SPR_CTR - 1) s) i else i);
          s = m_ppc_state i;
          true_false = (drop_bit 3 (BO inst) AND 1 \<noteq> 0);
          only_counter_check = (drop_bit 4 (BO inst) AND 1 \<noteq> 0);
          only_condition_check = (drop_bit 2 (BO inst) AND 1 \<noteq> 0);
          ctr_check = (of_bool (spr s SPR_CTR \<noteq> 0) XOR drop_bit 1 (BO inst)) AND 1;
          counter = (only_condition_check \<or> ctr_check \<noteq> 0);
          condition = (only_counter_check \<or> GetBit (cr s) (BI inst) = of_bool true_false);
          i = (if counter \<and> condition then
                 (let i = (if LK inst then on_ppc (\<lambda>s. set_spr SPR_LR (pc s + 4) s) i else i);
                      destination_addr = SignExt16 (ucast (push_bit 2 (BD inst)));
                      destination_addr = (if \<not> AA inst then destination_addr + pc (m_ppc_state i)
                                          else destination_addr)
                  in on_ppc (\<lambda>s. s\<lparr>npc := destination_addr\<rparr>) i)
               else i)
      in i\<lparr>m_end_block := True\<rparr>)"

definition bcctrx :: "u32 \<Rightarrow> Interpreter \<Rightarrow> Interpreter" where
  "bcctrx inst i =
     (let s = m_ppc_state i;
          condition = (drop_bit 4 (BO inst) OR
            of_bool (GetBit (cr s) (BI inst) = drop_bit 3 (BO inst) AND 1)) AND 1;
          i = (if condition \<noteq> 0 then
                 (let destination_addr = spr s SPR_CTR AND NOT 3;
                      i = on_ppc (\<lambda>s. s\<lparr>npc := destination_addr\<rparr>) i
                  in if LK inst then on_ppc (\<lambda>s. set_spr SPR_LR (pc s + 4) s) i else i)
               else i)
      in i\<lparr>m_end_block := True\<rparr>)"

definition bclrx :: "u32 \<Rightarrow> Interpreter \<Rightarrow> Interpreter" where
  "bclrx inst i =
     (let i = (if BO inst AND BO_DONT_DECREMENT_FLAG = 0
               then on_ppc (\<lambda>s. set_spr SPR_CTR (spr s SPR_CTR - 1) s) i else i);
          s = m_ppc_state i;
          counter = (drop_bit 2 (BO inst) OR
            (of_bool (spr s SPR_CTR \<noteq> 0) XOR drop_bit 1 (BO inst))) AND 1;
          condition = (drop_bit 4 (BO inst) OR
            of_bool (GetBit (cr s) (BI inst) = drop_bit 3 (BO inst) AND 1)) AND 1;
          i = (if counter AND condition \<noteq> 0 then
                 (let destination_addr = spr s SPR_LR AND NOT 3;
                      i = on_ppc (\<lambda>s. s\<lparr>npc := destination_addr\<rparr>) i
                  in if LK inst then on_ppc (\<lambda>s. set_spr SPR_LR (pc s + 4) s) i else i)
               else i)
      in i\<lparr>m_end_block := True\<rparr>)"

definition rfi :: "u32 \<Rightarrow> Interpreter \<Rightarrow> Interpreter" where
  "rfi inst i =
     (if MSR_PR (msr (m_ppc_state i)) \<noteq> 0
      then on_ppc (GenerateProgramException PrivilegedInstruction) i
      else
        (let mask = 0x87C0FFFF;
             i = on_ppc (\<lambda>s. s\<lparr>msr := (msr s AND NOT mask) OR (spr s SPR_SRR1 AND mask)\<rparr>) i;
             i = on_ppc (\<lambda>s. s\<lparr>msr := msr s AND 0xFFFBFFFF\<rparr>) i;
             i = on_ppc (\<lambda>s. s\<lparr>npc := spr s SPR_SRR0\<rparr>) i;
             i = MSRUpdated i
         in i\<lparr>m_end_block := True\<rparr>))"

definition sc :: "u32 \<Rightarrow> Interpreter \<Rightarrow> Interpreter" where
  "sc inst i =
     (let i = on_ppc (\<lambda>s. s\<lparr>Exceptions := Exceptions s OR EXCEPTION_SYSCALL\<rparr>) i;
          i = CheckExceptions i
      in i\<lparr>m_end_block := True\<rparr>)"

section \<open>The invariant\<close>

lemma cpu_ok_branches:
  assumes "cpu_ok (m_ppc_state i)"
  shows "cpu_ok (m_ppc_state (bx inst i))" "cpu_ok (m_ppc_state (bcx inst i))"
    "cpu_ok (m_ppc_state (bcctrx inst i))" "cpu_ok (m_ppc_state (bclrx inst i))"
    "cpu_ok (m_ppc_state (sc inst i))"
  using assms
  by (simp_all add: bx_def bcx_def bcctrx_def bclrx_def sc_def Let_def cpu_ok_simps spr_defs
      cpu_ok_CheckExceptions)

lemma cpu_ok_rfi: "cpu_ok (m_ppc_state i) \<Longrightarrow> cpu_ok (m_ppc_state (rfi inst i))"
  by (simp add: rfi_def Let_def MSRUpdated_cpu_ok cpu_ok_simps cpu_okD)

section \<open>Conditional branches\<close>

text \<open>
  The manual's condition: with the bits of \<^verbatim>\<open>BO\<close> counted from the most significant one,
  \<open>BO\<^sub>2\<close> ignores the counter, which otherwise has to be zero or not as \<open>BO\<^sub>3\<close> says, and \<open>BO\<^sub>0\<close>
  ignores the condition bit, which otherwise has to equal \<open>BO\<^sub>1\<close>.
\<close>

definition branch_taken :: "u32 \<Rightarrow> PowerPCState \<Rightarrow> u32 \<Rightarrow> bool" where
  "branch_taken inst s ctr \<longleftrightarrow>
     (bit inst 23 \<or> (ctr \<noteq> 0) \<noteq> bit inst 22) \<and>
     (bit inst 25 \<or> GetBit (cr s) (BI inst) = of_bool (bit inst 24))"

definition counted :: "u32 \<Rightarrow> PowerPCState \<Rightarrow> u32" where
  "counted inst s = (if bit inst 23 then spr s SPR_CTR else spr s SPR_CTR - 1)"

lemma bit_BO: "n < 5 \<Longrightarrow> bit (BO inst) n = bit inst (21 + n)"
  by (auto simp: BO_def bit_simps)

lemma BO_bit_test: "n < 5 \<Longrightarrow> drop_bit n (BO inst) AND 1 = of_bool (bit inst (21 + n))"
  by (simp add: drop_and_1 bit_BO)

lemma BO_decrement: "BO inst AND BO_DONT_DECREMENT_FLAG = 0 \<longleftrightarrow> \<not> bit inst 23"
  using and_exp_eq_0_iff_not_bit [of "BO inst" 2] bit_BO [of 2 inst]
  by (simp add: BO_DONT_DECREMENT_FLAG_def)

lemma and_xor_1: "(of_bool b XOR drop_bit n (BO inst)) AND 1 = of_bool (b \<noteq> bit inst (21 + n))"
  if "n < 5"
proof -
  have "(of_bool b XOR drop_bit n (BO inst)) AND 1 = of_bool b XOR (drop_bit n (BO inst) AND 1)"
    by (rule bit_word_eqI) (auto simp: bit_simps bit_1_iff)
  then show ?thesis using that by (simp add: BO_bit_test)
qed

text \<open>
  (C33) A conditional branch is taken exactly under the manual's condition, with the counter
  decremented first when the instruction says so: the next instruction is then the target,
  the displacement or the link register, and the link register receives the address behind
  the branch when the instruction links; otherwise execution falls through.
\<close>

theorem conditional_branch:
  "let s = m_ppc_state i; ctr = counted inst s; t = m_ppc_state (bcx inst i);
       r = m_ppc_state (bclrx inst i); taken = branch_taken inst s ctr;
       target = (if AA inst then 0 else pc s) + SignExt16 (ucast (push_bit 2 (BD inst)))
   in spr t SPR_CTR = ctr \<and> spr r SPR_CTR = ctr \<and>
      npc t = (if taken then target else npc s) \<and>
      npc r = (if taken then spr s SPR_LR AND NOT 3 else npc s) \<and>
      spr t SPR_LR = (if taken \<and> LK inst then pc s + 4 else spr s SPR_LR) \<and>
      spr r SPR_LR = (if taken \<and> LK inst then pc s + 4 else spr s SPR_LR)"
proof -
  have or_1: "(x OR y) AND 1 = (x AND 1) OR (y AND 1 :: u32)" for x y
    by (simp add: bit.conj_disj_distrib2)
  have b: "of_bool b AND 1 = (of_bool b :: u32)" for b by simp
  show ?thesis
    by (simp add: Let_def bcx_def bclrx_def counted_def branch_taken_def BO_decrement or_1 b
        BO_bit_test and_xor_1 spr_defs)
qed

text \<open>
  A branch through the counter register, which never decrements it, is taken on the
  condition alone, to the word-aligned address in the register.
\<close>

theorem branch_to_counter:
  "let s = m_ppc_state i; t = m_ppc_state (bcctrx inst i);
       taken = (bit inst 25 \<or> GetBit (cr s) (BI inst) = of_bool (bit inst 24))
   in npc t = (if taken then spr s SPR_CTR AND NOT 3 else npc s) \<and>
      spr t SPR_CTR = spr s SPR_CTR \<and>
      spr t SPR_LR = (if taken \<and> LK inst then pc s + 4 else spr s SPR_LR)"
proof -
  have or_1: "(x OR y) AND 1 = (x AND 1) OR (y AND 1 :: u32)" for x y
    by (simp add: bit.conj_disj_distrib2)
  have b: "of_bool b AND 1 = (of_bool b :: u32)" for b by simp
  show ?thesis
    by (simp add: Let_def bcctrx_def or_1 b BO_bit_test spr_defs)
qed

section \<open>Counted loops\<close>

text \<open>
  A loop closed by a branch that decrements the counter and is taken while it is not zero
  (\<^verbatim>\<open>bdnz\<close>): each iteration runs a body that leaves the counter alone, the branch decides
  about the next one. The fuel bounds the number of iterations tried.
\<close>

fun counted_loop ::
  "nat \<Rightarrow> (Interpreter \<Rightarrow> Interpreter) \<Rightarrow> u32 \<Rightarrow> Interpreter \<Rightarrow> (nat \<times> Interpreter) option" where
  "counted_loop 0 body inst i = None"
| "counted_loop (Suc fuel) body inst i =
     (let j = bcx inst (body i)
      in if branch_taken inst (m_ppc_state (body i)) (spr (m_ppc_state j) SPR_CTR)
         then map_option (\<lambda>(n, k). (n + 1, k)) (counted_loop fuel body inst j)
         else Some (1, j))"

lemma unat_pred: "(c :: u32) \<noteq> 0 \<Longrightarrow> unat (c - 1) + 1 = unat c"
proof -
  assume "c \<noteq> 0"
  then have "0 < unat c" by (simp add: unat_gt_0)
  moreover from this have "unat (c - 1) = unat c - unat (1 :: u32)"
    by (intro unat_sub) (simp add: word_le_nat_alt)
  ultimately show ?thesis by simp
qed

lemma counted_loop_count:
  assumes "bit inst 25" "\<not> bit inst 23" "\<not> bit inst 22"
    and body: "\<And>i. spr (m_ppc_state (body i)) SPR_CTR = spr (m_ppc_state i) SPR_CTR"
  shows "unat (spr (m_ppc_state i) SPR_CTR - 1) < fuel \<Longrightarrow>
    \<exists>j. counted_loop fuel body inst i = Some (unat (spr (m_ppc_state i) SPR_CTR - 1) + 1, j) \<and>
        spr (m_ppc_state j) SPR_CTR = 0"
proof (induction fuel arbitrary: i)
  case (Suc fuel)
  let ?c = "spr (m_ppc_state i) SPR_CTR - 1" and ?j = "bcx inst (body i)"
  have c: "spr (m_ppc_state ?j) SPR_CTR = ?c"
    using conditional_branch [of "body i" inst] assms by (simp add: Let_def counted_def body)
  have taken: "branch_taken inst (m_ppc_state (body i)) ?c \<longleftrightarrow> ?c \<noteq> 0"
    using assms by (simp add: branch_taken_def)
  show ?case
  proof (cases "?c = 0")
    case False
    then have pred: "unat (?c - 1) + 1 = unat ?c" by (rule unat_pred)
    then have "unat (spr (m_ppc_state ?j) SPR_CTR - 1) < fuel" using Suc.prems c by simp
    from Suc.IH [OF this] show ?thesis using False taken c pred by (auto simp: Let_def)
  qed (use taken c in \<open>auto simp: Let_def\<close>)
qed simp



section \<open>Round trips\<close>

text \<open>
  A call comes back: after a linking branch, a callee that keeps the link register and an
  unconditional return through it, execution continues behind the call, for every call target.
\<close>

theorem call_returns:
  assumes "LK call" "bit ret 25" "bit ret 23" and "pc (m_ppc_state i) AND 3 = 0"
    and "spr (m_ppc_state j) SPR_LR = spr (m_ppc_state (bx call i)) SPR_LR"
  shows "npc (m_ppc_state (bclrx ret j)) = pc (m_ppc_state i) + 4"
proof -
  have "spr (m_ppc_state j) SPR_LR = pc (m_ppc_state i) + 4"
    using assms by (simp add: bx_def Let_def)
  moreover have "branch_taken ret (m_ppc_state j) c" for c
    using assms by (simp add: branch_taken_def)
  moreover have "(pc (m_ppc_state i) + 4) AND NOT 3 = pc (m_ppc_state i) + 4"
  proof -
    let ?p = "pc (m_ppc_state i)"
    have low: "w AND 3 = 0 \<longleftrightarrow> unat w mod 4 = 0" for w :: u32
    proof -
      have "unat (w AND 3) = unat w mod 4"
        unfolding and_3 unsigned_take_bit_eq by (simp only: take_bit_eq_mod) simp
      then show ?thesis by (metis unat_eq_zero)
    qed
    have "unat (?p + 4) mod 4 = (unat ?p + 4) mod 4"
      by (simp add: unat_word_ariths mod_mod_cancel)
    then have "(?p + 4) AND 3 = 0" using assms(4) by (simp add: low)
    moreover have "w = (w AND 3) OR (w AND NOT 3)" for w :: u32
      by (simp flip: bit.conj_disj_distrib)
    ultimately show ?thesis by (metis or.left_neutral)
  qed
  ultimately show ?thesis
    using conditional_branch [of j ret] by (simp add: Let_def)
qed

lemma call_returns_witness:
  "npc (m_ppc_state (bclrx 0x4E800020 (bx 0x48000101 boot_cpu))) = 0x104"
  using call_returns [of "0x48000101" "0x4E800020" boot_cpu "bx 0x48000101 boot_cpu"]
  by (simp add: LK_def boot_cpu_def boot_state_def)

text \<open>
  (C13) Returning from the handler of an exception resumes the interrupted program: for every
  exception taken, a return from interrupt at the entry state continues at the saved address
  with the machine state register it was interrupted with (only the power-management bit is
  cleared), and the feature flags agree with it again. A program exception has put its cause
  in the saved register, outside the bits that are restored.
\<close>

theorem exception_return_resumes:
  assumes "Exceptions (m_ppc_state i) AND EXCEPTION_FAKE_MEMCHECK_HIT = 0"
    and "pending_exception (m_ppc_state i) = Some (vector, b)"
    and "b = EXCEPTION_PROGRAM \<longrightarrow> spr (m_ppc_state i) SPR_SRR1 AND 0x87C0FFFF = 0"
    and "cpu_ok (m_ppc_state i)"
  shows "let s = m_ppc_state i; r = m_ppc_state (rfi inst (CheckExceptions i))
    in npc r = resume_address s b \<and> msr r = msr s AND NOT 0x40000 \<and> gpr r = gpr s \<and>
       Exceptions r = Exceptions s AND NOT b \<and> flags_ok r"
proof -
  let ?s = "m_ppc_state i" and ?t = "m_ppc_state (CheckExceptions i)"
  from CheckExceptions_cases [OF assms(1)] obtain srr1 where
    srr1: "srr1 AND 0x87C0FFFF = (msr ?s OR (if b = EXCEPTION_PROGRAM then spr ?s SPR_SRR1 else 0))
        AND 0x87C0FFFF" and
    entry: "CheckExceptions i =
      MSRUpdated (on_ppc (enter_exception (resume_address ?s b) srr1 vector b) i)"
    by (auto simp: assms(2) entered_def)
  have saved: "srr1 AND 0x87C0FFFF = msr ?s AND 0x87C0FFFF"
    using srr1 assms(3) by (auto simp: bit.conj_disj_distrib2)
  have user: "MSR_PR (msr ?t) = 0"
  proof -
    have "msr ?t AND 0xE030 = 0" by (simp add: entry enter_exception_msr)
    then have "\<not> bit (msr ?t AND 0xE030) 14" by simp
    then show ?thesis by (simp add: MSR_PR_def field_get_Suc_0 bit_and_iff)
  qed
  have "MSR_set_LE v w AND (NOT 0x04EF36 AND NOT 0x87C0FFFF) =
      w AND (NOT 0x04EF36 AND NOT 0x87C0FFFF)" for v w
    by (rule bit_word_eqI) (auto simp: MSR_set_LE_def bit_field_set bit_simps)
  then have kept: "msr ?t AND NOT 0x87C0FFFF = msr ?s AND (NOT 0x04EF36 AND NOT 0x87C0FFFF)"
    by (simp only: entry MSRUpdated_fields on_ppc_simps enter_exception_fields and.assoc)
  have "((msr ?t AND NOT 0x87C0FFFF) OR (srr1 AND 0x87C0FFFF)) AND 0xFFFBFFFF =
      msr ?s AND NOT 0x40000"
  proof -
    have "((NOT 0x04EF36 AND NOT 0x87C0FFFF) OR 0x87C0FFFF) AND 0xFFFBFFFF = (NOT 0x40000 :: u32)"
      by simp
    then show ?thesis
      unfolding kept saved by (simp only: bit.conj_disj_distrib [symmetric] and.assoc)
  qed
  moreover have "spr ?t SPR_SRR1 = srr1" "spr ?t SPR_SRR0 = resume_address ?s b"
    "gpr ?t = gpr ?s" "Exceptions ?t = Exceptions ?s AND NOT b"
    by (simp_all add: entry enter_exception_fields spr_defs)
  moreover have "flags_ok (m_ppc_state (rfi inst (CheckExceptions i)))"
    using cpu_ok_rfi [OF cpu_ok_CheckExceptions [OF assms(4)]] by (simp add: cpu_ok_def)
  ultimately show ?thesis
    by (simp add: Let_def rfi_def user)
qed

lemma exception_return_resumes_witness:
  "npc (m_ppc_state (rfi 0x4C000064 (CheckExceptions
     (on_ppc (\<lambda>s. s\<lparr>Exceptions := EXCEPTION_SYSCALL\<rparr>) boot_cpu)))) = 0x104"
  using exception_return_resumes [of "on_ppc (\<lambda>s. s\<lparr>Exceptions := EXCEPTION_SYSCALL\<rparr>) boot_cpu"
      "0xC00" EXCEPTION_SYSCALL "0x4C000064"]
  by (simp add: boot_cpu_def boot_state_def pending_exception_def sync_exceptions_def
      exception_defs Let_def cpu_ok_def state_ok_def flags_ok_alt perf_bits_def resume_address_def)

end
