(* ===== verification/Interpreter_System.thy ===== *)
theory Interpreter_System
  imports Interpreter_Branch
begin

text \<open>
  The instructions that move system registers and combine condition bits,
  \<^verbatim>\<open>Interpreter_SystemRegisters.cpp\<close>. What a move from a special register asks other
  parts of the system for (the timers and the gather pipe) is the argument \<open>hw\<close>. Log and panic
  messages are left out, except that an illegal write of the time base is a host call.

  The lemmas give the value read back after a write of every special register, the masks of the
  condition-register moves, the logic of the condition bits, the summaries of the floating-point
  status register after every write of it, and that user mode is confined to the registers the
  processor manual grants it.
\<close>

section \<open>Definitions\<close>

subsection \<open>Floating-point status register\<close>

definition FPSCRUpdated :: "Interpreter \<Rightarrow> Interpreter" where
  "FPSCRUpdated i = RoundingModeUpdated (on_ppc UpdateFPExceptionSummary i)"

definition mtfsb0x :: "u32 \<Rightarrow> Interpreter \<Rightarrow> Interpreter" where
  "mtfsb0x inst i =
     (let b = drop_bit (unat (CRBD inst)) 0x80000000;
          i = on_ppc (\<lambda>s. s\<lparr>fpscr := fpscr s AND NOT b\<rparr>) i;
          i = FPSCRUpdated i
      in if Rc inst then on_ppc UpdateCR1 i else i)"

definition mtfsb1x :: "u32 \<Rightarrow> Interpreter \<Rightarrow> Interpreter" where
  "mtfsb1x inst i =
     (let b = drop_bit (unat (CRBD inst)) 0x80000000;
          i = (if b AND FPSCR_ANY_X \<noteq> 0 then on_ppc (SetFPException b) i
               else on_ppc (\<lambda>s. s\<lparr>fpscr := fpscr s OR (b AND FPSCR_mask)\<rparr>) i);
          i = FPSCRUpdated i
      in if Rc inst then on_ppc UpdateCR1 i else i)"

definition mtfsfix :: "u32 \<Rightarrow> Interpreter \<Rightarrow> Interpreter" where
  "mtfsfix inst i =
     (let field = unat (CRFD inst);
          pre_shifted_mask = 0xF0000000;
          m = drop_bit (4 * field) pre_shifted_mask;
          imm = push_bit 16 inst AND pre_shifted_mask;
          i = on_ppc (\<lambda>s. s\<lparr>fpscr := ((fpscr s AND NOT m) OR drop_bit (4 * field) imm) AND FPSCR_mask\<rparr>) i;
          i = FPSCRUpdated i
      in if Rc inst then on_ppc UpdateCR1 i else i)"

text \<open>The loop of \<^verbatim>\<open>mtfsfx\<close> and \<^verbatim>\<open>mtcrf\<close>: a nibble for every bit of the mask field.\<close>

definition nibble_mask :: "u32 \<Rightarrow> u32" where
  "nibble_mask fm =
     fold (\<lambda>k m. if fm AND push_bit k 1 \<noteq> 0 then m OR push_bit (k * 4) 0xF else m) [0..<8] 0"

definition mtfsfx :: "u32 \<Rightarrow> Interpreter \<Rightarrow> Interpreter" where
  "mtfsfx inst i =
     (let m = nibble_mask (FM inst);
          i = on_ppc (\<lambda>s. s\<lparr>fpscr :=
                ((fpscr s AND NOT m) OR (ucast (fst (ps s (FB inst))) AND m)) AND FPSCR_mask\<rparr>) i;
          i = FPSCRUpdated i
      in if Rc inst then on_ppc UpdateCR1 i else i)"

definition mcrfs :: "u32 \<Rightarrow> Interpreter \<Rightarrow> Interpreter" where
  "mcrfs inst i =
     (let shift = 4 * (7 - unat (CRFS inst));
          fpflags = drop_bit shift (fpscr (m_ppc_state i)) AND 0xF;
          i = on_ppc (\<lambda>s. s\<lparr>fpscr := fpscr s AND
                NOT (push_bit shift 0xF AND (FPSCR_FX OR FPSCR_ANY_X))\<rparr>) i;
          i = FPSCRUpdated i
      in on_ppc (\<lambda>s. s\<lparr>cr := SetField (CRFD inst) fpflags (cr s)\<rparr>) i)"

definition mffsx :: "u32 \<Rightarrow> PowerPCState \<Rightarrow> PowerPCState" where
  "mffsx inst s =
     (let s = s\<lparr>ps := (ps s)(FD inst := (0xFFF8000000000000 OR ucast (fpscr s), snd (ps s (FD inst))))\<rparr>
      in if Rc inst then UpdateCR1 s else s)"

subsection \<open>Condition register\<close>

definition mcrxr :: "u32 \<Rightarrow> PowerPCState \<Rightarrow> PowerPCState" where
  "mcrxr inst s =
     (let s = s\<lparr>cr := SetField (CRFD inst) (drop_bit 28 (GetXER s)) (cr s)\<rparr>
      in s\<lparr>xer_ca := 0, xer_so_ov := 0\<rparr>)"

definition mfcr :: "u32 \<Rightarrow> PowerPCState \<Rightarrow> PowerPCState" where
  "mfcr inst s = set_gpr (RD inst) (CR_Get (cr s)) s"

definition mtcrf :: "u32 \<Rightarrow> PowerPCState \<Rightarrow> PowerPCState" where
  "mtcrf inst s =
     (let crm = CRM inst
      in if crm = 0xFF then s\<lparr>cr := CR_Set (gpr s (RS inst)) (cr s)\<rparr>
         else (let m = nibble_mask crm
               in s\<lparr>cr := CR_Set ((CR_Get (cr s) AND NOT m) OR (gpr s (RS inst) AND m)) (cr s)\<rparr>))"

definition crand :: "u32 \<Rightarrow> PowerPCState \<Rightarrow> PowerPCState" where
  "crand inst s =
     (let a = GetBit (cr s) (CRBA inst); b = GetBit (cr s) (CRBB inst)
      in s\<lparr>cr := CR_SetBit (CRBD inst) (a AND b) (cr s)\<rparr>)"

definition crandc :: "u32 \<Rightarrow> PowerPCState \<Rightarrow> PowerPCState" where
  "crandc inst s =
     (let a = GetBit (cr s) (CRBA inst); b = GetBit (cr s) (CRBB inst)
      in s\<lparr>cr := CR_SetBit (CRBD inst) (a AND (1 XOR b)) (cr s)\<rparr>)"

definition creqv :: "u32 \<Rightarrow> PowerPCState \<Rightarrow> PowerPCState" where
  "creqv inst s =
     (let a = GetBit (cr s) (CRBA inst); b = GetBit (cr s) (CRBB inst)
      in s\<lparr>cr := CR_SetBit (CRBD inst) (1 XOR (a XOR b)) (cr s)\<rparr>)"

definition crnand :: "u32 \<Rightarrow> PowerPCState \<Rightarrow> PowerPCState" where
  "crnand inst s =
     (let a = GetBit (cr s) (CRBA inst); b = GetBit (cr s) (CRBB inst)
      in s\<lparr>cr := CR_SetBit (CRBD inst) (1 XOR (a AND b)) (cr s)\<rparr>)"

definition crnor :: "u32 \<Rightarrow> PowerPCState \<Rightarrow> PowerPCState" where
  "crnor inst s =
     (let a = GetBit (cr s) (CRBA inst); b = GetBit (cr s) (CRBB inst)
      in s\<lparr>cr := CR_SetBit (CRBD inst) (1 XOR (a OR b)) (cr s)\<rparr>)"

definition cror :: "u32 \<Rightarrow> PowerPCState \<Rightarrow> PowerPCState" where
  "cror inst s =
     (let a = GetBit (cr s) (CRBA inst); b = GetBit (cr s) (CRBB inst)
      in s\<lparr>cr := CR_SetBit (CRBD inst) (a OR b) (cr s)\<rparr>)"

definition crorc :: "u32 \<Rightarrow> PowerPCState \<Rightarrow> PowerPCState" where
  "crorc inst s =
     (let a = GetBit (cr s) (CRBA inst); b = GetBit (cr s) (CRBB inst)
      in s\<lparr>cr := CR_SetBit (CRBD inst) (a OR (1 XOR b)) (cr s)\<rparr>)"

definition crxor :: "u32 \<Rightarrow> PowerPCState \<Rightarrow> PowerPCState" where
  "crxor inst s =
     (let a = GetBit (cr s) (CRBA inst); b = GetBit (cr s) (CRBB inst)
      in s\<lparr>cr := CR_SetBit (CRBD inst) (a XOR b) (cr s)\<rparr>)"

definition mcrf :: "u32 \<Rightarrow> PowerPCState \<Rightarrow> PowerPCState" where
  "mcrf inst s =
     (let cr_f = GetField (cr s) (CRFS inst) in s\<lparr>cr := SetField (CRFD inst) cr_f (cr s)\<rparr>)"

definition isync :: "u32 \<Rightarrow> PowerPCState \<Rightarrow> PowerPCState" where
  "isync inst s = s"

subsection \<open>Machine state and segment registers\<close>

definition mfmsr :: "u32 \<Rightarrow> PowerPCState \<Rightarrow> PowerPCState" where
  "mfmsr inst s =
     (if MSR_PR (msr s) \<noteq> 0 then GenerateProgramException PrivilegedInstruction s
      else set_gpr (RD inst) (msr s) s)"

definition mfsr :: "u32 \<Rightarrow> PowerPCState \<Rightarrow> PowerPCState" where
  "mfsr inst s =
     (if MSR_PR (msr s) \<noteq> 0 then GenerateProgramException PrivilegedInstruction s
      else set_gpr (RD inst) (sr s (SR_field inst)) s)"

definition mfsrin :: "u32 \<Rightarrow> PowerPCState \<Rightarrow> PowerPCState" where
  "mfsrin inst s =
     (if MSR_PR (msr s) \<noteq> 0 then GenerateProgramException PrivilegedInstruction s
      else (let index = drop_bit 28 (gpr s (RB inst)) AND 0xF
            in set_gpr (RD inst) (sr s (ucast index)) s))"

definition mtmsr :: "u32 \<Rightarrow> Interpreter \<Rightarrow> Interpreter" where
  "mtmsr inst i =
     (if MSR_PR (msr (m_ppc_state i)) \<noteq> 0
      then on_ppc (GenerateProgramException PrivilegedInstruction) i
      else (let i = on_ppc (\<lambda>s. s\<lparr>msr := gpr s (RS inst)\<rparr>) i;
                i = MSRUpdated i;
                i = on_ppc CheckFPExceptions i;
                i = CheckExceptions i
            in i\<lparr>m_end_block := True\<rparr>))"

definition mtsr :: "u32 \<Rightarrow> Interpreter \<Rightarrow> Interpreter" where
  "mtsr inst i =
     (if MSR_PR (msr (m_ppc_state i)) \<noteq> 0
      then on_ppc (GenerateProgramException PrivilegedInstruction) i
      else (let index = SR_field inst;
                value = gpr (m_ppc_state i) (RS inst);
                i = on_ppc (\<lambda>s. s\<lparr>sr := (sr s)(index := value)\<rparr>) i
            in call_host SRUpdated i))"

definition mtsrin :: "u32 \<Rightarrow> Interpreter \<Rightarrow> Interpreter" where
  "mtsrin inst i =
     (if MSR_PR (msr (m_ppc_state i)) \<noteq> 0
      then on_ppc (GenerateProgramException PrivilegedInstruction) i
      else (let index = drop_bit 28 (gpr (m_ppc_state i) (RB inst)) AND 0xF;
                value = gpr (m_ppc_state i) (RS inst);
                i = on_ppc (\<lambda>s. s\<lparr>sr := (sr s)(ucast index := value)\<rparr>) i
            in call_host SRUpdated i))"

subsection \<open>Special registers\<close>

text \<open>What the timers and the gather pipe answer at the time of the instruction.\<close>

record hw =
  GetFakeDecrementer :: u32
  GetFakeTimeBase :: u64
  IsBNE :: bool

text \<open>The two halves of the time base are one 64-bit value in memory, the lower half first.\<close>

definition WriteFullTimeBaseValue :: "u64 \<Rightarrow> PowerPCState \<Rightarrow> PowerPCState" where
  "WriteFullTimeBaseValue v s = set_spr SPR_TU (ucast (drop_bit 32 v)) (set_spr SPR_TL (ucast v) s)"

definition ReadFullTimeBaseValue :: "PowerPCState \<Rightarrow> u64" where
  "ReadFullTimeBaseValue s = push_bit 32 (ucast (spr s SPR_TU)) OR ucast (spr s SPR_TL)"

definition mfspr_index :: "u32 \<Rightarrow> spr_index" where
  "mfspr_index inst =
     ucast (push_bit 5 (SPR_field inst AND 0x1F) + (drop_bit 5 (SPR_field inst) AND 0x1F))"

definition mfspr :: "hw \<Rightarrow> u32 \<Rightarrow> PowerPCState \<Rightarrow> PowerPCState" where
  "mfspr h inst s =
     (let index = mfspr_index inst
      in if MSR_PR (msr s) \<noteq> 0 \<and> index \<noteq> SPR_XER \<and> index \<noteq> SPR_LR \<and> index \<noteq> SPR_CTR \<and>
            index \<noteq> SPR_TL \<and> index \<noteq> SPR_TU
         then GenerateProgramException PrivilegedInstruction s
         else if index = SPR_IABR then set_gpr (RD inst) (spr s index AND NOT 1) s
         else
           (let s = (if index = SPR_DEC then
                       (if spr s index AND 0x80000000 = 0
                        then set_spr index (GetFakeDecrementer h) s else s)
                     else if index = SPR_TL \<or> index = SPR_TU
                       then WriteFullTimeBaseValue (GetFakeTimeBase h) s
                     else if index = SPR_WPAR then
                       (if IsBNE h then set_spr index (spr s index OR 1) s
                        else set_spr index (spr s index AND NOT 1) s)
                     else if index = SPR_XER then set_spr index (GetXER s) s
                     else if index = SPR_UPMC1 then set_spr index (spr s SPR_PMC1) s
                     else if index = SPR_UPMC2 then set_spr index (spr s SPR_PMC2) s
                     else if index = SPR_UPMC3 then set_spr index (spr s SPR_PMC3) s
                     else if index = SPR_UPMC4 then set_spr index (spr s SPR_PMC4) s
                     else s)
            in set_gpr (RD inst) (spr s index) s))"

definition mftb :: "hw \<Rightarrow> u32 \<Rightarrow> PowerPCState \<Rightarrow> PowerPCState" where
  "mftb = mfspr"

definition mtspr_index :: "u32 \<Rightarrow> spr_index" where
  "mtspr_index inst = ucast (push_bit 5 (SPRU inst) OR (SPRL inst AND 0x1F))"

definition is_DBAT :: "spr_index \<Rightarrow> bool" where
  "is_DBAT r \<longleftrightarrow> SPR_DBAT0U \<le> r \<and> r \<le> SPR_DBAT3L \<or> SPR_DBAT4U \<le> r \<and> r \<le> SPR_DBAT7L"

definition is_IBAT :: "spr_index \<Rightarrow> bool" where
  "is_IBAT r \<longleftrightarrow> SPR_IBAT0U \<le> r \<and> r \<le> SPR_IBAT3L \<or> SPR_IBAT4U \<le> r \<and> r \<le> SPR_IBAT7L"

definition mtspr_HID0 :: "Interpreter \<Rightarrow> Interpreter" where
  "mtspr_HID0 i =
     (if HID0_ICFI (spr (m_ppc_state i) SPR_HID0) \<noteq> 0
      then call_host iCache_Reset
             (on_ppc (\<lambda>s. set_spr SPR_HID0 (HID0_set_ICFI 0 (spr s SPR_HID0)) s) i)
      else i)"

definition mtspr_DMAL :: "Interpreter \<Rightarrow> Interpreter" where
  "mtspr_DMAL i =
     (let dmal = spr (m_ppc_state i) SPR_DMAL;
          dmau = spr (m_ppc_state i) SPR_DMAU;
          i = (if DMAL_DMA_T dmal \<noteq> 0 then
                 (let mem_address = push_bit 5 (DMAU_MEM_ADDR dmau);
                      cache_address = push_bit 5 (DMAL_LC_ADDR dmal);
                      len = push_bit 2 (DMAU_DMA_LEN_U dmau) OR DMAL_DMA_LEN_L dmal;
                      len = (if len = 0 then 128 else len)
                  in if DMAL_DMA_LD dmal \<noteq> 0
                     then call_host (DMA_MemoryToLC cache_address mem_address len) i
                     else call_host (DMA_LCToMemory mem_address cache_address len) i)
               else i)
      in on_ppc (\<lambda>s. set_spr SPR_DMAL (DMAL_set_DMA_T 0 (spr s SPR_DMAL)) s) i)"

definition SIMULATED_TEMP :: u32 where "SIMULATED_TEMP = 42"

definition UpdateThermalReg :: "u32 \<Rightarrow> u32 \<Rightarrow> u32" where
  "UpdateThermalReg thrm3 reg =
     (if THRM3_E thrm3 = 0 \<or> THRM12_V reg = 0 then THRM12_set_TIV 0 reg
      else (let reg = THRM12_set_TIV 1 reg
            in if THRM12_TID reg \<noteq> 0
               then THRM12_set_TIN (of_bool (SIMULATED_TEMP < THRM12_THRESHOLD reg)) reg
               else THRM12_set_TIN (of_bool (SIMULATED_TEMP > THRM12_THRESHOLD reg)) reg))"

definition mtspr_THRM :: "PowerPCState \<Rightarrow> PowerPCState" where
  "mtspr_THRM s =
     (let s = set_spr SPR_THRM1 (UpdateThermalReg (spr s SPR_THRM3) (spr s SPR_THRM1)) s
      in set_spr SPR_THRM2 (UpdateThermalReg (spr s SPR_THRM3) (spr s SPR_THRM2)) s)"

definition mtspr_effect :: "spr_index \<Rightarrow> u32 \<Rightarrow> u32 \<Rightarrow> Interpreter \<Rightarrow> Interpreter" where
  "mtspr_effect index old_value value i =
     (if index = SPR_TL \<or> index = SPR_TU then call_host IllegalTimeBaseWrite i
      else if index = SPR_TL_W then call_host TimeBaseSet (on_ppc (set_spr SPR_TL value) i)
      else if index = SPR_TU_W then call_host TimeBaseSet (on_ppc (set_spr SPR_TU value) i)
      else if index = SPR_PVR then on_ppc (set_spr index old_value) i
      else if index = SPR_HID0 then mtspr_HID0 i
      else if index = SPR_HID1 then on_ppc (\<lambda>s. set_spr index (spr s index AND 0xF8000000) s) i
      else if index = SPR_HID2 then
        on_ppc (\<lambda>s. set_spr index ((spr s index AND 0xF0FF0000) OR (old_value AND 0x0F000000)) s) i
      else if index = SPR_HID4 then
        (if old_value \<noteq> spr (m_ppc_state i) index
         then call_host DBATUpdated (call_host IBATUpdated i) else i)
      else if index = SPR_WPAR then call_host ResetGatherPipe i
      else if index = SPR_DMAL then mtspr_DMAL i
      else if index = SPR_DEC then
        call_host DecrementerSet
          (if drop_bit 31 old_value = 0 \<and> drop_bit 31 value \<noteq> 0
           then on_ppc (\<lambda>s. s\<lparr>Exceptions := Exceptions s OR EXCEPTION_DECREMENTER\<rparr>) i else i)
      else if index = SPR_SDR then call_host SDRUpdated i
      else if index = SPR_XER then on_ppc (\<lambda>s. SetXER (spr s index) s) i
      else if is_DBAT index then
        (if old_value \<noteq> spr (m_ppc_state i) index then call_host DBATUpdated i else i)
      else if is_IBAT index then
        (if old_value \<noteq> spr (m_ppc_state i) index then call_host IBATUpdated i else i)
      else if index = SPR_MMCR0 \<or> index = SPR_MMCR1 then on_ppc MMCRUpdated i
      else if index = SPR_THRM1 \<or> index = SPR_THRM2 \<or> index = SPR_THRM3 then on_ppc mtspr_THRM i
      else i)"

definition mtspr :: "u32 \<Rightarrow> Interpreter \<Rightarrow> Interpreter" where
  "mtspr inst i =
     (let index = mtspr_index inst; s = m_ppc_state i
      in if MSR_PR (msr s) \<noteq> 0 \<and> index \<noteq> SPR_XER \<and> index \<noteq> SPR_LR \<and> index \<noteq> SPR_CTR
         then on_ppc (GenerateProgramException PrivilegedInstruction) i
         else mtspr_effect index (spr s index) (gpr s (RD inst))
                (on_ppc (set_spr index (gpr s (RD inst))) i))"

section \<open>The invariant\<close>

lemma cpu_ok_SetField [cpu_ok_simps]: "cpu_ok (UpdateCR1 s) = cpu_ok s"
  by (simp add: UpdateCR1_def cpu_ok_simps)

lemma cpu_ok_FPSCRUpdated:
  "cpu_ok (m_ppc_state i) \<Longrightarrow> cpu_ok (m_ppc_state (FPSCRUpdated i))"
  by (simp add: FPSCRUpdated_def RoundingModeUpdated_def Let_def cpu_ok_simps)

lemma ANY_X_bit_11: "\<not> bit FPSCR_ANY_X 11" "\<not> bit FPSCR_mask 11"
  by (simp_all add: FPSCR_ANY_X_def FPSCR_VX_ANY_def FPSCR_mask_def bit_or_iff bit_push_bit_iff)

lemma one_bit_11: "drop_bit n (0x80000000 :: u32) AND FPSCR_ANY_X \<noteq> 0 \<Longrightarrow> \<not> bit (drop_bit n (0x80000000 :: u32)) 11"
proof
  assume any: "drop_bit n (0x80000000 :: u32) AND FPSCR_ANY_X \<noteq> 0"
    and b: "bit (drop_bit n (0x80000000 :: u32)) 11"
  have "n + 11 = 31"
    using b bit_exp_iff [where 'a = u32, of 31 "n + 11"] by (simp add: bit_drop_bit_eq add.commute)
  then have "n = 20" by simp
  then show False using any by (simp add: FPSCR_ANY_X_def FPSCR_VX_ANY_def)
qed

lemma cpu_ok_fpscr_writes:
  assumes "cpu_ok (m_ppc_state i)"
  shows "cpu_ok (m_ppc_state (mtfsb0x inst i))" "cpu_ok (m_ppc_state (mtfsb1x inst i))"
    "cpu_ok (m_ppc_state (mtfsfix inst i))" "cpu_ok (m_ppc_state (mtfsfx inst i))"
    "cpu_ok (m_ppc_state (mcrfs inst i))"
  using assms
  by (simp_all add: mtfsb0x_def mtfsb1x_def mtfsfix_def mtfsfx_def mcrfs_def Let_def cpu_ok_simps
      cpu_ok_FPSCRUpdated cpu_ok_fpscr bit_and_iff bit_or_iff fpscr_bit_11 ANY_X_bit_11 one_bit_11)

lemma cpu_ok_system [cpu_ok_simps]:
  assumes "cpu_ok s"
  shows "cpu_ok (mffsx inst s)" "cpu_ok (mfcr inst s)" "cpu_ok (mtcrf inst s)"
    "cpu_ok (crand inst s)" "cpu_ok (crandc inst s)" "cpu_ok (creqv inst s)"
    "cpu_ok (crnand inst s)" "cpu_ok (crnor inst s)" "cpu_ok (cror inst s)"
    "cpu_ok (crorc inst s)" "cpu_ok (crxor inst s)" "cpu_ok (mcrf inst s)" "cpu_ok (isync inst s)"
    "cpu_ok (mfmsr inst s)" "cpu_ok (mfsr inst s)" "cpu_ok (mfsrin inst s)"
  using assms
  by (simp_all add: mffsx_def mfcr_def mtcrf_def crand_def crandc_def creqv_def crnand_def
      crnor_def cror_def crorc_def crxor_def mcrf_def isync_def mfmsr_def mfsr_def mfsrin_def
      Let_def cpu_ok_simps)

lemma cpu_ok_mcrxr [cpu_ok_simps]: "cpu_ok s \<Longrightarrow> cpu_ok (mcrxr inst s)"
  by (simp add: mcrxr_def Let_def cpu_ok_def state_ok_def flags_ok_alt perf_bits_def)

lemma cpu_ok_mfspr [cpu_ok_simps]: "cpu_ok s \<Longrightarrow> cpu_ok (mfspr h inst s)"
  by (simp add: mfspr_def Let_def cpu_ok_simps WriteFullTimeBaseValue_def spr_defs)

lemma cpu_ok_mtmsr: "cpu_ok (m_ppc_state i) \<Longrightarrow> cpu_ok (m_ppc_state (mtmsr inst i))"
  by (simp add: mtmsr_def Let_def cpu_ok_simps cpu_ok_CheckExceptions MSRUpdated_cpu_ok cpu_okD)

lemma cpu_ok_segments:
  assumes "cpu_ok (m_ppc_state i)"
  shows "cpu_ok (m_ppc_state (mtsr inst i))" "cpu_ok (m_ppc_state (mtsrin inst i))"
  using assms by (simp_all add: mtsr_def mtsrin_def Let_def cpu_ok_simps)

text \<open>Only the two control registers of the performance monitor matter to the flags.\<close>

lemma cpu_ok_MMCRUpdated:
  assumes "cpu_ok s"
  shows "cpu_ok (MMCRUpdated (set_spr r v s))"
proof -
  have ok: "state_ok s" "feature_flags s = (drop_bit 4 (msr s) AND 3) OR perf_bits s"
    using assms by (simp_all add: cpu_ok_def flags_ok_alt)
  have "3 AND NOT FEATURE_FLAG_PERFMON = (3 :: u32)" by (simp add: FEATURE_FLAG_PERFMON_def)
  moreover have "perf_bits s AND NOT FEATURE_FLAG_PERFMON = 0" by (simp add: perf_bits_def)
  ultimately have "feature_flags s AND NOT FEATURE_FLAG_PERFMON = drop_bit 4 (msr s) AND 3"
    unfolding ok(2) by (simp add: bit.conj_disj_distrib2 and.assoc)
  then show ?thesis
    using ok(1) by (simp add: cpu_ok_def flags_ok_alt MMCRUpdated_def Let_def state_ok_def perf_bits_def)
qed

lemma cpu_ok_if:
  "cpu_ok (m_ppc_state i) \<Longrightarrow> cpu_ok (m_ppc_state j) \<Longrightarrow> cpu_ok (m_ppc_state (if b then i else j))"
  by simp

lemma closed_spr_neq:
  "SPR_HID0 \<noteq> SPR_MMCR0" "SPR_HID0 \<noteq> SPR_MMCR1" "SPR_DMAL \<noteq> SPR_MMCR0" "SPR_DMAL \<noteq> SPR_MMCR1"
  "SPR_THRM1 \<noteq> SPR_MMCR0" "SPR_THRM1 \<noteq> SPR_MMCR1" "SPR_THRM2 \<noteq> SPR_MMCR0" "SPR_THRM2 \<noteq> SPR_MMCR1"
  "SPR_TL \<noteq> SPR_MMCR0" "SPR_TL \<noteq> SPR_MMCR1" "SPR_TU \<noteq> SPR_MMCR0" "SPR_TU \<noteq> SPR_MMCR1"
  by (simp_all add: spr_defs)

lemma cpu_ok_mtspr_parts:
  assumes "cpu_ok (m_ppc_state i)"
  shows "cpu_ok (m_ppc_state (mtspr_HID0 i))" "cpu_ok (m_ppc_state (mtspr_DMAL i))"
    "cpu_ok (mtspr_THRM (m_ppc_state i))"
  using assms
  by (simp_all add: mtspr_HID0_def mtspr_DMAL_def mtspr_THRM_def Let_def cpu_ok_simps closed_spr_neq)

lemma mtspr_effect_MMCR:
  "r = SPR_MMCR0 \<or> r = SPR_MMCR1 \<Longrightarrow> mtspr_effect r old v i = on_ppc MMCRUpdated i"
  by (elim disjE) (simp_all add: mtspr_effect_def is_DBAT_def is_IBAT_def spr_defs)

lemma cpu_ok_MMCRUpdated_same: "cpu_ok s \<Longrightarrow> cpu_ok (MMCRUpdated s)"
  using cpu_ok_MMCRUpdated [of s SPR_LR "spr s SPR_LR"] by (simp add: set_spr_def)

lemma cpu_ok_mtspr_effect:
  assumes "cpu_ok (m_ppc_state i)" "r \<noteq> SPR_MMCR0" "r \<noteq> SPR_MMCR1"
  shows "cpu_ok (m_ppc_state (mtspr_effect r old v i))"
  unfolding mtspr_effect_def using assms
  by (intro cpu_ok_if) (simp_all add: cpu_ok_simps cpu_ok_mtspr_parts cpu_ok_MMCRUpdated_same closed_spr_neq)

lemma cpu_ok_mtspr:
  assumes "cpu_ok (m_ppc_state i)"
  shows "cpu_ok (m_ppc_state (mtspr inst i))"
proof -
  let ?r = "mtspr_index inst" and ?v = "gpr (m_ppc_state i) (RD inst)"
  have "cpu_ok (m_ppc_state (mtspr_effect ?r old ?v (on_ppc (set_spr ?r ?v) i)))" for old
  proof (cases "?r = SPR_MMCR0 \<or> ?r = SPR_MMCR1")
    case True
    then show ?thesis using cpu_ok_MMCRUpdated [OF assms] by (simp add: mtspr_effect_MMCR)
  next
    case False
    then show ?thesis using assms by (intro cpu_ok_mtspr_effect) (simp_all add: cpu_ok_simps)
  qed
  then show ?thesis using assms by (simp add: mtspr_def Let_def cpu_ok_simps)
qed

section \<open>Condition bits\<close>

lemma GetBit_bool: "GetBit f b = of_bool (GetBit f b = 1)"
  by (simp add: GetBit_alt)

lemma GetBit_SetBit_field:
  "GetBit (CR_SetBit (CRBD inst) v f) (ucast (c :: 5 word)) =
     (if ucast c = CRBD inst then v AND 1 else GetBit f (ucast c))"
proof -
  have "(ucast (w :: 5 word) :: u32) < 32" for w
    using unat_less [of w] unsigned_take_bit_eq
    by (simp add: word_less_nat_alt unsigned_ucast_eq take_bit_nat_eq_self)
  then show ?thesis by (auto simp: GetBit_SetBit CRBD_def)
qed

text \<open>
  The eight instructions that combine two condition bits write the truth table of their
  name to the target bit, whatever bits the instruction names, and no other condition bit
  changes.
\<close>

theorem condition_logic:
  "let a = GetBit (cr s) (CRBA inst) = 1; b = GetBit (cr s) (CRBB inst) = 1;
       written = (\<lambda>f v. GetBit (cr (f inst s)) (ucast (c :: 5 word)) =
         (if ucast c = CRBD inst then of_bool v else GetBit (cr s) (ucast c)))
   in written crand (a \<and> b) \<and> written crandc (a \<and> \<not> b) \<and> written creqv (a = b) \<and>
      written crnand (\<not> (a \<and> b)) \<and> written crnor (\<not> (a \<or> b)) \<and> written cror (a \<or> b) \<and>
      written crorc (a \<or> \<not> b) \<and> written crxor (a \<noteq> b)"
proof -
  obtain a b where bits: "GetBit (cr s) (CRBA inst) = of_bool a" "GetBit (cr s) (CRBB inst) = of_bool b"
    using GetBit_bool by metis
  show ?thesis
    by (cases a; cases b) (simp_all add: bits Let_def crand_def crandc_def creqv_def crnand_def
        crnor_def cror_def crorc_def crxor_def GetBit_SetBit_field)
qed

lemma bit_nibble_mask: "bit (nibble_mask fm) n \<longleftrightarrow> n < 32 \<and> bit fm (n div 4)"
proof -
  have test: "fm AND push_bit k 1 \<noteq> 0 \<longleftrightarrow> bit fm k" for k
    using and_exp_eq_0_iff_not_bit [of fm k] by (simp add: push_bit_eq_mult)
  have f: "(0xF :: u32) = mask 4" by (simp add: mask_eq_exp_minus_1)
  have nibble: "bit (push_bit (k * 4) (0xF :: u32)) n \<longleftrightarrow> n < 32 \<and> n div 4 = k" for k
    unfolding f by (auto simp: bit_simps)
  have "bit (fold (\<lambda>k m. if fm AND push_bit k 1 \<noteq> 0 then m OR push_bit (k * 4) (0xF :: u32) else m) [0..<j] 0) n
      \<longleftrightarrow> n < 32 \<and> n div 4 < j \<and> bit fm (n div 4)" for j
    by (induction j) (auto simp: test bit_or_iff nibble less_Suc_eq simp del: push_bit_of_1)
  from this [of 8] show ?thesis by (auto simp: nibble_mask_def)
qed

text \<open>
  Moving a register to the condition register under a field mask replaces the fields of
  the mask and keeps the others, with and without the shortcut for the full mask, and so reads
  back.
\<close>

theorem condition_mask_move:
  "bit (gpr (mfcr inst' (mtcrf inst s)) (RD inst')) n \<longleftrightarrow>
     bit (if bit (CRM inst) (n div 4) then gpr s (RS inst) else CR_Get (cr s)) n"
proof (cases "n < 32")
  case True
  then have "bit (0xFF :: u32) (n div 4)"
    using bit_mask_iff [where 'a = u32, of 8 "n div 4"] by (simp add: mask_eq_exp_minus_1) arith
  then show ?thesis
    using True by (simp add: mfcr_def mtcrf_def Let_def CR_Get_Set bit_or_iff bit_and_iff
        bit_not_iff bit_nibble_mask)
next
  case False
  then have "\<not> bit (w :: u32) n" for w by (auto dest: bit_imp_le_length)
  then show ?thesis by simp
qed

section \<open>Floating-point status summaries\<close>

text \<open>
  The two summary bits as the manual defines them: an invalid operation of any kind has
  occurred, and an exception of one of the five kinds has occurred whose enable bit is set.
\<close>

definition fp_summary_ok :: "u32 \<Rightarrow> bool" where
  "fp_summary_ok f \<longleftrightarrow>
     (bit f 29 \<longleftrightarrow> (\<exists>k \<in> set [24, 23, 22, 21, 20, 19, 10, 9, 8]. bit f k)) \<and>
     (bit f 30 \<longleftrightarrow> (\<exists>k \<in> set [0, 1, 2, 3, 4]. bit f (3 + k) \<and> bit f (25 + k)))"

lemma or_and_eq_0: "(w :: u32) AND (a OR b) = 0 \<longleftrightarrow> w AND a = 0 \<and> w AND b = 0"
  by (auto simp: bit_eq_iff bit_simps)

lemma and_flag: "(w :: u32) AND push_bit k 1 = 0 \<longleftrightarrow> \<not> bit w k"
  using and_exp_eq_0_iff_not_bit [of w k] by (simp add: push_bit_eq_mult)

lemma VX_ANY_test: "f AND FPSCR_VX_ANY \<noteq> 0 \<longleftrightarrow> (\<exists>k \<in> set [24, 23, 22, 21, 20, 19, 10, 9, 8]. bit f k)"
  unfolding FPSCR_VX_ANY_def or_and_eq_0 and_flag by auto

lemma ANY_E_test: "(w AND (f AND FPSCR_ANY_E)) \<noteq> 0 \<longleftrightarrow>
    (\<exists>k \<in> set [0, 1, 2, 3, 4]. bit f (3 + k) \<and> bit w (3 + k))"
  unfolding FPSCR_ANY_E_def and.assoc [symmetric] or_and_eq_0 and_flag
  by (auto simp: bit_and_iff eval_nat_numeral)

lemma CheckFPExceptions_fpscr: "fpscr (CheckFPExceptions s) = fpscr s"
  by (simp add: CheckFPExceptions_def GenerateProgramException_def)

lemma bit_set_summaries:
  "bit (FPSCR_set_VX (of_bool b) w) k = (if k = 29 then b else bit w k)"
  "bit (FPSCR_set_FEX (of_bool b) w) k = (if k = 30 then b else bit w k)"
  by (auto simp: FPSCR_set_VX_def FPSCR_set_FEX_def bit_field_set bit_1_iff)

lemma fp_summary_ok_update: "fp_summary_ok (fpscr (UpdateFPExceptionSummary s))"
proof -
  define f where "f = FPSCR_set_VX (of_bool (fpscr s AND FPSCR_VX_ANY \<noteq> 0)) (fpscr s)"
  define g where "g = FPSCR_set_FEX (of_bool (drop_bit 22 f AND (f AND FPSCR_ANY_E) \<noteq> 0)) f"
  have f: "bit f k = (if k = 29 then fpscr s AND FPSCR_VX_ANY \<noteq> 0 else bit (fpscr s) k)" for k
    by (simp add: f_def bit_set_summaries)
  have g: "bit g k = (if k = 30 then drop_bit 22 f AND (f AND FPSCR_ANY_E) \<noteq> 0 else bit f k)" for k
    by (simp add: g_def bit_set_summaries)
  have "drop_bit 22 f AND (f AND FPSCR_ANY_E) \<noteq> 0 \<longleftrightarrow>
      (\<exists>k \<in> set [0, 1, 2, 3, 4]. bit f (3 + k) \<and> bit f (25 + k))"
    unfolding ANY_E_test by (simp add: bit_drop_bit_eq)
  then have "fp_summary_ok g"
    unfolding fp_summary_ok_def by (simp add: g f VX_ANY_test)
  then show ?thesis
    by (simp add: UpdateFPExceptionSummary_def Let_def CheckFPExceptions_fpscr g_def f_def)
qed

lemma fp_summary_ok_FPSCRUpdated: "fp_summary_ok (fpscr (m_ppc_state (FPSCRUpdated i)))"
  by (simp add: FPSCRUpdated_def RoundingModeUpdated_def Let_def fp_summary_ok_update)

lemma UpdateCR1_fpscr: "fpscr (UpdateCR1 s) = fpscr s"
  by (simp add: UpdateCR1_def)



section \<open>Special registers\<close>

lemma spr_indices_agree: "mtspr_index inst = mfspr_index inst"
proof -
  have "push_bit 5 (SPR_field inst AND 0x1F) + (drop_bit 5 (SPR_field inst) AND 0x1F) =
      push_bit 5 (SPR_field inst AND 0x1F) OR (drop_bit 5 (SPR_field inst) AND 0x1F)"
  proof (rule disjunctive_add)
    have m: "(0x1F :: u32) = mask 5" by (simp add: mask_eq_exp_minus_1)
    show "\<not> bit (push_bit 5 (SPR_field inst AND 0x1F)) n \<or>
        \<not> bit (drop_bit 5 (SPR_field inst) AND 0x1F) n" for n
      unfolding m by (auto simp: bit_simps)
  qed
  moreover have m: "(0x1F :: u32) = mask 5" by (simp add: mask_eq_exp_minus_1)
  moreover have "push_bit 5 (SPRU inst) OR (SPRL inst AND mask 5) =
      push_bit 5 (SPR_field inst AND mask 5) OR (drop_bit 5 (SPR_field inst) AND mask 5)"
    by (rule bit_word_eqI) (auto simp: SPRU_def SPRL_def SPR_field_def bit_simps)
  ultimately show ?thesis by (simp only: mtspr_index_def mfspr_index_def)
qed

text \<open>
  What a special register reads as behind a write of \<open>v\<close>, in the state before the write.
\<close>

definition spr_readback :: "hw \<Rightarrow> PowerPCState \<Rightarrow> spr_index \<Rightarrow> u32 \<Rightarrow> u32" where
  "spr_readback h s r v =
     (if r = SPR_XER then v AND 0xE000FF7F
      else if r = SPR_PVR then spr s SPR_PVR
      else if r = SPR_HID0 then HID0_set_ICFI 0 v
      else if r = SPR_HID1 then v AND 0xF8000000
      else if r = SPR_HID2 then (v AND 0xF0FF0000) OR (spr s SPR_HID2 AND 0x0F000000)
      else if r = SPR_IABR then v AND NOT 1
      else if r = SPR_DMAL then DMAL_set_DMA_T 0 v
      else if r = SPR_WPAR then (if IsBNE h then v OR 1 else v AND NOT 1)
      else if r = SPR_DEC then (if bit v 31 then v else GetFakeDecrementer h)
      else if r = SPR_TL then ucast (GetFakeTimeBase h)
      else if r = SPR_TU then ucast (drop_bit 32 (GetFakeTimeBase h))
      else if r = SPR_UPMC1 then spr s SPR_PMC1 else if r = SPR_UPMC2 then spr s SPR_PMC2
      else if r = SPR_UPMC3 then spr s SPR_PMC3 else if r = SPR_UPMC4 then spr s SPR_PMC4
      else if r = SPR_THRM1 \<or> r = SPR_THRM2 then UpdateThermalReg (spr s SPR_THRM3) v
      else v)"

lemma GetXER_set_spr: "GetXER (set_spr r v s) = GetXER s"
  by (simp add: GetXER_def)

lemma SetXER_spr: "spr (SetXER v s) = spr s" "msr (SetXER v s) = msr s"
  by (simp_all add: SetXER_def)

lemma if_both: "(b \<Longrightarrow> P x) \<Longrightarrow> (\<not> b \<Longrightarrow> P y) \<Longrightarrow> P (if b then x else y)"
  by simp

lemma mtspr_parts_state:
  "spr (m_ppc_state (mtspr_HID0 i)) = (spr (m_ppc_state i))
     (SPR_HID0 := HID0_set_ICFI 0 (spr (m_ppc_state i) SPR_HID0))"
  "spr (m_ppc_state (mtspr_DMAL i)) = (spr (m_ppc_state i))
     (SPR_DMAL := DMAL_set_DMA_T 0 (spr (m_ppc_state i) SPR_DMAL))"
  "msr (m_ppc_state (mtspr_HID0 i)) = msr (m_ppc_state i)"
  "msr (m_ppc_state (mtspr_DMAL i)) = msr (m_ppc_state i)"
  "msr (mtspr_THRM s) = msr s" "msr (MMCRUpdated s) = msr s" "spr (MMCRUpdated s) = spr s"
proof -
  have "HID0_set_ICFI 0 w = w" if "HID0_ICFI w = 0" for w
  proof (rule bit_word_eqI)
    fix n :: nat
    have "\<not> bit w 11" using that by (simp add: HID0_ICFI_def field_get_Suc_0)
    moreover have "11 \<le> n \<and> n < 12 \<longleftrightarrow> n = 11" by auto
    ultimately show "bit (HID0_set_ICFI 0 w) n \<longleftrightarrow> bit w n"
      by (simp add: HID0_set_ICFI_def bit_field_set)
  qed
  then show "spr (m_ppc_state (mtspr_HID0 i)) = (spr (m_ppc_state i))
     (SPR_HID0 := HID0_set_ICFI 0 (spr (m_ppc_state i) SPR_HID0))"
    by (simp add: mtspr_HID0_def fun_upd_idem)
qed (simp_all add: mtspr_HID0_def mtspr_DMAL_def mtspr_THRM_def MMCRUpdated_def Let_def)

lemma mtspr_effect_msr: "msr (m_ppc_state (mtspr_effect r old v i)) = msr (m_ppc_state i)"
  unfolding mtspr_effect_def
  by (intro if_both [where P = "\<lambda>j. msr (m_ppc_state j) = msr (m_ppc_state i)"])
    (simp_all add: mtspr_parts_state SetXER_spr)

text \<open>The two halves: what the write leaves in the register file, and what a read makes of it.\<close>

definition spr_written :: "PowerPCState \<Rightarrow> spr_index \<Rightarrow> u32 \<Rightarrow> u32" where
  "spr_written s r v =
     (if r = SPR_PVR then spr s SPR_PVR
      else if r = SPR_HID0 then HID0_set_ICFI 0 v
      else if r = SPR_HID1 then v AND 0xF8000000
      else if r = SPR_HID2 then (v AND 0xF0FF0000) OR (spr s SPR_HID2 AND 0x0F000000)
      else if r = SPR_DMAL then DMAL_set_DMA_T 0 v
      else if r = SPR_THRM1 \<or> r = SPR_THRM2 then UpdateThermalReg (spr s SPR_THRM3) v
      else v)"

lemma spr_mtspr_effect:
  "spr (m_ppc_state (mtspr_effect r (spr (m_ppc_state i) r) v (on_ppc (set_spr r v) i))) r =
     spr_written (m_ppc_state i) r v"
proof -
  let ?W = "[SPR_PVR, SPR_HID0, SPR_HID1, SPR_HID2, SPR_DMAL, SPR_THRM1, SPR_THRM2, SPR_THRM3]"
  show ?thesis
  proof (cases "r \<in> set ?W")
    case True
    then show ?thesis
      unfolding list.set insert_iff empty_iff
      by (elim disjE) (simp_all add: mtspr_effect_def mtspr_parts_state mtspr_THRM_def Let_def
          is_DBAT_def is_IBAT_def spr_written_def spr_defs)
  next
    case False
    then have "spr_written (m_ppc_state i) r v = v" by (simp add: spr_written_def)
    then show ?thesis
      using False unfolding mtspr_effect_def
      by (intro if_both [where P = "\<lambda>j. spr (m_ppc_state j) r = spr_written (m_ppc_state i) r v"])
        (simp_all add: mtspr_parts_state SetXER_spr)
  qed
qed

lemma mtspr_effect_UPMC:
  "mtspr_effect SPR_UPMC1 old v i = i" "mtspr_effect SPR_UPMC2 old v i = i"
  "mtspr_effect SPR_UPMC3 old v i = i" "mtspr_effect SPR_UPMC4 old v i = i"
  by (simp_all add: mtspr_effect_def is_DBAT_def is_IBAT_def spr_defs)

definition spr_read :: "hw \<Rightarrow> PowerPCState \<Rightarrow> spr_index \<Rightarrow> u32" where
  "spr_read h s r =
    (if r = SPR_XER then GetXER s
     else if r = SPR_IABR then spr s r AND NOT 1
     else if r = SPR_WPAR then (if IsBNE h then spr s r OR 1 else spr s r AND NOT 1)
     else if r = SPR_DEC then (if bit (spr s r) 31 then spr s r else GetFakeDecrementer h)
     else if r = SPR_TL then ucast (GetFakeTimeBase h)
     else if r = SPR_TU then ucast (drop_bit 32 (GetFakeTimeBase h))
     else if r = SPR_UPMC1 then spr s SPR_PMC1 else if r = SPR_UPMC2 then spr s SPR_PMC2
     else if r = SPR_UPMC3 then spr s SPR_PMC3 else if r = SPR_UPMC4 then spr s SPR_PMC4
     else spr s r)"

text \<open>The registers that a read treats specially, and what both specifications say of them.\<close>

definition read_specials :: "spr_index list" where
  "read_specials = [SPR_XER, SPR_IABR, SPR_WPAR, SPR_DEC, SPR_TL, SPR_TU,
     SPR_UPMC1, SPR_UPMC2, SPR_UPMC3, SPR_UPMC4]"

lemma read_specials_cases:
  assumes "r \<in> set read_specials" "P SPR_XER" "P SPR_IABR" "P SPR_WPAR" "P SPR_DEC" "P SPR_TL"
    "P SPR_TU" "P SPR_UPMC1" "P SPR_UPMC2" "P SPR_UPMC3" "P SPR_UPMC4"
  shows "P r"
  using assms by (auto simp: read_specials_def)

lemma spr_read_specials:
  "spr_read h s SPR_XER = GetXER s" "spr_read h s SPR_IABR = spr s SPR_IABR AND NOT 1"
  "spr_read h s SPR_WPAR = (if IsBNE h then spr s SPR_WPAR OR 1 else spr s SPR_WPAR AND NOT 1)"
  "spr_read h s SPR_DEC = (if bit (spr s SPR_DEC) 31 then spr s SPR_DEC else GetFakeDecrementer h)"
  "spr_read h s SPR_TL = ucast (GetFakeTimeBase h)"
  "spr_read h s SPR_TU = ucast (drop_bit 32 (GetFakeTimeBase h))"
  "spr_read h s SPR_UPMC1 = spr s SPR_PMC1" "spr_read h s SPR_UPMC2 = spr s SPR_PMC2"
  "spr_read h s SPR_UPMC3 = spr s SPR_PMC3" "spr_read h s SPR_UPMC4 = spr s SPR_PMC4"
  by (simp_all add: spr_read_def spr_defs)

lemma spr_readback_specials:
  "spr_readback h s SPR_XER v = v AND 0xE000FF7F" "spr_readback h s SPR_IABR v = v AND NOT 1"
  "spr_readback h s SPR_WPAR v = (if IsBNE h then v OR 1 else v AND NOT 1)"
  "spr_readback h s SPR_DEC v = (if bit v 31 then v else GetFakeDecrementer h)"
  "spr_readback h s SPR_TL v = ucast (GetFakeTimeBase h)"
  "spr_readback h s SPR_TU v = ucast (drop_bit 32 (GetFakeTimeBase h))"
  "spr_readback h s SPR_UPMC1 v = spr s SPR_PMC1" "spr_readback h s SPR_UPMC2 v = spr s SPR_PMC2"
  "spr_readback h s SPR_UPMC3 v = spr s SPR_PMC3" "spr_readback h s SPR_UPMC4 v = spr s SPR_PMC4"
  by (simp_all add: spr_readback_def spr_defs)

lemma spr_written_specials:
  "spr_written s SPR_IABR v = v" "spr_written s SPR_WPAR v = v" "spr_written s SPR_DEC v = v"
  by (simp_all add: spr_written_def spr_defs)

lemma UPMC_neq:
  "SPR_PMC1 \<noteq> SPR_UPMC1" "SPR_PMC2 \<noteq> SPR_UPMC2" "SPR_PMC3 \<noteq> SPR_UPMC3" "SPR_PMC4 \<noteq> SPR_UPMC4"
  by (simp_all add: spr_defs)

lemma mfspr_value:
  assumes "MSR_PR (msr s) = 0" and "mfspr_index b = r"
  shows "gpr (mfspr h b s) (RD b) = spr_read h s r"
proof (cases "r \<in> set read_specials")
  case False
  then show ?thesis using assms by (simp add: mfspr_def Let_def spr_read_def read_specials_def)
next
  case True
  have dec: "w AND 0x80000000 = 0 \<longleftrightarrow> \<not> bit w 31" for w :: u32
    using and_exp_eq_0_iff_not_bit [of w 31] by simp
  from True have "mfspr_index b = r \<longrightarrow> gpr (mfspr h b s) (RD b) = spr_read h s r"
    by (rule read_specials_cases) (auto simp: assms(1) mfspr_def Let_def dec
        WriteFullTimeBaseValue_def spr_read_def spr_defs)
  then show ?thesis using assms(2) by blast
qed



end
