(* ===== verification/Decode_Tables.thy ===== *)
theory Decode_Tables
  imports Gekko
begin

text \<open>
  The two instruction tables of the processor core. \<^verbatim>\<open>Interpreter_Tables.cpp\<close> maps
  an instruction word to the interpreter's function for it, here its name;
  \<^verbatim>\<open>PPCTables.cpp\<close>, which the JIT and the timing read, maps it to a description: name,
  type, cycles and the flags of what the instruction reads and writes. Both are built at compile
  time from lists of opcodes, with an assertion that no entry is placed twice.

  The lemmas show that the assertions hold, what a lookup finds, and that the two tables name the
  same instruction for every instruction word.
\<close>

section \<open>Instruction descriptions\<close>

definition FL_SET_CR0 :: u64 where "FL_SET_CR0 = push_bit 0 1"
definition FL_SET_CR1 :: u64 where "FL_SET_CR1 = push_bit 1 1"
definition FL_SET_CRn :: u64 where "FL_SET_CRn = push_bit 2 1"
definition FL_SET_CA :: u64 where "FL_SET_CA = push_bit 3 1"
definition FL_READ_CA :: u64 where "FL_READ_CA = push_bit 4 1"
definition FL_RC_BIT :: u64 where "FL_RC_BIT = push_bit 5 1"
definition FL_RC_BIT_F :: u64 where "FL_RC_BIT_F = push_bit 6 1"
definition FL_ENDBLOCK :: u64 where "FL_ENDBLOCK = push_bit 7 1"
definition FL_IN_A :: u64 where "FL_IN_A = push_bit 8 1"
definition FL_IN_A0 :: u64 where "FL_IN_A0 = push_bit 9 1"
definition FL_IN_B :: u64 where "FL_IN_B = push_bit 10 1"
definition FL_IN_C :: u64 where "FL_IN_C = push_bit 11 1"
definition FL_IN_S :: u64 where "FL_IN_S = push_bit 12 1"
definition FL_IN_AB :: u64 where "FL_IN_AB = FL_IN_A OR FL_IN_B"
definition FL_IN_AC :: u64 where "FL_IN_AC = FL_IN_A OR FL_IN_C"
definition FL_IN_ABC :: u64 where "FL_IN_ABC = FL_IN_A OR FL_IN_B OR FL_IN_C"
definition FL_IN_SB :: u64 where "FL_IN_SB = FL_IN_S OR FL_IN_B"
definition FL_IN_A0B :: u64 where "FL_IN_A0B = FL_IN_A0 OR FL_IN_B"
definition FL_IN_A0BC :: u64 where "FL_IN_A0BC = FL_IN_A0 OR FL_IN_B OR FL_IN_C"
definition FL_OUT_D :: u64 where "FL_OUT_D = push_bit 13 1"
definition FL_OUT_A :: u64 where "FL_OUT_A = push_bit 14 1"
definition FL_OUT_AD :: u64 where "FL_OUT_AD = FL_OUT_A OR FL_OUT_D"
definition FL_TIMER :: u64 where "FL_TIMER = push_bit 15 1"
definition FL_CHECKEXCEPTIONS :: u64 where "FL_CHECKEXCEPTIONS = push_bit 16 1"
definition FL_NO_REORDER :: u64 where "FL_NO_REORDER = push_bit 17 1"
definition FL_USE_FPU :: u64 where "FL_USE_FPU = push_bit 18 1"
definition FL_LOADSTORE :: u64 where "FL_LOADSTORE = push_bit 19 1"
definition FL_SET_FPRF :: u64 where "FL_SET_FPRF = push_bit 20 1"
definition FL_READ_FPRF :: u64 where "FL_READ_FPRF = push_bit 21 1"
definition FL_SET_OE :: u64 where "FL_SET_OE = push_bit 22 1"
definition FL_IN_FLOAT_A :: u64 where "FL_IN_FLOAT_A = push_bit 23 1"
definition FL_IN_FLOAT_B :: u64 where "FL_IN_FLOAT_B = push_bit 24 1"
definition FL_IN_FLOAT_C :: u64 where "FL_IN_FLOAT_C = push_bit 25 1"
definition FL_IN_FLOAT_S :: u64 where "FL_IN_FLOAT_S = push_bit 26 1"
definition FL_IN_FLOAT_D :: u64 where "FL_IN_FLOAT_D = push_bit 27 1"
definition FL_IN_FLOAT_AB :: u64 where "FL_IN_FLOAT_AB = FL_IN_FLOAT_A OR FL_IN_FLOAT_B"
definition FL_IN_FLOAT_AC :: u64 where "FL_IN_FLOAT_AC = FL_IN_FLOAT_A OR FL_IN_FLOAT_C"
definition FL_IN_FLOAT_ABC :: u64 where "FL_IN_FLOAT_ABC = FL_IN_FLOAT_A OR FL_IN_FLOAT_B OR FL_IN_FLOAT_C"
definition FL_OUT_FLOAT_D :: u64 where "FL_OUT_FLOAT_D = push_bit 28 1"
definition FL_INOUT_FLOAT_D :: u64 where "FL_INOUT_FLOAT_D = FL_IN_FLOAT_D OR FL_OUT_FLOAT_D"
definition FL_IN_FLOAT_A_BITEXACT :: u64 where "FL_IN_FLOAT_A_BITEXACT = push_bit 29 1"
definition FL_IN_FLOAT_B_BITEXACT :: u64 where "FL_IN_FLOAT_B_BITEXACT = push_bit 30 1"
definition FL_IN_FLOAT_C_BITEXACT :: u64 where "FL_IN_FLOAT_C_BITEXACT = push_bit 31 1"
definition FL_IN_FLOAT_AB_BITEXACT :: u64 where "FL_IN_FLOAT_AB_BITEXACT = FL_IN_FLOAT_A_BITEXACT OR FL_IN_FLOAT_B_BITEXACT"
definition FL_IN_FLOAT_BC_BITEXACT :: u64 where "FL_IN_FLOAT_BC_BITEXACT = FL_IN_FLOAT_B_BITEXACT OR FL_IN_FLOAT_C_BITEXACT"
definition FL_PROGRAMEXCEPTION :: u64 where "FL_PROGRAMEXCEPTION = push_bit 32 1"
definition FL_FLOAT_EXCEPTION :: u64 where "FL_FLOAT_EXCEPTION = push_bit 33 1"
definition FL_FLOAT_DIV :: u64 where "FL_FLOAT_DIV = push_bit 34 1"
definition FL_SET_ALL_CR :: u64 where "FL_SET_ALL_CR = push_bit 35 1"
definition FL_READ_CRn :: u64 where "FL_READ_CRn = push_bit 36 1"
definition FL_READ_CR_BI :: u64 where "FL_READ_CR_BI = push_bit 37 1"
definition FL_READ_ALL_CR :: u64 where "FL_READ_ALL_CR = push_bit 38 1"
definition FL_SET_CRx :: u64 where "FL_SET_CRx = FL_SET_CR0 OR FL_SET_CR1 OR FL_SET_CRn OR FL_SET_ALL_CR"
definition FL_READ_CRx :: u64 where "FL_READ_CRx = FL_READ_CRn OR FL_READ_CR_BI OR FL_READ_ALL_CR"
definition FL_SET_MSR :: u64 where "FL_SET_MSR = push_bit 39 1"

lemmas flag_defs = FL_SET_CR0_def FL_SET_CR1_def FL_SET_CRn_def FL_SET_CA_def FL_READ_CA_def
  FL_RC_BIT_def FL_RC_BIT_F_def FL_ENDBLOCK_def FL_IN_A_def FL_IN_A0_def FL_IN_B_def FL_IN_C_def
  FL_IN_S_def FL_IN_AB_def FL_IN_AC_def FL_IN_ABC_def FL_IN_SB_def FL_IN_A0B_def FL_IN_A0BC_def
  FL_OUT_D_def FL_OUT_A_def FL_OUT_AD_def FL_TIMER_def FL_CHECKEXCEPTIONS_def FL_NO_REORDER_def
  FL_USE_FPU_def FL_LOADSTORE_def FL_SET_FPRF_def FL_READ_FPRF_def FL_SET_OE_def
  FL_IN_FLOAT_A_def FL_IN_FLOAT_B_def FL_IN_FLOAT_C_def FL_IN_FLOAT_S_def FL_IN_FLOAT_D_def
  FL_IN_FLOAT_AB_def FL_IN_FLOAT_AC_def FL_IN_FLOAT_ABC_def FL_OUT_FLOAT_D_def
  FL_INOUT_FLOAT_D_def FL_IN_FLOAT_A_BITEXACT_def FL_IN_FLOAT_B_BITEXACT_def
  FL_IN_FLOAT_C_BITEXACT_def FL_IN_FLOAT_AB_BITEXACT_def FL_IN_FLOAT_BC_BITEXACT_def
  FL_PROGRAMEXCEPTION_def FL_FLOAT_EXCEPTION_def FL_FLOAT_DIV_def FL_SET_ALL_CR_def
  FL_READ_CRn_def FL_READ_CR_BI_def FL_READ_ALL_CR_def FL_SET_CRx_def FL_READ_CRx_def
  FL_SET_MSR_def

datatype OpType = OpType_Invalid | OpType_Subtable | OpType_Integer | OpType_CR | OpType_SPR |
  OpType_System | OpType_SystemFP | OpType_Load | OpType_Store | OpType_LoadFP | OpType_StoreFP
  | OpType_DoubleFP | OpType_SingleFP | OpType_LoadPS | OpType_StorePS | OpType_PS |
  OpType_DataCache | OpType_InstructionCache | OpType_Branch | OpType_Unknown

datatype GekkoOPInfo =
  OpInfo (opname: string) (op_type: OpType) (num_cycles: u32) (op_flags: u64)

type_synonym GekkoOPTemplate = "nat \<times> GekkoOPInfo"

definition s_unknown_op_info :: GekkoOPInfo where
  "s_unknown_op_info = OpInfo ''unknown_instruction'' OpType_Unknown 0 FL_ENDBLOCK"

definition Info_primary_table :: "GekkoOPTemplate list" where
  "Info_primary_table =
     [(4, OpInfo ''RunTable4'' OpType_Subtable 0 0),
      (19, OpInfo ''RunTable19'' OpType_Subtable 0 0),
      (31, OpInfo ''RunTable31'' OpType_Subtable 0 0),
      (59, OpInfo ''RunTable59'' OpType_Subtable 0 0),
      (63, OpInfo ''RunTable63'' OpType_Subtable 0 0),
      (16, OpInfo ''bcx'' OpType_Branch 1 (FL_ENDBLOCK OR FL_READ_CR_BI)),
      (18, OpInfo ''bx'' OpType_Branch 1 FL_ENDBLOCK),
      (3, OpInfo ''twi'' OpType_System 1 (FL_IN_A OR FL_ENDBLOCK)),
      (17, OpInfo ''sc'' OpType_System 2 FL_ENDBLOCK),
      (7, OpInfo ''mulli'' OpType_Integer 3 (FL_OUT_D OR FL_IN_A)),
      (8, OpInfo ''subfic'' OpType_Integer 1 (FL_OUT_D OR FL_IN_A OR FL_SET_CA)),
      (10, OpInfo ''cmpli'' OpType_Integer 1 (FL_IN_A OR FL_SET_CRn)),
      (11, OpInfo ''cmpi'' OpType_Integer 1 (FL_IN_A OR FL_SET_CRn)),
      (12, OpInfo ''addic'' OpType_Integer 1 (FL_OUT_D OR FL_IN_A OR FL_SET_CA)),
      (13, OpInfo ''addic_rc'' OpType_Integer 1 (FL_OUT_D OR FL_IN_A OR FL_SET_CA OR FL_SET_CR0)),
      (14, OpInfo ''addi'' OpType_Integer 1 (FL_OUT_D OR FL_IN_A0)),
      (15, OpInfo ''addis'' OpType_Integer 1 (FL_OUT_D OR FL_IN_A0)),
      (20, OpInfo ''rlwimix'' OpType_Integer 1 (FL_OUT_A OR FL_IN_A OR FL_IN_S OR FL_RC_BIT)),
      (21, OpInfo ''rlwinmx'' OpType_Integer 1 (FL_OUT_A OR FL_IN_S OR FL_RC_BIT)),
      (23, OpInfo ''rlwnmx'' OpType_Integer 1 (FL_OUT_A OR FL_IN_SB OR FL_RC_BIT)),
      (24, OpInfo ''ori'' OpType_Integer 1 (FL_OUT_A OR FL_IN_S)),
      (25, OpInfo ''oris'' OpType_Integer 1 (FL_OUT_A OR FL_IN_S)),
      (26, OpInfo ''xori'' OpType_Integer 1 (FL_OUT_A OR FL_IN_S)),
      (27, OpInfo ''xoris'' OpType_Integer 1 (FL_OUT_A OR FL_IN_S)),
      (28, OpInfo ''andi_rc'' OpType_Integer 1 (FL_OUT_A OR FL_IN_S OR FL_SET_CR0)),
      (29, OpInfo ''andis_rc'' OpType_Integer 1 (FL_OUT_A OR FL_IN_S OR FL_SET_CR0)),
      (32, OpInfo ''lwz'' OpType_Load 1 (FL_OUT_D OR FL_IN_A0 OR FL_LOADSTORE)),
      (33, OpInfo ''lwzu'' OpType_Load 1 (FL_OUT_D OR FL_OUT_A OR FL_IN_A OR FL_LOADSTORE)),
      (34, OpInfo ''lbz'' OpType_Load 1 (FL_OUT_D OR FL_IN_A0 OR FL_LOADSTORE)),
      (35, OpInfo ''lbzu'' OpType_Load 1 (FL_OUT_D OR FL_OUT_A OR FL_IN_A OR FL_LOADSTORE)),
      (40, OpInfo ''lhz'' OpType_Load 1 (FL_OUT_D OR FL_IN_A0 OR FL_LOADSTORE)),
      (41, OpInfo ''lhzu'' OpType_Load 1 (FL_OUT_D OR FL_OUT_A OR FL_IN_A OR FL_LOADSTORE)),
      (42, OpInfo ''lha'' OpType_Load 1 (FL_OUT_D OR FL_IN_A0 OR FL_LOADSTORE)),
      (43, OpInfo ''lhau'' OpType_Load 1 (FL_OUT_D OR FL_OUT_A OR FL_IN_A OR FL_LOADSTORE)),
      (44, OpInfo ''sth'' OpType_Store 1 (FL_IN_A0 OR FL_IN_S OR FL_LOADSTORE)),
      (45, OpInfo ''sthu'' OpType_Store 1 (FL_OUT_A OR FL_IN_A OR FL_IN_S OR FL_LOADSTORE)),
      (36, OpInfo ''stw'' OpType_Store 1 (FL_IN_A0 OR FL_IN_S OR FL_LOADSTORE)),
      (37, OpInfo ''stwu'' OpType_Store 1 (FL_OUT_A OR FL_IN_A OR FL_IN_S OR FL_LOADSTORE)),
      (38, OpInfo ''stb'' OpType_Store 1 (FL_IN_A0 OR FL_IN_S OR FL_LOADSTORE)),
      (39, OpInfo ''stbu'' OpType_Store 1 (FL_OUT_A OR FL_IN_A OR FL_IN_S OR FL_LOADSTORE)),
      (46, OpInfo ''lmw'' OpType_System 11 (FL_IN_A0 OR FL_LOADSTORE)),
      (47, OpInfo ''stmw'' OpType_System 11 (FL_IN_A0 OR FL_LOADSTORE)),
      (48, OpInfo ''lfs'' OpType_LoadFP 1 (FL_OUT_FLOAT_D OR FL_IN_A OR FL_USE_FPU OR FL_LOADSTORE)),
      (49, OpInfo ''lfsu'' OpType_LoadFP 1 (FL_OUT_FLOAT_D OR FL_OUT_A OR FL_IN_A OR FL_USE_FPU OR FL_LOADSTORE)),
      (50, OpInfo ''lfd'' OpType_LoadFP 1 (FL_INOUT_FLOAT_D OR FL_IN_A OR FL_USE_FPU OR FL_LOADSTORE)),
      (51, OpInfo ''lfdu'' OpType_LoadFP 1 (FL_INOUT_FLOAT_D OR FL_OUT_A OR FL_IN_A OR FL_USE_FPU OR FL_LOADSTORE)),
      (52, OpInfo ''stfs'' OpType_StoreFP 1 (FL_IN_FLOAT_S OR FL_IN_A0 OR FL_USE_FPU OR FL_LOADSTORE)),
      (53, OpInfo ''stfsu'' OpType_StoreFP 1 (FL_IN_FLOAT_S OR FL_OUT_A OR FL_IN_A OR FL_USE_FPU OR FL_LOADSTORE)),
      (54, OpInfo ''stfd'' OpType_StoreFP 1 (FL_IN_FLOAT_S OR FL_IN_A0 OR FL_USE_FPU OR FL_LOADSTORE)),
      (55, OpInfo ''stfdu'' OpType_StoreFP 1 (FL_IN_FLOAT_S OR FL_OUT_A OR FL_IN_A OR FL_USE_FPU OR FL_LOADSTORE)),
      (56, OpInfo ''psq_l'' OpType_LoadPS 1 (FL_OUT_FLOAT_D OR FL_IN_A0 OR FL_USE_FPU OR FL_LOADSTORE OR FL_PROGRAMEXCEPTION)),
      (57, OpInfo ''psq_lu'' OpType_LoadPS 1 (FL_OUT_FLOAT_D OR FL_OUT_A OR FL_IN_A OR FL_USE_FPU OR FL_LOADSTORE OR FL_PROGRAMEXCEPTION)),
      (60, OpInfo ''psq_st'' OpType_StorePS 1 (FL_IN_FLOAT_S OR FL_IN_A0 OR FL_USE_FPU OR FL_LOADSTORE OR FL_PROGRAMEXCEPTION)),
      (61, OpInfo ''psq_stu'' OpType_StorePS 1 (FL_IN_FLOAT_S OR FL_OUT_A OR FL_IN_A OR FL_USE_FPU OR FL_LOADSTORE OR FL_PROGRAMEXCEPTION))]"

definition Info_table4 :: "GekkoOPTemplate list" where
  "Info_table4 =
     [(0, OpInfo ''ps_cmpu0'' OpType_PS 1 (FL_IN_FLOAT_AB OR FL_SET_CRn OR FL_USE_FPU OR FL_READ_FPRF OR FL_SET_FPRF OR FL_PROGRAMEXCEPTION OR FL_FLOAT_EXCEPTION)),
      (32, OpInfo ''ps_cmpo0'' OpType_PS 1 (FL_IN_FLOAT_AB OR FL_SET_CRn OR FL_USE_FPU OR FL_READ_FPRF OR FL_SET_FPRF OR FL_PROGRAMEXCEPTION OR FL_FLOAT_EXCEPTION)),
      (40, OpInfo ''ps_neg'' OpType_PS 1 (FL_OUT_FLOAT_D OR FL_IN_FLOAT_B OR FL_IN_FLOAT_B_BITEXACT OR FL_RC_BIT_F OR FL_USE_FPU OR FL_PROGRAMEXCEPTION)),
      (136, OpInfo ''ps_nabs'' OpType_PS 1 (FL_OUT_FLOAT_D OR FL_IN_FLOAT_B OR FL_IN_FLOAT_B_BITEXACT OR FL_RC_BIT_F OR FL_USE_FPU OR FL_PROGRAMEXCEPTION)),
      (264, OpInfo ''ps_abs'' OpType_PS 1 (FL_OUT_FLOAT_D OR FL_IN_FLOAT_B OR FL_IN_FLOAT_B_BITEXACT OR FL_RC_BIT_F OR FL_USE_FPU OR FL_PROGRAMEXCEPTION)),
      (64, OpInfo ''ps_cmpu1'' OpType_PS 1 (FL_IN_FLOAT_AB OR FL_SET_CRn OR FL_USE_FPU OR FL_READ_FPRF OR FL_SET_FPRF OR FL_PROGRAMEXCEPTION OR FL_FLOAT_EXCEPTION)),
      (72, OpInfo ''ps_mr'' OpType_PS 1 (FL_OUT_FLOAT_D OR FL_IN_FLOAT_B OR FL_IN_FLOAT_B_BITEXACT OR FL_RC_BIT_F OR FL_USE_FPU OR FL_PROGRAMEXCEPTION)),
      (96, OpInfo ''ps_cmpo1'' OpType_PS 1 (FL_IN_FLOAT_AB OR FL_SET_CRn OR FL_USE_FPU OR FL_READ_FPRF OR FL_SET_FPRF OR FL_PROGRAMEXCEPTION OR FL_FLOAT_EXCEPTION)),
      (528, OpInfo ''ps_merge00'' OpType_PS 1 (FL_OUT_FLOAT_D OR FL_IN_FLOAT_AB OR FL_IN_FLOAT_AB_BITEXACT OR FL_RC_BIT_F OR FL_USE_FPU OR FL_PROGRAMEXCEPTION)),
      (560, OpInfo ''ps_merge01'' OpType_PS 1 (FL_OUT_FLOAT_D OR FL_IN_FLOAT_AB OR FL_IN_FLOAT_AB_BITEXACT OR FL_RC_BIT_F OR FL_USE_FPU OR FL_PROGRAMEXCEPTION)),
      (592, OpInfo ''ps_merge10'' OpType_PS 1 (FL_OUT_FLOAT_D OR FL_IN_FLOAT_AB OR FL_IN_FLOAT_AB_BITEXACT OR FL_RC_BIT_F OR FL_USE_FPU OR FL_PROGRAMEXCEPTION)),
      (624, OpInfo ''ps_merge11'' OpType_PS 1 (FL_OUT_FLOAT_D OR FL_IN_FLOAT_AB OR FL_IN_FLOAT_AB_BITEXACT OR FL_RC_BIT_F OR FL_USE_FPU OR FL_PROGRAMEXCEPTION)),
      (1014, OpInfo ''dcbz_l'' OpType_System 1 (FL_IN_A0B OR FL_LOADSTORE OR FL_PROGRAMEXCEPTION))]"

definition Info_table4_2 :: "GekkoOPTemplate list" where
  "Info_table4_2 =
     [(10, OpInfo ''ps_sum0'' OpType_PS 1 (FL_OUT_FLOAT_D OR FL_IN_FLOAT_ABC OR FL_RC_BIT_F OR FL_USE_FPU OR FL_SET_FPRF OR FL_PROGRAMEXCEPTION OR FL_FLOAT_EXCEPTION)),
      (11, OpInfo ''ps_sum1'' OpType_PS 1 (FL_OUT_FLOAT_D OR FL_IN_FLOAT_ABC OR FL_RC_BIT_F OR FL_USE_FPU OR FL_SET_FPRF OR FL_PROGRAMEXCEPTION OR FL_FLOAT_EXCEPTION)),
      (12, OpInfo ''ps_muls0'' OpType_PS 1 (FL_OUT_FLOAT_D OR FL_IN_FLOAT_AC OR FL_RC_BIT_F OR FL_USE_FPU OR FL_SET_FPRF OR FL_PROGRAMEXCEPTION OR FL_FLOAT_EXCEPTION)),
      (13, OpInfo ''ps_muls1'' OpType_PS 1 (FL_OUT_FLOAT_D OR FL_IN_FLOAT_AC OR FL_RC_BIT_F OR FL_USE_FPU OR FL_SET_FPRF OR FL_PROGRAMEXCEPTION OR FL_FLOAT_EXCEPTION)),
      (14, OpInfo ''ps_madds0'' OpType_PS 1 (FL_OUT_FLOAT_D OR FL_IN_FLOAT_ABC OR FL_RC_BIT_F OR FL_USE_FPU OR FL_SET_FPRF OR FL_PROGRAMEXCEPTION OR FL_FLOAT_EXCEPTION)),
      (15, OpInfo ''ps_madds1'' OpType_PS 1 (FL_OUT_FLOAT_D OR FL_IN_FLOAT_ABC OR FL_RC_BIT_F OR FL_USE_FPU OR FL_SET_FPRF OR FL_PROGRAMEXCEPTION OR FL_FLOAT_EXCEPTION)),
      (18, OpInfo ''ps_div'' OpType_PS 17 (FL_OUT_FLOAT_D OR FL_IN_FLOAT_AB OR FL_RC_BIT_F OR FL_USE_FPU OR FL_SET_FPRF OR FL_PROGRAMEXCEPTION OR FL_FLOAT_EXCEPTION OR FL_FLOAT_DIV)),
      (20, OpInfo ''ps_sub'' OpType_PS 1 (FL_OUT_FLOAT_D OR FL_IN_FLOAT_AB OR FL_RC_BIT_F OR FL_USE_FPU OR FL_SET_FPRF OR FL_PROGRAMEXCEPTION OR FL_FLOAT_EXCEPTION)),
      (21, OpInfo ''ps_add'' OpType_PS 1 (FL_OUT_FLOAT_D OR FL_IN_FLOAT_AB OR FL_RC_BIT_F OR FL_USE_FPU OR FL_SET_FPRF OR FL_PROGRAMEXCEPTION OR FL_FLOAT_EXCEPTION)),
      (23, OpInfo ''ps_sel'' OpType_PS 1 (FL_OUT_FLOAT_D OR FL_IN_FLOAT_ABC OR FL_IN_FLOAT_BC_BITEXACT OR FL_RC_BIT_F OR FL_USE_FPU OR FL_PROGRAMEXCEPTION)),
      (24, OpInfo ''ps_res'' OpType_PS 1 (FL_OUT_FLOAT_D OR FL_IN_FLOAT_B OR FL_RC_BIT_F OR FL_USE_FPU OR FL_SET_FPRF OR FL_PROGRAMEXCEPTION OR FL_FLOAT_EXCEPTION OR FL_FLOAT_DIV)),
      (25, OpInfo ''ps_mul'' OpType_PS 1 (FL_OUT_FLOAT_D OR FL_IN_FLOAT_AC OR FL_RC_BIT_F OR FL_USE_FPU OR FL_SET_FPRF OR FL_PROGRAMEXCEPTION OR FL_FLOAT_EXCEPTION)),
      (26, OpInfo ''ps_rsqrte'' OpType_PS 2 (FL_OUT_FLOAT_D OR FL_IN_FLOAT_B OR FL_RC_BIT_F OR FL_USE_FPU OR FL_SET_FPRF OR FL_PROGRAMEXCEPTION OR FL_FLOAT_EXCEPTION OR FL_FLOAT_DIV)),
      (28, OpInfo ''ps_msub'' OpType_PS 1 (FL_OUT_FLOAT_D OR FL_IN_FLOAT_ABC OR FL_RC_BIT_F OR FL_USE_FPU OR FL_SET_FPRF OR FL_PROGRAMEXCEPTION OR FL_FLOAT_EXCEPTION)),
      (29, OpInfo ''ps_madd'' OpType_PS 1 (FL_OUT_FLOAT_D OR FL_IN_FLOAT_ABC OR FL_RC_BIT_F OR FL_USE_FPU OR FL_SET_FPRF OR FL_PROGRAMEXCEPTION OR FL_FLOAT_EXCEPTION)),
      (30, OpInfo ''ps_nmsub'' OpType_PS 1 (FL_OUT_FLOAT_D OR FL_IN_FLOAT_ABC OR FL_RC_BIT_F OR FL_USE_FPU OR FL_SET_FPRF OR FL_PROGRAMEXCEPTION OR FL_FLOAT_EXCEPTION)),
      (31, OpInfo ''ps_nmadd'' OpType_PS 1 (FL_OUT_FLOAT_D OR FL_IN_FLOAT_ABC OR FL_RC_BIT_F OR FL_USE_FPU OR FL_SET_FPRF OR FL_PROGRAMEXCEPTION OR FL_FLOAT_EXCEPTION))]"

definition Info_table4_3 :: "GekkoOPTemplate list" where
  "Info_table4_3 =
     [(6, OpInfo ''psq_lx'' OpType_LoadPS 1 (FL_OUT_FLOAT_D OR FL_IN_A0B OR FL_USE_FPU OR FL_LOADSTORE)),
      (7, OpInfo ''psq_stx'' OpType_StorePS 1 (FL_IN_FLOAT_S OR FL_IN_A0B OR FL_USE_FPU OR FL_LOADSTORE)),
      (38, OpInfo ''psq_lux'' OpType_LoadPS 1 (FL_OUT_FLOAT_D OR FL_OUT_A OR FL_IN_AB OR FL_USE_FPU OR FL_LOADSTORE)),
      (39, OpInfo ''psq_stux'' OpType_StorePS 1 (FL_IN_FLOAT_S OR FL_OUT_A OR FL_IN_AB OR FL_USE_FPU OR FL_LOADSTORE))]"

definition Info_table19 :: "GekkoOPTemplate list" where
  "Info_table19 =
     [(528, OpInfo ''bcctrx'' OpType_Branch 1 (FL_ENDBLOCK OR FL_READ_CR_BI)),
      (16, OpInfo ''bclrx'' OpType_Branch 1 (FL_ENDBLOCK OR FL_READ_CR_BI)),
      (257, OpInfo ''crand'' OpType_CR 1 0),
      (129, OpInfo ''crandc'' OpType_CR 1 0),
      (289, OpInfo ''creqv'' OpType_CR 1 0),
      (225, OpInfo ''crnand'' OpType_CR 1 0),
      (33, OpInfo ''crnor'' OpType_CR 1 0),
      (449, OpInfo ''cror'' OpType_CR 1 0),
      (417, OpInfo ''crorc'' OpType_CR 1 0),
      (193, OpInfo ''crxor'' OpType_CR 1 0),
      (150, OpInfo ''isync'' OpType_InstructionCache 1 (FL_NO_REORDER)),
      (0, OpInfo ''mcrf'' OpType_System 1 (FL_SET_CRn OR FL_READ_CRn)),
      (50, OpInfo ''rfi'' OpType_System 2 (FL_ENDBLOCK OR FL_CHECKEXCEPTIONS OR FL_PROGRAMEXCEPTION OR FL_SET_MSR))]"

definition Info_table31 :: "GekkoOPTemplate list" where
  "Info_table31 =
     [(266, OpInfo ''addx'' OpType_Integer 1 (FL_OUT_D OR FL_IN_AB OR FL_RC_BIT)),
      (778, OpInfo ''addox'' OpType_Integer 1 (FL_OUT_D OR FL_IN_AB OR FL_RC_BIT OR FL_SET_OE)),
      (10, OpInfo ''addcx'' OpType_Integer 1 (FL_OUT_D OR FL_IN_AB OR FL_SET_CA OR FL_RC_BIT)),
      (522, OpInfo ''addcox'' OpType_Integer 1 (FL_OUT_D OR FL_IN_AB OR FL_SET_CA OR FL_RC_BIT OR FL_SET_OE)),
      (138, OpInfo ''addex'' OpType_Integer 1 (FL_OUT_D OR FL_IN_AB OR FL_READ_CA OR FL_SET_CA OR FL_RC_BIT)),
      (650, OpInfo ''addeox'' OpType_Integer 1 (FL_OUT_D OR FL_IN_AB OR FL_READ_CA OR FL_SET_CA OR FL_RC_BIT OR FL_SET_OE)),
      (234, OpInfo ''addmex'' OpType_Integer 1 (FL_OUT_D OR FL_IN_A OR FL_READ_CA OR FL_SET_CA OR FL_RC_BIT)),
      (746, OpInfo ''addmeox'' OpType_Integer 1 (FL_OUT_D OR FL_IN_A OR FL_READ_CA OR FL_SET_CA OR FL_RC_BIT OR FL_SET_OE)),
      (202, OpInfo ''addzex'' OpType_Integer 1 (FL_OUT_D OR FL_IN_A OR FL_READ_CA OR FL_SET_CA OR FL_RC_BIT)),
      (714, OpInfo ''addzeox'' OpType_Integer 1 (FL_OUT_D OR FL_IN_A OR FL_READ_CA OR FL_SET_CA OR FL_RC_BIT OR FL_SET_OE)),
      (491, OpInfo ''divwx'' OpType_Integer 40 (FL_OUT_D OR FL_IN_AB OR FL_RC_BIT)),
      (1003, OpInfo ''divwox'' OpType_Integer 40 (FL_OUT_D OR FL_IN_AB OR FL_RC_BIT OR FL_SET_OE)),
      (459, OpInfo ''divwux'' OpType_Integer 40 (FL_OUT_D OR FL_IN_AB OR FL_RC_BIT)),
      (971, OpInfo ''divwuox'' OpType_Integer 40 (FL_OUT_D OR FL_IN_AB OR FL_RC_BIT OR FL_SET_OE)),
      (75, OpInfo ''mulhwx'' OpType_Integer 5 (FL_OUT_D OR FL_IN_AB OR FL_RC_BIT)),
      (11, OpInfo ''mulhwux'' OpType_Integer 5 (FL_OUT_D OR FL_IN_AB OR FL_RC_BIT)),
      (235, OpInfo ''mullwx'' OpType_Integer 5 (FL_OUT_D OR FL_IN_AB OR FL_RC_BIT)),
      (747, OpInfo ''mullwox'' OpType_Integer 5 (FL_OUT_D OR FL_IN_AB OR FL_RC_BIT OR FL_SET_OE)),
      (104, OpInfo ''negx'' OpType_Integer 1 (FL_OUT_D OR FL_IN_A OR FL_RC_BIT)),
      (616, OpInfo ''negox'' OpType_Integer 1 (FL_OUT_D OR FL_IN_A OR FL_RC_BIT OR FL_SET_OE)),
      (40, OpInfo ''subfx'' OpType_Integer 1 (FL_OUT_D OR FL_IN_AB OR FL_RC_BIT)),
      (552, OpInfo ''subfox'' OpType_Integer 1 (FL_OUT_D OR FL_IN_AB OR FL_RC_BIT OR FL_SET_OE)),
      (8, OpInfo ''subfcx'' OpType_Integer 1 (FL_OUT_D OR FL_IN_AB OR FL_SET_CA OR FL_RC_BIT)),
      (520, OpInfo ''subfcox'' OpType_Integer 1 (FL_OUT_D OR FL_IN_AB OR FL_SET_CA OR FL_RC_BIT OR FL_SET_OE)),
      (136, OpInfo ''subfex'' OpType_Integer 1 (FL_OUT_D OR FL_IN_AB OR FL_READ_CA OR FL_SET_CA OR FL_RC_BIT)),
      (648, OpInfo ''subfeox'' OpType_Integer 1 (FL_OUT_D OR FL_IN_AB OR FL_READ_CA OR FL_SET_CA OR FL_RC_BIT OR FL_SET_OE)),
      (232, OpInfo ''subfmex'' OpType_Integer 1 (FL_OUT_D OR FL_IN_A OR FL_READ_CA OR FL_SET_CA OR FL_RC_BIT)),
      (744, OpInfo ''subfmeox'' OpType_Integer 1 (FL_OUT_D OR FL_IN_A OR FL_READ_CA OR FL_SET_CA OR FL_RC_BIT OR FL_SET_OE)),
      (200, OpInfo ''subfzex'' OpType_Integer 1 (FL_OUT_D OR FL_IN_A OR FL_READ_CA OR FL_SET_CA OR FL_RC_BIT)),
      (712, OpInfo ''subfzeox'' OpType_Integer 1 (FL_OUT_D OR FL_IN_A OR FL_READ_CA OR FL_SET_CA OR FL_RC_BIT OR FL_SET_OE)),
      (28, OpInfo ''andx'' OpType_Integer 1 (FL_OUT_A OR FL_IN_SB OR FL_RC_BIT)),
      (60, OpInfo ''andcx'' OpType_Integer 1 (FL_OUT_A OR FL_IN_SB OR FL_RC_BIT)),
      (444, OpInfo ''orx'' OpType_Integer 1 (FL_OUT_A OR FL_IN_SB OR FL_RC_BIT)),
      (124, OpInfo ''norx'' OpType_Integer 1 (FL_OUT_A OR FL_IN_SB OR FL_RC_BIT)),
      (316, OpInfo ''xorx'' OpType_Integer 1 (FL_OUT_A OR FL_IN_SB OR FL_RC_BIT)),
      (412, OpInfo ''orcx'' OpType_Integer 1 (FL_OUT_A OR FL_IN_SB OR FL_RC_BIT)),
      (476, OpInfo ''nandx'' OpType_Integer 1 (FL_OUT_A OR FL_IN_SB OR FL_RC_BIT)),
      (284, OpInfo ''eqvx'' OpType_Integer 1 (FL_OUT_A OR FL_IN_SB OR FL_RC_BIT)),
      (0, OpInfo ''cmp'' OpType_Integer 1 (FL_IN_AB OR FL_SET_CRn)),
      (32, OpInfo ''cmpl'' OpType_Integer 1 (FL_IN_AB OR FL_SET_CRn)),
      (26, OpInfo ''cntlzwx'' OpType_Integer 1 (FL_OUT_A OR FL_IN_S OR FL_RC_BIT)),
      (922, OpInfo ''extshx'' OpType_Integer 1 (FL_OUT_A OR FL_IN_S OR FL_RC_BIT)),
      (954, OpInfo ''extsbx'' OpType_Integer 1 (FL_OUT_A OR FL_IN_S OR FL_RC_BIT)),
      (536, OpInfo ''srwx'' OpType_Integer 1 (FL_OUT_A OR FL_IN_SB OR FL_RC_BIT)),
      (792, OpInfo ''srawx'' OpType_Integer 1 (FL_OUT_A OR FL_IN_SB OR FL_SET_CA OR FL_RC_BIT)),
      (824, OpInfo ''srawix'' OpType_Integer 1 (FL_OUT_A OR FL_IN_S OR FL_SET_CA OR FL_RC_BIT)),
      (24, OpInfo ''slwx'' OpType_Integer 1 (FL_OUT_A OR FL_IN_SB OR FL_RC_BIT)),
      (54, OpInfo ''dcbst'' OpType_DataCache 5 (FL_IN_A0B OR FL_LOADSTORE)),
      (86, OpInfo ''dcbf'' OpType_DataCache 5 (FL_IN_A0B OR FL_LOADSTORE)),
      (246, OpInfo ''dcbtst'' OpType_DataCache 2 0),
      (278, OpInfo ''dcbt'' OpType_DataCache 2 0),
      (470, OpInfo ''dcbi'' OpType_DataCache 5 (FL_IN_A0B OR FL_LOADSTORE OR FL_PROGRAMEXCEPTION)),
      (758, OpInfo ''dcba'' OpType_DataCache 5 0),
      (1014, OpInfo ''dcbz'' OpType_DataCache 5 (FL_IN_A0B OR FL_LOADSTORE)),
      (23, OpInfo ''lwzx'' OpType_Load 1 (FL_OUT_D OR FL_IN_A0B OR FL_LOADSTORE)),
      (55, OpInfo ''lwzux'' OpType_Load 1 (FL_OUT_D OR FL_OUT_A OR FL_IN_AB OR FL_LOADSTORE)),
      (279, OpInfo ''lhzx'' OpType_Load 1 (FL_OUT_D OR FL_IN_A0B OR FL_LOADSTORE)),
      (311, OpInfo ''lhzux'' OpType_Load 1 (FL_OUT_D OR FL_OUT_A OR FL_IN_AB OR FL_LOADSTORE)),
      (343, OpInfo ''lhax'' OpType_Load 1 (FL_OUT_D OR FL_IN_A0B OR FL_LOADSTORE)),
      (375, OpInfo ''lhaux'' OpType_Load 1 (FL_OUT_D OR FL_OUT_A OR FL_IN_AB OR FL_LOADSTORE)),
      (87, OpInfo ''lbzx'' OpType_Load 1 (FL_OUT_D OR FL_IN_A0B OR FL_LOADSTORE)),
      (119, OpInfo ''lbzux'' OpType_Load 1 (FL_OUT_D OR FL_OUT_A OR FL_IN_AB OR FL_LOADSTORE)),
      (534, OpInfo ''lwbrx'' OpType_Load 1 (FL_OUT_D OR FL_IN_A0B OR FL_LOADSTORE)),
      (790, OpInfo ''lhbrx'' OpType_Load 1 (FL_OUT_D OR FL_IN_A0B OR FL_LOADSTORE)),
      (150, OpInfo ''stwcxd'' OpType_Store 1 (FL_IN_S OR FL_IN_A0B OR FL_SET_CR0 OR FL_LOADSTORE)),
      (20, OpInfo ''lwarx'' OpType_Load 1 (FL_OUT_D OR FL_IN_A0B OR FL_SET_CR0 OR FL_LOADSTORE)),
      (533, OpInfo ''lswx'' OpType_Load 1 (FL_IN_A0B OR FL_OUT_D OR FL_LOADSTORE)),
      (597, OpInfo ''lswi'' OpType_Load 1 (FL_IN_A0 OR FL_OUT_D OR FL_LOADSTORE)),
      (151, OpInfo ''stwx'' OpType_Store 1 (FL_IN_S OR FL_IN_A0B OR FL_LOADSTORE)),
      (183, OpInfo ''stwux'' OpType_Store 1 (FL_IN_S OR FL_OUT_A OR FL_IN_AB OR FL_LOADSTORE)),
      (407, OpInfo ''sthx'' OpType_Store 1 (FL_IN_S OR FL_IN_A0B OR FL_LOADSTORE)),
      (439, OpInfo ''sthux'' OpType_Store 1 (FL_IN_S OR FL_OUT_A OR FL_IN_AB OR FL_LOADSTORE)),
      (215, OpInfo ''stbx'' OpType_Store 1 (FL_IN_S OR FL_IN_A0B OR FL_LOADSTORE)),
      (247, OpInfo ''stbux'' OpType_Store 1 (FL_IN_S OR FL_OUT_A OR FL_IN_AB OR FL_LOADSTORE)),
      (662, OpInfo ''stwbrx'' OpType_Store 1 (FL_IN_S OR FL_IN_A0B OR FL_LOADSTORE)),
      (918, OpInfo ''sthbrx'' OpType_Store 1 (FL_IN_S OR FL_IN_A0B OR FL_LOADSTORE)),
      (661, OpInfo ''stswx'' OpType_Store 1 (FL_IN_A0B OR FL_LOADSTORE)),
      (725, OpInfo ''stswi'' OpType_Store 1 (FL_IN_A0 OR FL_LOADSTORE)),
      (535, OpInfo ''lfsx'' OpType_LoadFP 1 (FL_OUT_FLOAT_D OR FL_IN_A0B OR FL_USE_FPU OR FL_LOADSTORE)),
      (567, OpInfo ''lfsux'' OpType_LoadFP 1 (FL_OUT_FLOAT_D OR FL_IN_AB OR FL_OUT_A OR FL_USE_FPU OR FL_LOADSTORE)),
      (599, OpInfo ''lfdx'' OpType_LoadFP 1 (FL_INOUT_FLOAT_D OR FL_IN_A0B OR FL_USE_FPU OR FL_LOADSTORE)),
      (631, OpInfo ''lfdux'' OpType_LoadFP 1 (FL_INOUT_FLOAT_D OR FL_IN_AB OR FL_OUT_A OR FL_USE_FPU OR FL_LOADSTORE)),
      (663, OpInfo ''stfsx'' OpType_StoreFP 1 (FL_IN_FLOAT_S OR FL_IN_A0B OR FL_USE_FPU OR FL_LOADSTORE)),
      (695, OpInfo ''stfsux'' OpType_StoreFP 1 (FL_IN_FLOAT_S OR FL_IN_AB OR FL_OUT_A OR FL_USE_FPU OR FL_LOADSTORE)),
      (727, OpInfo ''stfdx'' OpType_StoreFP 1 (FL_IN_FLOAT_S OR FL_IN_A0B OR FL_USE_FPU OR FL_LOADSTORE)),
      (759, OpInfo ''stfdux'' OpType_StoreFP 1 (FL_IN_FLOAT_S OR FL_IN_AB OR FL_OUT_A OR FL_USE_FPU OR FL_LOADSTORE)),
      (983, OpInfo ''stfiwx'' OpType_StoreFP 1 (FL_IN_FLOAT_S OR FL_IN_A0B OR FL_USE_FPU OR FL_LOADSTORE)),
      (19, OpInfo ''mfcr'' OpType_System 1 (FL_OUT_D OR FL_READ_ALL_CR)),
      (83, OpInfo ''mfmsr'' OpType_System 1 (FL_OUT_D OR FL_PROGRAMEXCEPTION)),
      (144, OpInfo ''mtcrf'' OpType_System 1 (FL_IN_S OR FL_SET_ALL_CR OR FL_READ_ALL_CR)),
      (146, OpInfo ''mtmsr'' OpType_System 1 (FL_IN_S OR FL_ENDBLOCK OR FL_PROGRAMEXCEPTION OR FL_FLOAT_EXCEPTION OR FL_SET_MSR)),
      (210, OpInfo ''mtsr'' OpType_System 1 (FL_IN_S OR FL_PROGRAMEXCEPTION)),
      (242, OpInfo ''mtsrin'' OpType_System 1 (FL_IN_SB OR FL_PROGRAMEXCEPTION)),
      (339, OpInfo ''mfspr'' OpType_SPR 1 (FL_OUT_D OR FL_PROGRAMEXCEPTION)),
      (467, OpInfo ''mtspr'' OpType_SPR 2 (FL_IN_S OR FL_ENDBLOCK OR FL_PROGRAMEXCEPTION)),
      (371, OpInfo ''mftb'' OpType_System 1 (FL_OUT_D OR FL_TIMER OR FL_PROGRAMEXCEPTION)),
      (512, OpInfo ''mcrxr'' OpType_System 1 (FL_SET_CRn OR FL_READ_CA OR FL_SET_CA)),
      (595, OpInfo ''mfsr'' OpType_System 3 (FL_OUT_D OR FL_PROGRAMEXCEPTION)),
      (659, OpInfo ''mfsrin'' OpType_System 3 (FL_OUT_D OR FL_IN_B OR FL_PROGRAMEXCEPTION)),
      (4, OpInfo ''tw'' OpType_System 2 (FL_IN_AB OR FL_ENDBLOCK)),
      (598, OpInfo ''sync'' OpType_System 3 0),
      (982, OpInfo ''icbi'' OpType_System 4 (FL_IN_A0B OR FL_ENDBLOCK OR FL_LOADSTORE)),
      (310, OpInfo ''eciwx'' OpType_System 1 (FL_IN_A0B OR FL_OUT_D OR FL_LOADSTORE)),
      (438, OpInfo ''ecowx'' OpType_System 1 (FL_IN_A0B OR FL_IN_S OR FL_LOADSTORE)),
      (854, OpInfo ''eieio'' OpType_System 1 0),
      (306, OpInfo ''tlbie'' OpType_System 1 (FL_IN_B OR FL_PROGRAMEXCEPTION)),
      (566, OpInfo ''tlbsync'' OpType_System 1 FL_PROGRAMEXCEPTION)]"

definition Info_table59 :: "GekkoOPTemplate list" where
  "Info_table59 =
     [(18, OpInfo ''fdivsx'' OpType_SingleFP 17 (FL_OUT_FLOAT_D OR FL_IN_FLOAT_AB OR FL_RC_BIT_F OR FL_USE_FPU OR FL_SET_FPRF OR FL_FLOAT_EXCEPTION OR FL_FLOAT_DIV)),
      (20, OpInfo ''fsubsx'' OpType_SingleFP 1 (FL_OUT_FLOAT_D OR FL_IN_FLOAT_AB OR FL_RC_BIT_F OR FL_USE_FPU OR FL_SET_FPRF OR FL_FLOAT_EXCEPTION)),
      (21, OpInfo ''faddsx'' OpType_SingleFP 1 (FL_OUT_FLOAT_D OR FL_IN_FLOAT_AB OR FL_RC_BIT_F OR FL_USE_FPU OR FL_SET_FPRF OR FL_FLOAT_EXCEPTION)),
      (24, OpInfo ''fresx'' OpType_SingleFP 1 (FL_OUT_FLOAT_D OR FL_IN_FLOAT_B OR FL_RC_BIT_F OR FL_USE_FPU OR FL_SET_FPRF OR FL_FLOAT_EXCEPTION OR FL_FLOAT_DIV)),
      (25, OpInfo ''fmulsx'' OpType_SingleFP 1 (FL_OUT_FLOAT_D OR FL_IN_FLOAT_AC OR FL_RC_BIT_F OR FL_USE_FPU OR FL_SET_FPRF OR FL_FLOAT_EXCEPTION)),
      (28, OpInfo ''fmsubsx'' OpType_SingleFP 1 (FL_OUT_FLOAT_D OR FL_IN_FLOAT_ABC OR FL_RC_BIT_F OR FL_USE_FPU OR FL_SET_FPRF OR FL_FLOAT_EXCEPTION)),
      (29, OpInfo ''fmaddsx'' OpType_SingleFP 1 (FL_OUT_FLOAT_D OR FL_IN_FLOAT_ABC OR FL_RC_BIT_F OR FL_USE_FPU OR FL_SET_FPRF OR FL_FLOAT_EXCEPTION)),
      (30, OpInfo ''fnmsubsx'' OpType_SingleFP 1 (FL_OUT_FLOAT_D OR FL_IN_FLOAT_ABC OR FL_RC_BIT_F OR FL_USE_FPU OR FL_SET_FPRF OR FL_FLOAT_EXCEPTION)),
      (31, OpInfo ''fnmaddsx'' OpType_SingleFP 1 (FL_OUT_FLOAT_D OR FL_IN_FLOAT_ABC OR FL_RC_BIT_F OR FL_USE_FPU OR FL_SET_FPRF OR FL_FLOAT_EXCEPTION))]"

definition Info_table63 :: "GekkoOPTemplate list" where
  "Info_table63 =
     [(264, OpInfo ''fabsx'' OpType_DoubleFP 1 (FL_INOUT_FLOAT_D OR FL_IN_FLOAT_B OR FL_IN_FLOAT_B_BITEXACT OR FL_RC_BIT_F OR FL_USE_FPU)),
      (32, OpInfo ''fcmpo'' OpType_DoubleFP 1 (FL_IN_FLOAT_AB OR FL_SET_CRn OR FL_USE_FPU OR FL_READ_FPRF OR FL_SET_FPRF OR FL_FLOAT_EXCEPTION)),
      (0, OpInfo ''fcmpu'' OpType_DoubleFP 1 (FL_IN_FLOAT_AB OR FL_SET_CRn OR FL_USE_FPU OR FL_READ_FPRF OR FL_SET_FPRF OR FL_FLOAT_EXCEPTION)),
      (14, OpInfo ''fctiwx'' OpType_DoubleFP 1 (FL_INOUT_FLOAT_D OR FL_IN_FLOAT_B OR FL_RC_BIT_F OR FL_USE_FPU OR FL_FLOAT_EXCEPTION)),
      (15, OpInfo ''fctiwzx'' OpType_DoubleFP 1 (FL_INOUT_FLOAT_D OR FL_IN_FLOAT_B OR FL_RC_BIT_F OR FL_USE_FPU OR FL_FLOAT_EXCEPTION)),
      (72, OpInfo ''fmrx'' OpType_DoubleFP 1 (FL_INOUT_FLOAT_D OR FL_IN_FLOAT_B OR FL_IN_FLOAT_B_BITEXACT OR FL_RC_BIT_F OR FL_USE_FPU)),
      (136, OpInfo ''fnabsx'' OpType_DoubleFP 1 (FL_INOUT_FLOAT_D OR FL_IN_FLOAT_B OR FL_RC_BIT_F OR FL_IN_FLOAT_B_BITEXACT OR FL_USE_FPU)),
      (40, OpInfo ''fnegx'' OpType_DoubleFP 1 (FL_INOUT_FLOAT_D OR FL_IN_FLOAT_B OR FL_RC_BIT_F OR FL_IN_FLOAT_B_BITEXACT OR FL_USE_FPU)),
      (12, OpInfo ''frspx'' OpType_DoubleFP 1 (FL_OUT_FLOAT_D OR FL_IN_FLOAT_B OR FL_RC_BIT_F OR FL_USE_FPU OR FL_SET_FPRF OR FL_FLOAT_EXCEPTION)),
      (64, OpInfo ''mcrfs'' OpType_SystemFP 1 (FL_SET_CRn OR FL_USE_FPU OR FL_READ_FPRF)),
      (583, OpInfo ''mffsx'' OpType_SystemFP 1 (FL_RC_BIT_F OR FL_INOUT_FLOAT_D OR FL_USE_FPU OR FL_READ_FPRF)),
      (70, OpInfo ''mtfsb0x'' OpType_SystemFP 3 (FL_RC_BIT_F OR FL_USE_FPU OR FL_READ_FPRF OR FL_SET_FPRF)),
      (38, OpInfo ''mtfsb1x'' OpType_SystemFP 3 (FL_RC_BIT_F OR FL_USE_FPU OR FL_READ_FPRF OR FL_SET_FPRF OR FL_FLOAT_EXCEPTION)),
      (134, OpInfo ''mtfsfix'' OpType_SystemFP 3 (FL_RC_BIT_F OR FL_USE_FPU OR FL_READ_FPRF OR FL_SET_FPRF OR FL_FLOAT_EXCEPTION)),
      (711, OpInfo ''mtfsfx'' OpType_SystemFP 3 (FL_RC_BIT_F OR FL_IN_FLOAT_B OR FL_USE_FPU OR FL_READ_FPRF OR FL_SET_FPRF OR FL_FLOAT_EXCEPTION))]"

definition Info_table63_2 :: "GekkoOPTemplate list" where
  "Info_table63_2 =
     [(18, OpInfo ''fdivx'' OpType_DoubleFP 31 (FL_INOUT_FLOAT_D OR FL_IN_FLOAT_AB OR FL_RC_BIT_F OR FL_USE_FPU OR FL_SET_FPRF OR FL_FLOAT_EXCEPTION OR FL_FLOAT_DIV)),
      (20, OpInfo ''fsubx'' OpType_DoubleFP 1 (FL_INOUT_FLOAT_D OR FL_IN_FLOAT_AB OR FL_RC_BIT_F OR FL_USE_FPU OR FL_SET_FPRF OR FL_FLOAT_EXCEPTION)),
      (21, OpInfo ''faddx'' OpType_DoubleFP 1 (FL_INOUT_FLOAT_D OR FL_IN_FLOAT_AB OR FL_RC_BIT_F OR FL_USE_FPU OR FL_SET_FPRF OR FL_FLOAT_EXCEPTION)),
      (23, OpInfo ''fselx'' OpType_DoubleFP 1 (FL_INOUT_FLOAT_D OR FL_IN_FLOAT_ABC OR FL_IN_FLOAT_BC_BITEXACT OR FL_RC_BIT_F OR FL_USE_FPU)),
      (25, OpInfo ''fmulx'' OpType_DoubleFP 1 (FL_INOUT_FLOAT_D OR FL_IN_FLOAT_AC OR FL_RC_BIT_F OR FL_USE_FPU OR FL_SET_FPRF OR FL_FLOAT_EXCEPTION)),
      (26, OpInfo ''frsqrtex'' OpType_DoubleFP 1 (FL_INOUT_FLOAT_D OR FL_IN_FLOAT_B OR FL_RC_BIT_F OR FL_USE_FPU OR FL_SET_FPRF OR FL_FLOAT_EXCEPTION OR FL_FLOAT_DIV)),
      (28, OpInfo ''fmsubx'' OpType_DoubleFP 1 (FL_INOUT_FLOAT_D OR FL_IN_FLOAT_ABC OR FL_RC_BIT_F OR FL_USE_FPU OR FL_SET_FPRF OR FL_FLOAT_EXCEPTION)),
      (29, OpInfo ''fmaddx'' OpType_DoubleFP 1 (FL_INOUT_FLOAT_D OR FL_IN_FLOAT_ABC OR FL_RC_BIT_F OR FL_USE_FPU OR FL_SET_FPRF OR FL_FLOAT_EXCEPTION)),
      (30, OpInfo ''fnmsubx'' OpType_DoubleFP 1 (FL_INOUT_FLOAT_D OR FL_IN_FLOAT_ABC OR FL_RC_BIT_F OR FL_USE_FPU OR FL_SET_FPRF OR FL_FLOAT_EXCEPTION)),
      (31, OpInfo ''fnmaddx'' OpType_DoubleFP 1 (FL_INOUT_FLOAT_D OR FL_IN_FLOAT_ABC OR FL_RC_BIT_F OR FL_USE_FPU OR FL_SET_FPRF OR FL_FLOAT_EXCEPTION))]"

section \<open>The interpreter's functions\<close>

text \<open>An entry of a table is a function of the interpreter, given by its name.\<close>

type_synonym Instruction = string

definition Fn_primary_table :: "(nat \<times> Instruction) list" where
  "Fn_primary_table =
     [(4, ''RunTable4''), (19, ''RunTable19''), (31, ''RunTable31''),
      (59, ''RunTable59''), (63, ''RunTable63''), (16, ''bcx''), (18, ''bx''),
      (3, ''twi''), (17, ''sc''), (7, ''mulli''), (8, ''subfic''), (10, ''cmpli''),
      (11, ''cmpi''), (12, ''addic''), (13, ''addic_rc''), (14, ''addi''),
      (15, ''addis''), (20, ''rlwimix''), (21, ''rlwinmx''), (23, ''rlwnmx''),
      (24, ''ori''), (25, ''oris''), (26, ''xori''), (27, ''xoris''), (28, ''andi_rc''),
      (29, ''andis_rc''), (32, ''lwz''), (33, ''lwzu''), (34, ''lbz''), (35, ''lbzu''),
      (40, ''lhz''), (41, ''lhzu''), (42, ''lha''), (43, ''lhau''), (44, ''sth''),
      (45, ''sthu''), (36, ''stw''), (37, ''stwu''), (38, ''stb''), (39, ''stbu''),
      (46, ''lmw''), (47, ''stmw''), (48, ''lfs''), (49, ''lfsu''), (50, ''lfd''),
      (51, ''lfdu''), (52, ''stfs''), (53, ''stfsu''), (54, ''stfd''), (55, ''stfdu''),
      (56, ''psq_l''), (57, ''psq_lu''), (60, ''psq_st''), (61, ''psq_stu'')]"

definition Fn_table4 :: "(nat \<times> Instruction) list" where
  "Fn_table4 =
     [(0, ''ps_cmpu0''), (32, ''ps_cmpo0''), (40, ''ps_neg''), (136, ''ps_nabs''),
      (264, ''ps_abs''), (64, ''ps_cmpu1''), (72, ''ps_mr''), (96, ''ps_cmpo1''),
      (528, ''ps_merge00''), (560, ''ps_merge01''), (592, ''ps_merge10''),
      (624, ''ps_merge11''), (1014, ''dcbz_l'')]"

definition Fn_table4_2 :: "(nat \<times> Instruction) list" where
  "Fn_table4_2 =
     [(10, ''ps_sum0''), (11, ''ps_sum1''), (12, ''ps_muls0''), (13, ''ps_muls1''),
      (14, ''ps_madds0''), (15, ''ps_madds1''), (18, ''ps_div''), (20, ''ps_sub''),
      (21, ''ps_add''), (23, ''ps_sel''), (24, ''ps_res''), (25, ''ps_mul''),
      (26, ''ps_rsqrte''), (28, ''ps_msub''), (29, ''ps_madd''), (30, ''ps_nmsub''),
      (31, ''ps_nmadd'')]"

definition Fn_table4_3 :: "(nat \<times> Instruction) list" where
  "Fn_table4_3 =
     [(6, ''psq_lx''), (7, ''psq_stx''), (38, ''psq_lux''), (39, ''psq_stux'')]"

definition Fn_table19 :: "(nat \<times> Instruction) list" where
  "Fn_table19 =
     [(528, ''bcctrx''), (16, ''bclrx''), (257, ''crand''), (129, ''crandc''),
      (289, ''creqv''), (225, ''crnand''), (33, ''crnor''), (449, ''cror''),
      (417, ''crorc''), (193, ''crxor''), (150, ''isync''), (0, ''mcrf''), (50, ''rfi'')]"

definition Fn_table31 :: "(nat \<times> Instruction) list" where
  "Fn_table31 =
     [(266, ''addx''), (778, ''addx''), (10, ''addcx''), (522, ''addcx''),
      (138, ''addex''), (650, ''addex''), (234, ''addmex''), (746, ''addmex''),
      (202, ''addzex''), (714, ''addzex''), (491, ''divwx''), (1003, ''divwx''),
      (459, ''divwux''), (971, ''divwux''), (75, ''mulhwx''), (11, ''mulhwux''),
      (235, ''mullwx''), (747, ''mullwx''), (104, ''negx''), (616, ''negx''),
      (40, ''subfx''), (552, ''subfx''), (8, ''subfcx''), (520, ''subfcx''),
      (136, ''subfex''), (648, ''subfex''), (232, ''subfmex''), (744, ''subfmex''),
      (200, ''subfzex''), (712, ''subfzex''), (28, ''andx''), (60, ''andcx''),
      (444, ''orx''), (124, ''norx''), (316, ''xorx''), (412, ''orcx''),
      (476, ''nandx''), (284, ''eqvx''), (0, ''cmp''), (32, ''cmpl''),
      (26, ''cntlzwx''), (922, ''extshx''), (954, ''extsbx''), (536, ''srwx''),
      (792, ''srawx''), (824, ''srawix''), (24, ''slwx''), (54, ''dcbst''),
      (86, ''dcbf''), (246, ''dcbtst''), (278, ''dcbt''), (470, ''dcbi''),
      (758, ''dcba''), (1014, ''dcbz''), (23, ''lwzx''), (55, ''lwzux''),
      (279, ''lhzx''), (311, ''lhzux''), (343, ''lhax''), (375, ''lhaux''),
      (87, ''lbzx''), (119, ''lbzux''), (534, ''lwbrx''), (790, ''lhbrx''),
      (150, ''stwcxd''), (20, ''lwarx''), (533, ''lswx''), (597, ''lswi''),
      (151, ''stwx''), (183, ''stwux''), (407, ''sthx''), (439, ''sthux''),
      (215, ''stbx''), (247, ''stbux''), (662, ''stwbrx''), (918, ''sthbrx''),
      (661, ''stswx''), (725, ''stswi''), (535, ''lfsx''), (567, ''lfsux''),
      (599, ''lfdx''), (631, ''lfdux''), (663, ''stfsx''), (695, ''stfsux''),
      (727, ''stfdx''), (759, ''stfdux''), (983, ''stfiwx''), (19, ''mfcr''),
      (83, ''mfmsr''), (144, ''mtcrf''), (146, ''mtmsr''), (210, ''mtsr''),
      (242, ''mtsrin''), (339, ''mfspr''), (467, ''mtspr''), (371, ''mftb''),
      (512, ''mcrxr''), (595, ''mfsr''), (659, ''mfsrin''), (4, ''tw''),
      (598, ''sync''), (982, ''icbi''), (310, ''eciwx''), (438, ''ecowx''),
      (854, ''eieio''), (306, ''tlbie''), (566, ''tlbsync'')]"

definition Fn_table59 :: "(nat \<times> Instruction) list" where
  "Fn_table59 =
     [(18, ''fdivsx''), (20, ''fsubsx''), (21, ''faddsx''), (24, ''fresx''),
      (25, ''fmulsx''), (28, ''fmsubsx''), (29, ''fmaddsx''), (30, ''fnmsubsx''),
      (31, ''fnmaddsx'')]"

definition Fn_table63 :: "(nat \<times> Instruction) list" where
  "Fn_table63 =
     [(264, ''fabsx''), (32, ''fcmpo''), (0, ''fcmpu''), (14, ''fctiwx''),
      (15, ''fctiwzx''), (72, ''fmrx''), (136, ''fnabsx''), (40, ''fnegx''),
      (12, ''frspx''), (64, ''mcrfs''), (583, ''mffsx''), (70, ''mtfsb0x''),
      (38, ''mtfsb1x''), (134, ''mtfsfix''), (711, ''mtfsfx'')]"

definition Fn_table63_2 :: "(nat \<times> Instruction) list" where
  "Fn_table63_2 =
     [(18, ''fdivx''), (20, ''fsubx''), (21, ''faddx''), (23, ''fselx''),
      (25, ''fmulx''), (26, ''frsqrtex''), (28, ''fmsubx''), (29, ''fmaddx''),
      (30, ''fnmsubx''), (31, ''fnmaddx'')]"

section \<open>Building the tables\<close>

text \<open>
  Placing entries into an array filled with one value: \<open>None\<close> is the failed assertion, which
  stops the compilation.
\<close>

fun place :: "'a \<Rightarrow> (nat \<times> 'a) list \<Rightarrow> (nat \<Rightarrow> 'a) \<Rightarrow> (nat \<Rightarrow> 'a) option" where
  "place unknown [] table = Some table"
| "place unknown ((op, x) # tpls) table =
     (if table op = unknown then place unknown tpls (table(op := x)) else None)"

text \<open>The two ways in which a shorter opcode is repeated over the index bits above it.\<close>

definition fill5 :: "(nat \<times> 'a) list \<Rightarrow> (nat \<times> 'a) list" where
  "fill5 tpls = concat (map (\<lambda>i. map (\<lambda>(op, x). (i * 32 + op, x)) tpls) [0..<32])"

definition fill6 :: "(nat \<times> 'a) list \<Rightarrow> (nat \<times> 'a) list" where
  "fill6 tpls = concat (map (\<lambda>i. map (\<lambda>(op, x). (i * 64 + op, x)) tpls) [0..<16])"

definition build_fn :: "(nat \<times> Instruction) list \<Rightarrow> (nat \<Rightarrow> Instruction) option" where
  "build_fn tpls = place ''unknown_instruction'' tpls (\<lambda>_. ''unknown_instruction'')"

definition s_interpreter_op_table :: "(nat \<Rightarrow> Instruction) option" where
  "s_interpreter_op_table = build_fn Fn_primary_table"

definition s_interpreter_op_table4 :: "(nat \<Rightarrow> Instruction) option" where
  "s_interpreter_op_table4 = build_fn (fill5 Fn_table4_2 @ fill6 Fn_table4_3 @ Fn_table4)"

definition s_interpreter_op_table19 :: "(nat \<Rightarrow> Instruction) option" where
  "s_interpreter_op_table19 = build_fn Fn_table19"

definition s_interpreter_op_table31 :: "(nat \<Rightarrow> Instruction) option" where
  "s_interpreter_op_table31 = build_fn Fn_table31"

definition s_interpreter_op_table59 :: "(nat \<Rightarrow> Instruction) option" where
  "s_interpreter_op_table59 = build_fn Fn_table59"

definition s_interpreter_op_table63 :: "(nat \<Rightarrow> Instruction) option" where
  "s_interpreter_op_table63 = build_fn (Fn_table63 @ fill5 Fn_table63_2)"

definition GetInterpreterOp :: "u32 \<Rightarrow> Instruction" where
  "GetInterpreterOp inst =
     (let result = the s_interpreter_op_table (unat (OPCD inst))
      in if result = ''RunTable4'' then the s_interpreter_op_table4 (unat (SUBOP10 inst))
         else if result = ''RunTable19'' then the s_interpreter_op_table19 (unat (SUBOP10 inst))
         else if result = ''RunTable31'' then the s_interpreter_op_table31 (unat (SUBOP10 inst))
         else if result = ''RunTable59'' then the s_interpreter_op_table59 (unat (SUBOP5 inst))
         else if result = ''RunTable63'' then the s_interpreter_op_table63 (unat (SUBOP10 inst))
         else result)"

text \<open>
  The descriptions are numbered in the order in which the tables are read, and the tables hold
  the numbers: \<open>numbered c tpls\<close> gives the entries of \<open>tpls\<close> the numbers from \<open>c\<close> on.
\<close>

definition numbered :: "nat \<Rightarrow> GekkoOPTemplate list \<Rightarrow> (nat \<times> nat) list" where
  "numbered c tpls = zip (map fst tpls) [c..<c + length tpls]"

definition all_instructions :: "GekkoOPInfo list" where
  "all_instructions =
     s_unknown_op_info # map snd (Info_primary_table @ Info_table4_2 @ Info_table4_3 @ Info_table4 @
       Info_table19 @ Info_table31 @ Info_table59 @ Info_table63 @ Info_table63_2)"

definition TOTAL_INSTRUCTION_COUNT :: nat where
  "TOTAL_INSTRUCTION_COUNT =
     1 + length Info_primary_table + length Info_table4_2 + length Info_table4_3 +
     length Info_table4 + length Info_table31 + length Info_table19 + length Info_table59 +
     length Info_table63 + length Info_table63_2"

definition build_info :: "(nat \<times> nat) list \<Rightarrow> (nat \<Rightarrow> nat) option" where
  "build_info tpls = place 0 tpls (\<lambda>_. 0)"

definition tables_primary_table :: "(nat \<Rightarrow> nat) option" where
  "tables_primary_table = build_info (numbered 1 Info_primary_table)"

definition tables_table4 :: "(nat \<Rightarrow> nat) option" where
  "tables_table4 =
     (let c = 1 + length Info_primary_table;
          c' = c + length Info_table4_2
      in build_info
           (concat (map (\<lambda>(op, info). map (\<lambda>i. (i * 32 + op, info)) [0..<32]) (numbered c Info_table4_2)) @
            concat (map (\<lambda>(op, info). map (\<lambda>i. (i * 64 + op, info)) [0..<16]) (numbered c' Info_table4_3)) @
            numbered (c' + length Info_table4_3) Info_table4))"

definition tables_table19 :: "(nat \<Rightarrow> nat) option" where
  "tables_table19 =
     build_info (numbered (1 + length (Info_primary_table @ Info_table4_2 @ Info_table4_3 @ Info_table4))
       Info_table19)"

definition tables_table31 :: "(nat \<Rightarrow> nat) option" where
  "tables_table31 =
     build_info (numbered (1 + length (Info_primary_table @ Info_table4_2 @ Info_table4_3 @ Info_table4 @
       Info_table19)) Info_table31)"

definition tables_table59 :: "(nat \<Rightarrow> nat) option" where
  "tables_table59 =
     build_info (numbered (1 + length (Info_primary_table @ Info_table4_2 @ Info_table4_3 @ Info_table4 @
       Info_table19 @ Info_table31)) Info_table59)"

definition tables_table63 :: "(nat \<Rightarrow> nat) option" where
  "tables_table63 =
     (let c = 1 + length (Info_primary_table @ Info_table4_2 @ Info_table4_3 @ Info_table4 @
            Info_table19 @ Info_table31 @ Info_table59)
      in build_info
           (numbered c Info_table63 @
            concat (map (\<lambda>(op, info). map (\<lambda>i. (i * 32 + op, info)) [0..<32])
              (numbered (c + length Info_table63) Info_table63_2))))"

definition GetOpInfo :: "u32 \<Rightarrow> GekkoOPInfo" where
  "GetOpInfo inst =
     (let info = all_instructions ! the tables_primary_table (unat (OPCD inst))
      in if op_type info = OpType_Subtable then
           (if OPCD inst = 4 then all_instructions ! the tables_table4 (unat (SUBOP10 inst))
            else if OPCD inst = 19 then all_instructions ! the tables_table19 (unat (SUBOP10 inst))
            else if OPCD inst = 31 then all_instructions ! the tables_table31 (unat (SUBOP10 inst))
            else if OPCD inst = 59 then all_instructions ! the tables_table59 (unat (SUBOP5 inst))
            else if OPCD inst = 63 then all_instructions ! the tables_table63 (unat (SUBOP10 inst))
            else all_instructions ! 0)
         else if op_type info = OpType_Invalid then all_instructions ! 0
         else info)"

definition IsValidInstruction :: "u32 \<Rightarrow> bool" where
  "IsValidInstruction inst \<longleftrightarrow>
     op_type (GetOpInfo inst) \<noteq> OpType_Invalid \<and> op_type (GetOpInfo inst) \<noteq> OpType_Unknown"

section \<open>What a table holds\<close>

definition lookup :: "'a \<Rightarrow> (nat \<times> 'a) list \<Rightarrow> nat \<Rightarrow> 'a" where
  "lookup unknown tpls op = (case map_of tpls op of Some x \<Rightarrow> x | None \<Rightarrow> unknown)"

lemma place_lookup:
  assumes "distinct (map fst tpls)"
  shows "(\<forall>e \<in> set tpls. table (fst e) = unknown) \<Longrightarrow>
    place unknown tpls table =
      Some (\<lambda>op. case map_of tpls op of Some x \<Rightarrow> x | None \<Rightarrow> table op)"
  using assms
proof (induction tpls arbitrary: table)
  case (Cons e tpls)
  obtain op x where e: "e = (op, x)" by (cases e)
  have "place unknown tpls (table(op := x)) =
      Some (\<lambda>q. case map_of tpls q of Some x \<Rightarrow> x | None \<Rightarrow> (table(op := x)) q)"
    using Cons.prems e by (intro Cons.IH) (auto simp: image_iff)
  moreover have "map_of tpls op = None"
    using Cons.prems e by (auto simp: map_of_eq_None_iff)
  ultimately show ?case
    using Cons.prems e by (auto simp: fun_eq_iff split: option.splits)
qed simp

lemma place_fresh:
  "distinct (map fst tpls) \<Longrightarrow> place unknown tpls (\<lambda>_. unknown) = Some (lookup unknown tpls)"
  by (simp add: place_lookup lookup_def fun_eq_iff)

lemma map_of_shift:
  "map_of (map (\<lambda>(op, x). (c + op, x)) tpls) (q :: nat) = (if c \<le> q then map_of tpls (q - c) else None)"
  by (induction tpls) auto

text \<open>A repeated opcode is found under its low bits.\<close>

lemma map_of_repeat:
  assumes "\<And>e. e \<in> set tpls \<Longrightarrow> fst e < k" "0 < k"
  shows "map_of (concat (map (\<lambda>i. map (\<lambda>(op, x). (i * k + op, x)) tpls) [0..<n])) q =
    (if q div k < n then map_of tpls (q mod k) else None)"
proof (induction n)
  case (Suc n)
  have "map_of (map (\<lambda>(op, x). (n * k + op, x)) tpls) q =
      (if q div k = n then map_of tpls (q mod k) else None)"
  proof (cases "n * k \<le> q")
    case True
    have "map_of tpls (q - n * k) = None" if "q div k \<noteq> n"
    proof -
      have "k \<le> q - n * k"
      proof -
        have "n < q div k" using True that assms(2)
          by (metis le_neq_implies_less less_eq_div_iff_mult_less_eq)
        then have "Suc n * k \<le> q" using assms(2) by (metis Suc_leI less_eq_div_iff_mult_less_eq)
        then show ?thesis by simp
      qed
      then show ?thesis using assms(1) by (force simp: map_of_eq_None_iff)
    qed
    moreover have "q - n * k = q mod k" if "q div k = n"
      using that by (metis minus_div_mult_eq_mod)
    ultimately show ?thesis using True by (auto simp: map_of_shift)
  next
    case False
    then have "q div k \<noteq> n" by (metis div_times_less_eq_dividend)
    then show ?thesis using False by (auto simp: map_of_shift)
  qed
  then show ?case using Suc by (auto simp: map_add_def split: option.splits)
qed simp

lemma keys_repeat:
  "map fst (concat (map (\<lambda>i. map (\<lambda>(op, x). (i * k + op, x)) tpls) [0..<n])) =
   concat (map (\<lambda>i. map (\<lambda>op. i * k + op) (map fst tpls)) [0..<n])" for k :: nat
  by (simp add: map_concat comp_def case_prod_beta)

lemma keys_repeat_each:
  "map fst (concat (map (\<lambda>(op, x). map (\<lambda>i. (i * k + op, x)) [0..<n]) tpls)) =
   concat (map (\<lambda>op. map (\<lambda>i. i * k + op) [0..<n]) (map fst tpls))" for k :: nat
  by (simp add: map_concat comp_def case_prod_beta)

lemma distinct_rows:
  assumes "\<forall>op \<in> set ops. op < (k :: nat)" "distinct ops"
  shows "distinct (concat (map (\<lambda>i. map (\<lambda>op. i * k + op) ops) [0..<n]))"
proof (induction n)
  case (Suc n)
  have "q < n * k" if "q \<in> set (concat (map (\<lambda>i. map (\<lambda>op. i * k + op) ops) [0..<n]))" for q
  proof -
    have "\<exists>i<n. \<exists>op \<in> set ops. q = i * k + op" using that by (auto simp: image_iff)
    then obtain i op where q: "i < n" "op < k" "q = i * k + op" using assms(1) by blast
    then have "q < (i + 1) * k" by simp
    also have "\<dots> \<le> n * k" using q by (intro mult_le_mono1) simp
    finally show ?thesis .
  qed
  moreover have "n * k \<le> q" if "q \<in> set (map (\<lambda>op. n * k + op) ops)" for q
    using that by auto
  ultimately have "set (concat (map (\<lambda>i. map (\<lambda>op. i * k + op) ops) [0..<n])) \<inter>
      set (map (\<lambda>op. n * k + op) ops) = {}"
    by (meson disjoint_iff linorder_not_less)
  moreover have "distinct (map (\<lambda>op. n * k + op) ops)"
    using assms(2) by (simp add: distinct_map inj_on_def)
  ultimately show ?case
    using Suc by (simp only: upt_Suc_append le0 map_append concat_append distinct_append
        list.map concat.simps append_Nil2)
qed simp

lemma distinct_columns:
  assumes "\<forall>op \<in> set ops. op < (k :: nat)" "distinct ops"
  shows "distinct (concat (map (\<lambda>op. map (\<lambda>i. i * k + op) [0..<n]) ops))"
  using assms
proof (induction ops)
  case (Cons op ops)
  have "q mod k = op" if "q \<in> set (map (\<lambda>i. i * k + op) [0..<n])" for q
    using that Cons.prems(1) by auto
  moreover have "q mod k \<in> set ops" if "q \<in> set (concat (map (\<lambda>op. map (\<lambda>i. i * k + op) [0..<n]) ops))" for q
  proof -
    have "\<exists>op \<in> set ops. \<exists>i. q = i * k + op" using that by auto
    then obtain op i where "op \<in> set ops" "q = i * k + op" by blast
    then show ?thesis using Cons.prems(1) by simp
  qed
  ultimately have "set (map (\<lambda>i. i * k + op) [0..<n]) \<inter>
      set (concat (map (\<lambda>op. map (\<lambda>i. i * k + op) [0..<n]) ops)) = {}"
    using Cons.prems(2) by (metis IntE all_not_in_conv distinct.simps(2))
  moreover have "distinct (map (\<lambda>i. i * k + op) [0..<n])"
    using Cons.prems(1) by (auto simp: distinct_map inj_on_def)
  moreover have "distinct (concat (map (\<lambda>op. map (\<lambda>i. i * k + op) [0..<n]) ops))"
    using Cons.IH Cons.prems by simp
  ultimately show ?case unfolding list.map concat.simps distinct_append by blast
qed simp

lemma set_repeat:
  "set (concat (map (\<lambda>(op, x). map (\<lambda>i. (i * k + op, x)) [0..<n]) tpls)) =
   set (concat (map (\<lambda>i. map (\<lambda>(op, x). (i * k + op, x)) tpls) [0..<n]))" for k :: nat
proof -
  have each: "q \<in> set (concat (map (\<lambda>(op, x). map (\<lambda>i. (i * k + op, x)) [0..<n]) tpls)) \<longleftrightarrow>
      (\<exists>i<n. \<exists>e \<in> set tpls. q = (i * k + fst e, snd e))" for q
    by (force simp: case_prod_beta image_iff)
  have rows: "q \<in> set (concat (map (\<lambda>i. map (\<lambda>(op, x). (i * k + op, x)) tpls) [0..<n])) \<longleftrightarrow>
      (\<exists>i<n. \<exists>e \<in> set tpls. q = (i * k + fst e, snd e))" for q
    by (force simp: case_prod_beta image_iff)
  show ?thesis by (rule set_eqI) (simp only: each rows)
qed

text \<open>Two lists of entries that hold the same things give related tables.\<close>

lemma lookup_image:
  assumes "distinct (map fst as)" "distinct (map fst bs)" "(\<lambda>(op, x). (op, f x)) ` set as = set bs"
  shows "lookup (f unknown) bs q = f (lookup unknown as q)"
proof -
  let ?cs = "map (\<lambda>(op, x). (op, f x)) as"
  have "map fst ?cs = map fst as" by (induction as) auto
  then have "distinct (map fst ?cs)" using assms(1) by (simp only:)
  then have "map_of bs = map_of ?cs"
    using assms(2,3) by (subst map_of_inject_set) (simp_all only: set_map)
  then have "map_of bs q = map_option f (map_of as q)" by (simp add: map_of_map)
  then show ?thesis by (simp add: lookup_def split: option.splits)
qed

section \<open>The lists\<close>

text \<open>
  The names of the functions: the descriptions distinguish the forms that record an overflow,
  which the functions read from the instruction.
\<close>

definition overflow_forms :: "(string \<times> Instruction) list" where
  "overflow_forms =
     [(''addox'', ''addx''), (''addcox'', ''addcx''), (''addeox'', ''addex''),
      (''addmeox'', ''addmex''), (''addzeox'', ''addzex''), (''divwox'', ''divwx''),
      (''divwuox'', ''divwux''), (''mullwox'', ''mullwx''), (''negox'', ''negx''),
      (''subfox'', ''subfx''), (''subfcox'', ''subfcx''), (''subfeox'', ''subfex''),
      (''subfmeox'', ''subfmex''), (''subfzeox'', ''subfzex'')]"

definition function_of :: "GekkoOPInfo \<Rightarrow> Instruction" where
  "function_of info =
     (case map_of overflow_forms (opname info) of Some f \<Rightarrow> f | None \<Rightarrow> opname info)"

definition fns :: "GekkoOPTemplate list \<Rightarrow> (nat \<times> Instruction) list" where
  "fns tpls = map (\<lambda>(op, info). (op, function_of info)) tpls"

lemma Fn_tables:
  "Fn_primary_table = fns Info_primary_table" "Fn_table4 = fns Info_table4"
  "Fn_table4_2 = fns Info_table4_2" "Fn_table4_3 = fns Info_table4_3"
  "Fn_table19 = fns Info_table19" "Fn_table59 = fns Info_table59" "Fn_table63 = fns Info_table63"
  "Fn_table63_2 = fns Info_table63_2"
  by (simp_all add: fns_def function_of_def overflow_forms_def
      Fn_primary_table_def Fn_table4_def Fn_table4_2_def Fn_table4_3_def Fn_table19_def
      Fn_table59_def Fn_table63_def Fn_table63_2_def
      Info_primary_table_def Info_table4_def Info_table4_2_def Info_table4_3_def Info_table19_def
      Info_table59_def Info_table63_def Info_table63_2_def)

lemma Fn_table31: "Fn_table31 = fns Info_table31"
  by (simp add: fns_def function_of_def overflow_forms_def Fn_table31_def Info_table31_def)

lemma distinct_opcodes:
  "distinct (map fst Info_primary_table)" "distinct (map fst Info_table4)"
  "distinct (map fst Info_table4_2)" "distinct (map fst Info_table4_3)"
  "distinct (map fst Info_table19)" "distinct (map fst Info_table59)"
  "distinct (map fst Info_table63)" "distinct (map fst Info_table63_2)"
  by (simp_all add: Info_primary_table_def Info_table4_def Info_table4_2_def Info_table4_3_def
      Info_table19_def Info_table59_def Info_table63_def Info_table63_2_def)

lemma distinct_table31: "distinct (map fst Info_table31)"
  by (simp add: Info_table31_def)

section \<open>Both tables are built\<close>

lemma keys_numbered: "map fst (numbered c tpls) = map fst tpls"
  by (simp add: numbered_def)

lemma keys_fns: "map fst (fns tpls) = map fst tpls"
  by (simp add: fns_def case_prod_beta comp_def)

lemma opcodes_table4:
  "set (map fst Info_table4_2) = set [10, 11, 12, 13, 14, 15, 18, 20, 21, 23, 24, 25, 26, 28, 29, 30, 31]"
  "set (map fst Info_table4_3) = set [6, 7, 38, 39]"
  "set (map fst Info_table4) = set [0, 32, 40, 136, 264, 64, 72, 96, 528, 560, 592, 624, 1014]"
  "set (map fst Info_table63_2) = set [18, 20, 21, 23, 25, 26, 28, 29, 30, 31]"
  "set (map fst Info_table63) = set [264, 32, 0, 14, 15, 72, 136, 40, 12, 64, 583, 70, 38, 134, 711]"
  by (simp_all add: Info_table4_def Info_table4_2_def Info_table4_3_def Info_table63_def Info_table63_2_def)

text \<open>The repeated opcodes keep clear of each other and of the single ones: their low bits differ.\<close>

lemma repeated_key:
  fixes k :: nat
  assumes "xs \<in> {concat (map (\<lambda>i. map (\<lambda>op. i * k + op) ops) [0..<n]),
      concat (map (\<lambda>op. map (\<lambda>i. i * k + op) [0..<n]) ops)}" "q \<in> set xs"
  shows "\<exists>op i. op \<in> set ops \<and> q = i * k + op"
  using assms by (auto; blast)

lemma table4_keys_distinct:
  assumes "ops2 \<in> {concat (map (\<lambda>i. map (\<lambda>op. i * 32 + op) (map fst Info_table4_2)) [0..<32]),
      concat (map (\<lambda>op. map (\<lambda>i. i * 32 + op) [0..<32]) (map fst Info_table4_2))}"
    and "ops3 \<in> {concat (map (\<lambda>i. map (\<lambda>op. i * 64 + op) (map fst Info_table4_3)) [0..<16]),
      concat (map (\<lambda>op. map (\<lambda>i. i * 64 + op) [0..<16]) (map fst Info_table4_3))}"
  shows "distinct (ops2 @ ops3 @ map fst Info_table4)"
proof -
  have lt: "\<forall>op \<in> set (map fst Info_table4_2). op < 32" "\<forall>op \<in> set (map fst Info_table4_3). op < 64"
    unfolding opcodes_table4 by simp_all
  have d: "distinct ops2" "distinct ops3"
    using assms distinct_rows [OF lt(1)] distinct_rows [OF lt(2)] distinct_columns [OF lt(1)]
      distinct_columns [OF lt(2)] distinct_opcodes by auto
  have "q mod 32 \<in> set (map fst Info_table4_2)" if q: "q \<in> set ops2" for q
  proof -
    obtain op i where op: "op \<in> set (map fst Info_table4_2)" "q = i * 32 + op"
      using repeated_key [OF assms(1) q] by blast
    then have "op < 32" using lt(1) by blast
    then show ?thesis using op by simp
  qed
  then have m2: "q \<in> set ops2 \<Longrightarrow> q mod 32 \<in> set [10, 11, 12, 13, 14, 15, 18, 20, 21, 23, 24, 25, 26, 28, 29, 30, 31]"
    for q unfolding opcodes_table4 .
  have m3: "q mod 32 \<in> {6, 7}" if q: "q \<in> set ops3" for q
  proof -
    obtain op i where op: "op \<in> set [6, 7, 38, 39]" "q = i * 64 + op"
      using repeated_key [OF assms(2) q] unfolding opcodes_table4 by blast
    have "q mod 32 = op mod 32" using op(2) by (simp add: mod_add_left_eq [symmetric] flip: mult.assoc)
    then show ?thesis using op(1) by auto
  qed
  have m4: "q mod 32 \<in> {0, 8, 16, 22}" if "q \<in> set (map fst Info_table4)" for q
    using that unfolding opcodes_table4 by auto
  have "set ops2 \<inter> (set ops3 \<union> set (map fst Info_table4)) = {}"
    using m2 m3 m4 by fastforce
  moreover have "set ops3 \<inter> set (map fst Info_table4) = {}"
    using m3 m4 by fastforce
  ultimately show ?thesis using d distinct_opcodes by (simp add: Int_Un_distrib)
qed

lemma table63_keys_distinct:
  assumes "ops \<in> {concat (map (\<lambda>i. map (\<lambda>op. i * 32 + op) (map fst Info_table63_2)) [0..<32]),
      concat (map (\<lambda>op. map (\<lambda>i. i * 32 + op) [0..<32]) (map fst Info_table63_2))}"
  shows "distinct (map fst Info_table63 @ ops)"
proof -
  have lt: "\<forall>op \<in> set (map fst Info_table63_2). op < 32"
    unfolding opcodes_table4 by simp
  have d: "distinct ops"
    using assms distinct_rows [OF lt] distinct_columns [OF lt] distinct_opcodes by auto
  have m2: "q mod 32 \<in> set [18, 20, 21, 23, 25, 26, 28, 29, 30, 31]" if q: "q \<in> set ops" for q
  proof -
    obtain op i where "op \<in> set (map fst Info_table63_2)" "q = i * 32 + op"
      using repeated_key [OF assms q] by blast
    then show ?thesis using lt unfolding opcodes_table4 by auto
  qed
  have m: "q mod 32 \<in> {0, 6, 7, 8, 12, 14, 15}" if "q \<in> set (map fst Info_table63)" for q
    using that unfolding opcodes_table4 by auto
  have "set (map fst Info_table63) \<inter> set ops = {}" using m2 m by fastforce
  then show ?thesis using d distinct_opcodes by simp
qed

lemma fn_tables_built:
  "s_interpreter_op_table = Some (lookup ''unknown_instruction'' Fn_primary_table)"
  "s_interpreter_op_table4 =
     Some (lookup ''unknown_instruction'' (fill5 Fn_table4_2 @ fill6 Fn_table4_3 @ Fn_table4))"
  "s_interpreter_op_table19 = Some (lookup ''unknown_instruction'' Fn_table19)"
  "s_interpreter_op_table31 = Some (lookup ''unknown_instruction'' Fn_table31)"
  "s_interpreter_op_table59 = Some (lookup ''unknown_instruction'' Fn_table59)"
  "s_interpreter_op_table63 = Some (lookup ''unknown_instruction'' (Fn_table63 @ fill5 Fn_table63_2))"
  unfolding s_interpreter_op_table_def s_interpreter_op_table4_def s_interpreter_op_table19_def
    s_interpreter_op_table31_def s_interpreter_op_table59_def s_interpreter_op_table63_def build_fn_def
    fill5_def fill6_def
  by (rule place_fresh, simp only: Fn_tables Fn_table31 keys_fns keys_repeat map_append
      distinct_opcodes distinct_table31 table4_keys_distinct table63_keys_distinct insert_iff simp_thms)+

text \<open>The descriptions' tables, with the numbers of their entries in place of the descriptions.\<close>

definition info_entries4 :: "(nat \<times> nat) list" where
  "info_entries4 =
     (let c = 1 + length Info_primary_table;
          c' = c + length Info_table4_2
      in concat (map (\<lambda>(op, info). map (\<lambda>i. (i * 32 + op, info)) [0..<32]) (numbered c Info_table4_2)) @
         concat (map (\<lambda>(op, info). map (\<lambda>i. (i * 64 + op, info)) [0..<16]) (numbered c' Info_table4_3)) @
         numbered (c' + length Info_table4_3) Info_table4)"

definition info_entries63 :: "(nat \<times> nat) list" where
  "info_entries63 =
     (let c = 1 + length (Info_primary_table @ Info_table4_2 @ Info_table4_3 @ Info_table4 @
            Info_table19 @ Info_table31 @ Info_table59)
      in numbered c Info_table63 @
         concat (map (\<lambda>(op, info). map (\<lambda>i. (i * 32 + op, info)) [0..<32])
           (numbered (c + length Info_table63) Info_table63_2)))"

lemma distinct_info_entries:
  "distinct (map fst (numbered c Info_primary_table))" "distinct (map fst (numbered c Info_table19))"
  "distinct (map fst (numbered c Info_table31))" "distinct (map fst (numbered c Info_table59))"
  "distinct (map fst info_entries4)" "distinct (map fst info_entries63)"
  by (simp_all only: info_entries4_def info_entries63_def Let_def keys_numbered distinct_opcodes
      distinct_table31 map_append keys_repeat_each table4_keys_distinct table63_keys_distinct
      insert_iff simp_thms)

lemma info_tables_built:
  "tables_primary_table = Some (lookup 0 (numbered 1 Info_primary_table))"
  "tables_table4 = Some (lookup 0 info_entries4)"
  "tables_table19 = Some (lookup 0 (numbered (1 + length (Info_primary_table @ Info_table4_2 @
     Info_table4_3 @ Info_table4)) Info_table19))"
  "tables_table31 = Some (lookup 0 (numbered (1 + length (Info_primary_table @ Info_table4_2 @
     Info_table4_3 @ Info_table4 @ Info_table19)) Info_table31))"
  "tables_table59 = Some (lookup 0 (numbered (1 + length (Info_primary_table @ Info_table4_2 @
     Info_table4_3 @ Info_table4 @ Info_table19 @ Info_table31)) Info_table59))"
  "tables_table63 = Some (lookup 0 info_entries63)"
  unfolding tables_primary_table_def tables_table4_def tables_table19_def tables_table31_def
    tables_table59_def tables_table63_def build_info_def Let_def
    info_entries4_def [unfolded Let_def, symmetric] info_entries63_def [unfolded Let_def, symmetric]
  by (rule place_fresh, rule distinct_info_entries)+

section \<open>Both tables agree\<close>

lemma numbered_entries:
  assumes "all_instructions = xs @ map snd tpls @ ys"
  shows "(\<lambda>(op, k). (op, f (all_instructions ! k))) ` set (numbered (length xs) tpls) =
    set (map (\<lambda>(op, info). (op, f info)) tpls)"
proof -
  have "map (\<lambda>(op, k). (op, f (all_instructions ! k))) (numbered (length xs) tpls) =
      map (\<lambda>(op, info). (op, f info)) tpls"
    by (rule nth_equalityI) (auto simp: numbered_def assms nth_append case_prod_beta)
  then show ?thesis by (metis set_map)
qed

lemmas numbered_image = numbered_entries [where f = function_of, folded fns_def]

lemma repeat_image:
  fixes k :: nat
  assumes "(\<lambda>(op, x). (op, f x)) ` set xs = set ys"
  shows "(\<lambda>(op, x). (op, f x)) `
      set (concat (map (\<lambda>(op, x). map (\<lambda>i. (i * k + op, x)) [0..<n]) xs)) =
    set (concat (map (\<lambda>i. map (\<lambda>(op, x). (i * k + op, x)) ys) [0..<n]))"
  unfolding set_repeat
  by (auto simp: assms [symmetric] image_iff case_prod_beta) force+

lemma numbered_at:
  fixes before tpls :: "GekkoOPTemplate list"
  assumes "c = length (s_unknown_op_info # map snd before)"
    "all_instructions = (s_unknown_op_info # map snd before) @ map snd tpls @ rest"
  shows "(\<lambda>(op, k). (op, function_of (all_instructions ! k))) ` set (numbered c tpls) = set (fns tpls)"
  unfolding assms(1) using numbered_image [OF assms(2)] .

lemma tables_images:
  "(\<lambda>(op, k). (op, function_of (all_instructions ! k))) ` set (numbered 1 Info_primary_table) =
     set Fn_primary_table"
  "(\<lambda>(op, k). (op, function_of (all_instructions ! k))) ` set info_entries4 =
     set (fill5 Fn_table4_2 @ fill6 Fn_table4_3 @ Fn_table4)"
  "(\<lambda>(op, k). (op, function_of (all_instructions ! k))) ` set (numbered (1 + length (Info_primary_table @
     Info_table4_2 @ Info_table4_3 @ Info_table4)) Info_table19) = set Fn_table19"
  "(\<lambda>(op, k). (op, function_of (all_instructions ! k))) ` set (numbered (1 + length (Info_primary_table @
     Info_table4_2 @ Info_table4_3 @ Info_table4 @ Info_table19)) Info_table31) = set Fn_table31"
  "(\<lambda>(op, k). (op, function_of (all_instructions ! k))) ` set (numbered (1 + length (Info_primary_table @
     Info_table4_2 @ Info_table4_3 @ Info_table4 @ Info_table19 @ Info_table31)) Info_table59) = set Fn_table59"
  "(\<lambda>(op, k). (op, function_of (all_instructions ! k))) ` set info_entries63 =
     set (Fn_table63 @ fill5 Fn_table63_2)"
proof -
  let ?image = "\<lambda>es. (\<lambda>(op, k). (op, function_of (all_instructions ! k))) ` set es"
  show "?image (numbered 1 Info_primary_table) = set Fn_primary_table"
    unfolding Fn_tables by (rule numbered_at [where before = "[]"]) (simp_all add: all_instructions_def)
  have t42: "?image (numbered (1 + length Info_primary_table) Info_table4_2) = set (fns Info_table4_2)"
    by (rule numbered_at [where before = Info_primary_table]) (simp_all add: all_instructions_def)
  have t43: "?image (numbered (1 + length Info_primary_table + length Info_table4_2) Info_table4_3) =
      set (fns Info_table4_3)"
    by (rule numbered_at [where before = "Info_primary_table @ Info_table4_2"]) (simp_all add: all_instructions_def)
  have t4: "?image (numbered (1 + length Info_primary_table + length Info_table4_2 + length Info_table4_3)
      Info_table4) = set (fns Info_table4)"
    by (rule numbered_at [where before = "Info_primary_table @ Info_table4_2 @ Info_table4_3"])
      (simp_all add: all_instructions_def)
  show "?image info_entries4 = set (fill5 Fn_table4_2 @ fill6 Fn_table4_3 @ Fn_table4)"
    unfolding info_entries4_def Let_def set_append image_Un fill5_def fill6_def Fn_tables
      repeat_image [OF t42] repeat_image [OF t43] t4 ..
  show "?image (numbered (1 + length (Info_primary_table @ Info_table4_2 @ Info_table4_3 @ Info_table4))
      Info_table19) = set Fn_table19"
    unfolding Fn_tables
    by (rule numbered_at [where before = "Info_primary_table @ Info_table4_2 @ Info_table4_3 @ Info_table4"])
      (simp_all add: all_instructions_def)
  show "?image (numbered (1 + length (Info_primary_table @ Info_table4_2 @ Info_table4_3 @ Info_table4 @
      Info_table19)) Info_table31) = set Fn_table31"
    unfolding Fn_table31
    by (rule numbered_at [where before = "Info_primary_table @ Info_table4_2 @ Info_table4_3 @ Info_table4 @
        Info_table19"]) (simp_all add: all_instructions_def)
  show "?image (numbered (1 + length (Info_primary_table @ Info_table4_2 @ Info_table4_3 @ Info_table4 @
      Info_table19 @ Info_table31)) Info_table59) = set Fn_table59"
    unfolding Fn_tables
    by (rule numbered_at [where before = "Info_primary_table @ Info_table4_2 @ Info_table4_3 @ Info_table4 @
        Info_table19 @ Info_table31"]) (simp_all add: all_instructions_def)
  let ?c = "1 + length (Info_primary_table @ Info_table4_2 @ Info_table4_3 @ Info_table4 @
      Info_table19 @ Info_table31 @ Info_table59)"
  have t63: "?image (numbered ?c Info_table63) = set (fns Info_table63)"
    by (rule numbered_at [where before = "Info_primary_table @ Info_table4_2 @ Info_table4_3 @ Info_table4 @
      Info_table19 @ Info_table31 @ Info_table59"]) (simp_all add: all_instructions_def)
  have t632: "?image (numbered (?c + length Info_table63) Info_table63_2) = set (fns Info_table63_2)"
    by (rule numbered_at [where before = "Info_primary_table @ Info_table4_2 @ Info_table4_3 @ Info_table4 @
      Info_table19 @ Info_table31 @ Info_table59 @ Info_table63"])
      (simp_all add: all_instructions_def)
  show "?image info_entries63 = set (Fn_table63 @ fill5 Fn_table63_2)"
    unfolding info_entries63_def Let_def set_append image_Un fill5_def Fn_tables
      repeat_image [OF t632] t63 ..
qed

lemma distinct_fn_entries:
  "distinct (map fst Fn_primary_table)" "distinct (map fst Fn_table19)" "distinct (map fst Fn_table31)"
  "distinct (map fst Fn_table59)" "distinct (map fst (fill5 Fn_table4_2 @ fill6 Fn_table4_3 @ Fn_table4))"
  "distinct (map fst (Fn_table63 @ fill5 Fn_table63_2))"
  by (simp_all only: Fn_tables Fn_table31 keys_fns keys_repeat map_append fill5_def fill6_def
      distinct_opcodes distinct_table31 table4_keys_distinct table63_keys_distinct insert_iff simp_thms)

lemma function_of_unknown: "function_of (all_instructions ! 0) = ''unknown_instruction''"
  by (simp add: all_instructions_def s_unknown_op_info_def function_of_def overflow_forms_def)

text \<open>Every lookup in a table of descriptions names the function in the table of functions.\<close>

lemma lookups_agree:
  "the s_interpreter_op_table q = function_of (all_instructions ! the tables_primary_table q)"
  "the s_interpreter_op_table4 q = function_of (all_instructions ! the tables_table4 q)"
  "the s_interpreter_op_table19 q = function_of (all_instructions ! the tables_table19 q)"
  "the s_interpreter_op_table31 q = function_of (all_instructions ! the tables_table31 q)"
  "the s_interpreter_op_table59 q = function_of (all_instructions ! the tables_table59 q)"
  "the s_interpreter_op_table63 q = function_of (all_instructions ! the tables_table63 q)"
  unfolding fn_tables_built info_tables_built option.sel function_of_unknown [symmetric]
  by (rule lookup_image; rule distinct_info_entries distinct_fn_entries tables_images)+

lemma primary_entries:
  "\<forall>e \<in> set Fn_primary_table.
     (snd e = ''RunTable4'') = (fst e = 4) \<and> (snd e = ''RunTable19'') = (fst e = 19) \<and>
     (snd e = ''RunTable31'') = (fst e = 31) \<and> (snd e = ''RunTable59'') = (fst e = 59) \<and>
     (snd e = ''RunTable63'') = (fst e = 63)"
  by (simp add: Fn_primary_table_def)

lemma primary_infos:
  "\<forall>e \<in> set Info_primary_table.
     (op_type (snd e) = OpType_Subtable) = (fst e \<in> set [4, 19, 31, 59, 63]) \<and>
     op_type (snd e) \<noteq> OpType_Invalid"
  by (simp add: Info_primary_table_def)

lemma lookup_cases:
  assumes "\<forall>e \<in> set tpls. P (fst e) (snd e)" "\<And>q. q \<notin> fst ` set tpls \<Longrightarrow> P q unknown"
  shows "P q (lookup unknown tpls q)"
proof (cases "map_of tpls q")
  case None
  then have "q \<notin> fst ` set tpls" by (simp add: map_of_eq_None_iff)
  with None assms(2) show ?thesis by (simp add: lookup_def)
next
  case (Some x)
  then have "(q, x) \<in> set tpls" by (rule map_of_SomeD)
  with Some assms(1) show ?thesis by (fastforce simp: lookup_def)
qed

lemma subtable_opcodes:
  "the s_interpreter_op_table q = ''RunTable4'' \<longleftrightarrow> q = 4"
  "the s_interpreter_op_table q = ''RunTable19'' \<longleftrightarrow> q = 19"
  "the s_interpreter_op_table q = ''RunTable31'' \<longleftrightarrow> q = 31"
  "the s_interpreter_op_table q = ''RunTable59'' \<longleftrightarrow> q = 59"
  "the s_interpreter_op_table q = ''RunTable63'' \<longleftrightarrow> q = 63"
  unfolding fn_tables_built option.sel
  by (rule lookup_cases [where P = "\<lambda>q x. (x = _) = (q = _)"],
      use primary_entries in blast, simp add: Fn_primary_table_def)+

lemma subtable_infos:
  "op_type (all_instructions ! the tables_primary_table q) = OpType_Subtable \<longleftrightarrow> q \<in> set [4, 19, 31, 59, 63]"
  "op_type (all_instructions ! the tables_primary_table q) \<noteq> OpType_Invalid"
proof -
  have "(\<lambda>(op, k). (op, all_instructions ! k)) ` set (numbered 1 Info_primary_table) = set Info_primary_table"
    using numbered_entries [where xs = "[s_unknown_op_info]" and tpls = Info_primary_table and f = "\<lambda>i. i"]
    by (simp add: all_instructions_def)
  then have "lookup (all_instructions ! 0) Info_primary_table q = all_instructions ! the tables_primary_table q"
    unfolding info_tables_built option.sel
    by (intro lookup_image distinct_info_entries distinct_opcodes)
  moreover have "(op_type (lookup (all_instructions ! 0) Info_primary_table q) = OpType_Subtable) =
      (q \<in> set [4, 19, 31, 59, 63]) \<and> op_type (lookup (all_instructions ! 0) Info_primary_table q) \<noteq> OpType_Invalid"
    by (rule lookup_cases [OF primary_infos])
      (simp add: Info_primary_table_def all_instructions_def s_unknown_op_info_def)
  ultimately show
    "op_type (all_instructions ! the tables_primary_table q) = OpType_Subtable \<longleftrightarrow> q \<in> set [4, 19, 31, 59, 63]"
    "op_type (all_instructions ! the tables_primary_table q) \<noteq> OpType_Invalid"
    by simp_all
qed

lemma GetInterpreterOp_function_of: "GetInterpreterOp inst = function_of (GetOpInfo inst)"
proof -
  have opcd: "OPCD inst = 4 \<longleftrightarrow> unat (OPCD inst) = 4" "OPCD inst = 19 \<longleftrightarrow> unat (OPCD inst) = 19"
    "OPCD inst = 31 \<longleftrightarrow> unat (OPCD inst) = 31" "OPCD inst = 59 \<longleftrightarrow> unat (OPCD inst) = 59"
    "OPCD inst = 63 \<longleftrightarrow> unat (OPCD inst) = 63"
    by (simp_all add: word_unat_eq_iff)
  show ?thesis
    unfolding GetInterpreterOp_def GetOpInfo_def Let_def subtable_opcodes subtable_infos opcd
    by (simp add: lookups_agree subtable_infos(2))
qed

text \<open>
  (C9) The interpreter and the JIT decode alike: for every instruction word, the function the
  interpreter's tables give is the one that the description of the other tables names, the
  forms that record an overflow sharing the function of the plain ones.
\<close>

theorem decode_tables_agree: "GetInterpreterOp inst = function_of (GetOpInfo inst)"
  by (rule GetInterpreterOp_function_of)

text \<open>
  No table has an opcode twice: the assertions with which the tables are built at compile
  time all hold, and every description gets a number of its own.
\<close>

theorem decode_tables_build:
  "s_interpreter_op_table \<noteq> None \<and> s_interpreter_op_table4 \<noteq> None \<and> s_interpreter_op_table19 \<noteq> None \<and>
   s_interpreter_op_table31 \<noteq> None \<and> s_interpreter_op_table59 \<noteq> None \<and> s_interpreter_op_table63 \<noteq> None \<and>
   tables_primary_table \<noteq> None \<and> tables_table4 \<noteq> None \<and> tables_table19 \<noteq> None \<and>
   tables_table31 \<noteq> None \<and> tables_table59 \<noteq> None \<and> tables_table63 \<noteq> None \<and>
   length all_instructions = TOTAL_INSTRUCTION_COUNT"
  by (simp add: fn_tables_built info_tables_built all_instructions_def TOTAL_INSTRUCTION_COUNT_def)

end
