(* ===== verification/Interpreter_LoadStore.thy ===== *)
theory Interpreter_LoadStore
  imports PowerPC_State Byte_Swap
begin

text \<open>
  The load and store instructions, \<^verbatim>\<open>Interpreter_LoadStore.cpp\<close>, with the
  conversions between single and double precision of \<^verbatim>\<open>Interpreter_FPUtils.h\<close>
  that the floating-point ones use. The memory management unit, the caches and the JIT's
  instruction cache are the argument \<open>M\<close>, a record of the operations the instructions call;
  each of them acts on the processor and on the rest of the machine, of type \<open>'m\<close>.
\<close>

section \<open>State\<close>

type_synonym 'm machine = "'m \<times> PowerPCState"

record 'm mmu =
  Read_U8 :: "u32 \<Rightarrow> 'm machine \<Rightarrow> u8 \<times> 'm machine"
  Read_U16 :: "u32 \<Rightarrow> 'm machine \<Rightarrow> u16 \<times> 'm machine"
  Read_U32 :: "u32 \<Rightarrow> 'm machine \<Rightarrow> u32 \<times> 'm machine"
  Read_U64 :: "u32 \<Rightarrow> 'm machine \<Rightarrow> u64 \<times> 'm machine"
  Write_U8 :: "u32 \<Rightarrow> u32 \<Rightarrow> 'm machine \<Rightarrow> 'm machine"
  Write_U16 :: "u32 \<Rightarrow> u32 \<Rightarrow> 'm machine \<Rightarrow> 'm machine"
  Write_U32 :: "u32 \<Rightarrow> u32 \<Rightarrow> 'm machine \<Rightarrow> 'm machine"
  Write_U64 :: "u64 \<Rightarrow> u32 \<Rightarrow> 'm machine \<Rightarrow> 'm machine"
  Write_U16_Swap :: "u32 \<Rightarrow> u32 \<Rightarrow> 'm machine \<Rightarrow> 'm machine"
  Write_U32_Swap :: "u32 \<Rightarrow> u32 \<Rightarrow> 'm machine \<Rightarrow> 'm machine"
  InvalidateICacheLine :: "u32 \<Rightarrow> 'm machine \<Rightarrow> 'm machine"
  FlushDCacheLine :: "u32 \<Rightarrow> 'm machine \<Rightarrow> 'm machine"
  InvalidateDCacheLine :: "u32 \<Rightarrow> 'm machine \<Rightarrow> 'm machine"
  StoreDCacheLine :: "u32 \<Rightarrow> 'm machine \<Rightarrow> 'm machine"
  ClearDCacheLine :: "u32 \<Rightarrow> 'm machine \<Rightarrow> 'm machine"
  iCache_Invalidate :: "u32 \<Rightarrow> 'm machine \<Rightarrow> 'm machine"
  InvalidateTLBEntry :: "u32 \<Rightarrow> 'm machine \<Rightarrow> 'm machine"
  MAIN_LOW_DCBZ_HACK :: bool

definition on_cpu :: "(PowerPCState \<Rightarrow> PowerPCState) \<Rightarrow> 'm machine \<Rightarrow> 'm machine" where
  "on_cpu f m = (fst m, f (snd m))"

definition DSI :: "'m machine \<Rightarrow> bool" where
  "DSI m \<longleftrightarrow> Exceptions (snd m) AND EXCEPTION_DSI \<noteq> 0"

definition SetPS0 :: "5 word \<Rightarrow> u64 \<Rightarrow> PowerPCState \<Rightarrow> PowerPCState" where
  "SetPS0 r v s = s\<lparr>ps := (ps s)(r := (v, snd (ps s r)))\<rparr>"

definition PS_Fill :: "5 word \<Rightarrow> u64 \<Rightarrow> PowerPCState \<Rightarrow> PowerPCState" where
  "PS_Fill r v s = s\<lparr>ps := (ps s)(r := (v, v))\<rparr>"

definition PS0AsU64 :: "PowerPCState \<Rightarrow> 5 word \<Rightarrow> u64" where
  "PS0AsU64 s r = fst (ps s r)"

section \<open>Single and double precision\<close>

definition DOUBLE_SIGN :: u64 where "DOUBLE_SIGN = 0x8000000000000000"
definition DOUBLE_FRAC :: u64 where "DOUBLE_FRAC = 0x000FFFFFFFFFFFFF"

definition ConvertToSingle :: "u64 \<Rightarrow> u32" where
  "ConvertToSingle x =
     (let exp = unat (drop_bit 52 x AND 0x7ff)
      in if exp > 896 \<or> x AND NOT DOUBLE_SIGN = 0 then
           ucast ((drop_bit 32 x AND 0xc0000000) OR (drop_bit 29 x AND 0x3fffffff))
         else if exp \<ge> 874 then
           (let t = ucast (0x80000000 OR drop_bit 21 (x AND DOUBLE_FRAC)) :: u32;
                t = drop_bit (905 - exp) t
            in t OR ucast (drop_bit 32 x AND 0x80000000))
         else ucast ((drop_bit 32 x AND 0xc0000000) OR (drop_bit 29 x AND 0x3fffffff)))"

text \<open>
  The loop that normalises a subnormal fraction, a do-while: the fraction is a nonzero value
  of 23 bits, so 23 iterations are enough.
\<close>

fun normalize :: "nat \<Rightarrow> u64 \<Rightarrow> u64 \<Rightarrow> u64 \<times> u64" where
  "normalize 0 exp frac = (exp, frac)"
| "normalize (Suc fuel) exp frac =
     (let frac = push_bit 1 frac; exp = exp - 1
      in if frac AND 0x00800000 = 0 then normalize fuel exp frac else (exp, frac))"

definition ConvertToDouble :: "u32 \<Rightarrow> u64" where
  "ConvertToDouble value =
     (let x = ucast value :: u64;
          exp = drop_bit 23 x AND 0xff;
          frac = x AND 0x007fffff
      in if exp > 0 \<and> exp < 255 then
           (let y = (of_bool (drop_bit 7 exp = 0) :: u64);
                z = push_bit 61 y OR push_bit 60 y OR push_bit 59 y
            in push_bit 32 (x AND 0xc0000000) OR z OR push_bit 29 (x AND 0x3fffffff))
         else if exp = 0 \<and> frac \<noteq> 0 then
           (let (exp, frac) = normalize 23 (1023 - 126) frac
            in push_bit 32 (x AND 0x80000000) OR push_bit 52 exp OR
               push_bit 29 (frac AND 0x007fffff))
         else
           (let y = drop_bit 7 exp;
                z = push_bit 61 y OR push_bit 60 y OR push_bit 59 y
            in push_bit 32 (x AND 0xc0000000) OR z OR push_bit 29 (x AND 0x3fffffff)))"

section \<open>Effective addresses\<close>

definition Helper_Get_EA :: "PowerPCState \<Rightarrow> u32 \<Rightarrow> u32" where
  "Helper_Get_EA s inst =
     (if RA inst \<noteq> 0 then gpr s (RA inst) + SIMM_16 inst else SIMM_16 inst)"

definition Helper_Get_EA_U :: "PowerPCState \<Rightarrow> u32 \<Rightarrow> u32" where
  "Helper_Get_EA_U s inst = gpr s (RA inst) + SIMM_16 inst"

definition Helper_Get_EA_X :: "PowerPCState \<Rightarrow> u32 \<Rightarrow> u32" where
  "Helper_Get_EA_X s inst =
     (if RA inst \<noteq> 0 then gpr s (RA inst) + gpr s (RB inst) else gpr s (RB inst))"

definition Helper_Get_EA_UX :: "PowerPCState \<Rightarrow> u32 \<Rightarrow> u32" where
  "Helper_Get_EA_UX s inst = gpr s (RA inst) + gpr s (RB inst)"

section \<open>Loads\<close>

definition lbz :: "'m mmu \<Rightarrow> u32 \<Rightarrow> 'm machine \<Rightarrow> 'm machine" where
  "lbz M inst m =
     (let address = Helper_Get_EA (snd m) inst;
          (temp, m) = Read_U8 M address m
      in if \<not> DSI m then on_cpu (set_gpr (RD inst) (ucast temp)) m else m)"

definition lbzu :: "'m mmu \<Rightarrow> u32 \<Rightarrow> 'm machine \<Rightarrow> 'm machine" where
  "lbzu M inst m =
     (let address = Helper_Get_EA_U (snd m) inst;
          (temp, m) = Read_U8 M address m
      in if \<not> DSI m then on_cpu (set_gpr (RA inst) address) (on_cpu (set_gpr (RD inst) (ucast temp)) m) else m)"

definition lbzx :: "'m mmu \<Rightarrow> u32 \<Rightarrow> 'm machine \<Rightarrow> 'm machine" where
  "lbzx M inst m =
     (let address = Helper_Get_EA_X (snd m) inst;
          (temp, m) = Read_U8 M address m
      in if \<not> DSI m then on_cpu (set_gpr (RD inst) (ucast temp)) m else m)"

definition lbzux :: "'m mmu \<Rightarrow> u32 \<Rightarrow> 'm machine \<Rightarrow> 'm machine" where
  "lbzux M inst m =
     (let address = Helper_Get_EA_UX (snd m) inst;
          (temp, m) = Read_U8 M address m
      in if \<not> DSI m then on_cpu (set_gpr (RA inst) address) (on_cpu (set_gpr (RD inst) (ucast temp)) m) else m)"

definition lhz :: "'m mmu \<Rightarrow> u32 \<Rightarrow> 'm machine \<Rightarrow> 'm machine" where
  "lhz M inst m =
     (let address = Helper_Get_EA (snd m) inst;
          (temp, m) = Read_U16 M address m
      in if \<not> DSI m then on_cpu (set_gpr (RD inst) (ucast temp)) m else m)"

definition lhzu :: "'m mmu \<Rightarrow> u32 \<Rightarrow> 'm machine \<Rightarrow> 'm machine" where
  "lhzu M inst m =
     (let address = Helper_Get_EA_U (snd m) inst;
          (temp, m) = Read_U16 M address m
      in if \<not> DSI m then on_cpu (set_gpr (RA inst) address) (on_cpu (set_gpr (RD inst) (ucast temp)) m) else m)"

definition lhzx :: "'m mmu \<Rightarrow> u32 \<Rightarrow> 'm machine \<Rightarrow> 'm machine" where
  "lhzx M inst m =
     (let address = Helper_Get_EA_X (snd m) inst;
          (temp, m) = Read_U16 M address m
      in if \<not> DSI m then on_cpu (set_gpr (RD inst) (ucast temp)) m else m)"

definition lhzux :: "'m mmu \<Rightarrow> u32 \<Rightarrow> 'm machine \<Rightarrow> 'm machine" where
  "lhzux M inst m =
     (let address = Helper_Get_EA_UX (snd m) inst;
          (temp, m) = Read_U16 M address m
      in if \<not> DSI m then on_cpu (set_gpr (RA inst) address) (on_cpu (set_gpr (RD inst) (ucast temp)) m) else m)"

definition lha :: "'m mmu \<Rightarrow> u32 \<Rightarrow> 'm machine \<Rightarrow> 'm machine" where
  "lha M inst m =
     (let address = Helper_Get_EA (snd m) inst;
          (temp, m) = Read_U16 M address m
      in if \<not> DSI m then on_cpu (set_gpr (RD inst) (scast temp)) m else m)"

definition lhau :: "'m mmu \<Rightarrow> u32 \<Rightarrow> 'm machine \<Rightarrow> 'm machine" where
  "lhau M inst m =
     (let address = Helper_Get_EA_U (snd m) inst;
          (temp, m) = Read_U16 M address m
      in if \<not> DSI m then on_cpu (set_gpr (RA inst) address) (on_cpu (set_gpr (RD inst) (scast temp)) m) else m)"

definition lhax :: "'m mmu \<Rightarrow> u32 \<Rightarrow> 'm machine \<Rightarrow> 'm machine" where
  "lhax M inst m =
     (let address = Helper_Get_EA_X (snd m) inst;
          (temp, m) = Read_U16 M address m
      in if \<not> DSI m then on_cpu (set_gpr (RD inst) (scast temp)) m else m)"

definition lhaux :: "'m mmu \<Rightarrow> u32 \<Rightarrow> 'm machine \<Rightarrow> 'm machine" where
  "lhaux M inst m =
     (let address = Helper_Get_EA_UX (snd m) inst;
          (temp, m) = Read_U16 M address m
      in if \<not> DSI m then on_cpu (set_gpr (RA inst) address) (on_cpu (set_gpr (RD inst) (scast temp)) m) else m)"

definition lwz :: "'m mmu \<Rightarrow> u32 \<Rightarrow> 'm machine \<Rightarrow> 'm machine" where
  "lwz M inst m =
     (let address = Helper_Get_EA (snd m) inst;
          (temp, m) = Read_U32 M address m
      in if \<not> DSI m then on_cpu (set_gpr (RD inst) (temp)) m else m)"

definition lwzu :: "'m mmu \<Rightarrow> u32 \<Rightarrow> 'm machine \<Rightarrow> 'm machine" where
  "lwzu M inst m =
     (let address = Helper_Get_EA_U (snd m) inst;
          (temp, m) = Read_U32 M address m
      in if \<not> DSI m then on_cpu (set_gpr (RA inst) address) (on_cpu (set_gpr (RD inst) (temp)) m) else m)"

definition lwzx :: "'m mmu \<Rightarrow> u32 \<Rightarrow> 'm machine \<Rightarrow> 'm machine" where
  "lwzx M inst m =
     (let address = Helper_Get_EA_X (snd m) inst;
          (temp, m) = Read_U32 M address m
      in if \<not> DSI m then on_cpu (set_gpr (RD inst) (temp)) m else m)"

definition lwzux :: "'m mmu \<Rightarrow> u32 \<Rightarrow> 'm machine \<Rightarrow> 'm machine" where
  "lwzux M inst m =
     (let address = Helper_Get_EA_UX (snd m) inst;
          (temp, m) = Read_U32 M address m
      in if \<not> DSI m then on_cpu (set_gpr (RA inst) address) (on_cpu (set_gpr (RD inst) (temp)) m) else m)"

definition lhbrx :: "'m mmu \<Rightarrow> u32 \<Rightarrow> 'm machine \<Rightarrow> 'm machine" where
  "lhbrx M inst m =
     (let address = Helper_Get_EA_X (snd m) inst;
          (temp, m) = Read_U16 M address m
      in if \<not> DSI m then on_cpu (set_gpr (RD inst) (ucast (swap16 temp))) m else m)"

definition lwbrx :: "'m mmu \<Rightarrow> u32 \<Rightarrow> 'm machine \<Rightarrow> 'm machine" where
  "lwbrx M inst m =
     (let address = Helper_Get_EA_X (snd m) inst;
          (temp, m) = Read_U32 M address m
      in if \<not> DSI m then on_cpu (set_gpr (RD inst) (swap32 temp)) m else m)"

definition lfs :: "'m mmu \<Rightarrow> u32 \<Rightarrow> 'm machine \<Rightarrow> 'm machine" where
  "lfs M inst m =
     (let address = Helper_Get_EA (snd m) inst
      in if address AND 3 \<noteq> 0 then on_cpu (GenerateAlignmentException address) m
         else (let (temp, m) = Read_U32 M address m
               in if \<not> DSI m then on_cpu (PS_Fill (FD inst) (ConvertToDouble temp)) m else m))"

definition lfsu :: "'m mmu \<Rightarrow> u32 \<Rightarrow> 'm machine \<Rightarrow> 'm machine" where
  "lfsu M inst m =
     (let address = Helper_Get_EA_U (snd m) inst
      in if address AND 3 \<noteq> 0 then on_cpu (GenerateAlignmentException address) m
         else (let (temp, m) = Read_U32 M address m
               in if \<not> DSI m then on_cpu (set_gpr (RA inst) address) (on_cpu (PS_Fill (FD inst) (ConvertToDouble temp)) m) else m))"

definition lfsx :: "'m mmu \<Rightarrow> u32 \<Rightarrow> 'm machine \<Rightarrow> 'm machine" where
  "lfsx M inst m =
     (let address = Helper_Get_EA_X (snd m) inst
      in if address AND 3 \<noteq> 0 then on_cpu (GenerateAlignmentException address) m
         else (let (temp, m) = Read_U32 M address m
               in if \<not> DSI m then on_cpu (PS_Fill (FD inst) (ConvertToDouble temp)) m else m))"

definition lfsux :: "'m mmu \<Rightarrow> u32 \<Rightarrow> 'm machine \<Rightarrow> 'm machine" where
  "lfsux M inst m =
     (let address = Helper_Get_EA_UX (snd m) inst
      in if address AND 3 \<noteq> 0 then on_cpu (GenerateAlignmentException address) m
         else (let (temp, m) = Read_U32 M address m
               in if \<not> DSI m then on_cpu (set_gpr (RA inst) address) (on_cpu (PS_Fill (FD inst) (ConvertToDouble temp)) m) else m))"

definition lfd :: "'m mmu \<Rightarrow> u32 \<Rightarrow> 'm machine \<Rightarrow> 'm machine" where
  "lfd M inst m =
     (let address = Helper_Get_EA (snd m) inst
      in if address AND 3 \<noteq> 0 then on_cpu (GenerateAlignmentException address) m
         else (let (temp, m) = Read_U64 M address m
               in if \<not> DSI m then on_cpu (SetPS0 (FD inst) temp) m else m))"

definition lfdu :: "'m mmu \<Rightarrow> u32 \<Rightarrow> 'm machine \<Rightarrow> 'm machine" where
  "lfdu M inst m =
     (let address = Helper_Get_EA_U (snd m) inst
      in if address AND 3 \<noteq> 0 then on_cpu (GenerateAlignmentException address) m
         else (let (temp, m) = Read_U64 M address m
               in if \<not> DSI m then on_cpu (set_gpr (RA inst) address) (on_cpu (SetPS0 (FD inst) temp) m) else m))"

definition lfdx :: "'m mmu \<Rightarrow> u32 \<Rightarrow> 'm machine \<Rightarrow> 'm machine" where
  "lfdx M inst m =
     (let address = Helper_Get_EA_X (snd m) inst
      in if address AND 3 \<noteq> 0 then on_cpu (GenerateAlignmentException address) m
         else (let (temp, m) = Read_U64 M address m
               in if \<not> DSI m then on_cpu (SetPS0 (FD inst) temp) m else m))"

definition lfdux :: "'m mmu \<Rightarrow> u32 \<Rightarrow> 'm machine \<Rightarrow> 'm machine" where
  "lfdux M inst m =
     (let address = Helper_Get_EA_UX (snd m) inst
      in if address AND 3 \<noteq> 0 then on_cpu (GenerateAlignmentException address) m
         else (let (temp, m) = Read_U64 M address m
               in if \<not> DSI m then on_cpu (set_gpr (RA inst) address) (on_cpu (SetPS0 (FD inst) temp) m) else m))"

section \<open>Stores\<close>

definition stb :: "'m mmu \<Rightarrow> u32 \<Rightarrow> 'm machine \<Rightarrow> 'm machine" where
  "stb M inst m =
     (let address = Helper_Get_EA (snd m) inst
      in Write_U8 M (gpr (snd m) (RS inst)) address m)"

definition stbu :: "'m mmu \<Rightarrow> u32 \<Rightarrow> 'm machine \<Rightarrow> 'm machine" where
  "stbu M inst m =
     (let address = Helper_Get_EA_U (snd m) inst;
          m = Write_U8 M (gpr (snd m) (RS inst)) address m
      in if \<not> DSI m then on_cpu (set_gpr (RA inst) address) m else m)"

definition stbx :: "'m mmu \<Rightarrow> u32 \<Rightarrow> 'm machine \<Rightarrow> 'm machine" where
  "stbx M inst m =
     (let address = Helper_Get_EA_X (snd m) inst
      in Write_U8 M (gpr (snd m) (RS inst)) address m)"

definition stbux :: "'m mmu \<Rightarrow> u32 \<Rightarrow> 'm machine \<Rightarrow> 'm machine" where
  "stbux M inst m =
     (let address = Helper_Get_EA_UX (snd m) inst;
          m = Write_U8 M (gpr (snd m) (RS inst)) address m
      in if \<not> DSI m then on_cpu (set_gpr (RA inst) address) m else m)"

definition sth :: "'m mmu \<Rightarrow> u32 \<Rightarrow> 'm machine \<Rightarrow> 'm machine" where
  "sth M inst m =
     (let address = Helper_Get_EA (snd m) inst
      in Write_U16 M (gpr (snd m) (RS inst)) address m)"

definition sthu :: "'m mmu \<Rightarrow> u32 \<Rightarrow> 'm machine \<Rightarrow> 'm machine" where
  "sthu M inst m =
     (let address = Helper_Get_EA_U (snd m) inst;
          m = Write_U16 M (gpr (snd m) (RS inst)) address m
      in if \<not> DSI m then on_cpu (set_gpr (RA inst) address) m else m)"

definition sthx :: "'m mmu \<Rightarrow> u32 \<Rightarrow> 'm machine \<Rightarrow> 'm machine" where
  "sthx M inst m =
     (let address = Helper_Get_EA_X (snd m) inst
      in Write_U16 M (gpr (snd m) (RS inst)) address m)"

definition sthux :: "'m mmu \<Rightarrow> u32 \<Rightarrow> 'm machine \<Rightarrow> 'm machine" where
  "sthux M inst m =
     (let address = Helper_Get_EA_UX (snd m) inst;
          m = Write_U16 M (gpr (snd m) (RS inst)) address m
      in if \<not> DSI m then on_cpu (set_gpr (RA inst) address) m else m)"

definition stw :: "'m mmu \<Rightarrow> u32 \<Rightarrow> 'm machine \<Rightarrow> 'm machine" where
  "stw M inst m =
     (let address = Helper_Get_EA (snd m) inst
      in Write_U32 M (gpr (snd m) (RS inst)) address m)"

definition stwu :: "'m mmu \<Rightarrow> u32 \<Rightarrow> 'm machine \<Rightarrow> 'm machine" where
  "stwu M inst m =
     (let address = Helper_Get_EA_U (snd m) inst;
          m = Write_U32 M (gpr (snd m) (RS inst)) address m
      in if \<not> DSI m then on_cpu (set_gpr (RA inst) address) m else m)"

definition stwx :: "'m mmu \<Rightarrow> u32 \<Rightarrow> 'm machine \<Rightarrow> 'm machine" where
  "stwx M inst m =
     (let address = Helper_Get_EA_X (snd m) inst
      in Write_U32 M (gpr (snd m) (RS inst)) address m)"

definition stwux :: "'m mmu \<Rightarrow> u32 \<Rightarrow> 'm machine \<Rightarrow> 'm machine" where
  "stwux M inst m =
     (let address = Helper_Get_EA_UX (snd m) inst;
          m = Write_U32 M (gpr (snd m) (RS inst)) address m
      in if \<not> DSI m then on_cpu (set_gpr (RA inst) address) m else m)"

definition sthbrx :: "'m mmu \<Rightarrow> u32 \<Rightarrow> 'm machine \<Rightarrow> 'm machine" where
  "sthbrx M inst m =
     (let address = Helper_Get_EA_X (snd m) inst
      in Write_U16_Swap M (gpr (snd m) (RS inst)) address m)"

definition stwbrx :: "'m mmu \<Rightarrow> u32 \<Rightarrow> 'm machine \<Rightarrow> 'm machine" where
  "stwbrx M inst m =
     (let address = Helper_Get_EA_X (snd m) inst
      in Write_U32_Swap M (gpr (snd m) (RS inst)) address m)"

definition stfs :: "'m mmu \<Rightarrow> u32 \<Rightarrow> 'm machine \<Rightarrow> 'm machine" where
  "stfs M inst m =
     (let address = Helper_Get_EA (snd m) inst
      in if address AND 3 \<noteq> 0 then on_cpu (GenerateAlignmentException address) m
         else Write_U32 M (ConvertToSingle (PS0AsU64 (snd m) (FS inst))) address m)"

definition stfsu :: "'m mmu \<Rightarrow> u32 \<Rightarrow> 'm machine \<Rightarrow> 'm machine" where
  "stfsu M inst m =
     (let address = Helper_Get_EA_U (snd m) inst
      in if address AND 3 \<noteq> 0 then on_cpu (GenerateAlignmentException address) m
         else (let m = Write_U32 M (ConvertToSingle (PS0AsU64 (snd m) (FS inst))) address m
               in if \<not> DSI m then on_cpu (set_gpr (RA inst) address) m else m))"

definition stfsx :: "'m mmu \<Rightarrow> u32 \<Rightarrow> 'm machine \<Rightarrow> 'm machine" where
  "stfsx M inst m =
     (let address = Helper_Get_EA_X (snd m) inst
      in if address AND 3 \<noteq> 0 then on_cpu (GenerateAlignmentException address) m
         else Write_U32 M (ConvertToSingle (PS0AsU64 (snd m) (FS inst))) address m)"

definition stfsux :: "'m mmu \<Rightarrow> u32 \<Rightarrow> 'm machine \<Rightarrow> 'm machine" where
  "stfsux M inst m =
     (let address = Helper_Get_EA_UX (snd m) inst
      in if address AND 3 \<noteq> 0 then on_cpu (GenerateAlignmentException address) m
         else (let m = Write_U32 M (ConvertToSingle (PS0AsU64 (snd m) (FS inst))) address m
               in if \<not> DSI m then on_cpu (set_gpr (RA inst) address) m else m))"

definition stfd :: "'m mmu \<Rightarrow> u32 \<Rightarrow> 'm machine \<Rightarrow> 'm machine" where
  "stfd M inst m =
     (let address = Helper_Get_EA (snd m) inst
      in if address AND 3 \<noteq> 0 then on_cpu (GenerateAlignmentException address) m
         else Write_U64 M (PS0AsU64 (snd m) (FS inst)) address m)"

definition stfdu :: "'m mmu \<Rightarrow> u32 \<Rightarrow> 'm machine \<Rightarrow> 'm machine" where
  "stfdu M inst m =
     (let address = Helper_Get_EA_U (snd m) inst
      in if address AND 3 \<noteq> 0 then on_cpu (GenerateAlignmentException address) m
         else (let m = Write_U64 M (PS0AsU64 (snd m) (FS inst)) address m
               in if \<not> DSI m then on_cpu (set_gpr (RA inst) address) m else m))"

definition stfdx :: "'m mmu \<Rightarrow> u32 \<Rightarrow> 'm machine \<Rightarrow> 'm machine" where
  "stfdx M inst m =
     (let address = Helper_Get_EA_X (snd m) inst
      in if address AND 3 \<noteq> 0 then on_cpu (GenerateAlignmentException address) m
         else Write_U64 M (PS0AsU64 (snd m) (FS inst)) address m)"

definition stfdux :: "'m mmu \<Rightarrow> u32 \<Rightarrow> 'm machine \<Rightarrow> 'm machine" where
  "stfdux M inst m =
     (let address = Helper_Get_EA_UX (snd m) inst
      in if address AND 3 \<noteq> 0 then on_cpu (GenerateAlignmentException address) m
         else (let m = Write_U64 M (PS0AsU64 (snd m) (FS inst)) address m
               in if \<not> DSI m then on_cpu (set_gpr (RA inst) address) m else m))"

definition stfiwx :: "'m mmu \<Rightarrow> u32 \<Rightarrow> 'm machine \<Rightarrow> 'm machine" where
  "stfiwx M inst m =
     (let address = Helper_Get_EA_X (snd m) inst
      in if address AND 3 \<noteq> 0 then on_cpu (GenerateAlignmentException address) m
         else Write_U32 M (ucast (PS0AsU64 (snd m) (FS inst))) address m)"

section \<open>Multiple and string transfers\<close>

text \<open>The loops over the registers run from the first one named to the last of the file.\<close>

fun lmw_loop :: "'m mmu \<Rightarrow> nat list \<Rightarrow> u32 \<Rightarrow> 'm machine \<Rightarrow> 'm machine" where
  "lmw_loop M [] address m = m"
| "lmw_loop M (i # is) address m =
     (let (temp_reg, m) = Read_U32 M address m
      in if DSI m then m
         else lmw_loop M is (address + 4) (on_cpu (set_gpr (word_of_nat i) temp_reg) m))"

definition lmw :: "'m mmu \<Rightarrow> u32 \<Rightarrow> 'm machine \<Rightarrow> 'm machine" where
  "lmw M inst m =
     (let address = Helper_Get_EA (snd m) inst
      in if address AND 3 \<noteq> 0 \<or> MSR_LE (msr (snd m)) \<noteq> 0
         then on_cpu (GenerateAlignmentException address) m
         else lmw_loop M [unat (RD inst)..<32] address m)"

fun stmw_loop :: "'m mmu \<Rightarrow> nat list \<Rightarrow> u32 \<Rightarrow> 'm machine \<Rightarrow> 'm machine" where
  "stmw_loop M [] address m = m"
| "stmw_loop M (i # is) address m =
     (let m = Write_U32 M (gpr (snd m) (word_of_nat i)) address m
      in if DSI m then m else stmw_loop M is (address + 4) m)"

definition stmw :: "'m mmu \<Rightarrow> u32 \<Rightarrow> 'm machine \<Rightarrow> 'm machine" where
  "stmw M inst m =
     (let address = Helper_Get_EA (snd m) inst
      in if address AND 3 \<noteq> 0 \<or> MSR_LE (msr (snd m)) \<noteq> 0
         then on_cpu (GenerateAlignmentException address) m
         else stmw_loop M [unat (RS inst)..<32] address m)"

definition string_count :: "PowerPCState \<Rightarrow> nat" where
  "string_count s = unat (ucast (xer_stringctrl s) :: u8)"

lemma string_count_less: "string_count s < 256"
  using unat_less [of "ucast (xer_stringctrl s) :: u8"] by (simp add: string_count_def)

function lswx_loop :: "'m mmu \<Rightarrow> u32 \<Rightarrow> nat \<Rightarrow> u32 \<Rightarrow> 'm machine \<Rightarrow> 'm machine" where
  "lswx_loop M inst n EA m =
     (if n < string_count (snd m) then
        (let reg = RD inst + word_of_nat (n div 4);
             offset = (n mod 4) * 8;
             m = (if n mod 4 = 0 then on_cpu (set_gpr reg 0) m else m);
             (byte, m) = Read_U8 M EA m;
             temp_value = push_bit (24 - offset) (ucast byte)
         in if DSI m then m
            else lswx_loop M inst (n + 1) (EA + 1)
                   (on_cpu (\<lambda>s. set_gpr reg (gpr s reg OR temp_value) s) m))
      else m)"
  by pat_completeness auto
termination
proof (relation "measure (\<lambda>(M, inst, n, EA, m). 256 - n)")
  fix n :: nat and m :: "'b machine"
  assume "n < string_count (snd m)"
  then have "n < 256" using string_count_less [of "snd m"] by simp
  then show "((M, inst, n + 1, EA', m'), (M, inst, n, EA, m)) \<in> measure (\<lambda>(M, inst, n, EA, m). 256 - n)"
    for M :: "'b mmu" and inst EA EA' :: u32 and m' :: "'b machine" by simp
qed simp

declare lswx_loop.simps [simp del]

definition lswx :: "'m mmu \<Rightarrow> u32 \<Rightarrow> 'm machine \<Rightarrow> 'm machine" where
  "lswx M inst m =
     (let EA = Helper_Get_EA_X (snd m) inst
      in if MSR_LE (msr (snd m)) \<noteq> 0 then on_cpu (GenerateAlignmentException EA) m
         else lswx_loop M inst 0 EA m)"

fun lswi_loop :: "'m mmu \<Rightarrow> nat \<Rightarrow> nat \<Rightarrow> 5 word \<Rightarrow> u32 \<Rightarrow> 'm machine \<Rightarrow> 'm machine" where
  "lswi_loop M 0 i r EA m = m"
| "lswi_loop M (Suc n) i r EA m =
     (let (r, m) = (if i = 0 then (r + 1, on_cpu (set_gpr (r + 1) 0) m) else (r, m));
          (byte, m) = Read_U8 M EA m;
          temp_value = push_bit (24 - i) (ucast byte)
      in if DSI m then m
         else (let m = on_cpu (\<lambda>s. set_gpr r (gpr s r OR temp_value) s) m;
                   i = i + 8;
                   i = (if i = 32 then 0 else i)
               in lswi_loop M n i r (EA + 1) m))"

definition lswi :: "'m mmu \<Rightarrow> u32 \<Rightarrow> 'm machine \<Rightarrow> 'm machine" where
  "lswi M inst m =
     (let EA = (if RA inst \<noteq> 0 then gpr (snd m) (RA inst) else 0)
      in if MSR_LE (msr (snd m)) \<noteq> 0 then on_cpu (GenerateAlignmentException EA) m
         else lswi_loop M (if NB inst \<noteq> 0 then unat (NB inst) else 32) 0 (RD inst - 1) EA m)"

text \<open>
  The string store: aligned 32-bit writes only, with the bytes around the string read and
  written back. The byte count is at most 255, so its sum with the misalignment stays exact.
\<close>

fun StoreString_words ::
  "'m mmu \<Rightarrow> nat \<Rightarrow> u64 \<Rightarrow> u32 \<Rightarrow> nat \<Rightarrow> 5 word \<Rightarrow> 'm machine \<Rightarrow>
     (u64 \<times> u32 \<times> nat \<times> 5 word) option \<times> 'm machine" where
  "StoreString_words M misalignment_bits current_value current_address n r m =
     (if n \<ge> 4 then
        (let current_value = current_value OR ucast (gpr (snd m) r);
             m = Write_U32 M (ucast (drop_bit misalignment_bits current_value)) current_address m
         in if DSI m then (None, m)
            else StoreString_words M misalignment_bits (push_bit 32 current_value)
                   (current_address + 4) (n - 4) (r + 1) m)
      else (Some (current_value, current_address, n, r), m))"

declare StoreString_words.simps [simp del]

definition StoreString_tail ::
  "'m mmu \<Rightarrow> nat \<Rightarrow> u64 \<Rightarrow> u32 \<Rightarrow> nat \<Rightarrow> 5 word \<Rightarrow> 'm machine \<Rightarrow> 'm machine" where
  "StoreString_tail M misalignment_bytes current_value current_address n r m =
     (if n \<noteq> 0 then
        (let current_value =
               (if n > misalignment_bytes
                then push_bit ((n - misalignment_bytes) * 8) (current_value OR ucast (gpr (snd m) r))
                else drop_bit ((misalignment_bytes - n) * 8) current_value);
             current_value = current_value AND 0xFFFFFFFF00000000;
             (word, m) = Read_U32 M current_address m;
             current_value = current_value OR ucast (push_bit (n * 8) word)
         in if DSI m then m
            else Write_U32 M (ucast (drop_bit (n * 8) current_value)) current_address m)
      else m)"

definition Helper_StoreString ::
  "'m mmu \<Rightarrow> u32 \<Rightarrow> nat \<Rightarrow> 5 word \<Rightarrow> 'm machine \<Rightarrow> 'm machine" where
  "Helper_StoreString M EA n r m =
     (let misalignment_bytes = unat (EA AND 3);
          misalignment_bits = misalignment_bytes * 8;
          current_address = EA AND NOT 3;
          (start, m) =
            (if misalignment_bytes \<noteq> 0 then
               (let (word, m) = Read_U32 M current_address m
                in if DSI m then (None, m)
                   else (Some (push_bit misalignment_bits (ucast word) AND 0xFFFFFFFF00000000,
                               n + misalignment_bytes), m))
             else (Some (0, n), m))
      in case start of
           None \<Rightarrow> m
         | Some (current_value, n) \<Rightarrow>
             (let (rest, m) = StoreString_words M misalignment_bits current_value current_address n r m
              in case rest of
                   None \<Rightarrow> m
                 | Some (current_value, current_address, n, r) \<Rightarrow>
                     StoreString_tail M misalignment_bytes current_value current_address n r m))"

definition stswi :: "'m mmu \<Rightarrow> u32 \<Rightarrow> 'm machine \<Rightarrow> 'm machine" where
  "stswi M inst m =
     (let EA = (if RA inst \<noteq> 0 then gpr (snd m) (RA inst) else 0)
      in if MSR_LE (msr (snd m)) \<noteq> 0 then on_cpu (GenerateAlignmentException EA) m
         else Helper_StoreString M EA (if NB inst = 0 then 32 else unat (NB inst)) (RS inst) m)"

definition stswx :: "'m mmu \<Rightarrow> u32 \<Rightarrow> 'm machine \<Rightarrow> 'm machine" where
  "stswx M inst m =
     (let EA = Helper_Get_EA_X (snd m) inst
      in if MSR_LE (msr (snd m)) \<noteq> 0 then on_cpu (GenerateAlignmentException EA) m
         else Helper_StoreString M EA (string_count (snd m)) (RS inst) m)"

section \<open>Reservations\<close>

definition lwarx :: "'m mmu \<Rightarrow> u32 \<Rightarrow> 'm machine \<Rightarrow> 'm machine" where
  "lwarx M inst m =
     (let address = Helper_Get_EA_X (snd m) inst
      in if address AND 3 \<noteq> 0 then on_cpu (GenerateAlignmentException address) m
         else (let (temp, m) = Read_U32 M address m
               in if \<not> DSI m
                  then on_cpu (\<lambda>s. (set_gpr (RD inst) temp s)\<lparr>reserve := True, reserve_address := address\<rparr>) m
                  else m))"

definition stwcxd :: "'m mmu \<Rightarrow> u32 \<Rightarrow> 'm machine \<Rightarrow> 'm machine" where
  "stwcxd M inst m =
     (let address = Helper_Get_EA_X (snd m) inst;
          fail = on_cpu (\<lambda>s. s\<lparr>cr := SetField 0 (GetXER_SO s) (cr s)\<rparr>)
      in if address AND 3 \<noteq> 0 then on_cpu (GenerateAlignmentException address) m
         else if reserve (snd m) \<and> address = reserve_address (snd m) then
           (let m = Write_U32 M (gpr (snd m) (RS inst)) address m
            in if \<not> DSI m
               then on_cpu (\<lambda>s. s\<lparr>reserve := False, cr := SetField 0 (2 OR GetXER_SO s) (cr s)\<rparr>) m
               else fail m)
         else fail m)"

section \<open>Cache management and devices\<close>

definition dcba :: "'m mmu \<Rightarrow> u32 \<Rightarrow> 'm machine \<Rightarrow> 'm machine" where
  "dcba M inst m = m"

definition dcbf :: "'m mmu \<Rightarrow> u32 \<Rightarrow> 'm machine \<Rightarrow> 'm machine" where
  "dcbf M inst m =
     (let address = Helper_Get_EA_X (snd m) inst
      in if \<not> m_enable_dcache (snd m) then InvalidateICacheLine M address m
         else FlushDCacheLine M address m)"

definition dcbi :: "'m mmu \<Rightarrow> u32 \<Rightarrow> 'm machine \<Rightarrow> 'm machine" where
  "dcbi M inst m =
     (if MSR_PR (msr (snd m)) \<noteq> 0 then on_cpu (GenerateProgramException PrivilegedInstruction) m
      else (let address = Helper_Get_EA_X (snd m) inst
            in if \<not> m_enable_dcache (snd m) then InvalidateICacheLine M address m
               else InvalidateDCacheLine M address m))"

definition dcbst :: "'m mmu \<Rightarrow> u32 \<Rightarrow> 'm machine \<Rightarrow> 'm machine" where
  "dcbst M inst m =
     (let address = Helper_Get_EA_X (snd m) inst
      in if \<not> m_enable_dcache (snd m) then InvalidateICacheLine M address m
         else StoreDCacheLine M address m)"

definition dcbt :: "'m mmu \<Rightarrow> u32 \<Rightarrow> 'm machine \<Rightarrow> 'm machine" where
  "dcbt M inst m = m"

definition dcbtst :: "'m mmu \<Rightarrow> u32 \<Rightarrow> 'm machine \<Rightarrow> 'm machine" where
  "dcbtst M inst m = m"

definition dcbz :: "'m mmu \<Rightarrow> u32 \<Rightarrow> 'm machine \<Rightarrow> 'm machine" where
  "dcbz M inst m =
     (let dcbz_addr = Helper_Get_EA_X (snd m) inst
      in if HID0_DCE (spr (snd m) SPR_HID0) = 0 then on_cpu (GenerateAlignmentException dcbz_addr) m
         else if \<not> m_enable_dcache (snd m) \<and> dcbz_addr < 0x80008000 \<and> dcbz_addr \<ge> 0x80000000 \<and>
                 MAIN_LOW_DCBZ_HACK M
         then m
         else ClearDCacheLine M (dcbz_addr AND NOT 31) m)"

definition dcbz_l :: "'m mmu \<Rightarrow> u32 \<Rightarrow> 'm machine \<Rightarrow> 'm machine" where
  "dcbz_l M inst m =
     (if HID2_LCE (spr (snd m) SPR_HID2) = 0
      then on_cpu (GenerateProgramException IllegalInstruction) m
      else (let address = Helper_Get_EA_X (snd m) inst
            in if HID0_DCE (spr (snd m) SPR_HID0) = 0
               then on_cpu (GenerateAlignmentException address) m
               else ClearDCacheLine M (address AND NOT 31) m))"

definition eciwx :: "'m mmu \<Rightarrow> u32 \<Rightarrow> 'm machine \<Rightarrow> 'm machine" where
  "eciwx M inst m =
     (let EA = Helper_Get_EA_X (snd m) inst
      in if spr (snd m) SPR_EAR AND 0x80000000 = 0 then on_cpu (GenerateDSIException EA) m
         else if EA AND 3 \<noteq> 0 then on_cpu (GenerateAlignmentException EA) m
         else (let (temp, m) = Read_U32 M EA m in on_cpu (set_gpr (RD inst) temp) m))"

definition ecowx :: "'m mmu \<Rightarrow> u32 \<Rightarrow> 'm machine \<Rightarrow> 'm machine" where
  "ecowx M inst m =
     (let EA = Helper_Get_EA_X (snd m) inst
      in if spr (snd m) SPR_EAR AND 0x80000000 = 0 then on_cpu (GenerateDSIException EA) m
         else if EA AND 3 \<noteq> 0 then on_cpu (GenerateAlignmentException EA) m
         else Write_U32 M (gpr (snd m) (RS inst)) EA m)"

definition eieio :: "'m mmu \<Rightarrow> u32 \<Rightarrow> 'm machine \<Rightarrow> 'm machine" where
  "eieio M inst m = m"

definition icbi :: "'m mmu \<Rightarrow> u32 \<Rightarrow> 'm machine \<Rightarrow> 'm machine" where
  "icbi M inst m = (let address = Helper_Get_EA_X (snd m) inst in iCache_Invalidate M address m)"

definition ppc_sync :: "'m mmu \<Rightarrow> u32 \<Rightarrow> 'm machine \<Rightarrow> 'm machine" where
  "ppc_sync M inst m = m"

definition tlbie :: "'m mmu \<Rightarrow> u32 \<Rightarrow> 'm machine \<Rightarrow> 'm machine" where
  "tlbie M inst m =
     (if MSR_PR (msr (snd m)) \<noteq> 0 then on_cpu (GenerateProgramException PrivilegedInstruction) m
      else (let address = gpr (snd m) (RB inst) in InvalidateTLBEntry M address m))"

definition tlbsync :: "'m mmu \<Rightarrow> u32 \<Rightarrow> 'm machine \<Rightarrow> 'm machine" where
  "tlbsync M inst m =
     (if MSR_PR (msr (snd m)) \<noteq> 0 then on_cpu (GenerateProgramException PrivilegedInstruction) m
      else m)"

lemmas load_defs = lbz_def lbzu_def lbzx_def lbzux_def lhz_def lhzu_def lhzx_def lhzux_def lha_def
  lhau_def lhax_def lhaux_def lwz_def lwzu_def lwzx_def lwzux_def lhbrx_def lwbrx_def

lemmas float_load_defs = lfs_def lfsu_def lfsx_def lfsux_def lfd_def lfdu_def lfdx_def lfdux_def

lemmas store_defs = stb_def stbu_def stbx_def stbux_def sth_def sthu_def sthx_def sthux_def
  stw_def stwu_def stwx_def stwux_def sthbrx_def stwbrx_def

lemmas float_store_defs = stfs_def stfsu_def stfsx_def stfsux_def stfd_def stfdu_def stfdx_def
  stfdux_def stfiwx_def

lemmas EA_defs = Helper_Get_EA_def Helper_Get_EA_U_def Helper_Get_EA_X_def Helper_Get_EA_UX_def


end
