(* ===== verification/Float_Convert.thy ===== *)
theory Float_Convert
  imports Interpreter_LoadStore
begin

lemma bit_le_unat: "bit (w :: 'a::len word) n \<Longrightarrow> 2 ^ n \<le> unat w"
proof (rule ccontr)
  assume b: "bit w n" and "\<not> 2 ^ n \<le> unat w"
  then have "take_bit n (unat w) = unat w" by (simp add: take_bit_nat_eq_self)
  then have "\<not> bit (unat w) n" by (metis bit_take_bit_iff less_irrefl)
  with b show False by (simp add: bit_unsigned_iff bit_imp_le_length)
qed

lemma bit_unat_odd: "bit (w :: 'a::len word) n \<longleftrightarrow> odd (unat w div 2 ^ n)"
  by (metis bit_iff_odd bit_unsigned_iff possible_bit_nat)

lemma float_masks:
  "bit (0x3fffffff :: u64) n \<longleftrightarrow> n < 30" "bit (0xc0000000 :: u64) n \<longleftrightarrow> n = 30 \<or> n = 31"
  "bit (0x7ff :: u64) n \<longleftrightarrow> n < 11" "bit (0x80000000 :: u64) n \<longleftrightarrow> n = 31"
  "bit (0x007fffff :: u64) n \<longleftrightarrow> n < 23" "bit DOUBLE_FRAC n \<longleftrightarrow> n < 52"
  "bit DOUBLE_SIGN n \<longleftrightarrow> n = 63"
proof -
  have m: "(0x3fffffff :: u64) = mask 30" "(0xc0000000 :: u64) = push_bit 30 (mask 2)"
    "(0x7ff :: u64) = mask 11" "(0x80000000 :: u64) = push_bit 31 (mask 1)"
    "(0x007fffff :: u64) = mask 23" "DOUBLE_FRAC = mask 52" "DOUBLE_SIGN = push_bit 63 (mask 1)"
    by (simp_all add: mask_eq_exp_minus_1 push_bit_eq_mult DOUBLE_FRAC_def DOUBLE_SIGN_def)
  show "bit (0x3fffffff :: u64) n \<longleftrightarrow> n < 30" "bit (0xc0000000 :: u64) n \<longleftrightarrow> n = 30 \<or> n = 31"
    "bit (0x7ff :: u64) n \<longleftrightarrow> n < 11" "bit (0x80000000 :: u64) n \<longleftrightarrow> n = 31"
    "bit (0x007fffff :: u64) n \<longleftrightarrow> n < 23" "bit DOUBLE_FRAC n \<longleftrightarrow> n < 52"
    "bit DOUBLE_SIGN n \<longleftrightarrow> n = 63"
    unfolding m bit_push_bit_iff bit_mask_iff by auto
qed

lemma bit_push_of_bool: "bit (push_bit k (of_bool b) :: 'a::len word) n \<longleftrightarrow> n = k \<and> k < LENGTH('a) \<and> b"
  by (auto simp: bit_simps)

lemmas float_bits = bit_push_of_bool bit_or_iff bit_and_iff
  bit_push_bit_iff bit_drop_bit_eq bit_unsigned_iff bit_take_bit_iff

lemma recombine:
  fixes x :: u32 and A B C d :: u64
  assumes d: "d = push_bit 32 (ucast x AND A) OR
      (push_bit 61 (of_bool b) OR push_bit 60 (of_bool b) OR push_bit 59 (of_bool b)) OR
      push_bit 29 (ucast x AND B)"
    and A: "\<And>n. bit A n \<longleftrightarrow> n = 30 \<or> n = 31" and B: "\<And>n. bit B n \<longleftrightarrow> n < 30"
    and C: "\<And>n. bit C n \<longleftrightarrow> n < 11"
  shows "ucast ((drop_bit 32 d AND A) OR (drop_bit 29 d AND B)) = x"
    and "drop_bit 52 d AND C = push_bit 10 (of_bool (bit x 30)) OR
      push_bit 7 (of_bool b) OR push_bit 8 (of_bool b) OR push_bit 9 (of_bool b) OR
      take_bit 7 (drop_bit 23 (ucast x))"
proof -
  show "ucast ((drop_bit 32 d AND A) OR (drop_bit 29 d AND B)) = x"
  proof (rule bit_word_eqI)
    fix n assume n: "n < LENGTH(32)"
    consider "n < 30" | "n = 30" | "n = 31" using n by fastforce
    then show "bit (ucast ((drop_bit 32 d AND A) OR (drop_bit 29 d AND B)) :: u32) n = bit x n"
      by cases (auto simp: d A B float_bits)
  qed
  show "drop_bit 52 d AND C = push_bit 10 (of_bool (bit x 30)) OR
      push_bit 7 (of_bool b) OR push_bit 8 (of_bool b) OR push_bit 9 (of_bool b) OR
      take_bit 7 (drop_bit 23 (ucast x))" (is "?l = ?r")
  proof (rule bit_word_eqI)
    fix n assume "n < LENGTH(64)"
    consider "n < 7" | "n = 7" | "n = 8" | "n = 9" | "n = 10" | "10 < n" by linarith
    then show "bit ?l n = bit ?r n"
      by cases (simp_all add: d A B C float_bits bit_1_iff)
  qed
qed

lemma exponent_large:
  fixes x :: u32
  assumes e: "e = push_bit 10 (of_bool (bit x 30)) OR push_bit 7 (of_bool b) OR push_bit 8 (of_bool b) OR
      push_bit 9 (of_bool b) OR take_bit 7 (drop_bit 23 (ucast x :: u64))"
    and "bit x 30 \<or> b \<and> take_bit 7 (drop_bit 23 (ucast x :: u64)) \<noteq> 0"
  shows "896 < unat e"
proof (cases "bit x 30")
  case True
  then have "bit e 10" by (simp add: e float_bits)
  from bit_le_unat [OF this] show ?thesis by simp
next
  case False
  define t where "t = take_bit 7 (drop_bit 23 (ucast x :: u64))"
  have b: "b" "t \<noteq> 0" using assms(2) False by (auto simp: t_def)
  have "e = 896 OR t" using b False by (simp add: e t_def or.assoc [symmetric])
  moreover have "(896 :: u64) AND t = 0"
  proof (rule bit_word_eqI)
    have "(896 :: u64) = push_bit 7 7" by simp
    then show "bit ((896 :: u64) AND t) n = bit 0 n" for n
      unfolding t_def by (simp only: bit_and_iff bit_push_bit_iff bit_take_bit_iff) auto
  qed
  ultimately have "e = 896 + t" by (simp add: disjunctive_add_eq_or)
  moreover have "unat t < 128" using take_bit_nat_less_exp [of 7 "unat (drop_bit 23 (ucast x :: u64))"]
    by (simp add: t_def unsigned_take_bit_eq)
  moreover have "0 < unat t" using b by (simp add: unat_gt_0)
  ultimately show ?thesis by (simp add: unat_word_ariths)
qed

lemma ConvertToSingle_direct:
  assumes "unat (drop_bit 52 d AND 0x7ff) = 0 \<or> 896 < unat (drop_bit 52 d AND 0x7ff)"
  shows "ConvertToSingle d = ucast ((drop_bit 32 d AND 0xc0000000) OR (drop_bit 29 d AND 0x3fffffff))"
  using assms by (auto simp: ConvertToSingle_def Let_def)

text \<open>The normalisation of a subnormal fraction.\<close>

lemma normalize_shift:
  assumes "0 < unat f" "unat f < 2 ^ 23" "2 ^ 23 \<le> unat f * 2 ^ fuel" "fuel \<le> 23"
  shows "\<exists>k. 1 \<le> k \<and> k \<le> fuel \<and> normalize fuel e f = (e - word_of_nat k, push_bit k f) \<and>
    bit (push_bit k f) 23 \<and> unat f * 2 ^ k < 2 ^ 24"
  using assms
proof (induction fuel arbitrary: e f)
  case (Suc n)
  let ?g = "push_bit 1 f"
  have g: "unat ?g = 2 * unat f" using Suc.prems(2) by (simp add: push_bit_eq_mult unat_word_ariths)
  have top: "bit ?g 23 \<longleftrightarrow> 2 ^ 23 \<le> unat ?g"
  proof -
    have "bit ?g 23 \<longleftrightarrow> odd (unat ?g div 2 ^ 23)"
      by (rule bit_unat_odd)
    moreover have "unat ?g div 2 ^ 23 = (if 2 ^ 23 \<le> unat ?g then 1 else 0)"
      using g Suc.prems(2) by (auto simp: div_nat_eqI)
    ultimately show ?thesis by simp
  qed
  have test: "?g AND 0x00800000 = 0 \<longleftrightarrow> \<not> bit ?g 23"
    using and_exp_eq_0_iff_not_bit [of ?g 23] by simp
  show ?case
  proof (cases "bit ?g 23")
    case True
    then show ?thesis using Suc.prems(2) g test by (intro exI [of _ 1]) auto
  next
    case False
    then have small: "unat ?g < 2 ^ 23" using top by simp
    have n: "0 < n"
    proof (rule ccontr)
      assume "\<not> 0 < n"
      then show False using Suc.prems(3) g small by simp
    qed
    obtain k where k: "1 \<le> k" "k \<le> n" "normalize n (e - 1) ?g = (e - 1 - word_of_nat k, push_bit k ?g)"
        "bit (push_bit k ?g) 23" "unat ?g * 2 ^ k < 2 ^ 24"
      using Suc.IH [of ?g "e - 1"] small g Suc.prems by (auto simp: mult_ac)
    have "normalize (Suc n) e f = (e - word_of_nat (Suc k), push_bit (Suc k) f)"
      using k(3) False test by (simp add: Let_def algebra_simps)
    moreover have "push_bit k ?g = push_bit (Suc k) f" by simp
    ultimately show ?thesis using k g by (intro exI [of _ "Suc k"]) (auto simp: mult_ac)
  qed
qed simp

lemma subnormal_back:
  fixes x :: u32 and f :: u64
  assumes f: "f = ucast x AND F" and e0: "take_bit 8 (drop_bit 23 x) = 0"
    and g: "bit (push_bit k f) 23" "unat f * 2 ^ k < 2 ^ 24"
    and k: "1 \<le> k" "k \<le> 23"
    and F: "\<And>n. bit F n \<longleftrightarrow> n < 23"
    and d: "d = push_bit 32 (ucast x AND S) OR push_bit 52 (897 - word_of_nat k) OR push_bit 29 (push_bit k f AND F)"
    and S: "\<And>n. bit S n \<longleftrightarrow> n = 31" and C: "\<And>n. bit C n \<longleftrightarrow> n < 11"
  shows "unat (drop_bit 52 d AND C) = 897 - k"
    and "d AND NOT DOUBLE_SIGN \<noteq> 0"
    and "drop_bit (8 + k) (ucast (S OR drop_bit 21 (d AND DOUBLE_FRAC)) :: u32) OR
      ucast (drop_bit 32 d AND S) = x"
proof -
  define E :: u64 where "E = 897 - word_of_nat k"
  have uE: "unat E = 897 - k"
  proof -
    have "E = word_of_nat (897 - k)" using k by (simp add: E_def of_nat_diff)
    then show ?thesis
      by (simp only: unsigned_of_nat) (use k in \<open>simp add: take_bit_nat_eq_self\<close>)
  qed
  have E: "bit E n \<Longrightarrow> n < 11" for n
    using bit_le_unat [of E n] uE power_increasing [of 11 n "2 :: nat"] by fastforce
  have fb: "bit f n \<longleftrightarrow> n < 23 \<and> bit x n" for n by (auto simp: f F float_bits)
  have gb: "bit (push_bit k f) n \<Longrightarrow> n < 24" for n
  proof -
    assume "bit (push_bit k f) n"
    moreover have "unat (push_bit k f) = unat f * 2 ^ k" 
      using g(2) by (simp only: unsigned_push_bit_eq) (simp add: push_bit_eq_mult take_bit_nat_eq_self)
    ultimately have "2 ^ n \<le> unat f * 2 ^ k" using bit_le_unat by metis
    then have "(2 :: nat) ^ n < 2 ^ 24" using g(2) by simp
    then show "n < 24" by (rule power_less_imp_less_exp [rotated]) simp
  qed
  have x: "bit x n \<Longrightarrow> n < 23 \<or> n = 31" for n
  proof (rule ccontr)
    assume b: "bit x n" and "\<not> (n < 23 \<or> n = 31)"
    moreover have "n < 32" using b bit_imp_le_length by fastforce
    ultimately have "bit (take_bit 8 (drop_bit 23 x)) (n - 23)" by (auto simp: bit_simps)
    with e0 show False by simp
  qed
  have db: "bit d n \<longleftrightarrow> n = 63 \<and> bit x 31 \<or> 52 \<le> n \<and> n < 64 \<and> bit E (n - 52) \<or>
      29 \<le> n \<and> n < 52 \<and> bit (push_bit k f) (n - 29)" for n
    by (auto simp: d E_def [symmetric] float_bits F S simp del: push_bit_push_bit dest: E)
  have exp: "drop_bit 52 d AND C = E"
  proof (rule bit_word_eqI)
    fix n show "bit (drop_bit 52 d AND C) n = bit E n"
      by (cases "n < 11") (auto simp: bit_and_iff bit_drop_bit_eq float_masks C db dest: E)
  qed
  then show "unat (drop_bit 52 d AND C) = 897 - k" using uE by simp
  show "d AND NOT DOUBLE_SIGN \<noteq> 0"
  proof
    assume "d AND NOT DOUBLE_SIGN = 0"
    then have "drop_bit 52 (d AND NOT DOUBLE_SIGN) AND C = 0" by simp
    moreover have "drop_bit 52 (d AND NOT DOUBLE_SIGN) AND C = E"
    proof (rule bit_word_eqI)
      fix n show "bit (drop_bit 52 (d AND NOT DOUBLE_SIGN) AND C) n = bit E n"
        by (cases "n < 11")
          (auto simp: bit_and_iff bit_drop_bit_eq bit_not_iff float_masks C db dest: E)
    qed
    ultimately show False using uE k by simp
  qed
  show "drop_bit (8 + k) (ucast (S OR drop_bit 21 (d AND DOUBLE_FRAC)) :: u32) OR
      ucast (drop_bit 32 d AND S) = x" (is "?l = x")
  proof (rule bit_word_eqI)
    fix n assume n: "n < LENGTH(32)"
    have t: "bit (ucast (S OR drop_bit 21 (d AND DOUBLE_FRAC)) :: u32) j \<longleftrightarrow>
        8 \<le> j \<and> j < 32 \<and> bit (push_bit k f) (j - 8)" for j
      using g(1) gb [of "j - 8"] by (cases "j = 31") (auto simp: float_bits float_masks S db simp del: push_bit_push_bit)
    let ?t = "ucast (S OR drop_bit 21 (d AND DOUBLE_FRAC)) :: u32"
    have "bit (drop_bit (8 + k) ?t) n \<longleftrightarrow> n + k < 24 \<and> bit f n"
      using t [of "8 + k + n"] fb [of n] by (auto simp: bit_drop_bit_eq bit_push_bit_iff)
    moreover have "bit (ucast (drop_bit 32 d AND S) :: u32) n \<longleftrightarrow> n = 31 \<and> bit x 31"
    proof (cases "n = 31")
      case True
      have "\<not> bit E 11" using E by blast
      then have "bit d 63 \<longleftrightarrow> bit x 31" by (simp add: db)
      then show ?thesis using True S [of 31] by (simp add: bit_unsigned_iff bit_and_iff bit_drop_bit_eq)
    next
      case False
      then show ?thesis using S [of n] by (simp add: bit_unsigned_iff bit_and_iff)
    qed
    ultimately have "bit ?l n \<longleftrightarrow> n + k < 24 \<and> bit f n \<or> n = 31 \<and> bit x 31"
      by (simp only: bit_or_iff)
    also have "\<dots> \<longleftrightarrow> bit x n"
      using x [of n] gb [of "n + k"] k n by (auto simp: fb bit_push_bit_iff)
    finally show "bit ?l n = bit x n" .
  qed
qed

lemma value_exponent:
  "drop_bit 23 (ucast x) AND 0xff = (ucast (take_bit 8 (drop_bit 23 x)) :: u64)" for x :: u32
proof -
  have "drop_bit 23 (ucast x) AND 0xff = (take_bit 8 (drop_bit 23 (ucast x)) :: u64)"
    by (simp add: take_bit_eq_mask mask_eq_exp_minus_1)
  also have "\<dots> = ucast (take_bit 8 (drop_bit 23 x))" by (rule bit_word_eqI) (auto simp: bit_simps)
  finally show ?thesis .
qed

lemma subnormal_round_trip:
  assumes subnormal: "drop_bit 23 (ucast x) AND 0xff = (0 :: u64)" "ucast x AND 0x007fffff \<noteq> (0 :: u64)"
  shows "ConvertToSingle (ConvertToDouble x) = x"
proof -
  let ?f = "ucast x AND 0x007fffff :: u64"
  have "?f = take_bit 23 (ucast x)" by (simp add: take_bit_eq_mask mask_eq_exp_minus_1)
  then have f: "0 < unat ?f" "unat ?f < 2 ^ 23"
    using subnormal take_bit_nat_less_exp [of 23 "unat (ucast x :: u64)"]
    by (metis unat_gt_0, metis unsigned_take_bit_eq)
  obtain k where k: "1 \<le> k" "k \<le> 23" "normalize 23 (1023 - 126) ?f = (1023 - 126 - word_of_nat k, push_bit k ?f)"
      "bit (push_bit k ?f) 23" "unat ?f * 2 ^ k < 2 ^ 24"
    using normalize_shift [of ?f 23 "1023 - 126"] f by auto
  let ?d = "push_bit 32 (ucast x AND 0x80000000) OR push_bit 52 (897 - word_of_nat k) OR
      push_bit 29 (push_bit k ?f AND 0x007fffff) :: u64"
  have d: "ConvertToDouble x = ?d"
    using subnormal k(3) by (simp add: ConvertToDouble_def Let_def)
  have e0: "take_bit 8 (drop_bit 23 x) = 0"
  proof (rule bit_word_eqI)
    fix n assume "n < LENGTH(32)"
    moreover have "\<not> bit (ucast (take_bit 8 (drop_bit 23 x)) :: u64) n" using subnormal value_exponent [of x] by simp
    ultimately show "bit (take_bit 8 (drop_bit 23 x)) n = bit 0 n" by (simp add: bit_unsigned_iff)
  qed
  note sb = subnormal_back [OF refl e0 k(4,5,1,2) float_masks(5) refl float_masks(4,3)]
  have "ConvertToSingle ?d =
      drop_bit (8 + k) (ucast (0x80000000 OR drop_bit 21 (?d AND DOUBLE_FRAC))) OR
      ucast (drop_bit 32 ?d AND 0x80000000)"
    using sb(1,2) k(1,2) by (simp add: ConvertToSingle_def Let_def)
  then show ?thesis using sb(3) d by simp
qed

lemma direct_round_trip:
  assumes direct: "\<not> (drop_bit 23 (ucast x) AND 0xff = (0 :: u64) \<and> ucast x AND 0x007fffff \<noteq> (0 :: u64))"
  shows "ConvertToSingle (ConvertToDouble x) = x"
proof -
  let ?e = "drop_bit 23 (ucast x) AND 0xff :: u64"
  note e = value_exponent [of x]
  have top: "drop_bit 7 ?e = of_bool (bit x 30)"
    unfolding e by (rule bit_word_eqI) (auto simp: bit_simps bit_of_bool_iff)
  define b where "b \<longleftrightarrow> (if 0 < ?e \<and> ?e < 255 then \<not> bit x 30 else bit x 30)"
  let ?d = "push_bit 32 (ucast x AND 0xc0000000) OR
    (push_bit 61 (of_bool b) OR push_bit 60 (of_bool b) OR push_bit 59 (of_bool b)) OR
    push_bit 29 (ucast x AND 0x3fffffff) :: u64"
  have d: "ConvertToDouble x = ?d"
    using direct top by (auto simp: ConvertToDouble_def Let_def b_def)
  note r = recombine [OF refl float_masks(2,1,3), of x b]
  let ?t = "take_bit 7 (drop_bit 23 (ucast x)) :: u64"
  have "unat (drop_bit 52 ?d AND 0x7ff) = 0 \<or> 896 < unat (drop_bit 52 ?d AND 0x7ff)"
  proof (cases "bit x 30 \<or> b \<and> ?t \<noteq> 0")
    case True
    show ?thesis using exponent_large [OF r(2) True] by (rule disjI2)
  next
    case small: False
    have "?e = ?t"
    proof (rule bit_word_eqI)
      fix n
      have "bit ?e n \<longleftrightarrow> n < 8 \<and> bit x (23 + n)" unfolding e by (auto simp: bit_simps)
      moreover have "bit ?t n \<longleftrightarrow> n < 7 \<and> bit x (23 + n)"
        by (auto simp: bit_simps dest: bit_imp_le_length)
      moreover have "n < 8 \<longleftrightarrow> n < 7 \<or> n = 7" by linarith
      ultimately show "bit ?e n = bit ?t n" using small by fastforce
    qed
    then have "\<not> b" using small by (metis b_def word_gt_0)
    moreover have "unat ?t < 128" using take_bit_nat_less_exp [of 7 "unat (drop_bit 23 (ucast x :: u64))"]
      by (simp add: unsigned_take_bit_eq)
    then have "?e < 255" unfolding \<open>?e = ?t\<close> by (simp add: word_less_nat_alt)
    with \<open>\<not> b\<close> small have "?e = 0" by (metis b_def word_gt_0)
    then have t: "?t = 0" using \<open>?e = ?t\<close> by simp
    have "drop_bit 52 ?d AND 0x7ff = 0"
      unfolding r(2) t using small \<open>\<not> b\<close> by (simp only: of_bool_eq push_bit_of_0 or.right_neutral simp_thms)
    then show ?thesis by (simp only: unsigned_0 simp_thms)
  qed
  from ConvertToSingle_direct [OF this] show ?thesis by (simp only: d r(1))
qed

text \<open>
  (C23) Loading a single-precision value and storing it again gives back its 32 bits, for every
  bit pattern: normal numbers, zeros, infinities, not-a-numbers and the subnormal ones that the
  load normalises and the store shifts back.
\<close>

theorem single_double_single: "ConvertToSingle (ConvertToDouble x) = x"
  using subnormal_round_trip direct_round_trip by blast

end
