(* ===== verification/Memory_Management.thy ===== *)
theory Memory_Management
  imports Interpreter_LoadStore
begin

text \<open>
  The memory management unit of the processor, \<^verbatim>\<open>Core/PowerPC/MMU.{h,cpp}\<close>: translation
  through the block address tables, the translation look-aside buffer and the hashed page table,
  and the accesses to physical memory behind it, with the page crossings, the exceptions and the
  writes that hardware duplicates. The devices behind the physical address space (frame buffer,
  memory-mapped registers, gather pipe), the caches and the host mappings of the JIT are the
  argument \<open>P\<close>; each of them may act on the whole machine.
\<close>

section \<open>State\<close>

record TLBEntry =
  tlb_tag :: "nat \<Rightarrow> u32"
  tlb_paddr :: "nat \<Rightarrow> u32"
  tlb_vsid :: "nat \<Rightarrow> u32"
  tlb_pte :: "nat \<Rightarrow> u32"
  tlb_recent :: u32

definition INVALID_TAG :: u32 where "INVALID_TAG = 0xffffffff"

definition TLB_Invalidate :: "TLBEntry \<Rightarrow> TLBEntry" where
  "TLB_Invalidate e = e\<lparr>tlb_tag := (\<lambda>_. INVALID_TAG)\<rparr>"

text \<open>
  The memories are arrays with offsets as indices. The look-aside buffer has one half for data
  and one for instructions (\<open>True\<close>).
\<close>

record 'd memory =
  RAM :: "u32 \<Rightarrow> u8"
  EXRAM :: "u32 \<Rightarrow> u8"
  L1Cache :: "u32 \<Rightarrow> u8"
  FakeVMEM :: "u32 \<Rightarrow> u8"
  m_dbat_table :: "15 word \<Rightarrow> u32"
  m_ibat_table :: "15 word \<Rightarrow> u32"
  tlb :: "bool \<Rightarrow> 6 word \<Rightarrow> TLBEntry"
  pagetable_base :: u32
  pagetable_mask :: u32
  device :: 'd

type_synonym 'd sys = "'d memory machine"

record 'd platform =
  HasEXRAM :: bool
  HasL1Cache :: bool
  HasFakeVMEM :: bool
  GetRamMask :: u32
  GetRamSizeReal :: u32
  GetExRamSizeReal :: u32
  GetExRamMask :: u32
  GetL1CacheSize :: u32
  GetFakeVMemMask :: u32
  IsMMUMode :: bool
  IsPauseOnPanicMode :: bool
  IsWii :: bool
  WantsPageTableMappings :: bool
  PeekDepth :: "u32 \<Rightarrow> u32 \<Rightarrow> 'd sys \<Rightarrow> u32 \<times> 'd sys"
  PeekColor :: "u32 \<Rightarrow> u32 \<Rightarrow> 'd sys \<Rightarrow> u32 \<times> 'd sys"
  PokeDepth :: "u32 \<Rightarrow> u32 \<Rightarrow> u32 \<Rightarrow> 'd sys \<Rightarrow> 'd sys"
  PokeColor :: "u32 \<Rightarrow> u32 \<Rightarrow> u32 \<Rightarrow> 'd sys \<Rightarrow> 'd sys"
  MMIO_Read :: "nat \<Rightarrow> u32 \<Rightarrow> 'd sys \<Rightarrow> u64 \<times> 'd sys"
  MMIO_Write :: "nat \<Rightarrow> u32 \<Rightarrow> u32 \<Rightarrow> 'd sys \<Rightarrow> 'd sys"
  GPFifo_Write8 :: "u8 \<Rightarrow> 'd sys \<Rightarrow> 'd sys"
  GPFifo_Write16 :: "u16 \<Rightarrow> 'd sys \<Rightarrow> 'd sys"
  GPFifo_Write32 :: "u32 \<Rightarrow> 'd sys \<Rightarrow> 'd sys"
  SetInterrupt_PI :: "'d sys \<Rightarrow> 'd sys"
  CPU_Break :: "'d sys \<Rightarrow> 'd sys"
  dCache_Read :: "u32 \<Rightarrow> nat \<Rightarrow> bool \<Rightarrow> 'd sys \<Rightarrow> u8 list \<times> 'd sys"
  dCache_Write :: "u32 \<Rightarrow> u8 list \<Rightarrow> bool \<Rightarrow> 'd sys \<Rightarrow> 'd sys"
  dCache_Store :: "u32 \<Rightarrow> 'd sys \<Rightarrow> 'd sys"
  dCache_Invalidate :: "u32 \<Rightarrow> 'd sys \<Rightarrow> 'd sys"
  dCache_Flush :: "u32 \<Rightarrow> 'd sys \<Rightarrow> 'd sys"
  dCache_Touch :: "u32 \<Rightarrow> bool \<Rightarrow> 'd sys \<Rightarrow> 'd sys"
  iCache_ReadInstruction :: "u32 \<Rightarrow> 'd sys \<Rightarrow> u32 \<times> 'd sys"
  memcheck_pauses :: "u32 \<Rightarrow> u64 \<Rightarrow> bool \<Rightarrow> nat \<Rightarrow> 'd sys \<Rightarrow> bool \<times> 'd sys"
  HasMemChecks :: bool
  OverlapsMemcheck :: "u32 \<Rightarrow> u32 \<Rightarrow> bool"
  host_PageTableUpdated :: "'d sys \<Rightarrow> 'd sys"
  host_ClearPageTable :: "'d sys \<Rightarrow> 'd sys"
  host_ReloadPageTable :: "'d sys \<Rightarrow> 'd sys"
  host_UpdateDBATMappings :: "'d sys \<Rightarrow> 'd sys"
  JIT_ClearSafe :: "'d sys \<Rightarrow> 'd sys"
  JIT_InvalidateICacheLine :: "u32 \<Rightarrow> 'd sys \<Rightarrow> 'd sys"
  JIT_iCache_Invalidate :: "u32 \<Rightarrow> 'd sys \<Rightarrow> 'd sys"
  DCBZ_HACK :: bool

definition on_memory :: "('d memory \<Rightarrow> 'd memory) \<Rightarrow> 'd sys \<Rightarrow> 'd sys" where
  "on_memory f m = (f (fst m), snd m)"

datatype XCheckTLBFlag = NoException | Read | Write | Opcode | OpcodeNoException

definition IsOpcodeFlag :: "XCheckTLBFlag \<Rightarrow> bool" where
  "IsOpcodeFlag flag \<longleftrightarrow> flag = Opcode \<or> flag = OpcodeNoException"

definition IsNoExceptionFlag :: "XCheckTLBFlag \<Rightarrow> bool" where
  "IsNoExceptionFlag flag \<longleftrightarrow> flag = NoException \<or> flag = OpcodeNoException"

definition BAT_INDEX_SHIFT :: nat where "BAT_INDEX_SHIFT = 17"
definition BAT_PAGE_SIZE :: u32 where "BAT_PAGE_SIZE = push_bit BAT_INDEX_SHIFT 1"
definition BAT_MAPPED_BIT :: u32 where "BAT_MAPPED_BIT = 1"
definition BAT_PHYSICAL_BIT :: u32 where "BAT_PHYSICAL_BIT = 2"
definition BAT_WI_BIT :: u32 where "BAT_WI_BIT = 4"
definition BAT_RESULT_MASK :: u32 where "BAT_RESULT_MASK = NOT 7"
definition HW_PAGE_MASK :: u32 where "HW_PAGE_MASK = 4096 - 1"
definition HW_PAGE_INDEX_SHIFT :: nat where "HW_PAGE_INDEX_SHIFT = 12"
definition GATHER_PIPE_PHYSICAL_ADDRESS :: u32 where "GATHER_PIPE_PHYSICAL_ADDRESS = 0x0C008000"

definition SPR_DSISR :: spr_index where "SPR_DSISR = 18"
definition HID0_DLOCK :: "u32 \<Rightarrow> u32" where "HID0_DLOCK = field_get 12 1"
definition HID4_SBE :: "u32 \<Rightarrow> u32" where "HID4_SBE = field_get 25 1"
definition SDR1_htabmask :: "u32 \<Rightarrow> u32" where "SDR1_htabmask = field_get 0 9"
definition SDR1_htaborg :: "u32 \<Rightarrow> u32" where "SDR1_htaborg = field_get 16 16"
definition BATU_VP :: "u32 \<Rightarrow> u32" where "BATU_VP = field_get 0 1"
definition BATU_VS :: "u32 \<Rightarrow> u32" where "BATU_VS = field_get 1 1"
definition BATU_BL :: "u32 \<Rightarrow> u32" where "BATU_BL = field_get 2 11"
definition BATU_BEPI :: "u32 \<Rightarrow> u32" where "BATU_BEPI = field_get 17 15"
definition BATL_WIMG :: "u32 \<Rightarrow> u32" where "BATL_WIMG = field_get 3 4"
definition BATL_BRPN :: "u32 \<Rightarrow> u32" where "BATL_BRPN = field_get 17 15"
definition SR_VSID :: "u32 \<Rightarrow> u32" where "SR_VSID = field_get 0 24"
definition SR_N :: "u32 \<Rightarrow> u32" where "SR_N = field_get 28 1"
definition SR_T :: "u32 \<Rightarrow> u32" where "SR_T = field_get 31 1"
definition PTE_set_API :: "u32 \<Rightarrow> u32 \<Rightarrow> u32" where "PTE_set_API = field_set 0 6"
definition PTE_set_H :: "u32 \<Rightarrow> u32 \<Rightarrow> u32" where "PTE_set_H = field_set 6 1"
definition PTE_set_VSID :: "u32 \<Rightarrow> u32 \<Rightarrow> u32" where "PTE_set_VSID = field_set 7 24"
definition PTE_set_V :: "u32 \<Rightarrow> u32 \<Rightarrow> u32" where "PTE_set_V = field_set 31 1"
definition PTE_WIMG :: "u32 \<Rightarrow> u32" where "PTE_WIMG = field_get 3 4"
definition PTE_C :: "u32 \<Rightarrow> u32" where "PTE_C = field_get 7 1"
definition PTE_set_C :: "u32 \<Rightarrow> u32 \<Rightarrow> u32" where "PTE_set_C = field_set 7 1"
definition PTE_set_R :: "u32 \<Rightarrow> u32 \<Rightarrow> u32" where "PTE_set_R = field_set 8 1"
definition PTE_RPN :: "u32 \<Rightarrow> u32" where "PTE_RPN = field_get 12 20"
definition EA_offset :: "u32 \<Rightarrow> u32" where "EA_offset = field_get 0 12"
definition EA_page_index :: "u32 \<Rightarrow> u32" where "EA_page_index = field_get 12 16"
definition EA_API :: "u32 \<Rightarrow> u32" where "EA_API = field_get 22 6"
definition EA_SR :: "u32 \<Rightarrow> 4 word" where "EA_SR a = ucast (drop_bit 28 a)"

section \<open>Access to memories\<close>

text \<open>\<^verbatim>\<open>memcpy\<close> from and to a memory, and the swap of a value of \<open>n\<close> bytes.\<close>

definition copy_from :: "(u32 \<Rightarrow> u8) \<Rightarrow> u32 \<Rightarrow> nat \<Rightarrow> u8 list" where
  "copy_from mem a n = map (\<lambda>i. mem (a + word_of_nat i)) [0..<n]"

fun copy_to :: "u32 \<Rightarrow> u8 list \<Rightarrow> (u32 \<Rightarrow> u8) \<Rightarrow> u32 \<Rightarrow> u8" where
  "copy_to a [] mem = mem"
| "copy_to a (b # bs) mem = copy_to (a + 1) bs (mem(a := b))"

definition bswap :: "nat \<Rightarrow> u64 \<Rightarrow> u64" where
  "bswap n v =
     (if n = 2 then ucast (swap16 (ucast v)) else if n = 4 then ucast (swap32 (ucast v))
      else if n = 8 then swap64 v else v)"

definition bswapped :: "u8 list \<Rightarrow> u64" where
  "bswapped bs = bswap (length bs) (of_bytes bs)"

section \<open>Exceptions\<close>

definition panic_break :: "'d platform \<Rightarrow> 'd sys \<Rightarrow> 'd sys" where
  "panic_break P m =
     (if IsPauseOnPanicMode P
      then on_cpu (\<lambda>s. s\<lparr>Exceptions := Exceptions s OR (EXCEPTION_DSI OR EXCEPTION_FAKE_MEMCHECK_HIT)\<rparr>)
             (CPU_Break P m)
      else m)"

definition MMU_GenerateDSIException :: "'d platform \<Rightarrow> u32 \<Rightarrow> bool \<Rightarrow> 'd sys \<Rightarrow> 'd sys" where
  "MMU_GenerateDSIException P effective_address write m =
     (if \<not> IsMMUMode P then panic_break P m
      else
        (let dsisr_page = push_bit 30 1; dsisr_store = push_bit 25 1;
             m = on_cpu (set_spr SPR_DSISR (if write then dsisr_page OR dsisr_store else dsisr_page)) m;
             m = on_cpu (set_spr SPR_DAR effective_address) m
         in on_cpu (\<lambda>s. s\<lparr>Exceptions := Exceptions s OR EXCEPTION_DSI\<rparr>) m))"

definition GenerateISIException :: "u32 \<Rightarrow> 'd sys \<Rightarrow> 'd sys" where
  "GenerateISIException effective_address m =
     on_cpu (\<lambda>s. s\<lparr>npc := effective_address, Exceptions := Exceptions s OR EXCEPTION_ISI\<rparr>) m"

section \<open>Physical reads\<close>

definition EFB_Read :: "'d platform \<Rightarrow> u32 \<Rightarrow> 'd sys \<Rightarrow> u32 \<times> 'd sys" where
  "EFB_Read P addr m =
     (let x = drop_bit 2 (addr AND 0xfff); y = drop_bit 12 addr AND 0x3ff
      in if addr AND 0x00800000 \<noteq> 0 then (0, m)
         else if addr AND 0x00400000 \<noteq> 0 then PeekDepth P x y m
         else PeekColor P x y m)"

definition EFB_Write :: "'d platform \<Rightarrow> u32 \<Rightarrow> u32 \<Rightarrow> 'd sys \<Rightarrow> 'd sys" where
  "EFB_Write P data addr m =
     (let x = drop_bit 2 (addr AND 0xfff); y = drop_bit 12 addr AND 0x3ff
      in if addr AND 0x00800000 \<noteq> 0 then m
         else if addr AND 0x00400000 \<noteq> 0 then PokeDepth P x y data m
         else PokeColor P x y data m)"

text \<open>A read of \<open>n\<close> bytes, the value of the type \<^verbatim>\<open>T\<close> extended to 64 bits.\<close>

definition read_cached ::
  "'d platform \<Rightarrow> XCheckTLBFlag \<Rightarrow> bool \<Rightarrow> ('d memory \<Rightarrow> u32 \<Rightarrow> u8) \<Rightarrow> u32 \<Rightarrow> u32 \<Rightarrow> nat \<Rightarrow> 'd sys \<Rightarrow>
     u64 \<times> 'd sys" where
  "read_cached P flag wi mem cache_bit a n m =
     (if \<not> m_enable_dcache (snd m) \<or> wi then (bswapped (copy_from (mem (fst m)) a n), m)
      else (let (bs, m) = dCache_Read P (a + cache_bit) n
                  (HID0_DLOCK (spr (snd m) SPR_HID0) \<noteq> 0 \<or> flag \<noteq> Read) m
            in (bswapped bs, m)))"

definition read_error :: "'d platform \<Rightarrow> u32 \<Rightarrow> 'd sys \<Rightarrow> 'd sys" where
  "read_error P a m =
     (let m = SetInterrupt_PI P m
      in if a \<noteq> 0x10000000 \<or> drop_bit 28 (pc (snd m)) \<noteq> 0 then panic_break P m else m)"

definition physical_read ::
  "'d platform \<Rightarrow> XCheckTLBFlag \<Rightarrow> bool \<Rightarrow> nat \<Rightarrow> u32 \<Rightarrow> 'd sys \<Rightarrow> u64 \<times> 'd sys" where
  "physical_read P flag wi n a m =
     (if flag = Read \<and> a AND 0xF8000000 = 0x08000000 then
        (if a < 0x0c000000 then (let (v, m) = EFB_Read P a m in (take_bit (8 * n) (ucast v), m))
         else MMIO_Read P n a m)
      else if HasL1Cache P \<and> drop_bit 28 a = 0xE \<and> a < 0xE0000000 + GetL1CacheSize P then
        (bswapped (copy_from (L1Cache (fst m)) (a AND 0x0FFFFFFF) n), m)
      else if a AND 0xF8000000 = 0 then
        read_cached P flag wi RAM 0 (a AND GetRamMask P) n m
      else if HasEXRAM P \<and> drop_bit 28 a = 1 \<and> a AND 0x0FFFFFFF < GetExRamSizeReal P then
        read_cached P flag wi EXRAM 0x10000000 (a AND 0x0FFFFFFF) n m
      else if HasFakeVMEM P \<and> a AND 0xFE000000 = 0x7E000000 then
        (bswapped (copy_from (FakeVMEM (fst m)) (a AND GetFakeVMemMask P) n), m)
      else (0, read_error P a m))"

text \<open>An access that crosses a page is made byte by byte.\<close>

definition crosses_page :: "u32 \<Rightarrow> nat \<Rightarrow> bool" where
  "crosses_page a n \<longleftrightarrow>
     a AND NOT HW_PAGE_MASK \<noteq> (a + word_of_nat n - 1) AND NOT HW_PAGE_MASK"

fun read_bytes ::
  "(u32 \<Rightarrow> 'd sys \<Rightarrow> u64 \<times> 'd sys) \<Rightarrow> nat \<Rightarrow> u32 \<Rightarrow> u64 \<Rightarrow> 'd sys \<Rightarrow> u64 \<times> 'd sys" where
  "read_bytes rd 0 a var m = (var, m)"
| "read_bytes rd (Suc n) a var m =
     (let (b, m) = rd a m in read_bytes rd n (a + 1) (push_bit 8 var OR b) m)"

definition split_read ::
  "(nat \<Rightarrow> u32 \<Rightarrow> 'd sys \<Rightarrow> u64 \<times> 'd sys) \<Rightarrow> nat \<Rightarrow> u32 \<Rightarrow> 'd sys \<Rightarrow> u64 \<times> 'd sys" where
  "split_read rd n a m = (if crosses_page a n then read_bytes (rd 1) n a 0 m else rd n a m)"

definition ReadFromHardware_physical ::
  "'d platform \<Rightarrow> XCheckTLBFlag \<Rightarrow> nat \<Rightarrow> u32 \<Rightarrow> 'd sys \<Rightarrow> u64 \<times> 'd sys" where
  "ReadFromHardware_physical P flag = split_read (physical_read P flag False)"

section \<open>Emulated memory\<close>

text \<open>
  \<^verbatim>\<open>MemoryManager::GetSpanForAddress\<close> and the copies that other parts of the emulator
  make through it: \<open>None\<close> is the null pointer, after which nothing is copied.
\<close>

datatype region = In_RAM u32 | In_EXRAM u32

definition GetSpanForAddress :: "'d platform \<Rightarrow> u32 \<Rightarrow> (region \<times> u32) option" where
  "GetSpanForAddress P a =
     (let a = a AND 0x3FFFFFFF
      in if a < GetRamSizeReal P then Some (In_RAM a, GetRamSizeReal P - a)
         else if HasEXRAM P \<and> drop_bit 28 a = 1 \<and> a AND 0x0fffffff < GetExRamSizeReal P
         then Some (In_EXRAM (a AND GetExRamMask P), GetExRamSizeReal P - (a AND GetExRamMask P))
         else None)"

definition GetPointerForRange :: "'d platform \<Rightarrow> u32 \<Rightarrow> nat \<Rightarrow> region option" where
  "GetPointerForRange P a sz =
     (case GetSpanForAddress P a of
        None \<Rightarrow> None
      | Some (r, available) \<Rightarrow> if unat available < sz then None else Some r)"

definition CopyToEmu :: "'d platform \<Rightarrow> u32 \<Rightarrow> u8 list \<Rightarrow> 'd memory \<Rightarrow> 'd memory" where
  "CopyToEmu P a bs d =
     (if bs = [] then d
      else case GetPointerForRange P a (length bs) of
             None \<Rightarrow> d
           | Some (In_RAM p) \<Rightarrow> d\<lparr>RAM := copy_to p bs (RAM d)\<rparr>
           | Some (In_EXRAM p) \<Rightarrow> d\<lparr>EXRAM := copy_to p bs (EXRAM d)\<rparr>)"

text \<open>A copy out of emulated memory leaves the target as it was when the range is invalid.\<close>

definition CopyFromEmu_bytes :: "'d platform \<Rightarrow> u32 \<Rightarrow> nat \<Rightarrow> 'd memory \<Rightarrow> u8 list option" where
  "CopyFromEmu_bytes P a sz d =
     (if sz = 0 then Some []
      else case GetPointerForRange P a sz of
             None \<Rightarrow> None
           | Some (In_RAM p) \<Rightarrow> Some (copy_from (RAM d) p sz)
           | Some (In_EXRAM p) \<Rightarrow> Some (copy_from (EXRAM d) p sz))"

definition memory_Write_U32 :: "'d platform \<Rightarrow> u32 \<Rightarrow> u32 \<Rightarrow> 'd memory \<Rightarrow> 'd memory" where
  "memory_Write_U32 P v a d = CopyToEmu P a (bytes_of (swap32 v)) d"

section \<open>Translation\<close>

datatype TranslateAddressResultEnum =
  BAT_TRANSLATED | PAGE_TABLE_TRANSLATED | DIRECT_STORE_SEGMENT | PAGE_FAULT

record TranslateAddressResult =
  tr_result :: TranslateAddressResultEnum
  tr_address :: u32
  tr_wi :: bool

definition Success :: "TranslateAddressResult \<Rightarrow> bool" where
  "Success r \<longleftrightarrow> tr_result r = BAT_TRANSLATED \<or> tr_result r = PAGE_TABLE_TRANSLATED"

definition TranslateBatAddress :: "(15 word \<Rightarrow> u32) \<Rightarrow> u32 \<Rightarrow> (u32 \<times> bool) option" where
  "TranslateBatAddress bat_table a =
     (let bat_result = bat_table (ucast (drop_bit BAT_INDEX_SHIFT a))
      in if bat_result AND BAT_MAPPED_BIT = 0 then None
         else Some ((bat_result AND BAT_RESULT_MASK) OR (a AND (BAT_PAGE_SIZE - 1)),
                    bat_result AND BAT_WI_BIT \<noteq> 0))"

datatype TLBLookupResult = Found u32 bool | NotFound | UpdateC

definition set_tlb :: "bool \<Rightarrow> 6 word \<Rightarrow> TLBEntry \<Rightarrow> 'd memory \<Rightarrow> 'd memory" where
  "set_tlb i ix e d = d\<lparr>tlb := (tlb d)(i := (tlb d i)(ix := e))\<rparr>"

definition TLB_hit ::
  "XCheckTLBFlag \<Rightarrow> u32 \<Rightarrow> nat \<Rightarrow> TLBEntry \<Rightarrow> TLBLookupResult \<times> TLBEntry" where
  "TLB_hit flag vpa w e =
     (let pte2 = tlb_pte e w
      in if flag = Write \<and> PTE_C pte2 = 0
         then (UpdateC, e\<lparr>tlb_pte := (tlb_pte e)(w := PTE_set_C 1 pte2)\<rparr>)
         else (Found (tlb_paddr e w OR (vpa AND 0xfff)) (PTE_WIMG pte2 AND 0xC \<noteq> 0),
               if \<not> IsNoExceptionFlag flag then e\<lparr>tlb_recent := word_of_nat w\<rparr> else e))"

definition LookupTLBPageAddress ::
  "XCheckTLBFlag \<Rightarrow> u32 \<Rightarrow> u32 \<Rightarrow> 'd memory \<Rightarrow> TLBLookupResult \<times> 'd memory" where
  "LookupTLBPageAddress flag vpa vsid d =
     (let tag = drop_bit HW_PAGE_INDEX_SHIFT vpa;
          e = tlb d (IsOpcodeFlag flag) (ucast tag)
      in if tlb_tag e 0 = tag \<and> tlb_vsid e 0 = vsid
         then (let (r, e) = TLB_hit flag vpa 0 e in (r, set_tlb (IsOpcodeFlag flag) (ucast tag) e d))
         else if tlb_tag e 1 = tag \<and> tlb_vsid e 1 = vsid
         then (let (r, e) = TLB_hit flag vpa 1 e in (r, set_tlb (IsOpcodeFlag flag) (ucast tag) e d))
         else (NotFound, d))"

definition UpdateTLBEntry :: "XCheckTLBFlag \<Rightarrow> u32 \<Rightarrow> u32 \<Rightarrow> u32 \<Rightarrow> 'd memory \<Rightarrow> 'd memory" where
  "UpdateTLBEntry flag pte2 address vsid d =
     (if IsNoExceptionFlag flag then d
      else
        (let tag = drop_bit HW_PAGE_INDEX_SHIFT address;
             e = tlb d (IsOpcodeFlag flag) (ucast tag);
             index = (if tlb_recent e = 0 \<and> tlb_tag e 0 \<noteq> INVALID_TAG then 1 else 0)
         in set_tlb (IsOpcodeFlag flag) (ucast tag)
              (e\<lparr>tlb_recent := word_of_nat index,
                 tlb_paddr := (tlb_paddr e)(index := push_bit HW_PAGE_INDEX_SHIFT (PTE_RPN pte2)),
                 tlb_pte := (tlb_pte e)(index := pte2),
                 tlb_tag := (tlb_tag e)(index := tag),
                 tlb_vsid := (tlb_vsid e)(index := vsid)\<rparr>) d))"

text \<open>The search of a group of eight entries, and of the two groups an address hashes to.\<close>

definition pte_read_flag :: "XCheckTLBFlag \<Rightarrow> XCheckTLBFlag" where
  "pte_read_flag flag = (if IsNoExceptionFlag flag then NoException else Read)"

fun scan_PTEG ::
  "'d platform \<Rightarrow> XCheckTLBFlag \<Rightarrow> u32 \<Rightarrow> nat \<Rightarrow> u32 \<Rightarrow> 'd sys \<Rightarrow> u32 option \<times> 'd sys" where
  "scan_PTEG P flag pte1 0 pteg_addr m = (None, m)"
| "scan_PTEG P flag pte1 (Suc n) pteg_addr m =
     (let (pteg, m) = ReadFromHardware_physical P (pte_read_flag flag) 4 pteg_addr m
      in if ucast pteg = pte1 then (Some pteg_addr, m)
         else scan_PTEG P flag pte1 n (pteg_addr + 8) m)"

definition pteg_address :: "u32 \<Rightarrow> 'd memory \<Rightarrow> u32" where
  "pteg_address hash d = (push_bit 6 hash AND pagetable_mask d) OR pagetable_base d"

definition first_pte1 :: "u32 \<Rightarrow> u32 \<Rightarrow> u32" where
  "first_pte1 VSID address = PTE_set_V 1 (PTE_set_API (EA_API address) (PTE_set_VSID VSID 0))"

definition access_bits :: "XCheckTLBFlag \<Rightarrow> u32 \<Rightarrow> u32" where
  "access_bits flag pte2 =
     (case flag of
        NoException \<Rightarrow> pte2
      | OpcodeNoException \<Rightarrow> pte2
      | Read \<Rightarrow> PTE_set_R 1 pte2
      | Write \<Rightarrow> PTE_set_C 1 (PTE_set_R 1 pte2)
      | Opcode \<Rightarrow> PTE_set_R 1 pte2)"

text \<open>
  The use of a matching entry. The copy of the table that is kept to update the host mappings of
  the JIT, to which the code also writes the new access bits, is left out.
\<close>

definition use_PTE ::
  "'d platform \<Rightarrow> XCheckTLBFlag \<Rightarrow> TLBLookupResult \<Rightarrow> u32 \<Rightarrow> u32 \<Rightarrow> u32 \<Rightarrow> 'd sys \<Rightarrow>
     TranslateAddressResult \<times> bool \<times> 'd sys" where
  "use_PTE P flag res address VSID pteg_addr m =
     (let (v, m) = ReadFromHardware_physical P (pte_read_flag flag) 4 (pteg_addr + 4) m;
          old_pte2 = ucast v;
          pte2 = access_bits flag old_pte2;
          m = (if \<not> IsNoExceptionFlag flag \<and> pte2 \<noteq> old_pte2
               then on_memory (memory_Write_U32 P pte2 (pteg_addr + 4)) m else m);
          m = (if res \<noteq> UpdateC then on_memory (UpdateTLBEntry flag pte2 address VSID) m else m)
      in (\<lparr>tr_result = PAGE_TABLE_TRANSLATED,
           tr_address = push_bit 12 (PTE_RPN pte2) OR EA_offset address, tr_wi = False\<rparr>,
          PTE_WIMG pte2 AND 0xC \<noteq> 0, m))"

definition fault :: "TranslateAddressResultEnum \<Rightarrow> TranslateAddressResult" where
  "fault r = \<lparr>tr_result = r, tr_address = 0, tr_wi = False\<rparr>"

definition walk_page_table ::
  "'d platform \<Rightarrow> XCheckTLBFlag \<Rightarrow> TLBLookupResult \<Rightarrow> u32 \<Rightarrow> u32 \<Rightarrow> 'd sys \<Rightarrow>
     TranslateAddressResult \<times> bool \<times> 'd sys" where
  "walk_page_table P flag res address VSID m =
     (let hash = VSID XOR EA_page_index address;
          pte1 = first_pte1 VSID address
      in case scan_PTEG P flag pte1 8 (pteg_address hash (fst m)) m of
           (Some pteg_addr, m) \<Rightarrow> use_PTE P flag res address VSID pteg_addr m
         | (None, m) \<Rightarrow>
             (case scan_PTEG P flag (PTE_set_H 1 pte1) 8 (pteg_address (NOT hash) (fst m)) m of
                (Some pteg_addr, m) \<Rightarrow> use_PTE P flag res address VSID pteg_addr m
              | (None, m) \<Rightarrow> (fault PAGE_FAULT, False, m)))"

text \<open>The result and the out parameter \<^verbatim>\<open>wi\<close>, which starts as false.\<close>

definition TranslatePageAddress ::
  "'d platform \<Rightarrow> XCheckTLBFlag \<Rightarrow> u32 \<Rightarrow> 'd sys \<Rightarrow> TranslateAddressResult \<times> bool \<times> 'd sys" where
  "TranslatePageAddress P flag address m =
     (let seg = sr (snd m) (EA_SR address);
          VSID = SR_VSID seg;
          (res, d) = LookupTLBPageAddress flag address VSID (fst m);
          m = (d, snd m)
      in case res of
           Found paddr wi \<Rightarrow>
             (\<lparr>tr_result = PAGE_TABLE_TRANSLATED, tr_address = paddr, tr_wi = False\<rparr>, wi, m)
         | _ \<Rightarrow>
             (if SR_T seg \<noteq> 0 then (fault DIRECT_STORE_SEGMENT, False, m)
              else if IsOpcodeFlag flag \<and> SR_N seg \<noteq> 0 then (fault PAGE_FAULT, False, m)
              else walk_page_table P flag res address VSID m))"

definition TranslateAddress ::
  "'d platform \<Rightarrow> XCheckTLBFlag \<Rightarrow> u32 \<Rightarrow> 'd sys \<Rightarrow> TranslateAddressResult \<times> 'd sys" where
  "TranslateAddress P flag address m =
     (case TranslateBatAddress (if IsOpcodeFlag flag then m_ibat_table (fst m) else m_dbat_table (fst m))
             address of
        Some (a, wi) \<Rightarrow> (\<lparr>tr_result = BAT_TRANSLATED, tr_address = a, tr_wi = wi\<rparr>, m)
      | None \<Rightarrow> (let (r, wi, m) = TranslatePageAddress P flag address m in (r, m)))"

section \<open>Reads\<close>

definition page_read ::
  "'d platform \<Rightarrow> XCheckTLBFlag \<Rightarrow> nat \<Rightarrow> u32 \<Rightarrow> 'd sys \<Rightarrow> u64 \<times> 'd sys" where
  "page_read P flag n a m =
     (if (if IsOpcodeFlag flag then MSR_IR (msr (snd m)) else MSR_DR (msr (snd m))) \<noteq> 0 then
        (let (r, m) = TranslateAddress P flag a m
         in if \<not> Success r
            then (0, if flag = Read then MMU_GenerateDSIException P a False m else m)
            else physical_read P flag (tr_wi r) n (tr_address r) m)
      else physical_read P flag False n a m)"

definition ReadFromHardware ::
  "'d platform \<Rightarrow> XCheckTLBFlag \<Rightarrow> nat \<Rightarrow> u32 \<Rightarrow> 'd sys \<Rightarrow> u64 \<times> 'd sys" where
  "ReadFromHardware P flag = split_read (page_read P flag)"

section \<open>Writes\<close>

definition swapped_bytes :: "u32 \<Rightarrow> nat \<Rightarrow> u8 list" where
  "swapped_bytes data sz = take sz (bytes_of (swap32 (word_rotr (sz * 8) data)))"

definition gather_pipe_write :: "'d platform \<Rightarrow> u32 \<Rightarrow> nat \<Rightarrow> 'd sys \<Rightarrow> 'd sys" where
  "gather_pipe_write P data sz m =
     (if sz = 1 then GPFifo_Write8 P (ucast data) m
      else if sz = 2 then GPFifo_Write16 P (ucast data) m
      else if sz = 4 then GPFifo_Write32 P data m
      else fold (\<lambda>k. GPFifo_Write8 P (ucast (drop_bit (8 * k) data))) (rev [0..<sz]) m)"

definition mmio_write :: "'d platform \<Rightarrow> u32 \<Rightarrow> nat \<Rightarrow> u32 \<Rightarrow> 'd sys \<Rightarrow> 'd sys" where
  "mmio_write P data sz a m =
     (if sz = 1 then MMIO_Write P 1 a (data AND 0xFF) m
      else if sz = 2 then MMIO_Write P 2 a (data AND 0xFFFF) m
      else if sz = 4 then MMIO_Write P 4 a data m
      else fold (\<lambda>j. MMIO_Write P 1 (a + word_of_nat j) (drop_bit (8 * (sz - 1 - j)) data AND 0xFF))
             [0..<sz] m)"

definition write_device ::
  "'d platform \<Rightarrow> XCheckTLBFlag \<Rightarrow> u32 \<Rightarrow> nat \<Rightarrow> u32 \<Rightarrow> 'd sys \<Rightarrow> 'd sys option" where
  "write_device P flag data sz a m =
     (if flag = Write \<and> a AND 0xFFFFF000 = GATHER_PIPE_PHYSICAL_ADDRESS
      then Some (gather_pipe_write P data sz m)
      else if flag = Write \<and> a AND 0xF8000000 = 0x08000000
      then Some (if a < 0x0c000000 then EFB_Write P data a m else mmio_write P data sz a m)
      else if HasL1Cache P \<and> drop_bit 28 a = 0xE \<and> a < 0xE0000000 + GetL1CacheSize P
      then Some (on_memory (L1Cache_update (copy_to (a AND 0x0FFFFFFF) (swapped_bytes data sz))) m)
      else None)"

definition write_cached ::
  "'d platform \<Rightarrow> XCheckTLBFlag \<Rightarrow> bool \<Rightarrow> (((u32 \<Rightarrow> u8) \<Rightarrow> u32 \<Rightarrow> u8) \<Rightarrow> 'd memory \<Rightarrow> 'd memory) \<Rightarrow>
     u32 \<Rightarrow> u32 \<Rightarrow> u8 list \<Rightarrow> 'd sys \<Rightarrow> 'd sys" where
  "write_cached P flag wi update cache_bit a bs m =
     (let cached = m_enable_dcache (snd m);
          m = (if cached \<and> \<not> wi
               then dCache_Write P (a + cache_bit) bs (HID0_DLOCK (spr (snd m) SPR_HID0) \<noteq> 0) m else m)
      in if \<not> m_enable_dcache (snd m) \<or> wi \<or> flag \<noteq> Write
         then on_memory (update (copy_to a bs)) m else m)"

definition write_backing ::
  "'d platform \<Rightarrow> XCheckTLBFlag \<Rightarrow> bool \<Rightarrow> u32 \<Rightarrow> nat \<Rightarrow> u32 \<Rightarrow> 'd sys \<Rightarrow> 'd sys" where
  "write_backing P flag wi data sz a m =
     (if a AND 0xF8000000 = 0 then
        write_cached P flag wi RAM_update 0 (a AND GetRamMask P) (swapped_bytes data sz) m
      else if HasEXRAM P \<and> drop_bit 28 a = 1 \<and> a AND 0x0FFFFFFF < GetExRamSizeReal P then
        write_cached P flag wi EXRAM_update 0x10000000 (a AND 0x0FFFFFFF) (swapped_bytes data sz) m
      else if HasFakeVMEM P \<and> a AND 0xFE000000 = 0x7E000000 then
        on_memory (FakeVMEM_update (copy_to (a AND GetFakeVMemMask P) (swapped_bytes data sz))) m
      else panic_break P (SetInterrupt_PI P m))"

definition physical_store ::
  "'d platform \<Rightarrow> XCheckTLBFlag \<Rightarrow> u32 \<Rightarrow> nat \<Rightarrow> u32 \<Rightarrow> 'd sys \<Rightarrow> 'd sys" where
  "physical_store P flag data sz a m =
     (case write_device P flag data sz a m of
        Some m \<Rightarrow> m
      | None \<Rightarrow> write_backing P flag False data sz a m)"

text \<open>
  The duplication of an uncached write that is not a whole aligned word: the rotated data fills
  every word of the 64-bit units that the write touches. The units are aligned, so none of the
  recursive calls crosses a page.
\<close>

definition wi_blocks :: "u32 \<Rightarrow> nat \<Rightarrow> u32 list" where
  "wi_blocks a sz =
     map (\<lambda>k. (a AND NOT 7) + 8 * word_of_nat k) [0..<(unat (a AND 7) + sz + 7) div 8]"

definition write_duplicated ::
  "'d platform \<Rightarrow> XCheckTLBFlag \<Rightarrow> u32 \<Rightarrow> nat \<Rightarrow> u32 \<Rightarrow> 'd sys \<Rightarrow> 'd sys" where
  "write_duplicated P flag data sz a m =
     (let rotated_data = word_rotr ((unat (a AND 3) + sz) * 8) data
      in fold (\<lambda>addr m. physical_store P flag rotated_data 4 (addr + 4)
                          (physical_store P flag rotated_data 4 addr m))
           (wi_blocks a sz) (SetInterrupt_PI P m))"

definition physical_write ::
  "'d platform \<Rightarrow> XCheckTLBFlag \<Rightarrow> bool \<Rightarrow> u32 \<Rightarrow> nat \<Rightarrow> u32 \<Rightarrow> 'd sys \<Rightarrow> 'd sys" where
  "physical_write P flag wi data sz a m =
     (case write_device P flag data sz a m of
        Some m \<Rightarrow> m
      | None \<Rightarrow>
          (if wi \<and> (sz < 4 \<or> a AND 3 \<noteq> 0) then write_duplicated P flag data sz a m
           else write_backing P flag wi data sz a m))"

definition split_write ::
  "(u32 \<Rightarrow> nat \<Rightarrow> u32 \<Rightarrow> 'd sys \<Rightarrow> 'd sys) \<Rightarrow> u32 \<Rightarrow> nat \<Rightarrow> u32 \<Rightarrow> 'd sys \<Rightarrow> 'd sys" where
  "split_write wr data sz a m =
     (if crosses_page a sz then
        (let end_page = (a + word_of_nat sz - 1) AND NOT HW_PAGE_MASK;
             first_half_size = unat (end_page - a);
             second_half_size = sz - first_half_size
         in wr data second_half_size end_page
              (wr (word_rotr (second_half_size * 8) data) first_half_size a m))
      else wr data sz a m)"

definition page_write ::
  "'d platform \<Rightarrow> XCheckTLBFlag \<Rightarrow> u32 \<Rightarrow> nat \<Rightarrow> u32 \<Rightarrow> 'd sys \<Rightarrow> 'd sys" where
  "page_write P flag data sz a m =
     (if MSR_DR (msr (snd m)) \<noteq> 0 then
        (let (r, m) = TranslateAddress P flag a m
         in if \<not> Success r then (if flag = Write then MMU_GenerateDSIException P a True m else m)
            else physical_write P flag (tr_wi r) data sz (tr_address r) m)
      else physical_write P flag False data sz a m)"

definition WriteToHardware ::
  "'d platform \<Rightarrow> XCheckTLBFlag \<Rightarrow> u32 \<Rightarrow> nat \<Rightarrow> u32 \<Rightarrow> 'd sys \<Rightarrow> 'd sys" where
  "WriteToHardware P flag data sz a m = split_write (page_write P flag) data sz a m"

definition WriteToHardware_physical ::
  "'d platform \<Rightarrow> XCheckTLBFlag \<Rightarrow> u32 \<Rightarrow> nat \<Rightarrow> u32 \<Rightarrow> 'd sys \<Rightarrow> 'd sys" where
  "WriteToHardware_physical P flag data sz a m = split_write (physical_write P flag False) data sz a m"

end
