(* ===== verification/Memory_Control.thy ===== *)
theory Memory_Control
  imports Memory_Management
begin

text \<open>
  The rest of \<^verbatim>\<open>Core/PowerPC/MMU.cpp\<close>: the block address tables built from the
  registers, the page table registers, the cache line operations, the transfers of the locked
  cache, instruction fetch, the queries of the JIT, and the operations of the processor on memory,
  collected in the record \<open>MMU P\<close> that the load and store instructions take.
\<close>

section \<open>Block address tables\<close>

definition BAT_flags :: "'d platform \<Rightarrow> bool \<Rightarrow> u32 \<Rightarrow> u32 \<Rightarrow> u32" where
  "BAT_flags P wi physical_address virtual_address =
     (let valid_bit = BAT_MAPPED_BIT;
          valid_bit = (if wi then valid_bit OR BAT_WI_BIT else valid_bit);
          valid_bit =
            (if \<not> wi \<and>
                (HasFakeVMEM P \<and> physical_address AND 0xFE000000 = 0x7E000000 \<or>
                 physical_address < GetRamSizeReal P \<or>
                 HasEXRAM P \<and> drop_bit 28 physical_address = 1 \<and>
                   physical_address AND 0x0FFFFFFF < GetExRamSizeReal P \<or>
                 drop_bit 28 physical_address = 0xE \<and>
                   physical_address < 0xE0000000 + GetL1CacheSize P)
             then valid_bit OR BAT_PHYSICAL_BIT else valid_bit)
      in if OverlapsMemcheck P virtual_address BAT_PAGE_SIZE
         then valid_bit AND NOT BAT_PHYSICAL_BIT else valid_bit)"

definition UpdateBAT_entry ::
  "'d platform \<Rightarrow> u32 \<Rightarrow> u32 \<Rightarrow> u32 \<Rightarrow> (15 word \<Rightarrow> u32) \<Rightarrow> 15 word \<Rightarrow> u32" where
  "UpdateBAT_entry P batu batl j bat_table =
     (if j AND BATU_BL batu = j then
        (let physical_address = push_bit BAT_INDEX_SHIFT (BATL_BRPN batl OR j);
             virtual_address = push_bit BAT_INDEX_SHIFT (BATU_BEPI batu OR j);
             wi = (BATL_WIMG batl AND 0xC \<noteq> 0)
         in bat_table(ucast (drop_bit BAT_INDEX_SHIFT virtual_address) :=
              physical_address OR BAT_flags P wi physical_address virtual_address))
      else bat_table)"

definition UpdateBAT ::
  "'d platform \<Rightarrow> u32 \<Rightarrow> u32 \<Rightarrow> (15 word \<Rightarrow> u32) \<Rightarrow> 15 word \<Rightarrow> u32" where
  "UpdateBAT P batu batl bat_table =
     (if BATU_VS batu = 0 \<and> BATU_VP batu = 0 then bat_table
      else fold (\<lambda>j. UpdateBAT_entry P batu batl (word_of_nat j)) [0..<Suc (unat (BATU_BL batu))] bat_table)"

definition UpdateBATs ::
  "'d platform \<Rightarrow> (spr_index \<Rightarrow> u32) \<Rightarrow> spr_index \<Rightarrow> (15 word \<Rightarrow> u32) \<Rightarrow> 15 word \<Rightarrow> u32" where
  "UpdateBATs P sprs base_spr bat_table =
     fold (\<lambda>i. UpdateBAT P (sprs (base_spr + 2 * i)) (sprs (base_spr + 2 * i + 1))) [0, 1, 2, 3] bat_table"

definition UpdateFakeMMUBat :: "'d platform \<Rightarrow> u32 \<Rightarrow> (15 word \<Rightarrow> u32) \<Rightarrow> 15 word \<Rightarrow> u32" where
  "UpdateFakeMMUBat P start_addr bat_table =
     fold (\<lambda>i bat_table.
        (let e_address = word_of_nat i + drop_bit BAT_INDEX_SHIFT start_addr :: u32;
             p_address = 0x7E000000 OR (push_bit BAT_INDEX_SHIFT (word_of_nat i) AND GetFakeVMemMask P);
             flags = BAT_MAPPED_BIT OR BAT_PHYSICAL_BIT;
             flags = (if OverlapsMemcheck P (push_bit BAT_INDEX_SHIFT e_address) BAT_PAGE_SIZE
                      then flags AND NOT BAT_PHYSICAL_BIT else flags)
         in bat_table(ucast e_address := p_address OR flags)))
       [0..<unat (drop_bit BAT_INDEX_SHIFT (0x10000000 :: u32))] bat_table"

definition BAT_table :: "'d platform \<Rightarrow> PowerPCState \<Rightarrow> spr_index \<Rightarrow> spr_index \<Rightarrow> 15 word \<Rightarrow> u32" where
  "BAT_table P s first extended =
     (let t = UpdateBATs P (spr s) first (\<lambda>_. 0);
          t = (if IsWii P \<and> HID4_SBE (spr s SPR_HID4) \<noteq> 0 then UpdateBATs P (spr s) extended t else t)
      in if HasFakeVMEM P then UpdateFakeMMUBat P 0x70000000 (UpdateFakeMMUBat P 0x40000000 t) else t)"

text \<open>The host mappings of the data block addresses and of the page table are the JIT's.\<close>

definition MMU_DBATUpdated :: "'d platform \<Rightarrow> 'd sys \<Rightarrow> 'd sys" where
  "MMU_DBATUpdated P m =
     (let m = on_memory (\<lambda>d. d\<lparr>m_dbat_table := BAT_table P (snd m) SPR_DBAT0U SPR_DBAT4U\<rparr>) m
      in JIT_ClearSafe P (host_ReloadPageTable P (host_UpdateDBATMappings P m)))"

definition MMU_IBATUpdated :: "'d platform \<Rightarrow> 'd sys \<Rightarrow> 'd sys" where
  "MMU_IBATUpdated P m =
     (let m = on_memory (\<lambda>d. d\<lparr>m_ibat_table := BAT_table P (snd m) SPR_IBAT0U SPR_IBAT4U\<rparr>) m
      in JIT_ClearSafe P m)"

section \<open>Page table registers\<close>

definition MMU_PageTableUpdated :: "'d platform \<Rightarrow> 'd sys \<Rightarrow> 'd sys" where
  "MMU_PageTableUpdated P m =
     (let m = on_cpu (\<lambda>s. s\<lparr>pagetable_update_pending := False\<rparr>) m
      in if \<not> WantsPageTableMappings P then host_ClearPageTable P m else host_PageTableUpdated P m)"

definition MMU_SDRUpdated :: "'d platform \<Rightarrow> 'd sys \<Rightarrow> 'd sys" where
  "MMU_SDRUpdated P m =
     (let sdr = spr (snd m) SPR_SDR;
          htabmask = SDR1_htabmask sdr;
          htaborg = SDR1_htaborg sdr;
          m = on_memory (\<lambda>d. d\<lparr>pagetable_base := push_bit 16 htaborg,
                              pagetable_mask := push_bit 16 htabmask OR 0xffc0\<rparr>) m
      in MMU_PageTableUpdated P m)"

definition MMU_InvalidateTLBEntry :: "'d platform \<Rightarrow> u32 \<Rightarrow> 'd sys \<Rightarrow> 'd sys" where
  "MMU_InvalidateTLBEntry P address m =
     (let entry_index = ucast (drop_bit HW_PAGE_INDEX_SHIFT address) :: 6 word;
          m = on_memory (\<lambda>d. set_tlb False entry_index (TLB_Invalidate (tlb d False entry_index)) d) m;
          m = on_memory (\<lambda>d. set_tlb True entry_index (TLB_Invalidate (tlb d True entry_index)) d) m
      in if MSR_DR (msr (snd m)) \<noteq> 0 then MMU_PageTableUpdated P m
         else on_cpu (\<lambda>s. s\<lparr>pagetable_update_pending := True\<rparr>) m)"

section \<open>Cache lines\<close>

text \<open>
  The five operations translate the address as a write; they ignore direct store segments, and
  all but the invalidation raise the exception of a page fault.
\<close>

definition with_line ::
  "'d platform \<Rightarrow> bool \<Rightarrow> (u32 \<Rightarrow> 'd sys \<Rightarrow> 'd sys) \<Rightarrow> u32 \<Rightarrow> 'd sys \<Rightarrow> 'd sys" where
  "with_line P faults f address m =
     (if MSR_DR (msr (snd m)) \<noteq> 0 then
        (let (r, m) = TranslateAddress P Write address m
         in if tr_result r = DIRECT_STORE_SEGMENT then m
            else if tr_result r = PAGE_FAULT
            then (if faults then MMU_GenerateDSIException P address True m else m)
            else f (tr_address r) m)
      else f address m)"

definition when_dcache :: "(u32 \<Rightarrow> 'd sys \<Rightarrow> 'd sys) \<Rightarrow> u32 \<Rightarrow> 'd sys \<Rightarrow> 'd sys" where
  "when_dcache f address m = (if m_enable_dcache (snd m) then f address m else m)"

definition MMU_ClearDCacheLine :: "'d platform \<Rightarrow> u32 \<Rightarrow> 'd sys \<Rightarrow> 'd sys" where
  "MMU_ClearDCacheLine P address m =
     with_line P True
       (\<lambda>a. fold (\<lambda>i. WriteToHardware_physical P Write 0 4 (a + i)) [0, 4, 8, 12, 16, 20, 24, 28])
       address m"

definition MMU_StoreDCacheLine :: "'d platform \<Rightarrow> u32 \<Rightarrow> 'd sys \<Rightarrow> 'd sys" where
  "MMU_StoreDCacheLine P address m =
     with_line P True (when_dcache (dCache_Store P)) (address AND NOT 0x1F) m"

definition MMU_InvalidateDCacheLine :: "'d platform \<Rightarrow> u32 \<Rightarrow> 'd sys \<Rightarrow> 'd sys" where
  "MMU_InvalidateDCacheLine P address m =
     with_line P False (when_dcache (dCache_Invalidate P)) (address AND NOT 0x1F) m"

definition MMU_FlushDCacheLine :: "'d platform \<Rightarrow> u32 \<Rightarrow> 'd sys \<Rightarrow> 'd sys" where
  "MMU_FlushDCacheLine P address m =
     with_line P True (when_dcache (dCache_Flush P)) (address AND NOT 0x1F) m"

definition MMU_TouchDCacheLine :: "'d platform \<Rightarrow> u32 \<Rightarrow> bool \<Rightarrow> 'd sys \<Rightarrow> 'd sys" where
  "MMU_TouchDCacheLine P address st m =
     with_line P True (when_dcache (\<lambda>a. dCache_Touch P a st)) (address AND NOT 0x1F) m"

section \<open>Transfers of the locked cache\<close>

definition L1_offset :: "u32 \<Rightarrow> u32" where
  "L1_offset a = a AND 0x3FFFF"

definition transfer_words :: "u32 \<Rightarrow> u32 list" where
  "transfer_words num_blocks = map (\<lambda>k. 4 * word_of_nat k) [0..<8 * unat num_blocks]"

definition MMU_DMA_LCToMemory :: "'d platform \<Rightarrow> u32 \<Rightarrow> u32 \<Rightarrow> u32 \<Rightarrow> 'd sys \<Rightarrow> 'd sys" where
  "MMU_DMA_LCToMemory P mem_address cache_address num_blocks m =
     (let word_at = (\<lambda>i m. swap32 (of_bytes (copy_from (L1Cache (fst m)) (L1_offset (cache_address + i)) 4)))
      in if mem_address AND 0x0F000000 = 0x08000000 then
           fold (\<lambda>i m. EFB_Write P (word_at i m) (mem_address + i) m) (transfer_words num_blocks) m
         else if mem_address AND 0x0F000000 = 0x0C000000 then
           fold (\<lambda>i m. MMIO_Write P 4 (mem_address + i) (word_at i m) m) (transfer_words num_blocks) m
         else on_memory (\<lambda>d. CopyToEmu P mem_address
                (copy_from (L1Cache d) (L1_offset cache_address) (32 * unat num_blocks)) d) m)"

definition MMU_DMA_MemoryToLC :: "'d platform \<Rightarrow> u32 \<Rightarrow> u32 \<Rightarrow> u32 \<Rightarrow> 'd sys \<Rightarrow> 'd sys" where
  "MMU_DMA_MemoryToLC P cache_address mem_address num_blocks m =
     (let put = (\<lambda>i (v :: u32). on_memory (L1Cache_update (copy_to (L1_offset (cache_address + i))
                                            (bytes_of (swap32 v)))))
      in if mem_address AND 0x0F000000 = 0x08000000 then
           fold (\<lambda>i m. let (v, m) = EFB_Read P (mem_address + i) m in put i v m) (transfer_words num_blocks) m
         else if mem_address AND 0x0F000000 = 0x0C000000 then
           fold (\<lambda>i m. let (v, m) = MMIO_Read P 4 (mem_address + i) m in put i (ucast v) m)
             (transfer_words num_blocks) m
         else on_memory (\<lambda>d. case CopyFromEmu_bytes P mem_address (32 * unat num_blocks) d of
                  None \<Rightarrow> d
                | Some bs \<Rightarrow> L1Cache_update (copy_to (L1_offset cache_address) bs) d) m)"

section \<open>Queries\<close>

definition IsPhysicalRAMAddress :: "'d platform \<Rightarrow> u32 \<Rightarrow> bool" where
  "IsPhysicalRAMAddress P address \<longleftrightarrow>
     (let segment = drop_bit 28 address
      in segment = 0 \<and> address AND 0x0FFFFFFF < GetRamSizeReal P \<or>
         HasEXRAM P \<and> segment = 1 \<and> address AND 0x0FFFFFFF < GetExRamSizeReal P \<or>
         HasFakeVMEM P \<and> address AND 0xFE000000 = 0x7E000000 \<or>
         HasL1Cache P \<and> segment = 0xE \<and> address < 0xE0000000 + GetL1CacheSize P)"

definition IsEffectiveRAMAddress :: "'d platform \<Rightarrow> XCheckTLBFlag \<Rightarrow> u32 \<Rightarrow> 'd sys \<Rightarrow> bool \<times> 'd sys" where
  "IsEffectiveRAMAddress P flag address m =
     (let (r, m) = TranslateAddress P flag address m
      in (Success r \<and> IsPhysicalRAMAddress P (tr_address r), m))"

datatype RequestedAddressSpace = Effective | Physical | Virtual

definition HostIsRAMAddress :: "'d platform \<Rightarrow> u32 \<Rightarrow> RequestedAddressSpace \<Rightarrow> 'd sys \<Rightarrow> bool \<times> 'd sys" where
  "HostIsRAMAddress P address space m =
     (let DR = MSR_DR (msr (snd m)) \<noteq> 0
      in case space of
           Effective \<Rightarrow> if DR then IsEffectiveRAMAddress P NoException address m
                        else (IsPhysicalRAMAddress P address, m)
         | Physical \<Rightarrow> (IsPhysicalRAMAddress P address, m)
         | Virtual \<Rightarrow> if \<not> DR then (False, m) else IsEffectiveRAMAddress P NoException address m)"

definition HostIsInstructionRAMAddress ::
  "'d platform \<Rightarrow> u32 \<Rightarrow> RequestedAddressSpace \<Rightarrow> 'd sys \<Rightarrow> bool \<times> 'd sys" where
  "HostIsInstructionRAMAddress P address space m =
     (let IR = MSR_IR (msr (snd m)) \<noteq> 0
      in if address AND 3 \<noteq> 0 then (False, m)
         else case space of
           Effective \<Rightarrow> if IR then IsEffectiveRAMAddress P OpcodeNoException address m
                        else (IsPhysicalRAMAddress P address, m)
         | Physical \<Rightarrow> (IsPhysicalRAMAddress P address, m)
         | Virtual \<Rightarrow> if \<not> IR then (False, m) else IsEffectiveRAMAddress P OpcodeNoException address m)"

definition HostTryRead ::
  "'d platform \<Rightarrow> nat \<Rightarrow> u32 \<Rightarrow> RequestedAddressSpace \<Rightarrow> 'd sys \<Rightarrow> (bool \<times> u64) option \<times> 'd sys" where
  "HostTryRead P n address space m =
     (let (ok, m) = HostIsRAMAddress P address space m
      in if \<not> ok then (None, m)
         else (let DR = MSR_DR (msr (snd m)) \<noteq> 0
               in case space of
                    Effective \<Rightarrow>
                      (let (v, m) = ReadFromHardware P NoException n address m
                       in (Some (MSR_DR (msr (snd m)) \<noteq> 0, v), m))
                  | Physical \<Rightarrow>
                      (let (v, m) = ReadFromHardware_physical P NoException n address m in (Some (False, v), m))
                  | Virtual \<Rightarrow>
                      if \<not> DR then (None, m)
                      else (let (v, m) = ReadFromHardware P NoException n address m in (Some (True, v), m))))"

definition HostTryWrite ::
  "'d platform \<Rightarrow> u32 \<Rightarrow> nat \<Rightarrow> u32 \<Rightarrow> RequestedAddressSpace \<Rightarrow> 'd sys \<Rightarrow> bool option \<times> 'd sys" where
  "HostTryWrite P var sz address space m =
     (let (ok, m) = HostIsRAMAddress P address space m
      in if \<not> ok then (None, m)
         else (let DR = MSR_DR (msr (snd m)) \<noteq> 0
               in case space of
                    Effective \<Rightarrow>
                      (let m = WriteToHardware P NoException var sz address m
                       in (Some (MSR_DR (msr (snd m)) \<noteq> 0), m))
                  | Physical \<Rightarrow> (Some False, WriteToHardware_physical P NoException var sz address m)
                  | Virtual \<Rightarrow>
                      if \<not> DR then (None, m)
                      else (Some True, WriteToHardware P NoException var sz address m)))"

definition GetTranslatedAddress :: "'d platform \<Rightarrow> u32 \<Rightarrow> 'd sys \<Rightarrow> u32 option \<times> 'd sys" where
  "GetTranslatedAddress P address m =
     (let (r, m) = TranslateAddress P NoException address m
      in (if \<not> Success r then None else Some (tr_address r), m))"

text \<open>
  What the JIT asks before it emits an access without checks: \<open>access_size\<close> is in bits.
\<close>

definition IsOptimizableRAMAddress :: "'d platform \<Rightarrow> u32 \<Rightarrow> u32 \<Rightarrow> 'd sys \<Rightarrow> bool" where
  "IsOptimizableRAMAddress P address access_size m \<longleftrightarrow>
     \<not> HasMemChecks P \<and> MSR_DR (msr (snd m)) \<noteq> 0 \<and> \<not> m_enable_dcache (snd m) \<and>
     (let last_byte_address = address + drop_bit 3 access_size - 1;
          bat_result_1 = m_dbat_table (fst m) (ucast (drop_bit BAT_INDEX_SHIFT address));
          bat_result_2 = m_dbat_table (fst m) (ucast (drop_bit BAT_INDEX_SHIFT last_byte_address))
      in bat_result_1 AND bat_result_2 AND BAT_PHYSICAL_BIT \<noteq> 0)"

definition IsOptimizableGatherPipeWrite :: "'d platform \<Rightarrow> u32 \<Rightarrow> 'd sys \<Rightarrow> bool" where
  "IsOptimizableGatherPipeWrite P address m \<longleftrightarrow>
     \<not> HasMemChecks P \<and> MSR_DR (msr (snd m)) \<noteq> 0 \<and>
     (case TranslateBatAddress (m_dbat_table (fst m)) address of
        None \<Rightarrow> False
      | Some (a, wi) \<Rightarrow> a = GATHER_PIPE_PHYSICAL_ADDRESS)"

section \<open>Instruction fetch\<close>

record TryReadInstResult =
  inst_valid :: bool
  from_bat :: bool
  inst_hex :: u32
  physical_address :: u32

definition TryReadInstruction :: "'d platform \<Rightarrow> u32 \<Rightarrow> 'd sys \<Rightarrow> TryReadInstResult \<times> 'd sys" where
  "TryReadInstruction P address m =
     (let fetch = (\<lambda>a bat m.
            if HasFakeVMEM P \<and> a AND 0xFE000000 = 0x7E000000
            then (\<lparr>inst_valid = True, from_bat = bat,
                   inst_hex = swap32 (of_bytes (copy_from (FakeVMEM (fst m)) (a AND GetFakeVMemMask P) 4)),
                   physical_address = a\<rparr>, m)
            else (let (hex, m) = iCache_ReadInstruction P a m
                  in (\<lparr>inst_valid = True, from_bat = bat, inst_hex = hex, physical_address = a\<rparr>, m)))
      in if MSR_IR (msr (snd m)) \<noteq> 0 then
           (let (r, m) = TranslateAddress P Opcode address m
            in if \<not> Success r
               then (\<lparr>inst_valid = False, from_bat = False, inst_hex = 0, physical_address = 0\<rparr>, m)
               else fetch (tr_address r) (tr_result r = BAT_TRANSLATED) m)
         else fetch address True m)"

definition Read_Opcode :: "'d platform \<Rightarrow> u32 \<Rightarrow> 'd sys \<Rightarrow> u32 \<times> 'd sys" where
  "Read_Opcode P address m =
     (let (r, m) = TryReadInstruction P address m
      in if \<not> inst_valid r then (0, GenerateISIException address m) else (inst_hex r, m))"

section \<open>The operations of the processor\<close>

definition Memcheck :: "'d platform \<Rightarrow> u32 \<Rightarrow> u64 \<Rightarrow> bool \<Rightarrow> nat \<Rightarrow> 'd sys \<Rightarrow> 'd sys" where
  "Memcheck P address var write sz m =
     (if \<not> HasMemChecks P then m
      else (let (pause, m) = memcheck_pauses P address var write sz m
            in if \<not> pause then m
               else on_cpu (\<lambda>s. s\<lparr>Exceptions := Exceptions s OR (EXCEPTION_DSI OR EXCEPTION_FAKE_MEMCHECK_HIT)\<rparr>)
                      (CPU_Break P m)))"

definition mmu_Read :: "'d platform \<Rightarrow> nat \<Rightarrow> u32 \<Rightarrow> 'd sys \<Rightarrow> u64 \<times> 'd sys" where
  "mmu_Read P n address m =
     (let (var, m) = ReadFromHardware P Read n address m in (var, Memcheck P address var False n m))"

definition mmu_Write :: "'d platform \<Rightarrow> nat \<Rightarrow> u32 \<Rightarrow> u32 \<Rightarrow> 'd sys \<Rightarrow> 'd sys" where
  "mmu_Write P n var address m =
     WriteToHardware P Write var n address (Memcheck P address (ucast var) True n m)"

definition mmu_Write_u64 :: "'d platform \<Rightarrow> u64 \<Rightarrow> u32 \<Rightarrow> 'd sys \<Rightarrow> 'd sys" where
  "mmu_Write_u64 P var address m =
     (let m = Memcheck P address var True 8 m;
          m = WriteToHardware P Write (ucast (drop_bit 32 var)) 4 address m
      in WriteToHardware P Write (ucast var) 4 (address + 4) m)"

definition mmu_Write_U16_Swap :: "'d platform \<Rightarrow> u32 \<Rightarrow> u32 \<Rightarrow> 'd sys \<Rightarrow> 'd sys" where
  "mmu_Write_U16_Swap P var address m =
     mmu_Write P 2 ((var AND 0xFFFF0000) OR ucast (swap16 (ucast var))) address m"

definition mmu_Write_U32_Swap :: "'d platform \<Rightarrow> u32 \<Rightarrow> u32 \<Rightarrow> 'd sys \<Rightarrow> 'd sys" where
  "mmu_Write_U32_Swap P var address m = mmu_Write P 4 (swap32 var) address m"

definition MMU :: "'d platform \<Rightarrow> 'd memory mmu" where
  "MMU P =
     \<lparr>Read_U8 = (\<lambda>a m. apfst ucast (mmu_Read P 1 a m)),
      Read_U16 = (\<lambda>a m. apfst ucast (mmu_Read P 2 a m)),
      Read_U32 = (\<lambda>a m. apfst ucast (mmu_Read P 4 a m)),
      Read_U64 = (\<lambda>a m. mmu_Read P 8 a m),
      Write_U8 = mmu_Write P 1, Write_U16 = mmu_Write P 2, Write_U32 = mmu_Write P 4,
      Write_U64 = mmu_Write_u64 P,
      Write_U16_Swap = mmu_Write_U16_Swap P, Write_U32_Swap = mmu_Write_U32_Swap P,
      InvalidateICacheLine = JIT_InvalidateICacheLine P,
      FlushDCacheLine = MMU_FlushDCacheLine P, InvalidateDCacheLine = MMU_InvalidateDCacheLine P,
      StoreDCacheLine = MMU_StoreDCacheLine P, ClearDCacheLine = MMU_ClearDCacheLine P,
      iCache_Invalidate = JIT_iCache_Invalidate P,
      InvalidateTLBEntry = MMU_InvalidateTLBEntry P,
      MAIN_LOW_DCBZ_HACK = DCBZ_HACK P\<rparr>"

end
