(* ===== verification/Memory_Board.thy ===== *)
theory Memory_Board
  imports Memory_Control
begin

text \<open>
  A concrete machine for the worked examples: 24 MB of main memory, every byte of it zero, no
  caches, no watchpoints, and devices that do nothing; the processor is in the state
  \<open>boot_state\<close>, with translation off.
\<close>

definition plain_platform :: "unit platform" where
  "plain_platform =
     \<lparr>HasEXRAM = False, HasL1Cache = True, HasFakeVMEM = False, GetRamMask = 0x01FFFFFF,
      GetRamSizeReal = 0x01800000, GetExRamSizeReal = 0, GetExRamMask = 0, GetL1CacheSize = 0x40000,
      GetFakeVMemMask = 0, IsMMUMode = True, IsPauseOnPanicMode = False, IsWii = False,
      WantsPageTableMappings = False,
      PeekDepth = (\<lambda>_ _ m. (0, m)), PeekColor = (\<lambda>_ _ m. (0, m)),
      PokeDepth = (\<lambda>_ _ _ m. m), PokeColor = (\<lambda>_ _ _ m. m),
      MMIO_Read = (\<lambda>_ _ m. (0, m)), MMIO_Write = (\<lambda>_ _ _ m. m),
      GPFifo_Write8 = (\<lambda>_ m. m), GPFifo_Write16 = (\<lambda>_ m. m), GPFifo_Write32 = (\<lambda>_ m. m),
      SetInterrupt_PI = (\<lambda>m. m), CPU_Break = (\<lambda>m. m),
      dCache_Read = (\<lambda>_ n _ m. (replicate n 0, m)), dCache_Write = (\<lambda>_ _ _ m. m),
      dCache_Store = (\<lambda>_ m. m), dCache_Invalidate = (\<lambda>_ m. m), dCache_Flush = (\<lambda>_ m. m),
      dCache_Touch = (\<lambda>_ _ m. m), iCache_ReadInstruction = (\<lambda>_ m. (0, m)),
      memcheck_pauses = (\<lambda>_ _ _ _ m. (False, m)), HasMemChecks = False,
      OverlapsMemcheck = (\<lambda>_ _. False), host_PageTableUpdated = (\<lambda>m. m),
      host_ClearPageTable = (\<lambda>m. m), host_ReloadPageTable = (\<lambda>m. m),
      host_UpdateDBATMappings = (\<lambda>m. m), JIT_ClearSafe = (\<lambda>m. m),
      JIT_InvalidateICacheLine = (\<lambda>_ m. m), JIT_iCache_Invalidate = (\<lambda>_ m. m),
      DCBZ_HACK = False\<rparr>"

definition blank_entry :: TLBEntry where
  "blank_entry = \<lparr>tlb_tag = (\<lambda>_. INVALID_TAG), tlb_paddr = (\<lambda>_. 0), tlb_vsid = (\<lambda>_. 0),
     tlb_pte = (\<lambda>_. 0), tlb_recent = 0\<rparr>"

definition blank_memory :: "unit memory" where
  "blank_memory = \<lparr>RAM = (\<lambda>_. 0), EXRAM = (\<lambda>_. 0), L1Cache = (\<lambda>_. 0), FakeVMEM = (\<lambda>_. 0),
     m_dbat_table = (\<lambda>_. 0), m_ibat_table = (\<lambda>_. 0), tlb = (\<lambda>_ _. blank_entry),
     pagetable_base = 0, pagetable_mask = 0, device = ()\<rparr>"

definition board :: "unit sys" where
  "board = (blank_memory, boot_state)"

lemma plain_platform_simps [simp]:
  "HasMemChecks plain_platform = False" "GetRamMask plain_platform = 0x01FFFFFF"
  "HasEXRAM plain_platform = False" "HasFakeVMEM plain_platform = False"
  "HasL1Cache plain_platform = True" "GetRamSizeReal plain_platform = 0x01800000"
  by (simp_all add: plain_platform_def)

end
