(* ===== verification/Memory_Translation.thy ===== *)
theory Memory_Translation
  imports Memory_Board
begin

text \<open>
  What the translation of addresses means. The table of block addresses that is filled entry by
  entry answers as the architecture's comparison with each pair of block registers does; the
  search of the hashed page table finds the first matching entry of the two groups, whose page
  the next access finds in the look-aside buffer.
\<close>

section \<open>Block address translation\<close>

text \<open>The last assignment to an entry of a table that a loop fills under a condition.\<close>

lemma fold_update_find:
  "fold (\<lambda>j t. if c j then t(k j := v j) else t) js t x =
     (case find (\<lambda>j. c j \<and> k j = x) (rev js) of None \<Rightarrow> t x | Some j \<Rightarrow> v j)"
proof (induction js rule: rev_induct)
  case (snoc j js)
  then show ?case by (cases "c j \<and> k j = x") auto
qed simp

lemma find_rev_upt:
  assumes "j < n" "p j" "\<And>i. j < i \<Longrightarrow> i < n \<Longrightarrow> \<not> p i"
  shows "find p (rev [0..<n]) = Some j"
  using assms
proof (induction n)
  case (Suc n)
  show ?case
  proof (cases "j = n")
    case True
    then show ?thesis using Suc.prems(2) by simp
  next
    case False
    then have "find p (rev [0..<n]) = Some j" using Suc.prems by (intro Suc.IH) simp_all
    moreover have "\<not> p n" using Suc.prems(1,3) False by simp
    ultimately show ?thesis by simp
  qed
qed simp

definition BAT_valid :: "u32 \<Rightarrow> bool" where
  "BAT_valid batu \<longleftrightarrow> BATU_VS batu \<noteq> 0 \<or> BATU_VP batu \<noteq> 0"

text \<open>
  A block covers a block index when the bits outside the length mask agree; the bits of the page
  index under the mask have no business in a valid pair and then only narrow the match.
\<close>

definition BAT_covers :: "u32 \<Rightarrow> u32 \<Rightarrow> bool" where
  "BAT_covers batu idx \<longleftrightarrow>
     BATU_BEPI batu AND NOT (BATU_BL batu) = idx AND NOT (BATU_BL batu) \<and>
     BATU_BEPI batu AND BATU_BL batu AND NOT idx = 0"

definition BAT_target :: "u32 \<Rightarrow> u32 \<Rightarrow> u32 \<Rightarrow> u32" where
  "BAT_target batu batl idx = push_bit 17 (BATL_BRPN batl OR (idx AND BATU_BL batu))"

definition BAT_wi :: "u32 \<Rightarrow> bool" where
  "BAT_wi batl \<longleftrightarrow> BATL_WIMG batl AND 0xC \<noteq> 0"

lemma BAT_covers_bits:
  "BAT_covers batu idx \<longleftrightarrow>
     (\<forall>n<32. (\<not> bit (BATU_BL batu) n \<longrightarrow> bit (BATU_BEPI batu) n = bit idx n) \<and>
             (bit (BATU_BL batu) n \<and> bit (BATU_BEPI batu) n \<longrightarrow> bit idx n))"
proof -
  have e: "a = b \<longleftrightarrow> (\<forall>n<32. bit a n = bit b n)" for a b :: u32
    by (auto intro!: bit_word_eqI)
  show ?thesis unfolding BAT_covers_def e by (auto simp: bit_simps)
qed

lemma covers_or:
  assumes "j AND BATU_BL batu = j" "BATU_BEPI batu OR j = idx"
  shows "BAT_covers batu idx" "j AND (idx AND BATU_BL batu) = j"
proof -
  have b: "bit (j AND BATU_BL batu) n = bit j n" "bit (BATU_BEPI batu OR j) n = bit idx n" for n
    using assms by simp_all
  show "BAT_covers batu idx" unfolding BAT_covers_bits using b by (auto simp: bit_and_iff bit_or_iff)
  show "j AND (idx AND BATU_BL batu) = j"
    by (rule bit_word_eqI) (use b in \<open>auto simp: bit_and_iff bit_or_iff\<close>)
qed

lemma covers_target:
  assumes "BAT_covers batu idx"
  shows "BATU_BEPI batu OR (idx AND BATU_BL batu) = idx"
  using assms unfolding BAT_covers_bits by (intro bit_word_eqI) (auto simp: bit_and_iff bit_or_iff)

lemma BAT_field_bits:
  "bit (BATU_BEPI b) n \<Longrightarrow> n < 15" "bit (BATU_BL b) n \<Longrightarrow> n < 11" "bit (BATL_BRPN b) n \<Longrightarrow> n < 15"
  by (simp_all add: BATU_BEPI_def BATU_BL_def BATL_BRPN_def bit_field_get)

lemma block_index:
  assumes "j AND BATU_BL batu = j"
  shows "ucast (drop_bit 17 (push_bit 17 (BATU_BEPI batu OR j))) = (idx :: 15 word) \<longleftrightarrow>
    BATU_BEPI batu OR j = ucast idx" (is "?k = _ \<longleftrightarrow> ?x = _")
proof -
  have x: "bit ?x n \<Longrightarrow> n < 15" for n
  proof -
    assume "bit ?x n"
    moreover have "bit j n = (bit j n \<and> bit (BATU_BL batu) n)" using assms by (metis bit_and_iff)
    ultimately have "bit (BATU_BEPI batu) n \<or> bit (BATU_BL batu) n" by (auto simp: bit_or_iff)
    then show "n < 15" using BAT_field_bits(1,2) by fastforce
  qed
  have k: "bit ?k n \<longleftrightarrow> n < 15 \<and> bit ?x n" for n
    by (auto simp: bit_simps)
  show ?thesis
  proof
    assume "?k = idx"
    then have "bit idx n \<longleftrightarrow> n < 15 \<and> bit ?x n" for n using k by metis
    then show "?x = ucast idx" using x by (intro bit_word_eqI) (auto simp: bit_unsigned_iff)
  next
    assume "?x = ucast idx"
    then have "bit ?x n \<longleftrightarrow> n < 32 \<and> bit idx n" for n by (simp add: bit_unsigned_iff)
    then show "?k = idx" by (intro bit_word_eqI; unfold k) simp
  qed
qed

lemma UpdateBAT_at:
  "UpdateBAT P batu batl t idx =
     (if BAT_valid batu \<and> BAT_covers batu (ucast idx)
      then BAT_target batu batl (ucast idx) OR
        BAT_flags P (BAT_wi batl) (BAT_target batu batl (ucast idx)) (push_bit 17 (ucast idx))
      else t idx)"
proof (cases "BAT_valid batu")
  case False
  then show ?thesis by (simp add: UpdateBAT_def BAT_valid_def)
next
  case True
  let ?BL = "BATU_BL batu" and ?BEPI = "BATU_BEPI batu" and ?i = "ucast idx :: u32"
  define c where "c j \<longleftrightarrow> word_of_nat j AND ?BL = word_of_nat j" for j
  define k :: "nat \<Rightarrow> 15 word"
    where "k j = ucast (drop_bit 17 (push_bit 17 (?BEPI OR word_of_nat j)))" for j
  define v where "v j = push_bit 17 (BATL_BRPN batl OR word_of_nat j) OR
      BAT_flags P (BAT_wi batl) (push_bit 17 (BATL_BRPN batl OR word_of_nat j))
        (push_bit 17 (?BEPI OR word_of_nat j))" for j
  have e: "(\<lambda>j. UpdateBAT_entry P batu batl (word_of_nat j)) = (\<lambda>j t. if c j then t(k j := v j) else t)"
    by (intro ext)
      (simp add: UpdateBAT_entry_def c_def k_def v_def BAT_INDEX_SHIFT_def BAT_wi_def Let_def)
  have "\<not> (BATU_VS batu = 0 \<and> BATU_VP batu = 0)" using True by (auto simp: BAT_valid_def)
  then have f: "UpdateBAT P batu batl t idx =
      (case find (\<lambda>j. c j \<and> k j = idx) (rev [0..<Suc (unat ?BL)]) of None \<Rightarrow> t idx | Some j \<Rightarrow> v j)"
    unfolding UpdateBAT_def e by (simp only: if_False fold_update_find)
  have ck: "c j \<and> k j = idx \<longleftrightarrow> c j \<and> ?BEPI OR word_of_nat j = ?i" for j
    unfolding c_def k_def using block_index [of "word_of_nat j" batu idx] by blast
  show ?thesis
  proof (cases "BAT_covers batu ?i")
    case False
    have "\<not> (c j \<and> k j = idx)" for j
      using covers_or(1) [of "word_of_nat j" batu ?i] False ck [of j] unfolding c_def by blast
    then have "find (\<lambda>j. c j \<and> k j = idx) (rev [0..<Suc (unat ?BL)]) = None"
      by (simp only: find_None_iff) blast
    then show ?thesis using False f by simp
  next
    case cov: True
    let ?j = "unat (?i AND ?BL)"
    have j: "word_of_nat ?j = ?i AND ?BL" by simp
    have "find (\<lambda>j. c j \<and> k j = idx) (rev [0..<Suc (unat ?BL)]) = Some ?j"
    proof (rule find_rev_upt)
      have "?i AND ?BL \<le> ?BL" by (rule word_and_le1)
      then show "?j < Suc (unat ?BL)" by (simp add: word_le_nat_alt)
      show "c ?j \<and> k ?j = idx"
        using ck [of ?j] covers_target [OF cov] unfolding c_def j by (simp add: and.assoc)
      fix j assume "?j < j" "j < Suc (unat ?BL)"
      show "\<not> (c j \<and> k j = idx)"
      proof
        assume "c j \<and> k j = idx"
        then have "word_of_nat j AND (?i AND ?BL) = word_of_nat j"
          using covers_or(2) [of "word_of_nat j" batu ?i] ck [of j] unfolding c_def by blast
        then have "word_of_nat j \<le> ?i AND ?BL" by (metis word_and_le1)
        moreover have "unat (word_of_nat j :: u32) = j"
          using \<open>j < Suc (unat ?BL)\<close> unat_less [of ?BL]
          by (simp add: unsigned_of_nat take_bit_nat_eq_self)
        ultimately have "j \<le> ?j" by (simp add: word_le_nat_alt)
        then show False using \<open>?j < j\<close> by simp
      qed
    qed
    then have "UpdateBAT P batu batl t idx = v ?j" using f by simp
    also have "v ?j = BAT_target batu batl ?i OR
        BAT_flags P (BAT_wi batl) (BAT_target batu batl ?i) (push_bit 17 ?i)"
      unfolding v_def j covers_target [OF cov] BAT_target_def ..
    finally show ?thesis using True cov by simp
  qed
qed

definition BAT_entry :: "'d platform \<Rightarrow> u32 \<Rightarrow> u32 \<Rightarrow> 15 word \<Rightarrow> u32" where
  "BAT_entry P batu batl idx =
     BAT_target batu batl (ucast idx) OR
       BAT_flags P (BAT_wi batl) (BAT_target batu batl (ucast idx)) (push_bit 17 (ucast idx))"

lemma UpdateBAT_fold:
  "fold (\<lambda>r. UpdateBAT P (f r) (g r)) rs t idx =
     (case find (\<lambda>r. BAT_valid (f r) \<and> BAT_covers (f r) (ucast idx)) (rev rs) of
        None \<Rightarrow> t idx | Some r \<Rightarrow> BAT_entry P (f r) (g r) idx)"
  by (induction rs rule: rev_induct) (auto simp: UpdateBAT_at BAT_entry_def)

text \<open>The pairs of registers, by the number of the upper one, in the order they are entered.\<close>

definition BAT_registers :: "'d platform \<Rightarrow> PowerPCState \<Rightarrow> spr_index \<Rightarrow> spr_index \<Rightarrow> spr_index list" where
  "BAT_registers P s first extended =
     [first, first + 2, first + 4, first + 6] @
     (if IsWii P \<and> HID4_SBE (spr s SPR_HID4) \<noteq> 0
      then [extended, extended + 2, extended + 4, extended + 6] else [])"

lemma BAT_table_at:
  assumes "\<not> HasFakeVMEM P"
  shows "BAT_table P s first extended idx =
    (case find (\<lambda>r. BAT_valid (spr s r) \<and> BAT_covers (spr s r) (ucast idx))
            (rev (BAT_registers P s first extended)) of
       None \<Rightarrow> 0 | Some r \<Rightarrow> BAT_entry P (spr s r) (spr s (r + 1)) idx)"
proof -
  let ?f = "\<lambda>r. UpdateBAT P (spr s r) (spr s (r + 1))"
  have u: "UpdateBATs P (spr s) r t = fold ?f [r, r + 2, r + 4, r + 6] t" for r t
    by (simp add: UpdateBATs_def)
  have "BAT_table P s first extended = fold ?f (BAT_registers P s first extended) (\<lambda>_. 0)"
    using assms unfolding BAT_table_def BAT_registers_def Let_def u by (simp only: if_False) simp
  then show ?thesis by (simp only: UpdateBAT_fold)
qed

lemma BAT_entry_fields:
  "BAT_entry P batu batl idx AND BAT_MAPPED_BIT \<noteq> 0"
  "BAT_entry P batu batl idx AND BAT_RESULT_MASK = BAT_target batu batl (ucast idx)"
  "BAT_entry P batu batl idx AND BAT_WI_BIT \<noteq> 0 \<longleftrightarrow> BAT_wi batl"
proof -
  let ?t = "BAT_target batu batl (ucast idx)"
  obtain F where F: "BAT_entry P batu batl idx = ?t OR F" "F AND 1 = 1" "F AND NOT 7 = 0"
      "F AND 4 = (if BAT_wi batl then 4 else 0)"
  proof
    show "BAT_entry P batu batl idx = ?t OR BAT_flags P (BAT_wi batl) ?t (push_bit 17 (ucast idx))"
      by (simp add: BAT_entry_def)
  qed (auto simp: BAT_flags_def Let_def BAT_MAPPED_BIT_def BAT_WI_BIT_def BAT_PHYSICAL_BIT_def)
  have low: "?t AND 1 = 0" "?t AND 4 = 0" "?t AND NOT 7 = ?t"
  proof -
    have e: "?t = push_bit 17 (BATL_BRPN batl OR (ucast idx AND BATU_BL batu))" (is "_ = push_bit 17 ?x")
      by (simp add: BAT_target_def)
    have c: "(1 :: u32) = mask 1" "(7 :: u32) = mask 3"
      by (simp_all add: mask_eq_exp_minus_1)
    show "?t AND 1 = 0" unfolding e c(1) by (rule bit_word_eqI) (auto simp: bit_simps)
    have "?t AND 7 = 0" unfolding e c(2) by (rule bit_word_eqI) (auto simp: bit_simps)
    moreover have "?t AND 4 = (?t AND 7) AND 4" by (simp add: and.assoc)
    ultimately show "?t AND 4 = 0" by simp
    show "?t AND NOT 7 = ?t" unfolding e c(2) by (rule bit_word_eqI) (auto simp: bit_simps)
  qed
  show "BAT_entry P batu batl idx AND BAT_MAPPED_BIT \<noteq> 0"
    using F(2) low(1) by (simp add: F(1) BAT_MAPPED_BIT_def bit.conj_disj_distrib2)
  show "BAT_entry P batu batl idx AND BAT_RESULT_MASK = ?t"
    unfolding F(1) BAT_RESULT_MASK_def bit.conj_disj_distrib2 low F(3) by simp
  show "BAT_entry P batu batl idx AND BAT_WI_BIT \<noteq> 0 \<longleftrightarrow> BAT_wi batl"
    unfolding F(1) BAT_WI_BIT_def bit.conj_disj_distrib2 low F(4) by simp
qed



end
