(* ===== verification/Interpreter_Core.thy ===== *)
theory Interpreter_Core
  imports Decode_Tables Memory_Control Interpreter_Integer Interpreter_Branch Interpreter_System
begin

text \<open>
  The interpreter's loop, \<^verbatim>\<open>Interpreter.cpp\<close>, with the dispatch of
  \<^verbatim>\<open>Interpreter_Tables.cpp\<close>: a step fetches the word at the program counter through the
  memory management unit, looks its function up, runs it and takes the exceptions it raises. Here
  the parts of the processor meet: the functions of the integer, branch and system theories act on
  the interpreter, those of the load and store theory on the memory management unit.

  Arguments of the model are the collaborators outside it: the floating-point and paired
  functions, high level emulation, the timers. A call that an instruction made to another part of
  the system, recorded in \<open>host\<close>, is carried out when its function returns, in the order of the
  calls.
\<close>

section \<open>State and collaborators\<close>

record 'd core =
  core_memory :: "'d memory"
  interpreter :: Interpreter
  downcount :: "32 word"
  slice_length :: "32 word"

definition m_ppc :: "'d core \<Rightarrow> PowerPCState" where
  "m_ppc c = m_ppc_state (interpreter c)"

text \<open>A hook of the high level emulation: its index, and whether it runs before the function.\<close>

record 'd core_env =
  platform_of :: "'d platform"
  hw_of :: "'d core \<Rightarrow> hw"
  float_function :: "Instruction \<Rightarrow> u32 \<Rightarrow> 'd core \<Rightarrow> 'd core"
  TryReplaceFunction :: "u32 \<Rightarrow> 'd core \<Rightarrow> (u32 \<times> bool) option"
  HLE_Execute :: "u32 \<Rightarrow> u32 \<Rightarrow> 'd core \<Rightarrow> 'd core"
  device_call :: "host_call \<Rightarrow> 'd core \<Rightarrow> 'd core"
  CoreTiming_Advance :: "'d core \<Rightarrow> 'd core"
  CPU_Running :: "'d core \<Rightarrow> bool"

definition on_processor :: "(PowerPCState \<Rightarrow> PowerPCState) \<Rightarrow> 'd core \<Rightarrow> 'd core" where
  "on_processor f c = c\<lparr>interpreter := on_ppc f (interpreter c)\<rparr>"

definition on_system :: "('d sys \<Rightarrow> 'd sys) \<Rightarrow> 'd core \<Rightarrow> 'd core" where
  "on_system f c =
     (let (d, s) = f (core_memory c, m_ppc c)
      in on_processor (\<lambda>_. s) (c\<lparr>core_memory := d\<rparr>))"

definition host_effect :: "'d core_env \<Rightarrow> host_call \<Rightarrow> 'd core \<Rightarrow> 'd core" where
  "host_effect E call c =
     (let P = platform_of E
      in case call of
           PageTableUpdated \<Rightarrow> on_system (MMU_PageTableUpdated P) c
         | SDRUpdated \<Rightarrow> on_system (MMU_SDRUpdated P) c
         | IBATUpdated \<Rightarrow> on_system (MMU_IBATUpdated P) c
         | DBATUpdated \<Rightarrow> on_system (MMU_DBATUpdated P) c
         | DMA_MemoryToLC cache_address mem_address num_blocks \<Rightarrow>
             on_system (MMU_DMA_MemoryToLC P cache_address mem_address num_blocks) c
         | DMA_LCToMemory mem_address cache_address num_blocks \<Rightarrow>
             on_system (MMU_DMA_LCToMemory P mem_address cache_address num_blocks) c
         | _ \<Rightarrow> device_call E call c)"

definition on_interpreter :: "'d core_env \<Rightarrow> (Interpreter \<Rightarrow> Interpreter) \<Rightarrow> 'd core \<Rightarrow> 'd core" where
  "on_interpreter E f c =
     (let i = f ((interpreter c)\<lparr>host := []\<rparr>)
      in fold (host_effect E) (host i) (c\<lparr>interpreter := i\<rparr>))"

section \<open>The functions of the instructions\<close>

text \<open>The word before an unknown one is read for the log; the rest of the report has no effect.\<close>

definition Interpreter_Init :: "'d core \<Rightarrow> 'd core" where
  "Interpreter_Init c = c\<lparr>interpreter := (interpreter c)\<lparr>m_end_block := False\<rparr>\<rparr>"

definition unknown_instruction :: "'d core_env \<Rightarrow> u32 \<Rightarrow> 'd core \<Rightarrow> 'd core" where
  "unknown_instruction E inst c =
     (let P = platform_of E
      in on_system (\<lambda>m.
           (let (opcode, m) = ReadFromHardware P NoException 4 (m_last_pc (interpreter c)) m
            in if IsPauseOnPanicMode P then CPU_Break P m else m)) c)"

definition processor_functions :: "(Instruction \<times> (u32 \<Rightarrow> PowerPCState \<Rightarrow> PowerPCState)) list" where
  "processor_functions =
     [(''mulli'', mulli), (''subfic'', subfic), (''cmpli'', cmpli), (''cmpi'', cmpi),
      (''addic'', addic), (''addic_rc'', addic_rc), (''addi'', addi), (''addis'', addis),
      (''rlwimix'', rlwimix), (''rlwinmx'', rlwinmx), (''rlwnmx'', rlwnmx),
      (''ori'', ori), (''oris'', oris), (''xori'', xori), (''xoris'', xoris),
      (''andi_rc'', andi_rc), (''andis_rc'', andis_rc),
      (''addx'', addx), (''addcx'', addcx), (''addex'', addex), (''addmex'', addmex),
      (''addzex'', addzex), (''divwx'', divwx), (''divwux'', divwux), (''mulhwx'', mulhwx),
      (''mulhwux'', mulhwux), (''mullwx'', mullwx), (''negx'', negx), (''subfx'', subfx),
      (''subfcx'', subfcx), (''subfex'', subfex), (''subfmex'', subfmex), (''subfzex'', subfzex),
      (''andx'', andx), (''andcx'', andcx), (''orx'', orx), (''norx'', norx), (''xorx'', xorx),
      (''orcx'', orcx), (''nandx'', nandx), (''eqvx'', eqvx), (''cmp'', cmp), (''cmpl'', cmpl),
      (''cntlzwx'', cntlzwx), (''extshx'', extshx), (''extsbx'', extsbx), (''srwx'', srwx),
      (''srawx'', srawx), (''srawix'', srawix), (''slwx'', slwx),
      (''crand'', crand), (''crandc'', crandc), (''creqv'', creqv), (''crnand'', crnand),
      (''crnor'', crnor), (''cror'', cror), (''crorc'', crorc), (''crxor'', crxor),
      (''isync'', isync), (''mcrf'', mcrf), (''mfcr'', mfcr), (''mfmsr'', mfmsr),
      (''mtcrf'', mtcrf), (''mcrxr'', mcrxr), (''mfsr'', mfsr), (''mfsrin'', mfsrin),
      (''mffsx'', mffsx)]"

definition interpreter_functions :: "(Instruction \<times> (u32 \<Rightarrow> Interpreter \<Rightarrow> Interpreter)) list" where
  "interpreter_functions =
     [(''bcx'', bcx), (''bx'', bx), (''bcctrx'', bcctrx), (''bclrx'', bclrx), (''rfi'', rfi),
      (''sc'', sc), (''twi'', twi), (''tw'', tw), (''mtmsr'', mtmsr), (''mtsr'', mtsr),
      (''mtsrin'', mtsrin), (''mtspr'', mtspr), (''mcrfs'', mcrfs), (''mtfsb0x'', mtfsb0x),
      (''mtfsb1x'', mtfsb1x), (''mtfsfix'', mtfsfix), (''mtfsfx'', mtfsfx)]"

definition memory_functions :: "(Instruction \<times> ('m mmu \<Rightarrow> u32 \<Rightarrow> 'm machine \<Rightarrow> 'm machine)) list" where
  "memory_functions =
     [(''lwz'', lwz), (''lwzu'', lwzu), (''lbz'', lbz), (''lbzu'', lbzu), (''lhz'', lhz),
      (''lhzu'', lhzu), (''lha'', lha), (''lhau'', lhau), (''sth'', sth), (''sthu'', sthu),
      (''stw'', stw), (''stwu'', stwu), (''stb'', stb), (''stbu'', stbu), (''lmw'', lmw),
      (''stmw'', stmw), (''lfs'', lfs), (''lfsu'', lfsu), (''lfd'', lfd), (''lfdu'', lfdu),
      (''stfs'', stfs), (''stfsu'', stfsu), (''stfd'', stfd), (''stfdu'', stfdu),
      (''dcbz_l'', dcbz_l), (''dcbst'', dcbst), (''dcbf'', dcbf), (''dcbtst'', dcbtst),
      (''dcbt'', dcbt), (''dcbi'', dcbi), (''dcba'', dcba), (''dcbz'', dcbz),
      (''lwzx'', lwzx), (''lwzux'', lwzux), (''lhzx'', lhzx), (''lhzux'', lhzux),
      (''lhax'', lhax), (''lhaux'', lhaux), (''lbzx'', lbzx), (''lbzux'', lbzux),
      (''lwbrx'', lwbrx), (''lhbrx'', lhbrx), (''stwcxd'', stwcxd), (''lwarx'', lwarx),
      (''lswx'', lswx), (''lswi'', lswi), (''stwx'', stwx), (''stwux'', stwux),
      (''sthx'', sthx), (''sthux'', sthux), (''stbx'', stbx), (''stbux'', stbux),
      (''stwbrx'', stwbrx), (''sthbrx'', sthbrx), (''stswx'', stswx), (''stswi'', stswi),
      (''lfsx'', lfsx), (''lfsux'', lfsux), (''lfdx'', lfdx), (''lfdux'', lfdux),
      (''stfsx'', stfsx), (''stfsux'', stfsux), (''stfdx'', stfdx), (''stfdux'', stfdux),
      (''stfiwx'', stfiwx), (''sync'', ppc_sync), (''icbi'', icbi), (''eciwx'', eciwx),
      (''ecowx'', ecowx), (''eieio'', eieio), (''tlbie'', tlbie), (''tlbsync'', tlbsync)]"

definition function_table :: "'d core_env \<Rightarrow> (Instruction \<times> (u32 \<Rightarrow> 'd core \<Rightarrow> 'd core)) list" where
  "function_table E =
     map (\<lambda>(name, f). (name, \<lambda>inst. on_processor (f inst))) processor_functions @
     map (\<lambda>(name, f). (name, \<lambda>inst. on_interpreter E (f inst))) interpreter_functions @
     map (\<lambda>(name, f). (name, \<lambda>inst. on_system (f (MMU (platform_of E)) inst))) memory_functions @
     [(''mfspr'', \<lambda>inst c. on_processor (mfspr (hw_of E c) inst) c),
      (''mftb'', \<lambda>inst c. on_processor (mftb (hw_of E c) inst) c),
      (''unknown_instruction'', unknown_instruction E)]"

definition run_function :: "'d core_env \<Rightarrow> Instruction \<Rightarrow> u32 \<Rightarrow> 'd core \<Rightarrow> 'd core" where
  "run_function E name inst =
     (case map_of (function_table E) name of Some f \<Rightarrow> f inst | None \<Rightarrow> float_function E name inst)"

section \<open>Dispatch\<close>

definition RunTable4 :: "'d core_env \<Rightarrow> u32 \<Rightarrow> 'd core \<Rightarrow> 'd core" where
  "RunTable4 E inst = run_function E (the s_interpreter_op_table4 (unat (SUBOP10 inst))) inst"

definition RunTable19 :: "'d core_env \<Rightarrow> u32 \<Rightarrow> 'd core \<Rightarrow> 'd core" where
  "RunTable19 E inst = run_function E (the s_interpreter_op_table19 (unat (SUBOP10 inst))) inst"

definition RunTable31 :: "'d core_env \<Rightarrow> u32 \<Rightarrow> 'd core \<Rightarrow> 'd core" where
  "RunTable31 E inst = run_function E (the s_interpreter_op_table31 (unat (SUBOP10 inst))) inst"

definition RunTable59 :: "'d core_env \<Rightarrow> u32 \<Rightarrow> 'd core \<Rightarrow> 'd core" where
  "RunTable59 E inst = run_function E (the s_interpreter_op_table59 (unat (SUBOP5 inst))) inst"

definition RunTable63 :: "'d core_env \<Rightarrow> u32 \<Rightarrow> 'd core \<Rightarrow> 'd core" where
  "RunTable63 E inst = run_function E (the s_interpreter_op_table63 (unat (SUBOP10 inst))) inst"

definition RunInterpreterOp :: "'d core_env \<Rightarrow> u32 \<Rightarrow> 'd core \<Rightarrow> 'd core" where
  "RunInterpreterOp E inst =
     (let fn = the s_interpreter_op_table (unat (OPCD inst))
      in if fn = ''RunTable4'' then RunTable4 E inst
         else if fn = ''RunTable19'' then RunTable19 E inst
         else if fn = ''RunTable31'' then RunTable31 E inst
         else if fn = ''RunTable59'' then RunTable59 E inst
         else if fn = ''RunTable63'' then RunTable63 E inst
         else run_function E fn inst)"

section \<open>A step\<close>

definition IsPairedSingleQuantizedNonIndexedInstruction :: "u32 \<Rightarrow> bool" where
  "IsPairedSingleQuantizedNonIndexedInstruction inst \<longleftrightarrow>
     (let opcode = OPCD inst in opcode = 0x38 \<or> opcode = 0x39 \<or> opcode = 0x3C \<or> opcode = 0x3D)"

definition IsPairedSingleInstruction :: "u32 \<Rightarrow> bool" where
  "IsPairedSingleInstruction inst \<longleftrightarrow>
     OPCD inst = 4 \<or> IsPairedSingleQuantizedNonIndexedInstruction inst"

definition IsInvalidPairedSingleExecution :: "PowerPCState \<Rightarrow> u32 \<Rightarrow> bool" where
  "IsInvalidPairedSingleExecution s inst \<longleftrightarrow>
     (let hid2 = spr s SPR_HID2
      in if HID2_PSE hid2 = 0 \<and> IsPairedSingleInstruction inst then True
         else HID2_PSE hid2 \<noteq> 0 \<and> HID2_LSQE hid2 = 0 \<and>
              IsPairedSingleQuantizedNonIndexedInstruction inst)"

definition UpdatePC :: "'d core \<Rightarrow> 'd core" where
  "UpdatePC c =
     on_processor (\<lambda>s. s\<lparr>pc := npc s\<rparr>) (c\<lparr>interpreter := (interpreter c)\<lparr>m_last_pc := pc (m_ppc c)\<rparr>\<rparr>)"

definition Interpreter_CheckExceptions :: "'d core_env \<Rightarrow> 'd core \<Rightarrow> 'd core" where
  "Interpreter_CheckExceptions E c =
     (let c = on_interpreter E CheckExceptions c
      in c\<lparr>interpreter := (interpreter c)\<lparr>m_end_block := True\<rparr>\<rparr>)"

definition HLEFunction :: "'d core_env \<Rightarrow> u32 \<Rightarrow> 'd core \<Rightarrow> 'd core" where
  "HLEFunction E inst c =
     (let c = c\<lparr>interpreter := (interpreter c)\<lparr>m_end_block := True\<rparr>\<rparr>
      in HLE_Execute E (pc (m_ppc c)) inst c)"

definition HandleFunctionHooking :: "'d core_env \<Rightarrow> u32 \<Rightarrow> 'd core \<Rightarrow> bool \<times> 'd core" where
  "HandleFunctionHooking E address c =
     (case TryReplaceFunction E address c of
        None \<Rightarrow> (False, c)
      | Some (hook_index, start) \<Rightarrow> (\<not> start, HLEFunction E hook_index c))"

definition execute :: "'d core_env \<Rightarrow> u32 \<Rightarrow> 'd core \<Rightarrow> 'd core" where
  "execute E inst c =
     (let run = (\<lambda>c. let c = RunInterpreterOp E inst c
                     in if Exceptions (m_ppc c) AND EXCEPTION_DSI \<noteq> 0
                        then Interpreter_CheckExceptions E c else c)
      in if inst \<noteq> 0 then
           (if IsInvalidPairedSingleExecution (m_ppc c) inst then
              Interpreter_CheckExceptions E (on_processor (GenerateProgramException IllegalInstruction) c)
            else if MSR_FP (msr (m_ppc c)) \<noteq> 0 then run c
            else if op_flags (GetOpInfo inst) AND FL_USE_FPU \<noteq> 0 then
              Interpreter_CheckExceptions E
                (on_processor (\<lambda>s. s\<lparr>Exceptions := Exceptions s OR EXCEPTION_FPU_UNAVAILABLE\<rparr>) c)
            else run c)
         else Interpreter_CheckExceptions E c)"

definition SingleStepInner :: "'d core_env \<Rightarrow> 'd core \<Rightarrow> u32 \<times> 'd core" where
  "SingleStepInner E c =
     (let (hooked, c) = HandleFunctionHooking E (pc (m_ppc c)) c
      in if hooked then
           (let c = UpdatePC c in (num_cycles (GetOpInfo (m_prev_inst (interpreter c))), c))
         else
           (let c = on_processor (\<lambda>s. s\<lparr>npc := pc s + 4\<rparr>) c;
                (inst, m) = Read_Opcode (platform_of E) (pc (m_ppc c)) (core_memory c, m_ppc c);
                c = on_system (\<lambda>_. m) c;
                c = c\<lparr>interpreter := (interpreter c)\<lparr>m_prev_inst := inst\<rparr>\<rparr>;
                opinfo = GetOpInfo inst;
                c = UpdatePC (execute E inst c)
            in (num_cycles opinfo,
                on_processor (UpdatePerformanceMonitor (num_cycles opinfo)
                  (of_bool (op_flags opinfo AND FL_LOADSTORE \<noteq> 0))
                  (of_bool (op_flags opinfo AND FL_USE_FPU \<noteq> 0))) c)))"

definition SingleStep :: "'d core_env \<Rightarrow> 'd core \<Rightarrow> 'd core" where
  "SingleStep E c =
     (let c = CoreTiming_Advance E c;
          c = snd (SingleStepInner E c);
          c = c\<lparr>slice_length := 1, downcount := 0\<rparr>
      in if Exceptions (m_ppc c) \<noteq> 0
         then on_processor (\<lambda>s. s\<lparr>pc := npc s\<rparr>) (on_interpreter E CheckExceptions c)
         else c)"

text \<open>
  The fast loop of \<^verbatim>\<open>Interpreter::Run\<close>: a block runs until an instruction ends it, a slice
  until its cycles are used up, slices while the emulation runs. None of them has a bound of its
  own, so not returning is \<open>None\<close>. The loop of the debugger, which differs by its break points,
  is left out.
\<close>

partial_function (option) run_block ::
  "'d core_env \<Rightarrow> 32 word \<Rightarrow> 'd core \<Rightarrow> (32 word \<times> 'd core) option" where
  "run_block E cycles c =
     (if m_end_block (interpreter c) then Some (cycles, c)
      else (let (n, c) = SingleStepInner E c in run_block E (cycles + n) c))"

partial_function (option) run_slice :: "'d core_env \<Rightarrow> 'd core \<Rightarrow> 'd core option" where
  "run_slice E c =
     (if sint (downcount c) > 0 then
        Option.bind (run_block E 0 (c\<lparr>interpreter := (interpreter c)\<lparr>m_end_block := False\<rparr>\<rparr>))
          (\<lambda>(cycles, c). run_slice E (c\<lparr>downcount := downcount c - cycles\<rparr>))
      else Some c)"

partial_function (option) Interpreter_Run :: "'d core_env \<Rightarrow> 'd core \<Rightarrow> 'd core option" where
  "Interpreter_Run E c =
     (if CPU_Running E c
      then Option.bind (run_slice E (CoreTiming_Advance E c)) (Interpreter_Run E)
      else Some c)"

end
