(* ===== verification/Memory_Invariant.thy ===== *)
theory Memory_Invariant
  imports Memory_Control Interpreter_System
begin

text \<open>
  The invariant \<open>cpu_ok\<close> of the processor under the memory management unit: no access, whatever
  path it takes through translation, caches, devices and faults, breaks the invariant, as long as the
  devices do not. The interface \<open>kept_memory\<close> states it of the operations the load and store
  instructions call; their lemmas over it need nothing else of the memory.
\<close>

section \<open>Devices that keep the invariant\<close>

definition keeps :: "('m machine \<Rightarrow> 'm machine) \<Rightarrow> bool" where
  "keeps f \<longleftrightarrow> (\<forall>m. cpu_ok (snd m) \<longrightarrow> cpu_ok (snd (f m)))"

definition yields :: "('m machine \<Rightarrow> 'a \<times> 'm machine) \<Rightarrow> bool" where
  "yields f \<longleftrightarrow> (\<forall>m. cpu_ok (snd m) \<longrightarrow> cpu_ok (snd (snd (f m))))"

definition platform_ok :: "'d platform \<Rightarrow> bool" where
  "platform_ok P \<longleftrightarrow>
     (\<forall>x y. yields (PeekDepth P x y) \<and> yields (PeekColor P x y)) \<and>
     (\<forall>x y v. keeps (PokeDepth P x y v) \<and> keeps (PokeColor P x y v)) \<and>
     (\<forall>n a. yields (MMIO_Read P n a)) \<and> (\<forall>n a v. keeps (MMIO_Write P n a v)) \<and>
     (\<forall>v. keeps (GPFifo_Write8 P v)) \<and> (\<forall>v. keeps (GPFifo_Write16 P v)) \<and>
     (\<forall>v. keeps (GPFifo_Write32 P v)) \<and> keeps (SetInterrupt_PI P) \<and> keeps (CPU_Break P) \<and>
     (\<forall>a n l. yields (dCache_Read P a n l)) \<and> (\<forall>a bs l. keeps (dCache_Write P a bs l)) \<and>
     (\<forall>a. keeps (dCache_Store P a) \<and> keeps (dCache_Invalidate P a) \<and> keeps (dCache_Flush P a)) \<and>
     (\<forall>a b. keeps (dCache_Touch P a b)) \<and> (\<forall>a. yields (iCache_ReadInstruction P a)) \<and>
     (\<forall>a v w n. yields (memcheck_pauses P a v w n)) \<and>
     keeps (host_PageTableUpdated P) \<and> keeps (host_ClearPageTable P) \<and>
     keeps (host_ReloadPageTable P) \<and> keeps (host_UpdateDBATMappings P) \<and> keeps (JIT_ClearSafe P) \<and>
     (\<forall>a. keeps (JIT_InvalidateICacheLine P a) \<and> keeps (JIT_iCache_Invalidate P a))"

named_theorems kept \<open>operations that keep the processor's invariant\<close>

lemma keepsD [kept]: "keeps f \<Longrightarrow> cpu_ok (snd m) \<Longrightarrow> cpu_ok (snd (f m))"
  unfolding keeps_def by blast

lemma yieldsD: "yields f \<Longrightarrow> cpu_ok (snd m) \<Longrightarrow> cpu_ok (snd (snd (f m)))"
  unfolding yields_def by blast

lemma keepsI: "(\<And>m. cpu_ok (snd m) \<Longrightarrow> cpu_ok (snd (f m))) \<Longrightarrow> keeps f"
  by (simp add: keeps_def)

lemma yieldsI: "(\<And>m. cpu_ok (snd m) \<Longrightarrow> cpu_ok (snd (snd (f m)))) \<Longrightarrow> yields f"
  by (simp add: yields_def)

lemma snd_on_cpu [simp]: "snd (on_cpu f m) = f (snd m)"
  by (simp add: on_cpu_def)

lemma snd_on_memory [simp]: "snd (on_memory f m) = snd m"
  by (simp add: on_memory_def)

lemma kept_fold:
  "(\<And>x m. cpu_ok (snd m) \<Longrightarrow> cpu_ok (snd (f x m))) \<Longrightarrow> cpu_ok (snd m) \<Longrightarrow> cpu_ok (snd (fold f xs m))"
  by (induction xs arbitrary: m) auto

lemma platform_okD:
  assumes "platform_ok P" "cpu_ok (snd m)"
  shows "cpu_ok (snd (snd (PeekDepth P x y m)))" "cpu_ok (snd (snd (PeekColor P x y m)))"
    "cpu_ok (snd (PokeDepth P x y v m))" "cpu_ok (snd (PokeColor P x y v m))"
    "cpu_ok (snd (snd (MMIO_Read P n a m)))" "cpu_ok (snd (MMIO_Write P n a v m))"
    "cpu_ok (snd (GPFifo_Write8 P v8 m))" "cpu_ok (snd (GPFifo_Write16 P v16 m))"
    "cpu_ok (snd (GPFifo_Write32 P v m))" "cpu_ok (snd (SetInterrupt_PI P m))"
    "cpu_ok (snd (CPU_Break P m))" "cpu_ok (snd (snd (dCache_Read P a n l m)))"
    "cpu_ok (snd (dCache_Write P a bs l m))" "cpu_ok (snd (dCache_Store P a m))"
    "cpu_ok (snd (dCache_Invalidate P a m))" "cpu_ok (snd (dCache_Flush P a m))"
    "cpu_ok (snd (dCache_Touch P a l m))" "cpu_ok (snd (snd (iCache_ReadInstruction P a m)))"
    "cpu_ok (snd (snd (memcheck_pauses P a v64 l n m)))" "cpu_ok (snd (host_PageTableUpdated P m))"
    "cpu_ok (snd (host_ClearPageTable P m))" "cpu_ok (snd (host_ReloadPageTable P m))"
    "cpu_ok (snd (host_UpdateDBATMappings P m))" "cpu_ok (snd (JIT_ClearSafe P m))"
    "cpu_ok (snd (JIT_InvalidateICacheLine P a m))" "cpu_ok (snd (JIT_iCache_Invalidate P a m))"
  using assms by (simp_all add: platform_ok_def keepsD yieldsD)

section \<open>Reads\<close>

lemma kept_panic_break [kept]: "platform_ok P \<Longrightarrow> cpu_ok (snd m) \<Longrightarrow> cpu_ok (snd (panic_break P m))"
  by (simp add: panic_break_def cpu_ok_simps platform_okD)

lemma SPR_DSISR_other: "SPR_DSISR \<noteq> SPR_MMCR0" "SPR_DSISR \<noteq> SPR_MMCR1"
  by (simp_all add: SPR_DSISR_def SPR_MMCR0_def SPR_MMCR1_def)

lemma SPR_DAR_other: "SPR_DAR \<noteq> SPR_MMCR0" "SPR_DAR \<noteq> SPR_MMCR1"
  by (simp_all add: SPR_DAR_def SPR_MMCR0_def SPR_MMCR1_def)

lemma kept_DSI [kept]:
  "platform_ok P \<Longrightarrow> cpu_ok (snd m) \<Longrightarrow> cpu_ok (snd (MMU_GenerateDSIException P a w m))"
  by (simp add: MMU_GenerateDSIException_def Let_def kept_panic_break cpu_ok_simps SPR_DSISR_other
      SPR_DAR_other)

lemma kept_ISI [kept]: "cpu_ok (snd m) \<Longrightarrow> cpu_ok (snd (GenerateISIException a m))"
proof -
  have "(snd m)\<lparr>npc := a, Exceptions := e\<rparr> = ((snd m)\<lparr>npc := a\<rparr>)\<lparr>Exceptions := e\<rparr>" for e by simp
  then show "cpu_ok (snd m) \<Longrightarrow> ?thesis" by (simp add: GenerateISIException_def cpu_ok_frame)
qed

lemma kept_EFB [kept]:
  "platform_ok P \<Longrightarrow> cpu_ok (snd m) \<Longrightarrow> cpu_ok (snd (snd (EFB_Read P a m)))"
  "platform_ok P \<Longrightarrow> cpu_ok (snd m) \<Longrightarrow> cpu_ok (snd (EFB_Write P v a m))"
  by (simp_all add: EFB_Read_def EFB_Write_def Let_def platform_okD)

lemma kept_physical_read [kept]:
  "platform_ok P \<Longrightarrow> cpu_ok (snd m) \<Longrightarrow> cpu_ok (snd (snd (physical_read P flag wi n a m)))"
  by (simp add: physical_read_def read_cached_def read_error_def Let_def case_prod_beta kept platform_okD)

lemma kept_read_bytes:
  "(\<And>a m. cpu_ok (snd m) \<Longrightarrow> cpu_ok (snd (snd (rd a m)))) \<Longrightarrow> cpu_ok (snd m) \<Longrightarrow>
   cpu_ok (snd (snd (read_bytes rd n a v m)))"
  by (induction n arbitrary: a v m) (auto simp: case_prod_beta)

lemma kept_split_read:
  "(\<And>n a m. cpu_ok (snd m) \<Longrightarrow> cpu_ok (snd (snd (rd n a m)))) \<Longrightarrow> cpu_ok (snd m) \<Longrightarrow>
   cpu_ok (snd (snd (split_read rd n a m)))"
  by (simp add: split_read_def kept_read_bytes)

lemma kept_ReadFromHardware_physical [kept]:
  "platform_ok P \<Longrightarrow> cpu_ok (snd m) \<Longrightarrow> cpu_ok (snd (snd (ReadFromHardware_physical P flag n a m)))"
  by (simp add: ReadFromHardware_physical_def kept_split_read kept)

section \<open>Translation\<close>

lemma kept_scan_PTEG [kept]:
  "platform_ok P \<Longrightarrow> cpu_ok (snd m) \<Longrightarrow> cpu_ok (snd (snd (scan_PTEG P flag pte1 n a m)))"
  by (induction n arbitrary: a m) (simp_all add: case_prod_beta kept)

lemma kept_use_PTE [kept]:
  "platform_ok P \<Longrightarrow> cpu_ok (snd m) \<Longrightarrow> cpu_ok (snd (snd (snd (use_PTE P flag res address VSID a m))))"
  by (simp add: use_PTE_def Let_def case_prod_beta kept)

lemma kept_walk [kept]:
  assumes "platform_ok P" "cpu_ok (snd m)"
  shows "cpu_ok (snd (snd (snd (walk_page_table P flag res address VSID m))))"
proof -
  let ?scan = "\<lambda>h pte1 m. scan_PTEG P flag pte1 8 (pteg_address h (fst m)) m"
  let ?h = "VSID XOR EA_page_index address"
  have first: "cpu_ok (snd (snd (?scan ?h (first_pte1 VSID address) m)))"
    using assms by (rule kept_scan_PTEG)
  from assms(1) this have "cpu_ok (snd (snd (?scan (NOT ?h) (PTE_set_H 1 (first_pte1 VSID address))
      (snd (?scan ?h (first_pte1 VSID address) m)))))"
    by (rule kept_scan_PTEG)
  with first assms(1) show ?thesis
    unfolding walk_page_table_def Let_def
    by (simp add: case_prod_beta kept split: option.split)
qed

lemma kept_TranslatePageAddress [kept]:
  "platform_ok P \<Longrightarrow> cpu_ok (snd m) \<Longrightarrow> cpu_ok (snd (snd (snd (TranslatePageAddress P flag a m))))"
  by (simp add: TranslatePageAddress_def Let_def case_prod_beta kept split: TLBLookupResult.split)

lemma kept_TranslateAddress [kept]:
  "platform_ok P \<Longrightarrow> cpu_ok (snd m) \<Longrightarrow> cpu_ok (snd (snd (TranslateAddress P flag a m)))"
  by (simp add: TranslateAddress_def case_prod_beta kept split: option.split)

lemma kept_page_read [kept]:
  "platform_ok P \<Longrightarrow> cpu_ok (snd m) \<Longrightarrow> cpu_ok (snd (snd (page_read P flag n a m)))"
  by (simp add: page_read_def case_prod_beta kept)

lemma kept_ReadFromHardware [kept]:
  "platform_ok P \<Longrightarrow> cpu_ok (snd m) \<Longrightarrow> cpu_ok (snd (snd (ReadFromHardware P flag n a m)))"
  by (simp add: ReadFromHardware_def kept_split_read kept)

section \<open>Writes\<close>

lemma kept_device_writes:
  assumes "platform_ok P" "cpu_ok (snd m)"
  shows "cpu_ok (snd (gather_pipe_write P v n m))" "cpu_ok (snd (mmio_write P v n a m))"
  unfolding gather_pipe_write_def mmio_write_def
  using assms by (auto intro!: kept_fold platform_okD)

lemma kept_write_device:
  assumes "platform_ok P" "cpu_ok (snd m)"
  shows "write_device P flag v n a m = Some m' \<Longrightarrow> cpu_ok (snd m')"
  using assms by (auto simp: write_device_def kept_device_writes kept split: if_splits)

lemma kept_write_cached [kept]:
  "platform_ok P \<Longrightarrow> cpu_ok (snd m) \<Longrightarrow> cpu_ok (snd (write_cached P flag wi update b a bs m))"
  by (simp add: write_cached_def Let_def platform_okD)

lemma kept_write_backing [kept]:
  "platform_ok P \<Longrightarrow> cpu_ok (snd m) \<Longrightarrow> cpu_ok (snd (write_backing P flag wi v n a m))"
  by (simp add: write_backing_def kept platform_okD)

lemma kept_physical_store [kept]:
  "platform_ok P \<Longrightarrow> cpu_ok (snd m) \<Longrightarrow> cpu_ok (snd (physical_store P flag v n a m))"
  by (simp add: physical_store_def kept kept_write_device split: option.split del: split_paired_All)

lemma kept_physical_write [kept]:
  "platform_ok P \<Longrightarrow> cpu_ok (snd m) \<Longrightarrow> cpu_ok (snd (physical_write P flag wi v n a m))"
  by (simp add: physical_write_def write_duplicated_def Let_def kept kept_write_device kept_fold
      platform_okD split: option.split del: split_paired_All)

lemma kept_split_write:
  "(\<And>v n a m. cpu_ok (snd m) \<Longrightarrow> cpu_ok (snd (wr v n a m))) \<Longrightarrow> cpu_ok (snd m) \<Longrightarrow>
   cpu_ok (snd (split_write wr v n a m))"
  by (simp add: split_write_def Let_def)

lemma kept_page_write [kept]:
  "platform_ok P \<Longrightarrow> cpu_ok (snd m) \<Longrightarrow> cpu_ok (snd (page_write P flag v n a m))"
  by (simp add: page_write_def case_prod_beta kept)

lemma kept_WriteToHardware [kept]:
  "platform_ok P \<Longrightarrow> cpu_ok (snd m) \<Longrightarrow> cpu_ok (snd (WriteToHardware P flag v n a m))"
  "platform_ok P \<Longrightarrow> cpu_ok (snd m) \<Longrightarrow> cpu_ok (snd (WriteToHardware_physical P flag v n a m))"
  by (simp_all add: WriteToHardware_def WriteToHardware_physical_def kept_split_write kept)

section \<open>The rest of the unit\<close>

lemma kept_cache_lines [kept]:
  assumes "platform_ok P" "cpu_ok (snd m)"
  shows "cpu_ok (snd (MMU_ClearDCacheLine P a m))" "cpu_ok (snd (MMU_StoreDCacheLine P a m))"
    "cpu_ok (snd (MMU_InvalidateDCacheLine P a m))" "cpu_ok (snd (MMU_FlushDCacheLine P a m))"
    "cpu_ok (snd (MMU_TouchDCacheLine P a b m))"
proof -
  have line: "cpu_ok (snd (with_line P faults f a m))"
    if "\<And>a m. cpu_ok (snd m) \<Longrightarrow> cpu_ok (snd (f a m))" for faults f a
    using assms that by (simp add: with_line_def case_prod_beta kept)
  show "cpu_ok (snd (MMU_ClearDCacheLine P a m))"
    unfolding MMU_ClearDCacheLine_def using assms(1) by (intro line kept_fold) (simp_all add: kept)
  show "cpu_ok (snd (MMU_StoreDCacheLine P a m))" "cpu_ok (snd (MMU_InvalidateDCacheLine P a m))"
    "cpu_ok (snd (MMU_FlushDCacheLine P a m))" "cpu_ok (snd (MMU_TouchDCacheLine P a b m))"
    unfolding MMU_StoreDCacheLine_def MMU_InvalidateDCacheLine_def MMU_FlushDCacheLine_def
      MMU_TouchDCacheLine_def
    using assms(1) by (auto simp: when_dcache_def platform_okD intro!: line)
qed

lemma cpu_ok_pending [cpu_ok_simps]: "cpu_ok (s\<lparr>pagetable_update_pending := b\<rparr>) = cpu_ok s"
  by (simp add: cpu_ok_def state_ok_def flags_ok_alt perf_bits_def)

lemma kept_updates [kept]:
  assumes "platform_ok P" "cpu_ok (snd m)"
  shows "cpu_ok (snd (MMU_PageTableUpdated P m))" "cpu_ok (snd (MMU_SDRUpdated P m))"
    "cpu_ok (snd (MMU_DBATUpdated P m))" "cpu_ok (snd (MMU_IBATUpdated P m))"
    "cpu_ok (snd (MMU_InvalidateTLBEntry P a m))"
  using assms
  by (simp_all add: MMU_PageTableUpdated_def MMU_SDRUpdated_def MMU_DBATUpdated_def MMU_IBATUpdated_def
      MMU_InvalidateTLBEntry_def Let_def cpu_ok_simps platform_okD)

lemma kept_transfers [kept]:
  assumes "platform_ok P" "cpu_ok (snd m)"
  shows "cpu_ok (snd (MMU_DMA_LCToMemory P a b n m))" "cpu_ok (snd (MMU_DMA_MemoryToLC P a b n m))"
  using assms
  by (auto simp: MMU_DMA_LCToMemory_def MMU_DMA_MemoryToLC_def Let_def case_prod_beta kept platform_okD
      intro!: kept_fold)

lemma kept_fetch [kept]:
  assumes "platform_ok P" "cpu_ok (snd m)"
  shows "cpu_ok (snd (snd (Read_Opcode P a m)))"
  using assms
  by (simp add: Read_Opcode_def TryReadInstruction_def Let_def case_prod_beta kept platform_okD)

section \<open>The interface of the instructions\<close>

text \<open>
  What the load and store instructions rely on here: a predicate on machines that depends on the
  processor only through its invariant, and that every operation of the memory keeps.
\<close>

locale kept_memory =
  fixes M :: "'m mmu" and good :: "'m machine \<Rightarrow> bool"
  assumes processor: "(cpu_ok (snd m) \<Longrightarrow> cpu_ok (f (snd m))) \<Longrightarrow> good m \<Longrightarrow> good (on_cpu f m)"
    and reads: "good m \<Longrightarrow> good (snd (Read_U8 M a m))" "good m \<Longrightarrow> good (snd (Read_U16 M a m))"
      "good m \<Longrightarrow> good (snd (Read_U32 M a m))" "good m \<Longrightarrow> good (snd (Read_U64 M a m))"
    and writes: "good m \<Longrightarrow> good (Write_U8 M v a m)" "good m \<Longrightarrow> good (Write_U16 M v a m)"
      "good m \<Longrightarrow> good (Write_U32 M v a m)" "good m \<Longrightarrow> good (Write_U64 M w a m)"
      "good m \<Longrightarrow> good (Write_U16_Swap M v a m)" "good m \<Longrightarrow> good (Write_U32_Swap M v a m)"
    and lines: "good m \<Longrightarrow> good (InvalidateICacheLine M a m)" "good m \<Longrightarrow> good (FlushDCacheLine M a m)"
      "good m \<Longrightarrow> good (InvalidateDCacheLine M a m)" "good m \<Longrightarrow> good (StoreDCacheLine M a m)"
      "good m \<Longrightarrow> good (ClearDCacheLine M a m)" "good m \<Longrightarrow> good (iCache_Invalidate M a m)"
      "good m \<Longrightarrow> good (InvalidateTLBEntry M a m)"
begin

lemma registers:
  assumes "good m"
  shows "good (on_cpu (set_gpr r v) m)" "good (on_cpu (\<lambda>s. set_gpr r (f s) s) m)"
    "good (on_cpu (SetPS0 r w) m)" "good (on_cpu (PS_Fill r w) m)"
    "good (on_cpu (GenerateAlignmentException a) m)" "good (on_cpu (GenerateDSIException a) m)"
    "good (on_cpu (GenerateProgramException c) m)"
    "good (on_cpu (\<lambda>s. s\<lparr>cr := g s\<rparr>) m)"
    "good (on_cpu (\<lambda>s. (set_gpr r v s)\<lparr>reserve := True, reserve_address := a\<rparr>) m)"
    "good (on_cpu (\<lambda>s. s\<lparr>reserve := False, cr := g s\<rparr>) m)"
proof -
  have "cpu_ok ((s :: PowerPCState)\<lparr>reserve := x, reserve_address := y\<rparr>) = cpu_ok s"
    "cpu_ok (s\<lparr>reserve := x, cr := z\<rparr>) = cpu_ok s" for s x y z
    by (simp_all add: cpu_ok_def state_ok_def flags_ok_alt perf_bits_def)
  then show "good (on_cpu (set_gpr r v) m)" "good (on_cpu (\<lambda>s. set_gpr r (f s) s) m)"
    "good (on_cpu (SetPS0 r w) m)" "good (on_cpu (PS_Fill r w) m)"
    "good (on_cpu (GenerateAlignmentException a) m)" "good (on_cpu (GenerateDSIException a) m)"
    "good (on_cpu (GenerateProgramException c) m)"
    "good (on_cpu (\<lambda>s. s\<lparr>cr := g s\<rparr>) m)"
    "good (on_cpu (\<lambda>s. (set_gpr r v s)\<lparr>reserve := True, reserve_address := a\<rparr>) m)"
    "good (on_cpu (\<lambda>s. s\<lparr>reserve := False, cr := g s\<rparr>) m)"
    using assms by (auto intro!: processor simp: SetPS0_def PS_Fill_def cpu_ok_simps)
qed

lemmas steps = registers reads writes lines

lemma transfers:
  assumes "good m"
  shows
    "good (lwz M inst m)" "good (lwzu M inst m)" "good (lbz M inst m)" "good (lbzu M inst m)"
    "good (lhz M inst m)" "good (lhzu M inst m)" "good (lha M inst m)" "good (lhau M inst m)"
    "good (lwzx M inst m)" "good (lwzux M inst m)" "good (lhzx M inst m)" "good (lhzux M inst m)"
    "good (lhax M inst m)" "good (lhaux M inst m)" "good (lbzx M inst m)" "good (lbzux M inst m)"
    "good (lwbrx M inst m)" "good (lhbrx M inst m)"
    "good (lfs M inst m)" "good (lfsu M inst m)" "good (lfd M inst m)" "good (lfdu M inst m)"
    "good (lfsx M inst m)" "good (lfsux M inst m)" "good (lfdx M inst m)" "good (lfdux M inst m)"
    "good (sth M inst m)" "good (sthu M inst m)" "good (stw M inst m)" "good (stwu M inst m)"
    "good (stb M inst m)" "good (stbu M inst m)" "good (stwx M inst m)" "good (stwux M inst m)"
    "good (sthx M inst m)" "good (sthux M inst m)" "good (stbx M inst m)" "good (stbux M inst m)"
    "good (stwbrx M inst m)" "good (sthbrx M inst m)"
    "good (stfs M inst m)" "good (stfsu M inst m)" "good (stfd M inst m)" "good (stfdu M inst m)"
    "good (stfsx M inst m)" "good (stfsux M inst m)" "good (stfdx M inst m)" "good (stfdux M inst m)"
    "good (stfiwx M inst m)"
  using assms
  by (simp_all add: load_defs store_defs float_load_defs float_store_defs Let_def case_prod_beta steps)

lemma multiples:
  assumes "good m"
  shows "good (lmw_loop M is a m)" "good (stmw_loop M is a m)"
  using assms by (induction "is" arbitrary: a m) (simp_all add: Let_def case_prod_beta steps)

lemma lswx_loop_good: "good m \<Longrightarrow> good (lswx_loop M inst n a m)"
proof (induction "256 - n" arbitrary: n a m rule: less_induct)
  case less
  have "256 - (n + 1) < 256 - n" if "n < string_count (snd m)"
    using string_count_less [of "snd m"] that by simp
  then show ?case
    using less.prems by (subst lswx_loop.simps) (auto simp: Let_def case_prod_beta steps intro!: less.hyps)
qed

lemma lswi_loop_good: "good m \<Longrightarrow> good (lswi_loop M n i r a m)"
  by (induction n arbitrary: i r a m) (simp_all add: Let_def case_prod_beta steps)

lemma StoreString_words_good: "good m \<Longrightarrow> good (snd (StoreString_words M b v a n r m))"
proof (induction n arbitrary: v a r m rule: less_induct)
  case (less n)
  then show ?case by (subst StoreString_words.simps) (auto simp: Let_def steps intro!: less.IH)
qed

lemma StoreString_tail_good: "good m \<Longrightarrow> good (StoreString_tail M k v a n r m)"
  by (simp add: StoreString_tail_def Let_def case_prod_beta steps)

lemma StoreString_helper_good: "good m \<Longrightarrow> good (Helper_StoreString M a n r m)"
  by (simp add: Helper_StoreString_def Let_def case_prod_beta StoreString_words_good StoreString_tail_good steps split: option.split)

lemma others:
  assumes "good m"
  shows
    "good (lmw M inst m)" "good (stmw M inst m)" "good (lswx M inst m)" "good (lswi M inst m)"
    "good (stswx M inst m)" "good (stswi M inst m)" "good (lwarx M inst m)" "good (stwcxd M inst m)"
    "good (dcba M inst m)" "good (dcbf M inst m)" "good (dcbi M inst m)" "good (dcbst M inst m)"
    "good (dcbt M inst m)" "good (dcbtst M inst m)" "good (dcbz M inst m)" "good (dcbz_l M inst m)"
    "good (eciwx M inst m)" "good (ecowx M inst m)" "good (eieio M inst m)" "good (icbi M inst m)"
    "good (ppc_sync M inst m)" "good (tlbie M inst m)" "good (tlbsync M inst m)"
  using assms
  by (simp_all add: lmw_def stmw_def lswx_def lswi_def stswx_def stswi_def lwarx_def stwcxd_def dcba_def
      dcbf_def dcbi_def dcbst_def dcbt_def dcbtst_def dcbz_def dcbz_l_def eciwx_def ecowx_def eieio_def
      icbi_def ppc_sync_def tlbie_def tlbsync_def Let_def case_prod_beta multiples lswx_loop_good
      lswi_loop_good StoreString_helper_good steps)

end

text \<open>The memory management unit provides it, over devices that keep the invariant.\<close>

interpretation kept_mmu: kept_memory "MMU P" "\<lambda>m. platform_ok P \<longrightarrow> cpu_ok (snd m)"
  by unfold_locales
    (auto simp: MMU_def mmu_Read_def mmu_Write_def mmu_Write_u64_def mmu_Write_U16_Swap_def
      mmu_Write_U32_Swap_def Memcheck_def Let_def case_prod_beta kept platform_okD cpu_ok_simps)

end
