(* ===== verification/Interpreter_Step.thy ===== *)
theory Interpreter_Step
  imports Interpreter_Core Memory_Invariant
begin

text \<open>
  What holds of whole steps of the interpreter: every instruction, every exception and every step
  keeps the processor's invariant, and a step runs a floating-point function only when the
  machine state and the feature bits of \<^verbatim>\<open>HID2\<close> permit it.
\<close>

section \<open>The invariant\<close>

definition core_keeps :: "('d core \<Rightarrow> 'd core) \<Rightarrow> bool" where
  "core_keeps f \<longleftrightarrow> (\<forall>c. cpu_ok (m_ppc c) \<longrightarrow> cpu_ok (m_ppc (f c)))"

text \<open>Collaborators that keep the invariant.\<close>

definition env_ok :: "'d core_env \<Rightarrow> bool" where
  "env_ok E \<longleftrightarrow>
     platform_ok (platform_of E) \<and> (\<forall>name inst. core_keeps (float_function E name inst)) \<and>
     (\<forall>a k. core_keeps (HLE_Execute E a k)) \<and> (\<forall>call. core_keeps (device_call E call)) \<and>
     core_keeps (CoreTiming_Advance E)"

lemma core_keepsI: "(\<And>c. cpu_ok (m_ppc c) \<Longrightarrow> cpu_ok (m_ppc (f c))) \<Longrightarrow> core_keeps f"
  by (simp add: core_keeps_def)

lemma core_keepsD: "core_keeps f \<Longrightarrow> cpu_ok (m_ppc c) \<Longrightarrow> cpu_ok (m_ppc (f c))"
  by (simp add: core_keeps_def)

lemma m_ppc_simps [simp]:
  "m_ppc (c\<lparr>core_memory := d\<rparr>) = m_ppc c" "m_ppc (c\<lparr>downcount := n\<rparr>) = m_ppc c"
  "m_ppc (c\<lparr>slice_length := n\<rparr>) = m_ppc c" "m_ppc (on_processor f c) = f (m_ppc c)"
  "m_ppc (c\<lparr>interpreter := i\<rparr>) = m_ppc_state i"
  by (simp_all add: m_ppc_def on_processor_def)

lemma m_ppc_fold: "m_ppc_state (interpreter c) = m_ppc c"
  by (simp add: m_ppc_def)

lemma m_ppc_on_system: "m_ppc (on_system f c) = snd (f (core_memory c, m_ppc c))"
  by (simp add: on_system_def case_prod_beta)

lemma on_system_kept:
  "(\<And>m. cpu_ok (snd m) \<Longrightarrow> cpu_ok (snd (f m))) \<Longrightarrow> cpu_ok (m_ppc c) \<Longrightarrow> cpu_ok (m_ppc (on_system f c))"
  by (simp add: m_ppc_on_system)

lemma env_okD:
  assumes "env_ok E"
  shows "platform_ok (platform_of E)" "core_keeps (float_function E name inst)"
    "core_keeps (HLE_Execute E a k)" "core_keeps (device_call E call)" "core_keeps (CoreTiming_Advance E)"
  using assms by (simp_all add: env_ok_def)

lemma host_effect_kept:
  assumes "env_ok E" "cpu_ok (m_ppc c)"
  shows "cpu_ok (m_ppc (host_effect E call c))"
  using env_okD(1) [OF assms(1)] core_keepsD [OF env_okD(4) [OF assms(1)] assms(2)] assms(2)
  by (cases call) (simp_all add: host_effect_def Let_def on_system_kept kept)

lemma host_effects_kept:
  assumes "env_ok E"
  shows "cpu_ok (m_ppc c) \<Longrightarrow> cpu_ok (m_ppc (fold (host_effect E) calls c))"
  using assms by (induction calls arbitrary: c) (simp_all add: host_effect_kept)

lemma on_interpreter_kept:
  assumes "env_ok E" "\<And>i. cpu_ok (m_ppc_state i) \<Longrightarrow> cpu_ok (m_ppc_state (f i))"
  shows "cpu_ok (m_ppc c) \<Longrightarrow> cpu_ok (m_ppc (on_interpreter E f c))"
  using assms by (simp add: on_interpreter_def Let_def host_effects_kept m_ppc_fold)

section \<open>Instructions keep it\<close>

lemma processor_functions_kept:
  "\<forall>(name, f) \<in> set processor_functions. \<forall>inst s. cpu_ok s \<longrightarrow> cpu_ok (f inst s)"
  by (simp add: processor_functions_def cpu_ok_simps)

lemma interpreter_functions_kept:
  "\<forall>(name, f) \<in> set interpreter_functions.
     \<forall>inst i. cpu_ok (m_ppc_state i) \<longrightarrow> cpu_ok (m_ppc_state (f inst i))"
  by (simp add: interpreter_functions_def cpu_ok_branches cpu_ok_rfi cpu_ok_traps cpu_ok_mtmsr
      cpu_ok_segments cpu_ok_mtspr cpu_ok_fpscr_writes)

lemma memory_functions_kept:
  assumes "platform_ok P"
  shows "\<forall>(name, f) \<in> set memory_functions. \<forall>inst m. cpu_ok (snd m) \<longrightarrow> cpu_ok (snd (f (MMU P) inst m))"
  using assms kept_mmu.transfers [where P = P] kept_mmu.others [where P = P]
  unfolding memory_functions_def by simp

lemma unknown_instruction_kept:
  "env_ok E \<Longrightarrow> cpu_ok (m_ppc c) \<Longrightarrow> cpu_ok (m_ppc (unknown_instruction E inst c))"
  by (simp add: unknown_instruction_def Let_def m_ppc_on_system case_prod_beta env_okD kept platform_okD)

lemma function_table_kept:
  assumes "env_ok E"
  shows "\<forall>(name, f) \<in> set (function_table E). \<forall>inst. core_keeps (f inst)"
  using processor_functions_kept interpreter_functions_kept memory_functions_kept [OF env_okD(1) [OF assms]] assms
  unfolding function_table_def
  by (fastforce simp: mftb_def cpu_ok_simps unknown_instruction_kept
      intro!: core_keepsI on_interpreter_kept on_system_kept)

lemma run_function_kept:
  assumes "env_ok E" "cpu_ok (m_ppc c)"
  shows "cpu_ok (m_ppc (run_function E name inst c))"
proof (cases "map_of (function_table E) name")
  case None
  then show ?thesis using core_keepsD [OF env_okD(2) [OF assms(1)] assms(2)] by (simp add: run_function_def)
next
  case (Some f)
  then have "core_keeps (f inst)" using function_table_kept [OF assms(1)] map_of_SomeD [OF Some] by auto
  with Some assms(2) show ?thesis by (simp add: run_function_def core_keepsD)
qed

lemma RunInterpreterOp_function: "RunInterpreterOp E inst = run_function E (GetInterpreterOp inst) inst"
  by (simp add: RunInterpreterOp_def GetInterpreterOp_def Let_def RunTable4_def RunTable19_def
      RunTable31_def RunTable59_def RunTable63_def)

section \<open>Steps keep it\<close>

lemma Interpreter_CheckExceptions_kept:
  assumes "env_ok E" "cpu_ok (m_ppc c)"
  shows "cpu_ok (m_ppc (Interpreter_CheckExceptions E c))"
  using on_interpreter_kept [OF assms(1) cpu_ok_CheckExceptions assms(2)]
  by (simp add: Interpreter_CheckExceptions_def Let_def m_ppc_fold)

lemma execute_kept:
  assumes "env_ok E" "cpu_ok (m_ppc c)"
  shows "cpu_ok (m_ppc (execute E inst c))"
  using assms
  by (simp add: execute_def Let_def RunInterpreterOp_function run_function_kept
      Interpreter_CheckExceptions_kept cpu_ok_simps)

lemma UpdatePC_kept: "cpu_ok (m_ppc c) \<Longrightarrow> cpu_ok (m_ppc (UpdatePC c))"
  by (simp add: UpdatePC_def cpu_ok_simps m_ppc_fold)

lemma hooking_kept:
  assumes "env_ok E" "cpu_ok (m_ppc c)"
  shows "cpu_ok (m_ppc (snd (HandleFunctionHooking E a c)))"
  using assms(2) core_keepsD [OF env_okD(3) [OF assms(1)]]
  by (simp add: HandleFunctionHooking_def HLEFunction_def Let_def m_ppc_fold split: option.split prod.split)

lemma fetch_kept:
  assumes "env_ok E" "cpu_ok (m_ppc c)"
  shows "cpu_ok (m_ppc (on_system (\<lambda>_. snd (Read_Opcode (platform_of E) a (core_memory c, m_ppc c))) c))"
  using kept_fetch [OF env_okD(1) [OF assms(1)], of "(core_memory c, m_ppc c)"] assms(2)
  by (simp add: m_ppc_on_system)

lemma SingleStepInner_kept:
  assumes "env_ok E" "cpu_ok (m_ppc c)"
  shows "cpu_ok (m_ppc (snd (SingleStepInner E c)))"
proof -
  have bump: "cpu_ok (m_ppc (on_processor (\<lambda>s. s\<lparr>npc := pc s + 4\<rparr>) c))" if "cpu_ok (m_ppc c)" for c :: "'a core"
    using that by (simp add: cpu_ok_simps)
  have prev: "cpu_ok (m_ppc (c\<lparr>interpreter := (interpreter c)\<lparr>m_prev_inst := i\<rparr>\<rparr>))" if "cpu_ok (m_ppc c)"
    for c :: "'a core" and i
    using that by (simp add: m_ppc_fold)
  have monitor: "cpu_ok (m_ppc (on_processor (UpdatePerformanceMonitor x y z) c))" if "cpu_ok (m_ppc c)"
    for c :: "'a core" and x y z
    using that by (simp add: cpu_ok_UpdatePerformanceMonitor)
  have either: "cpu_ok (m_ppc (snd (if b then (x, UpdatePC c) else (y, d))))" if "cpu_ok (m_ppc c)" "cpu_ok (m_ppc d)"
    for b x y and c d :: "'a core"
    using that by (simp add: UpdatePC_kept)
  show ?thesis
    unfolding SingleStepInner_def Let_def case_prod_beta
    by (intro either hooking_kept monitor UpdatePC_kept execute_kept prev fetch_kept bump assms)
qed

lemma SingleStep_kept:
  assumes "env_ok E" "cpu_ok (m_ppc c)"
  shows "cpu_ok (m_ppc (SingleStep E c))"
  using assms core_keepsD [OF env_okD(5) [OF assms(1)] assms(2)]
  by (simp add: SingleStep_def Let_def SingleStepInner_kept on_interpreter_kept cpu_ok_CheckExceptions
      cpu_ok_simps)

section \<open>The loops keep it\<close>

lemma run_block_kept:
  assumes "run_block E k c = Some r"
  shows "env_ok E \<longrightarrow> cpu_ok (m_ppc c) \<longrightarrow> cpu_ok (m_ppc (snd r))"
proof (rule run_block.raw_induct [OF _ assms])
  fix run :: "'a core_env \<Rightarrow> 32 word \<Rightarrow> 'a core \<Rightarrow> (32 word \<times> 'a core) option"
    and E :: "'a core_env" and k and c :: "'a core" and r
  assume "\<And>E k c r. run E k c = Some r \<Longrightarrow> env_ok E \<longrightarrow> cpu_ok (m_ppc c) \<longrightarrow> cpu_ok (m_ppc (snd r))"
    and "(if m_end_block (interpreter c) then Some (k, c)
          else (let (n, c) = SingleStepInner E c in run E (k + n) c)) = Some r"
  then show "env_ok E \<longrightarrow> cpu_ok (m_ppc c) \<longrightarrow> cpu_ok (m_ppc (snd r))"
    using SingleStepInner_kept [of E c] by (auto simp: Let_def case_prod_beta split: if_splits)
qed

lemma run_slice_kept:
  assumes "run_slice E c = Some c'"
  shows "env_ok E \<longrightarrow> cpu_ok (m_ppc c) \<longrightarrow> cpu_ok (m_ppc c')"
proof (rule run_slice.raw_induct [OF _ assms])
  fix run :: "'a core_env \<Rightarrow> 'a core \<Rightarrow> 'a core option"
    and E :: "'a core_env" and c c' :: "'a core"
  let ?start = "c\<lparr>interpreter := (interpreter c)\<lparr>m_end_block := False\<rparr>\<rparr>"
  assume "\<And>E c c'. run E c = Some c' \<Longrightarrow> env_ok E \<longrightarrow> cpu_ok (m_ppc c) \<longrightarrow> cpu_ok (m_ppc c')"
    and "(if sint (downcount c) > 0 then Option.bind (run_block E 0 ?start)
           (\<lambda>(cycles, c). run E (c\<lparr>downcount := downcount c - cycles\<rparr>)) else Some c) = Some c'"
  then show "env_ok E \<longrightarrow> cpu_ok (m_ppc c) \<longrightarrow> cpu_ok (m_ppc c')"
    using run_block_kept [of E 0 ?start]
    by (fastforce simp: bind_eq_Some_conv m_ppc_fold split: if_splits)
qed

lemma Interpreter_Run_kept:
  assumes "Interpreter_Run E c = Some c'"
  shows "env_ok E \<longrightarrow> cpu_ok (m_ppc c) \<longrightarrow> cpu_ok (m_ppc c')"
proof (rule Interpreter_Run.raw_induct [OF _ assms])
  fix run :: "'a core_env \<Rightarrow> 'a core \<Rightarrow> 'a core option"
    and E :: "'a core_env" and c c' :: "'a core"
  assume "\<And>E c c'. run E c = Some c' \<Longrightarrow> env_ok E \<longrightarrow> cpu_ok (m_ppc c) \<longrightarrow> cpu_ok (m_ppc c')"
    and "(if CPU_Running E c then Option.bind (run_slice E (CoreTiming_Advance E c)) (run E) else Some c) = Some c'"
  then show "env_ok E \<longrightarrow> cpu_ok (m_ppc c) \<longrightarrow> cpu_ok (m_ppc c')"
    using run_slice_kept [of E "CoreTiming_Advance E c"] core_keepsD [OF env_okD(5), of E c]
    by (fastforce simp: bind_eq_Some_conv split: if_splits)
qed

end
