(* ===== verification/Interpreter_Board.thy ===== *)
theory Interpreter_Board
  imports Interpreter_Step Memory_Board
begin

text \<open>
  A concrete interpreter for the worked examples: the machine of \<open>Memory_Board\<close>, without high level
  emulation, with timers that answer nothing and floating-point functions that do nothing.
\<close>

definition plain_env :: "unit core_env" where
  "plain_env =
     \<lparr>platform_of = plain_platform,
      hw_of = (\<lambda>_. \<lparr>GetFakeDecrementer = 0, GetFakeTimeBase = 0, IsBNE = False\<rparr>),
      float_function = (\<lambda>_ _ c. c), TryReplaceFunction = (\<lambda>_ _. None), HLE_Execute = (\<lambda>_ _ c. c),
      device_call = (\<lambda>_ c. c), CoreTiming_Advance = (\<lambda>c. c),
      CPU_Running = (\<lambda>_. False)\<rparr>"

definition plain_core :: "unit core" where
  "plain_core = \<lparr>core_memory = blank_memory, interpreter = boot_cpu, downcount = 0, slice_length = 0\<rparr>"

lemma plain_env_ok: "env_ok plain_env"
  by (simp add: env_ok_def plain_env_def core_keeps_def platform_ok_def plain_platform_def keeps_def yields_def)

lemma plain_core_ok: "cpu_ok (m_ppc plain_core)"
  by (simp add: m_ppc_def plain_core_def boot_cpu_def boot_state_def cpu_ok_def state_ok_def
      flags_ok_alt perf_bits_def)



end
