(* ===== verification/Float_Gate.thy ===== *)
theory Float_Gate
  imports Interpreter_Board
begin

text \<open>
  Which floating-point functions a step may run: those that \<^verbatim>\<open>MSR.FP\<close> and the bits
  \<^verbatim>\<open>PSE\<close> and \<^verbatim>\<open>LSQE\<close> of \<^verbatim>\<open>HID2\<close> enable. The instruction descriptions must mark
  every such function as one that uses the floating-point unit, and the paired functions must lie where
  \<^verbatim>\<open>IsPairedSingleInstruction\<close> looks for them.
\<close>

section \<open>Enabled functions\<close>

definition quantized_functions :: "Instruction list" where
  "quantized_functions = [''psq_l'', ''psq_lu'', ''psq_st'', ''psq_stu'']"

definition paired_functions :: "Instruction list" where
  "paired_functions = quantized_functions @ map snd (Fn_table4_2 @ Fn_table4_3 @ Fn_table4)"

definition enabled :: "PowerPCState \<Rightarrow> Instruction \<Rightarrow> bool" where
  "enabled s name \<longleftrightarrow>
     MSR_FP (msr s) \<noteq> 0 \<and>
     (name \<in> set paired_functions \<longrightarrow> HID2_PSE (spr s SPR_HID2) \<noteq> 0) \<and>
     (name \<in> set quantized_functions \<longrightarrow> HID2_LSQE (spr s SPR_HID2) \<noteq> 0)"

section \<open>What the tables say\<close>

definition modelled_names :: "Instruction set" where
  "modelled_names = fst ` set processor_functions \<union> fst ` set interpreter_functions \<union>
     fst ` set (memory_functions :: (Instruction \<times> (unit mmu \<Rightarrow> u32 \<Rightarrow> unit machine \<Rightarrow> unit machine)) list) \<union>
     {''mfspr'', ''mftb'', ''unknown_instruction''}"

lemmas names_unfold = modelled_names_def processor_functions_def interpreter_functions_def
  memory_functions_def list.set image_insert image_empty fst_conv snd_conv Un_insert_left Un_empty_left

lemma table31_modelled: "snd ` set Fn_table31 \<subseteq> modelled_names"
  unfolding names_unfold Fn_table31_def
  by (intro insert_subsetI empty_subsetI) (rule insertI1 | rule insertI2)+

lemma table19_modelled: "snd ` set Fn_table19 \<subseteq> modelled_names"
  unfolding names_unfold Fn_table19_def
  by (intro insert_subsetI empty_subsetI) (rule insertI1 | rule insertI2)+

lemma primary_modelled:
  "\<forall>e \<in> set Fn_primary_table. fst e \<in> {4, 19, 31, 59, 63, 56, 57, 60, 61} \<or> snd e \<in> modelled_names"
  unfolding Fn_primary_table_def list.set ball_simps fst_conv snd_conv
  by (intro conjI TrueI, simp_all) (unfold names_unfold, (rule insertI1 | rule insertI2)+)

lemma special_modelled: "''dcbz_l'' \<in> modelled_names" "''unknown_instruction'' \<in> modelled_names"
  unfolding names_unfold by ((rule insertI1 | rule insertI2)+)

lemma floating_flags:
  "\<forall>e \<in> set Info_table4. function_of (snd e) = ''dcbz_l'' \<or> op_flags (snd e) AND FL_USE_FPU \<noteq> 0"
  "\<forall>e \<in> set Info_table4_2. op_flags (snd e) AND FL_USE_FPU \<noteq> 0"
  "\<forall>e \<in> set Info_table4_3. op_flags (snd e) AND FL_USE_FPU \<noteq> 0"
  "\<forall>e \<in> set Info_table59. op_flags (snd e) AND FL_USE_FPU \<noteq> 0"
  "\<forall>e \<in> set Info_table63. op_flags (snd e) AND FL_USE_FPU \<noteq> 0"
  "\<forall>e \<in> set Info_table63_2. op_flags (snd e) AND FL_USE_FPU \<noteq> 0"
  by (simp add: Info_table4_def flag_defs function_of_def overflow_forms_def)
    (simp_all add: Info_table4_2_def Info_table4_3_def Info_table59_def Info_table63_def
      Info_table63_2_def flag_defs)

lemma paired_initial: "name \<in> set paired_functions \<Longrightarrow> hd name = CHR ''p'' \<or> hd name = CHR ''d''"
proof -
  have "\<forall>name \<in> set paired_functions. hd name = CHR ''p'' \<or> hd name = CHR ''d''"
    by (simp add: paired_functions_def quantized_functions_def Fn_table4_def Fn_table4_2_def Fn_table4_3_def)
  then show "name \<in> set paired_functions \<Longrightarrow> ?thesis" by blast
qed

lemma floating_initial:
  "\<forall>e \<in> set (Info_table59 @ Info_table63 @ Info_table63_2).
     hd (function_of (snd e)) = CHR ''f'' \<or> hd (function_of (snd e)) = CHR ''m''"
proof -
  have "\<forall>e \<in> set (Fn_table59 @ Fn_table63 @ Fn_table63_2). hd (snd e) = CHR ''f'' \<or> hd (snd e) = CHR ''m''"
    by (simp add: Fn_table59_def Fn_table63_def Fn_table63_2_def)
  then show ?thesis unfolding Fn_tables fns_def by force
qed

lemma not_quantized:
  "\<forall>e \<in> set (Info_table4_2 @ Info_table4_3 @ Info_table4). function_of (snd e) \<notin> set quantized_functions"
proof -
  have "\<forall>e \<in> set (Fn_table4_2 @ Fn_table4_3 @ Fn_table4). snd e \<notin> set quantized_functions"
    by (simp add: Fn_table4_def Fn_table4_2_def Fn_table4_3_def quantized_functions_def)
  then show ?thesis unfolding Fn_tables fns_def by force
qed

lemma primary_infos_names:
  "\<forall>e \<in> set Info_primary_table.
     fst e \<in> {4, 19, 31, 59, 63} \<or> (fst e \<in> {56, 57, 60, 61} \<and> op_flags (snd e) AND FL_USE_FPU \<noteq> 0) \<or>
     function_of (snd e) \<in> modelled_names"
proof -
  have "\<forall>e \<in> set Info_primary_table. fst e \<in> {56, 57, 60, 61} \<longrightarrow> op_flags (snd e) AND FL_USE_FPU \<noteq> 0"
    by (simp add: Info_primary_table_def flag_defs)
  then show ?thesis
    using primary_modelled by (force simp: Fn_tables fns_def)
qed

section \<open>Where a description comes from\<close>

lemma numbered_infos:
  assumes "c = length (s_unknown_op_info # map snd before)"
    "all_instructions = (s_unknown_op_info # map snd before) @ map snd tpls @ rest"
  shows "(\<lambda>(op, k). (op, all_instructions ! k)) ` set (numbered c tpls) = set tpls"
  unfolding assms(1) using numbered_entries [OF assms(2), where f = "\<lambda>i. i"] by simp

lemma lookup_info:
  assumes "(\<lambda>(op, k). (op, all_instructions ! k)) ` set (numbered c tpls) = set tpls"
  shows "all_instructions ! lookup 0 (numbered c tpls) q = s_unknown_op_info \<or>
    (q, all_instructions ! lookup 0 (numbered c tpls) q) \<in> set tpls"
proof (rule lookup_cases [where P = "\<lambda>q k. all_instructions ! k = s_unknown_op_info \<or> (q, all_instructions ! k) \<in> set tpls"])
  show "\<forall>e\<in>set (numbered c tpls). all_instructions ! snd e = s_unknown_op_info \<or>
      (fst e, all_instructions ! snd e) \<in> set tpls"
    using assms by (force simp: image_def)
qed (simp add: all_instructions_def)

lemma lookup_info_repeat:
  assumes "\<And>op k. (op, k) \<in> set es \<Longrightarrow> all_instructions ! k \<in> A"
  shows "all_instructions ! lookup 0 es q = s_unknown_op_info \<or> all_instructions ! lookup 0 es q \<in> A"
  using assms
  by (intro lookup_cases [where P = "\<lambda>q k. all_instructions ! k = s_unknown_op_info \<or> all_instructions ! k \<in> A"])
    (auto simp: all_instructions_def)

lemma table_infos:
  "all_instructions ! the tables_primary_table q = s_unknown_op_info \<or>
     (q, all_instructions ! the tables_primary_table q) \<in> set Info_primary_table"
  "all_instructions ! the tables_table19 q = s_unknown_op_info \<or>
     (q, all_instructions ! the tables_table19 q) \<in> set Info_table19"
  "all_instructions ! the tables_table31 q = s_unknown_op_info \<or>
     (q, all_instructions ! the tables_table31 q) \<in> set Info_table31"
  "all_instructions ! the tables_table59 q = s_unknown_op_info \<or>
     (q, all_instructions ! the tables_table59 q) \<in> set Info_table59"
proof -
  show "all_instructions ! the tables_primary_table q = s_unknown_op_info \<or>
     (q, all_instructions ! the tables_primary_table q) \<in> set Info_primary_table"
    unfolding info_tables_built option.sel
    by (rule lookup_info [OF numbered_infos [where before = "[]"]]) (simp_all add: all_instructions_def)
  show "all_instructions ! the tables_table19 q = s_unknown_op_info \<or>
     (q, all_instructions ! the tables_table19 q) \<in> set Info_table19"
    unfolding info_tables_built option.sel
    by (rule lookup_info [OF numbered_infos [where before = "Info_primary_table @ Info_table4_2 @
        Info_table4_3 @ Info_table4"]]) (simp_all add: all_instructions_def)
  show "all_instructions ! the tables_table31 q = s_unknown_op_info \<or>
     (q, all_instructions ! the tables_table31 q) \<in> set Info_table31"
    unfolding info_tables_built option.sel
    by (rule lookup_info [OF numbered_infos [where before = "Info_primary_table @ Info_table4_2 @
        Info_table4_3 @ Info_table4 @ Info_table19"]]) (simp_all add: all_instructions_def)
  show "all_instructions ! the tables_table59 q = s_unknown_op_info \<or>
     (q, all_instructions ! the tables_table59 q) \<in> set Info_table59"
    unfolding info_tables_built option.sel
    by (rule lookup_info [OF numbered_infos [where before = "Info_primary_table @ Info_table4_2 @
        Info_table4_3 @ Info_table4 @ Info_table19 @ Info_table31"]]) (simp_all add: all_instructions_def)
qed

lemma numbered_infos_snd:
  assumes "(\<lambda>(op, k). (op, all_instructions ! k)) ` set (numbered c tpls) = set tpls" "(op, k) \<in> set (numbered c tpls)"
  shows "all_instructions ! k \<in> snd ` set tpls"
  using assms by force

lemma table_infos_repeat:
  "all_instructions ! the tables_table4 q \<in>
     insert s_unknown_op_info (snd ` set (Info_table4_2 @ Info_table4_3 @ Info_table4))"
  "all_instructions ! the tables_table63 q \<in>
     insert s_unknown_op_info (snd ` set (Info_table63 @ Info_table63_2))"
proof -
  have t42: "(\<lambda>(op, k). (op, all_instructions ! k)) ` set (numbered (1 + length Info_primary_table) Info_table4_2) =
      set Info_table4_2"
    by (rule numbered_infos [where before = Info_primary_table]) (simp_all add: all_instructions_def)
  have t43: "(\<lambda>(op, k). (op, all_instructions ! k)) `
      set (numbered (1 + length Info_primary_table + length Info_table4_2) Info_table4_3) = set Info_table4_3"
    by (rule numbered_infos [where before = "Info_primary_table @ Info_table4_2"])
      (simp_all add: all_instructions_def)
  have t4: "(\<lambda>(op, k). (op, all_instructions ! k)) `
      set (numbered (1 + length Info_primary_table + length Info_table4_2 + length Info_table4_3) Info_table4) =
      set Info_table4"
    by (rule numbered_infos [where before = "Info_primary_table @ Info_table4_2 @ Info_table4_3"])
      (simp_all add: all_instructions_def)
  have "all_instructions ! k \<in> snd ` set (Info_table4_2 @ Info_table4_3 @ Info_table4)"
    if "(op, k) \<in> set info_entries4" for op k
    using that numbered_infos_snd [OF t42] numbered_infos_snd [OF t43] numbered_infos_snd [OF t4]
    unfolding info_entries4_def Let_def set_append image_Un by fastforce
  then show "all_instructions ! the tables_table4 q \<in>
     insert s_unknown_op_info (snd ` set (Info_table4_2 @ Info_table4_3 @ Info_table4))"
    unfolding info_tables_built option.sel insert_iff by (intro lookup_info_repeat)
  let ?c = "1 + length (Info_primary_table @ Info_table4_2 @ Info_table4_3 @ Info_table4 @
      Info_table19 @ Info_table31 @ Info_table59)"
  have t63: "(\<lambda>(op, k). (op, all_instructions ! k)) ` set (numbered ?c Info_table63) = set Info_table63"
    by (rule numbered_infos [where before = "Info_primary_table @ Info_table4_2 @ Info_table4_3 @ Info_table4 @
      Info_table19 @ Info_table31 @ Info_table59"]) (simp_all add: all_instructions_def)
  have t632: "(\<lambda>(op, k). (op, all_instructions ! k)) ` set (numbered (?c + length Info_table63) Info_table63_2) =
      set Info_table63_2"
    by (rule numbered_infos [where before = "Info_primary_table @ Info_table4_2 @ Info_table4_3 @ Info_table4 @
      Info_table19 @ Info_table31 @ Info_table59 @ Info_table63"])
      (simp_all add: all_instructions_def)
  have "all_instructions ! k \<in> snd ` set (Info_table63 @ Info_table63_2)"
    if "(op, k) \<in> set info_entries63" for op k
    using that numbered_infos_snd [OF t63] numbered_infos_snd [OF t632]
    unfolding info_entries63_def Let_def set_append image_Un by fastforce
  then show "all_instructions ! the tables_table63 q \<in>
     insert s_unknown_op_info (snd ` set (Info_table63 @ Info_table63_2))"
    unfolding info_tables_built option.sel insert_iff by (intro lookup_info_repeat)
qed

text \<open>A function that is not modelled here is marked as floating point, and a paired one is where it belongs.\<close>

lemma unknown_modelled: "function_of s_unknown_op_info \<in> modelled_names"
  using special_modelled(2) function_of_unknown by (simp add: all_instructions_def)

definition well_placed :: "u32 \<Rightarrow> GekkoOPInfo \<Rightarrow> bool" where
  "well_placed inst info \<longleftrightarrow>
     function_of info \<in> modelled_names \<or>
     op_flags info AND FL_USE_FPU \<noteq> 0 \<and>
     (function_of info \<in> set paired_functions \<longrightarrow> IsPairedSingleInstruction inst) \<and>
     (function_of info \<in> set quantized_functions \<longrightarrow> IsPairedSingleQuantizedNonIndexedInstruction inst)"

lemma quantized_paired: "set quantized_functions \<subseteq> set paired_functions"
  by (simp add: paired_functions_def)

lemma not_paired:
  assumes "(q, info) \<in> set (Info_table59 @ Info_table63 @ Info_table63_2)"
  shows "function_of info \<notin> set paired_functions" "op_flags info AND FL_USE_FPU \<noteq> 0"
proof -
  have "hd (function_of info) = CHR ''f'' \<or> hd (function_of info) = CHR ''m''"
    using floating_initial assms by fastforce
  then show "function_of info \<notin> set paired_functions" using paired_initial [of "function_of info"] by auto
  show "op_flags info AND FL_USE_FPU \<noteq> 0" using floating_flags(4-6) assms by fastforce
qed

lemma opcd_numbers:
  "OPCD inst = 4 \<longleftrightarrow> unat (OPCD inst) = 4" "OPCD inst = 19 \<longleftrightarrow> unat (OPCD inst) = 19"
  "OPCD inst = 31 \<longleftrightarrow> unat (OPCD inst) = 31" "OPCD inst = 59 \<longleftrightarrow> unat (OPCD inst) = 59"
  "OPCD inst = 63 \<longleftrightarrow> unat (OPCD inst) = 63"
  "OPCD inst = 0x38 \<longleftrightarrow> unat (OPCD inst) = 56" "OPCD inst = 0x39 \<longleftrightarrow> unat (OPCD inst) = 57"
  "OPCD inst = 0x3C \<longleftrightarrow> unat (OPCD inst) = 60" "OPCD inst = 0x3D \<longleftrightarrow> unat (OPCD inst) = 61"
  by (simp_all add: word_unat_eq_iff)

lemma well_placed_primary:
  assumes "info = s_unknown_op_info \<or> (unat (OPCD inst), info) \<in> set Info_primary_table"
    "unat (OPCD inst) \<notin> {4, 19, 31, 59, 63}"
  shows "well_placed inst info"
proof -
  have "info = s_unknown_op_info \<or> unat (OPCD inst) \<in> {56, 57, 60, 61} \<and> op_flags info AND FL_USE_FPU \<noteq> 0 \<or>
      function_of info \<in> modelled_names"
    using primary_infos_names assms by fastforce
  then show ?thesis
    using unknown_modelled
    by (auto simp: well_placed_def IsPairedSingleInstruction_def
        IsPairedSingleQuantizedNonIndexedInstruction_def opcd_numbers)
qed

lemma well_placed_table4:
  assumes "info \<in> insert s_unknown_op_info (snd ` set (Info_table4_2 @ Info_table4_3 @ Info_table4))" "OPCD inst = 4"
  shows "well_placed inst info"
proof -
  have "function_of info \<in> modelled_names \<or>
      op_flags info AND FL_USE_FPU \<noteq> 0 \<and> function_of info \<notin> set quantized_functions"
    using assms(1) unknown_modelled special_modelled(1) floating_flags(1-3) not_quantized by fastforce
  then show ?thesis using assms(2) by (auto simp: well_placed_def IsPairedSingleInstruction_def)
qed

lemma well_placed_float:
  assumes "info \<in> insert s_unknown_op_info (snd ` set (Info_table59 @ Info_table63 @ Info_table63_2))"
  shows "well_placed inst info"
  using assms unknown_modelled not_paired quantized_paired by (fastforce simp: well_placed_def)

lemma well_placed_integer:
  assumes "info = s_unknown_op_info \<or> (q, info) \<in> set (Info_table19 @ Info_table31)"
  shows "well_placed inst info"
proof -
  have "function_of info \<in> snd ` set Fn_table19 \<or> function_of info \<in> snd ` set Fn_table31" if "info \<noteq> s_unknown_op_info"
    using assms that unfolding Fn_tables Fn_table31 fns_def by force
  then show ?thesis using unknown_modelled table19_modelled table31_modelled by (auto simp: well_placed_def)
qed

text \<open>The table a description comes from.\<close>

lemma GetOpInfo_source:
  "GetOpInfo inst = s_unknown_op_info \<or>
   unat (OPCD inst) \<notin> {4, 19, 31, 59, 63} \<and> (unat (OPCD inst), GetOpInfo inst) \<in> set Info_primary_table \<or>
   OPCD inst = 4 \<and> GetOpInfo inst \<in> snd ` set (Info_table4_2 @ Info_table4_3 @ Info_table4) \<or>
   OPCD inst \<in> {19, 31} \<and> GetOpInfo inst \<in> snd ` set (Info_table19 @ Info_table31) \<or>
   OPCD inst \<in> {59, 63} \<and> GetOpInfo inst \<in> snd ` set (Info_table59 @ Info_table63 @ Info_table63_2)"
proof (cases "unat (OPCD inst) \<in> {4, 19, 31, 59, 63}")
  case False
  then have "GetOpInfo inst = all_instructions ! the tables_primary_table (unat (OPCD inst))"
    by (simp add: GetOpInfo_def Let_def subtable_infos)
  with False show ?thesis using table_infos(1) [of "unat (OPCD inst)"] by metis
next
  case True
  let ?sub10 = "unat (SUBOP10 inst)" and ?sub5 = "unat (SUBOP5 inst)"
  have t4: "all_instructions ! the tables_table4 ?sub10 = s_unknown_op_info \<or>
      all_instructions ! the tables_table4 ?sub10 \<in> snd ` set (Info_table4_2 @ Info_table4_3 @ Info_table4)"
    using table_infos_repeat(1) by blast
  have t19: "all_instructions ! the tables_table19 ?sub10 = s_unknown_op_info \<or>
      all_instructions ! the tables_table19 ?sub10 \<in> snd ` set (Info_table19 @ Info_table31)"
    and t31: "all_instructions ! the tables_table31 ?sub10 = s_unknown_op_info \<or>
      all_instructions ! the tables_table31 ?sub10 \<in> snd ` set (Info_table19 @ Info_table31)"
    using table_infos(2) [of ?sub10] table_infos(3) [of ?sub10] by force+
  have t59: "all_instructions ! the tables_table59 ?sub5 = s_unknown_op_info \<or>
      all_instructions ! the tables_table59 ?sub5 \<in> snd ` set (Info_table59 @ Info_table63 @ Info_table63_2)"
    using table_infos(4) [of ?sub5] by force
  have t63: "all_instructions ! the tables_table63 ?sub10 = s_unknown_op_info \<or>
      all_instructions ! the tables_table63 ?sub10 \<in> snd ` set (Info_table59 @ Info_table63 @ Info_table63_2)"
    using table_infos_repeat(2) [of ?sub10] by auto
  have "OPCD inst = 4 \<or> OPCD inst = 19 \<or> OPCD inst = 31 \<or> OPCD inst = 59 \<or> OPCD inst = 63"
    using True by (simp add: opcd_numbers)
  then show ?thesis
    using True t4 t19 t31 t59 t63 unfolding GetOpInfo_def Let_def subtable_infos
    by (elim disjE) simp_all
qed

lemma well_placed_GetOpInfo: "well_placed inst (GetOpInfo inst)"
  using GetOpInfo_source [of inst]
proof (elim disjE conjE)
  assume "GetOpInfo inst = s_unknown_op_info"
  then show ?thesis using unknown_modelled by (simp add: well_placed_def)
next
  assume "GetOpInfo inst \<in> snd ` set (Info_table19 @ Info_table31)"
  then obtain q where "(q, GetOpInfo inst) \<in> set (Info_table19 @ Info_table31)" by force
  then show ?thesis by (intro well_placed_integer) blast
qed (blast intro: well_placed_primary well_placed_table4 well_placed_float)+

section \<open>The gate\<close>

lemma fst_map_pair: "fst ` set (map (\<lambda>(name, f). (name, h f)) xs) = fst ` set xs"
  by force

lemma memory_names:
  "fst ` set (memory_functions :: (Instruction \<times> ('m mmu \<Rightarrow> u32 \<Rightarrow> 'm machine \<Rightarrow> 'm machine)) list) =
   fst ` set (memory_functions :: (Instruction \<times> (unit mmu \<Rightarrow> u32 \<Rightarrow> unit machine \<Rightarrow> unit machine)) list)"
  unfolding memory_functions_def list.set image_insert image_empty fst_conv ..

lemma names_function_table:
  fixes E :: "'d core_env"
  shows "fst ` set (function_table E) = modelled_names"
  unfolding function_table_def modelled_names_def set_append image_Un fst_map_pair
    memory_names [where 'm = "'d memory"]
    list.set image_insert image_empty fst_conv Un_assoc ..

lemma function_table_float [simp]:
  "function_table (E\<lparr>float_function := g\<rparr>) = function_table E"
  "on_interpreter (E\<lparr>float_function := g\<rparr>) = on_interpreter E"
proof -
  have "host_effect (E\<lparr>float_function := g\<rparr>) call c = host_effect E call c" for call and c :: "'a core"
    by (cases call) (simp_all add: host_effect_def)
  then have h: "host_effect (E\<lparr>float_function := g\<rparr>) = host_effect E" by (intro ext)
  then show o: "on_interpreter (E\<lparr>float_function := g\<rparr>) = on_interpreter E"
    by (intro ext) (simp add: on_interpreter_def)
  have "unknown_instruction (E\<lparr>float_function := g\<rparr>) = unknown_instruction E"
    by (intro ext) (simp add: unknown_instruction_def)
  with o show "function_table (E\<lparr>float_function := g\<rparr>) = function_table E"
    by (simp add: function_table_def)
qed

lemma run_function_float:
  assumes "name \<in> modelled_names \<or> g name = float_function E name"
  shows "run_function (E\<lparr>float_function := g\<rparr>) name inst = run_function E name inst"
  using assms unfolding names_function_table [of E, symmetric]
  by (auto simp: run_function_def dom_map_of_conv_image_fst [symmetric] split: option.split)



end
