(* ===== verification/Memory_Bytes.thy ===== *)
theory Memory_Bytes
  imports Byte_Swap
begin

text \<open>
  Values as the bytes they occupy in memory, most significant first, and the memory behind a
  range of addresses whose bytes are placed one by one: the vocabulary in which the memory
  management unit and the instructions that use it are compared.
\<close>

section \<open>Values and their bytes\<close>

lemma ucast_of_bytes:
  assumes "8 * length bs \<le> LENGTH('a)" "8 * length bs \<le> LENGTH('b)"
  shows "ucast (of_bytes bs :: 'a::len word) = (of_bytes bs :: 'b::len word)"
proof (rule bit_word_eqI)
  fix i assume "i < LENGTH('b)"
  moreover have "i div 8 < length bs \<Longrightarrow> i < LENGTH('a)"
    using assms(1) by (metis div_less_iff_less_mult less_le_trans mult.commute zero_less_numeral)
  ultimately show "bit (ucast (of_bytes bs :: 'a word) :: 'b word) i = bit (of_bytes bs :: 'b word) i"
    by (auto simp: bit_unsigned_iff bit_of_bytes)
qed

lemma bytes_of_rotr: "bytes_of (word_rotr (8 * n) (w :: u32)) = rotate n (bytes_of w)"
proof (rule nth_equalityI)
  fix i assume "i < length (bytes_of (word_rotr (8 * n) w))"
  then have i: "i < 4" by simp
  show "bytes_of (word_rotr (8 * n) w) ! i = rotate n (bytes_of w) ! i"
  proof (rule bit_word_eqI)
    fix j assume j: "j < LENGTH(8)"
    have m: "(8 * i + j + 8 * n) mod 32 = 8 * ((n + i) mod 4) + j"
    proof -
      have "8 * i + j + 8 * n = 8 * (n + i) + j" by simp
      moreover have "(8 * q + j) mod (8 * 4) = 8 * (q mod 4) + j" for q
        using j by (subst mod_mult2_eq) simp
      moreover have "(32 :: nat) = 8 * 4" by simp
      ultimately show ?thesis by (simp only:)
    qed
    have "bit (bytes_of (word_rotr (8 * n) w) ! i) j \<longleftrightarrow> bit w ((8 * i + j + 8 * n) mod 32)"
      using i j by (simp add: bit_bytes_of bit_word_rotr_iff)
    also have "\<dots> \<longleftrightarrow> bit (bytes_of w ! ((n + i) mod 4)) j"
      using j unfolding m by (simp add: bit_bytes_of)
    finally show "bit (bytes_of (word_rotr (8 * n) w) ! i) j = bit (rotate n (bytes_of w) ! i) j"
      using i by (simp add: nth_rotate)
  qed
qed simp

text \<open>The bytes of the low \<open>n\<close> bytes of a value, most significant first.\<close>

definition be_bytes :: "nat \<Rightarrow> 'a::len word \<Rightarrow> u8 list" where
  "be_bytes n w = rev (take n (bytes_of w))"

lemma length_be_bytes [simp]: "n \<le> LENGTH('a) div 8 \<Longrightarrow> length (be_bytes n (w :: 'a::len word)) = n"
  by (simp add: be_bytes_def)

lemma take_rotate: "n \<le> length xs \<Longrightarrow> rotate n xs = drop n xs @ take n xs"
  by (cases "n = length xs") (simp_all add: rotate_drop_take)

lemma be_bytes_split:
  assumes "n + k \<le> 4"
  shows "be_bytes n (word_rotr (k * 8) data) @ be_bytes k data = be_bytes (n + k) (data :: u32)"
proof -
  have "bytes_of (word_rotr (k * 8) data) = drop k (bytes_of data) @ take k (bytes_of data)"
    using assms by (simp only: mult.commute [of k] bytes_of_rotr) (simp add: take_rotate)
  then have "take k (bytes_of data) @ take n (bytes_of (word_rotr (k * 8) data)) = take (k + n) (bytes_of data)"
    using assms by (simp add: take_add)
  then show ?thesis by (simp add: be_bytes_def rev_append [symmetric] add.commute del: rev_append)
qed

lemma of_be_bytes:
  assumes "n \<le> 4"
  shows "(of_bytes (rev (be_bytes n data)) :: u64) = ucast (take_bit (8 * n) (data :: u32))"
proof (rule bit_word_eqI)
  fix i
  have "i div 8 < n \<longleftrightarrow> i < 8 * n" by (metis div_less_iff_less_mult mult.commute zero_less_numeral)
  moreover have "i div 8 < n \<Longrightarrow> bit (take n (bytes_of data) ! (i div 8)) (i mod 8) = bit data i"
    using assms by (simp add: bit_bytes_of)
  ultimately show "bit (of_bytes (rev (be_bytes n data)) :: u64) i = bit (ucast (take_bit (8 * n) data) :: u64) i"
    using assms by (auto simp: be_bytes_def bit_of_bytes bit_simps dest: bit_imp_le_length)
qed

lemma be_bytes_u64:
  "be_bytes 4 (ucast (drop_bit 32 v) :: u32) @ be_bytes 4 (ucast v :: u32) = be_bytes 8 (v :: u64)"
proof -
  have "bytes_of v = bytes_of (ucast v :: u32) @ bytes_of (ucast (drop_bit 32 v) :: u32)" (is "_ = ?r")
  proof (rule nth_equalityI)
    fix i assume "i < length (bytes_of v)"
    then have i: "i < 8" by simp
    show "bytes_of v ! i = ?r ! i"
    proof (rule bit_word_eqI)
      fix j assume j: "j < LENGTH(8)"
      show "bit (bytes_of v ! i) j = bit (?r ! i) j"
      proof (cases "i < 4")
        case True
        then show ?thesis using j by (simp add: nth_append bit_bytes_of bit_unsigned_iff)
      next
        case False
        then obtain k where "i = 4 + k" "k < 4" using i by (metis add_diff_inverse_nat less_diff_conv2 not_less numeral_Bit0)
        then show ?thesis using j by (simp add: nth_append bit_bytes_of bit_unsigned_iff bit_drop_bit_eq add.assoc)
      qed
    qed
  qed simp
  then show ?thesis by (simp add: be_bytes_def)
qed

section \<open>Bytes behind a range of addresses\<close>

definition backed :: "(u32 \<Rightarrow> u32 option) \<Rightarrow> u32 \<Rightarrow> nat \<Rightarrow> bool" where
  "backed f a n \<longleftrightarrow> (\<forall>i<n. f (a + word_of_nat i) \<noteq> None)"

definition place :: "(u32 \<Rightarrow> u32 option) \<Rightarrow> u32 \<Rightarrow> nat \<Rightarrow> u32 list" where
  "place f a n = map (\<lambda>i. the (f (a + word_of_nat i))) [0..<n]"

fun scatter :: "u32 list \<Rightarrow> u8 list \<Rightarrow> (u32 \<Rightarrow> u8) \<Rightarrow> u32 \<Rightarrow> u8" where
  "scatter (l # ls) (b # bs) r = scatter ls bs (r(l := b))"
| "scatter _ _ r = r"

lemma length_place [simp]: "length (place f a n) = n"
  by (simp add: place_def)

lemma nth_place: "i < n \<Longrightarrow> place f a n ! i = the (f (a + word_of_nat i))"
  by (simp add: place_def)

lemma place_split: "place f a (n + k) = place f a n @ place f (a + word_of_nat n) k"
  by (rule nth_equalityI) (auto simp: nth_place nth_append add.assoc simp flip: of_nat_add)

lemma place_Suc: "place f a (Suc n) = the (f a) # place f (a + 1) n"
  using place_split [of f a 1 n] by (simp add: place_def)

lemma backed_split: "backed f a (n + k) \<longleftrightarrow> backed f a n \<and> backed f (a + word_of_nat n) k"
proof
  assume b: "backed f a (n + k)"
  have "f (a + word_of_nat n + word_of_nat i) \<noteq> None" if "i < k" for i
    using b that unfolding backed_def by (metis add.assoc add_less_cancel_left of_nat_add)
  then show "backed f a n \<and> backed f (a + word_of_nat n) k" using b by (auto simp: backed_def)
next
  assume b: "backed f a n \<and> backed f (a + word_of_nat n) k"
  show "backed f a (n + k)" unfolding backed_def
  proof (intro allI impI)
    fix i assume i: "i < n + k"
    show "f (a + word_of_nat i) \<noteq> None"
    proof (cases "i < n")
      case True then show ?thesis using b by (simp add: backed_def)
    next
      case False
      then obtain j where "i = n + j" by (metis le_add_diff_inverse not_less)
      then show ?thesis using b i by (simp add: backed_def add.assoc)
    qed
  qed
qed

lemma backed_Suc: "backed f a (Suc n) \<longleftrightarrow> f a \<noteq> None \<and> backed f (a + 1) n"
  using backed_split [of f a 1 n] by (simp add: backed_def)

lemma backed_0 [simp]: "backed f a 0" and place_0 [simp]: "place f a 0 = []"
  by (simp_all add: backed_def place_def)

lemma backed_mono: "backed f a n \<Longrightarrow> k \<le> n \<Longrightarrow> backed f a k"
  by (simp add: backed_def)

lemma scatter_append:
  "length ls = length bs \<Longrightarrow> scatter (ls @ ls') (bs @ bs') r = scatter ls' bs' (scatter ls bs r)"
  by (induction ls bs arbitrary: r rule: list_induct2) simp_all

lemma scatter_other: "l \<notin> set ls \<Longrightarrow> scatter ls bs r l = r l"
  by (induction ls bs r rule: scatter.induct) auto

lemma scatter_at:
  assumes "length ls = length bs" "distinct ls" "i < length ls"
  shows "scatter ls bs r (ls ! i) = bs ! i"
  using assms
proof (induction ls bs arbitrary: r i rule: list_induct2)
  case (Cons l ls b bs)
  show ?case
  proof (cases i)
    case 0
    then show ?thesis using Cons.prems by (simp add: scatter_other)
  next
    case (Suc j)
    then show ?thesis using Cons.IH [of j] Cons.prems by simp
  qed
qed simp

end
