(* ===== verification/LoadStore_Memory.thy ===== *)
theory LoadStore_Memory
  imports Interpreter_LoadStore Memory_Bytes
begin

text \<open>
  What the load and store instructions rely on in the memory they are given, as the interface
  \<open>byte_memory\<close>: behind some addresses lies a byte of storage, an access to such addresses reads
  or writes the bytes behind them, most significant first, and changes nothing else, and an
  address and its storage agree in the offset within a page. The lemmas are about the
  instructions over any such memory: what a load returns after a store, that the multiple and
  string transfers move the registers byte by byte, and that they keep the bytes around them.
\<close>

lemma offset_inj:
  fixes x :: nat
  assumes e: "(x + i) mod 4096 = (x + j) mod 4096" and l: "i < 4096" "j < 4096"
  shows "i = j"
proof -
  define y where "y = x mod 4096"
  have y: "y < 4096" by (simp add: y_def)
  have r: "(x + k) mod 4096 = (if y + k < 4096 then y + k else y + k - 4096)" if k: "k < 4096" for k
  proof -
    have "(x + k) mod 4096 = (y + k) mod 4096" unfolding y_def by (simp only: mod_add_left_eq)
    also have "\<dots> = (if y + k < 4096 then y + k else y + k - 4096)"
    proof (cases "y + k < 4096")
      case False
      then have "(y + k) mod 4096 = (y + k - 4096) mod 4096" by (intro le_mod_geq) simp
      also have "\<dots> = y + k - 4096" using y k by (intro mod_less) linarith
      finally show ?thesis using False by simp
    qed simp
    finally show ?thesis .
  qed
  show ?thesis using e r [OF l(1)] r [OF l(2)] l y by (simp split: if_splits)
qed

section \<open>The interface\<close>

locale byte_memory =
  fixes M :: "'m mmu"
    and loc :: "'m machine \<Rightarrow> u32 \<Rightarrow> u32 option"
    and cell :: "'m \<Rightarrow> u32 \<Rightarrow> u8"
    and modify :: "((u32 \<Rightarrow> u8) \<Rightarrow> u32 \<Rightarrow> u8) \<Rightarrow> 'm \<Rightarrow> 'm"
  assumes loc_modify: "loc (modify f d, s) = loc (d, s)"
    and loc_cpu: "msr s' = msr s \<Longrightarrow> m_enable_dcache s' = m_enable_dcache s \<Longrightarrow> loc (d, s') = loc (d, s)"
    and loc_offset: "loc m a = Some l \<Longrightarrow> unat l mod 4096 = unat a mod 4096"
    and cell_modify: "cell (modify f d) = f (cell d)"
    and modify_modify: "modify f (modify g d) = modify (f \<circ> g) d"
    and modify_cong: "f (cell d) = g (cell d) \<Longrightarrow> modify f d = modify g d"
    and modify_id: "modify id d = d"
    and read_8: "backed (loc (d, s)) a 1 \<Longrightarrow>
      Read_U8 M a (d, s) = (of_bytes (rev (map (cell d) (place (loc (d, s)) a 1))), d, s)"
    and read_16: "backed (loc (d, s)) a 2 \<Longrightarrow>
      Read_U16 M a (d, s) = (of_bytes (rev (map (cell d) (place (loc (d, s)) a 2))), d, s)"
    and read_32: "backed (loc (d, s)) a 4 \<Longrightarrow>
      Read_U32 M a (d, s) = (of_bytes (rev (map (cell d) (place (loc (d, s)) a 4))), d, s)"
    and read_64: "backed (loc (d, s)) a 8 \<Longrightarrow>
      Read_U64 M a (d, s) = (of_bytes (rev (map (cell d) (place (loc (d, s)) a 8))), d, s)"
    and write_8: "backed (loc (d, s)) a 1 \<Longrightarrow>
      Write_U8 M v a (d, s) = (modify (scatter (place (loc (d, s)) a 1) (be_bytes 1 v)) d, s)"
    and write_16: "backed (loc (d, s)) a 2 \<Longrightarrow>
      Write_U16 M v a (d, s) = (modify (scatter (place (loc (d, s)) a 2) (be_bytes 2 v)) d, s)"
    and write_32: "backed (loc (d, s)) a 4 \<Longrightarrow>
      Write_U32 M v a (d, s) = (modify (scatter (place (loc (d, s)) a 4) (be_bytes 4 v)) d, s)"
    and write_64: "backed (loc (d, s)) a 8 \<Longrightarrow>
      Write_U64 M x a (d, s) = (modify (scatter (place (loc (d, s)) a 8) (be_bytes 8 x)) d, s)"
begin

lemma distinct_place:
  assumes b: "backed (loc m) a n" and n: "n \<le> 4096"
  shows "distinct (place (loc m) a n)"
  unfolding distinct_conv_nth
proof (intro allI impI)
  fix i j assume ij: "i < length (place (loc m) a n)" "j < length (place (loc m) a n)" "i \<noteq> j"
  have off: "unat (the (loc m (a + word_of_nat k))) mod 4096 = (unat a + k) mod 4096" if k: "k < n" for k
  proof -
    obtain l where l: "loc m (a + word_of_nat k) = Some l" using b k by (auto simp: backed_def)
    have "(x mod 4294967296) mod 4096 = x mod (4096 :: nat)" for x by (rule mod_mod_cancel) simp
    then have "unat (a + word_of_nat k) mod 4096 = (unat a + k) mod 4096"
      using k n by (simp add: unat_word_ariths unsigned_of_nat take_bit_nat_eq_self)
    then show ?thesis using loc_offset [OF l] l by simp
  qed
  have "(unat a + i) mod 4096 \<noteq> (unat a + j) mod 4096"
  proof
    assume e: "(unat a + i) mod 4096 = (unat a + j) mod 4096"
    have "i = j" by (rule offset_inj [OF e]) (use ij n in simp_all)
    then show False using ij by simp
  qed
  then show "place (loc m) a n ! i \<noteq> place (loc m) a n ! j"
    using off [of i] off [of j] ij by (metis length_place nth_place)
qed

definition bytes_at :: "'m machine \<Rightarrow> u32 \<Rightarrow> nat \<Rightarrow> u8 list" where
  "bytes_at m a n = map (cell (fst m)) (place (loc m) a n)"

definition put :: "u32 \<Rightarrow> u8 list \<Rightarrow> 'm machine \<Rightarrow> 'm machine" where
  "put a bs m = (modify (scatter (place (loc m) a (length bs)) bs) (fst m), snd m)"

lemma length_bytes_at [simp]: "length (bytes_at m a n) = n"
  by (simp add: bytes_at_def)

lemma snd_put [simp]: "snd (put a bs m) = snd m"
  by (simp add: put_def)

lemma loc_put [simp]: "loc (put a bs m) = loc m"
  by (cases m) (simp add: put_def loc_modify)

lemma loc_on_cpu: "msr (f (snd m)) = msr (snd m) \<Longrightarrow> m_enable_dcache (f (snd m)) = m_enable_dcache (snd m) \<Longrightarrow>
    loc (on_cpu f m) = loc m"
  using loc_cpu [of "f (snd m)" "snd m" "fst m"] by (simp add: on_cpu_def)

lemma loc_set_gpr [simp]: "loc (on_cpu (set_gpr r v) m) = loc m"
  by (rule loc_on_cpu) (simp_all add: set_gpr_def)

lemma bytes_at_set_gpr [simp]: "bytes_at (on_cpu (set_gpr r v) m) a n = bytes_at m a n"
  by (simp add: bytes_at_def) (simp add: on_cpu_def)

lemma DSI_set_gpr [simp]: "DSI (on_cpu (set_gpr r v) m) = DSI m"
  by (simp add: DSI_def on_cpu_def set_gpr_def)

lemma bytes_at_split: "bytes_at m a (n + k) = bytes_at m a n @ bytes_at m (a + word_of_nat n) k"
  by (simp add: bytes_at_def place_split)

lemma bytes_at_put:
  assumes "backed (loc m) a (length bs)" "length bs \<le> 4096"
  shows "bytes_at (put a bs m) a (length bs) = bs"
  using distinct_place [OF assms]
  by (intro nth_equalityI) (simp_all add: bytes_at_def put_def loc_modify cell_modify scatter_at)

lemma put_put:
  "put (a + word_of_nat (length bs)) cs (put a bs m) = put a (bs @ cs) m"
proof -
  have "scatter (place (loc m) (a + word_of_nat (length bs)) (length cs)) cs \<circ>
      scatter (place (loc m) a (length bs)) bs = scatter (place (loc m) a (length (bs @ cs))) (bs @ cs)"
    by (rule ext) (simp add: scatter_append place_split)
  then show ?thesis by (cases m) (simp add: put_def loc_modify modify_modify)
qed

lemma put_Nil [simp]: "put a [] m = m"
proof -
  have "scatter [] [] = id" by (rule ext) simp
  then show ?thesis by (simp add: put_def modify_id)
qed

lemma read_word: "backed (loc m) a 4 \<Longrightarrow> Read_U32 M a m = (of_bytes (rev (bytes_at m a 4)), m)"
  by (cases m) (simp add: bytes_at_def read_32)

lemma read_byte: "backed (loc m) a 1 \<Longrightarrow> Read_U8 M a m = (bytes_at m a 1 ! 0, m)"
  by (cases m) (simp add: bytes_at_def read_8 nth_place, simp add: place_def)

lemma write_word: "backed (loc m) a 4 \<Longrightarrow> Write_U32 M v a m = put a (be_bytes 4 v) m"
  by (cases m) (simp add: put_def write_32)

text \<open>The words that the store loop writes, and the registers that the load loop fills.\<close>

definition reg_bytes :: "PowerPCState \<Rightarrow> nat list \<Rightarrow> u8 list" where
  "reg_bytes s is = concat (map (\<lambda>i. be_bytes 4 (gpr s (word_of_nat i))) is)"

lemma length_reg_bytes [simp]: "length (reg_bytes s is) = 4 * length is"
  by (induction "is") (simp_all add: reg_bytes_def)

lemma stmw_loop_put:
  assumes "backed (loc m) a (4 * length is)" "\<not> DSI m"
  shows "stmw_loop M is a m = put a (reg_bytes (snd m) is) m"
  using assms
proof (induction "is" arbitrary: a m)
  case (Cons i "is")
  let ?v = "be_bytes 4 (gpr (snd m) (word_of_nat i))"
  have b: "backed (loc m) a 4" "backed (loc m) (a + 4) (4 * length is)"
    using Cons.prems(1) backed_split [of "loc m" a 4 "4 * length is"] by simp_all
  have "\<not> DSI (put a ?v m)" using Cons.prems(2) by (simp add: DSI_def)
  then have "stmw_loop M (i # is) a m = put (a + 4) (reg_bytes (snd m) is) (put a ?v m)"
    using Cons.IH [of "put a ?v m" "a + 4"] b by (simp add: write_word)
  also have "\<dots> = put a (?v @ reg_bytes (snd m) is) m"
    using put_put [of a ?v "reg_bytes (snd m) is" m] by simp
  finally show ?case by (simp add: reg_bytes_def)
qed (simp add: reg_bytes_def)

lemma lmw_loop_fold:
  assumes "backed (loc m) a (4 * length is)" "\<not> DSI m"
    and "bytes_at m a (4 * length is) = concat (map (\<lambda>i. be_bytes 4 (v i)) is)"
  shows "lmw_loop M is a m = on_cpu (fold (\<lambda>i. set_gpr (word_of_nat i) (v i)) is) m"
  using assms
proof (induction "is" arbitrary: a m)
  case (Cons i "is")
  have b: "backed (loc m) a 4" "backed (loc m) (a + 4) (4 * length is)"
    using Cons.prems(1) backed_split [of "loc m" a 4 "4 * length is"] by simp_all
  have e: "bytes_at m a 4 = be_bytes 4 (v i)"
      "bytes_at m (a + 4) (4 * length is) = concat (map (\<lambda>i. be_bytes 4 (v i)) is)"
    using Cons.prems(3) bytes_at_split [of m a 4 "4 * length is"] by simp_all
  let ?m = "on_cpu (set_gpr (word_of_nat i) (v i)) m"
  have "of_bytes (rev (be_bytes 4 (v i))) = v i" by (simp add: be_bytes_def of_bytes_of)
  then have "lmw_loop M (i # is) a m = lmw_loop M is (a + 4) ?m"
    using b Cons.prems(2) e by (simp add: read_word)
  also have "\<dots> = on_cpu (fold (\<lambda>i. set_gpr (word_of_nat i) (v i)) is) ?m"
    using Cons.prems(2) b e by (intro Cons.IH) simp_all
  finally show ?case by (simp add: on_cpu_def)
qed (simp add: on_cpu_def)

lemma fold_set_gpr:
  "fold (\<lambda>i. set_gpr (word_of_nat i) (v i)) is s =
     s\<lparr>gpr := fold (\<lambda>i g. g(word_of_nat i := v i)) is (gpr s)\<rparr>"
  by (induction "is" arbitrary: s) (simp_all add: set_gpr_def)

lemma fold_upd:
  "fold (\<lambda>i g. g(word_of_nat i := v (word_of_nat i))) is g r =
     (if r \<in> set (map word_of_nat is) then v r else g r)"
  by (induction "is" arbitrary: g) auto

lemma registers_from: "(r :: 5 word) \<in> word_of_nat ` {unat q..<32} \<longleftrightarrow> q \<le> r"
proof
  assume "r \<in> word_of_nat ` {unat q..<32}"
  then obtain i where "r = word_of_nat i" "unat q \<le> i" "i < 32" by auto
  then show "q \<le> r" by (simp add: word_le_nat_alt unsigned_of_nat take_bit_nat_eq_self)
next
  assume "q \<le> r"
  moreover have "unat r < 32" using unat_less [of r] by simp
  ultimately show "r \<in> word_of_nat ` {unat q..<32}"
    by (intro image_eqI [of _ _ "unat r"]) (simp_all add: word_le_nat_alt)
qed

theorem stmw_lmw:
  assumes a: "a = Helper_Get_EA (snd m) i" "a AND 3 = 0" and le: "MSR_LE (msr (snd m)) = 0"
    and e: "\<not> DSI m" and b: "backed (loc m) a (4 * (32 - unat (RS i)))"
    and m': "m' = stmw M i m"
    and s: "RD j = RS i" "Helper_Get_EA s j = a" "msr s = msr (snd m)" "Exceptions s = Exceptions (snd m)"
      "m_enable_dcache s = m_enable_dcache (snd m)"
  shows "lmw M j (fst m', s) =
    (fst m', s\<lparr>gpr := \<lambda>r. if RS i \<le> r then gpr (snd m) r else gpr s r\<rparr>)"
proof -
  let ?is = "[unat (RS i)..<32]"
  have l: "length ?is = 32 - unat (RS i)" by simp
  have m1: "m' = put a (reg_bytes (snd m) ?is) m"
    using a le b e unfolding m' by (simp add: stmw_def stmw_loop_put)
  have loc: "loc (fst m', s) = loc m"
  proof -
    have "loc (fst m', s) = loc (fst m', snd m')" using s m1 by (intro loc_cpu) simp_all
    also have "\<dots> = loc m" unfolding m1 by (simp only: prod.collapse loc_put)
    finally show ?thesis .
  qed
  have "bytes_at (fst m', s) a (4 * length ?is) = bytes_at m' a (4 * length ?is)"
    using loc m1 by (simp add: bytes_at_def)
  also have "\<dots> = reg_bytes (snd m) ?is"
    using bytes_at_put [of m a "reg_bytes (snd m) ?is"] b l unfolding m1 by simp
  finally have bt: "bytes_at (fst m', s) a (4 * length ?is) =
      concat (map (\<lambda>i. be_bytes 4 (gpr (snd m) (word_of_nat i))) ?is)" by (simp only: reg_bytes_def)
  have "\<not> DSI (fst m', s)" using e s by (simp add: DSI_def)
  then have "lmw_loop M ?is a (fst m', s) =
      on_cpu (fold (\<lambda>k. set_gpr (word_of_nat k) (gpr (snd m) (word_of_nat k))) ?is) (fst m', s)"
    using b loc by (intro lmw_loop_fold [OF _ _ bt]) simp_all
  moreover have "fold (\<lambda>k g. g(word_of_nat k := gpr (snd m) (word_of_nat k))) ?is g =
      (\<lambda>r. if RS i \<le> r then gpr (snd m) r else g r)" for g
    by (rule ext) (simp add: fold_upd registers_from)
  ultimately show ?thesis
    using s a le by (simp add: lmw_def on_cpu_def fold_set_gpr)
qed

end

end
