(* ===== verification/String_Store.thy ===== *)
theory String_Store
  imports LoadStore_Memory
begin

lemma be_bytes_4:
  "be_bytes 4 (w :: u32) = [ucast (drop_bit 24 w), ucast (drop_bit 16 w), ucast (drop_bit 8 w), ucast w]"
  by (simp add: be_bytes_def bytes_of_def upt_rec)

lemma high_half: "x AND 0xFFFFFFFF00000000 = push_bit 32 (drop_bit 32 (x :: u64))"
proof -
  have e: "(0xFFFFFFFF00000000 :: u64) = push_bit 32 (mask 32)" by (simp add: mask_eq_exp_minus_1)
  show ?thesis unfolding e by (rule bit_word_eqI) (auto simp: bit_simps)
qed

lemma small_cases: "(n :: nat) < 4 \<Longrightarrow> n = 0 \<or> n = 1 \<or> n = 2 \<or> n = 3"
  by auto

lemma shifted_word:
  assumes "k < 4"
  shows "be_bytes 4 (ucast (drop_bit (k * 8) (push_bit 32 (ucast hi) OR ucast g :: u64)) :: u32) =
    drop (4 - k) (be_bytes 4 (hi :: u32)) @ take (4 - k) (be_bytes 4 (g :: u32))"
  using small_cases [OF assms]
  by (elim disjE) (simp_all add: be_bytes_4, (intro conjI bit_word_eqI; auto simp: bit_simps dest: bit_imp_le_length)+)

lemma shifted_start:
  assumes "k < 4"
  obtains hi :: u32 where
    "push_bit (k * 8) (ucast (w :: u32)) AND 0xFFFFFFFF00000000 = (push_bit 32 (ucast hi) :: u64)"
    "drop (4 - k) (be_bytes 4 hi) = take k (be_bytes 4 w)"
proof
  let ?h = "ucast (drop_bit 32 (push_bit (k * 8) (ucast w) :: u64)) :: u32"
  show "push_bit (k * 8) (ucast w) AND 0xFFFFFFFF00000000 = (push_bit 32 (ucast ?h) :: u64)"
    unfolding high_half by (rule bit_word_eqI) (auto simp: bit_simps dest: bit_imp_le_length)
  show "drop (4 - k) (be_bytes 4 ?h) = take k (be_bytes 4 w)"
    using small_cases [OF assms]
    by (elim disjE) (simp_all add: be_bytes_4, (intro conjI bit_word_eqI; auto simp: bit_simps dest: bit_imp_le_length)+)
qed

lemma shifted_tail:
  assumes "k < 4" "0 < n" "n < 4"
  shows "be_bytes 4 (ucast (drop_bit (n * 8)
      ((if n > k then push_bit ((n - k) * 8) (push_bit 32 (ucast hi) OR ucast g)
        else drop_bit ((k - n) * 8) (push_bit 32 (ucast hi))) AND 0xFFFFFFFF00000000 OR
       (ucast (push_bit (n * 8) w) :: u64))) :: u32) =
    take n (drop (4 - k) (be_bytes 4 (hi :: u32)) @ be_bytes 4 (g :: u32)) @ drop n (be_bytes 4 (w :: u32))"
  using small_cases [OF assms(1)] small_cases [OF assms(3)] assms(2) unfolding high_half
  by (elim disjE) (simp_all add: be_bytes_4, (intro conjI bit_word_eqI; auto simp: bit_simps dest: bit_imp_le_length)+)


lemma scatter_same: "scatter ls (map r ls) r = r"
  by (induction ls) simp_all

definition regs :: "PowerPCState \<Rightarrow> 5 word \<Rightarrow> nat \<Rightarrow> u8 list" where
  "regs s r q = concat (map (\<lambda>k. be_bytes 4 (gpr s (r + word_of_nat k))) [0..<q])"

definition string_bytes :: "PowerPCState \<Rightarrow> 5 word \<Rightarrow> nat \<Rightarrow> u8 list" where
  "string_bytes s r n =
     map (\<lambda>i. be_bytes 4 (gpr s (r + word_of_nat (i div 4))) ! (i mod 4)) [0..<n]"

lemma length_string_bytes [simp]: "length (string_bytes s r n) = n"
  by (simp add: string_bytes_def)

lemma regs_Suc: "regs s r (Suc q) = be_bytes 4 (gpr s r) @ regs s (r + 1) q"
  unfolding regs_def upt_conv_Cons [OF zero_less_Suc] map_Suc_upt [symmetric]
  by (simp add: comp_def add.assoc)

lemma regs_snoc: "regs s r (Suc q) = regs s r q @ be_bytes 4 (gpr s (r + word_of_nat q))"
  by (simp add: regs_def)

lemma length_regs [simp]: "length (regs s r q) = 4 * q"
  by (induction q) (simp_all add: regs_snoc regs_def)

lemma nth_regs: "i < 4 * q \<Longrightarrow> regs s r q ! i = be_bytes 4 (gpr s (r + word_of_nat (i div 4))) ! (i mod 4)"
proof (induction q arbitrary: r i)
  case (Suc q)
  show ?case
  proof (cases "i < 4")
    case True
    then show ?thesis by (simp add: regs_Suc nth_append)
  next
    case False
    then obtain j where i: "i = 4 + j" by (metis le_add_diff_inverse not_less)
    then have "i div 4 = Suc (j div 4)" by simp
    then show ?thesis using i Suc.prems Suc.IH [of j "r + 1"] by (simp add: regs_Suc nth_append add.assoc)
  qed
qed simp

lemma take_regs: "n \<le> 4 * q \<Longrightarrow> take n (regs s r q) = string_bytes s r n"
  by (intro nth_equalityI) (simp_all add: string_bytes_def nth_regs)

context byte_memory
begin

lemma put_same: "put a (bytes_at m a n) m = m"
proof -
  have "scatter (place (loc m) a n) (bytes_at m a n) (cell (fst m)) = id (cell (fst m))"
    by (simp add: bytes_at_def scatter_same)
  then have "modify (scatter (place (loc m) a n) (bytes_at m a n)) (fst m) = modify id (fst m)"
    by (rule modify_cong)
  then show ?thesis by (simp add: put_def modify_id)
qed

lemma bytes_at_put_after:
  assumes "backed (loc m) a (length bs + n)" "length bs + n \<le> 4096"
  shows "bytes_at (put a bs m) (a + word_of_nat (length bs)) n = bytes_at m (a + word_of_nat (length bs)) n"
proof -
  have "distinct (place (loc m) a (length bs) @ place (loc m) (a + word_of_nat (length bs)) n)"
    using distinct_place [OF assms] by (simp only: place_split)
  then have "\<forall>l \<in> set (place (loc m) (a + word_of_nat (length bs)) n). l \<notin> set (place (loc m) a (length bs))"
    by auto
  then show ?thesis by (simp add: bytes_at_def) (simp add: put_def cell_modify scatter_other)
qed

lemma put_around:
  assumes b: "backed (loc m) a (k + length bs + j)" and n: "k + length bs + j \<le> 4096"
  shows "put a (bytes_at m a k @ bs @ bytes_at m (a + word_of_nat (k + length bs)) j) m =
    put (a + word_of_nat k) bs m"
proof -
  let ?b = "a + word_of_nat k"
  let ?c = "?b + word_of_nat (length bs)"
  have c: "a + word_of_nat (k + length bs) = ?c" by (simp add: add.assoc)
  have "backed (loc m) ?b (length bs + j)"
    using b backed_split [of "loc m" a k "length bs + j"] by (simp add: add.assoc)
  then have e: "bytes_at (put ?b bs m) ?c j = bytes_at m ?c j"
    using n by (intro bytes_at_put_after) simp_all
  have "put a (bytes_at m a k @ bs @ bytes_at m ?c j) m =
      put ?b (bs @ bytes_at m ?c j) (put a (bytes_at m a k) m)"
    using put_put [of a "bytes_at m a k" "bs @ bytes_at m ?c j" m] by simp
  also have "\<dots> = put ?b (bs @ bytes_at m ?c j) m" by (simp only: put_same)
  also have "\<dots> = put ?c (bytes_at m ?c j) (put ?b bs m)" by (rule put_put [symmetric])
  also have "\<dots> = put ?b bs m" unfolding e [symmetric] by (rule put_same)
  finally show ?thesis unfolding c .
qed

lemma StoreString_words_put:
  assumes "backed (loc m) a (4 * q)" "\<not> DSI m" "k < 4" "t < 4"
  shows "\<exists>hi'. StoreString_words M (k * 8) (push_bit 32 (ucast (hi :: u32))) a (4 * q + t) r m =
      (Some (push_bit 32 (ucast hi'), a + word_of_nat (4 * q), t, r + word_of_nat q),
       put a (take (4 * q) (drop (4 - k) (be_bytes 4 hi) @ regs (snd m) r q)) m) \<and>
    drop (4 - k) (be_bytes 4 (hi' :: u32)) = drop (4 * q) (drop (4 - k) (be_bytes 4 hi) @ regs (snd m) r q)"
  using assms
proof (induction q arbitrary: hi a r m)
  case 0
  then show ?case by (intro exI [of _ hi]) (simp add: StoreString_words.simps [of _ _ _ _ t] regs_def)
next
  case (Suc q)
  let ?g = "gpr (snd m) r" and ?pend = "drop (4 - k) (be_bytes 4 hi)"
  let ?W = "?pend @ take (4 - k) (be_bytes 4 ?g)" and ?P = "drop (4 - k) (be_bytes 4 ?g)"
  have b: "backed (loc m) a 4" "backed (loc m) (a + 4) (4 * q)"
    using Suc.prems(1) backed_split [of "loc m" a 4 "4 * q"] by simp_all
  have W: "length ?W = 4" using Suc.prems(3) by simp
  have split: "?pend @ regs (snd m) r (Suc q) = ?W @ ?P @ regs (snd m) (r + 1) q"
    by (simp add: regs_Suc)
  have lo: "push_bit 32 (push_bit 32 (ucast hi) OR ucast ?g) = (push_bit 32 (ucast ?g) :: u64)"
    by (rule bit_word_eqI) (auto simp: bit_simps)
  let ?m = "put a ?W m"
  have "\<not> DSI ?m" using Suc.prems(2) by (simp add: DSI_def)
  then have step: "StoreString_words M (k * 8) (push_bit 32 (ucast hi)) a (4 * Suc q + t) r m =
      StoreString_words M (k * 8) (push_bit 32 (ucast ?g)) (a + 4) (4 * q + t) (r + 1) ?m"
    using b shifted_word [OF Suc.prems(3), of hi ?g, unfolded drop_bit_or]
    by (subst StoreString_words.simps) (simp add: Let_def write_word lo)
  obtain hi' where ih: "StoreString_words M (k * 8) (push_bit 32 (ucast ?g)) (a + 4) (4 * q + t) (r + 1) ?m =
      (Some (push_bit 32 (ucast hi'), a + 4 + word_of_nat (4 * q), t, r + 1 + word_of_nat q),
       put (a + 4) (take (4 * q) (?P @ regs (snd m) (r + 1) q)) ?m)"
    "drop (4 - k) (be_bytes 4 (hi' :: u32)) = drop (4 * q) (?P @ regs (snd m) (r + 1) q)"
    using Suc.IH [of ?m "a + 4" ?g "r + 1"] b \<open>\<not> DSI ?m\<close> Suc.prems(3,4) by auto
  have "put (a + 4) (take (4 * q) (?P @ regs (snd m) (r + 1) q)) ?m =
      put a (take (4 * Suc q) (?pend @ regs (snd m) r (Suc q))) m"
    using put_put [of a ?W _ m] W unfolding split by (simp del: append_assoc)
  moreover have "drop (4 * q) (?P @ regs (snd m) (r + 1) q) =
      drop (4 * Suc q) (?pend @ regs (snd m) r (Suc q))"
    unfolding split using W by (simp del: append_assoc)
  ultimately show ?case
    using ih step by (intro exI [of _ hi']) (simp add: add.assoc)
qed

lemma be_bytes_of_bytes: "length bs = 4 \<Longrightarrow> be_bytes 4 (of_bytes (rev bs) :: u32) = bs"
  by (simp add: be_bytes_def bytes_of_bytes)

lemma StoreString_tail_put:
  assumes "k < 4" "t < 4" "t \<noteq> 0" "backed (loc m) a 4" "\<not> DSI m"
  shows "StoreString_tail M k (push_bit 32 (ucast (hi :: u32))) a t r m =
    put a (take t (drop (4 - k) (be_bytes 4 hi) @ be_bytes 4 (gpr (snd m) r)) @ drop t (bytes_at m a 4)) m"
proof -
  let ?w = "of_bytes (rev (bytes_at m a 4)) :: u32"
  have "0 < t" using assms(3) by simp
  note st = shifted_tail [OF assms(1) this assms(2), of hi "gpr (snd m) r" ?w]
  have "StoreString_tail M k (push_bit 32 (ucast hi)) a t r m =
      Write_U32 M (ucast (drop_bit (t * 8)
        ((if t > k then push_bit ((t - k) * 8) (push_bit 32 (ucast hi) OR ucast (gpr (snd m) r))
          else drop_bit ((k - t) * 8) (push_bit 32 (ucast hi))) AND 0xFFFFFFFF00000000 OR
         (ucast (push_bit (t * 8) ?w) :: u64)))) a m"
    using assms(3-5) unfolding StoreString_tail_def Let_def read_word [OF assms(4)] by simp
  also have "\<dots> = put a (take t (drop (4 - k) (be_bytes 4 hi) @ be_bytes 4 (gpr (snd m) r)) @
      drop t (be_bytes 4 ?w)) m"
    unfolding write_word [OF assms(4)] st ..
  finally show ?thesis by (simp only: be_bytes_of_bytes length_bytes_at)
qed

lemma word_split_4: "(a AND NOT 3) + word_of_nat (unat (a AND 3)) = (a :: u32)"
proof -
  have "(a AND NOT 3) + (a AND 3) = (a AND NOT 3) OR (a AND 3)"
    by (rule disjunctive_add) (auto simp: bit_simps)
  also have "\<dots> = a" by (rule bit_word_eqI) (auto simp: bit_simps)
  finally show ?thesis by simp
qed

text \<open>The word before the string supplies the bytes that the first write puts back.\<close>

lemma StoreString_start:
  assumes A: "A = EA AND NOT 3" and k: "k = unat (EA AND 3)" and d: "\<not> DSI m"
    and b: "k \<noteq> 0 \<Longrightarrow> backed (loc m) A 4"
  obtains hi :: u32 where "drop (4 - k) (be_bytes 4 hi) = bytes_at m A k"
    "Helper_StoreString M EA n r m =
       (let (rest, m) = StoreString_words M (k * 8) (push_bit 32 (ucast hi)) A (n + k) r m
        in case rest of
             None \<Rightarrow> m
           | Some (current_value, current_address, n, r) \<Rightarrow>
               StoreString_tail M k current_value current_address n r m)"
proof (cases "k = 0")
  case True
  then have "unat (EA AND 3) = 0" using k by simp
  then show ?thesis
    using A by (intro that [of 0]; unfold True) (simp_all add: Helper_StoreString_def Let_def bytes_at_def)
next
  case False
  have k4: "k < 4"
  proof -
    have "EA AND 3 \<le> 3" by (rule word_and_le1)
    then show ?thesis unfolding k by (simp add: word_le_nat_alt)
  qed
  let ?w = "of_bytes (rev (bytes_at m A 4)) :: u32"
  obtain hi :: u32 where hi: "push_bit (k * 8) (ucast ?w) AND 0xFFFFFFFF00000000 = (push_bit 32 (ucast hi) :: u64)"
      "drop (4 - k) (be_bytes 4 hi) = take k (be_bytes 4 ?w)"
    by (rule shifted_start [OF k4, of ?w])
  have "bytes_at m A 4 = bytes_at m A k @ bytes_at m (A + word_of_nat k) (4 - k)"
    using bytes_at_split [of m A k "4 - k"] k4 by simp
  then have "take k (bytes_at m A 4) = bytes_at m A k" by simp
  then have "take k (be_bytes 4 ?w) = bytes_at m A k" by (simp only: be_bytes_of_bytes length_bytes_at)
  then show ?thesis
    using that [of hi] hi d False read_word [OF b [OF False]] unfolding k A
    by (simp add: Helper_StoreString_def Let_def)
qed

theorem StoreString_bytes:
  assumes d: "\<not> DSI m" and n: "n \<le> 255"
    and b: "backed (loc m) (EA AND NOT 3) (4 * ((unat (EA AND 3) + n + 3) div 4))"
  shows "Helper_StoreString M EA n r m = put EA (string_bytes (snd m) r n) m"
proof -
  define k where "k = unat (EA AND 3)"
  define A where "A = EA AND NOT 3"
  define q where "q = (n + k) div 4"
  define t where "t = (n + k) mod 4"
  have k4: "k < 4"
  proof -
    have "EA AND 3 \<le> 3" by (rule word_and_le1)
    then show ?thesis unfolding k_def by (simp add: word_le_nat_alt)
  qed
  have t4: "t < 4" and nk: "n + k = 4 * q + t" by (simp_all add: t_def q_def)
  have q64: "q \<le> 64" using nk n k4 by simp
  have bA: "backed (loc m) A (4 * ((n + k + 3) div 4))" using b by (simp add: A_def k_def add.commute)
  have bq: "backed (loc m) A (4 * q)" by (rule backed_mono [OF bA]) (simp add: q_def div_le_mono)
  have bt: "backed (loc m) A (4 * q + 4)" if "t \<noteq> 0"
  proof (rule backed_mono [OF bA])
    have "4 * (q + 1) \<le> n + k + 3" using that nk by simp
    then have "4 * (q + 1) div 4 \<le> (n + k + 3) div 4" by (rule div_le_mono)
    then have "q + 1 \<le> (n + k + 3) div 4" by simp
    then show "4 * q + 4 \<le> 4 * ((n + k + 3) div 4)" by simp
  qed
  have b0: "backed (loc m) A 4" if "k \<noteq> 0"
  proof (rule backed_mono [OF bA])
    have "4 div 4 \<le> (n + k + 3) div 4" by (rule div_le_mono) (use that in simp)
    then show "4 \<le> 4 * ((n + k + 3) div 4)" by simp
  qed
  obtain hi :: u32 where hi: "drop (4 - k) (be_bytes 4 hi) = bytes_at m A k"
    "Helper_StoreString M EA n r m =
       (let (rest, m) = StoreString_words M (k * 8) (push_bit 32 (ucast hi)) A (n + k) r m
        in case rest of
             None \<Rightarrow> m
           | Some (current_value, current_address, n, r) \<Rightarrow>
               StoreString_tail M k current_value current_address n r m)"
    by (rule StoreString_start [OF A_def k_def d b0, where n = n and r = r])
  let ?S = "bytes_at m A k @ regs (snd m) r q"
  let ?m = "put A (take (4 * q) ?S) m"
  obtain hi' where w: "StoreString_words M (k * 8) (push_bit 32 (ucast hi)) A (n + k) r m =
        (Some (push_bit 32 (ucast hi'), A + word_of_nat (4 * q), t, r + word_of_nat q), ?m)"
      "drop (4 - k) (be_bytes 4 (hi' :: u32)) = drop (4 * q) ?S"
    using StoreString_words_put [OF bq d k4 t4, of hi r] hi(1) nk by metis
  have EA: "A + word_of_nat k = EA" unfolding A_def k_def by (rule word_split_4)
  show ?thesis
  proof (cases "t = 0")
    case True
    have "4 * q = k + n" using nk True by simp
    moreover have "take (k + n) ?S = bytes_at m A k @ string_bytes (snd m) r n"
      using take_regs [of n q "snd m" r] nk True by simp
    ultimately have "take (4 * q) ?S = bytes_at m A k @ string_bytes (snd m) r n" by metis
    moreover have "Helper_StoreString M EA n r m = ?m"
      using True by (simp add: hi(2) w(1) StoreString_tail_def)
    ultimately show ?thesis
      using put_around [of m A k "string_bytes (snd m) r n" 0] bq nk True q64 EA
      by (simp add: bytes_at_def add.commute)
  next
    case False
    let ?a = "A + word_of_nat (4 * q)" and ?X = "be_bytes 4 (gpr (snd m) (r + word_of_nat q))"
    let ?j = "4 - t"
    let ?O = "bytes_at m (A + word_of_nat (k + n)) ?j"
    note b4 = bt [OF False]
    have len: "length (take (4 * q) ?S) = 4 * q" by simp
    have same: "bytes_at ?m ?a 4 = bytes_at m ?a 4"
    proof -
      have "length W = 4 * q \<Longrightarrow> bytes_at (put A W m) ?a 4 = bytes_at m ?a 4" for W
        using bytes_at_put_after [of m A W 4] b4 q64 by simp
      then show ?thesis using len by blast
    qed
    have O: "drop t (bytes_at m ?a 4) = ?O"
    proof -
      have "k + n = 4 * q + t" using nk by simp
      then have "A + word_of_nat (k + n) = ?a + word_of_nat t" by (simp only: of_nat_add add.assoc)
      moreover have "drop t (bytes_at m ?a (t + ?j)) = bytes_at m (?a + word_of_nat t) ?j"
        by (simp add: bytes_at_split)
      moreover have "t + ?j = 4" using t4 by simp
      ultimately show ?thesis by metis
    qed
    have bm: "backed (loc ?m) ?a 4" using b4 backed_split [of "loc m" A "4 * q" 4] by simp
    have dm: "\<not> DSI ?m" using d by (simp add: DSI_def)
    note tail = StoreString_tail_put [OF k4 t4 False bm dm, of hi' "r + word_of_nat q"]
    have "Helper_StoreString M EA n r m = put ?a (take t (drop (4 * q) ?S @ ?X) @ ?O) ?m"
      unfolding hi(2) w(1) Let_def prod.case option.case tail same O w(2) snd_put by (rule refl)
    also have "\<dots> = put A (take (4 * q) ?S @ take t (drop (4 * q) ?S @ ?X) @ ?O) m"
    proof -
      have "length W = 4 * q \<Longrightarrow> put ?a cs (put A W m) = put A (W @ cs) m" for W cs
        using put_put [of A W cs m] by simp
      then show ?thesis using len by blast
    qed
    also have "take (4 * q) ?S @ take t (drop (4 * q) ?S @ ?X) @ ?O =
        bytes_at m A k @ string_bytes (snd m) r n @ ?O"
    proof -
      have "drop (4 * q) ?S @ ?X = drop (4 * q) (?S @ ?X)" and "take (4 * q) ?S = take (4 * q) (?S @ ?X)"
        by simp_all
      then have "take (4 * q) ?S @ take t (drop (4 * q) ?S @ ?X) = take (4 * q + t) (?S @ ?X)"
        by (simp only: take_add)
      also have "\<dots> = bytes_at m A k @ take n (regs (snd m) r (Suc q))"
        unfolding regs_snoc nk [symmetric] by simp
      also have "take n (regs (snd m) r (Suc q)) = string_bytes (snd m) r n"
        using nk t4 by (intro take_regs) simp
      finally show ?thesis by simp
    qed
    also have "put A (bytes_at m A k @ string_bytes (snd m) r n @ ?O) m = put EA (string_bytes (snd m) r n) m"
    proof (rule put_around [of m A k "string_bytes (snd m) r n" ?j, unfolded length_string_bytes EA])
      have e: "k + n + ?j = 4 * q + 4" using nk t4 by simp
      show "backed (loc m) A (k + n + ?j)" unfolding e by (rule b4)
      show "k + n + ?j \<le> 4096" unfolding e using q64 by simp
    qed
    finally show ?thesis .
  qed
qed

end

end
