(* ===== verification/Memory_RAM.thy ===== *)
theory Memory_RAM
  imports Memory_Board String_Store
begin

text \<open>
  Main memory as the instructions see it. When neither the data cache nor a watchpoint is in the
  way and every byte of an access lies in main memory, behind a block translation or none, the
  memory management unit reads and writes exactly the bytes behind the addresses, most
  significant first, whether or not the access crosses a page and wherever the pages lie. That
  is the contract of \<^verbatim>\<open>LoadStore_Memory\<close>, whose lemmas hold of the unit.
\<close>

section \<open>Byte order\<close>

lemma bswapped_rev:
  assumes "length bs \<in> {1, 2, 4, 8}"
  shows "bswapped bs = of_bytes (rev bs)"
proof -
  consider "length bs = 1" | "length bs = 2" | "length bs = 4" | "length bs = 8" using assms by auto
  then show ?thesis
  proof cases
    case 1
    then show ?thesis by (cases bs) (auto simp: bswapped_def bswap_def)
  next
    case 2
    then show ?thesis
      by (simp add: bswapped_def bswap_def ucast_of_bytes swap_of_bytes)
  next
    case 3
    then show ?thesis
      by (simp add: bswapped_def bswap_def ucast_of_bytes swap_of_bytes)
  next
    case 4
    then show ?thesis by (simp add: bswapped_def bswap_def swap_of_bytes)
  qed
qed

lemma swapped_bytes_be:
  assumes "n \<le> 4"
  shows "swapped_bytes data n = be_bytes n data"
proof -
  have "rev (bytes_of (word_rotr (8 * n) data)) = rev (take n (bytes_of data)) @ rev (drop n (bytes_of data))"
    using assms by (simp add: bytes_of_rotr take_rotate)
  then have "swapped_bytes data n = take n (rev (take n (bytes_of data)) @ rev (drop n (bytes_of data)))"
    by (simp only: swapped_bytes_def swap32_rev mult.commute)
  then show ?thesis using assms by (simp add: be_bytes_def)
qed

lemma copy_to_scatter:
  "copy_to l bs r = scatter (map (\<lambda>i. l + word_of_nat i) [0..<length bs]) bs r"
proof (induction bs arbitrary: l r)
  case (Cons b bs)
  have "map (\<lambda>i. l + word_of_nat i) [0..<Suc (length bs)] =
      l # map (\<lambda>i. l + 1 + word_of_nat i) [0..<length bs]"
    unfolding upt_conv_Cons [OF zero_less_Suc] map_Suc_upt [symmetric] by (simp add: add.assoc)
  then show ?case by (simp only: copy_to.simps Cons.IH length_Cons scatter.simps)
qed simp

section \<open>Addresses inside a page\<close>

definition page_offset :: "u32 \<Rightarrow> nat" where
  "page_offset a = unat a mod 4096"

lemma take_bit_12_unat: "unat (take_bit 12 (a :: u32)) = page_offset a"
  unfolding page_offset_def unsigned_take_bit_eq by (simp add: take_bit_eq_mod)

lemma word_12_eqI:
  assumes "drop_bit 12 x = drop_bit 12 (y :: u32)" "take_bit 12 x = take_bit 12 y"
  shows "x = y"
  using assms by (metis bits_ident)

lemma unat_add_offset:
  assumes "page_offset a + i < 4096"
  shows "unat (a + word_of_nat i) = unat a + i"
proof -
  have "unat a + i < 2 ^ 32"
  proof -
    have "unat a < 2 ^ 32" using unat_less [of a] by simp
    then have "unat a div 4096 < 2 ^ 20" by (simp add: div_less_iff_less_mult)
    then have "4096 * (unat a div 4096) + 4096 \<le> 2 ^ 32" by simp
    moreover have "unat a = 4096 * (unat a div 4096) + page_offset a" by (simp add: page_offset_def)
    ultimately show ?thesis using assms by linarith
  qed
  then show ?thesis using assms by (simp add: unat_word_ariths unsigned_of_nat take_bit_eq_mod)
qed

lemma drop_12_unat: "unat (drop_bit 12 (a :: u32)) = unat a div 4096"
  by (subst unat_drop_bit_eq) (simp add: drop_bit_eq_div)

lemma div_mod_same:
  fixes x :: nat
  assumes "x mod 4096 + i < 4096"
  shows "(x + i) div 4096 = x div 4096" "(x + i) mod 4096 = x mod 4096 + i"
proof -
  have g: "r < 4096 \<Longrightarrow> (r + 4096 * q) div 4096 = q" "r < 4096 \<Longrightarrow> (r + 4096 * q) mod 4096 = r" for r q :: nat
    by simp_all
  have e: "x + i = (x mod 4096 + i) + 4096 * (x div 4096)" by simp
  show "(x + i) div 4096 = x div 4096" by (subst e) (rule g(1) [OF assms])
  show "(x + i) mod 4096 = x mod 4096 + i" by (subst e) (rule g(2) [OF assms])
qed

lemma same_page:
  assumes "page_offset a + i < 4096"
  shows "drop_bit 12 (a + word_of_nat i) = drop_bit 12 a" "page_offset (a + word_of_nat i) = page_offset a + i"
  using div_mod_same [of "unat a" i] assms unat_add_offset [OF assms]
  by (simp_all only: word_unat_eq_iff drop_12_unat page_offset_def)

lemma same_page_bit:
  assumes "page_offset a + i < 4096" "12 \<le> n"
  shows "bit (a + word_of_nat i) n = bit a n"
proof -
  have "bit (drop_bit 12 (a + word_of_nat i)) (n - 12) = bit (drop_bit 12 a) (n - 12)"
    by (simp only: same_page(1) [OF assms(1)])
  with assms(2) show ?thesis by (simp add: bit_drop_bit_eq)
qed

lemma and_HW_PAGE: "a AND NOT HW_PAGE_MASK = push_bit 12 (drop_bit 12 a)"
proof -
  have m: "HW_PAGE_MASK = mask 12" by (simp add: HW_PAGE_MASK_def mask_eq_exp_minus_1)
  show ?thesis unfolding m by (rule bit_word_eqI) (auto simp: bit_simps)
qed

lemma push_drop_12: "push_bit 12 (drop_bit 12 x) = push_bit 12 (drop_bit 12 y) \<longleftrightarrow>
    drop_bit 12 x = drop_bit 12 (y :: u32)"
proof -
  have "drop_bit 12 (push_bit 12 (drop_bit 12 z)) = drop_bit 12 z" for z :: u32
    by (rule bit_word_eqI) (auto simp: bit_simps dest: bit_imp_le_length)
  then show ?thesis by metis
qed

lemma crosses_page_iff:
  assumes "1 \<le> n" "n \<le> 4096"
  shows "crosses_page a n \<longleftrightarrow> 4096 < page_offset a + n"
proof -
  obtain k where n: "n = Suc k" using assms(1) by (cases n) auto
  let ?x = "a + word_of_nat k"
  have "a + word_of_nat n - 1 = ?x" by (simp add: n)
  then have c: "crosses_page a n \<longleftrightarrow> drop_bit 12 ?x \<noteq> drop_bit 12 a"
    unfolding crosses_page_def and_HW_PAGE push_drop_12 by (metis (no_types))
  show ?thesis
  proof (cases "page_offset a + k < 4096")
    case True
    then show ?thesis using n c same_page(1) [OF True] by auto
  next
    case False
    have "drop_bit 12 ?x \<noteq> drop_bit 12 a"
    proof
      assume "drop_bit 12 ?x = drop_bit 12 a"
      then have d: "unat ?x div 4096 = unat a div 4096" by (metis drop_12_unat)
      have x: "unat ?x = (unat a + k) mod 2 ^ 32"
        using assms n by (simp add: unat_word_ariths unsigned_of_nat take_bit_nat_eq_self)
      have a: "unat a < 2 ^ 32" using unat_less [of a] by simp
      have ma: "unat a = 4096 * (unat a div 4096) + page_offset a" by (simp add: page_offset_def)
      show False
      proof (cases "unat a + k < 2 ^ 32")
        case True
        then have "unat ?x = unat a + k" using x by simp
        moreover have "unat ?x < 4096 * (unat ?x div 4096) + 4096" by simp
        ultimately have "4096 * (unat a div 4096) + page_offset a + k < 4096 * (unat a div 4096) + 4096"
          using d ma by linarith
        then show False using False by simp
      next
        case wrap: False
        then have "unat ?x = unat a + k - 2 ^ 32"
          using x a assms n by (simp add: mod_if)
        then have "unat ?x < 4096" using a assms n by linarith
        then have "unat a div 4096 = 0" using d by simp
        then have "unat a < 4096" by (simp add: div_eq_0_iff)
        then show False using wrap assms n by simp
      qed
    qed
    then show ?thesis using False c n by auto
  qed
qed

section \<open>Plain data addresses\<close>

text \<open>
  The physical address behind a data address that is translated by a cached block or not at all,
  and the offset in main memory behind it when no data cache, watchpoint or device is involved.
\<close>

definition bat_plain :: "u32 \<Rightarrow> bool" where
  "bat_plain t \<longleftrightarrow> t AND BAT_MAPPED_BIT \<noteq> 0 \<and> t AND BAT_WI_BIT = 0 \<and> t AND 0x1FFF8 = 0"

definition data_address :: "'d sys \<Rightarrow> u32 \<Rightarrow> u32 option" where
  "data_address m a =
     (if MSR_DR (msr (snd m)) = 0 then Some a
      else (let t = m_dbat_table (fst m) (ucast (drop_bit BAT_INDEX_SHIFT a))
            in if bat_plain t then Some ((t AND BAT_RESULT_MASK) OR (a AND (BAT_PAGE_SIZE - 1)))
               else None))"

definition ram_loc :: "'d platform \<Rightarrow> 'd sys \<Rightarrow> u32 \<Rightarrow> u32 option" where
  "ram_loc P m a =
     (if m_enable_dcache (snd m) \<or> HasMemChecks P \<or> GetRamMask P AND 0xFFF \<noteq> 0xFFF then None
      else case data_address m a of
             None \<Rightarrow> None
           | Some p \<Rightarrow> if p AND 0xF8000000 = 0 then Some (p AND GetRamMask P) else None)"

lemma low_ones: "C AND 0xFFF = (0xFFF :: u32) \<Longrightarrow> n < 12 \<Longrightarrow> bit C n"
proof -
  assume c: "C AND 0xFFF = (0xFFF :: u32)" and n: "n < 12"
  have m: "(0xFFF :: u32) = mask 12" by (simp add: mask_eq_exp_minus_1)
  have "bit (C AND mask 12) n = bit (mask 12 :: u32) n" using c unfolding m by simp
  then show "bit C n" using n by (simp add: bit_and_iff bit_mask_iff)
qed

lemma page_offset_add: "page_offset (x + z) = (page_offset x + page_offset z) mod 4096"
proof -
  have "(n mod 4294967296) mod 4096 = n mod (4096 :: nat)" for n by (rule mod_mod_cancel) simp
  then show ?thesis by (simp add: page_offset_def unat_word_ariths mod_add_eq)
qed

lemma take_12_iff: "take_bit 12 x = take_bit 12 (y :: u32) \<longleftrightarrow> page_offset x = page_offset y"
  by (simp only: word_unat_eq_iff take_bit_12_unat)

lemma take_12_cong:
  "take_bit 12 x = take_bit 12 (y :: u32) \<Longrightarrow> take_bit 12 (x + z) = take_bit 12 (y + z)"
  by (simp add: take_12_iff page_offset_add)

lemma page_offset_cong: "take_bit 12 x = take_bit 12 y \<Longrightarrow> page_offset x = page_offset y"
  by (simp only: take_12_iff)

lemma same_page_mask:
  assumes o: "page_offset p + i < 4096" and C: "\<And>n. n < 12 \<Longrightarrow> \<not> bit C n"
  shows "(p + word_of_nat i) AND C = p AND C"
proof (rule bit_word_eqI)
  fix n show "bit ((p + word_of_nat i) AND C) n = bit (p AND C) n"
    using C [of n] same_page_bit [OF o, of n] by (cases "n < 12") (auto simp: bit_and_iff)
qed

lemma same_page_low_mask:
  assumes o: "page_offset p + i < 4096" and C: "C AND 0xFFF = 0xFFF"
  shows "(p + word_of_nat i) AND C = (p AND C) + word_of_nat i" "page_offset (p AND C) = page_offset p"
proof -
  have t: "take_bit 12 (x AND C) = take_bit 12 x" for x
    using low_ones [OF C] by (intro bit_word_eqI) (auto simp: bit_simps)
  show off: "page_offset (p AND C) = page_offset p" by (rule page_offset_cong [OF t])
  show "(p + word_of_nat i) AND C = (p AND C) + word_of_nat i"
  proof (rule word_12_eqI)
    have "drop_bit 12 ((p AND C) + word_of_nat i) = drop_bit 12 (p AND C)"
      using o off by (intro same_page) simp
    also have "\<dots> = drop_bit 12 ((p + word_of_nat i) AND C)"
      by (simp only: drop_bit_and same_page(1) [OF o])
    finally show "drop_bit 12 ((p + word_of_nat i) AND C) = drop_bit 12 ((p AND C) + word_of_nat i)" ..
    show "take_bit 12 ((p + word_of_nat i) AND C) = take_bit 12 ((p AND C) + word_of_nat i)"
      unfolding t by (rule take_12_cong [OF t [symmetric]])
  qed
qed

lemma data_address_step:
  assumes o: "page_offset a + i < 4096" and p: "data_address m a = Some p"
  shows "data_address m (a + word_of_nat i) = Some (p + word_of_nat i)" "page_offset p = page_offset a"
proof -
  let ?b = "a + word_of_nat i"
  have "data_address m ?b = Some (p + word_of_nat i) \<and> page_offset p = page_offset a"
  proof (cases "MSR_DR (msr (snd m)) = 0")
    case True
    then show ?thesis using p by (simp add: data_address_def)
  next
    case False
    let ?t = "m_dbat_table (fst m) (ucast (drop_bit 17 a))" and ?M = "mask 17 :: u32"
    have M: "BAT_PAGE_SIZE - 1 = ?M" by (simp add: BAT_PAGE_SIZE_def BAT_INDEX_SHIFT_def mask_eq_exp_minus_1)
    have ix: "drop_bit 17 ?b = drop_bit 17 a"
    proof -
      have "drop_bit 5 (drop_bit 12 ?b) = drop_bit 5 (drop_bit 12 a)" by (simp only: same_page(1) [OF o])
      then show ?thesis by simp
    qed
    have t: "bat_plain ?t" and pv: "p = (?t AND BAT_RESULT_MASK) OR (a AND ?M)"
      using p False by (auto simp: data_address_def Let_def BAT_INDEX_SHIFT_def M split: if_splits)
    have R: "\<not> bit (?t AND BAT_RESULT_MASK) n" if "n < 17" for n
    proof -
      have "(?t AND BAT_RESULT_MASK) AND ?M = ?t AND 0x1FFF8"
        by (simp add: BAT_RESULT_MASK_def mask_eq_exp_minus_1 and.assoc)
      then have "(?t AND BAT_RESULT_MASK) AND ?M = 0" using t by (simp add: bat_plain_def)
      then have "\<not> bit ((?t AND BAT_RESULT_MASK) AND ?M) n" by simp
      then show ?thesis using that by (simp only: bit_and_iff bit_mask_iff) auto
    qed
    have low: "take_bit 12 ((?t AND BAT_RESULT_MASK) OR (x AND ?M)) = take_bit 12 x" for x
    proof (rule bit_word_eqI)
      fix n show "bit (take_bit 12 ((?t AND BAT_RESULT_MASK) OR (x AND ?M))) n = bit (take_bit 12 x) n"
        using R [of n] by (auto simp: bit_take_bit_iff bit_or_iff bit_and_iff bit_mask_iff)
    qed
    have off: "page_offset p = page_offset a" unfolding pv by (rule page_offset_cong [OF low])
    have "(?t AND BAT_RESULT_MASK) OR (?b AND ?M) = p + word_of_nat i"
    proof (rule word_12_eqI)
      have "drop_bit 12 (p + word_of_nat i) = drop_bit 12 p" using o off by (intro same_page) simp
      also have "\<dots> = drop_bit 12 ((?t AND BAT_RESULT_MASK) OR (?b AND ?M))"
        unfolding pv by (simp only: drop_bit_or drop_bit_and same_page(1) [OF o])
      finally show "drop_bit 12 ((?t AND BAT_RESULT_MASK) OR (?b AND ?M)) = drop_bit 12 (p + word_of_nat i)" ..
      show "take_bit 12 ((?t AND BAT_RESULT_MASK) OR (?b AND ?M)) = take_bit 12 (p + word_of_nat i)"
        unfolding low unfolding pv by (rule take_12_cong [OF low [symmetric]])
    qed
    then show ?thesis using False t off ix by (simp add: data_address_def Let_def BAT_INDEX_SHIFT_def M)
  qed
  then show "data_address m ?b = Some (p + word_of_nat i)" "page_offset p = page_offset a" by auto
qed

lemma ram_loc_step:
  assumes o: "page_offset a + i < 4096" and l: "ram_loc P m a = Some l"
  shows "ram_loc P m (a + word_of_nat i) = Some (l + word_of_nat i)" "page_offset l = page_offset a"
proof -
  obtain p where c: "\<not> m_enable_dcache (snd m)" "\<not> HasMemChecks P" "GetRamMask P AND 0xFFF = 0xFFF"
      and p: "data_address m a = Some p" "p AND 0xF8000000 = 0" "l = p AND GetRamMask P"
    using l by (auto simp: ram_loc_def split: if_splits option.splits)
  note q = data_address_step [OF o p(1)]
  have o': "page_offset p + i < 4096" using o q(2) by simp
  have "(0xF8000000 :: u32) = push_bit 27 31" by simp
  then have "\<not> bit (0xF8000000 :: u32) n" if "n < 12" for n
    using that by (simp only: bit_push_bit_iff) simp
  then have "(p + word_of_nat i) AND 0xF8000000 = 0"
    using same_page_mask [OF o', of "0xF8000000"] p(2) by metis
  then show "ram_loc P m (a + word_of_nat i) = Some (l + word_of_nat i)" "page_offset l = page_offset a"
    using c q p same_page_low_mask [OF o' c(3)] by (simp_all add: ram_loc_def)
qed

lemma data_access:
  assumes p: "data_address m a = Some p"
  shows "page_read P Read n a m = physical_read P Read False n p m"
    "page_write P Write d n a m = physical_write P Write False d n p m"
  using p
  by (auto simp: data_address_def page_read_def page_write_def TranslateAddress_def TranslateBatAddress_def
      IsOpcodeFlag_def Let_def bat_plain_def Success_def split: if_splits)

lemma RAM_address:
  assumes "p AND 0xF8000000 = (0 :: u32)"
  shows "p AND 0xF8000000 \<noteq> 0x08000000" "drop_bit 28 p \<noteq> 0xE" "p AND 0xFFFFF000 \<noteq> 0x0C008000"
proof -
  have b: "\<not> bit p n" if "n \<in> {27, 28, 29, 30, 31}" for n
  proof -
    have "\<not> bit (p AND 0xF8000000) n" using assms by simp
    moreover have "(0xF8000000 :: u32) = push_bit 27 31" by simp
    then have "bit (0xF8000000 :: u32) n" using that by (simp only: bit_push_bit_iff) auto
    ultimately show ?thesis by (simp only: bit_and_iff) simp
  qed
  show "p AND 0xF8000000 \<noteq> 0x08000000" using assms by simp
  show "drop_bit 28 p \<noteq> 0xE"
  proof
    assume "drop_bit 28 p = 0xE"
    then have "bit (drop_bit 28 p) 1" by simp
    then show False using b [of 29] by (simp add: bit_drop_bit_eq)
  qed
  show "p AND 0xFFFFF000 \<noteq> 0x0C008000"
  proof
    assume e: "p AND 0xFFFFF000 = 0x0C008000"
    have "(0x0C008000 :: u32) = push_bit 15 0x1801" by simp
    then have "bit (0x0C008000 :: u32) 27" by (simp only: bit_push_bit_iff) simp
    then have "bit (p AND 0xFFFFF000) 27" using e by simp
    then show False using b [of 27] by (simp only: bit_and_iff) simp
  qed
qed

lemma ram_access:
  assumes l: "ram_loc P m a = Some l"
  shows "page_read P Read n a m = (bswapped (copy_from (RAM (fst m)) l n), m)"
    "page_write P Write d n a m = on_memory (RAM_update (copy_to l (swapped_bytes d n))) m"
proof -
  obtain p where c: "\<not> m_enable_dcache (snd m)" and p: "data_address m a = Some p"
      "p AND 0xF8000000 = 0" "l = p AND GetRamMask P"
    using l by (auto simp: ram_loc_def split: if_splits option.splits)
  note q = RAM_address [OF p(2)]
  show "page_read P Read n a m = (bswapped (copy_from (RAM (fst m)) l n), m)"
    using c p q by (simp add: data_access(1) [OF p(1)] physical_read_def read_cached_def)
  show "page_write P Write d n a m = on_memory (RAM_update (copy_to l (swapped_bytes d n))) m"
    using c p q by (simp add: data_access(2) [OF p(1)] physical_write_def write_device_def write_backing_def
        write_cached_def GATHER_PIPE_PHYSICAL_ADDRESS_def)
qed

section \<open>Main memory\<close>

lemma of_bytes_snoc: "of_bytes (rev (bs @ [b])) = (ucast b OR push_bit 8 (of_bytes (rev bs)))"
  by simp

lemma read_bytes_cells:
  assumes "\<And>i. i < n \<Longrightarrow> rd (a + word_of_nat i) m = (ucast (c i :: u8), m)"
  shows "read_bytes rd n a (of_bytes (rev bs)) m = (of_bytes (rev (bs @ map c [0..<n])), m)"
  using assms
proof (induction n arbitrary: a bs c)
  case (Suc n)
  have "rd (a + 1 + word_of_nat i) m = (ucast (c (Suc i)), m)" if "i < n" for i
    using Suc.prems [of "Suc i"] that by (simp add: add.assoc)
  note ih = Suc.IH [where bs = "bs @ [c 0]" and c = "\<lambda>i. c (Suc i)", OF this]
  have "map c [0..<Suc n] = c 0 # map (\<lambda>i. c (Suc i)) [0..<n]"
    unfolding upt_conv_Cons [OF zero_less_Suc] map_Suc_upt [symmetric] by simp
  then show ?case using ih Suc.prems [of 0] by (simp add: or.commute)
qed simp

lemma place_in_page:
  assumes "ram_loc P m a = Some l" "page_offset a + n \<le> 4096"
  shows "place (ram_loc P m) a n = map (\<lambda>i. l + word_of_nat i) [0..<n]"
  using ram_loc_step(1) [OF _ assms(1)] assms(2) by (intro nth_equalityI) (simp_all add: nth_place)

lemma read_RAM:
  assumes b: "backed (ram_loc P m) a n" and n: "n \<in> {1, 2, 4, 8}"
  shows "mmu_Read P n a m = (of_bytes (rev (map (RAM (fst m)) (place (ram_loc P m) a n))), m)"
proof -
  have "0 < n" using n by auto
  then obtain l where l: "ram_loc P m a = Some l" using b by (fastforce simp: backed_def)
  then have nc: "\<not> HasMemChecks P" by (auto simp: ram_loc_def split: if_splits)
  have "ReadFromHardware P Read n a m = (of_bytes (rev (map (RAM (fst m)) (place (ram_loc P m) a n))), m)"
  proof (cases "page_offset a + n \<le> 4096")
    case True
    have "copy_from (RAM (fst m)) l n = map (RAM (fst m)) (place (ram_loc P m) a n)"
      by (simp add: place_in_page [OF l True] copy_from_def)
    moreover have "bswapped (copy_from (RAM (fst m)) l n) = of_bytes (rev (copy_from (RAM (fst m)) l n))"
      using n by (intro bswapped_rev) (auto simp: copy_from_def)
    moreover have "\<not> crosses_page a n" using True n by (subst crosses_page_iff) auto
    ultimately show ?thesis by (simp add: ReadFromHardware_def split_read_def ram_access(1) [OF l])
  next
    case False
    have c: "crosses_page a n" using False n by (subst crosses_page_iff) auto
    let ?c = "\<lambda>i. RAM (fst m) (the (ram_loc P m (a + word_of_nat i)))"
    have "page_read P Read 1 (a + word_of_nat i) m = (ucast (?c i), m)" if i: "i < n" for i
    proof -
      obtain k where k: "ram_loc P m (a + word_of_nat i) = Some k" using b i by (auto simp: backed_def)
      show ?thesis unfolding ram_access(1) [OF k]
        by (simp add: bswapped_rev copy_from_def k)
    qed
    from read_bytes_cells [where bs = "[]" and c = ?c and rd = "page_read P Read 1" and a = a, OF this]
    have "read_bytes (page_read P Read 1) n a 0 m = (of_bytes (rev (map ?c [0..<n])), m)" by simp
    then show ?thesis using c by (simp add: ReadFromHardware_def split_read_def place_def comp_def)
  qed
  then show ?thesis using nc by (simp add: mmu_Read_def Memcheck_def)
qed


lemma ram_loc_update [simp]: "ram_loc P (on_memory (RAM_update f) m) = ram_loc P m"
  by (rule ext) (simp add: ram_loc_def data_address_def on_memory_def)

lemma page_write_RAM:
  assumes b: "backed (ram_loc P m) a n" and n: "n \<le> 4" and o: "page_offset a + n \<le> 4096"
  shows "page_write P Write d n a m =
    on_memory (RAM_update (scatter (place (ram_loc P m) a n) (be_bytes n d))) m \<or> n = 0"
proof (cases "n = 0")
  case False
  then obtain l where l: "ram_loc P m a = Some l" using b by (fastforce simp: backed_def)
  have "copy_to l (be_bytes n d) = scatter (place (ram_loc P m) a n) (be_bytes n d)"
    using n by (intro ext) (simp add: copy_to_scatter place_in_page [OF l o])
  then show ?thesis using n by (simp add: ram_access(2) [OF l] swapped_bytes_be)
qed simp

lemma next_page:
  assumes "crosses_page a n" "1 \<le> n" "n \<le> 4"
  defines "k \<equiv> 4096 - page_offset a"
  shows "(a + word_of_nat n - 1) AND NOT HW_PAGE_MASK = a + word_of_nat k" "1 \<le> k" "k < n"
    "unat (a + word_of_nat k - a) = k" "page_offset (a + word_of_nat k) = 0"
proof -
  have po: "page_offset a < 4096" by (simp add: page_offset_def)
  show k: "1 \<le> k" "k < n" using assms(1-3) po crosses_page_iff [OF assms(2)] by (simp_all add: k_def)
  let ?b = "a + word_of_nat k"
  show "unat (?b - a) = k" using k assms(3) by (simp add: unsigned_of_nat take_bit_nat_eq_self)
  have "page_offset (word_of_nat k) = k"
    using k assms(3) by (simp add: page_offset_def unsigned_of_nat take_bit_nat_eq_self)
  then show z: "page_offset ?b = 0" using po by (simp add: page_offset_add k_def)
  have "a + word_of_nat n - 1 = ?b + word_of_nat (n - 1 - k)"
    using k by (simp add: of_nat_diff)
  also have "drop_bit 12 \<dots> = drop_bit 12 ?b"
    using z assms(3) by (intro same_page(1)) simp
  finally have d: "drop_bit 12 (a + word_of_nat n - 1) = drop_bit 12 ?b" .
  show "(a + word_of_nat n - 1) AND NOT HW_PAGE_MASK = ?b"
  proof (rule word_12_eqI)
    show "drop_bit 12 ((a + word_of_nat n - 1) AND NOT HW_PAGE_MASK) = drop_bit 12 ?b"
      unfolding and_HW_PAGE d by (rule bit_word_eqI) (auto simp: bit_simps dest: bit_imp_le_length)
    have "take_bit 12 ?b = take_bit 12 0" unfolding take_12_iff using z by (simp add: page_offset_def)
    then show "take_bit 12 ((a + word_of_nat n - 1) AND NOT HW_PAGE_MASK) = take_bit 12 ?b"
      unfolding and_HW_PAGE by (simp add: take_bit_push_bit)
  qed
qed

lemma WriteToHardware_RAM:
  assumes b: "backed (ram_loc P m) a n" and n: "n \<in> {1, 2, 4}"
  shows "WriteToHardware P Write d n a m =
    on_memory (RAM_update (scatter (place (ram_loc P m) a n) (be_bytes n d))) m"
proof (cases "crosses_page a n")
  case False
  have "page_offset a + n \<le> 4096" using False n by (subst (asm) crosses_page_iff) auto
  then show ?thesis using page_write_RAM [OF b, of d] n False
    by (auto simp: WriteToHardware_def split_write_def)
next
  case True
  define k where "k = 4096 - page_offset a"
  define j where "j = n - k"
  have n': "1 \<le> n" "n \<le> 4" using n by auto
  note np = next_page [OF True n', folded k_def]
  have nk: "n = k + j" "0 < j" "j \<le> 4" and kk: "k \<le> 4" "0 < k" using np n' by (simp_all add: j_def)
  have nj: "n - k = j" by (simp add: j_def)
  have b1: "backed (ram_loc P m) a k" and b2: "backed (ram_loc P m) (a + word_of_nat k) j"
    using b backed_split [of "ram_loc P m" a k j] nk(1) by auto
  let ?l1 = "place (ram_loc P m) a k" and ?l2 = "place (ram_loc P m) (a + word_of_nat k) j"
  let ?d = "word_rotr (j * 8) d"
  let ?m1 = "on_memory (RAM_update (scatter ?l1 (be_bytes k ?d))) m"
  have w1: "page_write P Write ?d k a m = ?m1"
    using page_write_RAM [OF b1 kk(1), of ?d] kk(2) by (simp add: k_def)
  have w2: "page_write P Write d j (a + word_of_nat k) ?m1 =
      on_memory (RAM_update (scatter ?l2 (be_bytes j d))) ?m1"
    using page_write_RAM [of P ?m1 "a + word_of_nat k" j d] b2 nk np(5) by simp
  have "be_bytes n d = be_bytes k ?d @ be_bytes j d"
    using be_bytes_split [of k j d] nk(1) n' by simp
  moreover have "place (ram_loc P m) a n = ?l1 @ ?l2" by (simp only: nk(1) place_split)
  moreover have "length ?l1 = length (be_bytes k ?d)" using kk by simp
  ultimately have sc: "scatter (place (ram_loc P m) a n) (be_bytes n d) r =
      scatter ?l2 (be_bytes j d) (scatter ?l1 (be_bytes k ?d) r)" for r
    by (simp only: scatter_append)
  show ?thesis
    unfolding WriteToHardware_def split_write_def Let_def np(1) np(4) nj w1 w2 if_P [OF True]
    by (simp add: on_memory_def sc comp_def)
qed

lemma write_RAM:
  assumes b: "backed (ram_loc P m) a n" and n: "n \<in> {1, 2, 4}"
  shows "mmu_Write P n d a m = on_memory (RAM_update (scatter (place (ram_loc P m) a n) (be_bytes n d))) m"
proof -
  have "0 < n" using n by auto
  then obtain l where "ram_loc P m a = Some l" using b by (fastforce simp: backed_def)
  then have nc: "\<not> HasMemChecks P" by (auto simp: ram_loc_def split: if_splits)
  then show ?thesis by (simp add: mmu_Write_def Memcheck_def WriteToHardware_RAM [OF b n])
qed

lemma write_RAM_8:
  assumes b: "backed (ram_loc P m) a 8"
  shows "mmu_Write_u64 P d a m = on_memory (RAM_update (scatter (place (ram_loc P m) a 8) (be_bytes 8 d))) m"
proof -
  obtain l where "ram_loc P m a = Some l" using b by (fastforce simp: backed_def)
  then have nc: "\<not> HasMemChecks P" by (auto simp: ram_loc_def split: if_splits)
  have b': "backed (ram_loc P m) a 4" "backed (ram_loc P m) (a + 4) 4"
    using b backed_split [of "ram_loc P m" a 4 4] by simp_all
  have "place (ram_loc P m) a 8 = place (ram_loc P m) a 4 @ place (ram_loc P m) (a + 4) 4"
    using place_split [of "ram_loc P m" a 4 4] by simp
  then have sc: "scatter (place (ram_loc P m) a 8) (be_bytes 8 d) r =
     scatter (place (ram_loc P m) (a + 4) 4) (be_bytes 4 (ucast d :: u32))
       (scatter (place (ram_loc P m) a 4) (be_bytes 4 (ucast (drop_bit 32 d) :: u32)) r)" for r
    by (simp add: scatter_append flip: be_bytes_u64)
  show ?thesis
    using nc b' by (simp add: mmu_Write_u64_def Memcheck_def Let_def WriteToHardware_RAM)
      (simp add: on_memory_def sc comp_def)
qed


section \<open>The unit keeps the contract\<close>

lemma ram_loc_offset: "ram_loc P m a = Some l \<Longrightarrow> page_offset l = page_offset a"
  using ram_loc_step(2) [where i = 0 and a = a] by (simp add: page_offset_def)

lemma ram_loc_cpu:
  assumes "msr s' = msr s" "m_enable_dcache s' = m_enable_dcache s"
  shows "ram_loc P (d, s') = ram_loc P (d, s)"
  using assms by (intro ext) (simp add: ram_loc_def data_address_def)

interpretation ram: byte_memory "MMU P" "ram_loc P" RAM RAM_update for P
proof
  fix f g d and s s' :: PowerPCState and a l v :: u32 and m :: "'a memory \<times> PowerPCState" and x :: u64
  show "ram_loc P (RAM_update f d, s) = ram_loc P (d, s)"
    using ram_loc_update [of P f "(d, s)"] by (simp add: on_memory_def)
  show "msr s' = msr s \<Longrightarrow> m_enable_dcache s' = m_enable_dcache s \<Longrightarrow>
      ram_loc P (d, s') = ram_loc P (d, s)" by (rule ram_loc_cpu)
  show "ram_loc P m a = Some l \<Longrightarrow> unat l mod 4096 = unat a mod 4096"
    using ram_loc_offset by (simp add: page_offset_def)
  show "RAM (RAM_update f d) = f (RAM d)" by simp
  show "RAM_update f (RAM_update g d) = RAM_update (f \<circ> g) d" by (simp add: comp_def)
  show "f (RAM d) = g (RAM d) \<Longrightarrow> RAM_update f d = RAM_update g d" by (cases d) simp
  show "RAM_update id d = d" by simp
  show "backed (ram_loc P (d, s)) a 1 \<Longrightarrow> Read_U8 (MMU P) a (d, s) =
      (of_bytes (rev (map (RAM d) (place (ram_loc P (d, s)) a 1))), d, s)"
    by (simp add: MMU_def read_RAM ucast_of_bytes)
  show "backed (ram_loc P (d, s)) a 2 \<Longrightarrow> Read_U16 (MMU P) a (d, s) =
      (of_bytes (rev (map (RAM d) (place (ram_loc P (d, s)) a 2))), d, s)"
    by (simp add: MMU_def read_RAM ucast_of_bytes)
  show "backed (ram_loc P (d, s)) a 4 \<Longrightarrow> Read_U32 (MMU P) a (d, s) =
      (of_bytes (rev (map (RAM d) (place (ram_loc P (d, s)) a 4))), d, s)"
    by (simp add: MMU_def read_RAM ucast_of_bytes)
  show "backed (ram_loc P (d, s)) a 8 \<Longrightarrow> Read_U64 (MMU P) a (d, s) =
      (of_bytes (rev (map (RAM d) (place (ram_loc P (d, s)) a 8))), d, s)"
    by (simp add: MMU_def read_RAM)
  show "backed (ram_loc P (d, s)) a 1 \<Longrightarrow> Write_U8 (MMU P) v a (d, s) =
      (RAM_update (scatter (place (ram_loc P (d, s)) a 1) (be_bytes 1 v)) d, s)"
    by (simp add: MMU_def write_RAM on_memory_def)
  show "backed (ram_loc P (d, s)) a 2 \<Longrightarrow> Write_U16 (MMU P) v a (d, s) =
      (RAM_update (scatter (place (ram_loc P (d, s)) a 2) (be_bytes 2 v)) d, s)"
    by (simp add: MMU_def write_RAM on_memory_def)
  show "backed (ram_loc P (d, s)) a 4 \<Longrightarrow> Write_U32 (MMU P) v a (d, s) =
      (RAM_update (scatter (place (ram_loc P (d, s)) a 4) (be_bytes 4 v)) d, s)"
    by (simp add: MMU_def write_RAM on_memory_def)
  show "backed (ram_loc P (d, s)) a 8 \<Longrightarrow> Write_U64 (MMU P) x a (d, s) =
      (RAM_update (scatter (place (ram_loc P (d, s)) a 8) (be_bytes 8 x)) d, s)"
    by (simp add: MMU_def write_RAM_8 on_memory_def)
qed

section \<open>Main memory: the properties\<close>

lemma high_clear:
  assumes "unat a < 2 ^ 27"
  shows "a AND 0xF8000000 = (0 :: u32)"
proof -
  have "unat (drop_bit 27 a) = 0" using assms by (subst unat_drop_bit_eq) (simp add: drop_bit_eq_div)
  then have z: "drop_bit 27 a = 0" by (simp only: unat_eq_0)
  have "(0xF8000000 :: u32) = push_bit 27 31" by simp
  moreover have "a AND push_bit 27 31 = push_bit 27 (drop_bit 27 a AND 31)"
    by (rule bit_word_eqI) (simp only: bit_and_iff bit_push_bit_iff bit_drop_bit_eq comp_def, auto)
  ultimately show ?thesis by (simp only: z and.left_neutral) simp
qed

lemma board_backed:
  assumes "unat a + n \<le> 2 ^ 27"
  shows "backed (ram_loc plain_platform board) a n"
  unfolding backed_def
proof (intro allI impI)
  fix i assume i: "i < n"
  have "unat (a + word_of_nat i) < 2 ^ 27"
    using i assms by (simp add: unat_word_ariths unsigned_of_nat take_bit_nat_eq_self)
  then have "(a + word_of_nat i) AND 0xF8000000 = 0" by (rule high_clear)
  moreover have "MSR_DR (msr (snd board)) = 0" "\<not> m_enable_dcache (snd board)" by code_simp+
  ultimately show "ram_loc plain_platform board (a + word_of_nat i) \<noteq> None"
    by (simp add: ram_loc_def data_address_def)
qed

lemma board_no_DSI: "\<not> DSI board"
  by code_simp

text \<open>
  (C18) A write of one, two or four bytes to main memory, aligned or not and whether or not it
  crosses a page, is read back as the low bytes of the value, leaves the processor and every
  other byte of memory alone, and nothing but main memory changes.
\<close>

theorem RAM_write_read:
  assumes "backed (ram_loc P m) a n" "n \<in> {1, 2, 4}" "m' = mmu_Write P n v a m"
  shows "mmu_Read P n a m' = (ucast (take_bit (8 * n) v), m') \<and>
    (\<forall>l. RAM (fst m') l = RAM (fst m) l \<or> l \<in> set (place (ram_loc P m) a n)) \<and>
    m' = ((fst m)\<lparr>RAM := RAM (fst m')\<rparr>, snd m)"
proof -
  let ?ls = "place (ram_loc P m) a n" and ?bs = "be_bytes n v"
  have m': "m' = on_memory (RAM_update (scatter ?ls ?bs)) m"
    unfolding assms(3) by (rule write_RAM [OF assms(1,2)])
  have n: "n \<le> 4" "n \<le> 4096" "n \<in> {1, 2, 4, 8}" using assms(2) by auto
  have "map (scatter ?ls ?bs (RAM (fst m))) ?ls = ?bs"
    using ram.distinct_place [OF assms(1) n(2)] n(1) by (intro nth_equalityI) (simp_all add: scatter_at)
  then have "map (RAM (fst m')) ?ls = ?bs" by (simp add: m' on_memory_def)
  moreover have "ram_loc P m' = ram_loc P m" by (simp add: m')
  ultimately have "mmu_Read P n a m' = (ucast (take_bit (8 * n) v), m')"
    using read_RAM [of P m' a n] assms(1) n by (simp add: of_be_bytes)
  moreover have "\<forall>l. RAM (fst m') l = RAM (fst m) l \<or> l \<in> set ?ls"
    by (auto simp: m' on_memory_def scatter_other)
  moreover have "m' = ((fst m)\<lparr>RAM := RAM (fst m')\<rparr>, snd m)"
    by (simp add: m' on_memory_def)
  ultimately show ?thesis by blast
qed

text \<open>The four bytes lie in two pages.\<close>

lemma RAM_write_read_witness:
  "fst (mmu_Read plain_platform 4 0x1FFE (mmu_Write plain_platform 4 0x12345678 0x1FFE board)) = 0x12345678"
  using RAM_write_read [where P = plain_platform and m = board and a = "0x1FFE" and n = 4 and v = "0x12345678",
      OF _ _ refl] board_backed [of "0x1FFE" 4]
  by simp

text \<open>
  (C19) \<^verbatim>\<open>lmw\<close> brings back what \<^verbatim>\<open>stmw\<close> stored: from the
  same address it fills the registers the store saved with their values and leaves the others and
  memory alone, whatever the registers held meanwhile.
\<close>

theorem RAM_stmw_lmw:
  assumes "a = Helper_Get_EA (snd m) i" "a AND 3 = 0" "MSR_LE (msr (snd m)) = 0" "\<not> DSI m"
    "backed (ram_loc P m) a (4 * (32 - unat (RS i)))" "m' = stmw (MMU P) i m"
    "RD j = RS i" "Helper_Get_EA s j = a" "msr s = msr (snd m)" "Exceptions s = Exceptions (snd m)"
    "m_enable_dcache s = m_enable_dcache (snd m)"
  shows "lmw (MMU P) j (fst m', s) =
    (fst m', s\<lparr>gpr := \<lambda>r. if RS i \<le> r then gpr (snd m) r else gpr s r\<rparr>)"
  using assms by (rule ram.stmw_lmw)

text \<open>\<^verbatim>\<open>stmw r30, 0x1FFC(0)\<close> and \<^verbatim>\<open>lmw r30, 0x1FFC(0)\<close>.\<close>

definition full_board :: "unit sys" where
  "full_board = (blank_memory, boot_state\<lparr>gpr := (\<lambda>r. 0x01010101 * ucast r)\<rparr>)"

lemma RAM_stmw_lmw_witness:
  "gpr (snd (lmw (MMU plain_platform) 0xBBC01FFC
     (fst (stmw (MMU plain_platform) 0xBFC01FFC full_board), boot_state))) 31 = 0x1F1F1F1F"
proof -
  have l: "ram_loc plain_platform full_board = ram_loc plain_platform board"
    unfolding full_board_def board_def by (rule ram_loc_cpu) simp_all
  have f: "RD 0xBBC01FFC = RS 0xBFC01FFC" "unat (RS 0xBFC01FFC) = 30" by code_simp+
  have "backed (ram_loc plain_platform full_board) 0x1FFC (4 * (32 - unat (RS 0xBFC01FFC)))"
    unfolding l f by (rule board_backed) simp
  moreover have "Helper_Get_EA (snd full_board) 0xBFC01FFC = 0x1FFC" "Helper_Get_EA boot_state 0xBBC01FFC = 0x1FFC"
    "MSR_LE (msr (snd full_board)) = 0" "\<not> DSI full_board" "gpr (snd full_board) 31 = 0x1F1F1F1F"
    "RS 0xBFC01FFC \<le> 31" "msr boot_state = msr (snd full_board)"
    "Exceptions boot_state = Exceptions (snd full_board)"
    "m_enable_dcache boot_state = m_enable_dcache (snd full_board)"
    by code_simp+
  ultimately show ?thesis
    using RAM_stmw_lmw [where a = "0x1FFC" and m = full_board and i = "0xBFC01FFC" and P = plain_platform
        and j = "0xBBC01FFC" and s = boot_state]
    by (simp add: f)
qed

text \<open>
  (C3) The string store \<^verbatim>\<open>Helper_StoreString\<close>, which writes aligned words only and
  so reads and writes back the bytes around the string, stores exactly the bytes of the
  registers, most significant first, at exactly the string's addresses: nothing else changes.
\<close>

theorem RAM_store_string:
  assumes "\<not> DSI m" "n \<le> 255"
    "backed (ram_loc P m) (EA AND NOT 3) (4 * ((unat (EA AND 3) + n + 3) div 4))"
  shows "Helper_StoreString (MMU P) EA n r m =
    on_memory (RAM_update (scatter (place (ram_loc P m) EA n) (string_bytes (snd m) r n))) m"
  using ram.StoreString_bytes [OF assms] by (simp add: ram.put_def on_memory_def)

text \<open>Seven bytes from \<^verbatim>\<open>r30\<close> at an odd address.\<close>

lemma RAM_store_string_witness:
  "RAM (fst (Helper_StoreString (MMU plain_platform) 0x2001 7 30 full_board)) 0x2005 = 0x1F"
proof -
  have l: "ram_loc plain_platform full_board = ram_loc plain_platform board"
    unfolding full_board_def board_def by (rule ram_loc_cpu) simp_all
  have e: "unat (0x2001 AND 3 :: u32) = 1" "(0x2001 :: u32) AND NOT 3 = 0x2000" by code_simp+
  have b: "backed (ram_loc plain_platform full_board) (0x2001 AND NOT 3) (4 * ((unat (0x2001 AND 3 :: u32) + 7 + 3) div 4))"
    unfolding l e by (rule board_backed) simp
  have d: "\<not> DSI full_board" by code_simp
  have "RAM (fst (on_memory (RAM_update (scatter (place (ram_loc plain_platform full_board) 0x2001 7)
      (string_bytes (snd full_board) 30 7))) full_board)) 0x2005 = 0x1F"
    by code_simp
  then show ?thesis using RAM_store_string [OF d _ b, of 30] by simp
qed

end
