(* ===== verification/Page_Table.thy ===== *)
theory Page_Table
  imports Memory_RAM
begin

text \<open>
  The hashed page table, kept in main memory: its search and the look-aside buffer in front of it.
\<close>

section \<open>The table in memory\<close>

definition memory_word :: "'d platform \<Rightarrow> 'd sys \<Rightarrow> u32 \<Rightarrow> u32" where
  "memory_word P m p = of_bytes (rev (copy_from (RAM (fst m)) (p AND GetRamMask P) 4))"

text \<open>
  The registers place every group of entries in main memory, and the caches are not modelled:
  what the walk relies on.
\<close>

definition table_in_RAM :: "'d sys \<Rightarrow> bool" where
  "table_in_RAM m \<longleftrightarrow> \<not> m_enable_dcache (snd m) \<and>
     pagetable_base (fst m) AND 0xF800003F = 0 \<and> pagetable_mask (fst m) AND 0xF8000000 = 0"

definition group_entries :: "u32 \<Rightarrow> u32 list" where
  "group_entries h = map (\<lambda>i. h + 8 * word_of_nat i) [0..<8]"

definition find_PTE :: "'d platform \<Rightarrow> u32 \<Rightarrow> u32 \<Rightarrow> 'd sys \<Rightarrow> u32 option" where
  "find_PTE P VSID a m =
     (let hash = VSID XOR EA_page_index a; pte1 = first_pte1 VSID a
      in case find (\<lambda>p. memory_word P m p = pte1) (group_entries (pteg_address hash (fst m))) of
           Some p \<Rightarrow> Some p
         | None \<Rightarrow> find (\<lambda>p. memory_word P m p = PTE_set_H 1 pte1)
                     (group_entries (pteg_address (NOT hash) (fst m))))"

lemma aligned_parts:
  assumes "h AND 0xF800003F = (0 :: u32)"
  shows "h AND 0xF8000000 = 0" "h AND mask 6 = 0"
proof -
  have "h AND 0xF8000000 = (h AND 0xF800003F) AND 0xF8000000" by (simp add: and.assoc)
  then show "h AND 0xF8000000 = 0" using assms by simp
  have "h AND mask 6 = (h AND 0xF800003F) AND mask 6" by (simp add: and.assoc mask_eq_exp_minus_1)
  then show "h AND mask 6 = 0" using assms by simp
qed

lemma pteg_in_RAM:
  assumes "table_in_RAM m"
  shows "pteg_address hash (fst m) AND 0xF800003F = 0"
proof -
  have e: "(0xF800003F :: u32) = 0xF8000000 OR mask 6" by (simp add: mask_eq_exp_minus_1)
  have b: "pagetable_base (fst m) AND 0xF8000000 = 0" "pagetable_base (fst m) AND mask 6 = 0"
    and k: "pagetable_mask (fst m) AND 0xF8000000 = 0"
    using assms aligned_parts [of "pagetable_base (fst m)"] by (simp_all add: table_in_RAM_def)
  have "push_bit 6 hash AND mask 6 = 0" by (rule bit_word_eqI) (auto simp: bit_simps)
  then have s: "push_bit 6 hash AND pagetable_mask (fst m) AND mask 6 = 0"
    by (metis and.assoc and.commute and_zero_eq)
  have "pteg_address hash (fst m) AND 0xF8000000 = 0"
    using k by (simp add: pteg_address_def bit.conj_disj_distrib2 b(1) and.assoc)
  moreover have "pteg_address hash (fst m) AND mask 6 = 0"
    using s by (simp add: pteg_address_def bit.conj_disj_distrib2 b(2) and.assoc)
  ultimately show ?thesis unfolding e by (simp add: bit.conj_disj_distrib)
qed

lemma aligned_offset:
  assumes "h AND 0xF800003F = (0 :: u32)" "i < 64"
  shows "page_offset h + i < 4096" "(h + word_of_nat i) AND 0xF8000000 = 0"
proof -
  note h = aligned_parts [OF assms(1)]
  have "unat h mod 64 = 0"
  proof -
    have "unat (take_bit 6 h) = 0" using h(2) by (simp add: take_bit_eq_mask)
    then show ?thesis unfolding unsigned_take_bit_eq by (simp add: take_bit_eq_mod)
  qed
  then have "page_offset h mod 64 = 0" by (simp add: page_offset_def mod_mod_cancel)
  moreover have "page_offset h < 4096" by (simp add: page_offset_def)
  ultimately have "page_offset h \<le> 4032" by presburger
  then show o: "page_offset h + i < 4096" using assms(2) by simp
  have "(0xF8000000 :: u32) = push_bit 27 31" by simp
  then have "\<not> bit (0xF8000000 :: u32) n" if "n < 12" for n
    using that by (simp only: bit_push_bit_iff) simp
  then show "(h + word_of_nat i) AND 0xF8000000 = 0"
    using same_page_mask [OF o, of "0xF8000000"] h(1) by metis
qed

lemma read_table_word:
  assumes h: "h AND 0xF800003F = 0" and i: "i \<le> 60" and c: "\<not> m_enable_dcache (snd m)"
    and p: "p = h + word_of_nat i" and f: "flag = NoException \<or> flag = Read"
  shows "ReadFromHardware_physical P flag 4 p m = (ucast (memory_word P m p), m)"
proof -
  have r: "p AND 0xF8000000 = 0" using aligned_offset(2) [OF h, of i] i p by simp
  have "page_offset h + i < 4096" using aligned_offset(1) [OF h, of i] i by simp
  then have "page_offset p = page_offset h + i" unfolding p by (rule same_page(2))
  moreover have "page_offset h + 63 < 4096" by (rule aligned_offset(1) [OF h]) simp
  ultimately have "\<not> crosses_page p 4" using i by (subst crosses_page_iff) simp_all
  moreover have "bswapped (copy_from (RAM (fst m)) (p AND GetRamMask P) 4) = ucast (memory_word P m p)"
    by (simp add: memory_word_def bswapped_rev copy_from_def ucast_of_bytes)
  ultimately show ?thesis
    using RAM_address [OF r] r c f
    by (auto simp: ReadFromHardware_physical_def split_read_def physical_read_def read_cached_def)
qed

lemma scan_PTEG_find:
  assumes h: "h AND 0xF800003F = 0" and c: "\<not> m_enable_dcache (snd m)"
  shows "k + n \<le> 8 \<Longrightarrow> scan_PTEG P flag pte1 n (h + 8 * word_of_nat k) m =
    (find (\<lambda>p. memory_word P m p = pte1) (map (\<lambda>i. h + 8 * word_of_nat i) [k..<k + n]), m)"
proof (induction n arbitrary: k)
  case (Suc n)
  have "ReadFromHardware_physical P (pte_read_flag flag) 4 (h + 8 * word_of_nat k) m =
      (ucast (memory_word P m (h + 8 * word_of_nat k)), m)"
    using Suc.prems by (intro read_table_word [OF h _ c, of "8 * k"]) (simp_all add: pte_read_flag_def)
  moreover have "ucast (ucast w :: u64) = w" for w :: u32
    by (rule bit_word_eqI) (auto simp: bit_simps)
  moreover have "scan_PTEG P flag pte1 n (h + 8 * word_of_nat k + 8) m =
      (find (\<lambda>p. memory_word P m p = pte1) (map (\<lambda>i. h + 8 * word_of_nat i) [Suc k..<Suc k + n]), m)"
  proof -
    have "h + 8 * word_of_nat k + 8 = h + 8 * word_of_nat (Suc k)" by (simp add: algebra_simps)
    then show ?thesis using Suc.IH [of "Suc k"] Suc.prems by (simp only: add_Suc_shift)
  qed
  moreover have "[k..<k + Suc n] = k # [Suc k..<Suc k + n]"
    using upt_conv_Cons [of k "k + Suc n"] by simp
  ultimately show ?case by (simp only: scan_PTEG.simps Let_def prod.case list.map find.simps) simp
qed simp

lemma walk_page_table_find:
  assumes t: "table_in_RAM m"
  shows "walk_page_table P flag res a VSID m =
    (case find_PTE P VSID a m of
       Some p \<Rightarrow> use_PTE P flag res a VSID p m
     | None \<Rightarrow> (fault PAGE_FAULT, False, m))"
proof -
  have "\<not> m_enable_dcache (snd m)" using t by (simp add: table_in_RAM_def)
  then have "scan_PTEG P flag pte1 8 (pteg_address hash (fst m)) m =
      (find (\<lambda>p. memory_word P m p = pte1) (group_entries (pteg_address hash (fst m))), m)" for pte1 hash
    using scan_PTEG_find [OF pteg_in_RAM [OF t], where k = 0 and n = 8] by (simp add: group_entries_def)
  then show ?thesis
    by (simp add: walk_page_table_def find_PTE_def Let_def split: option.split)
qed

lemma find_PTE_group:
  assumes t: "table_in_RAM m" and f: "find_PTE P VSID a m = Some p"
  obtains h i where "h AND 0xF800003F = 0" "i < 8" "p = h + 8 * word_of_nat i"
proof -
  have g: "p \<in> set (group_entries h) \<Longrightarrow> h AND 0xF800003F = 0 \<Longrightarrow> thesis" for h
    using that by (auto simp: group_entries_def)
  have "find Q xs = Some p \<Longrightarrow> p \<in> set xs" for Q and xs :: "u32 list"
    by (metis find_Some_iff nth_mem)
  then have "\<exists>hash. p \<in> set (group_entries (pteg_address hash (fst m)))"
    using f unfolding find_PTE_def Let_def by (fastforce split: option.splits)
  then show ?thesis using g pteg_in_RAM [OF t] by blast
qed

definition walk_result :: "u32 \<Rightarrow> u32 \<Rightarrow> TranslateAddressResult" where
  "walk_result pte2 a =
     \<lparr>tr_result = PAGE_TABLE_TRANSLATED, tr_address = push_bit 12 (PTE_RPN pte2) OR EA_offset a, tr_wi = False\<rparr>"

lemma use_PTE_RAM:
  assumes t: "table_in_RAM m" and f: "find_PTE P VSID a m = Some p"
    and pte2: "pte2 = access_bits flag (memory_word P m (p + 4))"
  shows "use_PTE P flag NotFound a VSID p m =
    (walk_result pte2 a, PTE_WIMG pte2 AND 0xC \<noteq> 0,
     on_memory (UpdateTLBEntry flag pte2 a VSID)
       (if IsNoExceptionFlag flag \<or> pte2 = memory_word P m (p + 4) then m
        else on_memory (memory_Write_U32 P pte2 (p + 4)) m))"
proof -
  obtain h i where h: "h AND 0xF800003F = 0" "i < 8" "p = h + 8 * word_of_nat i"
    using find_PTE_group [OF t f] by blast
  have c: "\<not> m_enable_dcache (snd m)" using t by (simp add: table_in_RAM_def)
  have "p + 4 = h + word_of_nat (8 * i + 4)" using h(3) by (simp add: add.assoc)
  then have "ReadFromHardware_physical P (pte_read_flag flag) 4 (p + 4) m = (ucast (memory_word P m (p + 4)), m)"
    using h(2) by (intro read_table_word [OF h(1) _ c, of "8 * i + 4"]) (simp_all add: pte_read_flag_def)
  moreover have "ucast (ucast w :: u64) = w" for w :: u32
    by (rule bit_word_eqI) (auto simp: bit_simps)
  ultimately show ?thesis
    by (simp add: use_PTE_def Let_def walk_result_def pte2)
qed

lemma Lookup_NotFound_same:
  "fst (LookupTLBPageAddress flag a VSID d) = NotFound \<Longrightarrow> snd (LookupTLBPageAddress flag a VSID d) = d"
  by (auto simp: LookupTLBPageAddress_def TLB_hit_def Let_def split: if_splits prod.splits)

lemma TranslatePageAddress_miss:
  assumes "table_in_RAM m" "SR_T (sr (snd m) (EA_SR a)) = 0"
    "\<not> (IsOpcodeFlag flag \<and> SR_N (sr (snd m) (EA_SR a)) \<noteq> 0)"
    "VSID = SR_VSID (sr (snd m) (EA_SR a))"
    "fst (LookupTLBPageAddress flag a VSID (fst m)) = NotFound"
  shows "TranslatePageAddress P flag a m =
    (case find_PTE P VSID a m of
       None \<Rightarrow> (fault PAGE_FAULT, False, m)
     | Some p \<Rightarrow>
         (let pte1 = memory_word P m (p + 4); pte2 = access_bits flag pte1
          in (walk_result pte2 a, PTE_WIMG pte2 AND 0xC \<noteq> 0,
              on_memory (UpdateTLBEntry flag pte2 a VSID)
                (if IsNoExceptionFlag flag \<or> pte2 = pte1 then m
                 else on_memory (memory_Write_U32 P pte2 (p + 4)) m))))"
proof -
  have "LookupTLBPageAddress flag a VSID (fst m) = (NotFound, fst m)"
    using assms(5) Lookup_NotFound_same [OF assms(5)] by (metis prod.collapse)
  then have "TranslatePageAddress P flag a m = walk_page_table P flag NotFound a VSID m"
    using assms(2,3) by (auto simp: TranslatePageAddress_def Let_def assms(4))
  then show ?thesis
    using use_PTE_RAM [OF assms(1) _ refl]
    by (auto simp: walk_page_table_find [OF assms(1)] Let_def split: option.split)
qed

text \<open>
  (C4) On a miss in the look-aside buffer the walk of a page table in main memory finds the first
  matching entry of the primary group, else of the secondary one, and only then faults; the entry
  gives the page, and the referenced and changed bits that the access sets are written back to it
  (accesses of the host set none) before it enters the buffer.
\<close>

theorem page_walk:
  assumes "table_in_RAM m" "SR_T (sr (snd m) (EA_SR a)) = 0"
    "\<not> (IsOpcodeFlag flag \<and> SR_N (sr (snd m) (EA_SR a)) \<noteq> 0)"
    "VSID = SR_VSID (sr (snd m) (EA_SR a))"
    "fst (LookupTLBPageAddress flag a VSID (fst m)) = NotFound"
  shows "TranslatePageAddress P flag a m =
    (case find_PTE P VSID a m of
       None \<Rightarrow> (fault PAGE_FAULT, False, m)
     | Some p \<Rightarrow>
         (let pte1 = memory_word P m (p + 4); pte2 = access_bits flag pte1
          in (walk_result pte2 a, PTE_WIMG pte2 AND 0xC \<noteq> 0,
              on_memory (UpdateTLBEntry flag pte2 a VSID)
                (if IsNoExceptionFlag flag \<or> pte2 = pte1 then m
                 else on_memory (memory_Write_U32 P pte2 (p + 4)) m))))"
  using assms by (rule TranslatePageAddress_miss)

text \<open>
  A machine with a page table at 0x10000: one entry, in the primary group of its page, maps page 3
  of segment 5 to 0x00400000 as a write-through page.
\<close>

definition paged_board :: "unit sys" where
  "paged_board =
     (blank_memory\<lparr>RAM := (\<lambda>p. if p = 0x10180 then 0x80 else if p = 0x10182 then 2
          else if p = 0x10183 then 0x80 else if p = 0x10185 then 0x40 else if p = 0x10187 then 0x40 else 0),
        pagetable_base := 0x10000, pagetable_mask := 0xffc0\<rparr>,
      boot_state\<lparr>sr := (\<lambda>_. 5), msr := 0x8050\<rparr>)"

lemma paged_board_facts:
  "table_in_RAM paged_board" "SR_T (sr (snd paged_board) (EA_SR 0x3123)) = 0"
  "SR_VSID (sr (snd paged_board) (EA_SR 0x3123)) = 5"
  "fst (LookupTLBPageAddress Write 0x3123 5 (fst paged_board)) = NotFound"
  "find_PTE plain_platform 5 0x3123 paged_board = Some 0x10180"
  "memory_word plain_platform paged_board 0x10184 = 0x00400040"
  by code_simp+

lemma paged_board_result:
  "walk_result (access_bits Write 0x00400040) 0x3123 =
     \<lparr>tr_result = PAGE_TABLE_TRANSLATED, tr_address = 0x00400123, tr_wi = False\<rparr>"
  "PTE_WIMG (access_bits Write 0x00400040) AND 0xC \<noteq> 0"
  by code_simp+

lemma page_walk_board:
  "fst (TranslatePageAddress plain_platform Write 0x3123 paged_board) =
     \<lparr>tr_result = PAGE_TABLE_TRANSLATED, tr_address = 0x00400123, tr_wi = False\<rparr>"
  "fst (snd (TranslatePageAddress plain_platform Write 0x3123 paged_board))"
  using TranslatePageAddress_miss [OF paged_board_facts(1,2) _ refl, of Write plain_platform]
    paged_board_facts(3-6) paged_board_result
  by (simp_all add: IsOpcodeFlag_def Let_def)

lemma page_walk_witness:
  "fst (TranslatePageAddress plain_platform Write 0x3123 paged_board) =
     \<lparr>tr_result = PAGE_TABLE_TRANSLATED, tr_address = 0x00400123, tr_wi = False\<rparr>"
  using page_walk [OF paged_board_facts(1,2) _ refl, of Write plain_platform]
    paged_board_facts(3-6) paged_board_result
  by (simp add: IsOpcodeFlag_def Let_def)

lemma TLB_hit_same:
  assumes "tlb_recent e = word_of_nat w" "flag = Write \<Longrightarrow> PTE_C (tlb_pte e w) \<noteq> 0"
  shows "TLB_hit flag a w e =
    (Found (tlb_paddr e w OR (a AND 0xfff)) (PTE_WIMG (tlb_pte e w) AND 0xC \<noteq> 0), e)"
proof -
  have "e\<lparr>tlb_recent := word_of_nat w\<rparr> = e" using assms(1) by (cases e) simp
  then show ?thesis using assms(2) by (auto simp: TLB_hit_def Let_def)
qed

lemma set_tlb_same: "tlb d b ix = e \<Longrightarrow> set_tlb b ix e d = d"
  by (cases d) (auto simp: set_tlb_def)

lemma tlb_set_tlb: "tlb (set_tlb b ix e d) b ix = e"
  by (simp add: set_tlb_def)

lemma Lookup_after_Update:
  assumes x: "\<not> IsNoExceptionFlag flag" and nf: "fst (LookupTLBPageAddress flag a VSID d) = NotFound"
    and w: "flag = Write \<Longrightarrow> PTE_C pte2 \<noteq> 0" and d': "tlb d' = tlb d"
  shows "LookupTLBPageAddress flag a VSID (UpdateTLBEntry flag pte2 a VSID d') =
    (Found (push_bit 12 (PTE_RPN pte2) OR (a AND 0xfff)) (PTE_WIMG pte2 AND 0xC \<noteq> 0),
     UpdateTLBEntry flag pte2 a VSID d')"
proof -
  let ?tag = "drop_bit 12 a" and ?o = "IsOpcodeFlag flag"
  let ?ix = "ucast ?tag :: 6 word"
  let ?e = "tlb d ?o ?ix"
  define i :: nat where "i = (if tlb_recent ?e = 0 \<and> tlb_tag ?e 0 \<noteq> INVALID_TAG then 1 else 0)"
  define e' where "e' = ?e\<lparr>tlb_recent := word_of_nat i,
      tlb_paddr := (tlb_paddr ?e)(i := push_bit 12 (PTE_RPN pte2)), tlb_pte := (tlb_pte ?e)(i := pte2),
      tlb_tag := (tlb_tag ?e)(i := ?tag), tlb_vsid := (tlb_vsid ?e)(i := VSID)\<rparr>"
  have U: "UpdateTLBEntry flag pte2 a VSID d' = set_tlb ?o ?ix e' d'"
    using x d' by (simp add: UpdateTLBEntry_def Let_def HW_PAGE_INDEX_SHIFT_def e'_def i_def)
  have miss: "\<not> (tlb_tag ?e 0 = ?tag \<and> tlb_vsid ?e 0 = VSID)"
    using nf by (auto simp: LookupTLBPageAddress_def TLB_hit_def Let_def HW_PAGE_INDEX_SHIFT_def
        split: if_splits prod.splits)
  have hit: "TLB_hit flag a i e' =
      (Found (push_bit 12 (PTE_RPN pte2) OR (a AND 0xfff)) (PTE_WIMG pte2 AND 0xC \<noteq> 0), e')"
    using TLB_hit_same [of e' i flag a] w by (simp add: e'_def)
  have i01: "i = 0 \<or> i = 1" by (simp add: i_def)
  have m: "tlb_tag e' i = ?tag" "tlb_vsid e' i = VSID"
    "i = 1 \<Longrightarrow> \<not> (tlb_tag e' 0 = ?tag \<and> tlb_vsid e' 0 = VSID)"
    using miss by (simp_all add: e'_def)
  show ?thesis
    unfolding U LookupTLBPageAddress_def Let_def HW_PAGE_INDEX_SHIFT_def tlb_set_tlb
    using i01 m hit set_tlb_same [OF tlb_set_tlb, of ?o ?ix e' d']
    by auto
qed

lemma tlb_memory_Write [simp]: "tlb (memory_Write_U32 P v p d) = tlb d"
  by (auto simp: memory_Write_U32_def CopyToEmu_def split: option.splits region.splits)

lemma access_bits_Write: "PTE_C (access_bits Write w) \<noteq> 0"
  by (simp add: access_bits_def PTE_C_def PTE_set_C_def field_laws)

text \<open>
  (C20) What the walk has translated the look-aside buffer translates from then on: the same access
  repeated gives the same page and attributes without a search, and changes nothing.
\<close>

theorem translation_cached:
  assumes "table_in_RAM m" "SR_T (sr (snd m) (EA_SR a)) = 0"
    "\<not> (IsOpcodeFlag flag \<and> SR_N (sr (snd m) (EA_SR a)) \<noteq> 0)"
    "fst (LookupTLBPageAddress flag a (SR_VSID (sr (snd m) (EA_SR a))) (fst m)) = NotFound"
    "\<not> IsNoExceptionFlag flag"
    "TranslatePageAddress P flag a m = (r, wi, m')" "Success r"
  shows "TranslatePageAddress P flag a m' = (r, wi, m')"
proof -
  let ?V = "SR_VSID (sr (snd m) (EA_SR a))"
  note walk = TranslatePageAddress_miss [OF assms(1-3) refl assms(4), of P]
  obtain p where p: "find_PTE P ?V a m = Some p"
    using walk assms(6,7) by (cases "find_PTE P ?V a m") (auto simp: fault_def Success_def)
  define pte1 where "pte1 = memory_word P m (p + 4)"
  define pte2 where "pte2 = access_bits flag pte1"
  define d where "d = (if pte2 = pte1 then fst m else memory_Write_U32 P pte2 (p + 4) (fst m))"
  have r: "r = walk_result pte2 a" "wi \<longleftrightarrow> PTE_WIMG pte2 AND 0xC \<noteq> 0"
    and m': "m' = (UpdateTLBEntry flag pte2 a ?V d, snd m)"
    using walk assms(5,6) p
    by (auto simp: Let_def on_memory_def d_def pte1_def [symmetric] pte2_def [symmetric])
  have t: "tlb d = tlb (fst m)" by (simp add: d_def)
  have w: "flag = Write \<Longrightarrow> PTE_C pte2 \<noteq> 0" by (simp add: pte2_def access_bits_Write)
  have "LookupTLBPageAddress flag a ?V (fst m') =
      (Found (push_bit 12 (PTE_RPN pte2) OR (a AND 0xfff)) (PTE_WIMG pte2 AND 0xC \<noteq> 0), fst m')"
    unfolding m' fst_conv by (rule Lookup_after_Update [OF assms(5,4) w t])
  moreover have "EA_offset a = a AND 0xfff"
  proof -
    have c: "(0xfff :: u32) = mask 12" by (simp add: mask_eq_exp_minus_1)
    show ?thesis unfolding EA_offset_def c by (rule bit_word_eqI) (auto simp: bit_field_get bit_simps)
  qed
  ultimately show ?thesis
    by (simp add: TranslatePageAddress_def Let_def m' r walk_result_def)
qed

lemma translation_cached_witness:
  "\<exists>r wi m'. TranslatePageAddress plain_platform Write 0x3123 paged_board = (r, wi, m') \<and>
     TranslatePageAddress plain_platform Write 0x3123 m' = (r, wi, m')"
proof -
  obtain r wi m' where t: "TranslatePageAddress plain_platform Write 0x3123 paged_board = (r, wi, m')"
    using prod_cases3 by blast
  have "r = \<lparr>tr_result = PAGE_TABLE_TRANSLATED, tr_address = 0x00400123, tr_wi = False\<rparr>"
    using page_walk_board t by simp
  then have "Success r" by (simp add: Success_def)
  then have "TranslatePageAddress plain_platform Write 0x3123 m' = (r, wi, m')"
    using translation_cached [OF paged_board_facts(1,2) _ _ _ t] paged_board_facts(3,4)
    by (simp add: IsOpcodeFlag_def IsNoExceptionFlag_def)
  then show ?thesis using t by blast
qed

text \<open>
  (C40) A page that its table entry marks write-through or cache-inhibited is stored to as an
  ordinary page: the mark that the search of the page table reports is not handed on, so the writes
  that hardware duplicates for such pages are duplicated behind block translations only.
\<close>

theorem page_attributes_lost:
  assumes "MSR_DR (msr (snd m)) \<noteq> 0" "TranslateBatAddress (m_dbat_table (fst m)) a = None"
    "TranslatePageAddress P Write a m = (r, True, m')" "Success r"
  shows "page_write P Write d n a m = physical_write P Write False d n (tr_address r) m'"
proof -
  have "\<not> tr_wi r"
    using assms(3) by (auto simp: TranslatePageAddress_def walk_page_table_def use_PTE_def fault_def Let_def
        split: TLBLookupResult.splits prod.splits option.splits if_splits)
  then show ?thesis
    using assms by (simp add: page_write_def TranslateAddress_def IsOpcodeFlag_def)
qed

lemma page_attributes_lost_witness:
  "\<exists>r m'. TranslatePageAddress plain_platform Write 0x3123 paged_board = (r, True, m') \<and>
     page_write plain_platform Write 0x55 1 0x3123 paged_board =
       physical_write plain_platform Write False 0x55 1 (tr_address r) m'"
proof -
  obtain r wi m' where t: "TranslatePageAddress plain_platform Write 0x3123 paged_board = (r, wi, m')"
    using prod_cases3 by blast
  have r: "r = \<lparr>tr_result = PAGE_TABLE_TRANSLATED, tr_address = 0x00400123, tr_wi = False\<rparr>"
    using page_walk_board t by simp
  have "wi" using page_walk_board t by simp
  moreover have "Success r" by (simp add: r Success_def)
  moreover have "MSR_DR (msr (snd paged_board)) \<noteq> 0" "TranslateBatAddress (m_dbat_table (fst paged_board)) 0x3123 = None"
    by code_simp+
  ultimately show ?thesis
    using page_attributes_lost [of paged_board "0x3123" plain_platform r m' "0x55" 1] t by auto
qed

end
