(* ===== verification/Page_Fault.thy ===== *)
theory Page_Fault
  imports Page_Table
begin

text \<open>
  A load whose address has no translation: the processor takes the exception and nothing of the
  instruction remains but what the exception reports.
\<close>

definition integer_loads ::
  "(('m mmu \<Rightarrow> u32 \<Rightarrow> 'm machine \<Rightarrow> 'm machine) \<times> (PowerPCState \<Rightarrow> u32 \<Rightarrow> u32) \<times> nat) list" where
  "integer_loads =
     [(lbz, Helper_Get_EA, 1), (lbzu, Helper_Get_EA_U, 1), (lbzx, Helper_Get_EA_X, 1),
      (lbzux, Helper_Get_EA_UX, 1), (lhz, Helper_Get_EA, 2), (lhzu, Helper_Get_EA_U, 2),
      (lhzx, Helper_Get_EA_X, 2), (lhzux, Helper_Get_EA_UX, 2), (lha, Helper_Get_EA, 2),
      (lhau, Helper_Get_EA_U, 2), (lhax, Helper_Get_EA_X, 2), (lhaux, Helper_Get_EA_UX, 2),
      (lwz, Helper_Get_EA, 4), (lwzu, Helper_Get_EA_U, 4), (lwzx, Helper_Get_EA_X, 4),
      (lwzux, Helper_Get_EA_UX, 4), (lhbrx, Helper_Get_EA_X, 2), (lwbrx, Helper_Get_EA_X, 4)]"

text \<open>The state an exception of the page translation leaves, from the one it found.\<close>

definition data_fault :: "u32 \<Rightarrow> bool \<Rightarrow> PowerPCState \<Rightarrow> PowerPCState" where
  "data_fault a write s =
     s\<lparr>spr := (spr s)(SPR_DSISR := if write then 0x42000000 else 0x40000000, SPR_DAR := a),
       Exceptions := Exceptions s OR EXCEPTION_DSI\<rparr>"

lemma MMU_GenerateDSI:
  "IsMMUMode P \<Longrightarrow> MMU_GenerateDSIException P a write m = on_cpu (data_fault a write) m"
  by (simp add: MMU_GenerateDSIException_def data_fault_def on_cpu_def set_spr_def Let_def)

lemma DSI_data_fault: "DSI (on_cpu (data_fault a write) m)"
proof -
  have "(Exceptions (snd m) OR EXCEPTION_DSI) AND EXCEPTION_DSI = EXCEPTION_DSI"
    by (rule bit_word_eqI) (auto simp: bit_simps)
  then show ?thesis by (simp add: DSI_def on_cpu_def data_fault_def EXCEPTION_DSI_def)
qed

lemma mmu_Read_fault:
  assumes "IsMMUMode P" "\<not> HasMemChecks P" "MSR_DR (msr (snd m)) \<noteq> 0"
    "TranslateAddress P Read a m = (r, m')" "\<not> Success r" "\<not> crosses_page a n"
  shows "mmu_Read P n a m = (0, on_cpu (data_fault a False) m')"
  using assms
  by (simp add: mmu_Read_def Memcheck_def ReadFromHardware_def split_read_def page_read_def
      IsOpcodeFlag_def MMU_GenerateDSI)

text \<open>
  An integer load from an address without translation raises the exception of the page fault:
  every register keeps its value, the base register of the forms with update included, only the
  registers that report the fault and the pending exceptions change.
\<close>

lemma load_page_fault:
  assumes "(ld, ea, n) \<in> set integer_loads" "a = ea (snd m) i"
    "IsMMUMode P" "\<not> HasMemChecks P" "MSR_DR (msr (snd m)) \<noteq> 0"
    "TranslateAddress P Read a m = (r, m')" "\<not> Success r" "\<not> crosses_page a n"
  shows "ld (MMU P) i m = on_cpu (data_fault a False) m'"
proof -
  note rd = mmu_Read_fault [OF assms(3-8)]
  have "Read_U8 (MMU P) a m = (0, on_cpu (data_fault a False) m')" if "n = 1"
    using rd that by (simp add: MMU_def)
  moreover have "Read_U16 (MMU P) a m = (0, on_cpu (data_fault a False) m')" if "n = 2"
    using rd that by (simp add: MMU_def)
  moreover have "Read_U32 (MMU P) a m = (0, on_cpu (data_fault a False) m')" if "n = 4"
    using rd that by (simp add: MMU_def)
  ultimately show ?thesis
    using assms(1,2) DSI_data_fault [of a False m']
    unfolding integer_loads_def by (auto simp: load_defs Let_def)
qed

text \<open>\<^verbatim>\<open>lwzu r3, 8(r4)\<close> with no entry for the page.\<close>

lemma unmapped_facts:
  "SR_T (sr (snd paged_board) (EA_SR 8)) = 0" "SR_VSID (sr (snd paged_board) (EA_SR 8)) = 5"
  "fst (LookupTLBPageAddress Read 8 5 (fst paged_board)) = NotFound"
  "find_PTE plain_platform 5 8 paged_board = None"
  "TranslateBatAddress (m_dbat_table (fst paged_board)) 8 = None"
  "Helper_Get_EA_U (snd paged_board) 0x84640008 = 8" "MSR_DR (msr (snd paged_board)) \<noteq> 0"
  "\<not> crosses_page 8 4"
  by code_simp+

lemma unmapped: "TranslateAddress plain_platform Read 8 paged_board = (fault PAGE_FAULT, paged_board)"
  using TranslatePageAddress_miss [OF paged_board_facts(1) unmapped_facts(1) _ refl, of Read plain_platform]
    unmapped_facts(2-5)
  by (simp add: TranslateAddress_def IsOpcodeFlag_def)

lemma load_page_fault_witness:
  "lwzu (MMU plain_platform) 0x84640008 paged_board = on_cpu (data_fault 8 False) paged_board"
  by (rule load_page_fault [OF _ _ _ _ _ unmapped, of lwzu Helper_Get_EA_U 4])
    (simp_all add: integer_loads_def unmapped_facts fault_def Success_def plain_platform_def)

end
