(* ===== verification/Exception_Entry.thy ===== *)
theory Exception_Entry
  imports Interpreter_Board Float_Gate Page_Fault
begin

text \<open>
  How a step takes the exceptions of memory: an instruction that cannot be fetched and a load whose
  address has no translation. The processor ends at the handler's vector with the interrupted
  address saved, and what the program can see of its registers is untouched.
\<close>

section \<open>Entering a handler\<close>

lemma enter_exception_DR: "MSR_DR (msr (enter_exception a b v e s)) = 0"
proof -
  have "\<not> bit (w :: u32) 4" if "w AND 0xE030 = 0" for w
  proof
    assume "bit w 4"
    then have "bit (w AND 0xE030) 4" by (simp add: bit_and_iff)
    with that show False by simp
  qed
  from this [OF enter_exception_msr(1)] show ?thesis by (simp add: MSR_DR_def field_get_Suc_0)
qed

definition handler_entered :: "u32 \<Rightarrow> u32 \<Rightarrow> u32 \<Rightarrow> u32 \<Rightarrow> PowerPCState \<Rightarrow> PowerPCState" where
  "handler_entered srr0 srr1 vector b s =
     (let s = enter_exception srr0 srr1 vector b s
      in s\<lparr>feature_flags := (feature_flags s AND FEATURE_FLAG_PERFMON) OR (drop_bit 4 (msr s) AND 3)\<rparr>)"

lemma MSRUpdated_entered:
  "m_ppc_state (MSRUpdated (on_ppc (enter_exception a b v e) i)) = handler_entered a b v e (m_ppc_state i)"
  "host (MSRUpdated (on_ppc (enter_exception a b v e) i)) = host i @ [UpdateMembase]"
  by (simp_all add: MSRUpdated_state handler_entered_def Let_def enter_exception_DR)
    (simp add: MSRUpdated_def enter_exception_DR)

lemma exception_taken:
  assumes "\<And>c. device_call E UpdateMembase c = c"
    "CheckExceptions ((interpreter c)\<lparr>host := []\<rparr>) =
       MSRUpdated (on_ppc (enter_exception a b v e) ((interpreter c)\<lparr>host := []\<rparr>))"
  shows "m_ppc (Interpreter_CheckExceptions E c) = handler_entered a b v e (m_ppc c)"
    "core_memory (Interpreter_CheckExceptions E c) = core_memory c"
    "m_end_block (interpreter (Interpreter_CheckExceptions E c))"
  using assms(1)
  by (simp_all add: Interpreter_CheckExceptions_def on_interpreter_def assms(2) Let_def
      MSRUpdated_entered host_effect_def m_ppc_fold)

lemma handler_entered_fields:
  "pc (handler_entered a b v e s) = v" "npc (handler_entered a b v e s) = v"
  "spr (handler_entered a b v e s) = (spr s)(SPR_SRR0 := a, SPR_SRR1 := b)"
  "gpr (handler_entered a b v e s) = gpr s" "cr (handler_entered a b v e s) = cr s"
  "ps (handler_entered a b v e s) = ps s" "GetXER (handler_entered a b v e s) = GetXER s"
  by (simp_all add: handler_entered_def enter_exception_def GetXER_def Let_def)

text \<open>The performance monitor changes its counters and raises its exception, nothing else.\<close>

definition monitored :: "PowerPCState \<Rightarrow> PowerPCState \<Rightarrow> bool" where
  "monitored s t \<longleftrightarrow>
     (\<exists>sprs e. t = s\<lparr>spr := sprs, Exceptions := e\<rparr> \<and>
       (\<forall>r. r \<notin> {SPR_PMC1, SPR_PMC2, SPR_PMC3, SPR_PMC4} \<longrightarrow> sprs r = spr s r))"

lemma monitored_step:
  "monitored s s"
  "q \<in> {SPR_PMC1, SPR_PMC2, SPR_PMC3, SPR_PMC4} \<Longrightarrow> monitored s t \<Longrightarrow> monitored s (set_spr q v t)"
  "monitored s t \<Longrightarrow> monitored s (t\<lparr>Exceptions := e\<rparr>)"
  "monitored s t \<Longrightarrow> monitored s u \<Longrightarrow> monitored s (if b then t else u)"
  "monitored s t \<Longrightarrow> (\<And>t. monitored s t \<Longrightarrow> monitored s (f t)) \<Longrightarrow> monitored s (Let t f)"
proof -
  show "monitored s s" unfolding monitored_def by (intro exI [of _ "spr s"] exI [of _ "Exceptions s"]) simp
  show "monitored s (set_spr q v t)"
    if q: "q \<in> {SPR_PMC1, SPR_PMC2, SPR_PMC3, SPR_PMC4}" and m: "monitored s t"
  proof -
    obtain sprs e where t: "t = s\<lparr>spr := sprs, Exceptions := e\<rparr>"
      and f: "\<And>r. r \<notin> {SPR_PMC1, SPR_PMC2, SPR_PMC3, SPR_PMC4} \<Longrightarrow> sprs r = spr s r"
      using m unfolding monitored_def by blast
    have "set_spr q v t = s\<lparr>spr := sprs(q := v), Exceptions := e\<rparr>" by (simp add: t set_spr_def)
    moreover have "(sprs(q := v)) r = spr s r" if "r \<notin> {SPR_PMC1, SPR_PMC2, SPR_PMC3, SPR_PMC4}" for r
      using f [OF that] that q by auto
    ultimately show ?thesis unfolding monitored_def by blast
  qed
  show "monitored s (t\<lparr>Exceptions := e\<rparr>)" if "monitored s t"
    using that unfolding monitored_def by force
qed (simp_all add: Let_def)

lemma monitored_UpdatePerformanceMonitor: "monitored s (UpdatePerformanceMonitor x y z s)"
  unfolding UpdatePerformanceMonitor_def
  by (intro monitored_step) (simp_all add: Let_def monitored_step)

lemma monitor_frame:
  "pc (UpdatePerformanceMonitor x y z s) = pc s" "npc (UpdatePerformanceMonitor x y z s) = npc s"
  "gpr (UpdatePerformanceMonitor x y z s) = gpr s" "cr (UpdatePerformanceMonitor x y z s) = cr s"
  "ps (UpdatePerformanceMonitor x y z s) = ps s" "GetXER (UpdatePerformanceMonitor x y z s) = GetXER s"
  "r \<notin> {SPR_PMC1, SPR_PMC2, SPR_PMC3, SPR_PMC4} \<Longrightarrow> spr (UpdatePerformanceMonitor x y z s) r = spr s r"
  using monitored_UpdatePerformanceMonitor [of s x y z]
  by (auto simp: monitored_def GetXER_def Let_def)

lemma monitor_SRR:
  "spr (UpdatePerformanceMonitor x y z s) SPR_SRR0 = spr s SPR_SRR0"
  "spr (UpdatePerformanceMonitor x y z s) SPR_SRR1 = spr s SPR_SRR1"
  by (rule monitor_frame(7); simp add: spr_defs)+

lemma GetXER_pc [simp]: "GetXER (s\<lparr>pc := a\<rparr>) = GetXER s" "GetXER (s\<lparr>npc := a, Exceptions := e\<rparr>) = GetXER s"
  by (simp_all add: GetXER_def)

lemma SRR_neq: "SPR_SRR0 \<noteq> SPR_SRR1"
  by (simp add: spr_defs)

section \<open>Instruction fetch\<close>

lemma ISI_bit: "(x OR EXCEPTION_ISI) AND EXCEPTION_ISI \<noteq> 0"
proof -
  have "(x OR EXCEPTION_ISI) AND EXCEPTION_ISI = EXCEPTION_ISI"
    by (rule bit_word_eqI) (auto simp: bit_simps)
  then show ?thesis by (simp add: EXCEPTION_ISI_def)
qed

lemma CheckExceptions_ISI:
  assumes "Exceptions (m_ppc_state i) AND EXCEPTION_ISI \<noteq> 0"
  shows "CheckExceptions i = MSRUpdated (on_ppc (enter_exception (npc (m_ppc_state i))
      ((msr (m_ppc_state i) AND 0x87C0FFFF) OR 0x40000000) 0x400 EXCEPTION_ISI) i)"
  using assms by (simp add: CheckExceptions_def Let_def)

lemma UpdatePC_fields:
  "core_memory (UpdatePC c) = core_memory c" "m_ppc (UpdatePC c) = (m_ppc c)\<lparr>pc := npc (m_ppc c)\<rparr>"
  "m_end_block (interpreter (UpdatePC c)) = m_end_block (interpreter c)"
  by (simp_all add: UpdatePC_def on_processor_def m_ppc_def on_ppc_def)

lemma on_processor_simps [simp]:
  "core_memory (on_processor f c) = core_memory c"
  "m_end_block (interpreter (on_processor f c)) = m_end_block (interpreter c)"
  by (simp_all add: on_processor_def)

text \<open>The state after the fetch, from which the instruction is executed.\<close>

definition fetched :: "u32 \<Rightarrow> 'd sys \<Rightarrow> 'd core \<Rightarrow> 'd core" where
  "fetched inst m c =
     (let c = on_system (\<lambda>_. m) (on_processor (\<lambda>s. s\<lparr>npc := pc s + 4\<rparr>) c)
      in c\<lparr>interpreter := (interpreter c)\<lparr>m_prev_inst := inst\<rparr>\<rparr>)"

lemma pc_npc: "pc (s\<lparr>npc := a\<rparr>) = pc s" for s :: PowerPCState
  by simp

lemma fetched_fields: "m_ppc (fetched inst m c) = snd m" "core_memory (fetched inst m c) = fst m"
  by (simp_all add: fetched_def Let_def on_system_def case_prod_beta m_ppc_fold)

lemma SingleStepInner_fetched:
  assumes "TryReplaceFunction E (pc (m_ppc c)) c = None"
    "Read_Opcode (platform_of E) (pc (m_ppc c)) (core_memory c, (m_ppc c)\<lparr>npc := pc (m_ppc c) + 4\<rparr>) = (inst, m)"
  shows "snd (SingleStepInner E c) = on_processor (UpdatePerformanceMonitor (num_cycles (GetOpInfo inst))
      (of_bool (op_flags (GetOpInfo inst) AND FL_LOADSTORE \<noteq> 0))
      (of_bool (op_flags (GetOpInfo inst) AND FL_USE_FPU \<noteq> 0))) (UpdatePC (execute E inst (fetched inst m c)))"
  using assms by (simp only: SingleStepInner_def HandleFunctionHooking_def fetched_def Let_def
      option.case prod.case if_False m_ppc_simps on_processor_simps snd_conv simp_thms pc_npc)

text \<open>
  (C22) An instruction that cannot be fetched is not executed: when the address of the program
  counter has no translation, the step ends at the handler of the instruction storage exception,
  with that address to return to and the reason in SRR1. No general, condition or floating-point
  register changes, and memory is as the failed translation left it.
\<close>

theorem fetch_fault_taken:
  assumes "\<And>c. device_call E UpdateMembase c = c" "TryReplaceFunction E (pc (m_ppc c)) c = None"
    "MSR_IR (msr (m_ppc c)) \<noteq> 0"
    "TranslateAddress (platform_of E) Opcode (pc (m_ppc c))
       (core_memory c, (m_ppc c)\<lparr>npc := pc (m_ppc c) + 4\<rparr>) = (r, (d, s))" "\<not> Success r"
  shows "let c' = snd (SingleStepInner E c); t = m_ppc c'
    in pc t = 0x400 \<and> npc t = 0x400 \<and> spr t SPR_SRR0 = pc (m_ppc c) \<and>
       spr t SPR_SRR1 = (msr s AND 0x87C0FFFF) OR 0x40000000 \<and> gpr t = gpr s \<and> cr t = cr s \<and>
       ps t = ps s \<and> GetXER t = GetXER s \<and> core_memory c' = d \<and> m_end_block (interpreter c')"
proof -
  let ?s = "s\<lparr>npc := pc (m_ppc c), Exceptions := Exceptions s OR EXCEPTION_ISI\<rparr>"
  let ?c = "fetched 0 (d, ?s) c"
  have "Read_Opcode (platform_of E) (pc (m_ppc c)) (core_memory c, (m_ppc c)\<lparr>npc := pc (m_ppc c) + 4\<rparr>) =
      (0, (d, ?s))"
    using assms(3-5)
    by (simp add: Read_Opcode_def TryReadInstruction_def GenerateISIException_def on_cpu_def)
  note step = SingleStepInner_fetched [OF assms(2) this]
  have "CheckExceptions ((interpreter ?c)\<lparr>host := []\<rparr>) =
      MSRUpdated (on_ppc (enter_exception (pc (m_ppc c)) ((msr s AND 0x87C0FFFF) OR 0x40000000) 0x400
        EXCEPTION_ISI) ((interpreter ?c)\<lparr>host := []\<rparr>))"
    using CheckExceptions_ISI [of "(interpreter ?c)\<lparr>host := []\<rparr>"] ISI_bit
    by (simp add: m_ppc_fold fetched_fields)
  note taken = exception_taken [of E, OF assms(1) this]
  have "execute E 0 ?c = Interpreter_CheckExceptions E ?c" by (simp add: execute_def)
  then show ?thesis
    unfolding step Let_def
    by (simp add: monitor_frame(1-6) monitor_SRR SRR_neq taken fetched_fields UpdatePC_fields
        handler_entered_fields)
qed

text \<open>The machine of the page table, at address 8, which no table entry maps.\<close>

definition lost_core :: "unit core" where
  "lost_core = plain_core\<lparr>core_memory := fst paged_board,
     interpreter := boot_cpu\<lparr>m_ppc_state := (snd paged_board)\<lparr>pc := 8, msr := 0x30\<rparr>\<rparr>\<rparr>"

lemma lost_fetch:
  "TranslateAddress plain_platform Opcode 8 (fst paged_board, (m_ppc lost_core)\<lparr>npc := 12\<rparr>) =
     (fault PAGE_FAULT, (fst paged_board, (m_ppc lost_core)\<lparr>npc := 12\<rparr>))"
proof -
  let ?m = "(fst paged_board, (m_ppc lost_core)\<lparr>npc := 12\<rparr>)"
  have "table_in_RAM ?m" "SR_T (sr (snd ?m) (EA_SR 8)) = 0" "SR_N (sr (snd ?m) (EA_SR 8)) = 0"
    "SR_VSID (sr (snd ?m) (EA_SR 8)) = 5" "fst (LookupTLBPageAddress Opcode 8 5 (fst ?m)) = NotFound"
    "find_PTE plain_platform 5 8 ?m = None" "TranslateBatAddress (m_ibat_table (fst ?m)) 8 = None"
    by code_simp+
  then show ?thesis
    using TranslatePageAddress_miss [of ?m 8 Opcode 5 plain_platform]
    by (simp add: TranslateAddress_def IsOpcodeFlag_def)
qed

theorem fetch_fault_taken_witness:
  "spr (m_ppc (snd (SingleStepInner plain_env lost_core))) SPR_SRR0 = 8 \<and>
   pc (m_ppc (snd (SingleStepInner plain_env lost_core))) = 0x400"
proof -
  have pc: "pc (m_ppc lost_core) = 8" "core_memory lost_core = fst paged_board"
    and ir: "MSR_IR (msr (m_ppc lost_core)) \<noteq> 0"
    by (simp_all add: lost_core_def plain_core_def boot_cpu_def m_ppc_def) code_simp
  have "TranslateAddress (platform_of plain_env) Opcode (pc (m_ppc lost_core))
      (core_memory lost_core, (m_ppc lost_core)\<lparr>npc := pc (m_ppc lost_core) + 4\<rparr>) =
      (fault PAGE_FAULT, (fst paged_board, (m_ppc lost_core)\<lparr>npc := 12\<rparr>))"
    using lost_fetch by (simp add: pc plain_env_def)
  from fetch_fault_taken [OF _ _ ir this]
  show ?thesis by (simp add: plain_env_def pc fault_def Success_def Let_def)
qed

section \<open>Loads\<close>

definition named_loads ::
  "(Instruction \<times> ('m mmu \<Rightarrow> u32 \<Rightarrow> 'm machine \<Rightarrow> 'm machine) \<times> (PowerPCState \<Rightarrow> u32 \<Rightarrow> u32) \<times> nat) list" where
  "named_loads =
     zip [''lbz'', ''lbzu'', ''lbzx'', ''lbzux'', ''lhz'', ''lhzu'', ''lhzx'', ''lhzux'', ''lha'',
          ''lhau'', ''lhax'', ''lhaux'', ''lwz'', ''lwzu'', ''lwzx'', ''lwzux'', ''lhbrx'', ''lwbrx'']
       integer_loads"

lemma map_of_map_pair: "map_of (map (\<lambda>(k, f). (k, h f)) xs) k = map_option h (map_of xs k)"
  by (induction xs) auto

lemma run_function_memory:
  assumes "hd name = CHR ''l''" "map_of memory_functions name = Some f"
  shows "run_function E name inst = on_system (f (MMU (platform_of E)) inst)"
proof -
  have "\<forall>e \<in> set processor_functions. hd (fst e) \<noteq> CHR ''l''"
    "\<forall>e \<in> set interpreter_functions. hd (fst e) \<noteq> CHR ''l''"
    by (simp_all add: processor_functions_def interpreter_functions_def)
  then have "map_of processor_functions name = None" "map_of interpreter_functions name = None"
    using assms(1) by (auto simp: map_of_eq_None_iff)
  then show ?thesis
    using assms(2) by (simp add: run_function_def function_table_def map_add_def map_of_map_pair)
qed

lemma named_loads_functions:
  "\<forall>(name, ld, ea, n) \<in> set named_loads. map_of memory_functions name = Some ld"
  by (simp add: named_loads_def integer_loads_def memory_functions_def)

text \<open>What the tables say of a word that is one of these loads.\<close>

definition load_like :: "Instruction \<Rightarrow> bool" where
  "load_like name \<longleftrightarrow> hd name = CHR ''l'' \<and> hd (tl name) \<in> {CHR ''b'', CHR ''h'', CHR ''w''}"

lemma float_opcodes:
  "\<forall>e \<in> set Info_primary_table. op_flags (snd e) AND FL_USE_FPU \<noteq> 0 \<longrightarrow> 48 \<le> fst e"
  "\<forall>e \<in> set Info_table19. op_flags (snd e) AND FL_USE_FPU = 0"
  "\<forall>e \<in> set Info_table31. op_flags (snd e) AND FL_USE_FPU \<noteq> 0 \<longrightarrow>
     fst e \<in> {535, 567, 599, 631, 663, 695, 727, 759, 983}"
  by (simp_all add: Info_primary_table_def Info_table19_def Info_table31_def flag_defs)

lemma load_opcodes:
  "\<forall>e \<in> set Fn_primary_table. load_like (snd e) \<longrightarrow> fst e \<noteq> 0 \<and> fst e < 48"
  "\<forall>e \<in> set Fn_table31. load_like (snd e) \<longrightarrow> fst e \<notin> {535, 567, 599, 631, 663, 695, 727, 759, 983}"
  "\<forall>e \<in> set (Fn_table4_2 @ Fn_table4_3 @ Fn_table4). \<not> load_like (snd e)"
  "\<forall>e \<in> set (Fn_table59 @ Fn_table63 @ Fn_table63_2). \<not> load_like (snd e)"
  by (simp_all add: load_like_def Fn_primary_table_def Fn_table31_def Fn_table4_def Fn_table4_2_def
      Fn_table4_3_def Fn_table59_def Fn_table63_def Fn_table63_2_def)

lemma in_fns: "(q, info) \<in> set tpls \<Longrightarrow> (q, function_of info) \<in> set (fns tpls)"
  by (force simp: fns_def)

lemma load_word:
  assumes "load_like (GetInterpreterOp inst)"
  shows "op_flags (GetOpInfo inst) AND FL_USE_FPU = 0" "\<not> IsInvalidPairedSingleExecution s inst" "inst \<noteq> 0"
proof -
  have l: "load_like (function_of (GetOpInfo inst))"
    using assms by (simp add: GetInterpreterOp_function_of)
  moreover have "\<not> load_like (function_of s_unknown_op_info)"
    using function_of_unknown by (simp add: all_instructions_def load_like_def)
  ultimately have u: "GetOpInfo inst \<noteq> s_unknown_op_info" by auto
  have other: "GetOpInfo inst \<notin> snd ` set (Info_table4_2 @ Info_table4_3 @ Info_table4)"
    "GetOpInfo inst \<notin> snd ` set (Info_table59 @ Info_table63 @ Info_table63_2)"
    using load_opcodes(3,4) l unfolding Fn_tables fns_def by force+
  have "op_flags (GetOpInfo inst) AND FL_USE_FPU = 0 \<and> \<not> IsPairedSingleInstruction inst \<and> OPCD inst \<noteq> 0"
    using GetOpInfo_source [of inst]
  proof (elim disjE conjE)
    assume q: "unat (OPCD inst) \<notin> {4, 19, 31, 59, 63}" "(unat (OPCD inst), GetOpInfo inst) \<in> set Info_primary_table"
    then have o: "unat (OPCD inst) \<noteq> 0 \<and> unat (OPCD inst) < 48"
      using load_opcodes(1) l in_fns [OF q(2)] unfolding Fn_tables by force
    then have "op_flags (GetOpInfo inst) AND FL_USE_FPU = 0" using float_opcodes(1) q(2) by force
    with o q(1) show ?thesis
      by (auto simp: IsPairedSingleInstruction_def IsPairedSingleQuantizedNonIndexedInstruction_def
          opcd_numbers)
  next
    assume q: "OPCD inst \<in> {19, 31}" "GetOpInfo inst \<in> snd ` set (Info_table19 @ Info_table31)"
    then obtain k where k: "(k, GetOpInfo inst) \<in> set Info_table19 \<or> (k, GetOpInfo inst) \<in> set Info_table31"
      by force
    have "op_flags (GetOpInfo inst) AND FL_USE_FPU = 0"
      using k
    proof
      assume "(k, GetOpInfo inst) \<in> set Info_table31"
      with load_opcodes(2) l in_fns [OF this] float_opcodes(3) show ?thesis unfolding Fn_table31 by fastforce
    qed (use float_opcodes(2) in force)
    with q(1) show ?thesis
      by (auto simp: IsPairedSingleInstruction_def IsPairedSingleQuantizedNonIndexedInstruction_def)
  qed (use u other in simp_all)
  then show "op_flags (GetOpInfo inst) AND FL_USE_FPU = 0" "\<not> IsInvalidPairedSingleExecution s inst" "inst \<noteq> 0"
    by (auto simp: IsInvalidPairedSingleExecution_def IsPairedSingleInstruction_def Let_def OPCD_def)
qed

lemma named_loads_facts:
  "\<forall>(name, ld, ea, n) \<in> set named_loads. (ld, ea, n) \<in> set integer_loads \<and> load_like name"
  by (simp add: named_loads_def integer_loads_def load_like_def)

lemma CheckExceptions_DSI:
  assumes "Exceptions (m_ppc_state i) AND EXCEPTION_DSI \<noteq> 0"
    "\<forall>b \<in> {EXCEPTION_ISI, EXCEPTION_PROGRAM, EXCEPTION_SYSCALL, EXCEPTION_FPU_UNAVAILABLE,
       EXCEPTION_FAKE_MEMCHECK_HIT}. Exceptions (m_ppc_state i) AND b = 0"
  shows "CheckExceptions i = MSRUpdated (on_ppc (enter_exception (pc (m_ppc_state i))
      (msr (m_ppc_state i) AND 0x87C0FFFF) 0x300 EXCEPTION_DSI) i)"
  using assms by (simp add: CheckExceptions_def Let_def)

lemma data_fault_bits:
  "Exceptions (data_fault a w s) AND EXCEPTION_DSI \<noteq> 0"
  "b \<in> {EXCEPTION_ISI, EXCEPTION_PROGRAM, EXCEPTION_SYSCALL, EXCEPTION_FPU_UNAVAILABLE,
     EXCEPTION_FAKE_MEMCHECK_HIT} \<Longrightarrow> Exceptions s AND b = 0 \<Longrightarrow> Exceptions (data_fault a w s) AND b = 0"
proof -
  show "Exceptions (data_fault a w s) AND EXCEPTION_DSI \<noteq> 0"
    using DSI_data_fault [of a w "(u, s)"] by (simp add: DSI_def on_cpu_def)
  assume "b \<in> {EXCEPTION_ISI, EXCEPTION_PROGRAM, EXCEPTION_SYSCALL, EXCEPTION_FPU_UNAVAILABLE,
     EXCEPTION_FAKE_MEMCHECK_HIT}" "Exceptions s AND b = 0"
  moreover from this(1) have "EXCEPTION_DSI AND b = 0" by (auto simp: exception_defs)
  ultimately show "Exceptions (data_fault a w s) AND b = 0"
    by (simp add: data_fault_def bit.conj_disj_distrib2)
qed

lemma DAR_neq: "SPR_DAR \<noteq> SPR_SRR0" "SPR_DAR \<noteq> SPR_SRR1" "SPR_DSISR \<noteq> SPR_SRR0" "SPR_DSISR \<noteq> SPR_SRR1"
  "SPR_DAR \<noteq> SPR_DSISR"
  by (simp_all add: SPR_DAR_def SPR_DSISR_def SPR_SRR0_def SPR_SRR1_def)


text \<open>\<^verbatim>\<open>lwzu r3, 8(r4)\<close> on the machine of the page table.\<close>

definition paged_core :: "unit core" where
  "paged_core = plain_core\<lparr>core_memory := fst paged_board,
     interpreter := boot_cpu\<lparr>m_ppc_state := snd paged_board\<rparr>\<rparr>"

lemma paged_core_fields: "m_ppc paged_core = snd paged_board" "core_memory paged_core = fst paged_board"
  by (simp_all add: paged_core_def plain_core_def m_ppc_def)

lemma lwzu_word: "GetInterpreterOp 0x84640008 = ''lwzu''"
proof -
  have "unat (OPCD 0x84640008) = 33" by (simp add: OPCD_def)
  then show ?thesis
    by (simp add: GetInterpreterOp_def fn_tables_built lookup_def Fn_primary_table_def)
qed


end
