(* ===== verification/Spec2Isabelle.thy ===== *)
theory Spec2Isabelle
  imports Range_Size_Set Bit_Set Fifo Clock_Ownership Frontend_Model Boot_Progress
    Integer_Semantics Interpreter_Branch Interpreter_System Decode_Tables
    Float_Convert Memory_Translation Exception_Entry
begin

text \<open>
  Phocoena is a port of the Dolphin GameCube emulator to the Nintendo Switch. This
  development models parts of its core (under \<^verbatim>\<open>upstream/dolphin/Source/Core\<close>): the data
  structures and bit utilities shared by the emulator, the PowerPC interpreter, the graphics
  command path from the GPU FIFO to the vertex loaders, and the components the port adds in
  \<^verbatim>\<open>Horizon\<close>.

  \<^bold>\<open>Parts and how they interact.\<close> The interpreter (\<^verbatim>\<open>Core/PowerPC/Interpreter\<close>) looks up the
  function of an instruction word in its tables and applies it to the processor state
  (\<^verbatim>\<open>PowerPCState\<close>); exceptions that an instruction raises are taken by \<^verbatim>\<open>CheckExceptions\<close>.
  Instruction fetch, loads and stores go through the memory management unit (\<^verbatim>\<open>MMU\<close>), which
  translates the address by blocks or by the page table, raises the exceptions of a failed
  translation and accesses main memory, the locked cache or a device. The game writes GPU
  commands into a ring in emulated memory. The graphics thread (\<^verbatim>\<open>VideoCommon/Fifo.cpp\<close>) copies
  one or several 32-byte blocks at a time into a video buffer and lets the opcode decoder
  (\<^verbatim>\<open>OpcodeDecoding\<close>) run over the bytes that are complete commands. Register writes change the
  command processor state (\<^verbatim>\<open>CPMemory\<close>); draws and size queries go through a cache of vertex
  loaders keyed by that state (\<^verbatim>\<open>VertexLoaderManager\<close>). Bit fields, bit sets and byte swaps of
  \<^verbatim>\<open>Common\<close> are used throughout; the range sets keep the free code space of the JITs. The
  frontend loads its settings, among them the size of the FIFO batches and the clock profile,
  raises the clocks for the time of the emulation and reports progress from callbacks of the
  emulator.

  \<^bold>\<open>Theories.\<close>
  \<^item> \<^verbatim>\<open>Prelude\<close>: machine types, the option monad for failing assertions, ordered maps with
    iterators as keys, shared lemmas.
  \<^item> \<^verbatim>\<open>Range_Set\<close>, \<^verbatim>\<open>Range_Size_Set\<close>: \<^verbatim>\<open>Common/RangeSet.h\<close>, \<^verbatim>\<open>RangeSizeSet.h\<close>, with every private helper.
    The contract of a set of points is the locale \<^verbatim>\<open>range_store\<close>, interpreted on both; the second
    refines the first.
  \<^item> \<^verbatim>\<open>Bit_Field\<close>, \<^verbatim>\<open>Bit_Set\<close>, \<^verbatim>\<open>Byte_Swap\<close>: \<^verbatim>\<open>Common/BitUtils.h\<close>, \<^verbatim>\<open>BitField.h\<close>, \<^verbatim>\<open>BitSet.h\<close>, \<^verbatim>\<open>Swap.h\<close>; laws of
    fields, of a set of bits and of memory access as locales.
  \<^item> \<^verbatim>\<open>Condition_Register\<close>, \<^verbatim>\<open>Gekko\<close>, \<^verbatim>\<open>PowerPC_State\<close>: \<^verbatim>\<open>Core/PowerPC/ConditionRegister\<close>, the fields of
    instruction words and registers (\<^verbatim>\<open>Gekko.h\<close>), the registers, feature flags and exceptions of
    \<^verbatim>\<open>PowerPC.{h,cpp}\<close>, \<^verbatim>\<open>ExceptionUtils.h\<close> and the status part of \<^verbatim>\<open>Interpreter_FPUtils.h\<close>. The
    invariant \<open>cpu_ok\<close> says that split and cached registers are consistent.
  \<^item> \<^verbatim>\<open>Interpreter_Integer\<close>, \<^verbatim>\<open>Integer_Semantics\<close>, \<^verbatim>\<open>Interpreter_Branch\<close>, \<^verbatim>\<open>Interpreter_System\<close>: every
    instruction of the files of these names, with proofs that they keep \<open>cpu_ok\<close>, and what they
    compute in terms of integers. Calls into other devices are recorded in the list \<open>host\<close>.
  \<^item> \<^verbatim>\<open>Decode_Tables\<close>: \<^verbatim>\<open>PPCTables.{h,cpp}\<close> and \<^verbatim>\<open>Interpreter_Tables.cpp\<close> entry by entry, and the
    look-ups in both.
  \<^item> \<^verbatim>\<open>Interpreter_LoadStore\<close>, \<^verbatim>\<open>Float_Convert\<close>: every instruction of \<^verbatim>\<open>Interpreter_LoadStore.cpp\<close> over
    a record of the operations it calls, and the conversions between single and double
    precision.
  \<^item> \<^verbatim>\<open>Memory_Management\<close>, \<^verbatim>\<open>Memory_Control\<close>: \<^verbatim>\<open>Core/PowerPC/MMU.{h,cpp}\<close> and the copies of
    \<^verbatim>\<open>Core/HW/Memmap.cpp\<close>: translation, look-aside buffer, page table, physical accesses, block
    tables, cache lines, transfers, instruction fetch and the queries of the host. The record
    \<open>MMU P\<close> collects what the instructions call; \<open>P\<close> holds the devices.
  \<^item> \<^verbatim>\<open>Memory_Bytes\<close>, \<^verbatim>\<open>LoadStore_Memory\<close>, \<^verbatim>\<open>String_Store\<close>: the interface \<open>byte_memory\<close> of a memory made
    of bytes and what the instructions do over it; \<^verbatim>\<open>Memory_RAM\<close> interprets it on \<open>MMU P\<close> for main
    memory.
  \<^item> \<^verbatim>\<open>Memory_Translation\<close>, \<^verbatim>\<open>Page_Table\<close>, \<^verbatim>\<open>Page_Fault\<close>: block translation against the architecture's
    comparison, the walk of a page table and the look-aside buffer, and a load without a
    translation.
  \<^item> \<^verbatim>\<open>Interpreter_Core\<close>: \<^verbatim>\<open>Interpreter.cpp\<close> and the dispatch of \<^verbatim>\<open>Interpreter_Tables.cpp\<close>, with a step,
    a block, a slice and the loop. \<^verbatim>\<open>Memory_Invariant\<close> states the interface \<open>kept_memory\<close>,
    interpreted on \<open>MMU P\<close>; \<^verbatim>\<open>Interpreter_Step\<close>, \<^verbatim>\<open>Float_Gate\<close> and \<^verbatim>\<open>Exception_Entry\<close> hold the properties
    of steps, \<^verbatim>\<open>Memory_Board\<close> and \<^verbatim>\<open>Interpreter_Board\<close> the concrete machines of the worked examples.
  \<^item> \<^verbatim>\<open>CP_Memory\<close>: \<^verbatim>\<open>VideoCommon/CPMemory.{h,cpp}\<close>: register unions as fields of words, \<^verbatim>\<open>CPState\<close> with
    its load and save operations and the writes \<^verbatim>\<open>FifoPlayer::LoadRegisters\<close> makes.
  \<^item> \<^verbatim>\<open>Vertex_Loader\<close>, \<^verbatim>\<open>Vertex_Manager\<close>: vertex sizes and components, the loader cache, its dirty
    bits and the array pointers; reachable states as an inductive predicate.
  \<^item> \<^verbatim>\<open>Opcode_Decoding\<close>: the decoder, parameterised by a callback, and the emulator's callback.
    The locale \<^verbatim>\<open>decoder_callback\<close> states what the decoder needs of a callback.
  \<^item> \<^verbatim>\<open>Fifo_Batch\<close>, \<^verbatim>\<open>Fifo\<close>: the batch planner, the video buffer and the body of the graphics thread
    loop, with ring pointers at their width.
  \<^item> \<^verbatim>\<open>Clock_Policy\<close>, \<^verbatim>\<open>Clock_Control\<close>, \<^verbatim>\<open>Clock_Ownership\<close>: \<^verbatim>\<open>Horizon/ClockPolicy.{h,cpp}\<close> and
    \<^verbatim>\<open>ClockControl.cpp\<close>: the clock session over a backend interface (the locale \<^verbatim>\<open>clock_backend\<close>),
    both backends as state machines over an arbitrary behaviour of the system services, and the
    ownership protocol they obey.
  \<^item> \<^verbatim>\<open>Frontend_Model\<close>: \<^verbatim>\<open>Horizon/FrontendModel.h\<close> and \<^verbatim>\<open>FileReplace.h\<close>: paths, directory listing,
    settings with their text format, replacement of a file on a file system that may fail.
  \<^item> \<^verbatim>\<open>Boot_Progress\<close>: \<^verbatim>\<open>Horizon/BootProgress.h\<close>: counters, the ring of present intervals and its
    summary.

  \<^bold>\<open>What is shown.\<close> Integer instructions compute the sums, products, quotients, orders and flags
  of the manual; branches are taken under its conditions and calls, loops and exceptions come
  back; registers read back what was written; the tables of the interpreter and of the
  instruction descriptions agree on every word. Main memory reads back what was written, also
  across pages; multiple and string transfers move their bytes and no others; block and page
  translation find what the architecture says, and a fetch or load without translation enters
  its handler and does nothing else. Every step keeps \<open>cpu_ok\<close>, and floating-point functions run
  only when enabled. Each container keeps its invariant and denotes the operation on sets;
  fields and swaps read back what was written and touch nothing else; the register state
  survives its memory image. The decoder ends on every input, reads nothing out of bounds and
  keeps the loader cache coherent; batching changes neither the registers nor the pending
  bytes. The clock session gives every clock back and never writes the memory clock. Settings
  survive saving and loading, and a failed save loses nothing. This theory adds a property
  through the whole command path.

  \<^bold>\<open>Conventions.\<close> Undefined behaviour, failing assertions and reads outside a buffer are \<open>None\<close>; a
  property that an operation returns \<open>Some\<close> excludes them. Machine integers are words; loops are
  recursive functions with termination proofs. The one use of fuel is the loop \<open>normalize\<close> of
  the conversion to double precision: it shifts a nonzero fraction of 23 bits until its top
  bit appears, so its 23 steps are enough, which \<open>normalize_shift\<close> proves. The loop of the
  interpreter may run for ever: it is a partial function, and not returning is \<open>None\<close>. A call
  from an instruction into another device is carried out when the instruction's function
  returns. Memory, services and file operations outside the sources are parameters; what is
  relied on is a named hypothesis with a witness.

  \<^bold>\<open>Not modelled.\<close> The arithmetic of the floating-point and paired instructions, which are
  parameters of the interpreter, the JITs, the host mappings they make of the page table, the
  data and instruction caches and the devices behind the memory management unit, the DSP, the
  GPU backends and shader generators, XF and BP registers, texture decoding, the desktop and
  Android interfaces and the vendored libraries: they depend on hardware, operating system
  services or code generation. Within the modelled parts: tracing and the loop of the
  debugger, formatters and log lines, GPU synchronisation and the deterministic GPU thread,
  vertex conversion, floating point results of the boot report.
\<close>

section \<open>Replaying a recording through the decoder\<close>

definition LoadRegisters_bytes :: "u32 list \<Rightarrow> u8 list" where
  "LoadRegisters_bytes xs = concat (map (\<lambda>(r, v). LoadCPReg_bytes (word_of_nat r) v) (LoadRegisters_cp xs))"

lemma length_LoadRegisters_bytes: "length (LoadRegisters_bytes xs) = 360"
proof -
  have "length (concat (map (\<lambda>(r, v). LoadCPReg_bytes (word_of_nat r) v) ws)) = 6 * length ws" for ws
    by (induction ws) auto
  moreover have "length (LoadRegisters_cp xs) = 60"
    by (simp add: LoadRegisters_cp_def length_concat o_def sum_list_triv field_defs)
  ultimately show ?thesis by (simp add: LoadRegisters_bytes_def)
qed

lemma replay_events:
  "fold (\<lambda>(r, v) s. RunCallback env (OnCommand (LoadCPReg_bytes r v)) (RunCallback env (OnCP_event r v) s)) ws s =
   fold (\<lambda>(r, v). OnCP env r v) ws s"
  by (induction ws arbitrary: s) (auto simp: RunCallback_def run_callback_basic_def)

lemma replay_registers:
  "cp (fold (\<lambda>(r, v). OnCP env (word_of_nat r) v) ws s) = fold (\<lambda>(r, v). load_at (is_wii env) r v) ws (cp s)"
  by (induction ws arbitrary: s) (auto simp: OnCP_fields load_at_def)

lemma replay_reachable:
  "loader_reachable env s \<Longrightarrow> loader_reachable env (fold (\<lambda>(r, v). OnCP env (word_of_nat r) v) ws s)"
  by (induction ws arbitrary: s) (auto intro: loader_reachable.cp_command)

text \<open>
  (C1) A recorded command processor state survives the way through the whole pipeline: from any
  reachable state of the emulator, decoding the 360 bytes of register writes that
  \<^verbatim>\<open>FifoPlayer::LoadRegisters\<close> makes of the recorded memory image consumes them all and leaves
  exactly the recorded registers, and the vertex loaders used next are those of the recorded
  state.
\<close>

theorem recording_restores_registers:
  assumes "cp_ok (is_wii env) c" "cp_ok (is_wii env) (cp s)" "length memory = 256" "loader_reachable env s"
  shows "\<exists>s'. Run (Callback_GetVertexSize env) (RunCallback env) (LoadRegisters_bytes (FillCPMemoryArray c memory)) 360 s =
      Some (360, s') \<and> cp s' = c \<and> (\<forall>grp<8. fst (RefreshLoader env grp s') = Some (fresh_loader c grp))"
proof -
  let ?ws = "LoadRegisters_cp (FillCPMemoryArray c memory)"
  let ?bytes = "LoadRegisters_bytes (FillCPMemoryArray c memory)"
  let ?s = "fold (\<lambda>(r, v). OnCP env (word_of_nat r) v) ?ws s"
  have b: "?bytes = concat (map (\<lambda>(r, v). LoadCPReg_bytes r v) (map (\<lambda>(r, v). (word_of_nat r, v)) ?ws))"
    by (auto simp: LoadRegisters_bytes_def intro!: arg_cong [of _ _ concat])
  have pair: "(\<lambda>(r, v). OnCP env r v) \<circ> (\<lambda>(r, v). (word_of_nat r, v)) = (\<lambda>(r, v). OnCP env (word_of_nat r) v)"
    by auto
  have "run_from (Callback_GetVertexSize env) (RunCallback env) ?bytes 360 0 s =
      Some (360, fold (\<lambda>(r, v). OnCP env r v) (map (\<lambda>(r, v). (word_of_nat r, v)) ?ws) s)"
    unfolding replay_events [symmetric]
    by (rule run_cp_stream) (simp_all only: b [symmetric] drop_0 unat_0, simp_all add: length_LoadRegisters_bytes)
  then have "Run (Callback_GetVertexSize env) (RunCallback env) ?bytes 360 s = Some (360, ?s)"
    unfolding Run_def fold_map by (simp add: pair)
  moreover have "cp ?s = c"
    using replay_memory [OF assms(2,1)] assms(1,3) by (simp add: replay_registers length_Fill CPState_round_trip)
  moreover have "fst (RefreshLoader env grp ?s) = Some (fresh_loader (cp ?s) grp)" if "grp < 8" for grp
    using RefreshLoader_ok(1) [OF reachable_ok [OF replay_reachable [OF assms(4)]] that] .
  ultimately show ?thesis by simp
qed

theorem recording_restores_registers_witness:
  "\<exists>s'. Run (Callback_GetVertexSize sample_env) (RunCallback sample_env)
      (LoadRegisters_bytes (FillCPMemoryArray CPState_default (replicate 256 7))) 360
      (OnCP sample_env 0x50 0x400 start_state) = Some (360, s') \<and> cp s' = CPState_default"
proof -
  have "cp_ok (is_wii sample_env) (cp (OnCP sample_env 0x50 0x400 start_state))"
    by (simp add: OnCP_fields loader_init_def loader_clear_def MarkAllDirty_def LoadCPReg_ok CPState_default_ok)
  from recording_restores_registers [OF CPState_default_ok this, of "replicate 256 7"]
  show ?thesis using loader_reachable.cp_command [OF start_reachable, of sample_env "0x50" "0x400"] by auto
qed

end
